(* ===== verification/K64_Prelude.thy ===== *)
theory K64_Prelude
  imports Main "HOL-Library.Word"
begin

unbundle bit_operations_syntax

text \<open>
  Shared vocabulary of the K64 development.

  \<^item> the C integer types used by the kernel as word types;
  \<^item> the outcome of a C function that reports success through a \<open>bool\<close> and may
    have written through its pointers before failing: a value, \<open>Fail\<close> (the C function
    returned \<open>false\<close>) or \<open>Fault\<close> (an access outside the object it addresses, undefined
    in C), always together with the state reached;
  \<^item> byte buffers: reading and writing a sub-range (\<open>memcpy\<close> at an offset),
    little-endian integers, bit maps packed in bytes;
  \<^item> generic lemmas on these, declared \<open>[simp]\<close> or collected in
    \<open>buffer_simps\<close>, \<open>bitmap_simps\<close> and \<open>op_simps\<close>.
\<close>

section \<open>Machine integers\<close>

type_synonym u8 = "8 word"
type_synonym u16 = "16 word"
type_synonym u32 = "32 word"
type_synonym u64 = "64 word"

type_synonym bytes = "u8 list"

named_theorems buffer_simps
named_theorems bitmap_simps
named_theorems op_simps

section \<open>Outcomes and state-passing operations\<close>

datatype 'a res = Ok 'a | Fail | Fault

type_synonym ('s, 'a) op = "'s \<Rightarrow> 'a res \<times> 's"

definition ret :: "'a \<Rightarrow> ('s, 'a) op" where
  "ret a s = (Ok a, s)"

definition fail :: "('s, 'a) op" where
  "fail s = (Fail, s)"

definition fault :: "('s, 'a) op" where
  "fault s = (Fault, s)"

definition bind :: "('s, 'a) op \<Rightarrow> ('a \<Rightarrow> ('s, 'b) op) \<Rightarrow> ('s, 'b) op" where
  "bind m f s = (case m s of
       (Ok a, s') \<Rightarrow> f a s'
     | (Fail, s') \<Rightarrow> (Fail, s')
     | (Fault, s') \<Rightarrow> (Fault, s'))"

text \<open>\<open>guard c k\<close> is the early return \<^verbatim>\<open>if (!c) return false;\<close> before \<open>k\<close>.\<close>

definition guard :: "bool \<Rightarrow> ('s, 'a) op \<Rightarrow> ('s, 'a) op" where
  "guard c k s = (if c then k s else (Fail, s))"

text \<open>\<open>in_bounds c k\<close> marks the point where C needs \<open>c\<close> for the access to be defined.\<close>

definition in_bounds :: "bool \<Rightarrow> ('s, 'a) op \<Rightarrow> ('s, 'a) op" where
  "in_bounds c k s = (if c then k s else (Fault, s))"

definition get :: "('s \<Rightarrow> 'a) \<Rightarrow> ('s, 'a) op" where
  "get f s = (Ok (f s), s)"

definition modify :: "('s \<Rightarrow> 's) \<Rightarrow> ('s, unit) op" where
  "modify f s = (Ok (), f s)"

text \<open>
  The result of a call used as a truth value: \<open>Fail\<close> becomes \<open>False\<close> and the
  computation goes on from the state the call left (\<^verbatim>\<open>(void)f(...)\<close>,
  \<^verbatim>\<open>if (!f(...)) { ... }\<close>).
\<close>

definition attempt :: "('s, 'a) op \<Rightarrow> ('s, 'a option) op" where
  "attempt m s = (case m s of
       (Ok a, s') \<Rightarrow> (Ok (Some a), s')
     | (Fail, s') \<Rightarrow> (Ok None, s')
     | (Fault, s') \<Rightarrow> (Fault, s'))"

lemma bind_simps [simp]:
  "bind (ret a) f s = f a s"
  "bind fail f s = (Fail, s)"
  "bind fault f s = (Fault, s)"
  "bind (get g) f s = f (g s) s"
  "bind (modify h) f' s = f' () (h s)"
  by (simp_all add: bind_def ret_def fail_def fault_def get_def modify_def)

lemma op_run [simp]:
  "ret a s = (Ok a, s)" "fail s = (Fail, s)" "fault s = (Fault, s)"
  "get g s = (Ok (g s), s)" "modify h s = (Ok (), h s)"
  by (simp_all add: ret_def fail_def fault_def get_def modify_def)

lemma guard_simps [simp]:
  "c \<Longrightarrow> guard c k s = k s"
  "\<not> c \<Longrightarrow> guard c k s = (Fail, s)"
  by (simp_all add: guard_def)

lemma in_bounds_simps [simp]:
  "c \<Longrightarrow> in_bounds c k s = k s"
  "\<not> c \<Longrightarrow> in_bounds c k s = (Fault, s)"
  by (simp_all add: in_bounds_def)

lemma bind_Ok_eq:
  "bind m f s = (Ok b, t) \<longleftrightarrow> (\<exists>a s'. m s = (Ok a, s') \<and> f a s' = (Ok b, t))"
  by (auto simp: bind_def split: prod.splits res.splits)

lemma guard_Ok_eq: "guard c k s = (Ok b, t) \<longleftrightarrow> c \<and> k s = (Ok b, t)"
  by (simp add: guard_def)

lemma in_bounds_Ok_eq: "in_bounds c k s = (Ok b, t) \<longleftrightarrow> c \<and> k s = (Ok b, t)"
  by (simp add: in_bounds_def)

lemma attempt_Ok_eq:
  "attempt m s = (Ok r, t) \<longleftrightarrow>
     (\<exists>a. m s = (Ok a, t) \<and> r = Some a) \<or> (m s = (Fail, t) \<and> r = None)"
  by (auto simp: attempt_def split: prod.splits res.splits)

lemmas op_Ok_eqs = bind_Ok_eq guard_Ok_eq in_bounds_Ok_eq attempt_Ok_eq

lemma bind_run: "m s = (Ok a, s') \<Longrightarrow> bind m f s = f a s'"
  by (simp add: bind_def)

lemma bind_run_Fail: "m s = (Fail, s') \<Longrightarrow> bind m f s = (Fail, s')"
  by (simp add: bind_def)

lemma attempt_run: "m s = (Ok a, s') \<Longrightarrow> attempt m s = (Ok (Some a), s')"
  by (simp add: attempt_def)

lemma attempt_run_Fail: "m s = (Fail, s') \<Longrightarrow> attempt m s = (Ok None, s')"
  by (simp add: attempt_def)

section \<open>Byte buffers\<close>

text \<open>
  \<open>bytes_at off n buf\<close> is the \<open>n\<close> bytes at offset \<open>off\<close>;
  \<open>put_at off d buf\<close> is \<open>buf\<close> after \<^verbatim>\<open>memcpy(buf + off, d, length d)\<close>.
\<close>

definition bytes_at :: "nat \<Rightarrow> nat \<Rightarrow> 'a list \<Rightarrow> 'a list" where
  "bytes_at off n buf = take n (drop off buf)"

definition put_at :: "nat \<Rightarrow> 'a list \<Rightarrow> 'a list \<Rightarrow> 'a list" where
  "put_at off d buf = take off buf @ d @ drop (off + length d) buf"

lemma length_bytes_at [simp]: "length (bytes_at off n buf) = min n (length buf - off)"
  by (simp add: bytes_at_def)

lemma length_put_at [simp]:
  "off + length d \<le> length buf \<Longrightarrow> length (put_at off d buf) = length buf"
  by (simp add: put_at_def)

lemma nth_bytes_at: "i < n \<Longrightarrow> off + n \<le> length buf \<Longrightarrow> bytes_at off n buf ! i = buf ! (off + i)"
  by (simp add: bytes_at_def)

lemma nth_put_at:
  "off + length d \<le> length buf \<Longrightarrow> i < length buf \<Longrightarrow>
   put_at off d buf ! i =
     (if off \<le> i \<and> i < off + length d then d ! (i - off) else buf ! i)"
  by (auto simp: put_at_def nth_append min_def)

lemma bytes_at_put_same:
  "off + length d \<le> length buf \<Longrightarrow> n = length d \<Longrightarrow> bytes_at off n (put_at off d buf) = d"
  by (simp add: bytes_at_def put_at_def)

lemma bytes_at_put_other:
  assumes "off + length d \<le> length buf" and "o' + n \<le> length buf"
    and "o' + n \<le> off \<or> off + length d \<le> o'"
  shows "bytes_at o' n (put_at off d buf) = bytes_at o' n buf"
proof (rule nth_equalityI)
  fix i assume "i < length (bytes_at o' n (put_at off d buf))"
  with assms(1,2) have "i < n" by simp
  with assms show "bytes_at o' n (put_at off d buf) ! i = bytes_at o' n buf ! i"
    by (auto simp: nth_bytes_at nth_put_at)
qed (use assms in simp)

lemma bytes_at_put_any:
  assumes "off + length d \<le> length buf" and "o' + n \<le> off \<or> off + length d \<le> o'"
  shows "bytes_at o' n (put_at off d buf) = bytes_at o' n buf"
  using assms(2)
proof
  assume "o' + n \<le> off"
  with assms(1) have "n \<le> off - o'" "o' \<le> off" "off \<le> length buf" by auto
  then show ?thesis by (simp add: bytes_at_def put_at_def drop_take)
next
  assume "off + length d \<le> o'"
  with assms(1) show ?thesis by (simp add: bytes_at_def put_at_def)
qed

lemma bytes_at_all [simp]: "bytes_at 0 (length buf) buf = buf"
  by (simp add: bytes_at_def)

lemma bytes_at_0: "n = length buf \<Longrightarrow> bytes_at 0 n buf = buf"
  by (simp add: bytes_at_def)

lemma bytes_at_replicate: "o' + n \<le> m \<Longrightarrow> bytes_at o' n (replicate m x) = replicate n x"
  by (simp add: bytes_at_def min_def)

lemma bytes_at_bytes_at:
  "i + n \<le> m \<Longrightarrow> bytes_at i n (bytes_at off m buf) = bytes_at (off + i) n buf"
  by (simp add: bytes_at_def drop_take add.commute)

lemmas buffer_facts [buffer_simps] =
  nth_bytes_at nth_put_at bytes_at_put_same bytes_at_put_other bytes_at_replicate bytes_at_bytes_at

section \<open>Little-endian integers\<close>

fun le_enc :: "nat \<Rightarrow> 'a::len word \<Rightarrow> bytes" where
  "le_enc 0 w = []"
| "le_enc (Suc n) w = ucast w # le_enc n (drop_bit 8 w)"

fun le_dec :: "bytes \<Rightarrow> 'a::len word" where
  "le_dec [] = 0"
| "le_dec (b # bs) = ucast b OR push_bit 8 (le_dec bs)"

lemma length_le_enc [simp]: "length (le_enc n w) = n"
  by (induction n arbitrary: w) auto

lemma le_dec_le_enc_take: "le_dec (le_enc n w) = take_bit (8 * n) (w :: 'a::len word)"
proof (induction n arbitrary: w)
  case 0
  then show ?case by simp
next
  case (Suc n)
  show ?case
  proof (rule bit_word_eqI)
    fix i assume i: "i < LENGTH('a)"
    then show "bit (le_dec (le_enc (Suc n) w) :: 'a word) i = bit (take_bit (8 * Suc n) w) i"
      by (auto simp: Suc.IH bit_simps)
  qed
qed

lemma le_dec_le_enc:
  "LENGTH('a) \<le> 8 * n \<Longrightarrow> le_dec (le_enc n w) = (w :: 'a::len word)"
  by (simp add: le_dec_le_enc_take take_bit_word_eq_self)

lemma le_enc_cong:
  "(\<And>i. i < 8 * k \<Longrightarrow> bit v i = bit v' i) \<Longrightarrow> le_enc k v = le_enc k v'"
proof (induction k arbitrary: v v')
  case 0
  then show ?case by simp
next
  case (Suc k)
  have "(ucast v :: u8) = ucast v'"
    using Suc.prems by (intro bit_word_eqI) (auto simp: bit_simps)
  moreover have "le_enc k (drop_bit 8 v) = le_enc k (drop_bit 8 v')"
    by (rule Suc.IH) (use Suc.prems in \<open>auto simp: bit_simps\<close>)
  ultimately show ?case by simp
qed

lemma le_enc_le_dec:
  "8 * length bs \<le> LENGTH('a) \<Longrightarrow> le_enc (length bs) (le_dec bs :: 'a::len word) = bs"
proof (induction bs)
  case Nil
  then show ?case by simp
next
  case (Cons b bs)
  let ?r = "le_dec bs :: 'a word"
  have "ucast (ucast b OR push_bit 8 ?r :: 'a word) = b"
    using Cons.prems by (intro bit_word_eqI) (auto simp: bit_simps)
  moreover have "le_enc (length bs) (drop_bit 8 (ucast b OR push_bit 8 ?r)) = le_enc (length bs) ?r"
    by (rule le_enc_cong) (use Cons.prems in \<open>auto simp: bit_simps dest: bit_imp_le_length\<close>)
  ultimately show ?case using Cons by simp
qed

lemma le_enc_0 [simp]: "le_enc n 0 = replicate n 0"
  by (induction n) auto

lemma le_dec_replicate_0 [simp]: "le_dec (replicate n 0) = 0"
  by (induction n) auto

section \<open>Bit maps packed in bytes\<close>

text \<open>
  \<open>or_bit bm i\<close> is \<^verbatim>\<open>bm[i / 8] |= 1 << (i % 8)\<close>, \<open>andn_bit bm i\<close> is
  \<^verbatim>\<open>bm[i / 8] &= ~(1 << (i % 8))\<close>, \<open>bitmap_bit bm i\<close> the bit itself.
\<close>

definition bitmap_bit :: "bytes \<Rightarrow> nat \<Rightarrow> bool" where
  "bitmap_bit bm i = bit (bm ! (i div 8)) (i mod 8)"

definition or_bit :: "bytes \<Rightarrow> nat \<Rightarrow> bytes" where
  "or_bit bm i = bm[i div 8 := bm ! (i div 8) OR push_bit (i mod 8) 1]"

definition andn_bit :: "bytes \<Rightarrow> nat \<Rightarrow> bytes" where
  "andn_bit bm i = bm[i div 8 := bm ! (i div 8) AND NOT (push_bit (i mod 8) 1)]"

lemma and_one_bit_neq_0: "(w AND push_bit n 1 \<noteq> 0) = bit (w :: 'a::len word) n"
proof
  assume "bit w n"
  then have "bit (w AND push_bit n 1) n" by (auto simp: bit_simps dest: bit_imp_le_length)
  then show "w AND push_bit n 1 \<noteq> 0" by auto
next
  assume "w AND push_bit n 1 \<noteq> 0"
  then obtain k where "bit (w AND push_bit n 1) k" by (auto simp: bit_eq_iff)
  then show "bit w n" by (auto simp: bit_simps)
qed

lemma length_or_bit [simp]: "length (or_bit bm i) = length bm"
  by (simp add: or_bit_def)

lemma length_andn_bit [simp]: "length (andn_bit bm i) = length bm"
  by (simp add: andn_bit_def)

lemma div_mod_8_eq: "(i::nat) div 8 = j div 8 \<Longrightarrow> (i mod 8 = j mod 8) = (i = j)"
  by (metis div_mod_decomp)

lemma bitmap_bit_or_bit [bitmap_simps]:
  assumes "i < 8 * length bm"
  shows "bitmap_bit (or_bit bm i) j = (j = i \<or> bitmap_bit bm j)"
proof (cases "j div 8 = i div 8")
  case True
  moreover have "i div 8 < length bm" using assms by auto
  ultimately show ?thesis
    by (auto simp: bitmap_bit_def or_bit_def bit_simps div_mod_8_eq [OF True])
next
  case False
  then show ?thesis by (auto simp: bitmap_bit_def or_bit_def)
qed

lemma bitmap_bit_andn_bit [bitmap_simps]:
  assumes "i < 8 * length bm"
  shows "bitmap_bit (andn_bit bm i) j = (j \<noteq> i \<and> bitmap_bit bm j)"
proof (cases "j div 8 = i div 8")
  case True
  moreover have "i div 8 < length bm" using assms by auto
  ultimately show ?thesis
    by (auto simp: bitmap_bit_def andn_bit_def bit_simps div_mod_8_eq [OF True])
next
  case False
  then show ?thesis by (auto simp: bitmap_bit_def andn_bit_def)
qed

text \<open>The set of marked positions below a bound, and how it counts.\<close>

definition marked :: "bytes \<Rightarrow> nat \<Rightarrow> nat \<Rightarrow> nat set" where
  "marked bm lo hi = {i. lo \<le> i \<and> i < hi \<and> bitmap_bit bm i}"

definition unmarked :: "bytes \<Rightarrow> nat \<Rightarrow> nat \<Rightarrow> nat set" where
  "unmarked bm lo hi = {i. lo \<le> i \<and> i < hi \<and> \<not> bitmap_bit bm i}"

lemma finite_marked [simp]: "finite (marked bm lo hi)"
  by (rule finite_subset [of _ "{..<hi}"]) (auto simp: marked_def)

lemma finite_unmarked [simp]: "finite (unmarked bm lo hi)"
  by (rule finite_subset [of _ "{..<hi}"]) (auto simp: unmarked_def)

lemma marked_or_bit [bitmap_simps]:
  "i < 8 * length bm \<Longrightarrow> lo \<le> i \<Longrightarrow> i < hi \<Longrightarrow> marked (or_bit bm i) lo hi = insert i (marked bm lo hi)"
  by (auto simp: marked_def bitmap_simps)

lemma marked_andn_bit [bitmap_simps]:
  "i < 8 * length bm \<Longrightarrow> marked (andn_bit bm i) lo hi = marked bm lo hi - {i}"
  by (auto simp: marked_def bitmap_simps)

lemma bitmap_bit_replicate_0 [simp]:
  "i < 8 * n \<Longrightarrow> bitmap_bit (replicate n 0) i = False"
  by (simp add: bitmap_bit_def less_mult_imp_div_less mult.commute)

lemma bytes_eq_by_bits:
  assumes "length a = length b" and "\<And>i. i < 8 * length a \<Longrightarrow> bitmap_bit a i = bitmap_bit b i"
  shows "a = b"
proof (rule nth_equalityI [OF assms(1)])
  fix k assume k: "k < length a"
  show "a ! k = b ! k"
  proof (rule bit_word_eqI)
    fix n assume "n < LENGTH(8)"
    with k assms(2) [of "8 * k + n"] show "bit (a ! k) n = bit (b ! k) n"
      by (simp add: bitmap_bit_def)
  qed
qed

section \<open>Searching a range\<close>

lemma find_append:
  "find P (xs @ ys) = (case find P xs of None \<Rightarrow> find P ys | Some x \<Rightarrow> Some x)"
  by (induction xs) auto

lemma find_SomeD: "find P xs = Some x \<Longrightarrow> x \<in> set xs \<and> P x"
  by (induction xs) (auto split: if_splits)

lemma find_upt_None: "find P [a..<b] = None \<longleftrightarrow> (\<forall>i. a \<le> i \<and> i < b \<longrightarrow> \<not> P i)"
  by (auto simp: find_None_iff)

lemma find_upt_skip:
  assumes "\<And>i. a \<le> i \<Longrightarrow> i < c \<Longrightarrow> \<not> P i" and "a \<le> c"
  shows "find P [a..<b] = find P [c..<b]"
proof (cases "c \<le> b")
  case True
  then have "[a..<b] = [a..<c] @ [c..<b]"
    using assms(2) upt_add_eq_append [of a c "b - c"] by simp
  moreover have "find P [a..<c] = None" using assms(1) by (auto simp: find_upt_None)
  ultimately show ?thesis by (simp add: find_append)
next
  case False
  with assms(1) have "find P [a..<b] = None" by (auto simp: find_upt_None)
  with False show ?thesis by simp
qed

section \<open>Alignment\<close>

lemma unat_and_not_mask: "unat (a AND NOT (mask n) :: 'a::len word) = unat a - unat a mod 2 ^ n"
proof -
  have "(a AND NOT (mask n)) + (a AND mask n) = (a AND NOT (mask n)) OR (a AND mask n)"
    by (rule disjunctive_add_eq_or) (rule bit_word_eqI, auto simp: bit_simps)
  also have "\<dots> = a" by (rule bit_word_eqI) (auto simp: bit_simps)
  finally have "a AND NOT (mask n) = a - (a AND mask n)" by (simp add: eq_diff_eq)
  moreover have "unat (a AND mask n) = unat a mod 2 ^ n"
    by (metis take_bit_eq_mask take_bit_eq_mod unsigned_take_bit_eq)
  moreover have "a AND mask n \<le> a" by (simp add: word_and_le2)
  ultimately show ?thesis by (simp add: unat_sub)
qed

section \<open>Widths\<close>

lemma unat_less_2p: "unat (w :: 'a::len word) < 2 ^ LENGTH('a)"
  by (fact unsigned_less)

lemma unat_u8_less: "unat (a :: u8) < 256" using unat_less_2p [of a] by simp
lemma unat_u16_less: "unat (a :: u16) < 65536" using unat_less_2p [of a] by simp
lemma unat_u32_less: "unat (a :: u32) < 4294967296" using unat_less_2p [of a] by simp
lemma unat_u64_less: "unat (a :: u64) < 18446744073709551616" using unat_less_2p [of a] by simp

lemma unat_ucast_up:
  "LENGTH('a) \<le> LENGTH('b) \<Longrightarrow> unat (ucast (a :: 'a::len word) :: 'b::len word) = unat a"
proof -
  assume "LENGTH('a) \<le> LENGTH('b)"
  then have "unat a < 2 ^ LENGTH('b)"
    by (rule order_less_le_trans [OF unat_less_2p power_increasing]) simp
  then show ?thesis by (simp add: unsigned_ucast_eq take_bit_nat_eq_self)
qed

lemma unat_ucast_widths [simp]:
  "unat (ucast (a :: u32) :: u64) = unat a" "unat (ucast (b :: u16) :: u64) = unat b"
  "unat (ucast (b :: u16) :: u32) = unat b" "unat (ucast (c :: u8) :: u32) = unat c"
  by (simp_all add: unat_ucast_up)

lemma unat_add_no_wrap:
  "unat a + unat b < 2 ^ LENGTH('a) \<Longrightarrow> unat (a + b :: 'a::len word) = unat a + unat b"
  by (simp add: unat_word_ariths)

lemma unat_of_nat_small: "n < 2 ^ LENGTH('a) \<Longrightarrow> unat (of_nat n :: 'a::len word) = n"
  by (simp add: unsigned_of_nat take_bit_nat_eq_self)

end
