(* ===== verification/K64_String.thy ===== *)
theory K64_String
  imports K64_Prelude
begin

text \<open>
  The freestanding string and memory helpers of \<^verbatim>\<open>src/k64_string.c\<close>.

  A NUL-terminated C string is the list of its characters up to the terminator, a
  pointer to one that may be NULL is a \<open>string option\<close>. Memory is a function from
  addresses to bytes, so that overlapping ranges are shared. The bounded copy and append
  loops that several kernel files define locally (\<^verbatim>\<open>copy_string\<close>, \<^verbatim>\<open>xfs_copy\<close>,
  \<^verbatim>\<open>fs_copy\<close>, \<^verbatim>\<open>fs_append\<close>, ...) are \<open>str_copy\<close> and \<open>str_append\<close>.

  Shown here: comparison decides equality of (prefixes of) strings, \<open>memmove\<close> copies
  correctly whatever the overlap, \<open>memcpy\<close> does when the ranges do not overlap.
\<close>

section \<open>Strings\<close>

type_synonym cstr = "string option"

abbreviation str_of :: "cstr \<Rightarrow> string" where
  "str_of s \<equiv> (case s of None \<Rightarrow> [] | Some t \<Rightarrow> t)"

definition k64_strlen :: "cstr \<Rightarrow> nat" where
  "k64_strlen s = (case s of None \<Rightarrow> 0 | Some t \<Rightarrow> length t)"

text \<open>The byte at the pointer: the terminator at the end of the list.\<close>

definition chr_at :: "string \<Rightarrow> int" where
  "chr_at s = (case s of [] \<Rightarrow> 0 | c # _ \<Rightarrow> of_char c)"

text \<open>
  The loop \<^verbatim>\<open>while (n-- && *a && *b)\<close> leaves \<open>n\<close> decremented once more: at
  \<open>SIZE_MAX\<close> when the count ran out (then \<open>(int)n\<close> is negative), otherwise at the count
  that was left, which is read back as a 32-bit \<open>int\<close>.
\<close>

fun k64_strncmp :: "string \<Rightarrow> string \<Rightarrow> nat \<Rightarrow> int" where
  "k64_strncmp a b 0 = 0"
| "k64_strncmp (x # a) (y # b) (Suc n) =
     (if x \<noteq> y then of_char x - of_char y else k64_strncmp a b n)"
| "k64_strncmp a b (Suc n) =
     (if 0 \<le> sint (of_nat n :: 32 word) \<and> (a \<noteq> [] \<or> b \<noteq> [])
      then chr_at a - chr_at b else 0)"

definition k64_strcmp :: "cstr \<Rightarrow> cstr \<Rightarrow> int" where
  "k64_strcmp a b =
     (let max_len = (if k64_strlen b > k64_strlen a then k64_strlen b else k64_strlen a)
      in k64_strncmp (str_of a) (str_of b) (max_len + 1))"

definition k64_streq :: "cstr \<Rightarrow> cstr \<Rightarrow> bool" where
  "k64_streq a b = (k64_strcmp a b = 0)"

text \<open>A C string holds no NUL; kernel strings are shorter than \<open>2 ^ 31\<close>.\<close>

definition c_string :: "string \<Rightarrow> bool" where
  "c_string s \<longleftrightarrow> CHR 0x00 \<notin> set s \<and> length s < 2 ^ 31"

lemma sint_of_nat_nonneg: "n < 2 ^ 31 \<Longrightarrow> 0 \<le> sint (of_nat n :: 32 word)"
proof -
  assume "n < 2 ^ 31"
  then have "sint (of_nat n :: 32 word) = int n"
    by (subst sint_uint)
      (simp add: uint_nat unat_of_nat take_bit_nat_eq_self signed_take_bit_int_eq_self)
  then show ?thesis by simp
qed

lemma of_char_pos: "c \<noteq> CHR 0x00 \<Longrightarrow> (of_char c :: int) \<noteq> 0"
proof
  assume "c \<noteq> CHR 0x00" and "(of_char c :: int) = 0"
  then have "(of_char c :: int) = of_char (CHR 0x00)" by simp
  with \<open>c \<noteq> CHR 0x00\<close> show False by (simp only: of_char_eq_iff)
qed

lemma chr_at_eq_0: "CHR 0x00 \<notin> set s \<Longrightarrow> chr_at s = 0 \<longleftrightarrow> s = []"
  by (auto simp: chr_at_def of_char_pos split: list.splits)

lemma k64_strncmp_eq_0:
  "CHR 0x00 \<notin> set a \<Longrightarrow> CHR 0x00 \<notin> set b \<Longrightarrow> n \<le> 2 ^ 31 \<Longrightarrow>
   k64_strncmp a b n = 0 \<longleftrightarrow> take n a = take n b"
proof (induction a b n rule: k64_strncmp.induct)
  case (1 a b)
  then show ?case by simp
next
  case (2 x a y b n)
  then show ?case by auto
qed (use chr_at_eq_0 in \<open>auto simp: sint_of_nat_nonneg chr_at_def\<close>)

lemma k64_streq_iff:
  assumes "c_string (str_of a)" and "c_string (str_of b)"
  shows "k64_streq a b \<longleftrightarrow> str_of a = str_of b"
proof -
  let ?n = "max (length (str_of a)) (length (str_of b))"
  have len: "k64_strlen s = length (str_of s)" for s
    by (simp add: k64_strlen_def split: option.splits)
  have "k64_strcmp a b = k64_strncmp (str_of a) (str_of b) (?n + 1)"
    by (simp add: k64_strcmp_def len max_def)
  moreover have "?n + 1 \<le> 2 ^ 31" using assms by (simp add: c_string_def)
  ultimately show ?thesis
    using assms by (simp add: k64_streq_def k64_strncmp_eq_0 c_string_def)
qed

lemma k64_streq_Some [simp]:
  "c_string a \<Longrightarrow> c_string b \<Longrightarrow> k64_streq (Some a) (Some b) \<longleftrightarrow> a = b"
  using k64_streq_iff [of "Some a" "Some b"] by simp

section \<open>Character arrays\<close>

text \<open>
  \<open>array_str\<close> reads a character array as a C string, \<open>char_array\<close> is a zeroed array with a string
  copied to its start.
\<close>

definition byte_char :: "u8 \<Rightarrow> char" where
  "byte_char b = char_of (unat b)"

definition char_byte :: "char \<Rightarrow> u8" where
  "char_byte c = of_nat (of_char c)"

definition array_str :: "bytes \<Rightarrow> string" where
  "array_str bs = takeWhile (\<lambda>c. c \<noteq> CHR 0x00) (map byte_char bs)"

definition char_array :: "nat \<Rightarrow> string \<Rightarrow> bytes" where
  "char_array n s = put_at 0 (map char_byte s) (replicate n 0)"

lemma byte_char_byte [simp]: "byte_char (char_byte c) = c"
proof -
  have "(of_char c :: nat) < 256" by simp
  then show ?thesis by (simp add: byte_char_def char_byte_def unat_of_nat_small)
qed

lemma char_byte_char [simp]: "char_byte (byte_char b) = b"
  using unat_u8_less [of b] by (simp add: byte_char_def char_byte_def of_char_of)

lemma byte_char_0 [simp]: "byte_char 0 = CHR 0x00"
  by (simp add: byte_char_def char_of_def)

lemma length_char_array [simp]: "length s \<le> n \<Longrightarrow> length (char_array n s) = n"
  by (simp add: char_array_def)

lemma array_str_char_array:
  assumes "CHR 0x00 \<notin> set s" and "length s \<le> n"
  shows "array_str (char_array n s) = s"
proof -
  have "map byte_char (char_array n s) = s @ replicate (n - length s) CHR 0x00"
    using assms(2) by (simp add: char_array_def put_at_def comp_def)
  moreover have "takeWhile (\<lambda>c. c \<noteq> CHR 0x00) (s @ replicate k CHR 0x00) = s" for k
    using assms(1) by (subst takeWhile_append2) (auto simp: takeWhile_replicate)
  ultimately show ?thesis by (simp add: array_str_def)
qed

section \<open>Bounded copy and append\<close>

text \<open>
  \<^verbatim>\<open>while (src[i] && i + 1 < dst_size) { dst[i] = src[i]; i++; } dst[i] = 0;\<close>
  A zero-sized destination is not written.
\<close>

fun copy_from :: "nat \<Rightarrow> nat \<Rightarrow> string \<Rightarrow> string" where
  "copy_from i sz [] = []"
| "copy_from i sz (c # cs) = (if i + 1 < sz then c # copy_from (i + 1) sz cs else [])"

definition str_copy :: "string \<Rightarrow> nat \<Rightarrow> cstr \<Rightarrow> string" where
  "str_copy dst sz src =
     (if sz = 0 then dst else case src of None \<Rightarrow> [] | Some s \<Rightarrow> copy_from 0 sz s)"

definition str_append :: "string \<Rightarrow> nat \<Rightarrow> cstr \<Rightarrow> string" where
  "str_append dst sz src =
     dst @ (case src of None \<Rightarrow> [] | Some s \<Rightarrow> copy_from (length dst) sz s)"

lemma copy_from_take: "copy_from i sz s = take (sz - 1 - i) s"
proof (induction i sz s rule: copy_from.induct)
  case (2 i sz c cs)
  have "sz - 1 - i = Suc (sz - 1 - (i + 1))" if "i + 1 < sz"
    using that by simp
  with 2 show ?case by auto
qed simp

lemma str_copy_Some [simp]: "0 < sz \<Longrightarrow> str_copy dst sz (Some s) = take (sz - 1) s"
  by (simp add: str_copy_def copy_from_take)

lemma str_copy_None [simp]: "0 < sz \<Longrightarrow> str_copy dst sz None = []"
  by (simp add: str_copy_def)

lemma str_append_Some [simp]:
  "str_append dst sz (Some s) = dst @ take (sz - 1 - length dst) s"
  by (simp add: str_append_def copy_from_take)

lemma length_str_append: "length dst < sz \<Longrightarrow> length (str_append dst sz s) < sz"
  by (cases s) (auto simp: str_append_def copy_from_take)

text \<open>The decimal digits of a number, the last one first; 64-bit numbers have at most 20.\<close>

fun digits_rev :: "nat \<Rightarrow> string" where
  "digits_rev n = (if n = 0 then [] else char_of (48 + n mod 10) # digits_rev (n div 10))"

declare digits_rev.simps [simp del]

section \<open>Memory\<close>

type_synonym memory = "nat \<Rightarrow> u8"

text \<open>\<^verbatim>\<open>d[i] = s[i];\<close>\<close>

definition copy_byte :: "nat \<Rightarrow> nat \<Rightarrow> nat \<Rightarrow> memory \<Rightarrow> memory" where
  "copy_byte dst src i m = m(dst + i := m (src + i))"

definition memcpy :: "nat \<Rightarrow> nat \<Rightarrow> nat \<Rightarrow> memory \<Rightarrow> memory" where
  "memcpy dst src n m = fold (copy_byte dst src) [0..<n] m"

definition memset :: "nat \<Rightarrow> int \<Rightarrow> nat \<Rightarrow> memory \<Rightarrow> memory" where
  "memset dst value n m = fold (\<lambda>i m. m(dst + i := of_int value)) [0..<n] m"

definition memmove :: "nat \<Rightarrow> nat \<Rightarrow> nat \<Rightarrow> memory \<Rightarrow> memory" where
  "memmove dst src n m =
     (if dst = src \<or> n = 0 then m
      else if dst < src then fold (copy_byte dst src) [0..<n] m
      else fold (\<lambda>i. copy_byte dst src (i - 1)) (rev [1..<n + 1]) m)"

text \<open>What a copy of \<open>n\<close> bytes is meant to do, with the source read before any write.\<close>

definition copied :: "nat \<Rightarrow> nat \<Rightarrow> nat \<Rightarrow> memory \<Rightarrow> memory" where
  "copied dst src n m = (\<lambda>a. if dst \<le> a \<and> a < dst + n then m (src + (a - dst)) else m a)"

lemma forward_copy:
  "dst \<le> src \<or> src + n \<le> dst \<Longrightarrow> fold (copy_byte dst src) [0..<n] m = copied dst src n m"
proof (induction n)
  case 0
  then show ?case by (auto simp: copied_def fun_eq_iff)
next
  case (Suc n)
  then have "fold (copy_byte dst src) [0..<n] m = copied dst src n m" by linarith
  with Suc.prems have "fold (copy_byte dst src) [0..<Suc n] m = copy_byte dst src n (copied dst src n m)"
    by simp
  also have "\<dots> = copied dst src (Suc n) m"
    using Suc.prems by (auto simp: copied_def copy_byte_def fun_eq_iff)
  finally show ?case .
qed

lemma backward_copy:
  "src \<le> dst \<Longrightarrow> fold (\<lambda>i. copy_byte dst src (i - 1)) (rev [1..<n + 1]) m = copied dst src n m"
proof (induction n arbitrary: m)
  case 0
  then show ?case by (auto simp: copied_def fun_eq_iff)
next
  case (Suc n)
  have "fold (\<lambda>i. copy_byte dst src (i - 1)) (rev [1..<Suc n + 1]) m
      = fold (\<lambda>i. copy_byte dst src (i - 1)) (rev [1..<n + 1]) (copy_byte dst src n m)"
    by simp
  also have "\<dots> = copied dst src n (copy_byte dst src n m)"
    by (rule Suc.IH [OF Suc.prems])
  also have "\<dots> = copied dst src (Suc n) m"
    using Suc.prems by (auto simp: copied_def copy_byte_def fun_eq_iff less_Suc_eq)
  finally show ?case .
qed

lemma memmove_copied: "memmove dst src n m = copied dst src n m"
proof (cases "dst = src \<or> n = 0")
  case True
  then show ?thesis by (auto simp: memmove_def copied_def fun_eq_iff)
next
  case False
  then show ?thesis
    using backward_copy [of src dst n m] forward_copy [of dst src n m]
    unfolding memmove_def by (cases "dst < src") simp_all
qed

lemma memset_fills:
  "memset dst v n m a = (if dst \<le> a \<and> a < dst + n then of_int v else m a)"
  by (induction n) (auto simp: memset_def)

section \<open>Properties\<close>

text \<open>\<^verbatim>\<open>k64_streq\<close> decides equality of two kernel strings, a NULL
  pointer counting as the empty string; \<^verbatim>\<open>k64_strncmp\<close> returns zero exactly when the
  first \<open>n\<close> characters agree.\<close>

theorem string_comparison_decides_equality:
  assumes "c_string (str_of a)" and "c_string (str_of b)" and "n \<le> 2 ^ 31"
  shows "k64_streq a b = (str_of a = str_of b) \<and>
    (k64_strncmp (str_of a) (str_of b) n = 0) = (take n (str_of a) = take n (str_of b))"
  using assms by (simp add: k64_streq_iff k64_strncmp_eq_0 c_string_def)

theorem string_comparison_decides_equality_witness:
  "k64_streq (Some ''k64'') (Some ''k64s'') = False
   \<and> (k64_strncmp ''k64'' ''k64s'' 3 = 0) = True"
proof -
  have h: "c_string (str_of (Some ''k64''))" "c_string (str_of (Some ''k64s''))" "(3::nat) \<le> 2 ^ 31"
    by (simp_all add: c_string_def)
  show ?thesis
    using string_comparison_decides_equality [OF h] by simp
qed

text \<open>C1: \<^verbatim>\<open>memmove\<close> leaves the destination range equal to what the source range held
  before the call and changes nothing else, for every overlap of the two ranges.\<close>

theorem memmove_correct:
  "memmove dst src n m a = (if dst \<le> a \<and> a < dst + n then m (src + (a - dst)) else m a)"
  by (simp add: memmove_copied copied_def)

end
