(* ===== verification/Shell_Cmd.thy ===== *)
theory Shell_Cmd
  imports K64_String
begin

text \<open>
  The shell's command parser, \<^verbatim>\<open>src/k64_shell_cmd.c\<close>: which built-in command a
  line names and where its argument text begins. It is shown equivalent to looking the
  line's first word up in a table of command words.
\<close>

section \<open>Model\<close>

datatype k64_shell_cmd =
    CMD_EMPTY | CMD_HELP | CMD_CLEAR | CMD_SYSFETCH | CMD_UNAME | CMD_TICKS | CMD_TASK
  | CMD_PS | CMD_SERIAL | CMD_SCHED | CMD_PANIC | CMD_ECHO | CMD_ELFRUN | CMD_YIELD
  | CMD_LAYOUT | CMD_SERVICECTL | CMD_DRIVERCTL | CMD_RELOAD | CMD_REBOOT | CMD_SHUTDOWN
  | CMD_SUDO | CMD_SYNC | CMD_UNKNOWN

definition is_space :: "char \<Rightarrow> bool" where
  "is_space c \<longleftrightarrow> c = CHR '' '' \<or> c = CHR 0x09 \<or> c = CHR 0x0A \<or> c = CHR 0x0D"

fun starts_with_word :: "string \<Rightarrow> string \<Rightarrow> bool" where
  "starts_with_word s [] = (case s of [] \<Rightarrow> True | c # _ \<Rightarrow> is_space c)"
| "starts_with_word [] (w # ws) = False"
| "starts_with_word (c # cs) (w # ws) = (if c = w then starts_with_word cs ws else False)"

text \<open>\<^verbatim>\<open>while (is_space(*p)) p++;\<close>\<close>

fun skip_spaces :: "string \<Rightarrow> string" where
  "skip_spaces [] = []"
| "skip_spaces (c # cs) = (if is_space c then skip_spaces cs else c # cs)"

definition k64_shell_parse_command :: "cstr \<Rightarrow> k64_shell_cmd \<times> string" where
  "k64_shell_parse_command line = (case line of
     None \<Rightarrow> (CMD_EMPTY, [])
   | Some text \<Rightarrow>
      let line = skip_spaces text in
      if line = [] then (CMD_EMPTY, [])
      else if starts_with_word line ''help'' then (CMD_HELP, [])
      else if starts_with_word line ''clear'' then (CMD_CLEAR, [])
      else if starts_with_word line ''sysfetch'' then (CMD_SYSFETCH, [])
      else if starts_with_word line ''uname'' then (CMD_UNAME, [])
      else if starts_with_word line ''ticks'' then (CMD_TICKS, [])
      else if starts_with_word line ''task'' then (CMD_TASK, [])
      else if starts_with_word line ''ps'' then (CMD_PS, [])
      else if starts_with_word line ''serial'' then (CMD_SERIAL, [])
      else if starts_with_word line ''sched'' then (CMD_SCHED, [])
      else if starts_with_word line ''panic'' then (CMD_PANIC, [])
      else if starts_with_word line ''elfrun'' then (CMD_ELFRUN, skip_spaces (drop 6 line))
      else if starts_with_word line ''yield'' then (CMD_YIELD, [])
      else if starts_with_word line ''layout'' then (CMD_LAYOUT, skip_spaces (drop 6 line))
      else if starts_with_word line ''servicectl'' then (CMD_SERVICECTL, skip_spaces (drop 10 line))
      else if starts_with_word line ''driverctl'' then (CMD_DRIVERCTL, skip_spaces (drop 9 line))
      else if starts_with_word line ''reload'' then (CMD_RELOAD, skip_spaces (drop 6 line))
      else if starts_with_word line ''sudo'' then (CMD_SUDO, skip_spaces (drop 4 line))
      else if starts_with_word line ''sync'' then (CMD_SYNC, [])
      else if starts_with_word line ''reboot'' then (CMD_REBOOT, [])
      else if starts_with_word line ''shutdown'' then (CMD_SHUTDOWN, [])
      else if starts_with_word line ''echo'' then (CMD_ECHO, skip_spaces (drop 4 line))
      else (CMD_UNKNOWN, []))"

section \<open>Specification: a table of command words\<close>

text \<open>Each word with its command and whether the rest of the line is its argument.\<close>

definition command_table :: "(string \<times> k64_shell_cmd \<times> bool) list" where
  "command_table =
     [(''help'', CMD_HELP, False), (''clear'', CMD_CLEAR, False),
      (''sysfetch'', CMD_SYSFETCH, False), (''uname'', CMD_UNAME, False),
      (''ticks'', CMD_TICKS, False), (''task'', CMD_TASK, False), (''ps'', CMD_PS, False),
      (''serial'', CMD_SERIAL, False), (''sched'', CMD_SCHED, False),
      (''panic'', CMD_PANIC, False), (''elfrun'', CMD_ELFRUN, True),
      (''yield'', CMD_YIELD, False), (''layout'', CMD_LAYOUT, True),
      (''servicectl'', CMD_SERVICECTL, True), (''driverctl'', CMD_DRIVERCTL, True),
      (''reload'', CMD_RELOAD, True), (''sudo'', CMD_SUDO, True), (''sync'', CMD_SYNC, False),
      (''reboot'', CMD_REBOOT, False), (''shutdown'', CMD_SHUTDOWN, False),
      (''echo'', CMD_ECHO, True)]"

definition first_word :: "string \<Rightarrow> string" where
  "first_word s = takeWhile (\<lambda>c. \<not> is_space c) (dropWhile is_space s)"

definition after_first_word :: "string \<Rightarrow> string" where
  "after_first_word s = dropWhile is_space (dropWhile (\<lambda>c. \<not> is_space c) (dropWhile is_space s))"

definition command_of :: "string \<Rightarrow> k64_shell_cmd \<times> string" where
  "command_of s =
     (if first_word s = [] then (CMD_EMPTY, [])
      else case map_of command_table (first_word s) of
          None \<Rightarrow> (CMD_UNKNOWN, [])
        | Some (cmd, takes_arg) \<Rightarrow> (cmd, if takes_arg then after_first_word s else []))"

section \<open>The parser meets the specification\<close>

lemma skip_spaces_dropWhile: "skip_spaces s = dropWhile is_space s"
  by (induction s) auto

lemma starts_with_word_iff:
  "\<forall>c\<in>set w. \<not> is_space c \<Longrightarrow> starts_with_word s w = (takeWhile (\<lambda>c. \<not> is_space c) s = w)"
  by (induction s w rule: starts_with_word.induct) (auto split: list.splits)

lemma skip_after_word:
  "takeWhile (\<lambda>c. \<not> is_space c) s = w \<Longrightarrow> n = length w \<Longrightarrow>
   skip_spaces (drop n s) = dropWhile is_space (dropWhile (\<lambda>c. \<not> is_space c) s)"
  by (simp add: skip_spaces_dropWhile dropWhile_eq_drop)

lemma command_words_no_space:
  "(w, x) \<in> set command_table \<Longrightarrow> \<forall>c\<in>set w. \<not> is_space c"
proof -
  have "\<forall>(w, x)\<in>set command_table. \<forall>c\<in>set w. \<not> is_space c" by code_simp
  then show "(w, x) \<in> set command_table \<Longrightarrow> \<forall>c\<in>set w. \<not> is_space c" by fast
qed

lemma takeWhile_dropWhile_Nil:
  "takeWhile (\<lambda>c. \<not> is_space c) (dropWhile is_space s) = [] \<longleftrightarrow> dropWhile is_space s = []"
  by (induction s) auto

text \<open>C2: parsing a line picks the command whose word is the line's first word, with the
  rest of the line as its argument for the commands that take one, and reports an empty or
  unknown command otherwise.\<close>

theorem parse_command_is_table_lookup:
  "k64_shell_parse_command (Some s) = command_of s"
proof -
  define l where "l = dropWhile is_space s"
  define w where "w = takeWhile (\<lambda>c. \<not> is_space c) l"
  define r where "r = dropWhile is_space (dropWhile (\<lambda>c. \<not> is_space c) l)"
  have sw: "starts_with_word l v = (w = v)" if "(v, x) \<in> set command_table" for v x
    unfolding w_def by (rule starts_with_word_iff, rule command_words_no_space, rule that)
  have "\<forall>(v, x)\<in>set command_table. starts_with_word l v = (w = v)"
    using sw by blast
  note words = this [unfolded command_table_def list.set ball_simps prod.case]
  have arg: "length w = n \<Longrightarrow> skip_spaces (drop n l) = r" for n
    unfolding w_def r_def by (rule skip_after_word [OF refl]) simp
  have args: "w = ''elfrun'' \<or> w = ''layout'' \<or> w = ''reload'' \<Longrightarrow> skip_spaces (drop 6 l) = r"
    "w = ''servicectl'' \<Longrightarrow> skip_spaces (drop 10 l) = r"
    "w = ''driverctl'' \<Longrightarrow> skip_spaces (drop 9 l) = r"
    "w = ''sudo'' \<or> w = ''echo'' \<Longrightarrow> skip_spaces (drop 4 l) = r"
    by (auto simp: arg)
  have nil: "(w = []) = (l = [])"
    unfolding w_def l_def by (rule takeWhile_dropWhile_Nil)
  have unf: "command_of s = (if w = [] then (CMD_EMPTY, []) else case map_of command_table w of
          None \<Rightarrow> (CMD_UNKNOWN, []) | Some (cmd, t) \<Rightarrow> (cmd, if t then r else []))"
    unfolding command_of_def first_word_def after_first_word_def r_def w_def l_def by (rule refl)
  show ?thesis
  proof (cases "w \<in> fst ` set command_table")
    case True
    then have "w = ''help'' \<or> w = ''clear'' \<or> w = ''sysfetch'' \<or> w = ''uname'' \<or> w = ''ticks''
      \<or> w = ''task'' \<or> w = ''ps'' \<or> w = ''serial'' \<or> w = ''sched'' \<or> w = ''panic'' \<or> w = ''elfrun''
      \<or> w = ''yield'' \<or> w = ''layout'' \<or> w = ''servicectl'' \<or> w = ''driverctl'' \<or> w = ''reload''
      \<or> w = ''sudo'' \<or> w = ''sync'' \<or> w = ''reboot'' \<or> w = ''shutdown'' \<or> w = ''echo''"
      unfolding command_table_def by simp
    moreover from this have "l \<noteq> []" using nil by auto
    ultimately show ?thesis
      unfolding k64_shell_parse_command_def Let_def option.case skip_spaces_dropWhile [of s]
        l_def [symmetric] unf command_table_def
      by (elim disjE) (simp_all add: words args)
  next
    case False
    then have "map_of command_table w = None" by (simp add: map_of_eq_None_iff)
    moreover have "w \<noteq> v" if "v \<in> fst ` set command_table" for v using False that by blast
    note neq = this [unfolded command_table_def, simplified]
    ultimately show ?thesis
      unfolding k64_shell_parse_command_def Let_def option.case skip_spaces_dropWhile [of s]
        l_def [symmetric] unf
      using neq by (simp add: words nil)
  qed
qed

end
