(* ===== verification/Pmm.thy ===== *)
theory Pmm
  imports K64_Prelude
begin

text \<open>
  The physical memory manager, \<^verbatim>\<open>src/k64_pmm.c\<close>: one bit per 4 KiB frame, first-fit
  allocation of single frames and of contiguous runs, boot-time setup from the Multiboot
  memory map.

  A frame address is a natural number, the null pointer is 0; the frame counters are
  64-bit words, so that \<^verbatim>\<open>used_frames--\<close> wraps as in C. The interface other
  components rely on is the locale \<open>frame_allocator\<close>, interpreted on the model.
\<close>

section \<open>State\<close>

definition K64_FRAME_SIZE :: nat where "K64_FRAME_SIZE = 4096"
definition K64_MAX_FRAMES :: nat where "K64_MAX_FRAMES = 1048576"

record pmm =
  pmm_bitmap :: bytes
  total_frames :: u64
  used_frames :: u64

text \<open>The static array has one bit for each of the \<open>K64_MAX_FRAMES\<close> frames.\<close>

definition pmm_wf :: "pmm \<Rightarrow> bool" where
  "pmm_wf p \<longleftrightarrow> length (pmm_bitmap p) = K64_MAX_FRAMES div 8"

section \<open>Operations\<close>

definition set_frame :: "nat \<Rightarrow> pmm \<Rightarrow> pmm" where
  "set_frame frame p = p\<lparr>pmm_bitmap := or_bit (pmm_bitmap p) frame\<rparr>"

definition clear_frame :: "nat \<Rightarrow> pmm \<Rightarrow> pmm" where
  "clear_frame frame p = p\<lparr>pmm_bitmap := andn_bit (pmm_bitmap p) frame\<rparr>"

definition test_frame :: "pmm \<Rightarrow> nat \<Rightarrow> bool" where
  "test_frame p frame \<longleftrightarrow> pmm_bitmap p ! (frame div 8) AND push_bit (frame mod 8) 1 \<noteq> 0"

abbreviation count_used :: "pmm \<Rightarrow> pmm" where
  "count_used p \<equiv> p\<lparr>used_frames := used_frames p + 1\<rparr>"

abbreviation uncount_used :: "pmm \<Rightarrow> pmm" where
  "uncount_used p \<equiv> p\<lparr>used_frames := used_frames p - 1\<rparr>"

text \<open>
  \<^verbatim>\<open>for (addr = start; addr < end; addr += K64_FRAME_SIZE)\<close> of \<^verbatim>\<open>reserve_range\<close>.
  Both bounds are frame aligned and below \<open>2 ^ 64\<close>, so the step does not wrap.
\<close>

definition reserve_frame :: "nat \<Rightarrow> pmm \<Rightarrow> pmm" where
  "reserve_frame frame p =
     (if frame < K64_MAX_FRAMES \<and> \<not> test_frame p frame
      then count_used (set_frame frame p) else p)"

function reserve_from :: "nat \<Rightarrow> nat \<Rightarrow> pmm \<Rightarrow> pmm" where
  "reserve_from addr stop p =
     (if addr < stop
      then reserve_from (addr + K64_FRAME_SIZE) stop (reserve_frame (addr div K64_FRAME_SIZE) p)
      else p)"
  by pat_completeness auto
termination
  by (relation "measure (\<lambda>(a, e, p). e - a)") (auto simp: K64_FRAME_SIZE_def)

declare reserve_from.simps [simp del]

definition align_down :: "u64 \<Rightarrow> u64" where
  "align_down a = a AND NOT (of_nat (K64_FRAME_SIZE - 1))"

definition reserve_range :: "u64 \<Rightarrow> u64 \<Rightarrow> pmm \<Rightarrow> pmm" where
  "reserve_range start stop p =
     (if stop \<le> start then p
      else reserve_from (unat (align_down start))
             (unat (align_down (stop + of_nat K64_FRAME_SIZE - 1))) p)"

subsection \<open>Boot-time setup\<close>

record mmap_entry =
  me_addr :: u64
  me_len :: u64
  me_type :: u32

text \<open>
  What the boot loader passed: its magic, the address of the information block, the
  fields the manager reads, the memory map as the list of its entries and the modules as
  their \<open>(mod_start, mod_end)\<close> pairs.
\<close>

record multiboot =
  mb_magic :: u32
  mb_info :: u32
  mb_flags :: u32
  mb_mmap_addr :: u32
  mb_mmap_length :: u32
  mb_mmap :: "mmap_entry list"
  mb_mods_addr :: u32
  mb_mods :: "(u32 \<times> u32) list"

definition multiboot_info_size :: u64 where "multiboot_info_size = 116"
definition multiboot_module_size :: nat where "multiboot_module_size = 16"

text \<open>
  The frames of one available region. The loop leaves at the first frame beyond the
  bitmap, so its address stays far below \<open>2 ^ 64\<close>.
\<close>

function free_region :: "nat \<Rightarrow> nat \<Rightarrow> pmm \<Rightarrow> pmm" where
  "free_region addr region_end p =
     (if addr < region_end \<and> addr div K64_FRAME_SIZE < K64_MAX_FRAMES
      then free_region (addr + K64_FRAME_SIZE) region_end
             ((clear_frame (addr div K64_FRAME_SIZE) p)\<lparr>total_frames := total_frames p + 1\<rparr>)
      else p)"
  by pat_completeness auto
termination
  by (relation "measure (\<lambda>(a, e, p). e - a)") (auto simp: K64_FRAME_SIZE_def)

declare free_region.simps [simp del]

fun free_regions :: "mmap_entry list \<Rightarrow> pmm \<Rightarrow> pmm" where
  "free_regions [] p = p"
| "free_regions (e # es) p =
     free_regions es
       (if me_type e \<noteq> 1 then p
        else free_region (unat (me_addr e)) (unat (me_addr e + me_len e)) p)"

definition k64_pmm_init :: "multiboot \<Rightarrow> u64 \<Rightarrow> pmm \<Rightarrow> pmm" where
  "k64_pmm_init mb kernel_end p =
     (if mb_magic mb \<noteq> 0x2BADB002 then p
      else let p = p\<lparr>pmm_bitmap := replicate (K64_MAX_FRAMES div 8) 0xFF\<rparr> in
      if \<not> bit (mb_flags mb) 6 then p
      else
        let p = free_regions (mb_mmap mb) (p\<lparr>total_frames := 0, used_frames := 0\<rparr>);
            p = reserve_range 0 kernel_end p;
            p = reserve_range (ucast (mb_info mb)) (ucast (mb_info mb) + multiboot_info_size) p;
            p = reserve_range (ucast (mb_mmap_addr mb))
                  (ucast (mb_mmap_addr mb) + ucast (mb_mmap_length mb)) p
        in if \<not> bit (mb_flags mb) 3 then p
           else
             let p = reserve_range (ucast (mb_mods_addr mb))
                   (ucast (mb_mods_addr mb) + of_nat (length (mb_mods mb) * multiboot_module_size)) p
             in fold (\<lambda>(s, e). reserve_range (ucast s) (ucast e)) (mb_mods mb) p)"

subsection \<open>Allocation and release\<close>

function alloc_frame_from :: "nat \<Rightarrow> pmm \<Rightarrow> nat \<times> pmm" where
  "alloc_frame_from frame p =
     (if frame < unat (total_frames p) \<and> frame < K64_MAX_FRAMES
      then if \<not> test_frame p frame
           then (frame * K64_FRAME_SIZE, count_used (set_frame frame p))
           else alloc_frame_from (Suc frame) p
      else (0, p))"
  by pat_completeness auto
termination
  by (relation "measure (\<lambda>(f, p). K64_MAX_FRAMES - f)") auto

declare alloc_frame_from.simps [simp del]

definition k64_pmm_alloc_frame :: "pmm \<Rightarrow> nat \<times> pmm" where
  "k64_pmm_alloc_frame p = alloc_frame_from 0 p"

text \<open>The inner loop: the first used frame of the run, if there is one.\<close>

fun first_used :: "pmm \<Rightarrow> nat \<Rightarrow> nat list \<Rightarrow> nat option" where
  "first_used p frame [] = None"
| "first_used p frame (j # js) =
     (if test_frame p (frame + j) then Some j else first_used p frame js)"

definition mark_run :: "nat \<Rightarrow> nat \<Rightarrow> pmm \<Rightarrow> pmm" where
  "mark_run frame frames p = fold (\<lambda>j p. count_used (set_frame (frame + j) p)) [0..<frames] p"

function alloc_run_from :: "nat \<Rightarrow> nat \<Rightarrow> nat \<Rightarrow> pmm \<Rightarrow> nat \<times> pmm" where
  "alloc_run_from frames limit frame p =
     (if frame + frames \<le> limit
      then case first_used p frame [0..<frames] of
          Some j \<Rightarrow> alloc_run_from frames limit (frame + j + 1) p
        | None \<Rightarrow> (frame * K64_FRAME_SIZE, mark_run frame frames p)
      else (0, p))"
  by pat_completeness auto
termination
  by (relation "measure (\<lambda>(n, l, f, p). Suc l - f)") auto

declare alloc_run_from.simps [simp del]

definition k64_pmm_alloc_contiguous :: "nat \<Rightarrow> pmm \<Rightarrow> nat \<times> pmm" where
  "k64_pmm_alloc_contiguous frames p =
     (if frames = 0 \<or> frames > K64_MAX_FRAMES then (0, p)
      else alloc_run_from frames
        (if unat (total_frames p) < K64_MAX_FRAMES then unat (total_frames p) else K64_MAX_FRAMES) 0 p)"

definition release_frame :: "nat \<Rightarrow> pmm \<Rightarrow> pmm" where
  "release_frame frame p =
     (if frame < K64_MAX_FRAMES \<and> test_frame p frame
      then uncount_used (clear_frame frame p) else p)"

definition k64_pmm_free_frame :: "nat \<Rightarrow> pmm \<Rightarrow> pmm" where
  "k64_pmm_free_frame frame_addr p = release_frame (frame_addr div K64_FRAME_SIZE) p"

definition k64_pmm_free_contiguous :: "nat \<Rightarrow> nat \<Rightarrow> pmm \<Rightarrow> pmm" where
  "k64_pmm_free_contiguous frame_addr frames p =
     fold (\<lambda>i. release_frame (frame_addr div K64_FRAME_SIZE + i)) [0..<frames] p"

section \<open>The bitmap as a set of used frames\<close>

lemma test_frame_bit: "test_frame p frame = bitmap_bit (pmm_bitmap p) frame"
  unfolding test_frame_def bitmap_bit_def and_one_bit_neq_0 ..

lemma pmm_wf_length: "pmm_wf p \<Longrightarrow> 8 * length (pmm_bitmap p) = K64_MAX_FRAMES"
  by (simp add: pmm_wf_def K64_MAX_FRAMES_def)

lemma pmm_wf_update [simp]:
  "pmm_wf (set_frame f p) = pmm_wf p" "pmm_wf (clear_frame f p) = pmm_wf p"
  "pmm_wf (p\<lparr>used_frames := u\<rparr>) = pmm_wf p" "pmm_wf (p\<lparr>total_frames := t\<rparr>) = pmm_wf p"
  by (simp_all add: pmm_wf_def set_frame_def clear_frame_def)

lemma test_frame_update [simp]:
  "test_frame (p\<lparr>used_frames := u\<rparr>) f = test_frame p f"
  "test_frame (p\<lparr>total_frames := t\<rparr>) f = test_frame p f"
  by (simp_all add: test_frame_def)

lemma frame_fields [simp]:
  "used_frames (set_frame f p) = used_frames p" "total_frames (set_frame f p) = total_frames p"
  "used_frames (clear_frame f p) = used_frames p" "total_frames (clear_frame f p) = total_frames p"
  by (simp_all add: set_frame_def clear_frame_def)

lemma test_set_frame:
  "pmm_wf p \<Longrightarrow> f < K64_MAX_FRAMES \<Longrightarrow> test_frame (set_frame f p) g = (g = f \<or> test_frame p g)"
  by (simp add: test_frame_bit set_frame_def bitmap_simps pmm_wf_length)

lemma test_clear_frame:
  "pmm_wf p \<Longrightarrow> f < K64_MAX_FRAMES \<Longrightarrow>
   test_frame (clear_frame f p) g = (g \<noteq> f \<and> test_frame p g)"
  by (simp add: test_frame_bit clear_frame_def bitmap_simps pmm_wf_length)

text \<open>Two well-formed managers with the same bits and counters are equal.\<close>

lemma pmm_eqI:
  assumes "pmm_wf p" "pmm_wf q" "\<And>f. f < K64_MAX_FRAMES \<Longrightarrow> test_frame p f = test_frame q f"
    "total_frames p = total_frames q" "used_frames p = used_frames q"
  shows "p = q"
proof -
  have "pmm_bitmap p = pmm_bitmap q"
    by (rule bytes_eq_by_bits)
      (use assms(1-3) in \<open>simp_all add: test_frame_bit pmm_wf_length pmm_wf_def K64_MAX_FRAMES_def\<close>)
  with assms(4,5) show ?thesis by simp
qed

lemma mark_run_Suc: "mark_run f (Suc n) p = count_used (set_frame (f + n) (mark_run f n p))"
  by (simp add: mark_run_def)

lemma mark_run_0 [simp]: "mark_run f 0 p = p"
  by (simp add: mark_run_def)

lemma mark_run_effect:
  assumes "pmm_wf p" and "f + n \<le> K64_MAX_FRAMES"
  shows "pmm_wf (mark_run f n p)" and "total_frames (mark_run f n p) = total_frames p"
    and "used_frames (mark_run f n p) = used_frames p + of_nat n"
    and "test_frame (mark_run f n p) g = ((f \<le> g \<and> g < f + n) \<or> test_frame p g)"
  using assms
  by (induction n) (auto simp: mark_run_Suc test_set_frame)

lemma release_frame_effect:
  assumes "pmm_wf p"
  shows "pmm_wf (release_frame f p)" and "total_frames (release_frame f p) = total_frames p"
    and "test_frame (release_frame f p) g = (test_frame p g \<and> (g = f \<longrightarrow> f \<ge> K64_MAX_FRAMES))"
    and "used_frames (release_frame f p) =
           used_frames p - (if f < K64_MAX_FRAMES \<and> test_frame p f then 1 else 0)"
  using assms by (auto simp: release_frame_def test_clear_frame)

section \<open>First fit\<close>

text \<open>The reference: the lowest start of a run of free frames below the limit.\<close>

definition frame_limit :: "pmm \<Rightarrow> nat" where
  "frame_limit p = min (unat (total_frames p)) K64_MAX_FRAMES"

definition run_free :: "pmm \<Rightarrow> nat \<Rightarrow> nat \<Rightarrow> bool" where
  "run_free p frames f = list_all (\<lambda>j. \<not> test_frame p (f + j)) [0..<frames]"

definition first_fit :: "nat \<Rightarrow> nat \<Rightarrow> pmm \<Rightarrow> nat option" where
  "first_fit frames limit p = find (run_free p frames) [0..<Suc limit - frames]"

lemma run_free_iff: "run_free p frames f = (\<forall>j<frames. \<not> test_frame p (f + j))"
  by (auto simp: run_free_def list_all_iff)

lemma first_used_None: "first_used p f js = None \<longleftrightarrow> (\<forall>j\<in>set js. \<not> test_frame p (f + j))"
  by (induction js) auto

lemma first_used_Some: "first_used p f js = Some j \<Longrightarrow> j \<in> set js \<and> test_frame p (f + j)"
  by (induction js) (auto split: if_splits)

lemma alloc_run_from_find:
  "0 < frames \<Longrightarrow> alloc_run_from frames limit frame p =
     (case find (run_free p frames) [frame..<Suc limit - frames] of
        Some f \<Rightarrow> (f * K64_FRAME_SIZE, mark_run f frames p)
      | None \<Rightarrow> (0, p))"
proof (induction frames limit frame p rule: alloc_run_from.induct)
  case (1 frames limit frame p)
  show ?case
  proof (cases "frame + frames \<le> limit")
    case False
    then show ?thesis by (simp add: alloc_run_from.simps)
  next
    case fits: True
    show ?thesis
    proof (cases "first_used p frame [0..<frames]")
      case None
      then have "run_free p frames frame" by (simp add: run_free_iff first_used_None)
      then show ?thesis using fits None
        by (simp add: alloc_run_from.simps [of _ _ frame] upt_conv_Cons)
    next
      case (Some j)
      then have j: "j < frames" "test_frame p (frame + j)" by (auto dest: first_used_Some)
      have "\<not> run_free p frames g" if "frame \<le> g" "g < frame + j + 1" for g
        using that j by (auto simp: run_free_iff intro!: exI [of _ "frame + j - g"])
      then have "find (run_free p frames) [frame..<Suc limit - frames]
          = find (run_free p frames) [frame + j + 1..<Suc limit - frames]"
        by (intro find_upt_skip) auto
      with "1.IH" [OF fits Some "1.prems"] fits Some show ?thesis
        by (simp add: alloc_run_from.simps [of _ _ frame])
    qed
  qed
qed

lemma alloc_frame_from_find:
  "alloc_frame_from frame p =
     (case find (\<lambda>f. \<not> test_frame p f) [frame..<frame_limit p] of
        Some f \<Rightarrow> (f * K64_FRAME_SIZE, count_used (set_frame f p))
      | None \<Rightarrow> (0, p))"
proof (induction frame p rule: alloc_frame_from.induct)
  case (1 frame p)
  then show ?case
    by (auto simp: alloc_frame_from.simps [of frame] frame_limit_def upt_conv_Cons min_def)
qed

lemma find_Some_props:
  "find P [a..<b] = Some f \<Longrightarrow> P f \<and> a \<le> f \<and> f < b \<and> (\<forall>i. a \<le> i \<and> i < f \<longrightarrow> \<not> P i)"
proof -
  assume "find P [a..<b] = Some f"
  then obtain i where i: "i < b - a" "P (a + i)" "\<forall>j<i. \<not> P (a + j)" "f = a + i"
    by (auto simp: find_Some_iff)
  have "\<not> P k" if "a \<le> k" "k < f" for k
    using i(3) [rule_format, of "k - a"] that i(4) by simp
  with i show ?thesis by auto
qed

lemma frame_limit_le: "frame_limit p \<le> K64_MAX_FRAMES"
  by (simp add: frame_limit_def)

lemma alloc_frame_cases:
  assumes "k64_pmm_alloc_frame p = (a, p')"
  obtains "a = 0" "p' = p" "\<forall>f<frame_limit p. test_frame p f"
  | f where "f < frame_limit p" "f < K64_MAX_FRAMES" "\<not> test_frame p f" "\<forall>g<f. test_frame p g"
      "a = f * K64_FRAME_SIZE" "p' = count_used (set_frame f p)"
proof (cases "find (\<lambda>f. \<not> test_frame p f) [0..<frame_limit p]")
  case None
  with assms that(1) show ?thesis
    by (auto simp: k64_pmm_alloc_frame_def alloc_frame_from_find find_upt_None)
next
  case (Some f)
  with assms that(2) [of f] find_Some_props [OF Some] frame_limit_le [of p] show ?thesis
    by (auto simp: k64_pmm_alloc_frame_def alloc_frame_from_find)
qed

lemma alloc_contiguous_first_fit:
  "0 < n \<Longrightarrow> n \<le> K64_MAX_FRAMES \<Longrightarrow>
   k64_pmm_alloc_contiguous n p =
     (case first_fit n (frame_limit p) p of
        Some f \<Rightarrow> (f * K64_FRAME_SIZE, mark_run f n p)
      | None \<Rightarrow> (0, p))"
  by (simp add: k64_pmm_alloc_contiguous_def alloc_run_from_find first_fit_def frame_limit_def
      min_def not_less)

lemma first_fit_Some:
  assumes "first_fit n limit p = Some f"
  shows "f + n \<le> limit" and "\<forall>j<n. \<not> test_frame p (f + j)"
    and "\<And>g. g < f \<Longrightarrow> \<exists>j<n. test_frame p (g + j)"
  using find_Some_props [OF assms [unfolded first_fit_def]] by (auto simp: run_free_iff)

lemma run_free_between: "run_free p n f = (\<forall>g. f \<le> g \<and> g < f + n \<longrightarrow> \<not> test_frame p g)"
  unfolding run_free_iff by (metis le_add1 le_iff_add nat_add_left_cancel_less)

lemma first_fit_Some_run:
  assumes "first_fit n limit p = Some f"
  shows "f + n \<le> limit" and "\<forall>g. f \<le> g \<and> g < f + n \<longrightarrow> \<not> test_frame p g"
    and "\<forall>h<f. \<exists>g. h \<le> g \<and> g < h + n \<and> test_frame p g"
  using find_Some_props [OF assms [unfolded first_fit_def]] by (auto simp: run_free_between)

lemma first_fit_None:
  assumes "first_fit n limit p = None" and "f + n \<le> limit"
  shows "\<exists>g. f \<le> g \<and> g < f + n \<and> test_frame p g"
  using assms by (auto simp: first_fit_def find_None_iff run_free_between)

lemma alloc_contiguous_cases:
  assumes "k64_pmm_alloc_contiguous n p = (a, p')"
  obtains "a = 0" "p' = p"
  | f where "0 < n" "f + n \<le> frame_limit p" "f + n \<le> K64_MAX_FRAMES" "\<forall>j<n. \<not> test_frame p (f + j)"
      "a = f * K64_FRAME_SIZE" "p' = mark_run f n p"
proof (cases "0 < n \<and> n \<le> K64_MAX_FRAMES")
  case False
  with assms that(1) show ?thesis by (auto simp: k64_pmm_alloc_contiguous_def)
next
  case True
  show ?thesis
  proof (cases "first_fit n (frame_limit p) p")
    case None
    with True assms that(1) show ?thesis by (simp add: alloc_contiguous_first_fit)
  next
    case (Some f)
    have "f + n \<le> K64_MAX_FRAMES"
      using first_fit_Some(1) [OF Some] frame_limit_le by (rule le_trans)
    with True assms that(2) [of f] first_fit_Some [OF Some] Some show ?thesis
      by (simp add: alloc_contiguous_first_fit)
  qed
qed

section \<open>The interface: a frame allocator\<close>

text \<open>
  What the scheduler and the virtual memory code rely on: memory that is handed out was
  not in use and is in use afterwards, and a failed request changes nothing. Addresses in
  use are those of the marked frames; the address 0 is the null pointer and never
  handed out while frame 0 is marked.
\<close>

locale frame_allocator =
  fixes alloc :: "'s \<Rightarrow> nat \<times> 's"
    and alloc_run :: "nat \<Rightarrow> 's \<Rightarrow> nat \<times> 's"
    and free :: "nat \<Rightarrow> 's \<Rightarrow> 's"
    and in_use :: "'s \<Rightarrow> nat set"
    and inv :: "'s \<Rightarrow> bool"
  assumes alloc_fresh: "inv s \<Longrightarrow> alloc s = (a, s') \<Longrightarrow> a \<noteq> 0 \<Longrightarrow>
      a \<notin> in_use s \<and> in_use s' = insert a (in_use s)"
    and alloc_none: "inv s \<Longrightarrow> alloc s = (0, s') \<Longrightarrow> s' = s"
    and alloc_run_fresh: "inv s \<Longrightarrow> alloc_run n s = (a, s') \<Longrightarrow> a \<noteq> 0 \<Longrightarrow>
      (\<forall>k<n. a + k * 4096 \<notin> in_use s) \<and>
      in_use s' = in_use s \<union> {a + k * 4096 |k. k < n}"
    and alloc_run_none: "inv s \<Longrightarrow> alloc_run n s = (0, s') \<Longrightarrow> s' = s"
    and free_releases: "inv s \<Longrightarrow> a \<in> in_use s \<Longrightarrow> a \<noteq> 0 \<Longrightarrow> in_use (free a s) = in_use s - {a}"
    and inv_alloc: "inv s \<Longrightarrow> inv (snd (alloc s))"
    and inv_alloc_run: "inv s \<Longrightarrow> inv (snd (alloc_run n s))"
    and inv_free: "inv s \<Longrightarrow> a \<in> in_use s \<Longrightarrow> a \<noteq> 0 \<Longrightarrow> inv (free a s)"
begin

lemma alloc_mono: "inv s \<Longrightarrow> alloc s = (a, s') \<Longrightarrow> in_use s \<subseteq> in_use s'"
  using alloc_fresh alloc_none by (cases "a = 0") fastforce+

lemma alloc_run_mono: "inv s \<Longrightarrow> alloc_run n s = (a, s') \<Longrightarrow> in_use s \<subseteq> in_use s'"
  using alloc_run_fresh alloc_run_none by (cases "a = 0") fastforce+

lemma alloc_not_again:
  assumes "inv s" and "alloc s = (a, s')" and "a \<noteq> 0" and "alloc s' = (b, s'')" and "b \<noteq> 0"
  shows "b \<noteq> a"
proof -
  have "inv s'" using inv_alloc [OF assms(1)] assms(2) by simp
  with assms show ?thesis using alloc_fresh by blast
qed

lemma alloc_free_restores:
  assumes "inv s" and "alloc s = (a, s')" and "a \<noteq> 0"
  shows "in_use (free a s') = in_use s"
proof -
  have "inv s'" using inv_alloc [OF assms(1)] assms(2) by simp
  moreover have "a \<notin> in_use s" "in_use s' = insert a (in_use s)"
    using alloc_fresh [OF assms] by auto
  ultimately show ?thesis using assms(3) by (simp add: free_releases)
qed

end

definition pmm_in_use :: "pmm \<Rightarrow> nat set" where
  "pmm_in_use p = {f * K64_FRAME_SIZE |f. f < K64_MAX_FRAMES \<and> test_frame p f}"

definition pmm_inv :: "pmm \<Rightarrow> bool" where
  "pmm_inv p \<longleftrightarrow> pmm_wf p \<and> test_frame p 0"

lemma in_use_frame [simp]:
  "f * K64_FRAME_SIZE \<in> pmm_in_use p \<longleftrightarrow> f < K64_MAX_FRAMES \<and> test_frame p f"
  by (auto simp: pmm_in_use_def K64_FRAME_SIZE_def)

lemma in_use_frame_off [simp]:
  "f * K64_FRAME_SIZE + j * 4096 \<in> pmm_in_use p \<longleftrightarrow> f + j < K64_MAX_FRAMES \<and> test_frame p (f + j)"
  using in_use_frame [of "f + j" p] by (simp add: K64_FRAME_SIZE_def algebra_simps)

lemma pmm_in_use_mark_run:
  assumes "pmm_wf p" and "f + n \<le> K64_MAX_FRAMES"
  shows "pmm_in_use (mark_run f n p) = pmm_in_use p \<union> {f * K64_FRAME_SIZE + k * 4096 |k. k < n}"
proof (intro equalityI subsetI)
  fix a assume "a \<in> pmm_in_use (mark_run f n p)"
  then obtain g where g: "a = g * K64_FRAME_SIZE" "g < K64_MAX_FRAMES"
      "(f \<le> g \<and> g < f + n) \<or> test_frame p g"
    by (auto simp: pmm_in_use_def mark_run_effect(4) [OF assms])
  moreover have "g * K64_FRAME_SIZE = f * K64_FRAME_SIZE + (g - f) * 4096" if "f \<le> g"
    using that by (simp add: K64_FRAME_SIZE_def diff_mult_distrib)
  ultimately show "a \<in> pmm_in_use p \<union> {f * K64_FRAME_SIZE + k * 4096 |k. k < n}"
    by (auto intro: exI [of _ "g - f"])
next
  fix a assume "a \<in> pmm_in_use p \<union> {f * K64_FRAME_SIZE + k * 4096 |k. k < n}"
  then show "a \<in> pmm_in_use (mark_run f n p)"
    using assms by (auto simp: mark_run_effect(4) [OF assms]) (auto simp: pmm_in_use_def mark_run_effect(4) [OF assms])
qed

lemma pmm_in_use_count [simp]: "pmm_in_use (p\<lparr>used_frames := u\<rparr>) = pmm_in_use p"
  by (simp add: pmm_in_use_def)

lemma pmm_in_use_set_frame:
  "pmm_wf p \<Longrightarrow> f < K64_MAX_FRAMES \<Longrightarrow>
   pmm_in_use (set_frame f p) = insert (f * K64_FRAME_SIZE) (pmm_in_use p)"
  by (auto simp: pmm_in_use_def test_set_frame)

lemma pmm_in_use_release:
  "pmm_wf p \<Longrightarrow> f < K64_MAX_FRAMES \<Longrightarrow>
   pmm_in_use (release_frame f p) = pmm_in_use p - {f * K64_FRAME_SIZE}"
  by (auto simp: pmm_in_use_def release_frame_effect K64_FRAME_SIZE_def)

interpretation pmm: frame_allocator k64_pmm_alloc_frame k64_pmm_alloc_contiguous
  k64_pmm_free_frame pmm_in_use pmm_inv
proof (unfold_locales, goal_cases)
  case (1 s a s')
  show ?case using 1(2)
  proof (cases rule: alloc_frame_cases)
    case (2 f)
    with 1 show ?thesis
      by (auto simp: pmm_in_use_set_frame pmm_inv_def)
  qed (use 1 in simp)
next
  case (2 s s')
  show ?case using 2(2)
  proof (cases rule: alloc_frame_cases)
    case (2 f)
    then show ?thesis using \<open>pmm_inv s\<close> by (auto simp: pmm_inv_def K64_FRAME_SIZE_def)
  qed simp
next
  case (3 s n a s')
  show ?case using 3(2)
  proof (cases rule: alloc_contiguous_cases)
    case (2 f)
    with 3 show ?thesis
      by (auto simp: pmm_in_use_mark_run pmm_inv_def)
  qed (use 3 in simp)
next
  case (4 s n s')
  show ?case using 4(2)
  proof (cases rule: alloc_contiguous_cases)
    case (2 f)
    then show ?thesis using \<open>pmm_inv s\<close> by (auto simp: pmm_inv_def K64_FRAME_SIZE_def)
  qed simp
next
  case (5 s a)
  then obtain f where "a = f * K64_FRAME_SIZE" "f < K64_MAX_FRAMES" by (auto simp: pmm_in_use_def)
  with 5 show ?case
    by (simp add: k64_pmm_free_frame_def pmm_in_use_release pmm_inv_def K64_FRAME_SIZE_def)
next
  case (6 s)
  obtain a s' where r: "k64_pmm_alloc_frame s = (a, s')" by fastforce
  then show ?case
    by (cases rule: alloc_frame_cases)
      (use 6 r in \<open>auto simp: pmm_inv_def test_set_frame\<close>)
next
  case (7 s n)
  obtain a s' where r: "k64_pmm_alloc_contiguous n s = (a, s')" by fastforce
  then show ?case
    by (cases rule: alloc_contiguous_cases)
      (use 7 r in \<open>auto simp: pmm_inv_def mark_run_effect\<close>)
next
  case (8 s a)
  then obtain f where "a = f * K64_FRAME_SIZE" "f < K64_MAX_FRAMES" by (auto simp: pmm_in_use_def)
  with 8 show ?case
    by (simp add: k64_pmm_free_frame_def pmm_inv_def release_frame_effect K64_FRAME_SIZE_def)
qed

section \<open>Accounting\<close>

text \<open>
  \<open>used_frames\<close> moves in step with the number of marked frames: their difference, the
  frames that were never counted because the memory map did not offer them, is the same
  before and after every operation.
\<close>

definition uncounted :: "pmm \<Rightarrow> u64" where
  "uncounted p = of_nat (card (marked (pmm_bitmap p) 0 K64_MAX_FRAMES)) - used_frames p"

lemma uncounted_mark:
  assumes "pmm_wf p" and "f < K64_MAX_FRAMES" and "\<not> test_frame p f"
  shows "uncounted (count_used (set_frame f p)) = uncounted p"
proof -
  have "marked (or_bit (pmm_bitmap p) f) 0 K64_MAX_FRAMES
      = insert f (marked (pmm_bitmap p) 0 K64_MAX_FRAMES)"
    using assms(1,2) by (simp add: marked_or_bit pmm_wf_length)
  moreover have "f \<notin> marked (pmm_bitmap p) 0 K64_MAX_FRAMES"
    using assms(3) by (simp add: marked_def test_frame_bit)
  ultimately show ?thesis by (simp add: uncounted_def set_frame_def)
qed

lemma uncounted_release:
  assumes "pmm_wf p"
  shows "uncounted (release_frame f p) = uncounted p"
proof (cases "f < K64_MAX_FRAMES \<and> test_frame p f")
  case True
  let ?M = "marked (pmm_bitmap p) 0 K64_MAX_FRAMES"
  have "marked (andn_bit (pmm_bitmap p) f) 0 K64_MAX_FRAMES = ?M - {f}"
    using assms True by (simp add: marked_andn_bit pmm_wf_length)
  moreover have f: "f \<in> ?M" using True by (simp add: marked_def test_frame_bit)
  moreover have "card ?M = Suc (card (?M - {f}))" by (rule card.remove) (use f in simp_all)
  ultimately show ?thesis
    using True by (simp add: uncounted_def release_frame_def clear_frame_def)
qed (auto simp: release_frame_def)

lemma uncounted_mark_run:
  assumes "pmm_wf p" and "f + n \<le> K64_MAX_FRAMES" and "\<forall>j<n. \<not> test_frame p (f + j)"
  shows "uncounted (mark_run f n p) = uncounted p"
  using assms(2,3)
proof (induction n)
  case (Suc n)
  then have "\<not> test_frame (mark_run f n p) (f + n)"
    using assms(1) by (simp add: mark_run_effect)
  moreover have "pmm_wf (mark_run f n p)" using assms(1) Suc.prems by (simp add: mark_run_effect)
  ultimately show ?case
    using Suc uncounted_mark [of "mark_run f n p" "f + n"] by (simp add: mark_run_Suc)
qed simp

lemma free_contiguous_effect:
  assumes "pmm_wf p" and "f + n \<le> K64_MAX_FRAMES" and "\<forall>j<n. test_frame p (f + j)"
  shows "pmm_wf (k64_pmm_free_contiguous (f * K64_FRAME_SIZE) n p)"
    and "total_frames (k64_pmm_free_contiguous (f * K64_FRAME_SIZE) n p) = total_frames p"
    and "used_frames (k64_pmm_free_contiguous (f * K64_FRAME_SIZE) n p) = used_frames p - of_nat n"
    and "test_frame (k64_pmm_free_contiguous (f * K64_FRAME_SIZE) n p) g
      = (test_frame p g \<and> \<not> (f \<le> g \<and> g < f + n))"
proof -
  have "pmm_wf (fold (\<lambda>i. release_frame (f + i)) [0..<m] p) \<and>
      total_frames (fold (\<lambda>i. release_frame (f + i)) [0..<m] p) = total_frames p \<and>
      used_frames (fold (\<lambda>i. release_frame (f + i)) [0..<m] p) = used_frames p - of_nat m \<and>
      (\<forall>g. test_frame (fold (\<lambda>i. release_frame (f + i)) [0..<m] p) g
        = (test_frame p g \<and> \<not> (f \<le> g \<and> g < f + m)))" if "m \<le> n" for m
    using that
  proof (induction m)
    case 0
    then show ?case using assms(1) by simp
  next
    case (Suc m)
    then show ?case using assms(2,3) by (auto simp: release_frame_effect)
  qed
  from this [of n] show "pmm_wf (k64_pmm_free_contiguous (f * K64_FRAME_SIZE) n p)"
    and "total_frames (k64_pmm_free_contiguous (f * K64_FRAME_SIZE) n p) = total_frames p"
    and "used_frames (k64_pmm_free_contiguous (f * K64_FRAME_SIZE) n p) = used_frames p - of_nat n"
    and "test_frame (k64_pmm_free_contiguous (f * K64_FRAME_SIZE) n p) g
      = (test_frame p g \<and> \<not> (f \<le> g \<and> g < f + n))"
    by (simp_all add: k64_pmm_free_contiguous_def K64_FRAME_SIZE_def)
qed

section \<open>What boot-time setup leaves available\<close>

lemma unat_align_down: "unat (align_down a) = unat a div 4096 * 4096"
proof -
  have "(of_nat (K64_FRAME_SIZE - 1) :: u64) = mask 12"
    by (simp add: K64_FRAME_SIZE_def mask_eq_exp_minus_1)
  then show ?thesis
    by (simp add: align_down_def unat_and_not_mask minus_mod_eq_div_mult)
qed

lemma frame_floor_le: "(x::nat) div 4096 * 4096 \<le> f * 4096 \<longleftrightarrow> x < (f + 1) * 4096"
  using div_less_iff_less_mult [of 4096 x "f + 1"] by (simp add: less_Suc_eq_le)

lemma frame_less_ceiling: "f * 4096 < ((x::nat) + 4095) div 4096 * 4096 \<longleftrightarrow> f * 4096 < x"
  using less_eq_div_iff_mult_less_eq [of 4096 "f + 1" "x + 4095"] by (simp add: Suc_le_eq)

lemma reserve_frame_effect:
  assumes "pmm_wf p"
  shows "pmm_wf (reserve_frame f p)"
    and "test_frame (reserve_frame f p) g = (test_frame p g \<or> (g = f \<and> f < K64_MAX_FRAMES))"
  using assms by (auto simp: reserve_frame_def test_set_frame)

lemma reserve_from_effect:
  "pmm_wf p \<Longrightarrow> addr mod 4096 = 0 \<Longrightarrow> pmm_wf (reserve_from addr stop p) \<and>
   (\<forall>f. test_frame (reserve_from addr stop p) f =
     (test_frame p f \<or> (f < K64_MAX_FRAMES \<and> addr \<le> f * 4096 \<and> f * 4096 < stop)))"
proof (induction addr stop p rule: reserve_from.induct)
  case (1 addr stop p)
  show ?case
  proof (cases "addr < stop")
    case True
    obtain k where k: "addr = 4096 * k" using "1.prems"(2) by auto
    have "pmm_wf (reserve_frame k p)" using "1.prems"(1) by (simp add: reserve_frame_effect)
    then have "pmm_wf (reserve_from (addr + 4096) stop (reserve_frame k p)) \<and>
        (\<forall>f. test_frame (reserve_from (addr + 4096) stop (reserve_frame k p)) f =
          (test_frame (reserve_frame k p) f \<or>
            (f < K64_MAX_FRAMES \<and> addr + 4096 \<le> f * 4096 \<and> f * 4096 < stop)))"
      using "1.IH" [OF True] k by (simp add: K64_FRAME_SIZE_def)
    moreover have "addr \<le> f * 4096 \<longleftrightarrow> f = k \<or> addr + 4096 \<le> f * 4096" for f
      using k by auto
    moreover have "reserve_from addr stop p = reserve_from (addr + 4096) stop (reserve_frame k p)"
      using reserve_from.simps [of addr stop p] True k by (simp add: K64_FRAME_SIZE_def)
    ultimately show ?thesis
      using "1.prems"(1) True k by (auto simp: reserve_frame_effect)
  next
    case False
    with "1.prems" show ?thesis by (auto simp: reserve_from.simps [of addr])
  qed
qed

text \<open>The frames that overlap the byte range from \<open>start\<close> up to \<open>stop\<close>.\<close>

definition overlaps :: "nat \<Rightarrow> u64 \<Rightarrow> u64 \<Rightarrow> bool" where
  "overlaps f start stop \<longleftrightarrow>
     start < stop \<and> unat start < (f + 1) * 4096 \<and> f * 4096 < unat stop"

lemma reserve_range_effect:
  assumes "pmm_wf p" and "unat stop \<le> 2 ^ 64 - 4096"
  shows "pmm_wf (reserve_range start stop p)"
    and "test_frame (reserve_range start stop p) f =
      (test_frame p f \<or> (f < K64_MAX_FRAMES \<and> overlaps f start stop))"
proof -
  have sum: "unat (stop + of_nat K64_FRAME_SIZE - 1) = unat stop + 4095"
  proof -
    have "stop + of_nat K64_FRAME_SIZE - 1 = stop + 4095"
      by (simp add: K64_FRAME_SIZE_def)
    moreover have "unat stop + unat (4095 :: u64) < 2 ^ 64" using assms(2) by simp
    ultimately show ?thesis by (simp add: unat_add_lem [THEN iffD1])
  qed
  let ?a = "unat start div 4096 * 4096" and ?b = "(unat stop + 4095) div 4096 * 4096"
  have eq: "reserve_range start stop p = (if stop \<le> start then p else reserve_from ?a ?b p)"
    by (simp add: reserve_range_def unat_align_down sum)
  have lo: "?a \<le> f * 4096 \<longleftrightarrow> unat start < (f + 1) * 4096"
    by (rule frame_floor_le)
  have hi: "f * 4096 < ?b \<longleftrightarrow> f * 4096 < unat stop"
    by (rule frame_less_ceiling)
  from reserve_from_effect [OF assms(1), of ?a ?b] lo hi
  show "pmm_wf (reserve_range start stop p)"
    and "test_frame (reserve_range start stop p) f =
      (test_frame p f \<or> (f < K64_MAX_FRAMES \<and> overlaps f start stop))"
    using assms(1) by (auto simp: eq overlaps_def not_le)
qed

lemma free_region_effect:
  "pmm_wf p \<Longrightarrow> pmm_wf (free_region addr stop p) \<and>
   (\<forall>f. \<not> test_frame (free_region addr stop p) f \<and> test_frame p f \<longrightarrow>
      f < K64_MAX_FRAMES \<and> (\<exists>x. addr \<le> x \<and> x < stop \<and> x div 4096 = f))"
proof (induction addr stop p rule: free_region.induct)
  case (1 addr stop p)
  show ?case
  proof (cases "addr < stop \<and> addr div K64_FRAME_SIZE < K64_MAX_FRAMES")
    case True
    then show ?thesis
      using "1.IH" [OF True] "1.prems"
      by (auto simp: free_region.simps [of addr] test_clear_frame K64_FRAME_SIZE_def)
        (metis add_leD1 order_refl)+
  next
    case False
    with "1.prems" show ?thesis by (auto simp: free_region.simps [of addr])
  qed
qed

lemma free_regions_effect:
  "pmm_wf p \<Longrightarrow> pmm_wf (free_regions es p) \<and>
   (\<forall>f. \<not> test_frame (free_regions es p) f \<and> test_frame p f \<longrightarrow>
     (\<exists>e\<in>set es. me_type e = 1 \<and> (\<exists>x. unat (me_addr e) \<le> x \<and> x < unat (me_addr e + me_len e) \<and>
        x div 4096 = f)))"
proof (induction es arbitrary: p)
  case Nil
  then show ?case by simp
next
  case (Cons e es)
  let ?q = "if me_type e \<noteq> 1 then p else free_region (unat (me_addr e)) (unat (me_addr e + me_len e)) p"
  have q: "pmm_wf ?q" using free_region_effect [OF Cons.prems] Cons.prems by simp
  show ?case
    using Cons.IH [OF q] free_region_effect [OF Cons.prems, of "unat (me_addr e)"]
    by (auto split: if_splits)
qed

lemma unat_u32_sum_le:
  "unat (ucast (a :: u32) + ucast (b :: u32) :: u64) \<le> 2 ^ 64 - 4096"
  using unat_u32_less [of a] unat_u32_less [of b]
  by (subst unat_add_no_wrap) simp_all

lemma reserve_modules_effect:
  "pmm_wf p \<Longrightarrow> pmm_wf (fold (\<lambda>(s, e). reserve_range (ucast s) (ucast e)) ms p) \<and>
   (\<forall>f. test_frame (fold (\<lambda>(s, e). reserve_range (ucast s) (ucast e)) ms p) f =
     (test_frame p f \<or> (f < K64_MAX_FRAMES \<and>
        (\<exists>(s, e)\<in>set (ms :: (u32 \<times> u32) list). overlaps f (ucast s) (ucast e)))))"
proof (induction ms arbitrary: p)
  case Nil
  then show ?case by simp
next
  case (Cons m ms)
  obtain s e where m: "m = (s, e)" by fastforce
  have "unat (ucast e :: u64) \<le> 2 ^ 64 - 4096"
    using unat_u32_sum_le [of e 0] by simp
  note r = reserve_range_effect [OF Cons.prems this, of "ucast s"]
  show ?case using Cons.IH [OF r(1)] by (auto simp: m r(2))
qed

text \<open>The frames that must stay reserved after boot.\<close>

definition boot_reserved :: "multiboot \<Rightarrow> u64 \<Rightarrow> nat \<Rightarrow> bool" where
  "boot_reserved mb kernel_end f \<longleftrightarrow>
     overlaps f 0 kernel_end \<or>
     overlaps f (ucast (mb_info mb)) (ucast (mb_info mb) + multiboot_info_size) \<or>
     overlaps f (ucast (mb_mmap_addr mb)) (ucast (mb_mmap_addr mb) + ucast (mb_mmap_length mb)) \<or>
     (bit (mb_flags mb) 3 \<and>
       (overlaps f (ucast (mb_mods_addr mb))
          (ucast (mb_mods_addr mb) + of_nat (length (mb_mods mb) * multiboot_module_size)) \<or>
        (\<exists>(s, e)\<in>set (mb_mods mb). overlaps f (ucast s) (ucast e))))"

text \<open>
  A frame is touched by a region when some byte of it lies there, and available when all of
  it does. The setup loop steps from the start of the region whatever its alignment, so it
  releases the touched frames; the two agree when the regions are page aligned.
\<close>

definition touched :: "multiboot \<Rightarrow> nat \<Rightarrow> bool" where
  "touched mb f \<longleftrightarrow> (\<exists>e\<in>set (mb_mmap mb). me_type e = 1 \<and>
     (\<exists>x. unat (me_addr e) \<le> x \<and> x < unat (me_addr e + me_len e) \<and> x div 4096 = f))"

definition available :: "multiboot \<Rightarrow> nat \<Rightarrow> bool" where
  "available mb f \<longleftrightarrow> (\<exists>e\<in>set (mb_mmap mb). me_type e = 1 \<and>
     unat (me_addr e) \<le> f * 4096 \<and> f * 4096 + 4096 \<le> unat (me_addr e) + unat (me_len e))"

definition regions_aligned :: "multiboot \<Rightarrow> bool" where
  "regions_aligned mb \<longleftrightarrow> list_all (\<lambda>e. me_type e = 1 \<longrightarrow>
     unat (me_addr e) mod 4096 = 0 \<and> unat (me_len e) mod 4096 = 0) (mb_mmap mb)"

text \<open>A region that ends beyond the 64-bit address space wraps to an empty loop.\<close>

lemma region_end_no_wrap:
  assumes "unat a \<le> x" and "x < unat (a + n)"
  shows "unat (a + n) = unat a + unat (n :: u64)"
proof (rule unat_add_no_wrap, rule ccontr)
  assume "\<not> unat a + unat n < 2 ^ LENGTH(64)"
  moreover have "unat a < 2 ^ 64" "unat n < 2 ^ 64"
    using unsigned_less [of a] unsigned_less [of n] by simp_all
  ultimately have "unat (a + n) = unat a + unat n - 2 ^ 64"
    by (simp add: unat_word_ariths mod_if)
  with assms \<open>unat n < 2 ^ 64\<close> show False by linarith
qed

lemma aligned_region_covers:
  assumes "a mod 4096 = 0" and "n mod 4096 = 0" and "a \<le> x" and "x < a + n"
  shows "a \<le> x div 4096 * 4096 \<and> x div 4096 * 4096 + 4096 \<le> a + (n :: nat)"
proof -
  obtain k m where "a = 4096 * k" "n = 4096 * m" using assms(1,2) by (metis mod_0_imp_dvd dvdE)
  with assms(3,4) have "k \<le> x div 4096" "x div 4096 < k + m" by linarith+
  with \<open>a = _\<close> \<open>n = _\<close> show ?thesis by linarith
qed

lemma touched_available:
  assumes "touched mb f" and "regions_aligned mb"
  shows "available mb f"
proof -
  obtain e x where e: "e \<in> set (mb_mmap mb)" "me_type e = 1" "unat (me_addr e) \<le> x"
      "x < unat (me_addr e + me_len e)" "f = x div 4096"
    using assms(1) by (auto simp: touched_def)
  have "unat (me_addr e) mod 4096 = 0" "unat (me_len e) mod 4096 = 0"
    using assms(2) e(1,2) by (auto simp: regions_aligned_def list_all_iff)
  from aligned_region_covers [OF this e(3)] e region_end_no_wrap [OF e(3,4)]
  show ?thesis by (auto simp: available_def)
qed

lemma bitmap_bit_replicate_FF: "i < 8 * n \<Longrightarrow> bitmap_bit (replicate n 0xFF) i"
proof -
  assume "i < 8 * n"
  then have "i div 8 < n" by auto
  moreover have "(0xFF :: u8) = mask 8" by (simp add: mask_eq_exp_minus_1)
  then have "bit (0xFF :: u8) (i mod 8)" by (simp only: bit_simps) simp
  ultimately show ?thesis by (simp add: bitmap_bit_def)
qed

lemma pmm_init_touched:
  assumes magic: "mb_magic mb = 0x2BADB002" and flag: "bit (mb_flags mb) 6"
    and mods: "length (mb_mods mb) < 2 ^ 32" and kend: "unat kernel_end \<le> 2 ^ 64 - 4096"
    and f: "f < K64_MAX_FRAMES" and free: "\<not> test_frame (k64_pmm_init mb kernel_end p) f"
  shows "touched mb f \<and> \<not> boot_reserved mb kernel_end f"
proof -
  let ?p0 = "p\<lparr>pmm_bitmap := replicate (K64_MAX_FRAMES div 8) 0xFF, total_frames := 0, used_frames := 0\<rparr>"
  let ?p1 = "free_regions (mb_mmap mb) ?p0"
  have wf0: "pmm_wf ?p0" by (simp add: pmm_wf_def)
  have all: "test_frame ?p0 f"
    using f by (simp add: test_frame_bit bitmap_bit_replicate_FF K64_MAX_FRAMES_def)
  note r1 = free_regions_effect [OF wf0, of "mb_mmap mb"]
  have wf1: "pmm_wf ?p1" using r1 by blast
  note r2 = reserve_range_effect [OF wf1 kend, of 0]
  have i: "unat (ucast (mb_info mb) + multiboot_info_size) \<le> 2 ^ 64 - 4096"
    using unat_u32_sum_le [of "mb_info mb" 116] by (simp add: multiboot_info_size_def)
  note r3 = reserve_range_effect [OF r2(1) i, of "ucast (mb_info mb)"]
  note r4 = reserve_range_effect [OF r3(1) unat_u32_sum_le [of "mb_mmap_addr mb" "mb_mmap_length mb"],
      of "ucast (mb_mmap_addr mb)"]
  have m: "unat (ucast (mb_mods_addr mb) +
      of_nat (length (mb_mods mb) * multiboot_module_size) :: u64) \<le> 2 ^ 64 - 4096"
    using mods unat_u32_less [of "mb_mods_addr mb"]
    by (subst unat_add_no_wrap) (simp_all add: unat_of_nat_small multiboot_module_size_def del: of_nat_mult)
  note r5 = reserve_range_effect [OF r4(1) m, of "ucast (mb_mods_addr mb)"]
  note r6 = reserve_modules_effect [OF r5(1), of "mb_mods mb"]
  show ?thesis
  proof (cases "bit (mb_flags mb) 3")
    case True
    with free magic flag r6 have "\<not> test_frame ?p1 f \<and> \<not> boot_reserved mb kernel_end f"
      using f by (simp add: k64_pmm_init_def Let_def boot_reserved_def r5(2) r4(2) r3(2) r2(2)
          del: of_nat_mult)
    with r1 all show ?thesis by (auto simp: touched_def)
  next
    case False
    with free magic flag have "\<not> test_frame ?p1 f \<and> \<not> boot_reserved mb kernel_end f"
      using f by (simp add: k64_pmm_init_def Let_def boot_reserved_def r4(2) r3(2) r2(2))
    with r1 all show ?thesis by (auto simp: touched_def)
  qed
qed

section \<open>Properties\<close>

text \<open>Allocating a run and freeing it again restores the whole manager state, bit map
  and counters included.\<close>

theorem pmm_alloc_free_roundtrip:
  assumes "pmm_inv p" and "k64_pmm_alloc_contiguous n p = (a, p')" and "a \<noteq> 0"
  shows "k64_pmm_free_contiguous a n p' = p"
  using assms(2)
proof (cases rule: alloc_contiguous_cases)
  case (2 f)
  have wf: "pmm_wf p" using assms(1) by (simp add: pmm_inv_def)
  note m = mark_run_effect [OF wf 2(3)]
  have "\<forall>j<n. test_frame (mark_run f n p) (f + j)" by (simp add: m)
  note e = free_contiguous_effect [OF m(1) 2(3) this]
  have "test_frame (k64_pmm_free_contiguous a n p') g = test_frame p g" for g
    using 2(4) by (auto simp: 2(5,6) e m) (metis le_add_diff_inverse nat_add_left_cancel_less)
  then show ?thesis
    by (intro pmm_eqI) (simp_all add: wf 2(5,6) e m)
qed (use assms(3) in simp)

text \<open>A small manager: frame 0 is used, eight frames are managed.\<close>

definition small_pmm :: pmm where
  "small_pmm = \<lparr>pmm_bitmap = 0x03 # replicate 131071 0, total_frames = 8, used_frames = 2\<rparr>"

lemma small_pmm_inv: "pmm_inv small_pmm"
  by (simp add: pmm_inv_def pmm_wf_def small_pmm_def K64_MAX_FRAMES_def test_frame_def)

lemma small_pmm_frame: "test_frame small_pmm f = (f < 2)" if "f < 8"
proof -
  have "f = 0 \<or> f = 1 \<or> f = 2 \<or> f = 3 \<or> f = 4 \<or> f = 5 \<or> f = 6 \<or> f = 7" using that by linarith
  then show ?thesis by (elim disjE) (simp_all add: test_frame_def small_pmm_def)
qed

lemma small_pmm_limit: "frame_limit small_pmm = 8"
  by (simp add: frame_limit_def small_pmm_def K64_MAX_FRAMES_def)

lemma small_pmm_run: "k64_pmm_alloc_contiguous 2 small_pmm = (8192, mark_run 2 2 small_pmm)"
proof -
  have "[0..<7::nat] = [0, 1, 2, 3, 4, 5, 6]" "[0..<2::nat] = [0, 1]" by (simp_all add: upt_rec)
  then have "first_fit 2 8 small_pmm = Some 2"
    by (simp add: first_fit_def run_free_def small_pmm_frame)
  then show ?thesis
    by (simp add: alloc_contiguous_first_fit small_pmm_limit K64_MAX_FRAMES_def K64_FRAME_SIZE_def)
qed

text \<open>C3: the allocator of contiguous frames, which skips past the first used frame of a
  failed run, is plain first fit. While frame 0 is marked (its address is the null pointer), a
  request for \<open>n\<close> frames succeeds exactly when \<open>n > 0\<close> and some run of \<open>n\<close> free frames
  lies below the limit; it then returns the lowest such run, marks its frames and no others,
  and counts them. A failed request changes nothing.\<close>

theorem pmm_contiguous_is_first_fit:
  assumes "pmm_inv p" and "k64_pmm_alloc_contiguous n p = (a, p')"
  shows "(a \<noteq> 0 \<longleftrightarrow> 0 < n \<and> (\<exists>f. f + n \<le> frame_limit p \<and> (\<forall>g. f \<le> g \<and> g < f + n \<longrightarrow> \<not> test_frame p g))) \<and>
    (a = 0 \<longrightarrow> p' = p) \<and>
    (a \<noteq> 0 \<longrightarrow> (\<exists>f. a = f * 4096 \<and> f + n \<le> frame_limit p \<and>
       (\<forall>g. f \<le> g \<and> g < f + n \<longrightarrow> \<not> test_frame p g) \<and>
       (\<forall>h<f. \<exists>g. h \<le> g \<and> g < h + n \<and> test_frame p g) \<and>
       (\<forall>g. test_frame p' g \<longleftrightarrow> f \<le> g \<and> g < f + n \<or> test_frame p g) \<and>
       total_frames p' = total_frames p \<and> used_frames p' = used_frames p + of_nat n))"
proof (cases "0 < n \<and> n \<le> K64_MAX_FRAMES")
  case False
  with assms(2) frame_limit_le [of p] show ?thesis
    by (auto simp: k64_pmm_alloc_contiguous_def)
next
  case n: True
  show ?thesis
  proof (cases "first_fit n (frame_limit p) p")
    case None
    with n assms(2) first_fit_None [OF None] show ?thesis
      by (simp add: alloc_contiguous_first_fit)
  next
    case (Some f)
    have wf: "pmm_wf p" and used: "test_frame p 0" using assms(1) by (simp_all add: pmm_inv_def)
    note ff = first_fit_Some_run [OF Some]
    have "f \<noteq> 0" using used ff(2) [rule_format, of 0] n by auto
    moreover have "a = f * 4096" "p' = mark_run f n p"
      using n assms(2) Some by (simp_all add: alloc_contiguous_first_fit K64_FRAME_SIZE_def)
    moreover note m = mark_run_effect [OF wf le_trans [OF ff(1) frame_limit_le]]
    ultimately show ?thesis using n ff m by auto
  qed
qed

theorem pmm_contiguous_is_first_fit_witness:
  "\<exists>f p'. k64_pmm_alloc_contiguous 2 small_pmm = (f * 4096, p') \<and> f + 2 \<le> 8 \<and>
    (\<forall>g. test_frame p' g \<longleftrightarrow> f \<le> g \<and> g < f + 2 \<or> test_frame small_pmm g)"
  using pmm_contiguous_is_first_fit [OF small_pmm_inv small_pmm_run] small_pmm_run
  by (auto simp: small_pmm_limit)

theorem pmm_alloc_free_roundtrip_witness:
  "k64_pmm_free_contiguous 8192 2 (mark_run 2 2 small_pmm) = small_pmm"
  using pmm_alloc_free_roundtrip [OF small_pmm_inv small_pmm_run] by simp

text \<open>Every frame handed out was free and becomes used, so two allocations without a
  free between them never return the same frame.\<close>

theorem pmm_alloc_frame_fresh:
  assumes "pmm_inv p" and "k64_pmm_alloc_frame p = (a, p')" and "a \<noteq> 0"
    and "k64_pmm_alloc_frame p' = (b, p'')" and "b \<noteq> 0"
  shows "a \<notin> pmm_in_use p \<and> pmm_in_use p' = insert a (pmm_in_use p) \<and> b \<noteq> a"
  using pmm.alloc_fresh [OF assms(1-3)] pmm.alloc_not_again [OF assms] by blast

lemma small_pmm_alloc:
  "k64_pmm_alloc_frame small_pmm = (8192, count_used (set_frame 2 small_pmm))"
  "k64_pmm_alloc_frame (count_used (set_frame 2 small_pmm))
     = (12288, count_used (set_frame 3 (count_used (set_frame 2 small_pmm))))"
proof -
  have u: "[0..<8::nat] = [0, 1, 2, 3, 4, 5, 6, 7]" by (simp add: upt_rec)
  have "pmm_wf small_pmm" using small_pmm_inv by (simp add: pmm_inv_def)
  then have t: "test_frame (set_frame 2 small_pmm) f = (f < 3)" if "f < 8" for f
    using that by (auto simp: test_set_frame K64_MAX_FRAMES_def small_pmm_frame)
  show "k64_pmm_alloc_frame small_pmm = (8192, count_used (set_frame 2 small_pmm))"
    by (simp add: k64_pmm_alloc_frame_def alloc_frame_from_find small_pmm_limit K64_FRAME_SIZE_def
        small_pmm_frame u)
  show "k64_pmm_alloc_frame (count_used (set_frame 2 small_pmm))
     = (12288, count_used (set_frame 3 (count_used (set_frame 2 small_pmm))))"
  proof -
    have "frame_limit (count_used (set_frame 2 small_pmm)) = 8"
      by (simp add: frame_limit_def small_pmm_def K64_MAX_FRAMES_def)
    then show ?thesis
      by (simp add: k64_pmm_alloc_frame_def alloc_frame_from_find K64_FRAME_SIZE_def u t)
  qed
qed

theorem pmm_alloc_frame_fresh_witness:
  "8192 \<notin> pmm_in_use small_pmm \<and>
   pmm_in_use (count_used (set_frame 2 small_pmm)) = insert 8192 (pmm_in_use small_pmm) \<and>
   (12288 :: nat) \<noteq> 8192"
  using pmm_alloc_frame_fresh [OF small_pmm_inv small_pmm_alloc(1) _ small_pmm_alloc(2)] by simp

lemma uncounted_ops:
  assumes "pmm_wf p"
  shows "uncounted (snd (k64_pmm_alloc_frame p)) = uncounted p"
    and "uncounted (snd (k64_pmm_alloc_contiguous n p)) = uncounted p"
    and "uncounted (k64_pmm_free_frame a p) = uncounted p"
    and "uncounted (k64_pmm_free_contiguous a n p) = uncounted p"
proof -
  obtain b q where r: "k64_pmm_alloc_frame p = (b, q)" by fastforce
  from r show "uncounted (snd (k64_pmm_alloc_frame p)) = uncounted p"
  proof (cases rule: alloc_frame_cases)
    case (2 f)
    then show ?thesis using uncounted_mark [OF assms 2(2,3)] r by simp
  qed (simp add: r)
  obtain b q where r: "k64_pmm_alloc_contiguous n p = (b, q)" by fastforce
  from r show "uncounted (snd (k64_pmm_alloc_contiguous n p)) = uncounted p"
    by (cases rule: alloc_contiguous_cases) (use r assms uncounted_mark_run in auto)
  show "uncounted (k64_pmm_free_frame a p) = uncounted p"
    using assms by (simp add: k64_pmm_free_frame_def uncounted_release)
  have "pmm_wf (fold (\<lambda>i. release_frame (g + i)) js p) \<and>
      uncounted (fold (\<lambda>i. release_frame (g + i)) js p) = uncounted p" for g js
    using assms by (induction js arbitrary: p) (auto simp: release_frame_effect uncounted_release)
  then show "uncounted (k64_pmm_free_contiguous a n p) = uncounted p"
    by (simp add: k64_pmm_free_contiguous_def)
qed

text \<open>C4: \<open>used_frames\<close> counts exactly: each operation changes it by the number of frames
  it marks or unmarks, so its distance to the number of marked frames never changes.\<close>

theorem pmm_accounting_invariant:
  assumes "pmm_wf p"
  shows "uncounted (snd (k64_pmm_alloc_frame p)) = uncounted p \<and>
    uncounted (snd (k64_pmm_alloc_contiguous n p)) = uncounted p \<and>
    uncounted (k64_pmm_free_frame a p) = uncounted p \<and>
    uncounted (k64_pmm_free_contiguous a n p) = uncounted p"
  using assms by (simp add: uncounted_ops)

theorem pmm_accounting_invariant_witness:
  "uncounted (snd (k64_pmm_alloc_contiguous 2 small_pmm)) = uncounted small_pmm"
  using pmm_accounting_invariant [of small_pmm 2] small_pmm_inv by (simp add: pmm_inv_def)

text \<open>C5: after boot-time setup every frame the allocator can hand out is touched by a
  region the memory map offers, lies in it entirely when the offered regions are page aligned,
  and overlaps neither the kernel image, the boot information, the memory map, the module
  table nor a boot module.\<close>

theorem pmm_init_hands_out_only_available:
  assumes "mb_magic mb = 0x2BADB002" and "bit (mb_flags mb) 6"
    and "length (mb_mods mb) < 2 ^ 32" and "unat kernel_end \<le> 2 ^ 64 - 4096"
    and "f < K64_MAX_FRAMES" and "\<not> test_frame (k64_pmm_init mb kernel_end p) f"
  shows "touched mb f \<and> (regions_aligned mb \<longrightarrow> available mb f) \<and> \<not> boot_reserved mb kernel_end f"
  using pmm_init_touched [OF assms] touched_available by blast

definition boot_example :: multiboot where
  "boot_example = \<lparr>mb_magic = 0x2BADB002, mb_info = 0x300000, mb_flags = 0x40,
     mb_mmap_addr = 0x300100, mb_mmap_length = 24,
     mb_mmap = [\<lparr>me_addr = 2457600, me_len = 4096, me_type = 1\<rparr>],
     mb_mods_addr = 0, mb_mods = []\<rparr>"

lemma boot_example_free: "\<not> test_frame (k64_pmm_init boot_example 0x200000 small_pmm) 600"
proof -
  let ?p0 = "small_pmm\<lparr>pmm_bitmap := replicate (K64_MAX_FRAMES div 8) 0xFF, total_frames := 0, used_frames := 0\<rparr>"
  let ?p1 = "free_regions (mb_mmap boot_example) ?p0"
  have wf0: "pmm_wf ?p0" by (simp add: pmm_wf_def)
  have "?p1 = (clear_frame 600 ?p0)\<lparr>total_frames := 1\<rparr>"
    by (simp add: boot_example_def free_region.simps K64_FRAME_SIZE_def K64_MAX_FRAMES_def)
  then have p1: "\<not> test_frame ?p1 600" "pmm_wf ?p1"
    using wf0 by (simp_all add: test_clear_frame K64_MAX_FRAMES_def)
  note r2 = reserve_range_effect [OF p1(2), of "0x200000" 0]
  note r3 = reserve_range_effect [OF r2(1), of "0x300074" "0x300000"]
  note r4 = reserve_range_effect [OF r3(1), of "0x300118" "0x300100"]
  show ?thesis
    using p1(1) unfolding k64_pmm_init_def Let_def
    by (simp add: boot_example_def multiboot_info_size_def bit_simps)
      (simp add: r4 [simplified boot_example_def, simplified] r3 [simplified boot_example_def, simplified]
        r2 [simplified boot_example_def, simplified] overlaps_def)
qed

theorem pmm_init_hands_out_only_available_witness:
  "touched boot_example 600 \<and> available boot_example 600 \<and> \<not> boot_reserved boot_example 0x200000 600"
proof -
  have h: "mb_magic boot_example = 0x2BADB002" "bit (mb_flags boot_example) 6"
    "length (mb_mods boot_example) < 2 ^ 32" "unat (0x200000 :: u64) \<le> 2 ^ 64 - 4096"
    "600 < K64_MAX_FRAMES"
    by (simp_all add: boot_example_def K64_MAX_FRAMES_def)
  have "regions_aligned boot_example" by (simp add: regions_aligned_def boot_example_def)
  then show ?thesis
    using pmm_init_hands_out_only_available [OF h boot_example_free] by simp
qed

end
