(* ===== verification/Sched.thy ===== *)
theory Sched
  imports Pmm
begin

text \<open>
  The kernel task scheduler, \<^verbatim>\<open>src/k64_sched.c\<close>.

  A task control block is a record; its address (the frame the physical memory manager
  gave it) is the field \<open>t_tcb\<close>, and a task pointer is such an address. The circular list
  that starts at \<^verbatim>\<open>task_list\<close> and follows \<^verbatim>\<open>next\<close> is the list of its blocks in that
  order; inserting after the current task is inserting after it in the list. The tick
  counter, the address-space register, the acknowledgements sent to the interrupt
  controller and the words written to new stacks are fields of the state.

  Whether a Ring-3 context is active (\<^verbatim>\<open>k64_usermode_is_active\<close>) is state of another
  component, here the field \<open>user_active\<close>; the address of the assembly return stub is
  a parameter of task creation.
\<close>

section \<open>State\<close>

definition K64_TASK_STACK_FRAMES :: nat where "K64_TASK_STACK_FRAMES = 4"
definition K64_TASK_STACK_SIZE :: nat where "K64_TASK_STACK_SIZE = 4096 * K64_TASK_STACK_FRAMES"
definition K64_DEFAULT_TIMESLICE :: u32 where "K64_DEFAULT_TIMESLICE = 2"
definition K64_MAX_PRIORITY :: int where "K64_MAX_PRIORITY = 5"

datatype k64_task_state = UNUSED | READY | RUNNING | BLOCKED | ZOMBIE

record k64_task =
  t_tcb :: nat
  t_id :: u64
  t_rsp :: u64
  t_cr3 :: u64
  t_sleep_until_tick :: u64
  t_stack_frame :: u64
  t_state :: k64_task_state
  t_priority :: int
  t_base_timeslice :: u32
  t_remaining_ticks :: u32
  t_runtime_ticks :: u64
  t_wait_ticks :: u64

record sched =
  tasks :: "k64_task list"
  current_task :: "nat option"
  next_task_id :: u64
  frames :: pmm
  cr3 :: u64
  ticks :: u64
  eoi_sent :: nat
  user_active :: bool
  stack_words :: "nat \<Rightarrow> u64"

text \<open>Reading and writing through a task pointer.\<close>

definition task_at :: "nat \<Rightarrow> sched \<Rightarrow> k64_task option" where
  "task_at a s = find (\<lambda>t. t_tcb t = a) (tasks s)"

definition upd_task :: "nat \<Rightarrow> (k64_task \<Rightarrow> k64_task) \<Rightarrow> sched \<Rightarrow> sched" where
  "upd_task a f s = s\<lparr>tasks := map (\<lambda>t. if t_tcb t = a then f t else t) (tasks s)\<rparr>"

definition current_block :: "sched \<Rightarrow> k64_task option" where
  "current_block s = (case current_task s of None \<Rightarrow> None | Some a \<Rightarrow> task_at a s)"

definition upd_current :: "(k64_task \<Rightarrow> k64_task) \<Rightarrow> sched \<Rightarrow> sched" where
  "upd_current f s = (case current_task s of None \<Rightarrow> s | Some a \<Rightarrow> upd_task a f s)"

section \<open>Operations\<close>

definition task_state_name :: "k64_task_state \<Rightarrow> string" where
  "task_state_name st = (case st of
     READY \<Rightarrow> ''READY'' | RUNNING \<Rightarrow> ''RUNNING'' | BLOCKED \<Rightarrow> ''BLOCKED''
   | ZOMBIE \<Rightarrow> ''ZOMBIE'' | UNUSED \<Rightarrow> ''UNUSED'')"

definition clamp_priority :: "int \<Rightarrow> int" where
  "clamp_priority priority =
     (let priority = (if priority < 0 then 0 else priority)
      in if priority > K64_MAX_PRIORITY then K64_MAX_PRIORITY else priority)"

definition timeslice_for_priority :: "int \<Rightarrow> u32" where
  "timeslice_for_priority priority = K64_DEFAULT_TIMESLICE + of_int (clamp_priority priority)"

text \<open>
  The words pushed on a new stack, from its top downwards: the return stub, the three
  words \<^verbatim>\<open>iretq\<close> pops (flags, code segment, entry point) and the fifteen saved registers.
\<close>

definition initial_stack :: "u64 \<Rightarrow> u64 \<Rightarrow> u64 \<Rightarrow> u64 list" where
  "initial_stack return_asm entry arg =
     [return_asm, 0x202, 0x08, entry,
      0, 0, 0, 0, 0, 0, arg, 0, 0, 0, 0, 0, 0, 0, 0]"

fun push_words :: "u64 list \<Rightarrow> nat \<Rightarrow> (nat \<Rightarrow> u64) \<Rightarrow> nat \<times> (nat \<Rightarrow> u64)" where
  "push_words [] sp m = (sp, m)"
| "push_words (w # ws) sp m = push_words ws (sp - 8) (m(sp - 8 := w))"

definition build_initial_stack ::
  "u64 \<Rightarrow> k64_task \<Rightarrow> u64 \<Rightarrow> u64 \<Rightarrow> sched \<Rightarrow> k64_task option \<times> sched" where
  "build_initial_stack return_asm t entry arg s =
     (case k64_pmm_alloc_contiguous K64_TASK_STACK_FRAMES (frames s) of (stack_base, p) \<Rightarrow>
      if stack_base = 0 then (None, s\<lparr>frames := p\<rparr>)
      else case push_words (initial_stack return_asm entry arg)
                  (stack_base + K64_TASK_STACK_SIZE) (stack_words s) of (sp, m) \<Rightarrow>
        (Some (t\<lparr>t_rsp := of_nat sp, t_stack_frame := of_nat stack_base\<rparr>),
         s\<lparr>frames := p, stack_words := m\<rparr>))"

definition tick_task :: "u64 \<Rightarrow> nat option \<Rightarrow> k64_task \<Rightarrow> k64_task" where
  "tick_task now cur task =
     (let task = (if t_state task = BLOCKED \<and> t_sleep_until_tick task \<noteq> 0 \<and>
                     t_sleep_until_tick task \<le> now
                  then task\<lparr>t_state := READY, t_sleep_until_tick := 0\<rparr> else task)
      in if cur = Some (t_tcb task) \<and> t_state task = RUNNING
         then task\<lparr>t_runtime_ticks := t_runtime_ticks task + 1\<rparr>
         else if t_state task = READY
         then task\<lparr>t_wait_ticks := t_wait_ticks task + 1\<rparr>
         else task)"

definition on_tick_accounting :: "sched \<Rightarrow> sched" where
  "on_tick_accounting s = s\<lparr>tasks := map (tick_task (ticks s) (current_task s)) (tasks s)\<rparr>"

definition k64_task_exit_current :: "sched \<Rightarrow> sched" where
  "k64_task_exit_current s = upd_current (\<lambda>t. t\<lparr>t_state := ZOMBIE\<rparr>) s"

definition bootstrap_task :: "nat \<Rightarrow> u64 \<Rightarrow> k64_task" where
  "bootstrap_task addr cr3v =
     \<lparr>t_tcb = addr, t_id = 0, t_rsp = 0, t_cr3 = cr3v, t_sleep_until_tick = 0, t_stack_frame = 0,
      t_state = RUNNING, t_priority = 0, t_base_timeslice = K64_DEFAULT_TIMESLICE,
      t_remaining_ticks = K64_DEFAULT_TIMESLICE, t_runtime_ticks = 0, t_wait_ticks = 0\<rparr>"

text \<open>\<open>addr\<close> is the address of the static bootstrap block inside the kernel image.\<close>

definition k64_sched_init :: "nat \<Rightarrow> sched \<Rightarrow> sched" where
  "k64_sched_init addr s =
     s\<lparr>tasks := [bootstrap_task addr (cr3 s)], current_task := Some addr\<rparr>"

fun insert_after :: "nat \<Rightarrow> k64_task \<Rightarrow> k64_task list \<Rightarrow> k64_task list" where
  "insert_after a t [] = []"
| "insert_after a t (x # xs) = (if t_tcb x = a then x # t # xs else x # insert_after a t xs)"

definition k64_task_create_arg ::
  "u64 \<Rightarrow> u64 \<Rightarrow> u64 \<Rightarrow> int \<Rightarrow> u64 \<Rightarrow> sched \<Rightarrow> nat res \<times> sched" where
  "k64_task_create_arg return_asm entry arg priority cr3v s =
     (case k64_pmm_alloc_frame (frames s) of (a, p) \<Rightarrow>
      if a = 0 then (Fail, s\<lparr>frames := p\<rparr>)
      else
        let t = \<lparr>t_tcb = a, t_id = next_task_id s, t_rsp = 0,
                 t_cr3 = (if cr3v \<noteq> 0 then cr3v else cr3 s), t_sleep_until_tick = 0,
                 t_stack_frame = 0, t_state = READY, t_priority = clamp_priority priority,
                 t_base_timeslice = timeslice_for_priority (clamp_priority priority),
                 t_remaining_ticks = timeslice_for_priority (clamp_priority priority),
                 t_runtime_ticks = 0, t_wait_ticks = 0\<rparr>;
            s = s\<lparr>frames := p, next_task_id := next_task_id s + 1\<rparr>
        in case build_initial_stack return_asm t entry arg s of
            (None, s) \<Rightarrow> (Fail, s\<lparr>frames := k64_pmm_free_frame a (frames s)\<rparr>)
          | (Some t, s) \<Rightarrow>
             (case current_task s of
                None \<Rightarrow> (Fault, s)
              | Some c \<Rightarrow> (Ok a, s\<lparr>tasks := insert_after c t (tasks s)\<rparr>)))"

definition k64_task_create_ex :: "u64 \<Rightarrow> u64 \<Rightarrow> int \<Rightarrow> sched \<Rightarrow> nat res \<times> sched" where
  "k64_task_create_ex return_asm entry priority s =
     k64_task_create_arg return_asm entry 0 priority 0 s"

definition k64_task_create :: "u64 \<Rightarrow> u64 \<Rightarrow> sched \<Rightarrow> nat res \<times> sched" where
  "k64_task_create return_asm entry s = k64_task_create_ex return_asm entry 1 s"

subsection \<open>Choosing the next task\<close>

definition task_score :: "k64_task \<Rightarrow> u64" where
  "task_score t = (ucast (of_int (t_priority t) :: u32) * 1024) + t_wait_ticks t"

definition candidate :: "k64_task \<Rightarrow> bool" where
  "candidate t \<longleftrightarrow> t_id t \<noteq> 0 \<and> t_state t = READY"

fun select_task :: "k64_task list \<Rightarrow> k64_task option \<Rightarrow> k64_task option" where
  "select_task [] selected = selected"
| "select_task (c # cs) selected =
     select_task cs
       (if candidate c \<and>
           (case selected of None \<Rightarrow> True | Some t \<Rightarrow> task_score c > task_score t)
        then Some c else selected)"

definition pick_next_rsp :: "sched \<Rightarrow> u64 \<times> sched" where
  "pick_next_rsp s =
     (case current_block s of
        None \<Rightarrow> (0, s)
      | Some cur \<Rightarrow>
         let s = (if t_state cur = RUNNING then upd_current (\<lambda>t. t\<lparr>t_state := READY\<rparr>) s else s)
         in case (case select_task (tasks s) None of
                    None \<Rightarrow> (case tasks s of [] \<Rightarrow> None | t # _ \<Rightarrow> Some t)
                  | Some t \<Rightarrow> Some t) of
              None \<Rightarrow> (0, s)
            | Some t \<Rightarrow>
               let s = upd_task (t_tcb t) (\<lambda>t. t\<lparr>t_state := RUNNING,
                          t_remaining_ticks := t_base_timeslice t, t_wait_ticks := 0\<rparr>) s;
                   s = s\<lparr>current_task := Some (t_tcb t)\<rparr>;
                   target_cr3 = (if t_cr3 t \<noteq> 0 then t_cr3 t else cr3 s);
                   s = (if target_cr3 \<noteq> cr3 s then s\<lparr>cr3 := target_cr3\<rparr> else s)
               in (t_rsp t, s))"

definition k64_sched_handle_timer :: "u64 \<Rightarrow> sched \<Rightarrow> u64 \<times> sched" where
  "k64_sched_handle_timer old_rsp s =
     (if user_active s
      then (old_rsp, s\<lparr>ticks := ticks s + 1, eoi_sent := eoi_sent s + 1\<rparr>)
      else
        let s = upd_current (\<lambda>t. t\<lparr>t_rsp := old_rsp\<rparr>) s;
            s = s\<lparr>ticks := ticks s + 1\<rparr>;
            s = on_tick_accounting s;
            s = s\<lparr>eoi_sent := eoi_sent s + 1\<rparr>
        in case current_block s of
            None \<Rightarrow> pick_next_rsp s
          | Some cur \<Rightarrow>
             if t_state cur \<noteq> RUNNING then pick_next_rsp s
             else if t_id cur = 0 then pick_next_rsp s
             else
               let s = (if t_remaining_ticks cur > 0
                        then upd_current (\<lambda>t. t\<lparr>t_remaining_ticks := t_remaining_ticks t - 1\<rparr>) s
                        else s)
               in if t_remaining_ticks cur \<le> 1 then pick_next_rsp s
                  else (t_rsp cur, s))"

definition k64_sched_yield :: "sched \<Rightarrow> sched" where
  "k64_sched_yield s = upd_current (\<lambda>t. t\<lparr>t_remaining_ticks := 0\<rparr>) s"

definition k64_sched_sleep :: "u64 \<Rightarrow> sched \<Rightarrow> sched" where
  "k64_sched_sleep n s =
     (case current_block s of
        None \<Rightarrow> s
      | Some cur \<Rightarrow> if t_id cur = 0 then s
          else upd_current (\<lambda>t. t\<lparr>t_sleep_until_tick := ticks s + (if n \<noteq> 0 then n else 1),
                 t_state := BLOCKED, t_remaining_ticks := 0\<rparr>) s)"

definition k64_sched_block_current :: "sched \<Rightarrow> sched" where
  "k64_sched_block_current s =
     (case current_block s of
        None \<Rightarrow> s
      | Some cur \<Rightarrow> if t_id cur = 0 then s
          else upd_current (\<lambda>t. t\<lparr>t_sleep_until_tick := 0, t_state := BLOCKED,
                 t_remaining_ticks := 0\<rparr>) s)"

definition k64_sched_wake_task :: "nat \<Rightarrow> sched \<Rightarrow> sched" where
  "k64_sched_wake_task a s =
     (case task_at a s of
        None \<Rightarrow> s
      | Some t \<Rightarrow> if t_state t \<noteq> BLOCKED then s
          else upd_task a (\<lambda>t. t\<lparr>t_sleep_until_tick := 0, t_state := READY\<rparr>) s)"

definition k64_task_stop :: "nat \<Rightarrow> sched \<Rightarrow> sched" where
  "k64_task_stop a s =
     (case task_at a s of
        None \<Rightarrow> s
      | Some t \<Rightarrow> if t_id t = 0 then s
          else upd_task a (\<lambda>t. t\<lparr>t_state := ZOMBIE, t_remaining_ticks := 0\<rparr>) s)"

section \<open>The scheduler invariant\<close>

definition task_ok :: "k64_task \<Rightarrow> bool" where
  "task_ok t \<longleftrightarrow> 0 \<le> t_priority t \<and> t_priority t \<le> K64_MAX_PRIORITY \<and>
     2 \<le> t_base_timeslice t \<and> t_base_timeslice t \<le> 7 \<and> t_remaining_ticks t \<le> t_base_timeslice t"

text \<open>
  The ring starts with the idle task, the only one with identifier 0; blocks are distinct.
\<close>

definition ring_ok :: "k64_task list \<Rightarrow> bool" where
  "ring_ok ts \<longleftrightarrow> (\<exists>b us. ts = b # us \<and> t_id b = 0 \<and> (\<forall>t\<in>set us. t_id t \<noteq> 0)) \<and>
     distinct (map t_tcb ts) \<and> (\<forall>t\<in>set ts. task_ok t)"

text \<open>
  The whole state: the current task is in the ring, no other task is running, and every
  block that is a frame is marked used in the physical memory manager.
\<close>

definition sched_inv :: "sched \<Rightarrow> bool" where
  "sched_inv s \<longleftrightarrow> ring_ok (tasks s) \<and> current_task s \<in> (Some \<circ> t_tcb) ` set (tasks s) \<and>
     (\<forall>t\<in>set (tasks s). t_state t = RUNNING \<longrightarrow> current_task s = Some (t_tcb t)) \<and>
     next_task_id s \<noteq> 0 \<and> pmm_inv (frames s) \<and>
     (\<forall>t\<in>set (tasks s). t_tcb t mod 4096 = 0 \<longrightarrow> t_tcb t \<in> pmm_in_use (frames s))"

lemma ring_ok_map:
  assumes "ring_ok ts" and "\<And>t. t_tcb (f t) = t_tcb t" and "\<And>t. t_id (f t) = t_id t"
    and "\<And>t. t \<in> set ts \<Longrightarrow> task_ok (f t)"
  shows "ring_ok (map f ts)"
proof -
  obtain b us where ts: "ts = b # us" "t_id b = 0" "\<forall>t\<in>set us. t_id t \<noteq> 0"
    using assms(1) by (auto simp: ring_ok_def)
  have "map t_tcb (map f ts) = map t_tcb ts" by (simp add: assms(2))
  then have "distinct (map t_tcb (map f ts))" using assms(1) by (simp only: ring_ok_def)
  moreover have "map f ts = f b # map f us \<and> t_id (f b) = 0 \<and> (\<forall>t\<in>set (map f us). t_id t \<noteq> 0)"
    using ts by (simp add: assms(3))
  moreover have "\<forall>t\<in>set (map f ts). task_ok t" using assms(4) by auto
  ultimately show ?thesis unfolding ring_ok_def by metis
qed

lemma ring_ok_inj:
  "ring_ok ts \<Longrightarrow> t \<in> set ts \<Longrightarrow> u \<in> set ts \<Longrightarrow> t_tcb t = t_tcb u \<Longrightarrow> t = u"
  unfolding ring_ok_def distinct_map by (blast dest: inj_onD)

lemma ring_ok_find:
  assumes "distinct (map t_tcb ts)" and "t \<in> set ts"
  shows "find (\<lambda>x. t_tcb x = t_tcb t) ts = Some t"
  using assms by (induction ts) (auto simp: rev_image_eqI)

lemma task_at_Some:
  "ring_ok (tasks s) \<Longrightarrow> task_at a s = Some t \<longleftrightarrow> t \<in> set (tasks s) \<and> t_tcb t = a"
  using ring_ok_find [of "tasks s" t]
  by (auto simp: task_at_def ring_ok_def dest: find_SomeD)

lemma current_block_inv:
  assumes "sched_inv s"
  obtains t where "current_block s = Some t" "t \<in> set (tasks s)" "current_task s = Some (t_tcb t)"
proof -
  from assms obtain t where t: "t \<in> set (tasks s)" "current_task s = Some (t_tcb t)"
    by (auto simp: sched_inv_def)
  with assms have "current_block s = Some t"
    by (simp add: current_block_def task_at_Some sched_inv_def)
  with t that show ?thesis by blast
qed

text \<open>Any update of the ring that keeps identities keeps the rest of the invariant.\<close>

lemma sched_inv_map:
  assumes "sched_inv s" and "\<And>t. t_tcb (f t) = t_tcb t" and "\<And>t. t_id (f t) = t_id t"
    and "\<And>t. t \<in> set (tasks s) \<Longrightarrow> task_ok t \<Longrightarrow> task_ok (f t)"
    and "\<And>t. t \<in> set (tasks s) \<Longrightarrow> t_state (f t) = RUNNING \<Longrightarrow> c = Some (t_tcb t)"
    and "c \<in> (Some \<circ> t_tcb) ` set (tasks s)"
    and "tasks s' = map f (tasks s)" and "current_task s' = c"
    and "next_task_id s' = next_task_id s" and "frames s' = frames s"
  shows "sched_inv s'"
proof -
  have "ring_ok (map f (tasks s))"
    using assms(1-4) by (intro ring_ok_map) (auto simp: sched_inv_def ring_ok_def)
  moreover have "(Some \<circ> t_tcb) ` set (map f (tasks s)) = (Some \<circ> t_tcb) ` set (tasks s)"
    by (simp add: image_image assms(2))
  ultimately show ?thesis using assms by (auto simp: sched_inv_def)
qed

lemma sched_inv_upd_task:
  assumes "sched_inv s" and "\<And>t. t_tcb (f t) = t_tcb t" and "\<And>t. t_id (f t) = t_id t"
    and "\<And>t. task_ok t \<Longrightarrow> task_ok (f t)"
    and "\<And>t. t_state (f t) = RUNNING \<Longrightarrow> t_state t = RUNNING"
  shows "sched_inv (upd_task a f s)"
  by (rule sched_inv_map [OF assms(1), where f = "\<lambda>t. if t_tcb t = a then f t else t"
        and c = "current_task s"])
    (use assms in \<open>auto simp: upd_task_def sched_inv_def split: if_splits\<close>)

lemma sched_inv_upd_current:
  assumes "sched_inv s" and "\<And>t. t_tcb (f t) = t_tcb t" and "\<And>t. t_id (f t) = t_id t"
    and "\<And>t. task_ok t \<Longrightarrow> task_ok (f t)"
    and "\<And>t. t_state (f t) = RUNNING \<Longrightarrow> t_state t = RUNNING"
  shows "sched_inv (upd_current f s)"
  using assms by (auto simp: upd_current_def sched_inv_upd_task split: option.splits)

lemma task_ok_fields [simp]:
  "task_ok (t\<lparr>t_state := st\<rparr>) = task_ok t" "task_ok (t\<lparr>t_rsp := r\<rparr>) = task_ok t"
  "task_ok (t\<lparr>t_sleep_until_tick := k\<rparr>) = task_ok t"
  "task_ok (t\<lparr>t_runtime_ticks := k\<rparr>) = task_ok t"
  "task_ok (t\<lparr>t_wait_ticks := k\<rparr>) = task_ok t"
  by (simp_all add: task_ok_def)

lemma task_ok_remaining: "task_ok t \<Longrightarrow> r \<le> t_base_timeslice t \<Longrightarrow> task_ok (t\<lparr>t_remaining_ticks := r\<rparr>)"
  by (simp add: task_ok_def)

lemma tick_task_fields [simp]:
  "t_tcb (tick_task n c t) = t_tcb t" "t_id (tick_task n c t) = t_id t"
  "t_priority (tick_task n c t) = t_priority t" "task_ok (tick_task n c t) = task_ok t"
  "t_remaining_ticks (tick_task n c t) = t_remaining_ticks t"
  "t_base_timeslice (tick_task n c t) = t_base_timeslice t"
  "t_state (tick_task n c t) = RUNNING \<longleftrightarrow> t_state t = RUNNING"
  by (auto simp: tick_task_def Let_def)

lemma on_tick_accounting_inv: "sched_inv s \<Longrightarrow> sched_inv (on_tick_accounting s)"
  by (rule sched_inv_map [where f = "tick_task (ticks s) (current_task s)" and c = "current_task s"])
    (auto simp: on_tick_accounting_def sched_inv_def)

section \<open>The choice of the next task\<close>

lemma select_task_acc:
  "select_task ts sel = Some t \<Longrightarrow>
     (sel = Some t \<or> (t \<in> set ts \<and> candidate t)) \<and>
     (\<forall>c\<in>set ts. candidate c \<longrightarrow> task_score c \<le> task_score t) \<and>
     (\<forall>u. sel = Some u \<longrightarrow> task_score u \<le> task_score t)"
proof (induction ts arbitrary: sel)
  case Nil
  then show ?case by simp
next
  case (Cons c cs)
  let ?sel = "if candidate c \<and> (case sel of None \<Rightarrow> True | Some t \<Rightarrow> task_score c > task_score t)
              then Some c else sel"
  from Cons.IH [of ?sel] Cons.prems show ?case
    by (auto split: if_splits option.splits)
qed

lemma select_task_None: "select_task ts sel = None \<longleftrightarrow> sel = None \<and> (\<forall>c\<in>set ts. \<not> candidate c)"
  by (induction ts arbitrary: sel) (auto split: option.splits)

lemma select_task_Some:
  assumes "select_task ts None = Some t"
  shows "t \<in> set ts" and "candidate t" and "\<And>c. c \<in> set ts \<Longrightarrow> candidate c \<Longrightarrow> task_score c \<le> task_score t"
  using select_task_acc [OF assms] by auto

definition requeue :: "k64_task list \<Rightarrow> k64_task list" where
  "requeue ts = map (\<lambda>t. if t_state t = RUNNING then t\<lparr>t_state := READY\<rparr> else t) ts"

definition chosen :: "k64_task list \<Rightarrow> k64_task" where
  "chosen ts = (case select_task (requeue ts) None of None \<Rightarrow> hd (requeue ts) | Some t \<Rightarrow> t)"

abbreviation dispatch :: "k64_task \<Rightarrow> k64_task" where
  "dispatch t \<equiv> t\<lparr>t_state := RUNNING, t_remaining_ticks := t_base_timeslice t, t_wait_ticks := 0\<rparr>"

lemma chosen_in: "ts \<noteq> [] \<Longrightarrow> chosen ts \<in> set (requeue ts)"
  using select_task_Some(1) [of "requeue ts"] hd_in_set [of "requeue ts"]
  by (auto simp: chosen_def requeue_def [of ts, THEN arg_cong [where f = "\<lambda>x. x = []"]] split: option.splits)

lemma pick_next_rsp_eq:
  assumes "sched_inv s"
  shows "pick_next_rsp s =
    (let t = chosen (tasks s) in
     (t_rsp t, s\<lparr>tasks := map (\<lambda>x. if t_tcb x = t_tcb t then dispatch x else x) (requeue (tasks s)),
        current_task := Some (t_tcb t),
        cr3 := (if t_cr3 t \<noteq> 0 then t_cr3 t else cr3 s)\<rparr>))"
proof -
  obtain c where c: "current_block s = Some c" "c \<in> set (tasks s)" "current_task s = Some (t_tcb c)"
    using assms by (rule current_block_inv)
  have run: "\<forall>t\<in>set (tasks s). t_state t = RUNNING \<longrightarrow> t = c"
    using assms c ring_ok_inj [of "tasks s" _ c] by (auto simp: sched_inv_def)
  have uniq: "\<forall>t\<in>set (tasks s). t_tcb t = t_tcb c \<longrightarrow> t = c"
    using assms c(2) ring_ok_inj [of "tasks s" _ c] by (auto simp: sched_inv_def)
  have rq: "(if t_state c = RUNNING then upd_current (\<lambda>t. t\<lparr>t_state := READY\<rparr>) s else s)
      = s\<lparr>tasks := requeue (tasks s)\<rparr>"
  proof (cases "t_state c = RUNNING")
    case True
    then show ?thesis using c(3) run uniq
      by (auto simp: upd_current_def upd_task_def requeue_def intro!: arg_cong [where f = "\<lambda>x. s\<lparr>tasks := x\<rparr>"])
  next
    case False
    then have "requeue (tasks s) = tasks s" using run by (auto simp: requeue_def intro!: map_idI)
    with False show ?thesis by simp
  qed
  have ne: "requeue (tasks s) \<noteq> []" using c(2) by (auto simp: requeue_def)
  have "(case select_task (requeue (tasks s)) None of
          None \<Rightarrow> (case tasks (s\<lparr>tasks := requeue (tasks s)\<rparr>) of [] \<Rightarrow> None | t # _ \<Rightarrow> Some t)
        | Some t \<Rightarrow> Some t) = Some (chosen (tasks s))"
    using ne by (auto simp: chosen_def split: option.splits list.splits)
  moreover have "tasks (s\<lparr>tasks := requeue (tasks s)\<rparr>) = requeue (tasks s)" by simp
  ultimately show ?thesis
    unfolding pick_next_rsp_def c(1) option.case rq
    by (simp add: upd_task_def Let_def)
qed

lemma pick_next_rsp_inv:
  assumes "sched_inv s"
  shows "sched_inv (snd (pick_next_rsp s))"
proof -
  let ?t = "chosen (tasks s)"
  have ne: "tasks s \<noteq> []" using assms by (auto simp: sched_inv_def ring_ok_def)
  have "t_tcb ?t \<in> t_tcb ` set (requeue (tasks s))" using chosen_in [OF ne] by blast
  then have "t_tcb ?t \<in> t_tcb ` set (tasks s)" by (auto simp: requeue_def)
  then show ?thesis
    by (intro sched_inv_map [OF assms, where c = "Some (t_tcb ?t)"
          and f = "(\<lambda>x. if t_tcb x = t_tcb ?t then dispatch x else x) \<circ>
            (\<lambda>t. if t_state t = RUNNING then t\<lparr>t_state := READY\<rparr> else t)"])
      (auto simp: pick_next_rsp_eq [OF assms] Let_def requeue_def task_ok_def split: if_splits)
qed

section \<open>The timer interrupt\<close>

abbreviation spend_tick :: "k64_task \<Rightarrow> k64_task" where
  "spend_tick t \<equiv> t\<lparr>t_remaining_ticks := t_remaining_ticks t - 1\<rparr>"

text \<open>The state the interrupt handler decides on, and what it does to one task.\<close>

definition timer_prep :: "u64 \<Rightarrow> sched \<Rightarrow> sched" where
  "timer_prep old_rsp s =
     (on_tick_accounting ((upd_current (\<lambda>t. t\<lparr>t_rsp := old_rsp\<rparr>) s)\<lparr>ticks := ticks s + 1\<rparr>))
       \<lparr>eoi_sent := eoi_sent s + 1\<rparr>"

definition prep_task :: "u64 \<Rightarrow> sched \<Rightarrow> k64_task \<Rightarrow> k64_task" where
  "prep_task old_rsp s t = tick_task (ticks s + 1) (current_task s)
     (if current_task s = Some (t_tcb t) then t\<lparr>t_rsp := old_rsp\<rparr> else t)"

lemma upd_current_fields [simp]:
  "current_task (upd_current f s) = current_task s" "ticks (upd_current f s) = ticks s"
  "eoi_sent (upd_current f s) = eoi_sent s" "user_active (upd_current f s) = user_active s"
  "cr3 (upd_current f s) = cr3 s" "frames (upd_current f s) = frames s"
  "next_task_id (upd_current f s) = next_task_id s"
  "tasks (upd_current f s) = map (\<lambda>t. if current_task s = Some (t_tcb t) then f t else t) (tasks s)"
  by (auto simp: upd_current_def upd_task_def split: option.splits)

lemma upd_current_eq:
  "upd_current f s = s\<lparr>tasks := map (\<lambda>t. if current_task s = Some (t_tcb t) then f t else t) (tasks s)\<rparr>"
  by (simp add: upd_current_def upd_task_def split: option.splits)

lemma timer_prep_fields [simp]:
  "current_task (timer_prep r s) = current_task s" "ticks (timer_prep r s) = ticks s + 1"
  "eoi_sent (timer_prep r s) = eoi_sent s + 1" "user_active (timer_prep r s) = user_active s"
  "tasks (timer_prep r s) = map (prep_task r s) (tasks s)"
  by (simp_all add: timer_prep_def on_tick_accounting_def prep_task_def)

lemma prep_task_fields [simp]:
  "t_tcb (prep_task r s t) = t_tcb t" "t_id (prep_task r s t) = t_id t"
  "t_priority (prep_task r s t) = t_priority t" "task_ok (prep_task r s t) = task_ok t"
  "t_remaining_ticks (prep_task r s t) = t_remaining_ticks t"
  "t_base_timeslice (prep_task r s t) = t_base_timeslice t"
  "t_state (prep_task r s t) = RUNNING \<longleftrightarrow> t_state t = RUNNING"
  by (simp_all add: prep_task_def)


lemma sched_inv_other_fields [simp]:
  "sched_inv (s\<lparr>ticks := n\<rparr>) = sched_inv s" "sched_inv (s\<lparr>eoi_sent := e\<rparr>) = sched_inv s"
  "sched_inv (s\<lparr>user_active := u\<rparr>) = sched_inv s" "sched_inv (s\<lparr>cr3 := v\<rparr>) = sched_inv s"
  "sched_inv (s\<lparr>stack_words := m\<rparr>) = sched_inv s"
  by (simp_all add: sched_inv_def)

lemma timer_prep_inv: "sched_inv s \<Longrightarrow> sched_inv (timer_prep r s)"
  unfolding timer_prep_def sched_inv_other_fields
  by (rule on_tick_accounting_inv, unfold sched_inv_other_fields, rule sched_inv_upd_current) simp_all

lemma word_dec_le: "(0::u32) < r \<Longrightarrow> r - 1 \<le> r"
  by (simp add: word_le_nat_alt unat_minus_one word_greater_zero_iff)

lemma word_gt_1: "(1::u32) < r \<Longrightarrow> 0 < r"
  by (simp add: word_less_nat_alt)


lemma spend_tick_inv:
  assumes inv: "sched_inv s" and c: "c \<in> set (tasks s)" "current_task s = Some (t_tcb c)"
    and pos: "t_remaining_ticks c > 0"
  shows "sched_inv (upd_current spend_tick s)"
proof (rule sched_inv_map [OF inv, where f = "\<lambda>t. if current_task s = Some (t_tcb t) then spend_tick t else t"
        and c = "current_task s"])
  fix t assume t: "t \<in> set (tasks s)" "task_ok t"
  have "t = c" if "t_tcb t = t_tcb c"
    using that inv t(1) c(1) ring_ok_inj by (auto simp: sched_inv_def)
  moreover have "task_ok (spend_tick c)" if "task_ok c"
  proof (rule task_ok_remaining [OF that])
    show "t_remaining_ticks c - 1 \<le> t_base_timeslice c"
      using word_dec_le [OF pos] that unfolding task_ok_def by (blast intro: order_trans)
  qed
  ultimately show "task_ok (if current_task s = Some (t_tcb t) then spend_tick t else t)"
    using t(2) c(2) by (cases "t_tcb t = t_tcb c") simp_all
next
  fix t assume t: "t \<in> set (tasks s)"
    "t_state (if current_task s = Some (t_tcb t) then spend_tick t else t) = RUNNING"
  have "t_state t = RUNNING" using t(2) by (simp split: if_splits)
  with inv t(1) show "current_task s = Some (t_tcb t)" unfolding sched_inv_def by blast
next
  show "current_task s \<in> (Some \<circ> t_tcb) ` set (tasks s)" using inv by (simp add: sched_inv_def)
qed simp_all

lemma timer_prep_let:
  "(let s = upd_current (\<lambda>t. t\<lparr>t_rsp := r\<rparr>) s; s = s\<lparr>ticks := ticks s + 1\<rparr>;
        s = on_tick_accounting s; s = s\<lparr>eoi_sent := eoi_sent s + 1\<rparr> in F s) = F (timer_prep r s)"
  by (simp add: Let_def timer_prep_def on_tick_accounting_def)

text \<open>The two outcomes of a timer interrupt in kernel context.\<close>

lemma handle_timer_cases:
  assumes inv: "sched_inv s" and "\<not> user_active s"
  obtains (keep) c where "c \<in> set (tasks s)" "current_task s = Some (t_tcb c)" "t_state c = RUNNING"
      "t_id c \<noteq> 0" "t_remaining_ticks c > 1"
      "snd (k64_sched_handle_timer r s) = upd_current spend_tick (timer_prep r s)"
  | (pick) u where "sched_inv u" "k64_sched_handle_timer r s = pick_next_rsp u"
      "u = timer_prep r s \<or> u = upd_current spend_tick (timer_prep r s)"
proof -
  let ?u = "timer_prep r s"
  have u: "sched_inv ?u" using inv by (rule timer_prep_inv)
  obtain c where c: "current_block ?u = Some c" "c \<in> set (tasks ?u)" "current_task ?u = Some (t_tcb c)"
    using u by (rule current_block_inv)
  have eq: "k64_sched_handle_timer r s =
     (if t_state c \<noteq> RUNNING \<or> t_id c = 0 then pick_next_rsp ?u
      else let v = (if t_remaining_ticks c > 0 then upd_current spend_tick ?u else ?u)
           in if t_remaining_ticks c \<le> 1 then pick_next_rsp v else (t_rsp c, v))"
    using assms(2) c(1) unfolding k64_sched_handle_timer_def timer_prep_let by auto
  have v: "sched_inv (if t_remaining_ticks c > 0 then upd_current spend_tick ?u else ?u)"
    using u spend_tick_inv [OF u c(2,3)] by simp
  from c(2) obtain d where d: "d \<in> set (tasks s)" "c = prep_task r s d" by auto
  show ?thesis
  proof (cases "t_state c = RUNNING \<and> t_id c \<noteq> 0 \<and> t_remaining_ticks c > 1")
    case True
    then have "t_remaining_ticks c > 0" "\<not> t_remaining_ticks c \<le> 1"
      by (simp_all only: word_gt_1 not_le)
    with True eq have "snd (k64_sched_handle_timer r s) = upd_current spend_tick ?u"
      by (simp only: Let_def if_True if_False simp_thms snd_conv)
    with True keep [of d] d c(3) show ?thesis by simp
  next
    case False
    show ?thesis
    proof (cases "t_state c \<noteq> RUNNING \<or> t_id c = 0")
      case True
      then have "k64_sched_handle_timer r s = pick_next_rsp ?u" unfolding eq by (rule if_P)
      with u pick [of ?u] show ?thesis by blast
    next
      case nonidle: False
      with False have "t_remaining_ticks c \<le> 1" by (simp add: not_less)
      then have "k64_sched_handle_timer r s =
          pick_next_rsp (if t_remaining_ticks c > 0 then upd_current spend_tick ?u else ?u)"
        unfolding eq Let_def if_not_P [OF nonidle] by (rule if_P)
      with v pick show ?thesis by presburger
    qed
  qed
qed

lemma handle_timer_inv:
  assumes "sched_inv s"
  shows "sched_inv (snd (k64_sched_handle_timer r s))"
proof (cases "user_active s")
  case True
  with assms show ?thesis by (simp add: k64_sched_handle_timer_def)
next
  case False
  with assms show ?thesis
  proof (cases rule: handle_timer_cases [of s r])
    case (keep c)
    then show ?thesis
      using spend_tick_inv [OF timer_prep_inv [OF assms], of "prep_task r s c" r]
      by (simp add: word_gt_1)
  next
    case (pick u)
    then show ?thesis by (simp add: pick_next_rsp_inv)
  qed
qed

section \<open>Creating tasks\<close>

lemma set_insert_after:
  "c \<in> t_tcb ` set ts \<Longrightarrow> set (insert_after c t ts) = insert t (set ts)"
  by (induction ts) auto

lemma distinct_insert_after:
  "c \<in> t_tcb ` set ts \<Longrightarrow> distinct (map t_tcb (insert_after c t ts)) \<longleftrightarrow>
     distinct (map t_tcb ts) \<and> t_tcb t \<notin> t_tcb ` set ts"
  by (induction ts) (auto simp: set_insert_after)

lemma set_insert_after_subset: "set (insert_after c t ts) \<subseteq> insert t (set ts)"
  by (induction ts) auto

lemma insert_after_Cons: "\<exists>vs. insert_after c t (b # us) = b # vs \<and> set vs \<subseteq> insert t (set us)"
  using set_insert_after_subset [of c t us] by (cases "t_tcb b = c") auto

lemma ring_ok_insert_after:
  assumes ring: "ring_ok ts" and c: "c \<in> t_tcb ` set ts" and t: "t_id t \<noteq> 0" "task_ok t"
    "t_tcb t \<notin> t_tcb ` set ts"
  shows "ring_ok (insert_after c t ts)"
proof -
  obtain b us where ts: "ts = b # us" "t_id b = 0" "\<forall>t\<in>set us. t_id t \<noteq> 0"
    using ring by (auto simp: ring_ok_def)
  obtain vs where vs: "insert_after c t ts = b # vs" "set vs \<subseteq> insert t (set us)"
    using insert_after_Cons [of c t b us] ts by blast
  have "distinct (map t_tcb (insert_after c t ts))"
    using ring t(3) by (simp add: distinct_insert_after [OF c] ring_ok_def)
  moreover have "\<forall>x\<in>set (insert_after c t ts). task_ok x"
    using ring t(2) by (simp add: set_insert_after [OF c] ring_ok_def)
  moreover have "\<forall>x\<in>set vs. t_id x \<noteq> 0" using vs(2) ts(3) t(1) by blast
  ultimately show ?thesis unfolding ring_ok_def using vs(1) ts(2) by metis
qed

lemma clamp_priority_range: "0 \<le> clamp_priority p" "clamp_priority p \<le> K64_MAX_PRIORITY"
  by (auto simp: clamp_priority_def K64_MAX_PRIORITY_def Let_def)

lemma timeslice_range:
  "2 \<le> timeslice_for_priority p" "timeslice_for_priority p \<le> 7"
proof -
  have "clamp_priority p \<in> {0, 1, 2, 3, 4, 5}"
    using clamp_priority_range [of p] by (auto simp: K64_MAX_PRIORITY_def)
  then show "2 \<le> timeslice_for_priority p" "timeslice_for_priority p \<le> 7"
    by (auto simp: timeslice_for_priority_def K64_DEFAULT_TIMESLICE_def)
qed

lemma sched_inv_frames:
  assumes "sched_inv s" and "pmm_inv p" and "pmm_in_use (frames s) \<subseteq> pmm_in_use p"
    and "tasks s' = tasks s" "current_task s' = current_task s" "next_task_id s' \<noteq> 0" "frames s' = p"
  shows "sched_inv s'"
  using assms unfolding sched_inv_def by (metis subsetD)

lemma build_initial_stack_cases:
  assumes "build_initial_stack ra t entry arg s = (r, s')" and "pmm_inv (frames s)"
  obtains "r = None" "s' = s"
  | base where "r = Some (t\<lparr>t_rsp := of_nat (base + K64_TASK_STACK_SIZE - 152),
        t_stack_frame := of_nat base\<rparr>)" "base \<noteq> 0"
      "k64_pmm_alloc_contiguous K64_TASK_STACK_FRAMES (frames s) = (base, frames s')"
      "tasks s' = tasks s" "current_task s' = current_task s" "next_task_id s' = next_task_id s"
      "stack_words s' = snd (push_words (initial_stack ra entry arg) (base + K64_TASK_STACK_SIZE) (stack_words s))"
proof -
  obtain base p where a: "k64_pmm_alloc_contiguous K64_TASK_STACK_FRAMES (frames s) = (base, p)"
    by fastforce
  have sp: "fst (push_words (initial_stack ra entry arg) b m) = b - 152" for b m
    by (simp add: initial_stack_def)
  show ?thesis
  proof (cases "base = 0")
    case True
    with a assms(2) pmm.alloc_run_none have "p = frames s" by blast
    with True a assms(1) that(1) show ?thesis by (simp add: build_initial_stack_def)
  next
    case False
    then show ?thesis
      using a assms(1) that(2) [of base] sp [of "base + K64_TASK_STACK_SIZE" "stack_words s"]
      by (auto simp: build_initial_stack_def split: prod.splits)
  qed
qed

text \<open>The block a creation fills in, and the two outcomes of a creation.\<close>

definition new_task :: "nat \<Rightarrow> nat \<Rightarrow> int \<Rightarrow> u64 \<Rightarrow> sched \<Rightarrow> k64_task" where
  "new_task a base prio cr3v s = \<lparr>t_tcb = a, t_id = next_task_id s,
     t_rsp = of_nat (base + K64_TASK_STACK_SIZE - 152),
     t_cr3 = (if cr3v \<noteq> 0 then cr3v else cr3 s), t_sleep_until_tick = 0,
     t_stack_frame = of_nat base, t_state = READY, t_priority = clamp_priority prio,
     t_base_timeslice = timeslice_for_priority (clamp_priority prio),
     t_remaining_ticks = timeslice_for_priority (clamp_priority prio),
     t_runtime_ticks = 0, t_wait_ticks = 0\<rparr>"

lemma create_cases:
  assumes inv: "pmm_inv (frames s)" and c: "current_task s = Some c"
    and run: "k64_task_create_arg ra entry arg prio cr3v s = (r, s')"
  obtains (none) "r = Fail" "tasks s' = tasks s" "current_task s' = Some c"
      "next_task_id s' = next_task_id s \<or> next_task_id s' = next_task_id s + 1"
      "pmm_inv (frames s')" "pmm_in_use (frames s') = pmm_in_use (frames s)"
  | (made) a base where "r = Ok a" "tasks s' = insert_after c (new_task a base prio cr3v s) (tasks s)"
      "current_task s' = Some c" "next_task_id s' = next_task_id s + 1" "pmm_inv (frames s')"
      "a \<notin> pmm_in_use (frames s)" "\<forall>k<4. base + k * 4096 \<notin> insert a (pmm_in_use (frames s))"
      "pmm_in_use (frames s') = insert a (pmm_in_use (frames s)) \<union> {base + k * 4096 |k. k < 4}"
      "stack_words s' = snd (push_words (initial_stack ra entry arg) (base + K64_TASK_STACK_SIZE) (stack_words s))"
proof -
  obtain a p where a: "k64_pmm_alloc_frame (frames s) = (a, p)" by fastforce
  have p: "pmm_inv p" using pmm.inv_alloc [OF inv] a by simp
  show ?thesis
  proof (cases "a = 0")
    case True
    with a pmm.alloc_none [OF inv] have "p = frames s" by blast
    with True a run inv c none show ?thesis by (auto simp: k64_task_create_arg_def)
  next
    case False
    note fresh = pmm.alloc_fresh [OF inv a False]
    let ?t = "(new_task a 0 prio cr3v s)\<lparr>t_rsp := 0, t_stack_frame := 0\<rparr>"
    let ?s = "s\<lparr>frames := p, next_task_id := next_task_id s + 1\<rparr>"
    obtain q u where b: "build_initial_stack ra ?t entry arg ?s = (q, u)" by fastforce
    have run': "(r, s') = (case q of None \<Rightarrow> (Fail, u\<lparr>frames := k64_pmm_free_frame a (frames u)\<rparr>)
        | Some t \<Rightarrow> (case current_task u of None \<Rightarrow> (Fault, u)
            | Some c \<Rightarrow> (Ok a, u\<lparr>tasks := insert_after c t (tasks u)\<rparr>)))"
      using run False a b by (simp add: k64_task_create_arg_def new_task_def Let_def split: option.splits)
    show ?thesis
    proof (rule build_initial_stack_cases [OF b])
      show "pmm_inv (frames ?s)" using p by simp
    next
      assume "q = None" "u = ?s"
      moreover have "pmm_in_use (k64_pmm_free_frame a p) = pmm_in_use (frames s)"
          "pmm_inv (k64_pmm_free_frame a p)"
        using p False fresh pmm.free_releases pmm.inv_free by auto
      ultimately show ?thesis using run' c none by simp
    next
      fix base
      assume q: "q = Some (?t\<lparr>t_rsp := of_nat (base + K64_TASK_STACK_SIZE - 152),
            t_stack_frame := of_nat base\<rparr>)" and base: "base \<noteq> 0"
        and al: "k64_pmm_alloc_contiguous K64_TASK_STACK_FRAMES (frames ?s) = (base, frames u)"
        and u: "tasks u = tasks ?s" "current_task u = current_task ?s" "next_task_id u = next_task_id ?s"
          "stack_words u = snd (push_words (initial_stack ra entry arg) (base + K64_TASK_STACK_SIZE) (stack_words ?s))"
      have "pmm_inv (frames u)" using pmm.inv_alloc_run [OF p, of K64_TASK_STACK_FRAMES] al by simp
      moreover note pmm.alloc_run_fresh [OF p, of K64_TASK_STACK_FRAMES base "frames u"]
      ultimately show ?thesis
        using made [of a base] run' q u c fresh al base
        by (simp add: new_task_def K64_TASK_STACK_FRAMES_def)
    qed
  qed
qed

lemma new_task_ok: "task_ok (new_task a base prio cr3v s)"
  using clamp_priority_range timeslice_range by (simp add: task_ok_def new_task_def)

lemma create_inv:
  assumes inv: "sched_inv s" and ids: "next_task_id s + 1 \<noteq> 0"
    and run: "k64_task_create_arg ra entry arg prio cr3v s = (r, s')"
  shows "sched_inv s'"
proof -
  have pinv: "pmm_inv (frames s)" and ring: "ring_ok (tasks s)" and tid: "next_task_id s \<noteq> 0"
    using inv by (simp_all add: sched_inv_def)
  obtain c where c: "current_task s = Some c" "c \<in> t_tcb ` set (tasks s)"
    using inv by (auto simp: sched_inv_def)
  from pinv c(1) run show ?thesis
  proof (cases rule: create_cases)
    case none
    then show ?thesis
      using sched_inv_frames [OF inv none(5), of s'] ids tid c(1) by auto
  next
    case (made a base)
    let ?n = "new_task a base prio cr3v s"
    have "a \<in> pmm_in_use (frames s')" using made(8) by simp
    then have "a mod 4096 = 0" by (auto simp: pmm_in_use_def K64_FRAME_SIZE_def)
    then have "a \<notin> t_tcb ` set (tasks s)" using inv made(6) by (auto simp: sched_inv_def)
    then have "ring_ok (insert_after c ?n (tasks s))"
      by (intro ring_ok_insert_after [OF ring c(2)]) (use tid new_task_ok in \<open>auto simp: new_task_def\<close>)
    with made inv ids c show ?thesis
      unfolding sched_inv_def by (auto simp: set_insert_after [OF c(2)] new_task_def)
  qed
qed

section \<open>Every reachable scheduler state\<close>

text \<open>
  The scheduler's entry points in any order: timer interrupts, the calls a running task
  makes, wake-ups, stops and creations by other code, and Ring-3 contexts starting and
  ending. Fewer than \<open>2 ^ 64 - 1\<close> tasks are ever created.
\<close>

inductive sched_step :: "sched \<Rightarrow> sched \<Rightarrow> bool" where
  timer: "sched_step s (snd (k64_sched_handle_timer r s))"
| yield: "sched_step s (k64_sched_yield s)"
| sleep: "sched_step s (k64_sched_sleep n s)"
| block: "sched_step s (k64_sched_block_current s)"
| wake: "sched_step s (k64_sched_wake_task a s)"
| stop: "sched_step s (k64_task_stop a s)"
| exit: "sched_step s (k64_task_exit_current s)"
| create: "next_task_id s + 1 \<noteq> 0 \<Longrightarrow>
    sched_step s (snd (k64_task_create_arg ra entry arg prio cr3v s))"
| user: "sched_step s (s\<lparr>user_active := b\<rparr>)"

inductive sched_reachable :: "sched \<Rightarrow> bool" where
  init: "pmm_inv (frames s) \<Longrightarrow> next_task_id s = 1 \<Longrightarrow>
    (addr mod 4096 = 0 \<longrightarrow> addr \<in> pmm_in_use (frames s)) \<Longrightarrow>
    sched_reachable (k64_sched_init addr s)"
| step: "sched_reachable s \<Longrightarrow> sched_step s t \<Longrightarrow> sched_reachable t"

lemma sched_init_inv:
  assumes "pmm_inv (frames s)" and "next_task_id s = 1"
    and "addr mod 4096 = 0 \<longrightarrow> addr \<in> pmm_in_use (frames s)"
  shows "sched_inv (k64_sched_init addr s)"
  using assms
  by (simp add: sched_inv_def k64_sched_init_def ring_ok_def bootstrap_task_def task_ok_def
      K64_MAX_PRIORITY_def K64_DEFAULT_TIMESLICE_def)

lemma current_ops_inv:
  assumes "sched_inv s"
  shows "sched_inv (k64_sched_yield s)" "sched_inv (k64_sched_sleep n s)"
    "sched_inv (k64_sched_block_current s)" "sched_inv (k64_task_exit_current s)"
    "sched_inv (k64_sched_wake_task a s)" "sched_inv (k64_task_stop a s)"
proof -
  have rem: "task_ok (t\<lparr>t_remaining_ticks := 0\<rparr>)" if "task_ok t" for t
    using that by (simp add: task_ok_remaining)
  have upd: "sched_inv (upd_current f s)" "sched_inv (upd_task a f s)"
    if "\<And>t. t_tcb (f t) = t_tcb t \<and> t_id (f t) = t_id t"
      "\<And>t. task_ok t \<Longrightarrow> task_ok (f t)" "\<And>t. t_state (f t) = RUNNING \<Longrightarrow> t_state t = RUNNING" for f a
    using that assms sched_inv_upd_current sched_inv_upd_task by simp_all
  show "sched_inv (k64_sched_yield s)" unfolding k64_sched_yield_def
    by (rule upd) (simp_all add: rem)
  show "sched_inv (k64_task_exit_current s)" unfolding k64_task_exit_current_def
    by (rule upd) simp_all
  have "sched_inv (upd_current (\<lambda>t. t\<lparr>t_sleep_until_tick := k, t_state := BLOCKED,
      t_remaining_ticks := 0\<rparr>) s)" for k
    by (rule upd) (simp_all add: task_ok_def)
  then show "sched_inv (k64_sched_sleep n s)" "sched_inv (k64_sched_block_current s)"
    using assms by (auto simp: k64_sched_sleep_def k64_sched_block_current_def split: option.splits)
  have "sched_inv (upd_task a (\<lambda>t. t\<lparr>t_sleep_until_tick := 0, t_state := READY\<rparr>) s)"
    by (rule upd) simp_all
  then show "sched_inv (k64_sched_wake_task a s)"
    using assms by (auto simp: k64_sched_wake_task_def split: option.splits)
  have "sched_inv (upd_task a (\<lambda>t. t\<lparr>t_state := ZOMBIE, t_remaining_ticks := 0\<rparr>) s)"
    by (rule upd) (simp_all add: task_ok_def)
  then show "sched_inv (k64_task_stop a s)"
    using assms by (auto simp: k64_task_stop_def split: option.splits)
qed

lemma sched_step_inv: "sched_step s t \<Longrightarrow> sched_inv s \<Longrightarrow> sched_inv t"
proof (induction rule: sched_step.induct)
  case (create s ra entry arg prio cr3v)
  obtain r s' where r: "k64_task_create_arg ra entry arg prio cr3v s = (r, s')" by fastforce
  from create_inv [OF create.prems create.hyps this] r show ?case by simp
qed (simp_all add: handle_timer_inv current_ops_inv)

section \<open>No starvation\<close>










text \<open>The task the dispatcher takes: the running one has gone back to the queue first.\<close>

definition runnable :: "k64_task \<Rightarrow> bool" where
  "runnable t \<longleftrightarrow> t_id t \<noteq> 0 \<and> (t_state t = READY \<or> t_state t = RUNNING)"

definition requeued :: "k64_task \<Rightarrow> k64_task" where
  "requeued t = (if t_state t = RUNNING then t\<lparr>t_state := READY\<rparr> else t)"

lemma requeue_map: "requeue ts = map requeued ts"
  by (simp add: requeue_def requeued_def)

lemma requeued_fields [simp]:
  "t_tcb (requeued t) = t_tcb t" "t_id (requeued t) = t_id t"
  "t_wait_ticks (requeued t) = t_wait_ticks t" "task_ok (requeued t) = task_ok t"
  by (simp_all add: requeued_def)


lemma candidate_requeued: "candidate (requeued t) = runnable t" "task_score (requeued t) = task_score t"
  by (auto simp: candidate_def runnable_def task_score_def requeued_def)

lemma dispatch_requeued [simp]: "dispatch (requeued t) = dispatch t"
  by (simp add: requeued_def)

lemma pick_dispatches:
  assumes inv: "sched_inv u"
  obtains x where "x \<in> set (tasks u)"
    "if \<exists>y\<in>set (tasks u). runnable y
     then runnable x \<and> (\<forall>y\<in>set (tasks u). runnable y \<longrightarrow> task_score y \<le> task_score x) else t_id x = 0"
    "current_task (snd (pick_next_rsp u)) = Some (t_tcb x)"
    "tasks (snd (pick_next_rsp u)) =
       map (\<lambda>t. if t_tcb t = t_tcb x then dispatch t else requeued t) (tasks u)"
proof -
  have "\<exists>x\<in>set (tasks u). chosen (tasks u) = requeued x \<and>
    (if \<exists>y\<in>set (tasks u). runnable y
     then runnable x \<and> (\<forall>y\<in>set (tasks u). runnable y \<longrightarrow> task_score y \<le> task_score x) else t_id x = 0)"
  proof (cases "select_task (requeue (tasks u)) None")
    case None
    then have "\<not> (\<exists>y\<in>set (tasks u). runnable y)"
      using select_task_None [of "requeue (tasks u)" None]
      by (auto simp: requeue_map candidate_requeued)
    moreover obtain b us where "tasks u = b # us" "t_id b = 0"
      using inv by (auto simp: sched_inv_def ring_ok_def)
    ultimately show ?thesis using None by (simp add: chosen_def requeue_map)
  next
    case (Some c)
    then obtain x where x: "x \<in> set (tasks u)" "c = requeued x"
      using select_task_Some(1) [OF Some] by (auto simp: requeue_map)
    have "runnable x" using select_task_Some(2) [OF Some] by (simp only: x candidate_requeued)
    moreover have "task_score y \<le> task_score x" if "y \<in> set (tasks u)" "runnable y" for y
      using select_task_Some(3) [OF Some, of "requeued y"] that
      by (simp only: x candidate_requeued) (simp add: requeue_map)
    ultimately show ?thesis using x Some by (auto simp: chosen_def)
  qed
  then obtain x where x: "x \<in> set (tasks u)" "chosen (tasks u) = requeued x" "t_tcb (requeued x) = t_tcb x"
    "if \<exists>y\<in>set (tasks u). runnable y
     then runnable x \<and> (\<forall>y\<in>set (tasks u). runnable y \<longrightarrow> task_score y \<le> task_score x) else t_id x = 0"
    by auto
  show ?thesis
    by (rule that [OF x(1,4)]; simp add: pick_next_rsp_eq [OF inv] Let_def x(2,3) requeue_map comp_def)
qed












lemma pick_next_rsp_frame [simp]:
  assumes "sched_inv s"
  shows "user_active (snd (pick_next_rsp s)) = user_active s"
    and "length (tasks (snd (pick_next_rsp s))) = length (tasks s)"
  by (simp_all add: pick_next_rsp_eq [OF assms] Let_def requeue_def)

lemma timer_frame:
  assumes "sched_inv s" and "\<not> user_active s"
  shows "\<not> user_active (snd (k64_sched_handle_timer r s))"
    and "length (tasks (snd (k64_sched_handle_timer r s))) = length (tasks s)"
  using assms by (cases rule: handle_timer_cases [of s r]; auto)+


text \<open>A run of timer interrupts; \<open>rs\<close> are the stack pointers they find.\<close>

fun timer_ticks :: "u64 list \<Rightarrow> sched \<Rightarrow> sched" where
  "timer_ticks [] s = s"
| "timer_ticks (r # rs) s = timer_ticks rs (snd (k64_sched_handle_timer r s))"



text \<open>An idle task that runs and a task of priority 1 that is ready.\<close>

definition two_tasks :: sched where
  "two_tasks =
     \<lparr>tasks = [bootstrap_task 1048584 4096,
        \<lparr>t_tcb = 4096, t_id = 1, t_rsp = 20480, t_cr3 = 4096, t_sleep_until_tick = 0,
         t_stack_frame = 8192, t_state = READY, t_priority = 1, t_base_timeslice = 3,
         t_remaining_ticks = 3, t_runtime_ticks = 0, t_wait_ticks = 0\<rparr>],
      current_task = Some 1048584, next_task_id = 2, frames = small_pmm, cr3 = 4096, ticks = 0,
      eoi_sent = 0, user_active = False, stack_words = (\<lambda>_. 0)\<rparr>"

lemma two_tasks_inv: "sched_inv two_tasks"
proof -
  have "test_frame small_pmm 1" by (simp add: small_pmm_frame)
  then have "4096 \<in> pmm_in_use small_pmm"
    using in_use_frame [of 1 small_pmm] by (simp add: K64_FRAME_SIZE_def K64_MAX_FRAMES_def)
  then show ?thesis
    by (simp add: sched_inv_def two_tasks_def ring_ok_def bootstrap_task_def task_ok_def
        K64_MAX_PRIORITY_def K64_DEFAULT_TIMESLICE_def small_pmm_inv)
qed


section \<open>Reachable states, dispatch, sleeping, creation\<close>

lemma sched_reachable_inv: "sched_reachable s \<Longrightarrow> sched_inv s"
  by (induction rule: sched_reachable.induct) (auto intro: sched_init_inv sched_step_inv)

text \<open>C6: in every state the scheduler reaches from its initialisation, by any sequence of timer
  interrupts, yields, sleeps, blocks, wake-ups, stops, exits, creations and changes of the Ring-3
  flag, the ring begins with the idle task and holds distinct blocks, priorities and slices are in
  range, the current task is in the ring and no other task is running, and every task block that is
  a frame is owned in the physical memory manager.\<close>

theorem scheduler_invariant: "sched_reachable s \<Longrightarrow> sched_inv s"
  by (rule sched_reachable_inv)

theorem scheduler_invariant_witness:
  "sched_inv (snd (k64_sched_handle_timer 0 (k64_sched_init 1048584 (two_tasks\<lparr>next_task_id := 1\<rparr>))))"
proof -
  have "sched_reachable (k64_sched_init 1048584 (two_tasks\<lparr>next_task_id := 1\<rparr>))"
    by (rule sched_reachable.init) (simp_all add: two_tasks_def small_pmm_inv)
  from scheduler_invariant [OF sched_reachable.step [OF this sched_step.timer]] show ?thesis .
qed

text \<open>The dispatcher runs a task with the highest score (\<open>1024\<close> per priority level plus one per
  tick waited) among the runnable tasks, the preempted one included, and the idle task only when no
  other task is runnable; the chosen task gets a full slice and its wait starts again, and it is
  the only one running.\<close>

theorem dispatch_picks_best:
  assumes "sched_inv s" and s': "s' = snd (pick_next_rsp s)"
  shows "\<exists>t\<in>set (tasks s). current_task s' = Some (t_tcb t) \<and>
     (if \<exists>u\<in>set (tasks s). runnable u
      then runnable t \<and> (\<forall>u\<in>set (tasks s). runnable u \<longrightarrow> task_score u \<le> task_score t)
      else t_id t = 0) \<and>
     dispatch t \<in> set (tasks s') \<and>
     (\<forall>u\<in>set (tasks s'). t_state u = RUNNING \<longrightarrow> t_tcb u = t_tcb t)"
proof -
  obtain t where t: "t \<in> set (tasks s)"
    "if \<exists>u\<in>set (tasks s). runnable u
     then runnable t \<and> (\<forall>u\<in>set (tasks s). runnable u \<longrightarrow> task_score u \<le> task_score t) else t_id t = 0"
    "current_task s' = Some (t_tcb t)"
    "tasks s' = map (\<lambda>u. if t_tcb u = t_tcb t then dispatch u else requeued u) (tasks s)"
    unfolding s' by (rule pick_dispatches [OF assms(1)])
  have "dispatch t \<in> set (tasks s')" using t(1) unfolding t(4) by force
  moreover have "sched_inv s'" using pick_next_rsp_inv assms(1) s' by simp
  then have "\<forall>u\<in>set (tasks s'). t_state u = RUNNING \<longrightarrow> t_tcb u = t_tcb t"
    using t(3) by (auto simp: sched_inv_def)
  ultimately show ?thesis using t(1-3) by blast
qed

theorem dispatch_picks_best_witness:
  "\<exists>t\<in>set (tasks two_tasks). current_task (snd (pick_next_rsp two_tasks)) = Some (t_tcb t) \<and> runnable t"
  using dispatch_picks_best [OF two_tasks_inv refl]
  by (auto simp: two_tasks_def bootstrap_task_def runnable_def)

text \<open>How a blocked task looks after \<open>k\<close> further ticks.\<close>

definition asleep :: "nat \<Rightarrow> u64 \<Rightarrow> sched \<Rightarrow> bool" where
  "asleep a d s \<longleftrightarrow> (\<exists>t\<in>set (tasks s). t_tcb t = a \<and> t_state t = BLOCKED \<and>
     t_sleep_until_tick t = d \<and> t_id t \<noteq> 0)"

definition awake :: "nat \<Rightarrow> sched \<Rightarrow> bool" where
  "awake a s \<longleftrightarrow> (\<exists>t\<in>set (tasks s). t_tcb t = a \<and> (t_state t = READY \<or> t_state t = RUNNING))"

lemma prep_task_sleep:
  assumes "t_state t = BLOCKED" and "t_sleep_until_tick t \<noteq> 0"
  shows "ticks s + 1 < t_sleep_until_tick t \<Longrightarrow> t_state (prep_task r s t) = BLOCKED \<and>
      t_sleep_until_tick (prep_task r s t) = t_sleep_until_tick t"
    and "t_sleep_until_tick t \<le> ticks s + 1 \<Longrightarrow> t_state (prep_task r s t) = READY"
  using assms by (auto simp: prep_task_def tick_task_def Let_def)

text \<open>After the accounting, neither the dispatcher nor the slice count touches a blocked task.\<close>

lemma timer_keeps_state:
  assumes inv: "sched_inv s" and "\<not> user_active s" and t: "t \<in> set (tasks s)" "t_id t \<noteq> 0"
  obtains t' where "t' \<in> set (tasks (snd (k64_sched_handle_timer r s)))" "t_tcb t' = t_tcb t" "t_id t' = t_id t"
    "t_sleep_until_tick t' = t_sleep_until_tick (prep_task r s t)"
    "t_state (prep_task r s t) = BLOCKED \<Longrightarrow> t_state t' = BLOCKED"
    "t_state (prep_task r s t) = READY \<Longrightarrow> t_state t' = READY \<or> t_state t' = RUNNING"
proof -
  let ?p = "prep_task r s t"
  let ?q = "if current_task s = Some (t_tcb t) then spend_tick ?p else ?p"
  have spent: "?q \<in> set (tasks (upd_current spend_tick (timer_prep r s)))"
    using t(1) by (auto simp: image_iff intro!: bexI [of _ t])
  have prep: "?p \<in> set (tasks (timer_prep r s))" using t(1) by simp
  from assms(1,2) show ?thesis
  proof (cases rule: handle_timer_cases [of s r])
    case (keep c)
    then show ?thesis using spent by (intro that [of ?q]) auto
  next
    case (pick u)
    have "?p \<in> set (tasks u) \<or> ?q \<in> set (tasks u)" using pick(3) spent prep by blast
    then obtain q where q: "q \<in> set (tasks u)" "t_tcb q = t_tcb t" "t_id q = t_id t"
        "t_state q = t_state ?p" "t_sleep_until_tick q = t_sleep_until_tick ?p"
      by (rule disjE) auto
    obtain x where x: "x \<in> set (tasks u)"
      "if \<exists>y\<in>set (tasks u). runnable y
       then runnable x \<and> (\<forall>y\<in>set (tasks u). runnable y \<longrightarrow> task_score y \<le> task_score x) else t_id x = 0"
      "tasks (snd (pick_next_rsp u)) =
         map (\<lambda>t. if t_tcb t = t_tcb x then dispatch t else requeued t) (tasks u)"
      by (rule pick_dispatches [OF pick(1)])
    have "x = q" if "t_tcb q = t_tcb x"
      using that x(1) q(1) pick(1) ring_ok_inj unfolding sched_inv_def by metis
    then have blocked: "t_tcb q \<noteq> t_tcb x" if "t_state q = BLOCKED"
      using that x(2) q(3) t(2) by (auto simp: runnable_def split: if_splits)
    let ?t = "if t_tcb q = t_tcb x then dispatch q else requeued q"
    have "?t \<in> set (tasks (snd (k64_sched_handle_timer r s)))"
      unfolding pick(2) x(3) using q(1) by force
    then show ?thesis
      by (rule that) (use q blocked in \<open>auto simp: requeued_def\<close>)
  qed
qed

lemma timer_advances_ticks:
  assumes "sched_inv s" and "\<not> user_active s"
  shows "ticks (snd (k64_sched_handle_timer r s)) = ticks s + 1"
  using assms
  by (cases rule: handle_timer_cases [of s r]) (auto simp: pick_next_rsp_eq Let_def)

lemma asleep_tick:
  assumes inv: "sched_inv s" "\<not> user_active s" and "asleep a d s" and d: "unat (ticks s) < unat d"
  shows "if unat (ticks s) + 1 < unat d then asleep a d (snd (k64_sched_handle_timer r s))
         else awake a (snd (k64_sched_handle_timer r s))"
proof -
  obtain t where t: "t \<in> set (tasks s)" "t_tcb t = a" "t_state t = BLOCKED" "t_sleep_until_tick t = d" "t_id t \<noteq> 0"
    using assms(3) by (auto simp: asleep_def)
  have d0: "t_sleep_until_tick t \<noteq> 0" using d t(4) by auto
  have "unat (ticks s + 1) = unat (ticks s) + 1"
    using unat_u64_less [of d] d by (simp add: unat_add_no_wrap)
  then have cmp: "ticks s + 1 < d \<longleftrightarrow> unat (ticks s) + 1 < unat d" "d \<le> ticks s + 1 \<longleftrightarrow> unat d \<le> unat (ticks s) + 1"
    by (simp_all add: word_less_nat_alt word_le_nat_alt)
  obtain t' where t': "t' \<in> set (tasks (snd (k64_sched_handle_timer r s)))" "t_tcb t' = t_tcb t" "t_id t' = t_id t"
    "t_sleep_until_tick t' = t_sleep_until_tick (prep_task r s t)"
    "t_state (prep_task r s t) = BLOCKED \<Longrightarrow> t_state t' = BLOCKED"
    "t_state (prep_task r s t) = READY \<Longrightarrow> t_state t' = READY \<or> t_state t' = RUNNING"
    using timer_keeps_state [OF inv t(1,5)] by metis
  show ?thesis
  proof (cases "unat (ticks s) + 1 < unat d")
    case True
    then show ?thesis
      using prep_task_sleep(1) [OF t(3) d0, where s = s and r = r] cmp t t' by (auto simp: asleep_def)
  next
    case False
    then show ?thesis
      using prep_task_sleep(2) [OF t(3) d0, where s = s and r = r] cmp t t' by (auto simp: awake_def)
  qed
qed

lemma asleep_ticks:
  "\<lbrakk>sched_inv s; \<not> user_active s; asleep a d s; unat (ticks s) < unat d; unat (ticks s) + length rs \<le> unat d\<rbrakk>
   \<Longrightarrow> if unat (ticks s) + length rs < unat d then asleep a d (timer_ticks rs s)
       else awake a (timer_ticks rs s)"
proof (induction rs arbitrary: s)
  case Nil
  then show ?case by simp
next
  case (Cons r rs)
  let ?s = "snd (k64_sched_handle_timer r s)"
  have step: "if unat (ticks s) + 1 < unat d then asleep a d ?s else awake a ?s"
    using Cons.prems by (intro asleep_tick) simp_all
  have tk: "unat (ticks ?s) = unat (ticks s) + 1"
    using timer_advances_ticks [OF Cons.prems(1,2), of r] Cons.prems(4) unat_u64_less [of d]
    by (simp add: unat_add_no_wrap)
  show ?case
  proof (cases "unat (ticks s) + 1 < unat d")
    case True
    then show ?thesis
      using Cons.IH [of ?s] Cons.prems step tk handle_timer_inv timer_frame(1) by simp
  next
    case False
    have "length rs = 0" using Cons.prems(5) False unfolding list.size by linarith
    moreover have "unat (ticks s) + 1 = unat d" using Cons.prems(4) False by linarith
    ultimately show ?thesis using step by simp
  qed
qed

lemma sleep_blocks:
  assumes inv: "sched_inv s" and t: "t \<in> set (tasks s)" "current_task s = Some (t_tcb t)" "t_id t \<noteq> 0"
  shows "asleep (t_tcb t) (ticks s + (if n \<noteq> 0 then n else 1)) (k64_sched_sleep n s)"
proof -
  have "current_block s = Some t"
    using inv t task_at_Some [of s "t_tcb t" t] by (simp add: current_block_def sched_inv_def)
  then show ?thesis
    using t by (auto simp: k64_sched_sleep_def asleep_def upd_current_def upd_task_def
        intro!: rev_image_eqI [of t] bexI [of _ "t\<lparr>t_sleep_until_tick := _, t_state := BLOCKED, t_remaining_ticks := 0\<rparr>"])
qed

text \<open>A task that asks to sleep \<open>n\<close> ticks (at least one) stays blocked through fewer than \<open>n\<close>
  timer ticks and is runnable again after exactly \<open>n\<close>, as long as the tick counter does not
  overflow.\<close>

theorem sleep_wakes_on_time:
  assumes "sched_inv s" and "\<not> user_active s"
    and "t \<in> set (tasks s)" and "current_task s = Some (t_tcb t)" and "t_id t \<noteq> 0"
    and "m = max 1 (unat n)" and "unat (ticks s) + m < 2 ^ 64" and "length rs \<le> m"
  shows "if length rs < m
         then asleep (t_tcb t) (ticks s + of_nat m) (timer_ticks rs (k64_sched_sleep n s))
         else awake (t_tcb t) (timer_ticks rs (k64_sched_sleep n s))"
proof -
  let ?s = "k64_sched_sleep n s" and ?d = "ticks s + (if n \<noteq> 0 then n else 1)"
  have d: "?d = ticks s + of_nat m" "unat ?d = unat (ticks s) + m"
    using assms(6,7) by (auto simp: max_def unat_add_no_wrap unat_eq_0 Suc_le_eq split: if_splits)
  have m: "0 < m" using assms(6) by simp
  have s: "ticks ?s = ticks s" "\<not> user_active ?s"
    using assms(2) by (simp_all add: k64_sched_sleep_def split: option.splits)
  have "asleep (t_tcb t) ?d ?s" using assms(1,3-5) by (rule sleep_blocks)
  then show ?thesis
    using asleep_ticks [OF current_ops_inv(2) [OF assms(1)] s(2), of "t_tcb t" "ticks s + of_nat m" rs]
      d(2) s(1) m assms(8) unfolding d(1) by simp
qed

text \<open>The state of the example after its first tick: the second task runs.\<close>

lemma two_tasks_dispatched:
  "current_task (snd (k64_sched_handle_timer 0 two_tasks)) = Some 4096"
  "tasks (snd (k64_sched_handle_timer 0 two_tasks)) ! 1 \<in> set (tasks (snd (k64_sched_handle_timer 0 two_tasks)))"
  "t_tcb (tasks (snd (k64_sched_handle_timer 0 two_tasks)) ! 1) = 4096"
  "t_id (tasks (snd (k64_sched_handle_timer 0 two_tasks)) ! 1) = 1"
  "ticks (snd (k64_sched_handle_timer 0 two_tasks)) = 1"
  "\<not> user_active (snd (k64_sched_handle_timer 0 two_tasks))"
  by (simp_all add: two_tasks_def bootstrap_task_def k64_sched_handle_timer_def upd_current_def upd_task_def
      on_tick_accounting_def tick_task_def current_block_def task_at_def pick_next_rsp_def candidate_def
      Let_def)

theorem sleep_wakes_on_time_witness:
  "asleep 4096 4 (timer_ticks [0, 0] (k64_sched_sleep 3 (snd (k64_sched_handle_timer 0 two_tasks))))"
  using sleep_wakes_on_time [OF handle_timer_inv [OF two_tasks_inv, of 0], of
      "tasks (snd (k64_sched_handle_timer 0 two_tasks)) ! 1" 3 3 "[0, 0]"] two_tasks_dispatched
  by simp

lemma initial_stack_words:
  "let m = snd (push_words (initial_stack ra entry arg) (base + K64_TASK_STACK_SIZE) m0) in
     m (base + 16296) = arg \<and> m (base + 16352) = entry \<and> m (base + 16360) = 0x08 \<and>
     m (base + 16368) = 0x202 \<and> m (base + 16376) = ra"
  by (simp add: initial_stack_def K64_TASK_STACK_SIZE_def K64_TASK_STACK_FRAMES_def Let_def)

text \<open>A creation that succeeds adds one ready task, with a fresh identifier and its priority
  clamped, on a block and a stack of four frames that nobody used before; the saved context that
  its stack pointer names (15 registers below the return frame) holds the argument in the slot of
  \<^verbatim>\<open>rdi\<close>, then the entry point, the kernel code segment, the flags and the return stub.\<close>

theorem create_builds_startable_task:
  assumes "sched_inv s" and "k64_task_create_arg ra entry arg prio cr3v s = (Ok a, s')"
  shows "\<exists>t base. set (tasks s') = insert t (set (tasks s)) \<and>
     t_tcb t = a \<and> t_id t = next_task_id s \<and> t_state t = READY \<and> t_priority t = clamp_priority prio \<and>
     a \<notin> pmm_in_use (frames s) \<and> (\<forall>k<4. base + k * 4096 \<notin> insert a (pmm_in_use (frames s))) \<and>
     pmm_in_use (frames s') = insert a (pmm_in_use (frames s)) \<union> {base + k * 4096 |k. k < 4} \<and>
     t_rsp t = of_nat (base + 16232) \<and> stack_words s' (base + 16232 + 64) = arg \<and>
     map (\<lambda>i. stack_words s' (base + 16232 + 120 + 8 * i)) [0..<4] = [entry, 0x08, 0x202, ra]"
proof -
  have pinv: "pmm_inv (frames s)" using assms(1) by (simp add: sched_inv_def)
  obtain c where c: "current_task s = Some c" "c \<in> t_tcb ` set (tasks s)"
    using assms(1) by (auto simp: sched_inv_def)
  from pinv c(1) assms(2) show ?thesis
  proof (cases rule: create_cases)
    case (made b base)
    have "set (tasks s') = insert (new_task a base prio cr3v s) (set (tasks s))"
      using made(1,2) set_insert_after [OF c(2)] by simp
    moreover have "map (\<lambda>i. stack_words s' (base + 16232 + 120 + 8 * i)) [0..<4] = [entry, 0x08, 0x202, ra]"
        "stack_words s' (base + 16232 + 64) = arg"
      using initial_stack_words [of ra entry arg base "stack_words s"]
      by (simp_all add: made(9) upt_rec Let_def add.commute [of base])
    moreover have "t_rsp (new_task a base prio cr3v s) = of_nat (base + 16232)"
      by (simp add: new_task_def K64_TASK_STACK_SIZE_def K64_TASK_STACK_FRAMES_def)
    ultimately show ?thesis using made(1,6-8)
      by (intro exI [of _ "new_task a base prio cr3v s"] exI [of _ base]) (simp add: new_task_def)
  qed simp
qed

lemma two_tasks_create:
  "fst (k64_task_create_arg 0x100 0x200 7 9 0 two_tasks) = Ok 8192"
proof -
  let ?p = "count_used (set_frame 2 small_pmm)"
  have wf: "pmm_wf small_pmm" using small_pmm_inv by (simp add: pmm_inv_def)
  have t: "test_frame (set_frame 2 small_pmm) f = (f < 3)" if "f < 8" for f
    using that by (auto simp: test_set_frame wf K64_MAX_FRAMES_def small_pmm_frame)
  have "frame_limit ?p = 8" by (simp add: frame_limit_def small_pmm_def K64_MAX_FRAMES_def)
  moreover have "first_fit 4 8 ?p = Some 3"
    by (simp add: first_fit_def run_free_def t upt_rec)
  ultimately have "first_fit 4 (frame_limit ?p) ?p = Some 3" by (simp only:)
  then have "k64_pmm_alloc_contiguous 4 ?p = (3 * K64_FRAME_SIZE, mark_run 3 4 ?p)"
    using alloc_contiguous_first_fit [of 4 ?p] by (simp only: option.case) (simp add: K64_MAX_FRAMES_def)
  then show ?thesis
    by (simp add: k64_task_create_arg_def two_tasks_def small_pmm_alloc(1) build_initial_stack_def
        K64_TASK_STACK_FRAMES_def K64_FRAME_SIZE_def initial_stack_def Let_def)
qed

theorem create_builds_startable_task_witness:
  "\<exists>t. t \<in> set (tasks (snd (k64_task_create_arg 0x100 0x200 7 9 0 two_tasks))) \<and> t_tcb t = 8192 \<and> t_priority t = 5"
  using create_builds_startable_task [OF two_tasks_inv, of "0x100" "0x200" 7 9 0 8192] two_tasks_create
  by (cases "k64_task_create_arg 0x100 0x200 7 9 0 two_tasks")
    (auto simp: clamp_priority_def K64_MAX_PRIORITY_def)

end
