(* ===== verification/Vmm.thy ===== *)
theory Vmm
  imports Pmm
begin

text \<open>
  The virtual memory manager, \<^verbatim>\<open>src/k64_vmm.c\<close>: four-level page tables in physical memory, address spaces
  for services and user programs, memory-mapped devices, and copies from and to user memory.

  The kernel reaches a frame under its physical address, so a pointer to a table is that address. \<open>phys\<close> is
  physical memory by bytes, a table entry is the eight bytes at its address. The static variables are the
  fields of \<open>vmm\<close>. An operation on an address space has the space it points to as a second part of its
  state (calls with a null pointer are not represented); a pointer result that is null is \<open>Fail\<close>.
  Loops over indices are folds or recursions over the list of the indices.
\<close>

section \<open>Constants and state\<close>

definition K64_PAGE_SIZE :: u64 where "K64_PAGE_SIZE = 4096"
definition K64_PAGE_MASK :: u64 where "K64_PAGE_MASK = NOT (K64_PAGE_SIZE - 1)"
definition K64_PAGE_PRESENT :: u64 where "K64_PAGE_PRESENT = 1"
definition K64_PAGE_RW :: u64 where "K64_PAGE_RW = 2"
definition K64_PAGE_USER :: u64 where "K64_PAGE_USER = 4"
definition K64_PAGE_TABLE_FLAGS :: u64 where "K64_PAGE_TABLE_FLAGS = K64_PAGE_PRESENT OR K64_PAGE_RW"
definition K64_SERVICE_VM_BASE :: u64 where "K64_SERVICE_VM_BASE = 0x100000000"
definition K64_SERVICE_VM_STRIDE :: u64 where "K64_SERVICE_VM_STRIDE = 0x1000000"
definition K64_SERVICE_VM_ROOT_SIZE :: u64 where "K64_SERVICE_VM_ROOT_SIZE = 0x1000000"
definition K64_SERVICE_VM_STACK_SIZE :: u64 where "K64_SERVICE_VM_STACK_SIZE = 0x40000"
definition K64_SERVICE_VM_HEAP_SIZE :: u64 where "K64_SERVICE_VM_HEAP_SIZE = 0x100000"
definition K64_SERVICE_VM_MAX_SLOTS :: nat where "K64_SERVICE_VM_MAX_SLOTS = 256"
definition K64_SERVICE_STACK_FRAMES :: nat where
  "K64_SERVICE_STACK_FRAMES = unat (K64_SERVICE_VM_STACK_SIZE div K64_PAGE_SIZE)"
definition K64_MMIO_BASE :: u64 where "K64_MMIO_BASE = 0x200000000"
definition K64_MMIO_SIZE :: u64 where "K64_MMIO_SIZE = 0x1000000"

type_synonym phys_mem = "u64 \<Rightarrow> u8"

record k64_vm_space =
  present :: bool
  user_mode :: bool
  cr3 :: u64
  root_base :: u64
  root_size :: u64
  stack_base :: u64
  stack_size :: u64
  heap_base :: u64
  heap_size :: u64
  page_table_frames :: "u64 list"
  page_table_frame_count :: nat
  phys_frames :: "u64 list"
  phys_frame_count :: nat

record vmm =
  service_slot_used :: "bool list"
  kernel_cr3 :: u64
  kernel_mapping_space :: k64_vm_space
  next_mmio_virt :: u64
  vm_pmm :: pmm
  phys :: phys_mem

type_synonym 'a vm = "(vmm \<times> k64_vm_space, 'a) op"

section \<open>Physical memory\<close>

definition put_bytes :: "u64 \<Rightarrow> bytes \<Rightarrow> phys_mem \<Rightarrow> phys_mem" where
  "put_bytes a bs m x = (if unat (x - a) < length bs then bs ! unat (x - a) else m x)"

definition get_bytes :: "u64 \<Rightarrow> nat \<Rightarrow> phys_mem \<Rightarrow> bytes" where
  "get_bytes a n m = map (\<lambda>i. m (a + of_nat i)) [0..<n]"

definition entry :: "phys_mem \<Rightarrow> u64 \<Rightarrow> nat \<Rightarrow> u64" where
  "entry m table i = le_dec (get_bytes (table + of_nat (8 * i)) 8 m)"

definition set_entry :: "u64 \<Rightarrow> nat \<Rightarrow> u64 \<Rightarrow> phys_mem \<Rightarrow> phys_mem" where
  "set_entry table i e m = put_bytes (table + of_nat (8 * i)) (le_enc 8 e) m"

definition vmm_clear_page :: "u64 \<Rightarrow> phys_mem \<Rightarrow> phys_mem" where
  "vmm_clear_page page m = put_bytes page (replicate (unat K64_PAGE_SIZE) 0) m"

abbreviation on_phys :: "(phys_mem \<Rightarrow> phys_mem) \<Rightarrow> vmm \<times> k64_vm_space \<Rightarrow> vmm \<times> k64_vm_space" where
  "on_phys f st \<equiv> ((fst st)\<lparr>phys := f (phys (fst st))\<rparr>, snd st)"

section \<open>Frames of a space\<close>

text \<open>The first entries of the two arrays are cleared, as many as the loops count.\<close>

definition vmm_clear_space :: "k64_vm_space \<Rightarrow> k64_vm_space" where
  "vmm_clear_space sp = sp\<lparr>present := False, user_mode := False, cr3 := 0, root_base := 0, root_size := 0,
     stack_base := 0, stack_size := 0, heap_base := 0, heap_size := 0, page_table_frame_count := 0,
     phys_frame_count := 0, page_table_frames := put_at 0 (replicate 16 0) (page_table_frames sp),
     phys_frames := put_at 0 (replicate 512 0) (phys_frames sp)\<rparr>"

definition vmm_record_frame :: "u64 list \<Rightarrow> nat \<Rightarrow> u64 \<Rightarrow> (u64 list \<times> nat) option" where
  "vmm_record_frame lst n frame = (if n \<ge> length lst then None else Some (lst[n := frame], n + 1))"

definition vmm_alloc_table_frame :: "u64 vm" where
  "vmm_alloc_table_frame st = (case st of (vm, sp) \<Rightarrow>
     (case k64_pmm_alloc_frame (vm_pmm vm) of (frame, p) \<Rightarrow>
       let vm = vm\<lparr>vm_pmm := p\<rparr> in
       if frame = 0 then (Fail, (vm, sp))
       else case vmm_record_frame (page_table_frames sp) (page_table_frame_count sp) (of_nat frame) of
           None \<Rightarrow> (Fail, (vm\<lparr>vm_pmm := k64_pmm_free_frame frame p\<rparr>, sp))
         | Some (lst, n) \<Rightarrow>
             (Ok (of_nat frame), (vm\<lparr>phys := vmm_clear_page (of_nat frame) (phys vm)\<rparr>,
                sp\<lparr>page_table_frames := lst, page_table_frame_count := n\<rparr>))))"

section \<open>Page tables\<close>

definition fill_table :: "u64 \<Rightarrow> (nat \<Rightarrow> u64) \<Rightarrow> phys_mem \<Rightarrow> phys_mem" where
  "fill_table table f m = fold (\<lambda>i. set_entry table i (f i)) [0..<512] m"

definition split_entry :: "u64 \<Rightarrow> nat \<Rightarrow> nat \<Rightarrow> u64" where
  "split_entry e level i =
     (let child_flags = e AND 0xFFF in
      if level = 2 then ((e AND 0xFFFFFC0000000) + of_nat i * 0x200000) OR child_flags
      else ((e AND 0xFFFFFFE00000) + of_nat i * K64_PAGE_SIZE) OR (child_flags AND NOT 0x80))"

definition vmm_split_large_page :: "u64 \<Rightarrow> nat \<Rightarrow> u64 \<Rightarrow> nat \<Rightarrow> u64 vm" where
  "vmm_split_large_page table index flags level st =
     (let e = entry (phys (fst st)) table index in
      if e AND 0x80 = 0 \<or> level < 1 \<or> level > 2 then (Fail, st)
      else bind vmm_alloc_table_frame (\<lambda>next.
           bind (modify (on_phys (fill_table next (split_entry e level)))) (\<lambda>_.
           bind (modify (on_phys (set_entry table index
             (next OR K64_PAGE_TABLE_FLAGS OR ((e OR flags) AND K64_PAGE_USER))))) (\<lambda>_.
           ret next))) st)"

definition vmm_next_table :: "u64 \<Rightarrow> nat \<Rightarrow> u64 \<Rightarrow> nat \<Rightarrow> u64 vm" where
  "vmm_next_table table index flags level st =
     (let e = entry (phys (fst st)) table index in
      if e AND K64_PAGE_PRESENT \<noteq> 0 then
        if e AND 0x80 \<noteq> 0 then vmm_split_large_page table index flags level st
        else (Ok (e AND K64_PAGE_MASK), st)
      else bind vmm_alloc_table_frame (\<lambda>next.
           bind (modify (on_phys (set_entry table index (next OR K64_PAGE_TABLE_FLAGS OR (flags AND K64_PAGE_USER))))) (\<lambda>_.
           ret next)) st)"

text \<open>The index of an address in the table at depth \<open>d\<close>: 0 is the root, 3 the table of pages.\<close>

definition table_index :: "nat \<Rightarrow> u64 \<Rightarrow> nat" where
  "table_index d virt = unat (drop_bit (39 - 9 * d) virt AND 0x1FF)"

definition vmm_map_page :: "u64 \<Rightarrow> u64 \<Rightarrow> u64 \<Rightarrow> unit vm" where
  "vmm_map_page virt_addr phys_addr flags st =
     guard (present (snd st) \<and> cr3 (snd st) \<noteq> 0)
       (bind (vmm_next_table (cr3 (snd st)) (table_index 0 virt_addr) flags 3) (\<lambda>pdpt.
        bind (vmm_next_table pdpt (table_index 1 virt_addr) flags 2) (\<lambda>pdt.
        bind (vmm_next_table pdt (table_index 2 virt_addr) flags 1) (\<lambda>pt.
        modify (on_phys (set_entry pt (table_index 3 virt_addr)
          ((phys_addr AND K64_PAGE_MASK) OR (flags AND 0xFFF) OR K64_PAGE_PRESENT))))))) st"

definition vmm_clone_kernel_root :: "unit vm" where
  "vmm_clone_kernel_root st =
     (let m = phys (fst st); kernel_pml4 = kernel_cr3 (fst st) in
      guard (kernel_cr3 (fst st) \<noteq> 0 \<and> entry m kernel_pml4 0 AND K64_PAGE_PRESENT \<noteq> 0)
       (let kernel_pdpt = entry m kernel_pml4 0 AND K64_PAGE_MASK in
        bind (attempt vmm_alloc_table_frame) (\<lambda>new_pml4.
        bind (attempt vmm_alloc_table_frame) (\<lambda>new_pdpt.
        case (new_pml4, new_pdpt) of
          (Some pml4, Some pdpt) \<Rightarrow>
            bind (modify (on_phys (\<lambda>m. fold (\<lambda>i m. set_entry pdpt i (entry (set_entry pml4 i (entry m kernel_pml4 i) m) kernel_pdpt i)
                   (set_entry pml4 i (entry m kernel_pml4 i) m)) [0..<512] m))) (\<lambda>_.
            bind (modify (\<lambda>(vm, sp). (vm\<lparr>phys := set_entry pml4 0
                   (pdpt OR K64_PAGE_TABLE_FLAGS OR (if user_mode sp then K64_PAGE_USER else 0)) (phys vm)\<rparr>, sp))) (\<lambda>_.
            modify (\<lambda>(vm, sp). (vm, sp\<lparr>cr3 := pml4\<rparr>))))
        | _ \<Rightarrow> fail))) st)"

text \<open>A page on a frame of its own; the frame is recorded in the space.\<close>

definition vmm_alloc_phys_frame :: "u64 vm" where
  "vmm_alloc_phys_frame st = (case st of (vm, sp) \<Rightarrow>
     (case k64_pmm_alloc_frame (vm_pmm vm) of (frame, p) \<Rightarrow>
       let vm = vm\<lparr>vm_pmm := p\<rparr> in
       if frame = 0 then (Fail, (vm, sp))
       else case vmm_record_frame (phys_frames sp) (phys_frame_count sp) (of_nat frame) of
           None \<Rightarrow> (Fail, (vm\<lparr>vm_pmm := k64_pmm_free_frame frame p\<rparr>, sp))
         | Some (lst, n) \<Rightarrow>
             (Ok (of_nat frame), (vm\<lparr>phys := vmm_clear_page (of_nat frame) (phys vm)\<rparr>,
                sp\<lparr>phys_frames := lst, phys_frame_count := n\<rparr>))))"

definition vmm_map_zeroed_page_flags :: "u64 \<Rightarrow> u64 \<Rightarrow> unit vm" where
  "vmm_map_zeroed_page_flags virt_addr flags =
     bind vmm_alloc_phys_frame (\<lambda>frame. vmm_map_page virt_addr frame flags)"

section \<open>Address spaces\<close>

definition free_frames :: "u64 list \<Rightarrow> pmm \<Rightarrow> pmm" where
  "free_frames fs p = fold (\<lambda>f p. if f \<noteq> 0 then k64_pmm_free_frame (unat f) p else p) fs p"

definition k64_vmm_release_service_space :: "vmm \<times> k64_vm_space \<Rightarrow> vmm \<times> k64_vm_space" where
  "k64_vmm_release_service_space st = (case st of (vm, sp) \<Rightarrow>
     if \<not> present sp then st
     else
       let p = free_frames (take (phys_frame_count sp) (phys_frames sp)) (vm_pmm vm);
           p = free_frames (take (page_table_frame_count sp) (page_table_frames sp)) p;
           slot = unat ((root_base sp - K64_SERVICE_VM_BASE) div K64_SERVICE_VM_STRIDE);
           used = (if root_base sp \<ge> K64_SERVICE_VM_BASE \<and> slot < K64_SERVICE_VM_MAX_SLOTS
                   then (service_slot_used vm)[slot := False] else service_slot_used vm)
       in (vm\<lparr>vm_pmm := p, service_slot_used := used\<rparr>, vmm_clear_space sp))"

text \<open>The slots in the order they are tried, and the first that is not used.\<close>

definition find_slot :: "bool list \<Rightarrow> nat \<Rightarrow> nat option" where
  "find_slot used start_slot =
     find (\<lambda>slot. \<not> used ! slot)
       (map (\<lambda>k. (start_slot + k) mod K64_SERVICE_VM_MAX_SLOTS) [0..<K64_SERVICE_VM_MAX_SLOTS])"

fun map_stack :: "nat list \<Rightarrow> u64 \<Rightarrow> unit vm" where
  "map_stack [] flags = ret ()"
| "map_stack (i # is) flags = (\<lambda>st.
     bind (vmm_map_zeroed_page_flags (stack_base (snd st) + of_nat i * K64_PAGE_SIZE) flags) (\<lambda>_. map_stack is flags) st)"

definition place_space :: "nat \<Rightarrow> bool \<Rightarrow> k64_vm_space \<Rightarrow> k64_vm_space" where
  "place_space slot user sp =
     (let root = K64_SERVICE_VM_BASE + of_nat slot * K64_SERVICE_VM_STRIDE in
      sp\<lparr>present := True, user_mode := user, root_base := root, root_size := K64_SERVICE_VM_ROOT_SIZE,
        heap_base := root + 0x100000, heap_size := K64_SERVICE_VM_HEAP_SIZE, stack_size := K64_SERVICE_VM_STACK_SIZE,
        stack_base := root + K64_SERVICE_VM_ROOT_SIZE - K64_SERVICE_VM_STACK_SIZE\<rparr>)"

definition vmm_alloc_space :: "u64 \<Rightarrow> u64 \<Rightarrow> bool \<Rightarrow> unit vm" where
  "vmm_alloc_space pid stack_flags user st = (case st of (vm, sp) \<Rightarrow>
     let sp = vmm_clear_space sp in
     if pid = 0 then
       (Ok (), (vm, sp\<lparr>present := True, user_mode := False, cr3 := kernel_cr3 vm, root_base := 0, root_size := 0x40000000\<rparr>))
     else case find_slot (service_slot_used vm) (unat (pid mod of_nat K64_SERVICE_VM_MAX_SLOTS)) of
         None \<Rightarrow> (Fail, (vm, sp))
       | Some slot \<Rightarrow>
           let st = (vm\<lparr>service_slot_used := (service_slot_used vm)[slot := True]\<rparr>, place_space slot user sp) in
           (case bind vmm_clone_kernel_root (\<lambda>_. map_stack [0..<K64_SERVICE_STACK_FRAMES] stack_flags) st of
              (Fail, st) \<Rightarrow> (Fail, k64_vmm_release_service_space st)
            | r \<Rightarrow> r))"

definition blank_space :: k64_vm_space where
  "blank_space = \<lparr>present = False, user_mode = False, cr3 = 0, root_base = 0, root_size = 0, stack_base = 0, stack_size = 0,
     heap_base = 0, heap_size = 0, page_table_frames = replicate 64 0, page_table_frame_count = 0,
     phys_frames = replicate 4096 0, phys_frame_count = 0\<rparr>"

text \<open>\<open>hw_cr3\<close> is the content of the control register.\<close>

definition k64_vmm_init :: "u64 \<Rightarrow> vmm \<Rightarrow> vmm" where
  "k64_vmm_init hw_cr3 vm =
     (let root = hw_cr3 AND K64_PAGE_MASK in
      vm\<lparr>kernel_cr3 := root,
        kernel_mapping_space := (vmm_clear_space (kernel_mapping_space vm))\<lparr>present := True, cr3 := root\<rparr>,
        service_slot_used := replicate K64_SERVICE_VM_MAX_SLOTS False\<rparr>)"

definition k64_vmm_alloc_service_space :: "u64 \<Rightarrow> unit vm" where
  "k64_vmm_alloc_service_space pid = vmm_alloc_space pid K64_PAGE_RW False"

definition k64_vmm_alloc_user_space :: "u64 \<Rightarrow> unit vm" where
  "k64_vmm_alloc_user_space pid = vmm_alloc_space pid (K64_PAGE_RW OR K64_PAGE_USER) True"

text \<open>Device memory is mapped in the kernel's own space.\<close>

fun map_pages :: "(u64 \<times> u64) list \<Rightarrow> u64 \<Rightarrow> unit vm" where
  "map_pages [] flags = ret ()"
| "map_pages ((v, p) # ps) flags = bind (vmm_map_page v p flags) (\<lambda>_. map_pages ps flags)"

definition in_kernel_space :: "'a vm \<Rightarrow> (vmm, 'a) op" where
  "in_kernel_space f vm = (case f (vm, kernel_mapping_space vm) of (r, (vm, sp)) \<Rightarrow> (r, vm\<lparr>kernel_mapping_space := sp\<rparr>))"

definition k64_vmm_map_mmio :: "u64 \<Rightarrow> u64 \<Rightarrow> (vmm, u64) op" where
  "k64_vmm_map_mmio phys_addr size' vm =
     (let start = phys_addr AND K64_PAGE_MASK;
          stop = (phys_addr + size' + K64_PAGE_SIZE - 1) AND K64_PAGE_MASK;
          offset = phys_addr - start;
          pages = (stop - start) div K64_PAGE_SIZE;
          virt = next_mmio_virt vm in
      guard (\<not> (size' = 0 \<or> stop \<le> start))
       (guard (\<not> virt + pages * K64_PAGE_SIZE > K64_MMIO_BASE + K64_MMIO_SIZE)
         (bind (modify (\<lambda>vm. vm\<lparr>next_mmio_virt := next_mmio_virt vm + pages * K64_PAGE_SIZE\<rparr>)) (\<lambda>_.
          bind (in_kernel_space (map_pages (map (\<lambda>i. (virt + of_nat i * K64_PAGE_SIZE, start + of_nat i * K64_PAGE_SIZE))
                 [0..<unat pages]) K64_PAGE_RW)) (\<lambda>_.
          ret (virt + offset))))) vm)"

section \<open>Ranges\<close>

text \<open>The part of a page that is copied from the data: its bounds in the page.\<close>

definition copy_bounds :: "u64 \<Rightarrow> u64 \<Rightarrow> u64 \<Rightarrow> u64 \<times> u64" where
  "copy_bounds virt_addr file_size page =
     (let copy_start = (if page < virt_addr then virt_addr - page else 0) in
      (copy_start,
       if page + K64_PAGE_SIZE > virt_addr + file_size then
         if virt_addr + file_size \<le> page then copy_start else (virt_addr + file_size) - page
       else K64_PAGE_SIZE))"

definition copy_page :: "u64 \<Rightarrow> bytes option \<Rightarrow> u64 \<Rightarrow> u64 \<Rightarrow> u64 \<Rightarrow> unit vm" where
  "copy_page virt_addr data file_size page frame =
     (case (copy_bounds virt_addr file_size page, data) of
        ((copy_start, copy_end), Some d) \<Rightarrow>
          if copy_end > copy_start then
            let src_offset = unat ((page + copy_start) - virt_addr); copy_size = unat (copy_end - copy_start) in
            in_bounds (src_offset + copy_size \<le> length d)
              (modify (on_phys (put_bytes (frame + copy_start) (bytes_at src_offset copy_size d))))
          else ret ()
      | (_, None) \<Rightarrow> ret ())"

fun map_range :: "u64 \<Rightarrow> bytes option \<Rightarrow> u64 \<Rightarrow> u64 \<Rightarrow> u64 list \<Rightarrow> unit vm" where
  "map_range virt_addr data file_size flags [] = ret ()"
| "map_range virt_addr data file_size flags (page # pages) =
     bind vmm_alloc_phys_frame (\<lambda>frame.
     bind (copy_page virt_addr data file_size page frame) (\<lambda>_.
     bind (vmm_map_page page frame flags) (\<lambda>_.
     map_range virt_addr data file_size flags pages)))"

definition pages_between :: "u64 \<Rightarrow> u64 \<Rightarrow> u64 list" where
  "pages_between page_start page_end =
     (if page_start < page_end
      then map (\<lambda>i. page_start + of_nat i * K64_PAGE_SIZE) [0..<unat (page_end - page_start) div unat K64_PAGE_SIZE]
      else [])"

definition vmm_map_range_flags :: "u64 \<Rightarrow> bytes option \<Rightarrow> u64 \<Rightarrow> u64 \<Rightarrow> u64 \<Rightarrow> unit vm" where
  "vmm_map_range_flags virt_addr data file_size mem_size flags st =
     guard (present (snd st) \<and> mem_size \<noteq> 0)
       (map_range virt_addr data file_size flags
         (pages_between (virt_addr AND K64_PAGE_MASK) ((virt_addr + mem_size + K64_PAGE_SIZE - 1) AND K64_PAGE_MASK))) st"

definition k64_vmm_map_private_range :: "u64 \<Rightarrow> bytes option \<Rightarrow> u64 \<Rightarrow> u64 \<Rightarrow> unit vm" where
  "k64_vmm_map_private_range virt_addr data file_size mem_size =
     vmm_map_range_flags virt_addr data file_size mem_size K64_PAGE_RW"

definition k64_vmm_map_user_range :: "u64 \<Rightarrow> bytes option \<Rightarrow> u64 \<Rightarrow> u64 \<Rightarrow> unit vm" where
  "k64_vmm_map_user_range virt_addr data file_size mem_size =
     vmm_map_range_flags virt_addr data file_size mem_size (K64_PAGE_RW OR K64_PAGE_USER)"

definition k64_vmm_map_user_anon :: "u64 \<Rightarrow> u64 \<Rightarrow> unit vm" where
  "k64_vmm_map_user_anon virt_addr mem_size =
     vmm_map_range_flags virt_addr None 0 mem_size (K64_PAGE_RW OR K64_PAGE_USER)"

section \<open>Walking the tables\<close>

definition entry_allows :: "bool \<Rightarrow> u64 \<Rightarrow> bool" where
  "entry_allows require_user e \<longleftrightarrow>
     (let need = K64_PAGE_PRESENT OR (if require_user then K64_PAGE_USER else 0) in e AND need = need)"

definition k64_vmm_is_mapped :: "phys_mem \<Rightarrow> k64_vm_space \<Rightarrow> u64 \<Rightarrow> bool \<Rightarrow> bool" where
  "k64_vmm_is_mapped m sp virt_addr require_user \<longleftrightarrow>
     (if \<not> present sp \<or> cr3 sp = 0 then False else
      let e = entry m (cr3 sp) (table_index 0 virt_addr) in
      if \<not> entry_allows require_user e then False else
      let e = entry m (e AND K64_PAGE_MASK) (table_index 1 virt_addr) in
      if \<not> entry_allows require_user e then False else
      if e AND 0x80 \<noteq> 0 then True else
      let e = entry m (e AND K64_PAGE_MASK) (table_index 2 virt_addr) in
      if \<not> entry_allows require_user e then False else
      if e AND 0x80 \<noteq> 0 then True else
      let e = entry m (e AND K64_PAGE_MASK) (table_index 3 virt_addr) in
      entry_allows require_user e)"

definition vmm_range_overflows :: "u64 \<Rightarrow> u64 \<Rightarrow> bool" where
  "vmm_range_overflows virt_addr size' \<longleftrightarrow> size' \<noteq> 0 \<and> virt_addr + (size' - 1) < virt_addr"

definition vmm_translate :: "phys_mem \<Rightarrow> k64_vm_space \<Rightarrow> u64 \<Rightarrow> bool \<Rightarrow> u64 option" where
  "vmm_translate m sp virt_addr require_user =
     (if \<not> present sp \<or> cr3 sp = 0 then None else
      let e = entry m (cr3 sp) (table_index 0 virt_addr) in
      if \<not> entry_allows require_user e then None else
      let e = entry m (e AND K64_PAGE_MASK) (table_index 1 virt_addr) in
      if \<not> entry_allows require_user e then None else
      if e AND 0x80 \<noteq> 0 then Some ((e AND 0xFFFFFC0000000) + (virt_addr AND 0x3FFFFFFF)) else
      let e = entry m (e AND K64_PAGE_MASK) (table_index 2 virt_addr) in
      if \<not> entry_allows require_user e then None else
      if e AND 0x80 \<noteq> 0 then Some ((e AND 0xFFFFFFE00000) + (virt_addr AND 0x1FFFFF)) else
      let e = entry m (e AND K64_PAGE_MASK) (table_index 3 virt_addr) in
      if \<not> entry_allows require_user e then None else
      Some ((e AND K64_PAGE_MASK) + (virt_addr AND (K64_PAGE_SIZE - 1))))"

section \<open>User memory\<close>

text \<open>The bytes of one round: what is left in the page, at most what is left of the request.\<close>

definition user_chunk :: "u64 \<Rightarrow> nat \<Rightarrow> nat \<Rightarrow> nat" where
  "user_chunk virt_addr size' done' =
     min (unat K64_PAGE_SIZE - unat ((virt_addr + of_nat done') AND (K64_PAGE_SIZE - 1))) (size' - done')"

lemma user_chunk_pos: "done' < n \<Longrightarrow> 0 < user_chunk virt n done'"
proof -
  have "unat ((virt + of_nat done') AND (K64_PAGE_SIZE - 1)) \<le> unat (K64_PAGE_SIZE - 1)"
    by (metis word_and_le1 word_le_nat_alt)
  then show "done' < n \<Longrightarrow> 0 < user_chunk virt n done'" by (simp add: user_chunk_def K64_PAGE_SIZE_def)
qed

text \<open>\<open>out\<close> is what was read so far.\<close>

function read_user_from :: "phys_mem \<Rightarrow> k64_vm_space \<Rightarrow> u64 \<Rightarrow> nat \<Rightarrow> bytes \<Rightarrow> bytes option" where
  "read_user_from m sp virt_addr size' out =
     (if length out < size' then
        case vmm_translate m sp (virt_addr + of_nat (length out)) True of
          None \<Rightarrow> None
        | Some src \<Rightarrow> read_user_from m sp virt_addr size' (out @ get_bytes src (user_chunk virt_addr size' (length out)) m)
      else Some out)"
  by pat_completeness auto
termination
  by (relation "measure (\<lambda>(m, sp, v, n, out). n - length out)") (auto simp: get_bytes_def user_chunk_pos diff_less_mono2)

declare read_user_from.simps [simp del]

definition k64_vmm_read_user :: "phys_mem \<Rightarrow> k64_vm_space \<Rightarrow> u64 \<Rightarrow> u64 \<Rightarrow> bytes option" where
  "k64_vmm_read_user m sp virt_addr size' =
     (if vmm_range_overflows virt_addr size' then None else read_user_from m sp virt_addr (unat size') [])"

function write_user_from :: "k64_vm_space \<Rightarrow> u64 \<Rightarrow> bytes \<Rightarrow> nat \<Rightarrow> (phys_mem, unit) op" where
  "write_user_from sp virt_addr data done' m =
     (if done' < length data then
        case vmm_translate m sp (virt_addr + of_nat done') True of
          None \<Rightarrow> (Fail, m)
        | Some dst \<Rightarrow>
            let chunk = user_chunk virt_addr (length data) done' in
            write_user_from sp virt_addr data (done' + chunk) (put_bytes dst (bytes_at done' chunk data) m)
      else (Ok (), m))"
  by pat_completeness auto
termination
  by (relation "measure (\<lambda>(sp, v, data, done', m). length data - done')") (auto simp: user_chunk_pos diff_less_mono2)

declare write_user_from.simps [simp del]

text \<open>The buffer with its size is a list of bytes, shorter than the address space.\<close>

definition k64_vmm_write_user :: "k64_vm_space \<Rightarrow> u64 \<Rightarrow> bytes \<Rightarrow> (phys_mem, unit) op" where
  "k64_vmm_write_user sp virt_addr data m =
     (if vmm_range_overflows virt_addr (of_nat (length data)) then (Fail, m)
      else write_user_from sp virt_addr data 0 m)"

text \<open>
  Entry into an isolated space: \<open>call\<close> is a call in the current space, \<open>call_asm\<close> the assembly routine that
  switches the page tables and the stack.
\<close>

definition k64_vmm_call_isolated ::
  "(u64 \<Rightarrow> u64 \<Rightarrow> u64 \<Rightarrow> u64 \<Rightarrow> u64) \<Rightarrow> (u64 \<Rightarrow> u64 \<Rightarrow> u64 \<Rightarrow> u64 \<Rightarrow> u64 \<Rightarrow> u64 \<Rightarrow> u64) \<Rightarrow> u64 \<Rightarrow> k64_vm_space \<Rightarrow>
   u64 \<Rightarrow> u64 \<Rightarrow> u64 \<Rightarrow> u64 \<Rightarrow> u64" where
  "k64_vmm_call_isolated call call_asm kernel_root sp entry_point arg0 arg1 arg2 =
     (if entry_point = 0 then 0
      else if \<not> present sp \<or> cr3 sp = 0 \<or> cr3 sp = kernel_root then call entry_point arg0 arg1 arg2
      else call_asm (cr3 sp) ((stack_base sp + stack_size sp) AND NOT 0xF) entry_point arg0 arg1 arg2)"

section \<open>Memory and table entries\<close>

text \<open>A page-aligned address, as those of frames are.\<close>

definition page_aligned :: "u64 \<Rightarrow> bool" where
  "page_aligned t \<longleftrightarrow> unat t mod 4096 = 0"

lemma unat_lt: "unat (a :: u64) < 18446744073709551616"
  by (rule unat_u64_less [simplified])

lemma unat_diff_less:
  assumes "unat (a :: u64) + n \<le> 18446744073709551616"
  shows "unat (x - a) < n \<longleftrightarrow> unat a \<le> unat x \<and> unat x < unat a + n"
proof (cases "a \<le> x")
  case True
  then show ?thesis by (auto simp: unat_sub word_le_nat_alt)
next
  case False
  then have "unat (x - a) = unat x + 18446744073709551616 - unat a" by (simp add: unat_sub_if' word_le_nat_alt)
  then show ?thesis using False assms by (auto simp: word_le_nat_alt)
qed

lemma page_alignedE:
  assumes "page_aligned t"
  obtains q where "unat t = 4096 * q" "q < 4503599627370496"
proof -
  from assms obtain q where "unat t = 4096 * q" unfolding page_aligned_def by (metis mod_0_imp_dvd dvdE)
  then show ?thesis using unat_lt [of t] that [of q] by simp
qed

lemma page_room: "page_aligned t \<Longrightarrow> unat t + 4096 \<le> 18446744073709551616"
  by (erule page_alignedE) simp

lemma unat_in_page: "page_aligned t \<Longrightarrow> k < 4096 \<Longrightarrow> unat (t + of_nat k) = unat t + k"
  using page_room [of t] by (subst unat_add_no_wrap) (simp_all add: unat_of_nat_small)

lemma unat_entry_byte:
  assumes "page_aligned t" and "i < 512" and "k < 8"
  shows "unat (t + of_nat (8 * i) + of_nat k) = unat t + 8 * i + k"
proof -
  have "t + of_nat (8 * i) + of_nat k = t + of_nat (8 * i + k)" by (simp only: of_nat_add add.assoc)
  moreover have "unat (t + of_nat (8 * i + k)) = unat t + (8 * i + k)" by (rule unat_in_page [OF assms(1)]) (use assms(2,3) in simp)
  ultimately show ?thesis by (simp only: add.assoc)
qed

lemma unat_entry_addr: "page_aligned t \<Longrightarrow> i < 512 \<Longrightarrow> unat (t + of_nat (8 * i)) = unat t + 8 * i"
  using unat_entry_byte [of t i 0] by simp

lemma put_bytes_apply:
  "unat a + length bs \<le> 18446744073709551616 \<Longrightarrow>
   put_bytes a bs m x = (if unat a \<le> unat x \<and> unat x < unat a + length bs then bs ! (unat x - unat a) else m x)"
  by (simp add: put_bytes_def unat_diff_less unat_sub word_le_nat_alt)

lemma get_put_same:
  assumes "unat a + length bs \<le> 18446744073709551616" and "n = length bs"
  shows "get_bytes a n (put_bytes a bs m) = bs"
proof (rule nth_equalityI)
  fix i assume "i < length (get_bytes a n (put_bytes a bs m))"
  then have i: "i < length bs" using assms(2) by (simp add: get_bytes_def)
  then have "unat (a + of_nat i) = unat a + i" using assms(1)
    by (subst unat_add_no_wrap) (simp_all add: unat_of_nat_small)
  then show "get_bytes a n (put_bytes a bs m) ! i = bs ! i" using i assms by (simp add: get_bytes_def put_bytes_apply)
qed (simp add: get_bytes_def assms(2))

lemma get_put_other:
  assumes "unat a + length bs \<le> 18446744073709551616" and "unat c + n \<le> 18446744073709551616"
    and "unat c + n \<le> unat a \<or> unat a + length bs \<le> unat c"
  shows "get_bytes c n (put_bytes a bs m) = get_bytes c n m"
  unfolding get_bytes_def
proof (rule map_cong [OF refl])
  fix i assume "i \<in> set [0..<n]"
  then have i: "i < n" by simp
  then have "unat (c + of_nat i) = unat c + i" using assms(2)
    by (subst unat_add_no_wrap) (simp_all add: unat_of_nat_small)
  then show "put_bytes a bs m (c + of_nat i) = m (c + of_nat i)" using i assms by (auto simp: put_bytes_apply)
qed

lemma aligned_apart:
  assumes "page_aligned t" and "page_aligned t'" and "t \<noteq> t'"
  shows "unat t + 4096 \<le> unat t' \<or> unat t' + 4096 \<le> unat t"
proof -
  obtain q where q: "unat t = 4096 * q" using assms(1) by (rule page_alignedE)
  obtain q' where q': "unat t' = 4096 * q'" using assms(2) by (rule page_alignedE)
  have "q \<noteq> q'" using assms(3) q q' by (auto simp: word_unat_eq_iff)
  then show ?thesis unfolding q q' by (cases q q' rule: linorder_cases) simp_all
qed

lemma entry_set_same [simp]: "page_aligned t \<Longrightarrow> i < 512 \<Longrightarrow> entry (set_entry t i e m) t i = e"
  using page_room [of t] unfolding entry_def set_entry_def
  by (subst get_put_same) (simp_all add: unat_entry_addr le_dec_le_enc del: of_nat_mult)

lemma entry_set_other:
  assumes t: "page_aligned t" "page_aligned t'" and i: "i < 512" "j < 512" and ne: "t \<noteq> t' \<or> i \<noteq> j"
  shows "entry (set_entry t i e m) t' j = entry m t' j"
proof -
  have "unat t' + 8 * j + 8 \<le> unat t + 8 * i \<or> unat t + 8 * i + 8 \<le> unat t' + 8 * j"
    using ne
  proof
    assume "t \<noteq> t'"
    then show ?thesis using aligned_apart [OF t] i by auto
  next
    assume "i \<noteq> j"
    then show ?thesis using aligned_apart [OF t] i by (cases "t = t'") auto
  qed
  then show ?thesis unfolding entry_def set_entry_def
    using page_room [OF t(1)] page_room [OF t(2)] i
    by (subst get_put_other) (use i in \<open>simp_all add: unat_entry_addr t del: of_nat_mult\<close>)
qed

lemma entry_put_other:
  assumes "page_aligned t" "page_aligned f" "t \<noteq> f" "i < 512" and "unat a + length bs \<le> unat f + 4096" "unat f \<le> unat a"
  shows "entry (put_bytes a bs m) t i = entry m t i"
proof -
  have "unat t + 8 * i + 8 \<le> unat a \<or> unat a + length bs \<le> unat t + 8 * i" using aligned_apart [OF assms(1-3)] assms(4-6) by auto
  then show ?thesis unfolding entry_def
    by (subst get_put_other) (use assms page_room [of t] page_room [of f] in \<open>simp_all add: unat_entry_addr del: of_nat_mult\<close>)
qed

lemma entry_clear_other: "page_aligned t \<Longrightarrow> page_aligned f \<Longrightarrow> t \<noteq> f \<Longrightarrow> i < 512 \<Longrightarrow> entry (vmm_clear_page f m) t i = entry m t i"
  unfolding vmm_clear_page_def by (rule entry_put_other [of _ f]) (simp_all add: K64_PAGE_SIZE_def)

lemma entry_clear_same [simp]:
  assumes "page_aligned t" and "i < 512"
  shows "entry (vmm_clear_page t m) t i = 0"
proof -
  have "get_bytes (t + of_nat (8 * i)) 8 (vmm_clear_page t m) = replicate 8 0"
  proof (rule nth_equalityI)
    fix k assume "k < length (get_bytes (t + of_nat (8 * i)) 8 (vmm_clear_page t m))"
    then have k: "k < 8" by (simp add: get_bytes_def)
    have "(t + of_nat (8 * i) + of_nat k) - t = of_nat (8 * i + k)" by (simp only: of_nat_add) simp
    then show "get_bytes (t + of_nat (8 * i)) 8 (vmm_clear_page t m) ! k = replicate 8 0 ! k"
      using k assms(2) by (simp add: get_bytes_def vmm_clear_page_def put_bytes_def K64_PAGE_SIZE_def unat_of_nat_small del: of_nat_mult of_nat_add)
  qed (simp add: get_bytes_def)
  then have "entry (vmm_clear_page t m) t i = le_dec (replicate 8 0)" unfolding entry_def by (rule arg_cong)
  then show ?thesis by (simp only: le_dec_replicate_0)
qed

lemma entry_fill:
  assumes "page_aligned t" "page_aligned t'" and "j < 512"
  shows "entry (fill_table t f m) t' j = (if t' = t then f j else entry m t' j)"
proof -
  have "entry (fold (\<lambda>i. set_entry t i (f i)) [0..<n] m) t' j = (if t' = t \<and> j < n then f j else entry m t' j)" if "n \<le> 512" for n
    using that
  proof (induction n)
    case (Suc n)
    show ?case
    proof (cases "t' = t \<and> j = n")
      case True
      then show ?thesis using assms Suc.prems by simp
    next
      case False
      then show ?thesis using assms Suc by (auto simp: entry_set_other less_Suc_eq)
    qed
  qed simp
  from this [of 512] show ?thesis unfolding fill_table_def using assms(3) by simp
qed

end
