(* ===== verification/Vmm_Tables.thy ===== *)
theory Vmm_Tables
  imports Vmm
begin

text \<open>
  The page tables of a space as a tree, and what the operations of \<open>Vmm\<close> do to the translation of addresses.

  \<open>walk\<close> is the translation from a table at a given depth, \<open>tab\<close> the table an address passes at a depth.
  In a well-formed tree (\<open>tree_ok\<close>) no table is passed at two places. Then a new table, empty or a split large page,
  changes no translation, and writing an entry of a table of pages changes the translation of one page.
\<close>

section \<open>Entries\<close>

abbreviation is_large :: "u64 \<Rightarrow> bool" where "is_large e \<equiv> e AND 0x80 \<noteq> 0"
abbreviation is_present :: "u64 \<Rightarrow> bool" where "is_present e \<equiv> e AND 1 \<noteq> 0"

lemma present_bit: "is_present e \<longleftrightarrow> bit (e :: u64) 0"
  using and_one_bit_neq_0 [of e 0] by simp

lemma large_bit: "is_large e \<longleftrightarrow> bit (e :: u64) 7"
  using and_one_bit_neq_0 [of e 7] by simp

lemma bit_five: "bit (5 :: u64) i \<longleftrightarrow> i = 0 \<or> i = 2"
proof -
  have "(5 :: u64) = 1 OR push_bit 2 1" by simp
  then show ?thesis by (simp only: bit_or_iff bit_push_bit_iff) (auto simp: bit_1_iff)
qed

lemma and_five: "e AND 5 = 5 \<longleftrightarrow> bit (e :: u64) 0 \<and> bit e 2"
proof
  assume e: "e AND 5 = 5"
  have "bit (e AND 5) i" if "i = 0 \<or> i = 2" for i unfolding e bit_five by (rule that)
  then show "bit e 0 \<and> bit e 2" by (simp add: bit_and_iff)
next
  assume e: "bit e 0 \<and> bit e 2"
  show "e AND 5 = 5" by (rule bit_eqI) (use e in \<open>auto simp only: bit_and_iff bit_five\<close>)
qed

lemma allows_bits: "entry_allows req e \<longleftrightarrow> bit e 0 \<and> (req \<longrightarrow> bit e 2)"
proof -
  have "entry_allows req e \<longleftrightarrow> (if req then e AND 5 = 5 else e AND 1 = 1)"
    by (simp add: entry_allows_def Let_def K64_PAGE_PRESENT_def K64_PAGE_USER_def)
  moreover have "e AND 1 = 1 \<longleftrightarrow> bit e 0" by (simp add: and_one_eq bit_0 mod2_eq_if)
  ultimately show ?thesis by (auto simp: and_five)
qed

lemma not_allows_0 [simp]: "\<not> entry_allows req 0"
  by (simp add: allows_bits)

section \<open>Translation as a walk\<close>

definition large_target :: "nat \<Rightarrow> u64 \<Rightarrow> u64 \<Rightarrow> u64" where
  "large_target d e v =
     (if d = 1 then (e AND 0xFFFFFC0000000) + (v AND 0x3FFFFFFF) else (e AND 0xFFFFFFE00000) + (v AND 0x1FFFFF))"

function walk :: "phys_mem \<Rightarrow> bool \<Rightarrow> u64 \<Rightarrow> nat \<Rightarrow> u64 \<Rightarrow> u64 option" where
  "walk m req v d t =
     (let e = entry m t (table_index d v) in
      if \<not> entry_allows req e then None
      else if d \<ge> 3 then Some ((e AND K64_PAGE_MASK) + (v AND 0xFFF))
      else if d \<ge> 1 \<and> is_large e then Some (large_target d e v)
      else walk m req v (Suc d) (e AND K64_PAGE_MASK))"
  by pat_completeness auto
termination by (relation "measure (\<lambda>(m, req, v, d, t). 3 - d)") auto

declare walk.simps [simp del]

lemma vmm_translate_walk:
  "vmm_translate m sp v req = (if \<not> present sp \<or> cr3 sp = 0 then None else walk m req v 0 (cr3 sp))"
proof -
  have "walk m req v 0 t =
    (let e = entry m t (table_index 0 v) in
      if \<not> entry_allows req e then None else
      let e = entry m (e AND K64_PAGE_MASK) (table_index 1 v) in
      if \<not> entry_allows req e then None else
      if is_large e then Some (large_target 1 e v) else
      let e = entry m (e AND K64_PAGE_MASK) (table_index 2 v) in
      if \<not> entry_allows req e then None else
      if is_large e then Some (large_target 2 e v) else
      let e = entry m (e AND K64_PAGE_MASK) (table_index 3 v) in
      if \<not> entry_allows req e then None else Some ((e AND K64_PAGE_MASK) + (v AND 0xFFF)))" for t
    by (subst walk.simps, subst walk.simps, subst walk.simps, subst walk.simps)
      (simp add: Let_def numeral_2_eq_2 numeral_3_eq_3)
  then show ?thesis by (simp add: vmm_translate_def large_target_def K64_PAGE_SIZE_def Let_def)
qed

fun tab :: "phys_mem \<Rightarrow> u64 \<Rightarrow> u64 \<Rightarrow> nat \<Rightarrow> u64 option" where
  "tab m root v 0 = Some root"
| "tab m root v (Suc d) = (case tab m root v d of
       None \<Rightarrow> None
     | Some t \<Rightarrow>
         let e = entry m t (table_index d v) in
         if is_present e \<and> (d = 0 \<or> \<not> is_large e) then Some (e AND K64_PAGE_MASK) else None)"

definition path :: "nat \<Rightarrow> u64 \<Rightarrow> nat list" where
  "path d v = map (\<lambda>j. table_index j v) [0..<d]"

definition tree_ok :: "phys_mem \<Rightarrow> u64 \<Rightarrow> u64 set \<Rightarrow> bool" where
  "tree_ok m root U \<longleftrightarrow>
     (\<forall>v d t. d \<le> 3 \<and> tab m root v d = Some t \<longrightarrow> page_aligned t \<and> t \<in> U) \<and>
     (\<forall>v v' d d' t. d \<le> 3 \<and> d' \<le> 3 \<and> tab m root v d = Some t \<and> tab m root v' d' = Some t \<longrightarrow> d = d' \<and> path d v = path d v') \<and>
     (\<forall>v t. tab m root v 1 = Some t \<and> is_large (entry m t (table_index 1 v)) \<longrightarrow>
        entry m t (table_index 1 v) AND 0xF000000000000 = 0)"

lemma tree_okD:
  assumes "tree_ok m root U"
  shows "d \<le> 3 \<Longrightarrow> tab m root v d = Some t \<Longrightarrow> page_aligned t \<and> t \<in> U"
    and "d \<le> 3 \<Longrightarrow> d' \<le> 3 \<Longrightarrow> tab m root v d = Some t \<Longrightarrow> tab m root v' d' = Some t \<Longrightarrow> d = d' \<and> path d v = path d v'"
    and "tab m root v 1 = Some t \<Longrightarrow> is_large (entry m t (table_index 1 v)) \<Longrightarrow>
      entry m t (table_index 1 v) AND 0xF000000000000 = 0"
  using assms unfolding tree_ok_def by blast+

lemma table_index_less: "table_index d v < 512"
proof -
  have "unat (drop_bit (39 - 9 * d) v AND 0x1FF) \<le> unat (0x1FF :: u64)" by (metis word_and_le1 word_le_nat_alt)
  then show ?thesis by (simp add: table_index_def)
qed

lemma path_Suc: "path (Suc d) v = path d v @ [table_index d v]"
  by (simp add: path_def)

lemma path_Suc_eq: "path (Suc d) v = path (Suc d) v' \<longleftrightarrow> path d v = path d v' \<and> table_index d v = table_index d v'"
  by (simp add: path_Suc)

lemma path_mono: "path k v = path k v' \<Longrightarrow> d \<le> k \<Longrightarrow> path d v = path d v'"
  by (auto simp: path_def)

lemma tab_path: "path d v = path d v' \<Longrightarrow> tab m root v d = tab m root v' d"
  by (induction d) (auto simp: path_Suc_eq Let_def split: option.splits)

section \<open>A new table\<close>

text \<open>
  \<open>m'\<close> is \<open>m\<close> with a new table \<open>F\<close> hung into the entry of \<open>v\<close> in its table \<open>T\<close> at depth \<open>d\<close>; below \<open>F\<close> there
  is no further table and addresses translate as before.
\<close>

definition grown :: "phys_mem \<Rightarrow> phys_mem \<Rightarrow> u64 \<Rightarrow> nat \<Rightarrow> u64 \<Rightarrow> u64 \<Rightarrow> bool" where
  "grown m m' v d T F \<longleftrightarrow>
     (\<forall>t j. page_aligned t \<and> t \<noteq> F \<and> j < 512 \<and> (t, j) \<noteq> (T, table_index d v) \<longrightarrow> entry m' t j = entry m t j) \<and>
     is_present (entry m' T (table_index d v)) \<and> \<not> is_large (entry m' T (table_index d v)) \<and>
     entry m' T (table_index d v) AND K64_PAGE_MASK = F \<and>
     (\<forall>j<512. d < 2 \<longrightarrow> is_present (entry m' F j) \<longrightarrow> d = 1 \<and> is_large (entry m' F j)) \<and>
     (\<forall>v' req. path (Suc d) v' = path (Suc d) v \<longrightarrow>
        (if entry_allows req (entry m' T (table_index d v)) then walk m' req v' (Suc d) F else None) = walk m req v' d T)"

lemma grown_tab:
  assumes ok: "tree_ok m root U" and T: "tab m root v d = Some T" "d \<le> 2" and F: "F \<notin> U"
    and leaf: "\<not> (is_present (entry m T (table_index d v)) \<and> (d = 0 \<or> \<not> is_large (entry m T (table_index d v))))"
    and g: "grown m m' v d T F" and k: "k \<le> 3"
  shows "tab m' root v' k =
    (if k \<le> d \<or> path (Suc d) v' \<noteq> path (Suc d) v then tab m root v' k else if k = Suc d then Some F else None)"
  using k
proof (induction k)
  case (Suc k)
  have IH: "tab m' root v' k =
      (if k \<le> d \<or> path (Suc d) v' \<noteq> path (Suc d) v then tab m root v' k else if k = Suc d then Some F else None)"
    using Suc by simp
  let ?same = "path (Suc d) v' = path (Suc d) v"
  have same_entry: "entry m' t (table_index k v') = entry m t (table_index k v')"
    if t: "tab m root v' k = Some t" and ne: "k \<noteq> d \<or> \<not> ?same" for t
  proof -
    have "page_aligned t" "t \<noteq> F" using tree_okD(1) [OF ok _ t] Suc.prems F by auto
    moreover have "(t, table_index k v') \<noteq> (T, table_index d v)"
    proof
      assume "(t, table_index k v') = (T, table_index d v)"
      then have "k = d \<and> path d v' = path d v \<and> table_index d v' = table_index d v"
        using tree_okD(2) [OF ok _ _ t, of d v] T Suc.prems by auto
      then show False using ne by (simp add: path_Suc_eq)
    qed
    ultimately show ?thesis using g table_index_less unfolding grown_def by blast
  qed
  have Fk: "\<not> is_present (entry m' F j) \<or> k = 2 \<and> is_large (entry m' F j)" if "k = Suc d" "j < 512" for j
    using g that Suc.prems unfolding grown_def by auto
  consider (same) "k \<noteq> d \<or> \<not> ?same" "k \<le> d \<or> \<not> ?same" | (here) "k = d" ?same | (below) "k > d" ?same by linarith
  then show ?case
  proof cases
    case same
    have "tab m' root v' k = tab m root v' k" using same IH by auto
    then have "tab m' root v' (Suc k) = tab m root v' (Suc k)"
      using same_entry [OF _ same(1)] by (auto simp: Let_def split: option.splits)
    then show ?thesis using same by auto
  next
    case here
    have "tab m' root v' k = Some T" using here IH T tab_path [of d v' v] by (simp add: path_Suc_eq)
    moreover have "table_index k v' = table_index d v" using here by (simp add: path_Suc_eq)
    ultimately show ?thesis using here g by (simp add: grown_def Let_def)
  next
    case below
    show ?thesis
    proof (cases "k = Suc d")
      case True
      then show ?thesis using IH below Fk [OF True table_index_less] by (auto simp: Let_def)
    next
      case False
      then show ?thesis using IH below by simp
    qed
  qed
qed simp

lemma grown_tree:
  assumes ok: "tree_ok m root U" and T: "tab m root v d = Some T" "d \<le> 2" and F: "F \<notin> U" "page_aligned F"
    and leaf: "\<not> (is_present (entry m T (table_index d v)) \<and> (d = 0 \<or> \<not> is_large (entry m T (table_index d v))))"
    and g: "grown m m' v d T F" and zero: "d = 0 \<Longrightarrow> \<forall>j<512. entry m' F j = 0"
  shows "tree_ok m' root (insert F U)" and "tab m' root v (Suc d) = Some F"
proof -
  note gt = grown_tab [OF ok T F(1) leaf g]
  show Fv: "tab m' root v (Suc d) = Some F" using gt [of "Suc d" v] T(2) by simp
  have old: "tab m root v' k = Some t \<and> t \<noteq> F \<or> t = F \<and> k = Suc d \<and> path (Suc d) v' = path (Suc d) v"
    if "k \<le> 3" "tab m' root v' k = Some t" for v' k t
    using gt [OF that(1), of v'] that tree_okD(1) [OF ok that(1), of v' t] F(1) by (auto split: if_splits)
  show "tree_ok m' root (insert F U)"
    unfolding tree_ok_def
  proof (intro conjI allI impI)
    fix v' k t assume a: "k \<le> 3 \<and> tab m' root v' k = Some t"
    then have "tab m root v' k = Some t \<or> t = F" using old [of k v' t] by blast
    then show "page_aligned t" "t \<in> insert F U" using a tree_okD(1) [OF ok, of k v' t] F(2) by auto
  next
    fix v1 v2 k k' t
    assume a: "k \<le> 3 \<and> k' \<le> 3 \<and> tab m' root v1 k = Some t \<and> tab m' root v2 k' = Some t"
    then have o1: "tab m root v1 k = Some t \<and> t \<noteq> F \<or> t = F \<and> k = Suc d \<and> path (Suc d) v1 = path (Suc d) v"
      and o2: "tab m root v2 k' = Some t \<and> t \<noteq> F \<or> t = F \<and> k' = Suc d \<and> path (Suc d) v2 = path (Suc d) v"
      using old by blast+
    have "k = k' \<and> path k v1 = path k v2"
    proof (cases "t = F")
      case True
      then show ?thesis using o1 o2 by simp
    next
      case False
      then show ?thesis using o1 o2 a tree_okD(2) [OF ok, of k k' v1 t v2] by blast
    qed
    then show "k = k'" "path k v1 = path k v2" by blast+
  next
    fix v' t assume a: "tab m' root v' 1 = Some t \<and> is_large (entry m' t (table_index 1 v'))"
    show "entry m' t (table_index 1 v') AND 0xF000000000000 = 0"
    proof (cases "t = F")
      case True
      then have "d = 0" using old [of 1 v' t] a by auto
      then show ?thesis using zero True table_index_less by simp
    next
      case False
      then have t: "tab m root v' 1 = Some t" using old [of 1 v' t] a by auto
      then have "page_aligned t" using tree_okD(1) [OF ok, of 1 v' t] by simp
      moreover have "(t, table_index 1 v') \<noteq> (T, table_index d v)" using a g by (auto simp: grown_def)
      ultimately have "entry m' t (table_index 1 v') = entry m t (table_index 1 v')"
        using g False table_index_less unfolding grown_def by blast
      then show ?thesis using tree_okD(3) [OF ok t] a by simp
    qed
  qed
qed

text \<open>No translation changes.\<close>

lemma grown_walk_from:
  assumes ok: "tree_ok m root U" and T: "tab m root v d = Some T" "d \<le> 2" and F: "F \<notin> U"
    and g: "grown m m' v d T F" and t: "tab m root v' k = Some t" "k \<le> 3"
  shows "walk m' req v' k t = walk m req v' k t"
  using t
proof (induction "3 - k" arbitrary: k t)
  case 0
  then have k: "k = 3" by simp
  have "page_aligned t" "t \<noteq> F" using tree_okD(1) [OF ok _ "0.prems"(1)] k F by auto
  moreover have "t \<noteq> T" using tree_okD(2) [OF ok _ _ "0.prems"(1), of d v] T k by auto
  ultimately have "entry m' t (table_index k v') = entry m t (table_index k v')"
    using g table_index_less unfolding grown_def by blast
  then show ?case using k by (subst (1 2) walk.simps) (simp add: Let_def)
next
  case (Suc n)
  have k: "k < 3" using Suc.hyps(2) by simp
  have al: "page_aligned t" "t \<noteq> F" using tree_okD(1) [OF ok _ Suc.prems(1)] k F by auto
  show ?case
  proof (cases "(t, table_index k v') = (T, table_index d v)")
    case True
    then have kd: "k = d" "path d v' = path d v" using tree_okD(2) [OF ok _ _ Suc.prems(1), of d v] T k by auto
    then have "path (Suc d) v' = path (Suc d) v" using True by (simp add: path_Suc_eq)
    then have "(if entry_allows req (entry m' T (table_index d v)) then walk m' req v' (Suc d) F else None) = walk m req v' d T"
      using g unfolding grown_def by blast
    moreover have "walk m' req v' d T =
        (if entry_allows req (entry m' T (table_index d v)) then walk m' req v' (Suc d) F else None)"
      using g True kd T(2) by (subst walk.simps) (simp add: grown_def Let_def)
    ultimately show ?thesis using True kd by simp
  next
    case False
    then have e: "entry m' t (table_index k v') = entry m t (table_index k v')"
      using g al table_index_less unfolding grown_def by blast
    let ?e = "entry m t (table_index k v')"
    show ?thesis
    proof (cases "entry_allows req ?e \<and> \<not> (k \<ge> 1 \<and> is_large ?e)")
      case True
      then have "is_present ?e" by (simp only: allows_bits present_bit)
      then have "tab m root v' (Suc k) = Some (?e AND K64_PAGE_MASK)" using Suc.prems(1) True by (auto simp: Let_def)
      then have "walk m' req v' (Suc k) (?e AND K64_PAGE_MASK) = walk m req v' (Suc k) (?e AND K64_PAGE_MASK)"
        using Suc.hyps k by (intro Suc.hyps(1)) simp_all
      then show ?thesis using e k by (subst (1 2) walk.simps) (simp add: Let_def)
    next
      case no: False
      then show ?thesis using e k by (subst (1 2) walk.simps) (auto simp: Let_def)
    qed
  qed
qed

lemma grown_walk:
  "tree_ok m root U \<Longrightarrow> tab m root v d = Some T \<Longrightarrow> d \<le> 2 \<Longrightarrow> F \<notin> U \<Longrightarrow> grown m m' v d T F \<Longrightarrow>
   walk m' req v' 0 root = walk m req v' 0 root"
  by (rule grown_walk_from) simp_all

section \<open>Masks\<close>

lemma bit_small_masks:
  "bit (3 :: u64) k \<longleftrightarrow> k < 2" "bit (4 :: u64) k \<longleftrightarrow> k = 2" "bit (0xFFF :: u64) k \<longleftrightarrow> k < 12" "bit (0x80 :: u64) k \<longleftrightarrow> k = 7"
proof -
  have m: "(3 :: u64) = mask 2" "(4 :: u64) = push_bit 2 1" "(0xFFF :: u64) = mask 12" "(0x80 :: u64) = push_bit 7 1"
    by (simp_all add: mask_eq_exp_minus_1)
  show "bit (3 :: u64) k \<longleftrightarrow> k < 2" unfolding m(1) bit_mask_iff by auto
  show "bit (4 :: u64) k \<longleftrightarrow> k = 2" unfolding m(2) bit_push_bit_iff by (auto simp: bit_1_iff)
  show "bit (0xFFF :: u64) k \<longleftrightarrow> k < 12" unfolding m(3) bit_mask_iff by auto
  show "bit (0x80 :: u64) k \<longleftrightarrow> k = 7" unfolding m(4) bit_push_bit_iff by (auto simp: bit_1_iff)
qed

lemma bit_large_masks:
  "bit (0xFFFFFC0000000 :: u64) k \<longleftrightarrow> 30 \<le> k \<and> k < 52" "bit (0xFFFFFFE00000 :: u64) k \<longleftrightarrow> 21 \<le> k \<and> k < 48"
  "bit (0x3FFFFFFF :: u64) k \<longleftrightarrow> k < 30" "bit (0x1FFFFF :: u64) k \<longleftrightarrow> k < 21" "bit (0x1FF :: u64) k \<longleftrightarrow> k < 9"
  "bit (0xF000000000000 :: u64) k \<longleftrightarrow> 48 \<le> k \<and> k < 52"
proof -
  have m: "(0xFFFFFC0000000 :: u64) = push_bit 30 (mask 22)" "(0xFFFFFFE00000 :: u64) = push_bit 21 (mask 27)"
    "(0x3FFFFFFF :: u64) = mask 30" "(0x1FFFFF :: u64) = mask 21" "(0x1FF :: u64) = mask 9" "(0xF000000000000 :: u64) = push_bit 48 (mask 4)"
    by (simp_all add: mask_eq_exp_minus_1 push_bit_eq_mult)
  show "bit (0xFFFFFC0000000 :: u64) k \<longleftrightarrow> 30 \<le> k \<and> k < 52" unfolding m(1) bit_push_bit_iff bit_mask_iff by auto
  show "bit (0xFFFFFFE00000 :: u64) k \<longleftrightarrow> 21 \<le> k \<and> k < 48" unfolding m(2) bit_push_bit_iff bit_mask_iff by auto
  show "bit (0x3FFFFFFF :: u64) k \<longleftrightarrow> k < 30" unfolding m(3) bit_mask_iff by auto
  show "bit (0x1FFFFF :: u64) k \<longleftrightarrow> k < 21" unfolding m(4) bit_mask_iff by auto
  show "bit (0x1FF :: u64) k \<longleftrightarrow> k < 9" unfolding m(5) bit_mask_iff by auto
  show "bit (0xF000000000000 :: u64) k \<longleftrightarrow> 48 \<le> k \<and> k < 52" unfolding m(6) bit_push_bit_iff bit_mask_iff by auto
qed

lemma bit_page_mask: "bit K64_PAGE_MASK k \<longleftrightarrow> 12 \<le> k \<and> k < 64"
proof -
  have eq: "K64_PAGE_MASK = NOT 0xFFF" by (simp add: K64_PAGE_MASK_def K64_PAGE_SIZE_def)
  show ?thesis unfolding eq bit_not_iff bit_small_masks by auto
qed

lemma bit_not_large: "bit (- 129 :: u64) k \<longleftrightarrow> k \<noteq> 7 \<and> k < 64"
proof -
  have eq: "(- 129 :: u64) = NOT 0x80" by simp
  show ?thesis unfolding eq bit_not_iff bit_small_masks by auto
qed

lemmas word_bit_numerals = bit_numeral_word_iff bit_numeral_iff bit_neg_numeral_word_iff

lemmas mask_bits = bit_small_masks bit_large_masks bit_page_mask bit_not_large

lemma aligned_bits: "page_aligned t \<Longrightarrow> k < 12 \<Longrightarrow> \<not> bit t k"
proof -
  assume "page_aligned t" "k < 12"
  then have "unat (t mod 4096) = 0" by (simp add: page_aligned_def unat_mod)
  then have "take_bit 12 t = 0" by (simp add: take_bit_eq_mod unat_eq_zero)
  then have "\<not> bit (take_bit 12 t) k" by simp
  then show "\<not> bit t k" using \<open>k < 12\<close> by (simp add: bit_take_bit_iff)
qed

lemma masked_aligned [simp]: "page_aligned (e AND K64_PAGE_MASK)"
proof -
  have "take_bit 12 (e AND K64_PAGE_MASK) = 0"
    by (rule bit_eqI) (simp add: bit_take_bit_iff bit_and_iff bit_page_mask)
  then have "unat ((e AND K64_PAGE_MASK) mod 4096) = 0" by (simp add: take_bit_eq_mod)
  then show ?thesis by (simp add: page_aligned_def unat_mod)
qed

text \<open>The entry that points to a table.\<close>

lemma link_entry:
  assumes "page_aligned F" and "e = F OR K64_PAGE_TABLE_FLAGS OR (x AND K64_PAGE_USER)"
  shows "bit e 0" "\<not> bit e 7" "e AND K64_PAGE_MASK = F" "bit e 2 = bit x 2"
proof -
  have b: "bit e k = (if k < 12 then k < 2 \<or> k = 2 \<and> bit x 2 else bit F k)" for k
    using assms(1) aligned_bits [of F k] unfolding assms(2)
    by (auto simp: K64_PAGE_TABLE_FLAGS_def K64_PAGE_PRESENT_def K64_PAGE_RW_def K64_PAGE_USER_def bit_or_iff bit_and_iff mask_bits
        simp del: word_bit_numerals)
  show "bit e 0" "\<not> bit e 7" "bit e 2 = bit x 2" by (simp_all add: b)
  show "e AND K64_PAGE_MASK = F"
    by (rule bit_word_eqI) (use aligned_bits [OF assms(1)] in \<open>auto simp: bit_and_iff b bit_page_mask\<close>)
qed

section \<open>The two ways a table grows\<close>

lemma grown_empty:
  assumes al: "page_aligned T" "page_aligned F" "F \<noteq> T" and old: "\<not> is_present (entry m T (table_index d v))"
    and m': "m' = set_entry T (table_index d v) (F OR K64_PAGE_TABLE_FLAGS OR (x AND K64_PAGE_USER)) (vmm_clear_page F m)"
  shows "grown m m' v d T F" and "j < 512 \<Longrightarrow> entry m' F j = 0"
proof -
  let ?i = "table_index d v"
  note link = link_entry [OF al(2) refl, of x]
  have i: "?i < 512" by (rule table_index_less)
  have eT: "entry m' T ?i = F OR K64_PAGE_TABLE_FLAGS OR (x AND K64_PAGE_USER)" unfolding m' using al i by simp
  have eF: "entry m' F j = 0" if "j < 512" for j unfolding m' using al i that by (simp add: entry_set_other)
  then show "j < 512 \<Longrightarrow> entry m' F j = 0" .
  have other: "entry m' t j = entry m t j" if "page_aligned t" "t \<noteq> F" "j < 512" "(t, j) \<noteq> (T, ?i)" for t j
    unfolding m' using al i that by (auto simp: entry_set_other entry_clear_other)
  have w: "walk m' req v' (Suc d) F = None" for req v'
    by (subst walk.simps) (simp add: eF table_index_less)
  have w0: "walk m req v' d T = None" if "path (Suc d) v' = path (Suc d) v" for req v'
    using old that by (subst walk.simps) (simp add: path_Suc_eq allows_bits present_bit)
  show "grown m m' v d T F"
    unfolding grown_def eT using link other w w0 by (auto simp: present_bit large_bit eF)
qed

text \<open>Splitting a large page: its pieces, by bits.\<close>

lemma index_bits: "bit (of_nat (table_index d v) :: u64) k \<longleftrightarrow> k < 9 \<and> bit v (39 - 9 * d + k)"
  by (auto simp: table_index_def bit_and_iff bit_drop_bit_eq mask_bits simp del: word_bit_numerals)

lemma mult_push: "(a :: u64) * 0x200000 = push_bit 21 a" "a * K64_PAGE_SIZE = push_bit 12 a"
  by (simp_all add: push_bit_eq_mult K64_PAGE_SIZE_def)

lemma split_bits:
  assumes "d = 1 \<or> d = 2" and e: "is_large e"
  shows "bit (split_entry e (3 - d) (table_index (Suc d) v)) k \<longleftrightarrow>
    (if k < 12 then bit e k \<and> (d = 1 \<or> k \<noteq> 7)
     else if d = 1 then (if k < 30 then 21 \<le> k \<and> bit v k else k < 52 \<and> bit e k)
     else (if k < 21 then bit v k else k < 48 \<and> bit e k))"
  using assms(1)
proof
  assume d: "d = 1"
  let ?i = "of_nat (table_index 2 v) :: u64"
  have i: "bit ?i k \<longleftrightarrow> k < 9 \<and> bit v (21 + k)" for k using index_bits [of 2 v k] by simp
  have "(e AND 0xFFFFFC0000000) AND push_bit 21 ?i = 0"
    by (rule bit_eqI) (auto simp: bit_and_iff bit_push_bit_iff i mask_bits simp del: word_bit_numerals)
  then have "(e AND 0xFFFFFC0000000) + ?i * 0x200000 = (e AND 0xFFFFFC0000000) OR push_bit 21 ?i"
    unfolding mult_push by (rule disjunctive_add_eq_or)
  then show ?thesis using d
    by (auto simp: split_entry_def Let_def numeral_2_eq_2 [symmetric] bit_or_iff bit_and_iff bit_push_bit_iff i mask_bits
        simp del: word_bit_numerals)
next
  assume d: "d = 2"
  let ?i = "of_nat (table_index 3 v) :: u64"
  have i: "bit ?i k \<longleftrightarrow> k < 9 \<and> bit v (12 + k)" for k using index_bits [of 3 v k] by simp
  have "(e AND 0xFFFFFFE00000) AND push_bit 12 ?i = 0"
    by (rule bit_eqI) (auto simp: bit_and_iff bit_push_bit_iff i mask_bits simp del: word_bit_numerals)
  then have "(e AND 0xFFFFFFE00000) + ?i * K64_PAGE_SIZE = (e AND 0xFFFFFFE00000) OR push_bit 12 ?i"
    unfolding mult_push by (rule disjunctive_add_eq_or)
  then show ?thesis using d
    by (auto simp: split_entry_def Let_def numeral_3_eq_3 [symmetric] bit_or_iff bit_and_iff bit_not_iff bit_push_bit_iff i mask_bits
        simp del: word_bit_numerals)
qed

lemma split_large:
  assumes "is_large e"
  shows "is_large (split_entry e 2 j)"
proof -
  have "((e AND 0xFFFFFC0000000) + of_nat j * 0x200000 OR e AND 0xFFF) AND 0x80 \<noteq> 0"
    using assms unfolding large_bit by (simp add: bit_or_iff bit_and_iff mask_bits del: word_bit_numerals)
  then show ?thesis by (simp add: split_entry_def Let_def)
qed

lemma split_target:
  assumes d: "d = 1 \<or> d = 2" and e: "is_large e" and low: "d = 1 \<Longrightarrow> e AND 0xF000000000000 = 0"
    and c: "c = split_entry e (3 - d) (table_index (Suc d) v)"
  shows "entry_allows req c = entry_allows req e" and "is_large c \<longleftrightarrow> d = 1"
    and "(if d = 1 then large_target 2 c v else (c AND K64_PAGE_MASK) + (v AND 0xFFF)) = large_target d e v"
proof -
  note b = split_bits [OF d e, of v, folded c]
  show "entry_allows req c = entry_allows req e" by (simp add: allows_bits b)
  show "is_large c \<longleftrightarrow> d = 1" using e by (simp add: large_bit b)
  show "(if d = 1 then large_target 2 c v else (c AND K64_PAGE_MASK) + (v AND 0xFFF)) = large_target d e v"
    using d
  proof
    assume d1: "d = 1"
    have hi: "k < 48" if "bit e k" "k < 52" for k
    proof -
      have "\<not> bit (e AND 0xF000000000000) k" using low d1 by simp
      then show ?thesis using that by (simp add: bit_and_iff mask_bits del: word_bit_numerals)
    qed
    have z: "(c AND 0xFFFFFFE00000) AND (v AND 0x1FFFFF) = 0" "(e AND 0xFFFFFC0000000) AND (v AND 0x3FFFFFFF) = 0"
      by (rule bit_eqI, auto simp: bit_and_iff mask_bits simp del: word_bit_numerals)+
    show ?thesis
      unfolding large_target_def using d1 disjunctive_add_eq_or [OF z(1)] disjunctive_add_eq_or [OF z(2)] hi
      by (auto simp: bit_or_iff bit_and_iff b mask_bits intro!: bit_word_eqI intro: hi split: if_splits simp del: word_bit_numerals)
  next
    assume d2: "d = 2"
    have z: "(c AND K64_PAGE_MASK) AND (v AND 0xFFF) = 0" "(e AND 0xFFFFFFE00000) AND (v AND 0x1FFFFF) = 0"
      by (rule bit_eqI, auto simp: bit_and_iff mask_bits simp del: word_bit_numerals)+
    show ?thesis
      unfolding large_target_def using d2 disjunctive_add_eq_or [OF z(1)] disjunctive_add_eq_or [OF z(2)]
      by (auto simp: bit_or_iff bit_and_iff b mask_bits intro!: bit_word_eqI split: if_splits simp del: word_bit_numerals)
  qed
qed

lemma grown_split:
  assumes al: "page_aligned T" "page_aligned F" "F \<noteq> T" and d: "d = 1 \<or> d = 2"
    and e: "e = entry m T (table_index d v)" "is_present e" "is_large e" "d = 1 \<Longrightarrow> e AND 0xF000000000000 = 0"
    and m': "m' = set_entry T (table_index d v) (F OR K64_PAGE_TABLE_FLAGS OR ((e OR x) AND K64_PAGE_USER))
       (fill_table F (split_entry e (3 - d)) (vmm_clear_page F m))"
  shows "grown m m' v d T F"
proof -
  let ?i = "table_index d v"
  note link = link_entry [OF al(2) refl, of "e OR x"]
  have i: "?i < 512" by (rule table_index_less)
  have eT: "entry m' T ?i = F OR K64_PAGE_TABLE_FLAGS OR ((e OR x) AND K64_PAGE_USER)" unfolding m' using al i by simp
  have eF: "entry m' F j = split_entry e (3 - d) j" if "j < 512" for j
    unfolding m' using al i that by (simp add: entry_set_other entry_fill)
  have other: "entry m' t j = entry m t j" if "page_aligned t" "t \<noteq> F" "j < 512" "(t, j) \<noteq> (T, ?i)" for t j
    unfolding m' using al i that by (auto simp: entry_set_other entry_clear_other entry_fill)
  have w: "(if entry_allows req (entry m' T ?i) then walk m' req v' (Suc d) F else None) = walk m req v' d T"
    if p: "path (Suc d) v' = path (Suc d) v" for req v'
  proof -
    let ?c = "split_entry e (3 - d) (table_index (Suc d) v')"
    note sp = split_target [where v = v', OF d e(3,4) refl]
    have c: "entry m' F (table_index (Suc d) v') = ?c" by (rule eF [OF table_index_less])
    have old: "entry m T (table_index d v') = e" using p e(1) by (simp add: path_Suc_eq)
    have "walk m req v' d T = (if entry_allows req e then Some (large_target d e v') else None)"
      using d e(3) old by (subst walk.simps) (auto simp: Let_def)
    moreover have "walk m' req v' (Suc d) F = (if entry_allows req ?c then Some (large_target d e v') else None)"
    proof (cases "d = 1")
      case True
      then show ?thesis using sp c by (subst walk.simps) (simp add: Let_def numeral_2_eq_2)
    next
      case False
      then have "d = 2" using d by simp
      then show ?thesis using sp c False by (subst walk.simps) (simp add: Let_def numeral_3_eq_3)
    qed
    moreover have "entry_allows req (entry m' T ?i)" if "entry_allows req e"
      using that link unfolding eT allows_bits by (simp add: bit_or_iff)
    ultimately show ?thesis using sp(1) by auto
  qed
  have leafs: "d = 1 \<and> is_large (split_entry e (3 - d) j)" if "j < 512" "d < 2" for j
    using that d e(3) by (simp add: split_large)
  show "grown m m' v d T F"
    unfolding grown_def using eT link other w leafs by (auto simp: present_bit large_bit eF)
qed

section \<open>Writing the entry of a page\<close>

lemma tab_page_write:
  assumes ok: "tree_ok m root U" and T: "tab m root v 3 = Some T" and k: "k \<le> 3"
  shows "tab (set_entry T (table_index 3 v) e m) root v' k = tab m root v' k"
  using k
proof (induction k)
  case (Suc k)
  have "entry (set_entry T (table_index 3 v) e m) t j = entry m t j" if "tab m root v' k = Some t" "j < 512" for t j
  proof -
    have "t \<noteq> T" using tree_okD(2) [OF ok _ _ that(1) , of 3 v] T Suc.prems by auto
    then show ?thesis using tree_okD(1) [OF ok _ that(1)] tree_okD(1) [OF ok _ T] Suc.prems that(2) table_index_less
      by (simp add: entry_set_other)
  qed
  then show ?case using Suc table_index_less by (auto simp: Let_def split: option.splits)
qed simp

lemma tree_page_write:
  assumes ok: "tree_ok m root U" and T: "tab m root v 3 = Some T"
  shows "tree_ok (set_entry T (table_index 3 v) e m) root U"
proof -
  note tp = tab_page_write [OF ok T]
  have "entry (set_entry T (table_index 3 v) e m) t j = entry m t j" if "tab m root v' 1 = Some t" "j < 512" for v' t j
  proof -
    have "t \<noteq> T" using tree_okD(2) [OF ok _ _ that(1), of 3 v] T by auto
    then show ?thesis using tree_okD(1) [OF ok _ that(1)] tree_okD(1) [OF ok _ T] that(2) table_index_less
      by (simp add: entry_set_other)
  qed
  note same = this [OF _ table_index_less]
  have one: "tab (set_entry T (table_index 3 v) e m) root v' 1 = tab m root v' 1" for v' by (rule tp) simp
  show ?thesis
    unfolding tree_ok_def
  proof (intro conjI allI impI)
    fix v' k t assume "k \<le> 3 \<and> tab (set_entry T (table_index 3 v) e m) root v' k = Some t"
    then show "page_aligned t" "t \<in> U" using tp [of k e v'] tree_okD(1) [OF ok, of k v' t] by simp_all
  next
    fix v1 v2 k k' t
    assume "k \<le> 3 \<and> k' \<le> 3 \<and> tab (set_entry T (table_index 3 v) e m) root v1 k = Some t \<and>
      tab (set_entry T (table_index 3 v) e m) root v2 k' = Some t"
    then have "k \<le> 3" "k' \<le> 3" "tab m root v1 k = Some t" "tab m root v2 k' = Some t" using tp [of k e v1] tp [of k' e v2] by auto
    then have "k = k' \<and> path k v1 = path k v2" by (rule tree_okD(2) [OF ok])
    then show "k = k'" "path k v1 = path k v2" by blast+
  next
    fix v' t
    assume "tab (set_entry T (table_index 3 v) e m) root v' 1 = Some t \<and>
      is_large (entry (set_entry T (table_index 3 v) e m) t (table_index 1 v'))"
    then show "entry (set_entry T (table_index 3 v) e m) t (table_index 1 v') AND 0xF000000000000 = 0"
      unfolding one using same [of v' t] tree_okD(3) [OF ok, of v' t] by simp
  qed
qed

lemma walk_page_write:
  assumes ok: "tree_ok m root U" and T: "tab m root v 3 = Some T"
    and m': "m' = set_entry T (table_index 3 v) e m" and t: "tab m root v' k = Some t" "k \<le> 3"
  shows "path 4 v' \<noteq> path 4 v \<Longrightarrow> walk m' req v' k t = walk m req v' k t"
    and "path 4 v' = path 4 v \<Longrightarrow> bit e 0 \<Longrightarrow> walk m' False v' k t = Some ((e AND K64_PAGE_MASK) + (v' AND 0xFFF))"
proof -
  have al: "page_aligned T" using tree_okD(1) [OF ok _ T] by simp
  have "(path 4 v' \<noteq> path 4 v \<longrightarrow> walk m' req v' k t = walk m req v' k t) \<and>
    (path 4 v' = path 4 v \<and> bit e 0 \<longrightarrow> walk m' False v' k t = Some ((e AND K64_PAGE_MASK) + (v' AND 0xFFF)))"
    using t
  proof (induction "3 - k" arbitrary: k t)
    case 0
    then have k: "k = 3" by simp
    have pt: "page_aligned t" using tree_okD(1) [OF ok _ "0.prems"(1)] k by simp
    have "t = T \<Longrightarrow> path 3 v' = path 3 v" using tree_okD(2) [OF ok _ _ "0.prems"(1), of 3 v] T k by auto
    then have "entry m' t (table_index 3 v') = entry m t (table_index 3 v')" if "path 4 v' \<noteq> path 4 v"
      using that pt al path_Suc_eq [of 3 v' v] unfolding m'
      by (intro entry_set_other) (auto simp: table_index_less)
    moreover have "entry m' t (table_index 3 v') = e" if "path 4 v' = path 4 v"
    proof -
      have "path 3 v' = path 3 v" "table_index 3 v' = table_index 3 v" using that path_Suc_eq [of 3 v' v] by simp_all
      then have "t = T" "table_index 3 v' = table_index 3 v" using "0.prems"(1) k T tab_path [of 3 v' v m root] by auto
      then show ?thesis unfolding m' using al table_index_less by simp
    qed
    ultimately show ?case using k by (subst (1 2 3) walk.simps) (auto simp: Let_def allows_bits)
  next
    case (Suc n)
    have k: "k < 3" using Suc.hyps(2) by simp
    have "t \<noteq> T" using tree_okD(2) [OF ok _ _ Suc.prems(1), of 3 v] T k by auto
    then have e: "entry m' t (table_index k v') = entry m t (table_index k v')"
      unfolding m' using tree_okD(1) [OF ok _ Suc.prems(1)] al k table_index_less by (intro entry_set_other) auto
    let ?e = "entry m t (table_index k v')"
    show ?case
    proof (cases "bit ?e 0 \<and> \<not> (k \<ge> 1 \<and> is_large ?e)")
      case True
      then have nxt: "tab m root v' (Suc k) = Some (?e AND K64_PAGE_MASK)" using Suc.prems(1) by (auto simp: Let_def present_bit)
      have "n = 3 - Suc k" "Suc k \<le> 3" using Suc.hyps(2) k by simp_all
      note IH = Suc.hyps(1) [OF this(1) nxt this(2)]
      show ?thesis using IH True e k by (subst (1 2 3) walk.simps) (auto simp: Let_def allows_bits)
    next
      case no: False
      have "path 4 v' \<noteq> path 4 v"
      proof
        assume "path 4 v' = path 4 v"
        then have "path (Suc k) v' = path (Suc k) v" by (rule path_mono) (use k in simp)
        then have "tab m root v (Suc k) = None"
          using no Suc.prems(1) tab_path [of "Suc k" v v' m root] by (auto simp: Let_def present_bit)
        moreover have "tab m root v j \<noteq> None" if "j \<le> 3" for j
          using that T by (cases "j = 3") (auto simp: numeral_3_eq_3 le_Suc_eq split: option.splits)
        ultimately show False using k Suc_leI by blast
      qed
      then show ?thesis using no e k by (subst (1 2) walk.simps) (auto simp: Let_def allows_bits)
    qed
  qed
  then show "path 4 v' \<noteq> path 4 v \<Longrightarrow> walk m' req v' k t = walk m req v' k t"
    and "path 4 v' = path 4 v \<Longrightarrow> bit e 0 \<Longrightarrow> walk m' False v' k t = Some ((e AND K64_PAGE_MASK) + (v' AND 0xFFF))"
    by blast+
qed

end
