(* ===== verification/Vmm_Props.thy ===== *)
theory Vmm_Props
  imports Vmm_Tables
begin

text \<open>
  Properties of the virtual memory manager: a mapping is an update of the translation at one page, user memory
  reads back what was written to it, and releasing a space returns its frames.
\<close>

section \<open>Frames\<close>

text \<open>The addresses of the frames in use, as pointers.\<close>

definition used_pages :: "pmm \<Rightarrow> u64 set" where
  "used_pages p = of_nat ` pmm_in_use p"

lemma in_use_bound: "a \<in> pmm_in_use p \<Longrightarrow> a < 4294967296 \<and> a mod 4096 = 0"
  by (auto simp: pmm_in_use_def K64_FRAME_SIZE_def K64_MAX_FRAMES_def)

lemma unat_of_frame: "a < 4294967296 \<Longrightarrow> unat (of_nat a :: u64) = a"
  by (simp add: unat_of_nat_small)

lemma used_page_iff: "a < 4294967296 \<Longrightarrow> of_nat a \<in> used_pages p \<longleftrightarrow> a \<in> pmm_in_use p"
proof
  assume a: "a < 4294967296" and "of_nat a \<in> used_pages p"
  then obtain b where b: "b \<in> pmm_in_use p" "(of_nat a :: u64) = of_nat b" by (auto simp: used_pages_def)
  then have "unat (of_nat a :: u64) = unat (of_nat b :: u64)" by simp
  then show "a \<in> pmm_in_use p" using b(1) in_use_bound [OF b(1)] a by (simp only: unat_of_frame)
qed (simp add: used_pages_def)

lemma alloc_bound:
  assumes "pmm_inv p" and "k64_pmm_alloc_frame p = (a, p')" and "a \<noteq> 0"
  shows "a < 4294967296" "a mod 4096 = 0" "a \<notin> pmm_in_use p" "pmm_in_use p' = insert a (pmm_in_use p)" "pmm_inv p'"
proof -
  show fresh: "a \<notin> pmm_in_use p" "pmm_in_use p' = insert a (pmm_in_use p)" using pmm.alloc_fresh [OF assms] by auto
  then have "a \<in> pmm_in_use p'" by simp
  then show "a < 4294967296" "a mod 4096 = 0" using in_use_bound by auto
  show "pmm_inv p'" using pmm.inv_alloc [OF assms(1)] assms(2) by simp
qed

text \<open>What is known of the outcome of the two allocators of frames.\<close>

definition took_frame :: "vmm \<Rightarrow> u64 \<Rightarrow> vmm \<Rightarrow> bool" where
  "took_frame vm f vm' \<longleftrightarrow> (\<exists>a p'. f = of_nat a \<and> a \<noteq> 0 \<and> a < 4294967296 \<and> page_aligned f \<and> f \<noteq> 0 \<and> f \<notin> used_pages (vm_pmm vm) \<and>
     a \<notin> pmm_in_use (vm_pmm vm) \<and> pmm_in_use p' = insert a (pmm_in_use (vm_pmm vm)) \<and> pmm_inv p' \<and>
     vm' = vm\<lparr>vm_pmm := p', phys := vmm_clear_page f (phys vm)\<rparr>)"

definition took_none :: "vmm \<Rightarrow> vmm \<Rightarrow> bool" where
  "took_none vm vm' \<longleftrightarrow> (\<exists>p'. pmm_in_use p' = pmm_in_use (vm_pmm vm) \<and> pmm_inv p' \<and> vm' = vm\<lparr>vm_pmm := p'\<rparr>)"

lemma frame_outcome:
  assumes inv: "pmm_inv (vm_pmm vm)" and alloc: "k64_pmm_alloc_frame (vm_pmm vm) = (a, p)"
  shows "a = 0 \<Longrightarrow> took_none vm (vm\<lparr>vm_pmm := p\<rparr>)"
    and "a \<noteq> 0 \<Longrightarrow> took_none vm (vm\<lparr>vm_pmm := k64_pmm_free_frame a p\<rparr>)"
    and "a \<noteq> 0 \<Longrightarrow> took_frame vm (of_nat a) (vm\<lparr>vm_pmm := p, phys := vmm_clear_page (of_nat a) (phys vm)\<rparr>)"
proof -
  show "a = 0 \<Longrightarrow> took_none vm (vm\<lparr>vm_pmm := p\<rparr>)"
    using pmm.alloc_none [OF inv] alloc inv unfolding took_none_def by metis
  assume a: "a \<noteq> 0"
  note b = alloc_bound [OF inv alloc a]
  have u: "unat (of_nat a :: u64) = a" using b(1) by (rule unat_of_frame)
  then have "page_aligned (of_nat a)" "(of_nat a :: u64) \<noteq> 0" using b(2) a by (auto simp: page_aligned_def)
  moreover have "(of_nat a :: u64) \<notin> used_pages (vm_pmm vm)" using used_page_iff [OF b(1)] b(3) by blast
  ultimately show "took_frame vm (of_nat a) (vm\<lparr>vm_pmm := p, phys := vmm_clear_page (of_nat a) (phys vm)\<rparr>)"
    unfolding took_frame_def using a b by blast
  have "pmm_in_use (k64_pmm_free_frame a p) = pmm_in_use (vm_pmm vm)" by (rule pmm.alloc_free_restores [OF inv alloc a])
  moreover have "pmm_inv (k64_pmm_free_frame a p)" using b(4,5) a by (intro pmm.inv_free) auto
  ultimately show "took_none vm (vm\<lparr>vm_pmm := k64_pmm_free_frame a p\<rparr>)" unfolding took_none_def by blast
qed

lemma alloc_table_frame_cases:
  assumes inv: "pmm_inv (vm_pmm vm)"
  obtains vm' where "vmm_alloc_table_frame (vm, sp) = (Fail, (vm', sp))" "took_none vm vm'"
  | f vm' where "vmm_alloc_table_frame (vm, sp) = (Ok f, (vm', sp\<lparr>page_table_frames :=
      (page_table_frames sp)[page_table_frame_count sp := f], page_table_frame_count := page_table_frame_count sp + 1\<rparr>))"
      "page_table_frame_count sp < length (page_table_frames sp)" "took_frame vm f vm'"
proof -
  obtain a p where alloc: "k64_pmm_alloc_frame (vm_pmm vm) = (a, p)" by (cases "k64_pmm_alloc_frame (vm_pmm vm)")
  note out = frame_outcome [OF inv alloc]
  show ?thesis
  proof (cases "a = 0")
    case True
    then show ?thesis using that(1) [OF _ out(1)] alloc by (simp add: vmm_alloc_table_frame_def)
  next
    case a: False
    show ?thesis
    proof (cases "page_table_frame_count sp < length (page_table_frames sp)")
      case True
      then show ?thesis using that(2) [OF _ _ out(3)] alloc a by (simp add: vmm_alloc_table_frame_def vmm_record_frame_def)
    next
      case False
      then show ?thesis using that(1) [OF _ out(2)] alloc a by (simp add: vmm_alloc_table_frame_def vmm_record_frame_def)
    qed
  qed
qed

lemma alloc_phys_frame_cases:
  assumes inv: "pmm_inv (vm_pmm vm)"
  obtains vm' where "vmm_alloc_phys_frame (vm, sp) = (Fail, (vm', sp))" "took_none vm vm'"
  | f vm' where "vmm_alloc_phys_frame (vm, sp) = (Ok f, (vm', sp\<lparr>phys_frames :=
      (phys_frames sp)[phys_frame_count sp := f], phys_frame_count := phys_frame_count sp + 1\<rparr>))"
      "phys_frame_count sp < length (phys_frames sp)" "took_frame vm f vm'"
proof -
  obtain a p where alloc: "k64_pmm_alloc_frame (vm_pmm vm) = (a, p)" by (cases "k64_pmm_alloc_frame (vm_pmm vm)")
  note out = frame_outcome [OF inv alloc]
  show ?thesis
  proof (cases "a = 0")
    case True
    then show ?thesis using that(1) [OF _ out(1)] alloc by (simp add: vmm_alloc_phys_frame_def)
  next
    case a: False
    show ?thesis
    proof (cases "phys_frame_count sp < length (phys_frames sp)")
      case True
      then show ?thesis using that(2) [OF _ _ out(3)] alloc a by (simp add: vmm_alloc_phys_frame_def vmm_record_frame_def)
    next
      case False
      then show ?thesis using that(1) [OF _ out(2)] alloc a by (simp add: vmm_alloc_phys_frame_def vmm_record_frame_def)
    qed
  qed
qed

section \<open>Pages of memory\<close>

abbreviation page_of :: "u64 \<Rightarrow> u64" where "page_of a \<equiv> a AND K64_PAGE_MASK"

lemma page_of_unat: "unat (page_of a) = unat a div 4096 * 4096"
proof -
  have "page_of a = push_bit 12 (drop_bit 12 a)"
    by (rule bit_word_eqI) (auto simp: bit_and_iff bit_page_mask bit_push_bit_iff bit_drop_bit_eq)
  then have "page_of a = drop_bit 12 a * 4096" by (simp add: push_bit_eq_mult)
  moreover have d: "unat (drop_bit 12 a) = unat a div 4096" by (simp add: drop_bit_eq_div unat_div)
  moreover have "unat a div 4096 * 4096 < 2 ^ 64" using unat_lt [of a] by simp
  ultimately show ?thesis by (simp add: unat_word_ariths)
qed

lemma in_page_iff: "page_aligned t \<Longrightarrow> unat t \<le> unat a \<and> unat a < unat t + 4096 \<longleftrightarrow> page_of a = t"
proof (erule page_alignedE)
  fix q assume q: "unat t = 4096 * q"
  have "4096 * q \<le> x \<and> x < 4096 * q + 4096 \<longleftrightarrow> x div 4096 * 4096 = 4096 * q" for x :: nat
  proof
    assume "4096 * q \<le> x \<and> x < 4096 * q + 4096"
    then have "x div 4096 = q" by (intro div_nat_eqI) simp_all
    then show "x div 4096 * 4096 = 4096 * q" by simp
  next
    assume "x div 4096 * 4096 = 4096 * q"
    moreover have "x div 4096 * 4096 + x mod 4096 = x" "x mod 4096 < 4096" by simp_all
    ultimately show "4096 * q \<le> x \<and> x < 4096 * q + 4096" by linarith
  qed
  then show ?thesis unfolding word_unat_eq_iff page_of_unat q .
qed

lemma put_other_page:
  assumes "page_aligned t" and "unat t \<le> unat a" and "unat a + length bs \<le> unat t + 4096" and "page_of x \<noteq> t"
  shows "put_bytes a bs m x = m x"
proof -
  have "\<not> (unat t \<le> unat x \<and> unat x < unat t + 4096)" using in_page_iff [OF assms(1)] assms(4) by simp
  then show ?thesis using page_room [OF assms(1)] assms(2,3) by (subst put_bytes_apply) auto
qed

lemma set_entry_other_page: "page_aligned t \<Longrightarrow> i < 512 \<Longrightarrow> page_of x \<noteq> t \<Longrightarrow> set_entry t i e m x = m x"
  unfolding set_entry_def by (rule put_other_page [of t]) (simp_all add: unat_entry_addr del: of_nat_mult)

lemma clear_other_page: "page_aligned t \<Longrightarrow> page_of x \<noteq> t \<Longrightarrow> vmm_clear_page t m x = m x"
  unfolding vmm_clear_page_def by (rule put_other_page [of t]) (simp_all add: K64_PAGE_SIZE_def)

lemma fill_other_page:
  assumes "page_aligned t" and "page_of x \<noteq> t"
  shows "fill_table t f m x = m x"
proof -
  have "fold (\<lambda>i. set_entry t i (f i)) [0..<n] m x = m x" if "n \<le> 512" for n
    using that by (induction n) (use assms in \<open>auto simp: set_entry_other_page\<close>)
  from this [of 512] show ?thesis by (simp add: fill_table_def)
qed

section \<open>Tables that grow\<close>

text \<open>
  The invariant of a space: its tables form a tree on the frames \<open>U\<close>, which are in use. \<open>grew\<close>: new tables were
  taken from the allocator and recorded, no translation and no other page changed.
\<close>

definition space_inv :: "u64 set \<Rightarrow> vmm \<times> k64_vm_space \<Rightarrow> bool" where
  "space_inv U st \<longleftrightarrow> (case st of (vm, sp) \<Rightarrow> pmm_inv (vm_pmm vm) \<and> present sp \<and> cr3 sp \<noteq> 0 \<and>
     tree_ok (phys vm) (cr3 sp) U \<and> U \<subseteq> used_pages (vm_pmm vm))"

definition recorded :: "k64_vm_space \<Rightarrow> u64 list" where
  "recorded sp = take (page_table_frame_count sp) (page_table_frames sp)"

definition with_tables :: "u64 list \<Rightarrow> nat \<Rightarrow> k64_vm_space \<Rightarrow> k64_vm_space" where
  "with_tables l n sp = sp\<lparr>page_table_frames := l, page_table_frame_count := n\<rparr>"

definition grew :: "vmm \<times> k64_vm_space \<Rightarrow> u64 list \<Rightarrow> vmm \<times> k64_vm_space \<Rightarrow> bool" where
  "grew st fs st' \<longleftrightarrow> (case (st, st') of ((vm, sp), (vm', sp')) \<Rightarrow>
     (\<exists>p m. vm' = vm\<lparr>vm_pmm := p, phys := m\<rparr> \<and> pmm_inv p \<and> used_pages p = used_pages (vm_pmm vm) \<union> set fs \<and>
        distinct fs \<and> set fs \<inter> used_pages (vm_pmm vm) = {}) \<and> 0 \<notin> set fs \<and>
     (\<exists>l n. sp' = with_tables l n sp) \<and> length (page_table_frames sp') = length (page_table_frames sp) \<and>
     page_table_frame_count sp' = page_table_frame_count sp + length fs \<and>
     (page_table_frame_count sp \<le> length (page_table_frames sp) \<longrightarrow> recorded sp' = recorded sp @ fs))"

definition same_outside :: "u64 set \<Rightarrow> phys_mem \<Rightarrow> phys_mem \<Rightarrow> bool" where
  "same_outside U m m' \<longleftrightarrow> (\<forall>a. page_of a \<notin> U \<longrightarrow> m' a = m a)"

lemma same_outside_trans:
  "same_outside U m m1 \<Longrightarrow> same_outside U' m1 m2 \<Longrightarrow> U \<subseteq> U' \<Longrightarrow> same_outside U' m m2"
  unfolding same_outside_def by (metis subsetD)

lemma grew_refl: "pmm_inv (vm_pmm vm) \<Longrightarrow> grew (vm, sp) [] (vm, sp)"
proof -
  assume "pmm_inv (vm_pmm vm)"
  moreover have "vm = vm\<lparr>vm_pmm := vm_pmm vm, phys := phys vm\<rparr>" by simp
  moreover have "sp = with_tables (page_table_frames sp) (page_table_frame_count sp) sp" by (simp add: with_tables_def)
  ultimately show ?thesis unfolding grew_def prod.case by (intro conjI exI) (assumption | simp)+
qed

lemma grew_trans:
  assumes "grew st fs st1" and "grew st1 gs st2"
  shows "grew st (fs @ gs) st2"
proof -
  obtain vm sp vm1 sp1 vm2 sp2 where st: "st = (vm, sp)" "st1 = (vm1, sp1)" "st2 = (vm2, sp2)" by (cases st, cases st1, cases st2)
  obtain p m where 1: "vm1 = vm\<lparr>vm_pmm := p, phys := m\<rparr>" "pmm_inv p" "used_pages p = used_pages (vm_pmm vm) \<union> set fs"
      "distinct fs" "set fs \<inter> used_pages (vm_pmm vm) = {}"
    using assms(1) unfolding grew_def st prod.case by blast
  obtain p' m' where 2: "vm2 = vm1\<lparr>vm_pmm := p', phys := m'\<rparr>" "pmm_inv p'" "used_pages p' = used_pages (vm_pmm vm1) \<union> set gs"
      "distinct gs" "set gs \<inter> used_pages (vm_pmm vm1) = {}"
    using assms(2) unfolding grew_def st prod.case by blast
  obtain l n where w1: "sp1 = with_tables l n sp" using assms(1) unfolding grew_def st prod.case by blast
  obtain l' n' where w2: "sp2 = with_tables l' n' sp1" using assms(2) unfolding grew_def st prod.case by blast
  have "vm2 = vm\<lparr>vm_pmm := p', phys := m'\<rparr>" using 1(1) 2(1) by simp
  moreover have "used_pages p' = used_pages (vm_pmm vm) \<union> set (fs @ gs)" using 1 2(3) by auto
  moreover have "distinct (fs @ gs)" "set (fs @ gs) \<inter> used_pages (vm_pmm vm) = {}" using 1 2(4,5) by auto
  moreover have "sp2 = with_tables l' n' sp" using w1 w2 by (simp add: with_tables_def)
  moreover have len: "length (page_table_frames sp1) = length (page_table_frames sp)" "length (page_table_frames sp2) = length (page_table_frames sp1)"
      "page_table_frame_count sp1 = page_table_frame_count sp + length fs" "page_table_frame_count sp2 = page_table_frame_count sp1 + length gs"
      "0 \<notin> set fs" "0 \<notin> set gs"
    using assms unfolding grew_def st prod.case by blast+
  moreover have "recorded sp2 = recorded sp @ fs @ gs" if c: "page_table_frame_count sp \<le> length (page_table_frames sp)"
  proof -
    have r1: "recorded sp1 = recorded sp @ fs" using assms(1) c unfolding grew_def st prod.case by blast
    then have "length (recorded sp1) = page_table_frame_count sp1" using c len(3) by (simp add: recorded_def)
    then have "page_table_frame_count sp1 \<le> length (page_table_frames sp1)" by (simp add: recorded_def)
    then have "recorded sp2 = recorded sp1 @ gs" using assms(2) unfolding grew_def st prod.case by blast
    then show ?thesis using r1 by simp
  qed
  ultimately show ?thesis using 2(2) unfolding grew_def st prod.case by auto
qed

lemma grew_none:
  assumes "took_none vm vm'"
  shows "grew (vm, sp) [] (vm', sp)"
proof -
  obtain p where p: "pmm_in_use p = pmm_in_use (vm_pmm vm)" "pmm_inv p" "vm' = vm\<lparr>vm_pmm := p\<rparr>"
    using assms by (auto simp: took_none_def)
  have "vm' = vm\<lparr>vm_pmm := p, phys := phys vm\<rparr>" using p(3) by simp
  moreover have "sp = with_tables (page_table_frames sp) (page_table_frame_count sp) sp" by (simp add: with_tables_def)
  ultimately show ?thesis using p(1,2) unfolding grew_def prod.case used_pages_def by (intro conjI exI) (assumption | simp)+
qed

lemma grew_one:
  assumes "took_frame vm f vm'" and "page_table_frame_count sp < length (page_table_frames sp)"
  shows "grew (vm, sp) [f] (vm'\<lparr>phys := m\<rparr>, sp\<lparr>page_table_frames :=
      (page_table_frames sp)[page_table_frame_count sp := f], page_table_frame_count := page_table_frame_count sp + 1\<rparr>)"
proof -
  obtain a p where a: "f = of_nat a" "f \<noteq> 0" "f \<notin> used_pages (vm_pmm vm)" "pmm_in_use p = insert a (pmm_in_use (vm_pmm vm))"
      "pmm_inv p" "vm' = vm\<lparr>vm_pmm := p, phys := vmm_clear_page f (phys vm)\<rparr>"
    using assms(1) unfolding took_frame_def by blast
  let ?sp = "sp\<lparr>page_table_frames := (page_table_frames sp)[page_table_frame_count sp := f],
    page_table_frame_count := page_table_frame_count sp + 1\<rparr>"
  have v: "vm'\<lparr>phys := m\<rparr> = vm\<lparr>vm_pmm := p, phys := m\<rparr>" using a(6) by simp
  have w: "?sp = with_tables ((page_table_frames sp)[page_table_frame_count sp := f]) (page_table_frame_count sp + 1) sp"
    by (simp add: with_tables_def)
  have u: "used_pages p = used_pages (vm_pmm vm) \<union> set [f]" "distinct [f]" "set [f] \<inter> used_pages (vm_pmm vm) = {}" "0 \<notin> set [f]"
    using a by (simp_all add: used_pages_def)
  have n: "length (page_table_frames ?sp) = length (page_table_frames sp)"
      "page_table_frame_count ?sp = page_table_frame_count sp + length [f]" "recorded ?sp = recorded sp @ [f]"
    using assms(2) by (simp_all add: recorded_def take_Suc_conv_app_nth)
  show ?thesis unfolding grew_def prod.case by (intro conjI exI impI) (rule v w u n a)+
qed

section \<open>The next table\<close>

text \<open>One step down the tables of \<open>v\<close> from depth \<open>d\<close>.\<close>

definition descended :: "u64 set \<Rightarrow> vmm \<times> k64_vm_space \<Rightarrow> u64 \<Rightarrow> nat \<Rightarrow> u64 res \<Rightarrow> vmm \<times> k64_vm_space \<Rightarrow> bool" where
  "descended U st v d r st' \<longleftrightarrow> (case (st, st') of ((vm, sp), (vm', sp')) \<Rightarrow>
    \<exists>fs. grew (vm, sp) fs (vm', sp') \<and> space_inv (U \<union> set fs) (vm', sp') \<and> same_outside (U \<union> set fs) (phys vm) (phys vm') \<and>
    (\<forall>req v'. walk (phys vm') req v' 0 (cr3 sp) = walk (phys vm) req v' 0 (cr3 sp)) \<and>
    r \<noteq> Fault \<and> (\<forall>t. r = Ok t \<longrightarrow> tab (phys vm') (cr3 sp) v (Suc d) = Some t))"

lemma descended_stay:
  assumes inv: "space_inv U (vm, sp)" and gr: "grew (vm, sp) [] (vm', sp')" and ph: "phys vm' = phys vm" and r: "r \<noteq> Fault"
    "\<And>t. r = Ok t \<Longrightarrow> tab (phys vm) (cr3 sp) v (Suc d) = Some t"
  shows "descended U (vm, sp) v d r (vm', sp')"
proof -
  obtain p m l n where "vm' = vm\<lparr>vm_pmm := p, phys := m\<rparr>" "pmm_inv p" "used_pages p = used_pages (vm_pmm vm)" "sp' = with_tables l n sp"
    using gr unfolding grew_def prod.case by auto
  then have "space_inv U (vm', sp')" using inv ph by (simp add: space_inv_def with_tables_def)
  then show ?thesis unfolding descended_def prod.case using gr ph r by (intro exI [of _ "[]"]) (simp add: same_outside_def)
qed

lemma descended_new:
  assumes inv: "space_inv U (vm, sp)" and T: "tab (phys vm) (cr3 sp) v d = Some T" "d \<le> 2"
    and took: "took_frame vm f vm1" and room: "page_table_frame_count sp < length (page_table_frames sp)"
    and st: "vm' = vm1\<lparr>phys := m'\<rparr>" "sp' = sp\<lparr>page_table_frames := (page_table_frames sp)[page_table_frame_count sp := f],
      page_table_frame_count := page_table_frame_count sp + 1\<rparr>"
    and g: "grown (phys vm) m' v d T f" and zero: "d = 0 \<Longrightarrow> \<forall>j<512. entry m' f j = 0" and so: "same_outside (U \<union> {f}) (phys vm) m'"
    and leaf: "\<not> (is_present (entry (phys vm) T (table_index d v)) \<and> (d = 0 \<or> \<not> is_large (entry (phys vm) T (table_index d v))))"
    and r: "r = Ok f"
  shows "descended U (vm, sp) v d r (vm', sp')"
proof -
  have ok: "tree_ok (phys vm) (cr3 sp) U" and used: "U \<subseteq> used_pages (vm_pmm vm)" using inv by (simp_all add: space_inv_def)
  have f: "page_aligned f" "f \<notin> used_pages (vm_pmm vm)" using took unfolding took_frame_def by blast+
  then have fU: "f \<notin> U" using used by blast
  note gr = grew_one [OF took room, of m', folded st]
  obtain p m where p: "vm' = vm\<lparr>vm_pmm := p, phys := m\<rparr>" "pmm_inv p" "used_pages p = used_pages (vm_pmm vm) \<union> {f}"
    using gr unfolding grew_def prod.case by auto
  have m': "phys vm' = m'" using st(1) by simp
  have cr: "cr3 sp' = cr3 sp" "present sp' = present sp" using st(2) by simp_all
  note tree = grown_tree [OF ok T fU f(1) leaf g zero]
  have "space_inv (U \<union> {f}) (vm', sp')"
    using tree(1) inv p used m' cr by (auto simp: space_inv_def)
  moreover have "walk m' req v' 0 (cr3 sp) = walk (phys vm) req v' 0 (cr3 sp)" for req v' by (rule grown_walk [OF ok T fU g])
  ultimately show ?thesis unfolding descended_def prod.case using gr so r tree(2) m' by (intro exI [of _ "[f]"]) simp
qed

lemma outside_entry: "page_aligned T \<Longrightarrow> T \<in> U \<Longrightarrow> i < 512 \<Longrightarrow> page_of a \<notin> U \<Longrightarrow> set_entry T i e m a = m a"
  by (rule set_entry_other_page) auto

lemma split_table:
  assumes inv: "space_inv U (vm, sp)" and T: "tab (phys vm) (cr3 sp) v d = Some T" "d \<le> 2" and d0: "d \<noteq> 0"
    and pres: "is_present (entry (phys vm) T (table_index d v))" and large: "is_large (entry (phys vm) T (table_index d v))"
    and split: "vmm_split_large_page T (table_index d v) flags (3 - d) (vm, sp) = (r, (vm', sp'))"
  shows "descended U (vm, sp) v d r (vm', sp')"
proof -
  let ?m = "phys vm" and ?e = "entry (phys vm) T (table_index d v)"
  have pinv: "pmm_inv (vm_pmm vm)" and ok: "tree_ok ?m (cr3 sp) U" and used: "U \<subseteq> used_pages (vm_pmm vm)"
    using inv by (simp_all add: space_inv_def)
  have TU: "page_aligned T" "T \<in> U" using tree_okD(1) [OF ok _ T(1)] T(2) by simp_all
  have i: "table_index d v < 512" by (rule table_index_less)
  note new = descended_new [OF inv T]
  have d: "d = 1 \<or> d = 2" using T(2) d0 by linarith
  then have lv: "\<not> (?e AND 0x80 = 0 \<or> 3 - d < 1 \<or> 3 - d > 2)" using large by auto
  show ?thesis
  proof (cases rule: alloc_table_frame_cases [OF pinv, of sp])
    case (1 vm1)
    then have "r = Fail" "vm' = vm1" "sp' = sp" using split lv by (simp_all add: vmm_split_large_page_def Let_def bind_def)
    then show ?thesis by (intro descended_stay [OF inv]) (use grew_none [OF 1(2), of sp] 1(2) in \<open>auto simp: took_none_def\<close>)
  next
    case (2 f vm1)
    let ?m1 = "set_entry T (table_index d v) (f OR K64_PAGE_TABLE_FLAGS OR ((?e OR flags) AND K64_PAGE_USER))
      (fill_table f (split_entry ?e (3 - d)) (vmm_clear_page f ?m))"
    have f: "page_aligned f" "f \<notin> used_pages (vm_pmm vm)" "phys vm1 = vmm_clear_page f ?m" using 2(3) unfolding took_frame_def by auto
    then have fT: "f \<noteq> T" using TU(2) used by blast
    have hi: "?e AND 0xF000000000000 = 0" if "d = 1" using tree_okD(3) [OF ok] T(1) large that by simp
    have g: "grown ?m ?m1 v d T f" by (rule grown_split [OF TU(1) f(1) fT d refl pres large hi refl])
    have so: "same_outside (U \<union> {f}) ?m ?m1"
      using TU i f(1) by (auto simp: same_outside_def outside_entry fill_other_page clear_other_page)
    have "r = Ok f" "vm' = vm1\<lparr>phys := ?m1\<rparr>" "sp' = sp\<lparr>page_table_frames := (page_table_frames sp)[page_table_frame_count sp := f],
        page_table_frame_count := page_table_frame_count sp + 1\<rparr>"
      using split lv 2(1) f(3) by (simp_all add: vmm_split_large_page_def Let_def bind_def)
    then show ?thesis using new [OF 2(3,2) _ _ g _ so] d0 large by simp
  qed
qed

lemma next_table:
  assumes inv: "space_inv U (vm, sp)" and T: "tab (phys vm) (cr3 sp) v d = Some T" "d \<le> 2"
    and run: "vmm_next_table T (table_index d v) flags (3 - d) (vm, sp) = (r, (vm', sp'))"
  shows "descended U (vm, sp) v d r (vm', sp')"
proof -
  let ?m = "phys vm" and ?e = "entry (phys vm) T (table_index d v)"
  have pinv: "pmm_inv (vm_pmm vm)" and ok: "tree_ok ?m (cr3 sp) U" and used: "U \<subseteq> used_pages (vm_pmm vm)"
    using inv by (simp_all add: space_inv_def)
  have TU: "page_aligned T" "T \<in> U" using tree_okD(1) [OF ok _ T(1)] T(2) by simp_all
  have i: "table_index d v < 512" by (rule table_index_less)
  note new = descended_new [OF inv T]
  show ?thesis
  proof (cases "is_present ?e")
    case pres: True
    show ?thesis
    proof (cases "is_large ?e")
      case False
      then have "r = Ok (?e AND K64_PAGE_MASK)" "vm' = vm" "sp' = sp"
        using run pres False by (auto simp: vmm_next_table_def Let_def K64_PAGE_PRESENT_def)
      then show ?thesis by (intro descended_stay [OF inv]) (use grew_refl [OF pinv, of sp] T(1) pres False in \<open>auto simp: Let_def\<close>)
    next
      case large: True
      have split: "vmm_split_large_page T (table_index d v) flags (3 - d) (vm, sp) = (r, (vm', sp'))"
        using run pres large by (simp add: vmm_next_table_def Let_def K64_PAGE_PRESENT_def)
      show ?thesis
      proof (cases "d = 0")
        case True
        then have "r = Fail" "vm' = vm" "sp' = sp" using split by (simp_all add: vmm_split_large_page_def Let_def)
        then show ?thesis by (intro descended_stay [OF inv]) (use grew_refl [OF pinv, of sp] in simp_all)
      next
        case False
        then show ?thesis using split_table [OF inv T _ pres large split] by simp
      qed
    qed
  next
    case abs: False
    show ?thesis
    proof (cases rule: alloc_table_frame_cases [OF pinv, of sp])
      case (1 vm1)
      then have "r = Fail" "vm' = vm1" "sp' = sp" using run abs by (simp_all add: vmm_next_table_def Let_def K64_PAGE_PRESENT_def bind_def)
      then show ?thesis by (intro descended_stay [OF inv]) (use grew_none [OF 1(2), of sp] 1(2) in \<open>auto simp: took_none_def\<close>)
    next
      case (2 f vm1)
      let ?m1 = "set_entry T (table_index d v) (f OR K64_PAGE_TABLE_FLAGS OR (flags AND K64_PAGE_USER)) (vmm_clear_page f ?m)"
      have f: "page_aligned f" "f \<notin> used_pages (vm_pmm vm)" "phys vm1 = vmm_clear_page f ?m" using 2(3) unfolding took_frame_def by auto
      then have fT: "f \<noteq> T" using TU(2) used by blast
      note g = grown_empty [where x = flags, OF TU(1) f(1) fT abs refl]
      have so: "same_outside (U \<union> {f}) ?m ?m1"
        using TU i f(1) by (auto simp: same_outside_def outside_entry clear_other_page)
      have "r = Ok f" "vm' = vm1\<lparr>phys := ?m1\<rparr>" "sp' = sp\<lparr>page_table_frames := (page_table_frames sp)[page_table_frame_count sp := f],
          page_table_frame_count := page_table_frame_count sp + 1\<rparr>"
        using run abs 2(1) f(3) by (simp_all add: vmm_next_table_def Let_def K64_PAGE_PRESENT_def bind_def)
      then show ?thesis by (intro new [OF 2(3,2) _ _ g(1) _ so]) (use g(2) abs in auto)
    qed
  qed
qed

section \<open>Mapping a page\<close>

text \<open>The same page: the four indices agree.\<close>

abbreviation same_page :: "u64 \<Rightarrow> u64 \<Rightarrow> bool" where "same_page v v' \<equiv> path 4 v = path 4 v'"

lemma space_inv_D:
  "space_inv U (vm, sp) \<Longrightarrow> pmm_inv (vm_pmm vm)" "space_inv U (vm, sp) \<Longrightarrow> tree_ok (phys vm) (cr3 sp) U"
  "space_inv U (vm, sp) \<Longrightarrow> U \<subseteq> used_pages (vm_pmm vm)" "space_inv U (vm, sp) \<Longrightarrow> present sp \<and> cr3 sp \<noteq> 0"
  by (simp_all add: space_inv_def)

lemma descendedE:
  assumes "descended U (vm, sp) v d r (vm1, sp1)"
  obtains fs where "grew (vm, sp) fs (vm1, sp1)" "space_inv (U \<union> set fs) (vm1, sp1)"
    "same_outside (U \<union> set fs) (phys vm) (phys vm1)" "\<forall>req v'. walk (phys vm1) req v' 0 (cr3 sp) = walk (phys vm) req v' 0 (cr3 sp)"
    "r \<noteq> Fault" "\<forall>t. r = Ok t \<longrightarrow> tab (phys vm1) (cr3 sp1) v (Suc d) = Some t" "cr3 sp1 = cr3 sp"
proof -
  obtain fs where fs: "grew (vm, sp) fs (vm1, sp1)" "space_inv (U \<union> set fs) (vm1, sp1)"
      "same_outside (U \<union> set fs) (phys vm) (phys vm1)" "\<forall>req v'. walk (phys vm1) req v' 0 (cr3 sp) = walk (phys vm) req v' 0 (cr3 sp)"
      "r \<noteq> Fault" "\<forall>t. r = Ok t \<longrightarrow> tab (phys vm1) (cr3 sp) v (Suc d) = Some t"
    using assms unfolding descended_def prod.case by blast
  have cr: "cr3 sp1 = cr3 sp" using fs(1) by (auto simp: grew_def with_tables_def)
  show ?thesis by (rule that [OF fs(1-5) _ cr]) (use fs(6) cr in simp)
qed

lemma descended_then:
  assumes "descended U (vm, sp) v d (Ok t) (vm1, sp1)" and d: "Suc d \<le> 2"
    and run: "vmm_next_table t (table_index (Suc d) v) flags (3 - Suc d) (vm1, sp1) = (r, (vm2, sp2))"
  shows "descended U (vm, sp) v (Suc d) r (vm2, sp2)"
proof -
  obtain fs where 1: "grew (vm, sp) fs (vm1, sp1)" "space_inv (U \<union> set fs) (vm1, sp1)" "same_outside (U \<union> set fs) (phys vm) (phys vm1)"
      "\<forall>req v'. walk (phys vm1) req v' 0 (cr3 sp) = walk (phys vm) req v' 0 (cr3 sp)" "Ok t \<noteq> Fault"
      "\<forall>t'. Ok t = Ok t' \<longrightarrow> tab (phys vm1) (cr3 sp1) v (Suc d) = Some t'" "cr3 sp1 = cr3 sp"
    by (rule descendedE [OF assms(1)])
  have t: "tab (phys vm1) (cr3 sp1) v (Suc d) = Some t" using 1(6) by simp
  obtain gs where 2: "grew (vm1, sp1) gs (vm2, sp2)" "space_inv ((U \<union> set fs) \<union> set gs) (vm2, sp2)"
      "same_outside ((U \<union> set fs) \<union> set gs) (phys vm1) (phys vm2)"
      "\<forall>req v'. walk (phys vm2) req v' 0 (cr3 sp1) = walk (phys vm1) req v' 0 (cr3 sp1)" "r \<noteq> Fault"
      "\<forall>t. r = Ok t \<longrightarrow> tab (phys vm2) (cr3 sp2) v (Suc (Suc d)) = Some t" "cr3 sp2 = cr3 sp1"
    by (rule descendedE [OF next_table [OF 1(2) t d run]])
  have U: "U \<union> set (fs @ gs) = (U \<union> set fs) \<union> set gs" by auto
  have so: "same_outside (U \<union> set (fs @ gs)) (phys vm) (phys vm2)" unfolding U by (rule same_outside_trans [OF 1(3) 2(3)]) simp
  show ?thesis
    unfolding descended_def prod.case
    by (intro exI [of _ "fs @ gs"] conjI grew_trans [OF 1(1) 2(1)] so)
      (use 1(4,7) 2(2,4-7) in \<open>auto simp: Un_assoc\<close>)
qed

lemma descended_fail: "descended U st v d Fail st' \<Longrightarrow> descended U st v k Fail st'"
  by (auto simp: descended_def)

definition page_table_op :: "u64 \<Rightarrow> u64 \<Rightarrow> u64 vm" where
  "page_table_op virt flags st =
     bind (vmm_next_table (cr3 (snd st)) (table_index 0 virt) flags 3) (\<lambda>pdpt.
     bind (vmm_next_table pdpt (table_index 1 virt) flags 2) (\<lambda>pdt.
     vmm_next_table pdt (table_index 2 virt) flags 1)) st"

lemma page_table_descends:
  assumes inv: "space_inv U (vm, sp)" and run: "page_table_op v flags (vm, sp) = (r, (vm', sp'))"
  shows "descended U (vm, sp) v 2 r (vm', sp')"
proof -
  obtain r1 vm1 sp1 where 1: "vmm_next_table (cr3 sp) (table_index 0 v) flags 3 (vm, sp) = (r1, (vm1, sp1))" by (metis prod_cases3)
  have d1: "descended U (vm, sp) v 0 r1 (vm1, sp1)"
    by (rule next_table [OF inv, of v 0 "cr3 sp" flags]) (use 1 in simp_all)
  show ?thesis
  proof (cases r1)
    case (Ok t1)
    obtain r2 vm2 sp2 where 2: "vmm_next_table t1 (table_index 1 v) flags 2 (vm1, sp1) = (r2, (vm2, sp2))" by (metis prod_cases3)
    have d2: "descended U (vm, sp) v 1 r2 (vm2, sp2)"
      using descended_then [OF d1 [unfolded Ok], of flags r2 vm2 sp2] 2 by (simp add: numeral_2_eq_2)
    show ?thesis
    proof (cases r2)
      case ok2: (Ok t2)
      have "vmm_next_table t2 (table_index 2 v) flags 1 (vm2, sp2) = (r, (vm', sp'))"
        using run 1 2 Ok ok2 by (simp add: page_table_op_def bind_def)
      then show ?thesis
        using descended_then [OF d2 [unfolded ok2], of flags r vm' sp'] by (simp add: numeral_2_eq_2)
    next
      case Fail
      then have "r = Fail" "vm' = vm2" "sp' = sp2" using run 1 2 Ok by (simp_all add: page_table_op_def bind_def)
      then show ?thesis using descended_fail d2 Fail by blast
    next
      case Fault
      then show ?thesis using d2 by (auto simp: descended_def)
    qed
  next
    case Fail
    then have "r = Fail" "vm' = vm1" "sp' = sp1" using run 1 by (simp_all add: page_table_op_def bind_def)
    then show ?thesis using descended_fail d1 Fail by blast
  next
    case Fault
    then show ?thesis using d1 by (auto simp: descended_def)
  qed
qed

lemma grew_phys:
  assumes "grew (vm, sp) fs (vm1, sp1)"
  shows "grew (vm, sp) fs (vm1\<lparr>phys := m\<rparr>, sp1)"
proof -
  obtain p m0 where p: "vm1 = vm\<lparr>vm_pmm := p, phys := m0\<rparr>" "pmm_inv p" "used_pages p = used_pages (vm_pmm vm) \<union> set fs"
      "distinct fs" "set fs \<inter> used_pages (vm_pmm vm) = {}"
    using assms unfolding grew_def prod.case by blast
  have "vm1\<lparr>phys := m\<rparr> = vm\<lparr>vm_pmm := p, phys := m\<rparr>" using p(1) by simp
  then show ?thesis using p(2-5) assms unfolding grew_def prod.case by blast
qed

lemma map_page_unfold:
  "present sp \<Longrightarrow> cr3 sp \<noteq> 0 \<Longrightarrow> vmm_map_page virt phys_addr flags (vm, sp) =
   bind (page_table_op virt flags) (\<lambda>pt. modify (on_phys (set_entry pt (table_index 3 virt)
     ((phys_addr AND K64_PAGE_MASK) OR (flags AND 0xFFF) OR K64_PAGE_PRESENT)))) (vm, sp)"
  by (simp add: vmm_map_page_def page_table_op_def bind_def split: res.splits prod.splits)

text \<open>The effect of a call, as an update of the translation.\<close>

lemma map_page_effect:
  assumes inv: "space_inv U (vm, sp)" and run: "vmm_map_page virt phys_addr flags (vm, sp) = (r, (vm', sp'))"
  shows "\<exists>fs. grew (vm, sp) fs (vm', sp') \<and> space_inv (U \<union> set fs) (vm', sp') \<and> same_outside (U \<union> set fs) (phys vm) (phys vm') \<and>
    r \<noteq> Fault \<and> cr3 sp' = cr3 sp \<and>
    (\<forall>v req. r = Fail \<or> \<not> same_page v virt \<longrightarrow> walk (phys vm') req v 0 (cr3 sp) = walk (phys vm) req v 0 (cr3 sp)) \<and>
    (\<forall>v. r = Ok () \<and> same_page v virt \<longrightarrow> walk (phys vm') False v 0 (cr3 sp) = Some (page_of phys_addr + (v AND 0xFFF)))"
proof -
  obtain r1 vm1 sp1 where pt: "page_table_op virt flags (vm, sp) = (r1, (vm1, sp1))" by (metis prod_cases3)
  obtain fs where 1: "grew (vm, sp) fs (vm1, sp1)" "space_inv (U \<union> set fs) (vm1, sp1)" "same_outside (U \<union> set fs) (phys vm) (phys vm1)"
      "\<forall>req v'. walk (phys vm1) req v' 0 (cr3 sp) = walk (phys vm) req v' 0 (cr3 sp)" "r1 \<noteq> Fault"
      "\<forall>t. r1 = Ok t \<longrightarrow> tab (phys vm1) (cr3 sp1) virt (Suc 2) = Some t" "cr3 sp1 = cr3 sp"
    by (rule descendedE [OF page_table_descends [OF inv pt]])
  have run': "bind (page_table_op virt flags) (\<lambda>pt. modify (on_phys (set_entry pt (table_index 3 virt)
     ((phys_addr AND K64_PAGE_MASK) OR (flags AND 0xFFF) OR K64_PAGE_PRESENT)))) (vm, sp) = (r, (vm', sp'))"
    using run map_page_unfold [of sp virt phys_addr flags vm] inv by (simp add: space_inv_def)
  show ?thesis
  proof (cases r1)
    case (Ok t)
    let ?e = "(phys_addr AND K64_PAGE_MASK) OR (flags AND 0xFFF) OR K64_PAGE_PRESENT"
    have st: "r = Ok ()" "sp' = sp1" "vm' = vm1\<lparr>phys := set_entry t (table_index 3 virt) ?e (phys vm1)\<rparr>"
      using run' pt Ok by (simp_all add: bind_def)
    have tree: "tree_ok (phys vm1) (cr3 sp) (U \<union> set fs)" using space_inv_D(2) [OF 1(2)] 1(7) by simp
    have T: "tab (phys vm1) (cr3 sp) virt 3 = Some t" using 1(6,7) Ok by (simp add: numeral_3_eq_3 numeral_2_eq_2)
    have tU: "page_aligned t" "t \<in> U \<union> set fs" using tree_okD(1) [OF tree _ T] by simp_all
    note tw = tree_page_write [OF tree T, of ?e]
    have e: "bit ?e 0" "?e AND K64_PAGE_MASK = page_of phys_addr"
    proof -
      show "bit ?e 0" by (simp add: bit_or_iff K64_PAGE_PRESENT_def)
      show "?e AND K64_PAGE_MASK = page_of phys_addr"
        by (rule bit_word_eqI) (auto simp: bit_or_iff bit_and_iff mask_bits K64_PAGE_PRESENT_def bit_1_iff simp del: word_bit_numerals)
    qed
    note ww = walk_page_write [OF tree T refl, of _ 0 "cr3 sp", simplified]
    have "grew (vm, sp) fs (vm', sp')" unfolding st by (rule grew_phys [OF 1(1)])
    moreover have "space_inv (U \<union> set fs) (vm', sp')" using 1(2,7) tw unfolding st space_inv_def by simp
    moreover have "same_outside (U \<union> set fs) (phys vm) (phys vm')"
      using 1(3) tU unfolding st same_outside_def by (auto simp: outside_entry table_index_less)
    ultimately show ?thesis using ww e 1(4,7) st by auto
  next
    case Fail
    then have "r = Fail" "vm' = vm1" "sp' = sp1" using run' pt by (simp_all add: bind_def)
    then show ?thesis using 1 by auto
  next
    case Fault
    then show ?thesis using 1(5) by simp
  qed
qed

section \<open>Enough frames\<close>

definition free_count :: "pmm \<Rightarrow> nat" where
  "free_count p = card {f. f < frame_limit p \<and> \<not> test_frame p f}"

lemma alloc_frame_some:
  assumes inv: "pmm_inv p" and free: "0 < free_count p"
  obtains a p' where "k64_pmm_alloc_frame p = (a, p')" "a \<noteq> 0" "free_count p' = free_count p - 1"
proof -
  obtain a p' where alloc: "k64_pmm_alloc_frame p = (a, p')" by (cases "k64_pmm_alloc_frame p")
  show ?thesis using alloc
  proof (cases rule: alloc_frame_cases)
    case 1
    then have none: "{f. f < frame_limit p \<and> \<not> test_frame p f} = {}" by blast
    show ?thesis using free unfolding free_count_def none by simp
  next
    case (2 f)
    have "f \<noteq> 0" using 2(3) inv unfolding pmm_inv_def by metis
    moreover have "{g. g < frame_limit p' \<and> \<not> test_frame p' g} = {g. g < frame_limit p \<and> \<not> test_frame p g} - {f}"
      using 2 inv by (auto simp: pmm_inv_def test_set_frame frame_limit_def)
    then have "free_count p' = free_count p - 1" using 2(1,3) by (simp add: free_count_def)
    ultimately show ?thesis using that [OF alloc] 2 by (simp add: K64_FRAME_SIZE_def)
  qed
qed

definition table_room :: "vmm \<times> k64_vm_space \<Rightarrow> nat \<Rightarrow> bool" where
  "table_room st n \<longleftrightarrow> n \<le> free_count (vm_pmm (fst st)) \<and>
     page_table_frame_count (snd st) + n \<le> length (page_table_frames (snd st))"

lemma alloc_table_frame_some:
  assumes "pmm_inv (vm_pmm vm)" and "table_room (vm, sp) (Suc n)"
  shows "\<exists>f st'. vmm_alloc_table_frame (vm, sp) = (Ok f, st') \<and> table_room st' n"
proof -
  obtain a p' where "k64_pmm_alloc_frame (vm_pmm vm) = (a, p')" "a \<noteq> 0" "free_count p' = free_count (vm_pmm vm) - 1"
    using alloc_frame_some [OF assms(1)] assms(2) by (auto simp: table_room_def)
  then show ?thesis using assms(2) by (auto simp: vmm_alloc_table_frame_def vmm_record_frame_def table_room_def)
qed

lemma next_table_some:
  assumes "pmm_inv (vm_pmm vm)" and "table_room (vm, sp) (Suc n)" and l: "l = 1 \<or> l = 2 \<or> \<not> is_large (entry (phys vm) T i)"
  shows "\<exists>f st'. vmm_next_table T i flags l (vm, sp) = (Ok f, st') \<and> table_room st' n"
proof -
  obtain f st' where a: "vmm_alloc_table_frame (vm, sp) = (Ok f, st')" "table_room st' n"
    using alloc_table_frame_some [OF assms(1,2)] by blast
  have "table_room (vm, sp) n" using assms(2) by (simp add: table_room_def)
  moreover have "table_room (on_phys g s) n = table_room s n" for g s by (simp add: table_room_def)
  ultimately show ?thesis using a l
    by (auto simp: vmm_next_table_def vmm_split_large_page_def Let_def bind_def table_room_def)
qed

lemma next_table_inv:
  assumes "pmm_inv (vm_pmm vm)"
  shows "pmm_inv (vm_pmm (fst (snd (vmm_next_table T i flags l (vm, sp)))))"
proof (cases rule: alloc_table_frame_cases [OF assms, of sp])
  case (1 vm')
  then show ?thesis using assms by (auto simp: vmm_next_table_def vmm_split_large_page_def Let_def bind_def took_none_def)
next
  case (2 f vm')
  then show ?thesis using assms by (auto simp: vmm_next_table_def vmm_split_large_page_def Let_def bind_def took_frame_def)
qed

text \<open>Three frames and three entries of the record are enough for a page, if the root has no large entry.\<close>

lemma map_page_some:
  assumes inv: "pmm_inv (vm_pmm vm)" and sp: "present sp" "cr3 sp \<noteq> 0" and room: "table_room (vm, sp) 3"
    and root: "\<not> is_large (entry (phys vm) (cr3 sp) (table_index 0 virt))"
  shows "\<exists>st'. vmm_map_page virt phys_addr flags (vm, sp) = (Ok (), st')"
proof -
  obtain t1 vm1 sp1 where 1: "vmm_next_table (cr3 sp) (table_index 0 virt) flags 3 (vm, sp) = (Ok t1, (vm1, sp1))" "table_room (vm1, sp1) 2"
    using next_table_some [OF inv, of sp 2 3 "cr3 sp" "table_index 0 virt" flags] room root by (auto simp: numeral_3_eq_3)
  have inv1: "pmm_inv (vm_pmm vm1)" using next_table_inv [OF inv, of "cr3 sp" "table_index 0 virt" flags 3 sp] 1(1) by simp
  obtain t2 vm2 sp2 where 2: "vmm_next_table t1 (table_index 1 virt) flags 2 (vm1, sp1) = (Ok t2, (vm2, sp2))" "table_room (vm2, sp2) 1"
    using next_table_some [OF inv1, of sp1 1 2 t1 "table_index 1 virt" flags] 1(2) by (auto simp: numeral_2_eq_2)
  have inv2: "pmm_inv (vm_pmm vm2)" using next_table_inv [OF inv1, of t1 "table_index 1 virt" flags 2 sp1] 2(1) by simp
  obtain t3 vm3 sp3 where 3: "vmm_next_table t2 (table_index 2 virt) flags 1 (vm2, sp2) = (Ok t3, (vm3, sp3))"
    using next_table_some [OF inv2, of sp2 0 1 t2 "table_index 2 virt" flags] 2(2) by auto
  show ?thesis using sp 1(1) 2(1) 3 by (simp add: vmm_map_page_def bind_def)
qed

section \<open>The translation is a map\<close>

definition space_ok :: "vmm \<times> k64_vm_space \<Rightarrow> bool" where
  "space_ok st \<longleftrightarrow> (\<exists>U. space_inv U st)"

lemma space_ok_translate: "space_ok (vm, sp) \<Longrightarrow> vmm_translate m sp v req = walk m req v 0 (cr3 sp)"
  by (auto simp: space_ok_def space_inv_def vmm_translate_walk)

text \<open>C17: mapping a page is an update of the address translation at that page. From a space whose tables form a
  tree, \<open>vmm_map_page\<close> keeps the tree; whether it succeeds or runs out of frames, every address of another page
  translates as before, for kernel and for user accesses, even where a large page had to be split; when it
  succeeds, the addresses of the page translate to the frame given; and with three free frames and three free
  entries in the record of table frames it succeeds.\<close>

theorem map_page_updates_translation:
  assumes ok: "space_ok (vm, sp)" and run: "vmm_map_page virt phys_addr flags (vm, sp) = (r, (vm', sp'))"
  shows "space_ok (vm', sp') \<and>
    (\<forall>v req. r \<noteq> Ok () \<or> \<not> same_page v virt \<longrightarrow> vmm_translate (phys vm') sp' v req = vmm_translate (phys vm) sp v req) \<and>
    (\<forall>v. r = Ok () \<and> same_page v virt \<longrightarrow> vmm_translate (phys vm') sp' v False = Some (page_of phys_addr + (v AND 0xFFF))) \<and>
    (table_room (vm, sp) 3 \<and> \<not> is_large (entry (phys vm) (cr3 sp) (table_index 0 virt)) \<longrightarrow> r = Ok ())"
proof -
  obtain U where inv: "space_inv U (vm, sp)" using ok by (auto simp: space_ok_def)
  obtain fs where fs: "space_inv (U \<union> set fs) (vm', sp')" "r \<noteq> Fault" "cr3 sp' = cr3 sp"
      "\<forall>v req. r = Fail \<or> \<not> same_page v virt \<longrightarrow> walk (phys vm') req v 0 (cr3 sp) = walk (phys vm) req v 0 (cr3 sp)"
      "\<forall>v. r = Ok () \<and> same_page v virt \<longrightarrow> walk (phys vm') False v 0 (cr3 sp) = Some (page_of phys_addr + (v AND 0xFFF))"
    using map_page_effect [OF inv run] by blast
  have ok': "space_ok (vm', sp')" using fs(1) by (auto simp: space_ok_def)
  have r: "r \<noteq> Ok () \<Longrightarrow> r = Fail" using fs(2) by (cases r) auto
  have "r = Ok ()" if "table_room (vm, sp) 3" "\<not> is_large (entry (phys vm) (cr3 sp) (table_index 0 virt))"
  proof -
    have "\<exists>st'. vmm_map_page virt phys_addr flags (vm, sp) = (Ok (), st')"
      by (rule map_page_some [OF _ _ _ that]) (use inv in \<open>simp_all add: space_inv_def\<close>)
    then show ?thesis using run by auto
  qed
  then show ?thesis
    unfolding space_ok_translate [OF ok] space_ok_translate [OF ok'] fs(3) using fs(4,5) r ok' by blast
qed

text \<open>A kernel with an empty root table in frame 1, on sixteen frames, the first three in use.\<close>

definition sample_pmm :: pmm where
  "sample_pmm = \<lparr>pmm_bitmap = (replicate 131072 0)[0 := 7], total_frames = 16, used_frames = 3\<rparr>"

definition sample_vmm :: vmm where
  "sample_vmm = \<lparr>service_slot_used = replicate 256 False, kernel_cr3 = 0x1000, kernel_mapping_space = blank_space,
     next_mmio_virt = K64_MMIO_BASE, vm_pmm = sample_pmm, phys = (\<lambda>_. 0)\<rparr>"

definition sample_space :: k64_vm_space where
  "sample_space = blank_space\<lparr>present := True, cr3 := 0x1000\<rparr>"

lemma entry_zero [simp]: "entry (\<lambda>_. 0) t i = 0"
proof -
  have "get_bytes a 8 (\<lambda>_. 0) = replicate 8 0" for a by (simp add: get_bytes_def map_replicate_const)
  then show ?thesis unfolding entry_def by (simp only: le_dec_replicate_0)
qed

lemma sample_frames: "test_frame sample_pmm f \<longleftrightarrow> f < 3" if "f < K64_MAX_FRAMES"
proof -
  have "bitmap_bit ((replicate 131072 0)[0 := 7]) f \<longleftrightarrow> f < 3"
  proof (cases "f < 8")
    case True
    have "(7 :: u8) = mask 3" by (simp add: mask_eq_exp_minus_1)
    then have "bit (7 :: u8) f \<longleftrightarrow> f < 3" by (simp only: bit_mask_iff) auto
    then show ?thesis using True by (simp add: bitmap_bit_def del: word_bit_numerals)
  next
    case False
    then show ?thesis using that by (simp add: bitmap_bit_def K64_MAX_FRAMES_def)
  qed
  then show ?thesis by (simp add: test_frame_bit sample_pmm_def)
qed

lemma sample_inv: "pmm_inv sample_pmm" "free_count sample_pmm = 13"
proof -
  show "pmm_inv sample_pmm"
    using sample_frames [of 0] by (simp add: pmm_inv_def pmm_wf_def K64_MAX_FRAMES_def, simp add: sample_pmm_def)
  have "frame_limit sample_pmm = 16" by (simp add: frame_limit_def sample_pmm_def K64_MAX_FRAMES_def)
  then have "{f. f < frame_limit sample_pmm \<and> \<not> test_frame sample_pmm f} = {3..<16}"
    using sample_frames by (auto simp: K64_MAX_FRAMES_def)
  then show "free_count sample_pmm = 13" by (simp add: free_count_def)
qed

lemma tab_zero: "tab (\<lambda>_. 0) root v (Suc d) = None"
  by (induction d) simp_all

lemma sample_used: "(0x1000 :: u64) \<in> used_pages sample_pmm" "(0x2000 :: u64) \<in> used_pages sample_pmm"
  using used_page_iff [of 4096 sample_pmm] sample_frames [of 1] in_use_frame [of 1 sample_pmm]
    used_page_iff [of 8192 sample_pmm] sample_frames [of 2] in_use_frame [of 2 sample_pmm]
  by (simp_all add: K64_MAX_FRAMES_def K64_FRAME_SIZE_def)

lemma sample_ok: "space_ok (sample_vmm, sample_space)"
proof -
  note sample_used(1)
  moreover have root: "d = 0 \<and> t = 0x1000" if "tab (\<lambda>_. 0) 0x1000 v d = Some t" for v d t
    using that tab_zero by (cases d) auto
  then have "tree_ok (\<lambda>_. 0) 0x1000 {0x1000}" unfolding tree_ok_def by (auto simp: page_aligned_def path_def dest: root)
  ultimately have "space_inv {0x1000} (sample_vmm, sample_space)"
    using sample_inv by (simp add: space_inv_def sample_vmm_def sample_space_def blank_space_def)
  then show ?thesis by (auto simp: space_ok_def)
qed

lemma sample_room_3: "table_room (sample_vmm, sample_space) 3"
  by (simp add: table_room_def sample_vmm_def sample_inv sample_space_def blank_space_def)

theorem map_page_updates_translation_witness:
  "\<exists>vm' sp'. vmm_map_page 0x100000000 0x5000 2 (sample_vmm, sample_space) = (Ok (), (vm', sp')) \<and>
     vmm_translate (phys vm') sp' 0x100000123 False = Some 0x5123 \<and>
     vmm_translate (phys vm') sp' 0x100001123 False = vmm_translate (phys sample_vmm) sample_space 0x100001123 False"
proof -
  obtain r vm' sp' where run: "vmm_map_page 0x100000000 0x5000 2 (sample_vmm, sample_space) = (r, (vm', sp'))" by (metis prod_cases3)
  have root: "\<not> is_large (entry (phys sample_vmm) (cr3 sample_space) (table_index 0 0x100000000))" by (simp add: sample_vmm_def)
  have "same_page 0x100000123 0x100000000" "\<not> same_page 0x100001123 0x100000000" by code_simp+
  then show ?thesis
    using map_page_updates_translation [OF sample_ok run] run sample_room_3 root
    by (auto simp: K64_PAGE_MASK_def K64_PAGE_SIZE_def)
qed

end
