(* ===== verification/Vmm_User.thy ===== *)
theory Vmm_User
  imports Vmm_Props
begin

text \<open>
  Copies from and to user memory, page by page, against the bytewise meaning of the page tables.
\<close>

section \<open>Translation inside a page\<close>

lemma index_page: "d \<le> 3 \<Longrightarrow> table_index d (page_of v) = table_index d v"
proof -
  assume d: "d \<le> 3"
  have "drop_bit (39 - 9 * d) (page_of v) AND 0x1FF = drop_bit (39 - 9 * d) v AND 0x1FF"
    by (rule bit_word_eqI) (use d in \<open>auto simp: bit_and_iff bit_drop_bit_eq mask_bits simp del: word_bit_numerals\<close>)
  then show ?thesis by (simp add: table_index_def)
qed

lemma low_bits_split: "v AND (2 ^ n - 1) = (page_of v AND (2 ^ n - 1)) + (v AND 0xFFF)" if "12 \<le> n" "n < 64" for v :: u64
proof -
  have m: "(2 ^ n - 1 :: u64) = mask n" by (simp add: mask_eq_exp_minus_1)
  have "(page_of v AND mask n) AND (v AND 0xFFF) = 0"
    by (rule bit_eqI) (auto simp: bit_and_iff mask_bits simp del: word_bit_numerals)
  then have "(page_of v AND mask n) + (v AND 0xFFF) = (page_of v AND mask n) OR (v AND 0xFFF)" by (rule disjunctive_add_eq_or)
  moreover have "\<dots> = v AND mask n"
    by (rule bit_word_eqI) (use that in \<open>auto simp: bit_and_iff bit_or_iff bit_mask_iff mask_bits simp del: word_bit_numerals\<close>)
  ultimately show ?thesis unfolding m by simp
qed

lemma aligned_bitsI: "(\<And>k. k < 12 \<Longrightarrow> \<not> bit t k) \<Longrightarrow> page_aligned t"
proof -
  assume low: "\<And>k. k < 12 \<Longrightarrow> \<not> bit t k"
  have "12 \<le> k" if "bit t k" for k using low [of k] that by (meson not_less)
  then have "page_of t = t" by (intro bit_word_eqI) (auto simp: bit_and_iff bit_page_mask)
  then show ?thesis by (metis masked_aligned)
qed

lemma aligned_add: "page_aligned a \<Longrightarrow> page_aligned b \<Longrightarrow> page_aligned (a + b)"
proof -
  assume "page_aligned a" "page_aligned b"
  then have z: "(unat a + unat b) mod 4096 = 0" by (simp add: page_aligned_def mod_add_eq [symmetric])
  have "unat (a + b) = (unat a + unat b) mod 18446744073709551616" by (simp add: unat_word_ariths)
  then have "unat (a + b) mod 4096 = (unat a + unat b) mod 4096" by (simp add: mod_mod_cancel)
  then show ?thesis using z by (simp add: page_aligned_def)
qed

lemma large_target_page: "large_target d e v = large_target d e (page_of v) + (v AND 0xFFF)"
  using low_bits_split [of 30 v] low_bits_split [of 21 v] by (simp add: large_target_def)

lemma large_target_aligned: "page_aligned (large_target d e (page_of v))"
proof -
  have "page_aligned (x AND y)" if "\<And>k. k < 12 \<Longrightarrow> \<not> bit (y :: u64) k" for x y
    using that by (intro aligned_bitsI) (simp add: bit_and_iff)
  note al = this
  have "page_aligned (e AND 0xFFFFFC0000000)" "page_aligned (e AND 0xFFFFFFE00000)"
    by (rule al, simp add: mask_bits del: word_bit_numerals)+
  moreover have "page_aligned (page_of v AND y)" for y
    by (rule aligned_bitsI) (simp add: bit_and_iff bit_page_mask)
  ultimately show ?thesis by (simp add: large_target_def aligned_add)
qed

lemma walk_page:
  assumes "d \<le> 3"
  shows "walk m req v d t = map_option (\<lambda>a. a + (v AND 0xFFF)) (walk m req (page_of v) d t)"
    and "walk m req (page_of v) d t = Some a \<Longrightarrow> page_aligned a"
proof -
  have z: "page_of v AND 0xFFF = 0" by (rule bit_eqI) (auto simp: bit_and_iff mask_bits simp del: word_bit_numerals)
  have "walk m req v d t = map_option (\<lambda>a. a + (v AND 0xFFF)) (walk m req (page_of v) d t) \<and>
    (\<forall>a. walk m req (page_of v) d t = Some a \<longrightarrow> page_aligned a)"
    using assms
  proof (induction "3 - d" arbitrary: d t)
    case 0
    then have "d = 3" by simp
    then show ?case using z by (subst (1 2 3) walk.simps) (auto simp: Let_def index_page)
  next
    case (Suc n)
    then have d: "d < 3" "n = 3 - Suc d" "Suc d \<le> 3" by simp_all
    note IH = Suc.hyps(1) [OF d(2,3)]
    let ?e = "entry m t (table_index d v)"
    have ix: "table_index d (page_of v) = table_index d v" using d(1) by (intro index_page) simp
    show ?case
      using IH [of "page_of ?e"] d(1) large_target_page [of d ?e v] large_target_aligned [of d ?e v]
      unfolding walk.simps [of m req v d t] walk.simps [of m req "page_of v" d t] ix Let_def by simp
  qed
  then show "walk m req v d t = map_option (\<lambda>a. a + (v AND 0xFFF)) (walk m req (page_of v) d t)"
    and "walk m req (page_of v) d t = Some a \<Longrightarrow> page_aligned a" by blast+
qed

lemma and_page_offset: "unat (v AND 0xFFF) = unat (v :: u64) mod 4096"
proof -
  have "v AND 0xFFF = v AND mask 12" by (simp add: mask_eq_exp_minus_1)
  also have "\<dots> = v mod 4096" by (simp add: take_bit_eq_mask [symmetric] take_bit_eq_mod)
  finally show ?thesis by (simp add: unat_mod)
qed

lemma in_page_add:
  assumes "unat v mod 4096 + k < 4096"
  shows "page_of (v + of_nat k) = page_of v" "(v + of_nat k) AND 0xFFF = (v AND 0xFFF) + of_nat k"
proof -
  obtain q where q: "unat v = 4096 * q + unat v mod 4096" by (metis mult_div_mod_eq)
  have "q < 4503599627370496" using q unat_lt [of v] by simp
  then have u: "unat (v + of_nat k) = unat v + k"
    using q assms by (subst unat_add_no_wrap) (simp_all add: unat_of_nat_small)
  have dv: "(unat v + k) div 4096 = unat v div 4096" "(unat v + k) mod 4096 = unat v mod 4096 + k"
  proof -
    have e: "unat v + k = (unat v mod 4096 + k) + 4096 * q" using q by simp
    have qd: "unat v div 4096 = q" using arg_cong [OF q, of "\<lambda>x. x div 4096"] by simp
    show "(unat v + k) div 4096 = unat v div 4096" "(unat v + k) mod 4096 = unat v mod 4096 + k"
      unfolding e qd using assms by simp_all
  qed
  show "page_of (v + of_nat k) = page_of v" unfolding word_unat_eq_iff page_of_unat u dv ..
  have "unat ((v AND 0xFFF) + of_nat k) = unat v mod 4096 + k"
    using assms by (subst unat_add_no_wrap) (simp_all add: and_page_offset unat_of_nat_small)
  then show "(v + of_nat k) AND 0xFFF = (v AND 0xFFF) + of_nat k"
    unfolding word_unat_eq_iff and_page_offset u dv(2) by simp
qed

text \<open>Addresses of one page are translated together.\<close>

lemma translate_in_page:
  assumes "unat v mod 4096 + k < 4096"
  shows "vmm_translate m sp (v + of_nat k) req = map_option (\<lambda>a. a + of_nat k) (vmm_translate m sp v req)"
proof -
  have "walk m req (v + of_nat k) 0 t = map_option (\<lambda>a. a + of_nat k) (walk m req v 0 t)" for t
    by (subst (1 2) walk_page(1)) (simp_all add: in_page_add [OF assms] option.map_comp o_def add.assoc)
  then show ?thesis by (simp add: vmm_translate_walk)
qed

section \<open>Reading\<close>

abbreviation user_mapped :: "phys_mem \<Rightarrow> k64_vm_space \<Rightarrow> u64 \<Rightarrow> bool" where
  "user_mapped m sp a \<equiv> vmm_translate m sp a True \<noteq> None"

definition user_target :: "phys_mem \<Rightarrow> k64_vm_space \<Rightarrow> u64 \<Rightarrow> u64" where
  "user_target m sp a = the (vmm_translate m sp a True)"

lemma chunk_in_page:
  "k < user_chunk v n i \<Longrightarrow> unat (v + of_nat i) mod 4096 + k < 4096" "user_chunk v n i \<le> n - i"
  using and_page_offset [of "v + of_nat i"] by (auto simp: user_chunk_def K64_PAGE_SIZE_def)

lemma chunk_target:
  assumes "vmm_translate m sp (v + of_nat i) True = Some a" and "k < user_chunk v n i"
  shows "vmm_translate m sp (v + of_nat (i + k)) True = Some (a + of_nat k)"
  using translate_in_page [OF chunk_in_page(1) [OF assms(2)], of m sp True] assms(1) by (simp add: add.assoc)

lemma read_user_from_bytes:
  "length out \<le> n \<Longrightarrow> read_user_from m sp v n out =
     (if list_all (\<lambda>i. user_mapped m sp (v + of_nat i)) [length out..<n]
      then Some (out @ map (\<lambda>i. m (user_target m sp (v + of_nat i))) [length out..<n]) else None)"
proof (induction m sp v n out rule: read_user_from.induct)
  case (1 m sp v n out)
  let ?l = "length out"
  let ?c = "user_chunk v n ?l"
  show ?case
  proof (cases "?l < n")
    case False
    then show ?thesis using "1.prems" by (subst read_user_from.simps) simp
  next
    case True
    have up: "[?l..<n] = [?l..<?l + ?c] @ [?l + ?c..<n]"
      using chunk_in_page(2) [of v n ?l] upt_add_eq_append [of ?l "?l + ?c" "n - (?l + ?c)"] True by simp
    have first: "?l \<in> set [?l..<n]" using True by simp
    show ?thesis
    proof (cases "vmm_translate m sp (v + of_nat ?l) True")
      case None
      then have "\<not> list_all (\<lambda>i. user_mapped m sp (v + of_nat i)) [?l..<n]" using first by (auto simp: list_all_iff)
      then show ?thesis using True None by (subst read_user_from.simps) simp
    next
      case (Some a)
      let ?out = "out @ get_bytes a ?c m"
      have len: "length ?out = ?l + ?c" by (simp add: get_bytes_def)
      have le: "length ?out \<le> n" using len chunk_in_page(2) [of v n ?l] True by simp
      have t: "vmm_translate m sp (v + of_nat (?l + k)) True = Some (a + of_nat k)" if "k < ?c" for k
        by (rule chunk_target [OF Some that])
      have "user_mapped m sp (v + of_nat i)" if "i \<in> set [?l..<?l + ?c]" for i
        using t [of "i - ?l"] that by auto
      then have "list_all (\<lambda>i. user_mapped m sp (v + of_nat i)) [?l..<?l + ?c]" by (simp add: list_all_iff)
      moreover have "map (\<lambda>i. m (user_target m sp (v + of_nat i))) [?l..<?l + ?c] = get_bytes a ?c m"
        unfolding get_bytes_def by (rule nth_equalityI) (use t in \<open>simp_all add: user_target_def del: of_nat_add\<close>)
      moreover have "read_user_from m sp v n out = read_user_from m sp v n ?out"
        using True Some by (subst read_user_from.simps) simp
      ultimately show ?thesis using "1.IH" [OF True Some le] unfolding up len by simp
    qed
  qed
qed

text \<open>C18: reading user memory page by page is reading it byte by byte through the page tables. It succeeds exactly
  when the range does not wrap around and each of its bytes is mapped for user access, and then returns
  the bytes the tables lead to; a range with one byte that is missing or reserved to the kernel is refused.\<close>

theorem read_user_bytewise:
  "k64_vmm_read_user m sp v n =
     (if \<not> vmm_range_overflows v n \<and> list_all (\<lambda>i. user_mapped m sp (v + of_nat i)) [0..<unat n]
      then Some (map (\<lambda>i. m (user_target m sp (v + of_nat i))) [0..<unat n]) else None)"
  using read_user_from_bytes [of "[]" "unat n" m sp v] by (simp add: k64_vmm_read_user_def)

section \<open>Writing\<close>

text \<open>Memory outside the tables does not matter for the walk.\<close>

lemma entry_same_page:
  assumes "page_aligned t" and "i < 512" and "\<And>a. page_of a = t \<Longrightarrow> m' a = m a"
  shows "entry m' t i = entry m t i"
proof -
  have "page_of (t + of_nat (8 * i) + of_nat k) = t" if "k < 8" for k
    using in_page_iff [OF assms(1), of "t + of_nat (8 * i) + of_nat k"] unat_entry_byte [OF assms(1,2) that] that assms(2) by simp
  then have "get_bytes (t + of_nat (8 * i)) 8 m' = get_bytes (t + of_nat (8 * i)) 8 m"
    unfolding get_bytes_def by (intro map_cong) (simp_all add: assms(3) del: of_nat_mult)
  then show ?thesis by (simp add: entry_def del: of_nat_mult)
qed

lemma walk_tables_only:
  assumes ok: "tree_ok m root U" and same: "\<And>a. page_of a \<in> U \<Longrightarrow> m' a = m a" and t: "tab m root v d = Some t" "d \<le> 3"
  shows "walk m' req v d t = walk m req v d t"
  using t
proof (induction "3 - d" arbitrary: d t)
  case 0
  then have "page_aligned t" "t \<in> U" using tree_okD(1) [OF ok] by auto
  then have "entry m' t (table_index d v) = entry m t (table_index d v)" using same by (intro entry_same_page) (auto simp: table_index_less)
  then show ?case using 0 by (subst (1 2) walk.simps) (simp add: Let_def)
next
  case (Suc n)
  then have d: "d < 3" "n = 3 - Suc d" "Suc d \<le> 3" by simp_all
  have "page_aligned t" "t \<in> U" using tree_okD(1) [OF ok _ Suc.prems(1)] d(1) by auto
  then have e: "entry m' t (table_index d v) = entry m t (table_index d v)" using same by (intro entry_same_page) (auto simp: table_index_less)
  let ?e = "entry m t (table_index d v)"
  show ?case
  proof (cases "entry_allows req ?e \<and> \<not> (d \<ge> 1 \<and> is_large ?e)")
    case True
    then have "tab m root v (Suc d) = Some (page_of ?e)" using Suc.prems(1) by (auto simp: Let_def allows_bits present_bit)
    then show ?thesis using Suc.hyps(1) [OF d(2) _ d(3)] e d(1) by (subst (1 2) walk.simps) (simp add: Let_def)
  next
    case False
    then show ?thesis using e d(1) by (subst (1 2) walk.simps) (auto simp: Let_def)
  qed
qed

text \<open>Memory after the first \<open>k\<close> bytes of \<open>data\<close> are written.\<close>

definition written :: "phys_mem \<Rightarrow> (nat \<Rightarrow> u64) \<Rightarrow> bytes \<Rightarrow> nat \<Rightarrow> phys_mem" where
  "written m target data k a = (case find (\<lambda>i. target i = a) [0..<k] of Some i \<Rightarrow> data ! i | None \<Rightarrow> m a)"

lemma written_at:
  assumes inj: "inj_on target {..<n}" and i: "i < k" "k \<le> n"
  shows "written m target data k (target i) = data ! i"
proof -
  have "find (\<lambda>j. target j = target i) [0..<k] = Some i"
    using i inj_on_eq_iff [OF inj] by (auto simp: find_Some_iff intro!: exI [of _ i])
  then show ?thesis by (simp add: written_def)
qed

lemma written_other: "(\<And>i. i < k \<Longrightarrow> target i \<noteq> a) \<Longrightarrow> written m target data k a = m a"
proof -
  assume "\<And>i. i < k \<Longrightarrow> target i \<noteq> a"
  then have "find (\<lambda>i. target i = a) [0..<k] = None" by (simp add: find_None_iff)
  then show ?thesis by (simp add: written_def)
qed

lemma written_chunk:
  assumes inj: "inj_on target {..<length data}" and i: "i + c \<le> length data"
    and run: "\<And>k. k < c \<Longrightarrow> target (i + k) = dst + of_nat k" and c: "c \<le> 4096"
  shows "put_bytes dst (bytes_at i c data) (written m target data i) = written m target data (i + c)"
proof
  fix a
  have len: "length (bytes_at i c data) = c" using i by simp
  show "put_bytes dst (bytes_at i c data) (written m target data i) a = written m target data (i + c) a"
  proof (cases "unat (a - dst) < c")
    case True
    let ?k = "unat (a - dst)"
    have "target (i + ?k) = a" using run [OF True] by simp
    then have "written m target data (i + c) a = data ! (i + ?k)"
      using written_at [OF inj, of "i + ?k" "i + c" m data] True i by simp
    then show ?thesis using True len i by (simp add: put_bytes_def nth_bytes_at)
  next
    case False
    have ne: "target (i + k) \<noteq> a" if "k < c" for k
    proof
      assume "target (i + k) = a"
      then have "a = dst + of_nat k" using run [OF that] by simp
      then have "a - dst = of_nat k" by simp
      then have "unat (a - dst) = k" using that c by (simp add: unat_of_nat_small)
      then show False using that False by simp
    qed
    have "find (\<lambda>j. target j = a) [i..<i + c] = None" using ne by (auto simp: find_None_iff) (metis add_diff_inverse_nat add_less_cancel_left not_less)
    then have "written m target data (i + c) a = written m target data i a"
      unfolding written_def upt_add_eq_append [OF le0] find_append by (simp split: option.splits)
    then show ?thesis using False len by (simp add: put_bytes_def)
  qed
qed

text \<open>A range of user memory: mapped, on frames that hold no tables, and no byte at two places.\<close>

definition user_range :: "phys_mem \<Rightarrow> k64_vm_space \<Rightarrow> u64 set \<Rightarrow> u64 \<Rightarrow> nat \<Rightarrow> bool" where
  "user_range m sp U v n \<longleftrightarrow> list_all (\<lambda>i. user_mapped m sp (v + of_nat i)) [0..<n] \<and>
     (\<forall>i<n. page_of (user_target m sp (v + of_nat i)) \<notin> U) \<and> inj_on (\<lambda>i. user_target m sp (v + of_nat i)) {..<n}"

lemma written_translate:
  assumes ok: "tree_ok m (cr3 sp) U" and rng: "user_range m sp U v n" and k: "k \<le> n"
  shows "vmm_translate (written m (\<lambda>i. user_target m sp (v + of_nat i)) data k) sp a req = vmm_translate m sp a req"
proof -
  define m' where "m' = written m (\<lambda>i. user_target m sp (v + of_nat i)) data k"
  have same: "m' a = m a" if "page_of a \<in> U" for a
    unfolding m'_def
  proof (rule written_other)
    fix i assume "i < k"
    then have "page_of (user_target m sp (v + of_nat i)) \<notin> U" using rng k by (simp add: user_range_def)
    then show "user_target m sp (v + of_nat i) \<noteq> a" using that by auto
  qed
  have "walk m' req a 0 (cr3 sp) = walk m req a 0 (cr3 sp)" by (rule walk_tables_only [OF ok same]) simp_all
  then show ?thesis by (simp add: vmm_translate_walk m'_def)
qed

lemma write_user_from_bytes:
  assumes ok: "tree_ok m (cr3 sp) U" and rng: "user_range m sp U v (length data)" and i: "i \<le> length data"
  shows "write_user_from sp v data i (written m (\<lambda>i. user_target m sp (v + of_nat i)) data i) =
    (Ok (), written m (\<lambda>i. user_target m sp (v + of_nat i)) data (length data))"
  using i
proof (induction "length data - i" arbitrary: i rule: less_induct)
  case less
  let ?t = "\<lambda>i. user_target m sp (v + of_nat i)"
  let ?c = "user_chunk v (length data) i"
  show ?case
  proof (cases "i < length data")
    case False
    then show ?thesis using less.prems by (subst write_user_from.simps) simp
  next
    case True
    have "user_mapped m sp (v + of_nat i)" using rng True by (simp add: user_range_def list_all_iff)
    then obtain dst where dst: "vmm_translate m sp (v + of_nat i) True = Some dst" by blast
    have run: "?t (i + k) = dst + of_nat k" if "k < ?c" for k
      unfolding user_target_def using chunk_target [OF dst that] by simp
    have c: "0 < ?c" "i + ?c \<le> length data" "?c \<le> 4096"
      using user_chunk_pos [OF True, of v] chunk_in_page(2) [of v "length data" i] True by (auto simp: user_chunk_def K64_PAGE_SIZE_def)
    have inj: "inj_on ?t {..<length data}" using rng by (simp add: user_range_def)
    have tr: "vmm_translate (written m ?t data i) sp (v + of_nat i) True = Some dst"
      using written_translate [OF ok rng less.prems] dst by simp
    have "write_user_from sp v data i (written m ?t data i) = write_user_from sp v data (i + ?c) (written m ?t data (i + ?c))"
      using True tr written_chunk [OF inj c(2) run c(3), of m] by (subst write_user_from.simps) (simp add: Let_def)
    also have "\<dots> = (Ok (), written m ?t data (length data))" by (rule less.hyps) (use c True in auto)
    finally show ?thesis .
  qed
qed

text \<open>What is written to user memory can be read back. On a space whose tables form a tree, a write to a mapped
  range whose frames are not tables and are not shared inside the range succeeds; reading the range then
  returns the data, the translation of every address is what it was, and memory the range does not map to is
  unchanged.\<close>

theorem user_write_read_roundtrip:
  assumes inv: "space_inv U (vm, sp)" and m: "m = phys vm" and rng: "user_range m sp U v (length data)"
    and n: "length data < 18446744073709551616" "\<not> vmm_range_overflows v (of_nat (length data))"
  shows "\<exists>m'. k64_vmm_write_user sp v data m = (Ok (), m') \<and>
    k64_vmm_read_user m' sp v (of_nat (length data)) = Some data \<and>
    (\<forall>a req. vmm_translate m' sp a req = vmm_translate m sp a req) \<and>
    (\<forall>a. a \<notin> (\<lambda>i. user_target m sp (v + of_nat i)) ` {..<length data} \<longrightarrow> m' a = m a)"
proof -
  have ok: "tree_ok m (cr3 sp) U" using inv m by (simp add: space_inv_def)
  let ?t = "\<lambda>i. user_target m sp (v + of_nat i)"
  let ?m = "written m ?t data (length data)"
  have z: "written m ?t data 0 = m" by (simp add: written_def fun_eq_iff)
  have w: "k64_vmm_write_user sp v data m = (Ok (), ?m)"
    using write_user_from_bytes [OF ok rng, of 0] z n(2) by (simp add: k64_vmm_write_user_def)
  have tr: "vmm_translate ?m sp a req = vmm_translate m sp a req" for a req by (rule written_translate [OF ok rng order.refl])
  have u: "unat (of_nat (length data) :: u64) = length data" using n(1) by (simp add: unat_of_nat_small)
  have inj: "inj_on ?t {..<length data}" and mp: "list_all (\<lambda>i. user_mapped m sp (v + of_nat i)) [0..<length data]"
    using rng by (simp_all add: user_range_def)
  have "map (\<lambda>i. ?m (user_target ?m sp (v + of_nat i))) [0..<length data] = data"
    using written_at [OF inj, of _ "length data" m data] tr by (intro nth_equalityI) (simp_all add: user_target_def)
  then have "k64_vmm_read_user ?m sp v (of_nat (length data)) = Some data"
    using n(2) mp tr read_user_from_bytes [of "[]" "length data" ?m sp v] by (simp add: k64_vmm_read_user_def u)
  moreover have "?m a = m a" if "a \<notin> ?t ` {..<length data}" for a using that by (intro written_other) auto
  ultimately show ?thesis using w tr by blast
qed

text \<open>A large page for user access at address 0, on the frames from \<open>0x40000000\<close>.\<close>

definition user_mem :: phys_mem where
  "user_mem = set_entry 0x1000 0 0x2007 (set_entry 0x2000 0 0x40000087 (\<lambda>_. 0))"

lemma user_mem_entry:
  assumes "page_aligned t" and "i < 512"
  shows "entry user_mem t i = (if t = 0x1000 \<and> i = 0 then 0x2007 else if t = 0x2000 \<and> i = 0 then 0x40000087 else 0)"
proof -
  have al: "page_aligned 0x1000" "page_aligned 0x2000" by (simp_all add: page_aligned_def)
  consider "t = 0x1000" "i = 0" | "t = 0x2000" "i = 0" | "\<not> (t = 0x1000 \<and> i = 0)" "\<not> (t = 0x2000 \<and> i = 0)" by blast
  then show ?thesis
  proof cases
    case 3
    then have "0x1000 \<noteq> t \<or> 0 \<noteq> i" "0x2000 \<noteq> t \<or> 0 \<noteq> i" by auto
    then have "entry user_mem t i = 0" unfolding user_mem_def using assms al
      by (simp only: entry_set_other [OF al(1) assms(1)] entry_set_other [OF al(2) assms(1)] zero_less_numeral entry_zero)
    then show ?thesis using 3 by simp
  qed (use al in \<open>simp_all add: user_mem_def entry_set_other\<close>)
qed

lemma user_mem_tab: "tab user_mem 0x1000 v 1 = (if table_index 0 v = 0 then Some 0x2000 else None)" "tab user_mem 0x1000 v (Suc (Suc d)) = None"
proof -
  have al: "page_aligned 0x1000" "page_aligned 0x2000" by (simp_all add: page_aligned_def)
  show one: "tab user_mem 0x1000 v 1 = (if table_index 0 v = 0 then Some 0x2000 else None)"
    using user_mem_entry [OF al(1) table_index_less, of 0 v] by (simp add: Let_def K64_PAGE_MASK_def K64_PAGE_SIZE_def)
  show "tab user_mem 0x1000 v (Suc (Suc d)) = None"
  proof (induction d)
    case 0
    then show ?case using one user_mem_entry [OF al(2) table_index_less, of 1 v] by (auto simp: Let_def)
  qed simp
qed

lemma user_mem_inv: "space_inv {0x1000, 0x2000} (sample_vmm\<lparr>phys := user_mem\<rparr>, sample_space)"
proof -
  have t: "d = 0 \<and> t = 0x1000 \<or> d = 1 \<and> t = 0x2000 \<and> table_index 0 v = 0" if "tab user_mem 0x1000 v d = Some t" for v d t
  proof -
    consider "d = 0" | "d = 1" | e where "d = Suc (Suc e)" by (metis One_nat_def not0_implies_Suc)
    then show ?thesis using that user_mem_tab(1) [of v] user_mem_tab(2) [of v] by cases (auto split: if_splits)
  qed
  have al: "page_aligned 0x1000" "page_aligned 0x2000" by (simp_all add: page_aligned_def)
  have "tree_ok user_mem 0x1000 {0x1000, 0x2000}"
    unfolding tree_ok_def
  proof (intro conjI allI impI)
    fix v d t assume "d \<le> 3 \<and> tab user_mem 0x1000 v d = Some t"
    then show "page_aligned t" "t \<in> {0x1000, 0x2000}" using t [of v d t] al by auto
  next
    fix v v' d d' t assume "d \<le> 3 \<and> d' \<le> 3 \<and> tab user_mem 0x1000 v d = Some t \<and> tab user_mem 0x1000 v' d' = Some t"
    then show "d = d'" "path d v = path d v'" using t [of v d t] t [of v' d' t] by (auto simp: path_def)
  next
    fix v t assume "tab user_mem 0x1000 v 1 = Some t \<and> is_large (entry user_mem t (table_index 1 v))"
    then show "entry user_mem t (table_index 1 v) AND 0xF000000000000 = 0"
      using t [of v 1 t] user_mem_entry [OF al(2) table_index_less, of 1 v] by (auto split: if_splits)
  qed
  then show ?thesis using sample_used sample_inv by (simp add: space_inv_def sample_vmm_def sample_space_def blank_space_def)
qed

lemma user_mem_translate:
  assumes "i < 4"
  shows "vmm_translate user_mem sample_space (of_nat i) True = Some (0x40000000 + of_nat i)"
proof -
  have al: "page_aligned 0x1000" "page_aligned 0x2000" by (simp_all add: page_aligned_def)
  have ix: "table_index 0 (of_nat i) = 0" "table_index 1 (of_nat i) = 0" "(of_nat i :: u64) AND 0x3FFFFFFF = of_nat i"
  proof -
    have "i \<in> {0, 1, 2, 3}" using assms by auto
    then show "table_index 0 (of_nat i) = 0" "table_index 1 (of_nat i) = 0" "(of_nat i :: u64) AND 0x3FFFFFFF = of_nat i"
      by (auto simp: table_index_def)
  qed
  show ?thesis
    using ix user_mem_entry [OF al(1), of 0] user_mem_entry [OF al(2), of 0]
    by (simp add: vmm_translate_def sample_space_def Let_def allows_bits K64_PAGE_MASK_def K64_PAGE_SIZE_def)
qed

theorem user_write_read_roundtrip_witness:
  "\<exists>m'. k64_vmm_write_user sample_space 0 [1, 2, 3, 4] user_mem = (Ok (), m') \<and>
     k64_vmm_read_user m' sample_space 0 4 = Some [1, 2, 3, 4] \<and> m' 0x1000 = user_mem 0x1000"
proof -
  have tg: "user_target user_mem sample_space (of_nat i) = 0x40000000 + of_nat i" if "i < 4" for i
    using user_mem_translate [OF that] by (simp add: user_target_def)
  have rng: "user_range user_mem sample_space {0x1000, 0x2000} 0 4"
    unfolding user_range_def
  proof (intro conjI allI impI)
    show "list_all (\<lambda>i. user_mapped user_mem sample_space (0 + of_nat i)) [0..<4]"
      using user_mem_translate by (simp add: list_all_iff)
    show "page_of (user_target user_mem sample_space (0 + of_nat i)) \<notin> {0x1000, 0x2000}" if "i < 4" for i
    proof -
      have "i \<in> {0, 1, 2, 3}" using that by auto
      then show ?thesis using tg [OF that] by (auto simp: K64_PAGE_MASK_def K64_PAGE_SIZE_def)
    qed
    show "inj_on (\<lambda>i. user_target user_mem sample_space (0 + of_nat i)) {..<4}"
    proof (rule inj_onI)
      fix i j assume ij: "i \<in> {..<4 :: nat}" "j \<in> {..<4 :: nat}"
        and "user_target user_mem sample_space (0 + of_nat i) = user_target user_mem sample_space (0 + of_nat j)"
      then have "(of_nat i :: u64) = of_nat j" using tg [of i] tg [of j] by simp
      then have "unat (of_nat i :: u64) = unat (of_nat j :: u64)" by simp
      then show "i = j" using ij by (simp add: unat_of_nat_small)
    qed
  qed
  have hit: "0x1000 \<notin> (\<lambda>i. user_target user_mem sample_space (0 + of_nat i)) ` {..<4}"
  proof
    assume "0x1000 \<in> (\<lambda>i. user_target user_mem sample_space (0 + of_nat i)) ` {..<4}"
    then obtain i where i: "i < 4" "(0x1000 :: u64) = 0x40000000 + of_nat i" using tg by auto
    then have "i \<in> {0, 1, 2, 3}" by auto
    then show False using i(2) by auto
  qed
  have len: "length [1, 2, 3, 4 :: u8] = 4" by simp
  from user_write_read_roundtrip [OF user_mem_inv, of user_mem 0 "[1, 2, 3, 4]"] rng
  obtain m' where "k64_vmm_write_user sample_space 0 [1, 2, 3, 4] user_mem = (Ok (), m')"
      "k64_vmm_read_user m' sample_space 0 (of_nat 4) = Some [1, 2, 3, 4]"
      "\<forall>a. a \<notin> (\<lambda>i. user_target user_mem sample_space (0 + of_nat i)) ` {..<4} \<longrightarrow> m' a = user_mem a"
    unfolding len by (auto simp: vmm_range_overflows_def)
  then show ?thesis using hit by (intro exI [of _ m']) auto
qed

end
