(* ===== verification/Vmm_Frames.thy ===== *)
theory Vmm_Frames
  imports Vmm_Props
begin

text \<open>
  Ownership of frames: an address space records every frame it takes, and its release returns exactly these.
\<close>

section \<open>Accounting\<close>

definition owned :: "k64_vm_space \<Rightarrow> u64 list" where
  "owned sp = take (phys_frame_count sp) (phys_frames sp) @ take (page_table_frame_count sp) (page_table_frames sp)"

text \<open>\<open>holds B st\<close>: the frames in use are \<open>B\<close> and, apart from these, the ones the space has recorded.\<close>

definition holds :: "u64 set \<Rightarrow> vmm \<times> k64_vm_space \<Rightarrow> bool" where
  "holds B st \<longleftrightarrow> (case st of (vm, sp) \<Rightarrow> pmm_inv (vm_pmm vm) \<and>
     phys_frame_count sp \<le> length (phys_frames sp) \<and> page_table_frame_count sp \<le> length (page_table_frames sp) \<and>
     distinct (owned sp) \<and> 0 \<notin> set (owned sp) \<and> used_pages (vm_pmm vm) = B \<union> set (owned sp) \<and> B \<inter> set (owned sp) = {})"

definition same_place :: "vmm \<times> k64_vm_space \<Rightarrow> vmm \<times> k64_vm_space \<Rightarrow> bool" where
  "same_place st st' \<longleftrightarrow> service_slot_used (fst st') = service_slot_used (fst st) \<and>
     present (snd st') = present (snd st) \<and> root_base (snd st') = root_base (snd st) \<and> root_size (snd st') = root_size (snd st)"

definition keeps :: "'a vm \<Rightarrow> bool" where
  "keeps f \<longleftrightarrow> (\<forall>B st. holds B st \<longrightarrow> holds B (snd (f st)) \<and> same_place st (snd (f st)))"

lemma keepsI: "(\<And>B st. holds B st \<Longrightarrow> holds B (snd (f st)) \<and> same_place st (snd (f st))) \<Longrightarrow> keeps f"
  by (simp add: keeps_def)

lemma keepsD: "keeps f \<Longrightarrow> holds B st \<Longrightarrow> f st = (r, st') \<Longrightarrow> holds B st' \<and> same_place st st'"
  unfolding keeps_def by (metis snd_conv)

lemma same_place_refl [simp]: "same_place st st"
  by (simp add: same_place_def)

lemma same_place_trans: "same_place st st1 \<Longrightarrow> same_place st1 st2 \<Longrightarrow> same_place st st2"
  by (simp add: same_place_def)

named_theorems keeps_rules

lemma keeps_pure [keeps_rules]: "keeps (ret x)" "keeps fail"
  by (simp_all add: keeps_def)

lemma keeps_phys [keeps_rules]: "keeps (modify (on_phys g))"
  by (rule keepsI) (auto simp: holds_def same_place_def)

lemma keeps_bind [keeps_rules]:
  assumes "keeps f" and "\<And>x. keeps (g x)"
  shows "keeps (bind f g)"
proof (rule keepsI)
  fix B st assume h: "holds B st"
  obtain r st1 where f: "f st = (r, st1)" by (cases "f st")
  note 1 = keepsD [OF assms(1) h f]
  show "holds B (snd (bind f g st)) \<and> same_place st (snd (bind f g st))"
  proof (cases r)
    case (Ok x)
    obtain r2 st2 where g: "g x st1 = (r2, st2)" by (cases "g x st1")
    then show ?thesis using 1 keepsD [OF assms(2) _ g] f Ok same_place_trans [of st st1 st2] by (auto simp: bind_def)
  qed (use 1 f in \<open>auto simp: bind_def\<close>)
qed

lemma keeps_attempt [keeps_rules]:
  assumes "keeps f"
  shows "keeps (attempt f)"
proof (rule keepsI)
  fix B st assume h: "holds B st"
  obtain r st1 where f: "f st = (r, st1)" by (cases "f st")
  show "holds B (snd (attempt f st)) \<and> same_place st (snd (attempt f st))"
    using keepsD [OF assms h f] f by (cases r) (auto simp: attempt_def)
qed

lemma keeps_guard [keeps_rules]: "keeps f \<Longrightarrow> keeps (guard c f)"
  by (auto simp: keeps_def guard_def)

text \<open>An operation whose body depends on the state it starts from.\<close>

lemma keeps_by: "(\<And>st. \<exists>g. keeps g \<and> f st = g st) \<Longrightarrow> keeps f"
  unfolding keeps_def by metis

lemma keeps_if [keeps_rules]: "keeps f \<Longrightarrow> keeps g \<Longrightarrow> keeps (if c then f else g)"
  by simp

section \<open>The operations\<close>

lemma took_noneD: "took_none vm vm' \<Longrightarrow> pmm_inv (vm_pmm vm') \<and> used_pages (vm_pmm vm') = used_pages (vm_pmm vm) \<and>
    service_slot_used vm' = service_slot_used vm"
  by (auto simp: took_none_def used_pages_def)

lemma took_frameD: "took_frame vm f vm' \<Longrightarrow> pmm_inv (vm_pmm vm') \<and> used_pages (vm_pmm vm') = insert f (used_pages (vm_pmm vm)) \<and>
    service_slot_used vm' = service_slot_used vm \<and> f \<noteq> 0 \<and> f \<notin> used_pages (vm_pmm vm)"
  by (auto simp: took_frame_def used_pages_def)

lemma keeps_alloc_table [keeps_rules]: "keeps vmm_alloc_table_frame"
proof (rule keepsI)
  fix B st assume h: "holds B st"
  obtain vm sp where st: "st = (vm, sp)" by (cases st)
  have inv: "pmm_inv (vm_pmm vm)" using h st by (simp add: holds_def)
  show "holds B (snd (vmm_alloc_table_frame st)) \<and> same_place st (snd (vmm_alloc_table_frame st))"
  proof (cases rule: alloc_table_frame_cases [OF inv, of sp])
    case (1 vm')
    then show ?thesis using h took_noneD [OF 1(2)] by (simp add: st holds_def same_place_def)
  next
    case (2 f vm')
    then show ?thesis using h took_frameD [OF 2(3)]
      by (auto simp: st holds_def same_place_def owned_def take_Suc_conv_app_nth)
  qed
qed

lemma keeps_alloc_phys [keeps_rules]: "keeps vmm_alloc_phys_frame"
proof (rule keepsI)
  fix B st assume h: "holds B st"
  obtain vm sp where st: "st = (vm, sp)" by (cases st)
  have inv: "pmm_inv (vm_pmm vm)" using h st by (simp add: holds_def)
  show "holds B (snd (vmm_alloc_phys_frame st)) \<and> same_place st (snd (vmm_alloc_phys_frame st))"
  proof (cases rule: alloc_phys_frame_cases [OF inv, of sp])
    case (1 vm')
    then show ?thesis using h took_noneD [OF 1(2)] by (simp add: st holds_def same_place_def)
  next
    case (2 f vm')
    then show ?thesis using h took_frameD [OF 2(3)]
      by (auto simp: st holds_def same_place_def owned_def take_Suc_conv_app_nth)
  qed
qed

lemma keeps_split [keeps_rules]: "keeps (vmm_split_large_page table index flags level)"
proof (rule keeps_by)
  fix st :: "vmm \<times> k64_vm_space"
  let ?e = "entry (phys (fst st)) table index"
  define g where "g = (if ?e AND 0x80 = 0 \<or> level < 1 \<or> level > 2 then fail
      else bind vmm_alloc_table_frame (\<lambda>next.
           bind (modify (on_phys (fill_table next (split_entry ?e level)))) (\<lambda>_.
           bind (modify (on_phys (set_entry table index
             (next OR K64_PAGE_TABLE_FLAGS OR ((?e OR flags) AND K64_PAGE_USER))))) (\<lambda>_.
           ret next))))"
  have "keeps g" unfolding g_def by (intro keeps_rules)
  moreover have "vmm_split_large_page table index flags level st = g st" by (simp add: g_def vmm_split_large_page_def Let_def)
  ultimately show "\<exists>g. keeps g \<and> vmm_split_large_page table index flags level st = g st" by blast
qed

lemma keeps_next [keeps_rules]: "keeps (vmm_next_table table index flags level)"
proof (rule keeps_by)
  fix st :: "vmm \<times> k64_vm_space"
  let ?e = "entry (phys (fst st)) table index"
  define g where "g = (if ?e AND K64_PAGE_PRESENT \<noteq> 0 then
        if ?e AND 0x80 \<noteq> 0 then vmm_split_large_page table index flags level else ret (?e AND K64_PAGE_MASK)
      else bind vmm_alloc_table_frame (\<lambda>next.
           bind (modify (on_phys (set_entry table index (next OR K64_PAGE_TABLE_FLAGS OR (flags AND K64_PAGE_USER))))) (\<lambda>_.
           ret next)))"
  have "keeps g" unfolding g_def by (intro keeps_rules)
  moreover have "vmm_next_table table index flags level st = g st" by (simp add: g_def vmm_next_table_def Let_def)
  ultimately show "\<exists>g. keeps g \<and> vmm_next_table table index flags level st = g st" by blast
qed

lemma keeps_map_page [keeps_rules]: "keeps (vmm_map_page virt_addr phys_addr flags)"
proof (rule keeps_by)
  fix st :: "vmm \<times> k64_vm_space"
  define g where "g = guard (present (snd st) \<and> cr3 (snd st) \<noteq> 0)
       (bind (vmm_next_table (cr3 (snd st)) (table_index 0 virt_addr) flags 3) (\<lambda>pdpt.
        bind (vmm_next_table pdpt (table_index 1 virt_addr) flags 2) (\<lambda>pdt.
        bind (vmm_next_table pdt (table_index 2 virt_addr) flags 1) (\<lambda>pt.
        modify (on_phys (set_entry pt (table_index 3 virt_addr)
          ((phys_addr AND K64_PAGE_MASK) OR (flags AND 0xFFF) OR K64_PAGE_PRESENT)))))))"
  have "keeps g" unfolding g_def by (intro keeps_rules)
  moreover have "vmm_map_page virt_addr phys_addr flags st = g st" by (simp add: g_def vmm_map_page_def)
  ultimately show "\<exists>g. keeps g \<and> vmm_map_page virt_addr phys_addr flags st = g st" by blast
qed

lemma keeps_set_cr3 [keeps_rules]: "keeps (modify (\<lambda>(vm, sp). (vm, sp\<lparr>cr3 := t\<rparr>)))"
  by (rule keepsI) (auto simp: holds_def same_place_def owned_def)

lemma keeps_set_phys [keeps_rules]: "keeps (modify (\<lambda>(vm, sp). (vm\<lparr>phys := g sp (phys vm)\<rparr>, sp)))"
  by (rule keepsI) (auto simp: holds_def same_place_def)

lemma keeps_both [keeps_rules]:
  "(\<And>a b. keeps (f a b)) \<Longrightarrow> keeps (case (x, y) of (Some a, Some b) \<Rightarrow> f a b | _ \<Rightarrow> fail)"
  by (auto split: option.splits intro: keeps_rules)

lemma keeps_clone [keeps_rules]: "keeps vmm_clone_kernel_root"
proof (rule keeps_by)
  fix st :: "vmm \<times> k64_vm_space"
  let ?k = "kernel_cr3 (fst st)"
  let ?kp = "entry (phys (fst st)) ?k 0 AND K64_PAGE_MASK"
  define g where "g = guard (kernel_cr3 (fst st) \<noteq> 0 \<and> entry (phys (fst st)) ?k 0 AND K64_PAGE_PRESENT \<noteq> 0)
       (bind (attempt vmm_alloc_table_frame) (\<lambda>new_pml4.
        bind (attempt vmm_alloc_table_frame) (\<lambda>new_pdpt.
        case (new_pml4, new_pdpt) of
          (Some pml4, Some pdpt) \<Rightarrow>
            bind (modify (on_phys (\<lambda>m. fold (\<lambda>i m. set_entry pdpt i (entry (set_entry pml4 i (entry m ?k i) m) ?kp i)
                   (set_entry pml4 i (entry m ?k i) m)) [0..<512] m))) (\<lambda>_.
            bind (modify (\<lambda>(vm, sp). (vm\<lparr>phys := set_entry pml4 0
                   (pdpt OR K64_PAGE_TABLE_FLAGS OR (if user_mode sp then K64_PAGE_USER else 0)) (phys vm)\<rparr>, sp))) (\<lambda>_.
            modify (\<lambda>(vm, sp). (vm, sp\<lparr>cr3 := pml4\<rparr>))))
        | _ \<Rightarrow> fail)))"
  have "keeps g" unfolding g_def by (intro keeps_rules)
  moreover have "vmm_clone_kernel_root st = g st" by (simp add: g_def vmm_clone_kernel_root_def Let_def)
  ultimately show "\<exists>g. keeps g \<and> vmm_clone_kernel_root st = g st" by blast
qed

lemma keeps_map_zeroed [keeps_rules]: "keeps (vmm_map_zeroed_page_flags virt_addr flags)"
  unfolding vmm_map_zeroed_page_flags_def by (intro keeps_rules)

lemma keeps_map_stack [keeps_rules]: "keeps (map_stack is flags)"
proof (induction "is")
  case (Cons i "is")
  show ?case
  proof (rule keeps_by)
    fix st :: "vmm \<times> k64_vm_space"
    show "\<exists>g. keeps g \<and> map_stack (i # is) flags st = g st"
      by (intro exI conjI) (rule keeps_bind [OF keeps_map_zeroed Cons], simp)
  qed
qed (simp only: map_stack.simps keeps_pure)

section \<open>Release\<close>

lemma free_frames_effect:
  assumes "pmm_inv p" and "distinct fs" and "0 \<notin> set fs" and "set fs \<subseteq> used_pages p"
  shows "pmm_inv (free_frames fs p) \<and> pmm_in_use (free_frames fs p) = pmm_in_use p - unat ` set fs"
  using assms
proof (induction fs arbitrary: p)
  case (Cons f fs)
  obtain a where a: "f = of_nat a" "a \<in> pmm_in_use p" using Cons.prems(4) by (auto simp: used_pages_def)
  have u: "unat f = a" using in_use_bound [OF a(2)] a(1) by (simp add: unat_of_frame)
  have a0: "a \<noteq> 0"
  proof
    assume "a = 0"
    then have "f = 0" using a(1) by simp
    then show False using Cons.prems(3) by simp
  qed
  let ?p = "k64_pmm_free_frame a p"
  have 1: "pmm_inv ?p" "pmm_in_use ?p = pmm_in_use p - {a}" using pmm.inv_free pmm.free_releases Cons.prems(1) a(2) a0 by blast+
  have "set fs \<subseteq> used_pages ?p"
  proof
    fix g assume g: "g \<in> set fs"
    then obtain b where b: "g = of_nat b" "b \<in> pmm_in_use p" using Cons.prems(4) by (auto simp: used_pages_def)
    have "b \<noteq> a" using g b(1) a(1) Cons.prems(2) by auto
    then show "g \<in> used_pages ?p" using b 1(2) by (auto simp: used_pages_def)
  qed
  then have "pmm_inv (free_frames fs ?p) \<and> pmm_in_use (free_frames fs ?p) = pmm_in_use ?p - unat ` set fs"
    using Cons.IH [OF 1(1)] Cons.prems by simp
  moreover have "free_frames (f # fs) p = free_frames fs ?p" using Cons.prems(3) u by (auto simp: free_frames_def)
  ultimately show ?case using 1(2) u by auto
qed (simp add: free_frames_def)

lemma used_pages_eq: "used_pages p = used_pages q \<Longrightarrow> pmm_in_use p = pmm_in_use q"
  using used_page_iff in_use_bound by (metis subsetI subset_antisym)

lemma minus_used:
  assumes "used_pages p = B \<union> set fs" and "B \<inter> set fs = {}" and "B = used_pages q"
  shows "pmm_in_use p - unat ` set fs = pmm_in_use q"
proof (rule set_eqI)
  fix a
  show "a \<in> pmm_in_use p - unat ` set fs \<longleftrightarrow> a \<in> pmm_in_use q"
  proof (cases "a < 4294967296")
    case True
    have "a \<in> unat ` set fs \<longleftrightarrow> (of_nat a :: u64) \<in> set fs" 
    proof
      assume "a \<in> unat ` set fs"
      then show "(of_nat a :: u64) \<in> set fs" by auto
    next
      assume "(of_nat a :: u64) \<in> set fs"
      then show "a \<in> unat ` set fs" using unat_of_frame [OF True] by (metis imageI)
    qed
    then show ?thesis using used_page_iff [OF True, of p] used_page_iff [OF True, of q] assms by auto
  next
    case False
    then show ?thesis using in_use_bound by blast
  qed
qed

lemma free_frames_append: "free_frames (fs @ gs) p = free_frames gs (free_frames fs p)"
  by (simp add: free_frames_def)

lemma release_effect:
  assumes h: "holds (used_pages q) (vm, sp)" and pr: "present sp" and run: "k64_vmm_release_service_space (vm, sp) = (vm', sp')"
  shows "pmm_in_use (vm_pmm vm') = pmm_in_use q" "\<not> present sp'"
    "service_slot_used vm' = (if root_base sp \<ge> K64_SERVICE_VM_BASE \<and>
       unat ((root_base sp - K64_SERVICE_VM_BASE) div K64_SERVICE_VM_STRIDE) < K64_SERVICE_VM_MAX_SLOTS
       then (service_slot_used vm)[unat ((root_base sp - K64_SERVICE_VM_BASE) div K64_SERVICE_VM_STRIDE) := False]
       else service_slot_used vm)"
proof -
  have p: "vm_pmm vm' = free_frames (owned sp) (vm_pmm vm)"
    using run pr by (auto simp: k64_vmm_release_service_space_def Let_def owned_def free_frames_append)
  have "pmm_in_use (free_frames (owned sp) (vm_pmm vm)) = pmm_in_use (vm_pmm vm) - unat ` set (owned sp)"
    using free_frames_effect [of "vm_pmm vm" "owned sp"] h by (auto simp: holds_def)
  also have "\<dots> = pmm_in_use q" by (rule minus_used [OF _ _ refl]) (use h in \<open>auto simp: holds_def\<close>)
  finally show "pmm_in_use (vm_pmm vm') = pmm_in_use q" using p by simp
  show "\<not> present sp'" using run pr by (auto simp: k64_vmm_release_service_space_def Let_def vmm_clear_space_def)
  show "service_slot_used vm' = (if root_base sp \<ge> K64_SERVICE_VM_BASE \<and>
       unat ((root_base sp - K64_SERVICE_VM_BASE) div K64_SERVICE_VM_STRIDE) < K64_SERVICE_VM_MAX_SLOTS
       then (service_slot_used vm)[unat ((root_base sp - K64_SERVICE_VM_BASE) div K64_SERVICE_VM_STRIDE) := False]
       else service_slot_used vm)"
    using run pr by (auto simp: k64_vmm_release_service_space_def Let_def)
qed

section \<open>Spaces\<close>

lemma find_slot_Some:
  assumes "find_slot used s = Some slot"
  shows "slot < 256" "\<not> used ! slot"
  using assms by (auto simp: find_slot_def find_Some_iff K64_SERVICE_VM_MAX_SLOTS_def)

lemma slot_of_root:
  assumes "slot < 256"
  shows "K64_SERVICE_VM_BASE \<le> K64_SERVICE_VM_BASE + of_nat slot * K64_SERVICE_VM_STRIDE"
    "unat ((K64_SERVICE_VM_BASE + of_nat slot * K64_SERVICE_VM_STRIDE - K64_SERVICE_VM_BASE) div K64_SERVICE_VM_STRIDE) = slot"
proof -
  have s: "unat (of_nat slot :: u64) = slot" using assms by (simp add: unat_of_nat_small)
  have m: "unat (of_nat slot * K64_SERVICE_VM_STRIDE) = slot * 16777216"
    using assms s by (simp add: K64_SERVICE_VM_STRIDE_def unat_word_ariths)
  show "K64_SERVICE_VM_BASE \<le> K64_SERVICE_VM_BASE + of_nat slot * K64_SERVICE_VM_STRIDE"
    unfolding word_le_nat_alt using m assms by (subst unat_add_no_wrap) (simp_all add: K64_SERVICE_VM_BASE_def)
  show "unat ((K64_SERVICE_VM_BASE + of_nat slot * K64_SERVICE_VM_STRIDE - K64_SERVICE_VM_BASE) div K64_SERVICE_VM_STRIDE) = slot"
    using m by (simp add: unat_div K64_SERVICE_VM_STRIDE_def)
qed

lemma clear_space_holds:
  assumes "pmm_inv (vm_pmm vm)"
  shows "holds (used_pages (vm_pmm vm)) (vm, place_space slot user (vmm_clear_space sp))"
    "holds (used_pages (vm_pmm vm)) (vm, (vmm_clear_space sp)\<lparr>present := True, user_mode := False, cr3 := c, root_base := 0, root_size := n\<rparr>)"
    "phys_frame_count (vmm_clear_space sp) = 0" "page_table_frame_count (vmm_clear_space sp) = 0" "\<not> present (vmm_clear_space sp)"
  using assms by (simp_all add: holds_def owned_def vmm_clear_space_def place_space_def Let_def)

lemma holds_slots: "holds B (vm\<lparr>service_slot_used := u\<rparr>, sp) = holds B (vm, sp)"
  by (simp add: holds_def)

text \<open>C19: address spaces leak nothing. Whatever an allocation of a space does (it may run out of slots, frames or entries
  of its records half-way), a release afterwards leaves the frames in use and the slots exactly as they
  were before the allocation, and when the allocation fails they are so already; a space that was allocated
  has a slot of its own that was free, and its addresses are those of that slot.\<close>

theorem space_alloc_release:
  assumes inv: "pmm_inv (vm_pmm vm)" and slots: "length (service_slot_used vm) = 256"
    and run: "vmm_alloc_space pid flags user (vm, sp) = (r, st')"
  shows "pmm_in_use (vm_pmm (fst (k64_vmm_release_service_space st'))) = pmm_in_use (vm_pmm vm) \<and>
    service_slot_used (fst (k64_vmm_release_service_space st')) = service_slot_used vm \<and>
    (r = Fail \<longrightarrow> pmm_in_use (vm_pmm (fst st')) = pmm_in_use (vm_pmm vm) \<and> service_slot_used (fst st') = service_slot_used vm) \<and>
    (r = Ok () \<and> pid \<noteq> 0 \<longrightarrow> (\<exists>slot<256. \<not> service_slot_used vm ! slot \<and> service_slot_used (fst st') = (service_slot_used vm)[slot := True] \<and>
       root_base (snd st') = K64_SERVICE_VM_BASE + of_nat slot * K64_SERVICE_VM_STRIDE \<and> root_size (snd st') = K64_SERVICE_VM_STRIDE))"
proof (cases "pid = 0")
  case True
  let ?sp = "(vmm_clear_space sp)\<lparr>present := True, user_mode := False, cr3 := kernel_cr3 vm, root_base := 0, root_size := 0x40000000\<rparr>"
  have st: "r = Ok ()" "st' = (vm, ?sp)" using run True by (auto simp: vmm_alloc_space_def Let_def)
  obtain vm2 sp2 where rel: "k64_vmm_release_service_space (vm, ?sp) = (vm2, sp2)" by (cases "k64_vmm_release_service_space (vm, ?sp)")
  show ?thesis using release_effect [OF clear_space_holds(2) [OF inv] _ rel] rel st True
    by (simp add: K64_SERVICE_VM_BASE_def)
next
  case pid: False
  let ?sp = "vmm_clear_space sp"
  show ?thesis
  proof (cases "find_slot (service_slot_used vm) (unat (pid mod of_nat K64_SERVICE_VM_MAX_SLOTS))")
    case None
    then have "r = Fail" "st' = (vm, ?sp)" using run pid by (auto simp: vmm_alloc_space_def Let_def)
    then show ?thesis using clear_space_holds(5) [OF inv] by (simp add: k64_vmm_release_service_space_def)
  next
    case (Some slot)
    note slot = find_slot_Some [OF Some] and root = slot_of_root [OF find_slot_Some(1) [OF Some]]
    let ?vm = "vm\<lparr>service_slot_used := (service_slot_used vm)[slot := True]\<rparr>" and ?ps = "place_space slot user ?sp"
    obtain r1 vm1 sp1 where 1: "bind vmm_clone_kernel_root (\<lambda>_. map_stack [0..<K64_SERVICE_STACK_FRAMES] flags) (?vm, ?ps) = (r1, (vm1, sp1))"
      by (metis prod_cases3)
    have "keeps (bind vmm_clone_kernel_root (\<lambda>_. map_stack [0..<K64_SERVICE_STACK_FRAMES] flags))" by (intro keeps_rules)
    from keepsD [OF this _ 1]
    have h: "holds (used_pages (vm_pmm vm)) (vm1, sp1)" "same_place (?vm, ?ps) (vm1, sp1)"
      using clear_space_holds(1) [OF inv] by (auto simp: holds_slots)
    then have sp1: "present sp1" "root_base sp1 = K64_SERVICE_VM_BASE + of_nat slot * K64_SERVICE_VM_STRIDE"
        "root_size sp1 = K64_SERVICE_VM_STRIDE" "service_slot_used vm1 = (service_slot_used vm)[slot := True]"
      by (simp_all add: same_place_def place_space_def Let_def K64_SERVICE_VM_ROOT_SIZE_def K64_SERVICE_VM_STRIDE_def)
    obtain vm2 sp2 where rel: "k64_vmm_release_service_space (vm1, sp1) = (vm2, sp2)" by (cases "k64_vmm_release_service_space (vm1, sp1)")
    have same: "(service_slot_used vm)[slot := False] = service_slot_used vm" using slot by (simp add: list_update_same_conv slots)
    note out = release_effect [OF h(1) sp1(1) rel, unfolded sp1(2,4) root(2)]
    have out': "pmm_in_use (vm_pmm vm2) = pmm_in_use (vm_pmm vm)" "\<not> present sp2" "service_slot_used vm2 = service_slot_used vm"
      using out slot(1) root(1) same by (simp_all add: K64_SERVICE_VM_MAX_SLOTS_def)
    have st: "(r, st') = (if r1 = Fail then (Fail, (vm2, sp2)) else (r1, (vm1, sp1)))"
      using run pid Some 1 rel by (cases r1) (auto simp: vmm_alloc_space_def Let_def)
    show ?thesis
    proof (cases "r1 = Fail")
      case True
      then have "r = Fail" "st' = (vm2, sp2)" using st by simp_all
      then show ?thesis using out' by (simp add: k64_vmm_release_service_space_def)
    next
      case False
      then have "r = r1" "st' = (vm1, sp1)" using st by simp_all
      then show ?thesis using out' rel slot sp1 False by auto
    qed
  qed
qed

theorem space_alloc_release_witness:
  "\<exists>r st'. vmm_alloc_space 5 2 False (sample_vmm, sample_space) = (r, st') \<and>
     pmm_in_use (vm_pmm (fst (k64_vmm_release_service_space st'))) = pmm_in_use sample_pmm \<and>
     service_slot_used (fst (k64_vmm_release_service_space st')) = replicate 256 False"
proof -
  obtain r st' where run: "vmm_alloc_space 5 2 False (sample_vmm, sample_space) = (r, st')"
    by (cases "vmm_alloc_space 5 2 False (sample_vmm, sample_space)")
  have "pmm_inv (vm_pmm sample_vmm)" "length (service_slot_used sample_vmm) = 256"
    using sample_inv by (simp_all add: sample_vmm_def)
  from space_alloc_release [OF this run] show ?thesis using run by (auto simp: sample_vmm_def)
qed

end
