(* ===== verification/Block.thy ===== *)
theory Block
  imports K64_String
begin

text \<open>
  The block-device layer, \<^verbatim>\<open>src/k64_block.c\<close>, and the memory-backed driver of
  \<^verbatim>\<open>src/k64_fs.c\<close>.

  A device is a record with the fields of \<^verbatim>\<open>k64_block_device_t\<close>. Its two function pointers
  are optional functions over the state \<open>'w\<close> of the drivers: hardware drivers are parameters
  of the model. A read returns the bytes it would store in the caller's buffer. The
  registry is the list of the registered devices (the array up to its count), a device
  pointer into it is an index.
\<close>

section \<open>Devices\<close>

type_synonym 'w block_read_fn = "nat \<Rightarrow> u64 \<Rightarrow> u32 \<Rightarrow> ('w, bytes) op"
type_synonym 'w block_write_fn = "nat \<Rightarrow> u64 \<Rightarrow> u32 \<Rightarrow> bytes \<Rightarrow> ('w, unit) op"

record 'w k64_block_device =
  bd_id :: u64
  bd_name :: string
  bd_source :: string
  block_size :: u32
  block_count :: u64
  start_lba :: u64
  partition_type :: u8
  is_partition :: bool
  writable :: bool
  online :: bool
  bd_context :: nat
  bd_read :: "'w block_read_fn option"
  bd_write :: "'w block_write_fn option"

definition k64_block_read :: "'w k64_block_device option \<Rightarrow> u64 \<Rightarrow> u32 \<Rightarrow> ('w, bytes) op" where
  "k64_block_read dev lba count =
     (case dev of
        None \<Rightarrow> fail
      | Some d \<Rightarrow> (case bd_read d of
          None \<Rightarrow> fail
        | Some rd \<Rightarrow>
            guard (online d \<and> count \<noteq> 0)
           (guard (\<not> (lba \<ge> block_count d \<or> ucast count > block_count d - lba))
           (rd (bd_context d) (start_lba d + lba) count))))"

definition k64_block_write :: "'w k64_block_device option \<Rightarrow> u64 \<Rightarrow> u32 \<Rightarrow> bytes \<Rightarrow> ('w, unit) op" where
  "k64_block_write dev lba count data =
     (case dev of
        None \<Rightarrow> fail
      | Some d \<Rightarrow> (case bd_write d of
          None \<Rightarrow> fail
        | Some wr \<Rightarrow>
            guard (online d \<and> count \<noteq> 0 \<and> writable d)
           (guard (\<not> (lba \<ge> block_count d \<or> ucast count > block_count d - lba))
           (wr (bd_context d) (start_lba d + lba) count data))))"

section \<open>The registry\<close>

definition K64_MAX_BLOCK_DEVICES :: nat where "K64_MAX_BLOCK_DEVICES = 32"
definition K64_MBR_PARTITION_LBA :: u32 where "K64_MBR_PARTITION_LBA = 2048"

record 'w blocks =
  block_devices :: "'w k64_block_device list"
  next_block_id :: u64
  drivers :: 'w

definition copy_string :: "string \<Rightarrow> nat \<Rightarrow> cstr \<Rightarrow> string" where
  "copy_string dst dst_size src = str_copy dst dst_size src"

definition k64_block_init :: "'w blocks \<Rightarrow> 'w blocks" where
  "k64_block_init s = s\<lparr>block_devices := [], next_block_id := 1\<rparr>"

definition k64_block_register_device ::
  "cstr \<Rightarrow> cstr \<Rightarrow> u32 \<Rightarrow> u64 \<Rightarrow> bool \<Rightarrow> nat \<Rightarrow> 'w block_read_fn option \<Rightarrow>
   'w block_write_fn option \<Rightarrow> 'w blocks \<Rightarrow> nat option \<times> 'w blocks" where
  "k64_block_register_device name source bsize bcount wrt ctx rd wr s =
     (if length (block_devices s) \<ge> K64_MAX_BLOCK_DEVICES \<or> rd = None \<or> bsize = 0 \<or> bcount = 0
      then (None, s)
      else
        let dev = \<lparr>bd_id = next_block_id s,
                   bd_name = copy_string [] 32 (case name of None \<Rightarrow> Some ''block'' | Some n \<Rightarrow> Some n),
                   bd_source = copy_string [] 48 (case source of None \<Rightarrow> Some ''k64m'' | Some n \<Rightarrow> Some n),
                   block_size = bsize, block_count = bcount, start_lba = 0, partition_type = 0,
                   is_partition = False, writable = wrt, online = True, bd_context = ctx,
                   bd_read = rd, bd_write = wr\<rparr>
        in (Some (length (block_devices s)),
            s\<lparr>block_devices := block_devices s @ [dev], next_block_id := next_block_id s + 1\<rparr>))"

definition k64_block_unregister_device :: "cstr \<Rightarrow> 'w blocks \<Rightarrow> 'w blocks" where
  "k64_block_unregister_device name s =
     s\<lparr>block_devices := map (\<lambda>d. if \<not> k64_streq (Some (bd_name d)) name then d
          else d\<lparr>online := False, bd_read := None, bd_write := None\<rparr>) (block_devices s)\<rparr>"

definition k64_block_device_at :: "nat \<Rightarrow> 'w blocks \<Rightarrow> nat option" where
  "k64_block_device_at index s = (if index \<ge> length (block_devices s) then None else Some index)"

definition k64_block_find_device_by_name :: "cstr \<Rightarrow> 'w blocks \<Rightarrow> nat option" where
  "k64_block_find_device_by_name name s =
     find (\<lambda>i. k64_streq (Some (bd_name (block_devices s ! i))) name) [0..<length (block_devices s)]"

definition k64_block_first_writable :: "'w blocks \<Rightarrow> nat option" where
  "k64_block_first_writable s =
     find (\<lambda>i. let d = block_devices s ! i in
            online d \<and> writable d \<and> bd_read d \<noteq> None \<and> bd_write d \<noteq> None)
       [0..<length (block_devices s)]"

section \<open>Partitions\<close>

definition read_u32le :: "bytes \<Rightarrow> nat \<Rightarrow> u32" where
  "read_u32le p o' = ucast (p ! o') OR push_bit 8 (ucast (p ! (o' + 1)))
     OR push_bit 16 (ucast (p ! (o' + 2))) OR push_bit 24 (ucast (p ! (o' + 3)))"

definition write_u32le :: "nat \<Rightarrow> u32 \<Rightarrow> bytes \<Rightarrow> bytes" where
  "write_u32le o' v p =
     p[o' := ucast (v AND 0xFF), o' + 1 := ucast (drop_bit 8 v AND 0xFF),
       o' + 2 := ucast (drop_bit 16 v AND 0xFF), o' + 3 := ucast (drop_bit 24 v AND 0xFF)]"

definition partition_name_exists :: "string \<Rightarrow> 'w blocks \<Rightarrow> bool" where
  "partition_name_exists name s \<longleftrightarrow> k64_block_find_device_by_name (Some name) s \<noteq> None"

text \<open>\<open>dev\<close> is the parent's index, \<^verbatim>\<open>(char)('0' + number)\<close> the digit.\<close>

definition register_partition ::
  "nat \<Rightarrow> u8 \<Rightarrow> u8 \<Rightarrow> u64 \<Rightarrow> u64 \<Rightarrow> 'w blocks \<Rightarrow> nat option \<times> 'w blocks" where
  "register_partition dev number type start bcount s =
     (let parent = block_devices s ! dev in
      if is_partition parent \<or> bcount = 0 \<or> length (block_devices s) \<ge> K64_MAX_BLOCK_DEVICES
      then (None, s)
      else
        let name = take 31 (bd_name parent) in
        if length name + 3 \<ge> 32 then (None, s)
        else
          let name = name @ [CHR ''p'', char_of (48 + unat number)] in
          if partition_name_exists name s then (k64_block_find_device_by_name (Some name) s, s)
          else case k64_block_register_device (Some name) (Some (bd_source parent)) (block_size parent)
                 bcount (writable parent) (bd_context parent) (bd_read parent) (bd_write parent) s of
              (None, s) \<Rightarrow> (None, s)
            | (Some i, s) \<Rightarrow>
               (Some i, s\<lparr>block_devices := (block_devices s)[i :=
                  (block_devices s ! i)\<lparr>start_lba := start, partition_type := type, is_partition := True\<rparr>]\<rparr>))"

definition scan_entry :: "nat \<Rightarrow> bytes \<Rightarrow> nat \<Rightarrow> 'w blocks \<Rightarrow> 'w blocks" where
  "scan_entry dev mbr i s =
     (let off = 446 + i * 16; type = mbr ! (off + 4);
          start = read_u32le mbr (off + 8); count = read_u32le mbr (off + 12);
          nblocks = block_count (block_devices s ! dev)
      in if type = 0 \<or> count = 0 \<or> start = 0 \<or> ucast start \<ge> nblocks then s
         else
           let count = (if ucast count > nblocks - ucast start then ucast (nblocks - ucast start) else count)
           in snd (register_partition dev (of_nat (i + 1)) type (ucast start) (ucast count) s))"

definition k64_block_scan_partitions :: "nat option \<Rightarrow> 'w blocks \<Rightarrow> 'w blocks" where
  "k64_block_scan_partitions devp s =
     (case devp of None \<Rightarrow> s | Some dev \<Rightarrow>
      let d = block_devices s ! dev in
      if is_partition d \<or> block_size d \<noteq> 512 \<or> \<not> online d \<or> bd_read d = None then s
      else case k64_block_read (Some d) 0 1 (drivers s) of
          (Ok mbr, w) \<Rightarrow>
            let s = s\<lparr>drivers := w\<rparr> in
            if mbr ! 510 \<noteq> 0x55 \<or> mbr ! 511 \<noteq> 0xAA then s
            else fold (scan_entry dev mbr) [0..<4] s
        | (_, w) \<Rightarrow> s\<lparr>drivers := w\<rparr>)"

definition k64_mbr :: "u64 \<Rightarrow> bytes" where
  "k64_mbr nblocks =
     (let mbr = replicate 512 0;
          part_blocks = nblocks - ucast K64_MBR_PARTITION_LBA;
          mbr = mbr[446 := 0x80, 447 := 0x00, 448 := 0x02, 449 := 0x00, 450 := 0x83,
                    451 := 0xFF, 452 := 0xFF, 453 := 0xFF];
          mbr = write_u32le 454 K64_MBR_PARTITION_LBA mbr;
          mbr = write_u32le 458 (ucast part_blocks) mbr
      in mbr[510 := 0x55, 511 := 0xAA])"

definition k64_block_write_k64_mbr :: "nat option \<Rightarrow> ('w blocks, unit) op" where
  "k64_block_write_k64_mbr devp s =
     (case devp of None \<Rightarrow> (Fail, s) | Some dev \<Rightarrow>
      let d = block_devices s ! dev in
      if is_partition d \<or> \<not> online d \<or> \<not> writable d \<or> block_size d \<noteq> 512 \<or>
         block_count d \<le> ucast K64_MBR_PARTITION_LBA \<or> block_count d > 0xFFFFFFFF
      then (Fail, s)
      else case k64_block_write (Some d) 0 1 (k64_mbr (block_count d)) (drivers s) of
          (Ok _, w) \<Rightarrow> (Ok (), k64_block_scan_partitions (Some dev) (s\<lparr>drivers := w\<rparr>))
        | (Fail, w) \<Rightarrow> (Fail, s\<lparr>drivers := w\<rparr>)
        | (Fault, w) \<Rightarrow> (Fault, s\<lparr>drivers := w\<rparr>))"

section \<open>The memory-backed driver\<close>

text \<open>
  \<^verbatim>\<open>k64_memdev_t\<close>: a context names a memory region, its bytes are the state. The offsets
  are computed in \<^verbatim>\<open>size_t\<close>; a null context has no region.
\<close>

definition K64_ROOTFS_BLOCK_SIZE :: u64 where "K64_ROOTFS_BLOCK_SIZE = 512"

type_synonym memdevs = "nat \<Rightarrow> bytes option"

definition fs_mem_read :: "memdevs block_read_fn" where
  "fs_mem_read ctx lba count w =
     (case w ctx of
        None \<Rightarrow> (Fail, w)
      | Some mem \<Rightarrow>
         if count = 0 then (Fail, w)
         else
           let off = lba * K64_ROOTFS_BLOCK_SIZE; n = ucast count * K64_ROOTFS_BLOCK_SIZE;
               sz = of_nat (length mem) :: u64
           in if off > sz \<or> n > sz - off then (Fail, w)
              else (Ok (bytes_at (unat off) (unat n) mem), w))"

definition fs_mem_write :: "memdevs block_write_fn" where
  "fs_mem_write ctx lba count data w =
     (case w ctx of
        None \<Rightarrow> (Fail, w)
      | Some mem \<Rightarrow>
         if count = 0 then (Fail, w)
         else
           let off = lba * K64_ROOTFS_BLOCK_SIZE; n = ucast count * K64_ROOTFS_BLOCK_SIZE;
               sz = of_nat (length mem) :: u64
           in if off > sz \<or> n > sz - off then (Fail, w)
              else if length data < unat n then (Fault, w)
              else (Ok (), w(ctx := Some (put_at (unat off) (take (unat n) data) mem))))"

section \<open>Confinement\<close>

text \<open>
  \<open>extent_within d n\<close>: the sectors the device exposes lie below sector \<open>n\<close> of the medium.
\<close>

definition extent_within :: "'w k64_block_device \<Rightarrow> nat \<Rightarrow> bool" where
  "extent_within d n \<longleftrightarrow> unat (start_lba d) + unat (block_count d) \<le> n \<and> n < 2 ^ 64"

lemma block_range_ok:
  assumes "extent_within d n" and "lba < block_count d" and "ucast (count :: u32) \<le> block_count d - lba"
  shows "unat (start_lba d + lba) = unat (start_lba d) + unat lba"
    and "unat (start_lba d + lba) + unat count \<le> unat (start_lba d) + unat (block_count d)"
proof -
  have l: "unat lba < unat (block_count d)" using assms(2) by (simp add: word_less_nat_alt)
  have "unat count \<le> unat (block_count d - lba)" using assms(3) by (simp add: word_le_nat_alt)
  also have "\<dots> = unat (block_count d) - unat lba" using l by (simp add: unat_sub word_le_nat_alt)
  finally have c: "unat count + unat lba \<le> unat (block_count d)" using l by simp
  show s: "unat (start_lba d + lba) = unat (start_lba d) + unat lba"
    using assms(1) l by (intro unat_add_no_wrap) (simp add: extent_within_def)
  show "unat (start_lba d + lba) + unat count \<le> unat (start_lba d) + unat (block_count d)"
    using c s by simp
qed

text \<open>Every request either fails or reaches the driver inside the device's sectors.\<close>

lemma block_read_cases:
  assumes "extent_within d n"
  obtains "k64_block_read (Some d) lba count w = (Fail, w)"
  | rd where "bd_read d = Some rd" "online d" "count \<noteq> 0"
      "unat (start_lba d) \<le> unat (start_lba d + lba)" "unat (start_lba d + lba) + unat count \<le> n"
      "k64_block_read (Some d) lba count w = rd (bd_context d) (start_lba d + lba) count w"
proof (cases "bd_read d")
  case None
  then show ?thesis using that(1) by (simp add: k64_block_read_def)
next
  case (Some rd)
  show ?thesis
  proof (cases "online d \<and> count \<noteq> 0 \<and> \<not> (lba \<ge> block_count d \<or> ucast count > block_count d - lba)")
    case True
    with Some that(2) [OF Some] assms show ?thesis
      using block_range_ok [OF assms, of lba count]
      by (auto simp: k64_block_read_def extent_within_def not_le not_less)
  next
    case False
    with Some that(1) show ?thesis by (auto simp: k64_block_read_def guard_def)
  qed
qed

lemma block_write_cases:
  assumes "extent_within d n"
  obtains "k64_block_write (Some d) lba count data w = (Fail, w)"
  | wr where "bd_write d = Some wr" "online d" "writable d" "count \<noteq> 0"
      "unat (start_lba d) \<le> unat (start_lba d + lba)" "unat (start_lba d + lba) + unat count \<le> n"
      "k64_block_write (Some d) lba count data w = wr (bd_context d) (start_lba d + lba) count data w"
proof (cases "bd_write d")
  case None
  then show ?thesis using that(1) by (simp add: k64_block_write_def)
next
  case (Some wr)
  show ?thesis
  proof (cases "online d \<and> count \<noteq> 0 \<and> writable d \<and> \<not> (lba \<ge> block_count d \<or> ucast count > block_count d - lba)")
    case True
    with Some that(2) [OF Some] assms show ?thesis
      using block_range_ok [OF assms, of lba count]
      by (auto simp: k64_block_write_def extent_within_def not_le not_less)
  next
    case False
    with Some that(1) show ?thesis by (auto simp: k64_block_write_def guard_def)
  qed
qed

section \<open>What a partition scan registers\<close>

text \<open>\<open>part_of p d\<close>: \<open>d\<close> is a partition of the medium behind \<open>p\<close> that leaves out its first sector.\<close>

definition part_of :: "'w k64_block_device \<Rightarrow> 'w k64_block_device \<Rightarrow> bool" where
  "part_of p d \<longleftrightarrow> is_partition d \<and> online d \<and> bd_context d = bd_context p \<and> bd_read d = bd_read p \<and>
     bd_write d = bd_write p \<and> writable d = writable p \<and> block_size d = block_size p \<and>
     start_lba d \<noteq> 0 \<and> extent_within d (unat (block_count p))"

text \<open>The guards of the code, in words, admit exactly the requests inside the device.\<close>

lemma block_range_iff:
  "(count \<noteq> 0 \<and> lba < n \<and> ucast (count :: u32) \<le> n - (lba :: u64)) \<longleftrightarrow>
   (count \<noteq> 0 \<and> unat lba + unat count \<le> unat n)"
proof (cases "lba < n")
  case True
  then have "unat (n - lba) = unat n - unat lba" "unat lba < unat n"
    by (simp_all add: unat_sub word_le_nat_alt word_less_nat_alt)
  with True show ?thesis by (auto simp: word_le_nat_alt)
next
  case False
  then show ?thesis by (auto simp: word_less_nat_alt unat_gt_0 [symmetric] not_less)
qed

lemma part_of_io:
  assumes "part_of p d"
  shows "0 < unat (start_lba d)"
    and "unat (start_lba d) + unat (block_count d) \<le> unat (block_count p)"
    and "count \<noteq> 0 \<Longrightarrow> unat lba + unat count \<le> unat (block_count d) \<Longrightarrow>
      unat (start_lba d + lba) = unat (start_lba d) + unat lba"
    and "k64_block_read (Some d) lba count w =
      (if count \<noteq> 0 \<and> unat lba + unat count \<le> unat (block_count d)
       then case bd_read p of Some rd \<Rightarrow> rd (bd_context p) (start_lba d + lba) count w | None \<Rightarrow> (Fail, w)
       else (Fail, w))"
    and "k64_block_write (Some d) lba count data w =
      (if count \<noteq> 0 \<and> unat lba + unat count \<le> unat (block_count d)
       then case bd_write p of
           Some wr \<Rightarrow> if writable p then wr (bd_context p) (start_lba d + lba) count data w else (Fail, w)
         | None \<Rightarrow> (Fail, w)
       else (Fail, w))"
proof -
  have d: "online d" "bd_context d = bd_context p" "bd_read d = bd_read p" "bd_write d = bd_write p"
      "writable d = writable p" "extent_within d (unat (block_count p))"
    using assms by (auto simp: part_of_def)
  show "0 < unat (start_lba d)" using assms by (simp add: part_of_def unat_gt_0)
  show "unat (start_lba d) + unat (block_count d) \<le> unat (block_count p)"
    using d(6) by (simp add: extent_within_def)
  show "unat (start_lba d + lba) = unat (start_lba d) + unat lba"
    if "count \<noteq> 0" "unat lba + unat count \<le> unat (block_count d)"
    using block_range_ok(1) [OF d(6)] block_range_iff [of count lba "block_count d"] that by blast
  show "k64_block_read (Some d) lba count w =
      (if count \<noteq> 0 \<and> unat lba + unat count \<le> unat (block_count d)
       then case bd_read p of Some rd \<Rightarrow> rd (bd_context p) (start_lba d + lba) count w | None \<Rightarrow> (Fail, w)
       else (Fail, w))"
    using d(1-3) unfolding block_range_iff [of count lba "block_count d", symmetric]
    by (auto simp: k64_block_read_def guard_def split: option.splits)
  show "k64_block_write (Some d) lba count data w =
      (if count \<noteq> 0 \<and> unat lba + unat count \<le> unat (block_count d)
       then case bd_write p of
           Some wr \<Rightarrow> if writable p then wr (bd_context p) (start_lba d + lba) count data w else (Fail, w)
         | None \<Rightarrow> (Fail, w)
       else (Fail, w))"
    using d(1-5) unfolding block_range_iff [of count lba "block_count d", symmetric]
    by (auto simp: k64_block_write_def guard_def split: option.splits)
qed

text \<open>\<open>extends p s s'\<close>: only partitions of \<open>p\<close> were added to the registry.\<close>

definition extends :: "'w k64_block_device \<Rightarrow> 'w blocks \<Rightarrow> 'w blocks \<Rightarrow> bool" where
  "extends p s s' \<longleftrightarrow> (\<exists>ds. block_devices s' = block_devices s @ ds \<and> (\<forall>d\<in>set ds. part_of p d)) \<and>
     (length (block_devices s) \<le> K64_MAX_BLOCK_DEVICES \<longrightarrow> length (block_devices s') \<le> K64_MAX_BLOCK_DEVICES)"

lemma extends_refl: "extends p s s" "extends p s (s\<lparr>drivers := w\<rparr>)"
  by (auto simp: extends_def)

lemma extends_trans: "extends p s t \<Longrightarrow> extends p t u \<Longrightarrow> extends p s u"
  unfolding extends_def by (metis Un_iff append_assoc set_append)

lemma extends_nth: "extends p s s' \<Longrightarrow> i < length (block_devices s) \<Longrightarrow> block_devices s' ! i = block_devices s ! i"
  by (auto simp: extends_def nth_append)

lemma extends_length: "extends p s s' \<Longrightarrow> length (block_devices s) \<le> length (block_devices s')"
  by (auto simp: extends_def)

definition partition_device :: "'w k64_block_device \<Rightarrow> u64 \<Rightarrow> u8 \<Rightarrow> u8 \<Rightarrow> u64 \<Rightarrow> u64 \<Rightarrow> 'w k64_block_device" where
  "partition_device p ident num type start bcount =
    \<lparr>bd_id = ident, bd_name = bd_name p @ [CHR ''p'', char_of (48 + unat num)], bd_source = take 47 (bd_source p),
     block_size = block_size p, block_count = bcount, start_lba = start, partition_type = type,
     is_partition = True, writable = writable p, online = True, bd_context = bd_context p,
     bd_read = bd_read p, bd_write = bd_write p\<rparr>"

definition partition_fits :: "nat \<Rightarrow> u8 \<Rightarrow> u64 \<Rightarrow> 'w blocks \<Rightarrow> bool" where
  "partition_fits dev num bcount s \<longleftrightarrow> (let p = block_devices s ! dev in
     \<not> is_partition p \<and> bcount \<noteq> 0 \<and> length (block_devices s) < K64_MAX_BLOCK_DEVICES \<and>
     length (bd_name p) \<le> 28 \<and> bd_read p \<noteq> None \<and> block_size p \<noteq> 0 \<and>
     \<not> partition_name_exists (bd_name p @ [CHR ''p'', char_of (48 + unat num)]) s)"

lemma register_partition_eq:
  "snd (register_partition dev num type start bcount s) =
     (if partition_fits dev num bcount s
      then s\<lparr>block_devices := block_devices s @
               [partition_device (block_devices s ! dev) (next_block_id s) num type start bcount],
             next_block_id := next_block_id s + 1\<rparr>
      else s)"
proof (cases "length (bd_name (block_devices s ! dev)) \<le> 28")
  case True
  then show ?thesis
    by (simp add: register_partition_def k64_block_register_device_def copy_string_def Let_def
        partition_fits_def partition_device_def not_le)
next
  case False
  then show ?thesis by (simp add: register_partition_def partition_fits_def Let_def)
qed

lemma partition_device_part_of:
  assumes "start \<noteq> 0" and "unat start + unat bcount \<le> unat (block_count p)"
  shows "part_of p (partition_device p ident num type start bcount)"
  using assms unat_u64_less [of "block_count p"]
  by (simp add: part_of_def partition_device_def extent_within_def)

lemma unat_clamped_count:
  fixes start count :: u32 and nblocks :: u64
  assumes "ucast start < nblocks"
    and "c = (if ucast count > nblocks - ucast start then ucast (nblocks - ucast start) else count)"
  shows "unat start + unat c \<le> unat nblocks"
proof -
  have s: "unat start < unat nblocks" using assms(1) by (simp add: word_less_nat_alt)
  have d: "unat (nblocks - ucast start) = unat nblocks - unat start"
    using s by (simp add: unat_sub word_le_nat_alt)
  show ?thesis
  proof (cases "ucast count > nblocks - ucast start")
    case True
    then have "unat (nblocks - ucast start) < 2 ^ 32"
      using unat_u32_less [of count] by (simp add: word_less_nat_alt)
    then have "unat c = unat nblocks - unat start"
      using True d assms(2) by (simp add: unsigned_ucast_eq take_bit_nat_eq_self)
    then show ?thesis using s by simp
  next
    case False
    then have "unat count \<le> unat nblocks - unat start" using d by (simp add: word_le_nat_alt not_less)
    then show ?thesis using False s assms(2) by simp
  qed
qed

lemma scan_entry_extends:
  assumes "dev < length (block_devices s)"
  shows "extends (block_devices s ! dev) s (scan_entry dev mbr i s)"
proof -
  let ?p = "block_devices s ! dev" and ?off = "446 + i * 16"
  let ?start = "read_u32le mbr (?off + 8)" and ?count = "read_u32le mbr (?off + 12)"
  define c where "c = (if ucast ?count > block_count ?p - ucast ?start
     then ucast (block_count ?p - ucast ?start) else ?count)"
  show ?thesis
  proof (cases "mbr ! (?off + 4) = 0 \<or> ?count = 0 \<or> ?start = 0 \<or> ucast ?start \<ge> block_count ?p")
    case True
    then show ?thesis by (auto simp: scan_entry_def Let_def extends_refl)
  next
    case False
    then have eq: "scan_entry dev mbr i s =
        snd (register_partition dev (of_nat (i + 1)) (mbr ! (?off + 4)) (ucast ?start) (ucast c) s)"
      unfolding scan_entry_def Let_def c_def by simp
    have lt: "ucast ?start < block_count ?p" using False by (simp add: not_le)
    have "unat ?start + unat c \<le> unat (block_count ?p)"
      by (rule unat_clamped_count [OF lt c_def])
    then have r: "unat (ucast ?start :: u64) + unat (ucast c :: u64) \<le> unat (block_count ?p)"
      by simp
    have nz: "(ucast ?start :: u64) \<noteq> 0"
      using False by (metis unat_eq_0 unat_ucast_widths(1))
    show ?thesis
      using partition_device_part_of [OF nz r]
      unfolding eq register_partition_eq
      by (simp add: extends_refl) (simp add: extends_def partition_fits_def Let_def)
  qed
qed

lemma scan_extends:
  assumes "dev < length (block_devices s)"
  shows "extends (block_devices s ! dev) s (fold (scan_entry dev mbr) is s)"
  using assms
proof (induction "is" arbitrary: s)
  case Nil
  then show ?case by (simp add: extends_refl)
next
  case (Cons i "is")
  have e: "extends (block_devices s ! dev) s (scan_entry dev mbr i s)"
    using Cons.prems by (rule scan_entry_extends)
  have "extends (block_devices (scan_entry dev mbr i s) ! dev) (scan_entry dev mbr i s)
      (fold (scan_entry dev mbr) is (scan_entry dev mbr i s))"
    using Cons.IH Cons.prems extends_length [OF e] by simp
  then have "extends (block_devices s ! dev) (scan_entry dev mbr i s)
      (fold (scan_entry dev mbr) is (scan_entry dev mbr i s))"
    using extends_nth [OF e Cons.prems] by simp
  with e show ?case by (simp add: extends_trans)
qed

lemma scan_partitions_extends:
  assumes "dev < length (block_devices s)"
  shows "extends (block_devices s ! dev) s (k64_block_scan_partitions (Some dev) s)"
proof -
  obtain r w where r: "k64_block_read (Some (block_devices s ! dev)) 0 1 (drivers s) = (r, w)" by fastforce
  have "extends (block_devices s ! dev) s (fold (scan_entry dev mbr) [0..<4] (s\<lparr>drivers := w\<rparr>))" for mbr
    using scan_extends [of dev "s\<lparr>drivers := w\<rparr>" mbr "[0..<4]"] assms extends_trans extends_refl(2) by fastforce
  then show ?thesis
    using r by (auto simp: k64_block_scan_partitions_def Let_def extends_refl split: res.splits)
qed

section \<open>Little-endian fields of the boot record\<close>

lemma read_write_u32le:
  assumes "o' + 3 < length p"
  shows "read_u32le (write_u32le o' v p) o' = v"
proof -
  have "ucast (ucast (v AND 0xFF) :: u8) OR push_bit 8 (ucast (ucast (drop_bit 8 v AND 0xFF) :: u8))
     OR push_bit 16 (ucast (ucast (drop_bit 16 v AND 0xFF) :: u8))
     OR push_bit 24 (ucast (ucast (drop_bit 24 v AND 0xFF) :: u8)) = v" (is "?l = v")
  proof (rule bit_word_eqI)
    fix n assume n: "n < LENGTH(32)"
    have m: "(0xFF :: u32) = mask 8" by (simp add: mask_eq_exp_minus_1)
    consider "n < 8" | "8 \<le> n" "n < 16" | "16 \<le> n" "n < 24" | "24 \<le> n" by linarith
    then show "bit ?l n = bit v n" unfolding m using n by cases (auto simp: bit_simps)
  qed
  then show ?thesis using assms by (simp add: read_u32le_def write_u32le_def)
qed

lemma nth_write_u32le: "i < o' \<or> o' + 3 < i \<Longrightarrow> write_u32le o' v p ! i = p ! i"
  by (auto simp: write_u32le_def)

lemma length_write_u32le [simp]: "length (write_u32le o' v p) = length p"
  by (simp add: write_u32le_def)

lemma read_u32le_cong:
  "(\<And>i. o' \<le> i \<Longrightarrow> i \<le> o' + 3 \<Longrightarrow> p ! i = q ! i) \<Longrightarrow> read_u32le p o' = read_u32le q o'"
  by (simp add: read_u32le_def)

lemma length_k64_mbr: "length (k64_mbr n) = 512"
  by (simp add: k64_mbr_def Let_def)

lemma k64_mbr_fields:
  "k64_mbr n ! 450 = 0x83" "k64_mbr n ! 510 = 0x55" "k64_mbr n ! 511 = 0xAA"
  "read_u32le (k64_mbr n) 454 = 2048" "read_u32le (k64_mbr n) 458 = ucast (n - 2048)"
  "k64_mbr n ! 466 = 0" "k64_mbr n ! 482 = 0" "k64_mbr n ! 498 = 0"
proof -
  show "k64_mbr n ! 450 = 0x83" "k64_mbr n ! 510 = 0x55" "k64_mbr n ! 511 = 0xAA"
    "k64_mbr n ! 466 = 0" "k64_mbr n ! 482 = 0" "k64_mbr n ! 498 = 0"
    by (simp_all add: k64_mbr_def Let_def nth_write_u32le)
  let ?m = "(replicate 512 0)[446 := 0x80, 447 := 0x00, 448 := 0x02, 449 := 0x00, 450 := 0x83,
                    451 := 0xFF, 452 := 0xFF, 453 := 0xFF] :: bytes"
  let ?c = "ucast (n - 2048) :: u32"
  have eq: "k64_mbr n = (write_u32le 458 ?c (write_u32le 454 2048 ?m))[510 := 0x55, 511 := 0xAA]"
    by (simp add: k64_mbr_def Let_def K64_MBR_PARTITION_LBA_def)
  have "read_u32le (k64_mbr n) 454 = read_u32le (write_u32le 454 2048 ?m) 454"
    unfolding eq by (rule read_u32le_cong) (simp add: nth_write_u32le)
  then show "read_u32le (k64_mbr n) 454 = 2048" by (simp add: read_write_u32le)
  have "read_u32le (k64_mbr n) 458 = read_u32le (write_u32le 458 ?c (write_u32le 454 2048 ?m)) 458"
    unfolding eq by (rule read_u32le_cong) simp
  then show "read_u32le (k64_mbr n) 458 = ucast (n - 2048)" by (simp add: read_write_u32le)
qed

lemma digit_1: "char_of (49 :: nat) = CHR ''1''"
  by code_simp

section \<open>Properties\<close>

text \<open>C8: after a partition scan, whatever the boot record on the medium says, the devices that were
  registered before are unchanged, the registry has not outgrown its array, and every newly
  registered partition occupies sectors of its parent after the boot sector. A request to the
  partition that lies inside its extent, computed without wrap-around, reaches the parent's driver
  at the partition's first sector plus the requested one; every other request fails without
  reaching the driver.\<close>

theorem partition_io_confined:
  assumes "dev < length (block_devices s)" and "length (block_devices s) \<le> K64_MAX_BLOCK_DEVICES"
    and "p = block_devices s ! dev" and "s' = k64_block_scan_partitions (Some dev) s"
  shows "(\<forall>i<length (block_devices s). block_devices s' ! i = block_devices s ! i) \<and>
    length (block_devices s') \<le> K64_MAX_BLOCK_DEVICES \<and>
    (\<forall>d\<in>set (drop (length (block_devices s)) (block_devices s')).
       0 < unat (start_lba d) \<and>
       unat (start_lba d) + unat (block_count d) \<le> unat (block_count p) \<and>
       (if count \<noteq> 0 \<and> unat lba + unat count \<le> unat (block_count d)
        then unat (start_lba d + lba) = unat (start_lba d) + unat lba \<and>
          k64_block_read (Some d) lba count w =
            (case bd_read p of Some rd \<Rightarrow> rd (bd_context p) (start_lba d + lba) count w | None \<Rightarrow> (Fail, w)) \<and>
          k64_block_write (Some d) lba count data w =
            (case bd_write p of
               Some wr \<Rightarrow> if writable p then wr (bd_context p) (start_lba d + lba) count data w else (Fail, w)
             | None \<Rightarrow> (Fail, w))
        else k64_block_read (Some d) lba count w = (Fail, w) \<and>
          k64_block_write (Some d) lba count data w = (Fail, w)))"
proof -
  have e: "extends p s s'" using scan_partitions_extends assms by blast
  then obtain ds where ds: "block_devices s' = block_devices s @ ds" "\<forall>d\<in>set ds. part_of p d"
    by (auto simp: extends_def)
  have "length (block_devices s') \<le> K64_MAX_BLOCK_DEVICES" using e assms(2) by (simp add: extends_def)
  with ds extends_nth [OF e] show ?thesis by (auto simp: part_of_io)
qed

text \<open>Formatting a medium with the K64 boot record and scanning it again registers exactly one new
  device, the partition \<^verbatim>\<open>p1\<close> of type \<open>0x83\<close> that starts at sector 2048 and takes the rest of
  the medium, provided the driver reads back what it wrote, the name fits and is not taken, and
  the registry has room.\<close>

theorem mbr_roundtrip:
  assumes "dev < length (block_devices s)" and p: "p = block_devices s ! dev"
    and rd: "bd_read p = Some rd" and wr: "bd_write p = Some wr"
    and readback: "\<And>w w' data. length data = 512 \<Longrightarrow> wr (bd_context p) (start_lba p) 1 data w = (Ok (), w') \<Longrightarrow>
        rd (bd_context p) (start_lba p) 1 w' = (Ok data, w')"
    and run: "k64_block_write_k64_mbr (Some dev) s = (Ok (), s')"
    and room: "length (block_devices s) < K64_MAX_BLOCK_DEVICES" "length (bd_name p) \<le> 28"
      "\<not> partition_name_exists (bd_name p @ ''p1'') s"
  shows "\<exists>d. block_devices s' = block_devices s @ [d] \<and> bd_name d = bd_name p @ ''p1'' \<and>
     start_lba d = 2048 \<and> block_count d = block_count p - 2048 \<and> partition_type d = 0x83 \<and> part_of p d"
proof -
  let ?mbr = "k64_mbr (block_count p)"
  have dev: "\<not> is_partition p" "online p" "writable p" "block_size p = 512" "2048 < block_count p"
      "block_count p \<le> 0xFFFFFFFF"
    using run by (auto simp: k64_block_write_k64_mbr_def p [symmetric] Let_def K64_MBR_PARTITION_LBA_def
        not_le not_less split: if_splits)
  obtain w where w: "k64_block_write (Some p) 0 1 ?mbr (drivers s) = (Ok (), w)"
      "s' = k64_block_scan_partitions (Some dev) (s\<lparr>drivers := w\<rparr>)"
    using run dev by (auto simp: k64_block_write_k64_mbr_def p [symmetric] Let_def K64_MBR_PARTITION_LBA_def
        split: if_splits prod.splits res.splits)
  have cnt: "\<not> (0 \<ge> block_count p \<or> ucast (1 :: u32) > block_count p - 0)"
    using dev(5) by (auto simp: word_less_nat_alt word_le_nat_alt)
  have "wr (bd_context p) (start_lba p) 1 ?mbr (drivers s) = (Ok (), w)"
    using w(1) wr dev cnt by (simp add: k64_block_write_def)
  from readback [OF length_k64_mbr this]
  have rdk: "k64_block_read (Some p) 0 1 w = (Ok ?mbr, w)"
    using rd dev cnt by (simp add: k64_block_read_def)
  let ?t = "s\<lparr>drivers := w\<rparr>"
  have pt: "block_devices ?t ! dev = p" by (simp add: p)
  have scan: "s' = fold (scan_entry dev ?mbr) [0..<4] ?t"
    unfolding w(2) using dev rd rdk pt by (simp add: k64_block_scan_partitions_def k64_mbr_fields)
  have n: "unat (block_count p) \<le> 4294967295" "2048 < unat (block_count p)"
    using dev(5,6) by (simp_all add: word_le_nat_alt word_less_nat_alt)
  have u: "unat (block_count p - 2048) = unat (block_count p) - 2048"
    using n(2) by (simp add: unat_sub word_le_nat_alt)
  have c: "ucast (ucast (block_count p - 2048) :: u32) = block_count p - 2048"
    by (rule word_unat_eq_iff [THEN iffD2])
      (use n u in \<open>simp add: unsigned_ucast_eq unsigned_take_bit_eq take_bit_nat_eq_self\<close>)
  have one: "scan_entry dev ?mbr 0 ?t =
      snd (register_partition dev 1 0x83 2048 (block_count p - 2048) ?t)"
  proof -
    have "(ucast (block_count p - 2048) :: u32) \<noteq> 0"
      using c n u by (metis diff_is_0_eq' less_nat_zero_code not_le unat_0 unsigned_0 zero_less_diff)
    then show ?thesis
      using dev(5) c by (simp add: scan_entry_def p [symmetric] k64_mbr_fields Let_def not_le)
  qed
  have rest: "scan_entry dev ?mbr i t = t" if "i \<in> {1, 2, 3}" for i t
    using that by (auto simp: scan_entry_def k64_mbr_fields Let_def)
  have "s' = snd (register_partition dev 1 0x83 2048 (block_count p - 2048) ?t)"
  proof -
    have "[0..<4] = [0, 1, 2, 3::nat]" by (simp add: upt_rec)
    then show ?thesis unfolding scan by (simp add: one rest)
  qed
  moreover have "partition_fits dev 1 (block_count p - 2048) ?t"
  proof -
    have "block_count p - 2048 \<noteq> 0" using n u by auto
    with room dev rd show ?thesis
      by (simp add: partition_fits_def p [symmetric] partition_name_exists_def
          k64_block_find_device_by_name_def digit_1)
  qed
  moreover have "part_of p (partition_device p (next_block_id s) 1 0x83 2048 (block_count p - 2048))"
    using n u by (intro partition_device_part_of) simp_all
  ultimately show ?thesis
    by (intro exI [of _ "partition_device p (next_block_id s) 1 0x83 2048 (block_count p - 2048)"])
      (simp add: register_partition_eq p [symmetric] partition_device_def digit_1)
qed

text \<open>A medium of 4096 sectors in memory, registered alone.\<close>

definition mem_disk :: "memdevs k64_block_device" where
  "mem_disk = \<lparr>bd_id = 1, bd_name = ''md0'', bd_source = ''memory'', block_size = 512, block_count = 4096,
     start_lba = 0, partition_type = 0, is_partition = False, writable = True, online = True,
     bd_context = 0, bd_read = Some fs_mem_read, bd_write = Some fs_mem_write\<rparr>"

definition one_disk :: "memdevs blocks" where
  "one_disk = \<lparr>block_devices = [mem_disk], next_block_id = 2,
     drivers = (\<lambda>_. Some (replicate 2097152 0))\<rparr>"

lemma mem_sector0:
  assumes "length data = 512" and "fs_mem_write ctx 0 1 data w = (Ok (), w')"
  shows "fs_mem_read ctx 0 1 w' = (Ok data, w')"
proof -
  obtain mem where m: "w ctx = Some mem" "\<not> 512 > (of_nat (length mem) :: u64)"
      "w' = w(ctx := Some (put_at 0 (take 512 data) mem))"
    using assms(2) by (auto simp: fs_mem_write_def K64_ROOTFS_BLOCK_SIZE_def Let_def split: option.splits if_splits)
  have "512 \<le> length mem"
  proof (rule ccontr)
    assume "\<not> 512 \<le> length mem"
    then show False using m(2) by (simp add: word_less_nat_alt unat_of_nat_small)
  qed
  then show ?thesis
    using m assms(1)
    by (simp add: fs_mem_read_def K64_ROOTFS_BLOCK_SIZE_def Let_def bytes_at_put_same)
qed

lemma one_disk_write: "fst (k64_block_write_k64_mbr (Some 0) one_disk) = Ok ()"
  by (simp add: k64_block_write_k64_mbr_def one_disk_def mem_disk_def k64_block_write_def
      fs_mem_write_def K64_ROOTFS_BLOCK_SIZE_def K64_MBR_PARTITION_LBA_def length_k64_mbr Let_def)

lemma one_disk_formatted:
  "\<exists>d. block_devices (snd (k64_block_write_k64_mbr (Some 0) one_disk)) = [mem_disk, d] \<and> bd_name d = ''md0p1'' \<and> block_count d = 2048"
proof -
  obtain s' where run: "k64_block_write_k64_mbr (Some 0) one_disk = (Ok (), s')"
    using one_disk_write by (cases "k64_block_write_k64_mbr (Some 0) one_disk") auto
  have "\<exists>d. block_devices s' = block_devices one_disk @ [d] \<and> bd_name d = bd_name mem_disk @ ''p1'' \<and>
     start_lba d = 2048 \<and> block_count d = block_count mem_disk - 2048 \<and> partition_type d = 0x83 \<and> part_of mem_disk d"
    by (rule mbr_roundtrip [OF _ _ _ _ _ run, where rd = fs_mem_read and wr = fs_mem_write])
      (simp_all add: one_disk_def mem_disk_def mem_sector0 K64_MAX_BLOCK_DEVICES_def
        partition_name_exists_def k64_block_find_device_by_name_def k64_streq_iff c_string_def)
  moreover have "block_devices one_disk = [mem_disk]" by (simp add: one_disk_def)
  moreover have "bd_name mem_disk = ''md0''" "block_count mem_disk = 4096" by (simp_all add: mem_disk_def)
  ultimately show ?thesis using run by auto
qed

text \<open>The same medium with the K64 boot record in its first sector, before the scan.\<close>

definition mbr_disk :: "memdevs blocks" where
  "mbr_disk = one_disk\<lparr>drivers := (drivers one_disk)
     (0 := Some (put_at 0 (take 512 (k64_mbr 4096)) (replicate 2097152 0)))\<rparr>"

lemma mbr_disk_scan:
  "k64_block_write_k64_mbr (Some 0) one_disk = (Ok (), k64_block_scan_partitions (Some 0) mbr_disk)"
proof -
  have "k64_block_write (Some mem_disk) 0 1 (k64_mbr 4096) (drivers one_disk) = (Ok (), drivers mbr_disk)"
    by (simp add: mbr_disk_def one_disk_def mem_disk_def k64_block_write_def
      fs_mem_write_def K64_ROOTFS_BLOCK_SIZE_def length_k64_mbr Let_def)
  moreover have "mbr_disk = one_disk\<lparr>drivers := drivers mbr_disk\<rparr>" by (simp add: mbr_disk_def)
  ultimately show ?thesis
    by (simp add: k64_block_write_k64_mbr_def one_disk_def mem_disk_def K64_MBR_PARTITION_LBA_def)
qed

theorem partition_io_confined_witness:
  "\<exists>d. block_devices (k64_block_scan_partitions (Some 0) mbr_disk) = [mem_disk, d] \<and>
     block_count d = 2048 \<and> unat (start_lba d) + 2048 \<le> 4096 \<and>
     k64_block_read (Some d) 2047 1 (drivers mbr_disk) =
       fs_mem_read 0 (start_lba d + 2047) 1 (drivers mbr_disk) \<and>
     k64_block_read (Some d) 2047 2 (drivers mbr_disk) = (Fail, drivers mbr_disk)"
proof -
  let ?s' = "k64_block_scan_partitions (Some 0) mbr_disk"
  obtain d where d: "block_devices ?s' = [mem_disk, d]" "block_count d = 2048"
    using one_disk_formatted by (auto simp: mbr_disk_scan)
  have m: "block_devices mbr_disk = [mem_disk]" by (simp add: mbr_disk_def one_disk_def)
  have "0 < length (block_devices mbr_disk)" "length (block_devices mbr_disk) \<le> K64_MAX_BLOCK_DEVICES"
      "mem_disk = block_devices mbr_disk ! 0"
    by (simp_all add: m K64_MAX_BLOCK_DEVICES_def)
  note c = partition_io_confined [OF this refl]
  have e: "bd_read mem_disk = Some fs_mem_read" "bd_context mem_disk = 0" "block_count mem_disk = 4096"
    by (simp_all add: mem_disk_def)
  show ?thesis
    using c [of 1 2047 "drivers mbr_disk"] c [of 2 2047 "drivers mbr_disk"] d
    by (auto simp: m e)
qed

end
