(* ===== verification/Xfs_Format.thy ===== *)
theory Xfs_Format
  imports K64_String
begin

text \<open>
  The on-disk format of the K64XFS file system, \<^verbatim>\<open>src/k64_xfs_format.h\<close> and
  \<^verbatim>\<open>src/k64_xfs_format.c\<close>: the packed little-endian structures as records with their
  encodings (\<^verbatim>\<open>memcpy\<close> between a structure and a buffer is \<open>enc_\<close> and \<open>dec_\<close>), and the CRC-32
  that protects them.

  The lemmas show that the encodings are bijective between records with arrays of the right
  length and byte strings of the structure's size, and that the checksum detects every
  change confined to four consecutive bytes.
\<close>

section \<open>Constants\<close>

definition K64_XFS_MAGIC :: string where "K64_XFS_MAGIC = ''K64XFS1''"
definition K64_XFS_MAGIC_SIZE :: nat where "K64_XFS_MAGIC_SIZE = 7"
definition K64_XFS_VERSION_MAJOR :: u16 where "K64_XFS_VERSION_MAJOR = 1"
definition K64_XFS_VERSION_MINOR :: u16 where "K64_XFS_VERSION_MINOR = 0"
definition K64_XFS_BLOCK_SIZE :: nat where "K64_XFS_BLOCK_SIZE = 4096"
definition K64_XFS_LABEL_MAX :: nat where "K64_XFS_LABEL_MAX = 32"
definition K64_XFS_UUID_SIZE :: nat where "K64_XFS_UUID_SIZE = 16"
definition K64_XFS_MAX_INODES :: nat where "K64_XFS_MAX_INODES = 512"
definition K64_XFS_DIRECT_EXTENTS :: nat where "K64_XFS_DIRECT_EXTENTS = 8"
definition K64_XFS_NAME_MAX :: nat where "K64_XFS_NAME_MAX = 128"
definition K64_XFS_JOURNAL_BLOCKS :: nat where "K64_XFS_JOURNAL_BLOCKS = 32"
definition K64_XFS_MOUNT_CLEAN :: u32 where "K64_XFS_MOUNT_CLEAN = 1"
definition K64_XFS_MOUNT_DIRTY :: u32 where "K64_XFS_MOUNT_DIRTY = 2"
definition K64_XFS_MOUNT_NEEDS_RECOVERY :: u32 where "K64_XFS_MOUNT_NEEDS_RECOVERY = 3"
definition K64_XFS_INODE_MAGIC :: u32 where "K64_XFS_INODE_MAGIC = 0x58494E4F"
definition K64_XFS_TYPE_REGULAR :: u16 where "K64_XFS_TYPE_REGULAR = 1"
definition K64_XFS_TYPE_DIRECTORY :: u16 where "K64_XFS_TYPE_DIRECTORY = 2"
definition K64_XFS_TYPE_PIPE :: u16 where "K64_XFS_TYPE_PIPE = 5"
definition K64_XFS_JOURNAL_MAGIC :: u32 where "K64_XFS_JOURNAL_MAGIC = 0x584A4E4C"
definition K64_XFS_JOURNAL_COMMIT :: u32 where "K64_XFS_JOURNAL_COMMIT = 1"
definition K64_XFS_JOURNAL_METADATA_BLOCK :: u32 where "K64_XFS_JOURNAL_METADATA_BLOCK = 2"

section \<open>Structures\<close>

record k64_xfs_extent =
  ex_logical_block :: u64
  ex_physical_block :: u64
  ex_block_count :: u64
  ex_flags :: u32
  ex_reserved :: u32

record k64_xfs_inode =
  i_magic :: u32
  i_inode_id :: u32
  i_type :: u16
  i_mode :: u16
  i_uid :: u32
  i_gid :: u32
  i_size :: u64
  i_link_count :: u32
  i_flags :: u32
  i_created_tick :: u64
  i_modified_tick :: u64
  i_accessed_tick :: u64
  i_generation :: u64
  i_extent_count :: u32
  i_reserved0 :: u32
  i_direct_extents :: "k64_xfs_extent list"
  i_indirect_extent_block :: u64
  i_checksum :: u32
  i_reserved1 :: bytes

record k64_xfs_dirent =
  de_inode_id :: u32
  de_type :: u16
  de_name_len :: u16
  de_name :: bytes
  de_checksum :: u32
  de_reserved :: bytes

record k64_xfs_superblock =
  sb_magic :: bytes
  sb_version_major :: u16
  sb_version_minor :: u16
  sb_block_size :: u32
  sb_total_blocks :: u64
  sb_free_blocks :: u64
  sb_inode_table_start :: u64
  sb_inode_table_blocks :: u64
  sb_block_bitmap_start :: u64
  sb_block_bitmap_blocks :: u64
  sb_inode_bitmap_start :: u64
  sb_inode_bitmap_blocks :: u64
  sb_journal_start :: u64
  sb_journal_blocks :: u64
  sb_data_start :: u64
  sb_root_inode :: u32
  sb_mount_state :: u32
  sb_feature_flags_compat :: u64
  sb_feature_flags_ro_compat :: u64
  sb_feature_flags_incompat :: u64
  sb_uuid :: bytes
  sb_label :: bytes
  sb_generation :: u64
  sb_checksum :: u32
  sb_reserved :: bytes

record k64_xfs_journal_entry =
  je_magic :: u32
  je_tx_id :: u64
  je_type :: u32
  je_target_block :: u64
  je_payload_size :: u32
  je_payload_checksum :: u32
  je_header_checksum :: u32

text \<open>Sizes of the packed structures.\<close>

definition extent_size :: nat where "extent_size = 32"
definition inode_size :: nat where "inode_size = 372"
definition dirent_size :: nat where "dirent_size = 160"
definition super_size :: nat where "super_size = 3980"
definition journal_entry_size :: nat where "journal_entry_size = 36"

section \<open>Encodings\<close>

definition enc_extent :: "k64_xfs_extent \<Rightarrow> bytes" where
  "enc_extent e = le_enc 8 (ex_logical_block e) @ le_enc 8 (ex_physical_block e) @
     le_enc 8 (ex_block_count e) @ le_enc 4 (ex_flags e) @ le_enc 4 (ex_reserved e)"

definition dec_extent :: "bytes \<Rightarrow> k64_xfs_extent" where
  "dec_extent b = \<lparr>ex_logical_block = le_dec (bytes_at 0 8 b), ex_physical_block = le_dec (bytes_at 8 8 b),
     ex_block_count = le_dec (bytes_at 16 8 b), ex_flags = le_dec (bytes_at 24 4 b),
     ex_reserved = le_dec (bytes_at 28 4 b)\<rparr>"

definition enc_inode :: "k64_xfs_inode \<Rightarrow> bytes" where
  "enc_inode i = le_enc 4 (i_magic i) @ le_enc 4 (i_inode_id i) @ le_enc 2 (i_type i) @
     le_enc 2 (i_mode i) @ le_enc 4 (i_uid i) @ le_enc 4 (i_gid i) @ le_enc 8 (i_size i) @
     le_enc 4 (i_link_count i) @ le_enc 4 (i_flags i) @ le_enc 8 (i_created_tick i) @
     le_enc 8 (i_modified_tick i) @ le_enc 8 (i_accessed_tick i) @ le_enc 8 (i_generation i) @
     le_enc 4 (i_extent_count i) @ le_enc 4 (i_reserved0 i) @
     concat (map enc_extent (i_direct_extents i)) @ le_enc 8 (i_indirect_extent_block i) @
     le_enc 4 (i_checksum i) @ i_reserved1 i"

definition dec_inode :: "bytes \<Rightarrow> k64_xfs_inode" where
  "dec_inode b = \<lparr>i_magic = le_dec (bytes_at 0 4 b), i_inode_id = le_dec (bytes_at 4 4 b),
     i_type = le_dec (bytes_at 8 2 b), i_mode = le_dec (bytes_at 10 2 b),
     i_uid = le_dec (bytes_at 12 4 b), i_gid = le_dec (bytes_at 16 4 b),
     i_size = le_dec (bytes_at 20 8 b), i_link_count = le_dec (bytes_at 28 4 b),
     i_flags = le_dec (bytes_at 32 4 b), i_created_tick = le_dec (bytes_at 36 8 b),
     i_modified_tick = le_dec (bytes_at 44 8 b), i_accessed_tick = le_dec (bytes_at 52 8 b),
     i_generation = le_dec (bytes_at 60 8 b), i_extent_count = le_dec (bytes_at 68 4 b),
     i_reserved0 = le_dec (bytes_at 72 4 b),
     i_direct_extents = map (\<lambda>k. dec_extent (bytes_at (76 + 32 * k) 32 b)) [0..<8],
     i_indirect_extent_block = le_dec (bytes_at 332 8 b), i_checksum = le_dec (bytes_at 340 4 b),
     i_reserved1 = bytes_at 344 28 b\<rparr>"

definition enc_dirent :: "k64_xfs_dirent \<Rightarrow> bytes" where
  "enc_dirent d = le_enc 4 (de_inode_id d) @ le_enc 2 (de_type d) @ le_enc 2 (de_name_len d) @
     de_name d @ le_enc 4 (de_checksum d) @ de_reserved d"

definition dec_dirent :: "bytes \<Rightarrow> k64_xfs_dirent" where
  "dec_dirent b = \<lparr>de_inode_id = le_dec (bytes_at 0 4 b), de_type = le_dec (bytes_at 4 2 b),
     de_name_len = le_dec (bytes_at 6 2 b), de_name = bytes_at 8 128 b,
     de_checksum = le_dec (bytes_at 136 4 b), de_reserved = bytes_at 140 20 b\<rparr>"

definition enc_super :: "k64_xfs_superblock \<Rightarrow> bytes" where
  "enc_super s = sb_magic s @ le_enc 2 (sb_version_major s) @ le_enc 2 (sb_version_minor s) @
     le_enc 4 (sb_block_size s) @ le_enc 8 (sb_total_blocks s) @ le_enc 8 (sb_free_blocks s) @
     le_enc 8 (sb_inode_table_start s) @ le_enc 8 (sb_inode_table_blocks s) @
     le_enc 8 (sb_block_bitmap_start s) @ le_enc 8 (sb_block_bitmap_blocks s) @
     le_enc 8 (sb_inode_bitmap_start s) @ le_enc 8 (sb_inode_bitmap_blocks s) @
     le_enc 8 (sb_journal_start s) @ le_enc 8 (sb_journal_blocks s) @ le_enc 8 (sb_data_start s) @
     le_enc 4 (sb_root_inode s) @ le_enc 4 (sb_mount_state s) @ le_enc 8 (sb_feature_flags_compat s) @
     le_enc 8 (sb_feature_flags_ro_compat s) @ le_enc 8 (sb_feature_flags_incompat s) @
     sb_uuid s @ sb_label s @ le_enc 8 (sb_generation s) @ le_enc 4 (sb_checksum s) @ sb_reserved s"

definition dec_super :: "bytes \<Rightarrow> k64_xfs_superblock" where
  "dec_super b = \<lparr>sb_magic = bytes_at 0 8 b, sb_version_major = le_dec (bytes_at 8 2 b),
     sb_version_minor = le_dec (bytes_at 10 2 b), sb_block_size = le_dec (bytes_at 12 4 b),
     sb_total_blocks = le_dec (bytes_at 16 8 b), sb_free_blocks = le_dec (bytes_at 24 8 b),
     sb_inode_table_start = le_dec (bytes_at 32 8 b), sb_inode_table_blocks = le_dec (bytes_at 40 8 b),
     sb_block_bitmap_start = le_dec (bytes_at 48 8 b), sb_block_bitmap_blocks = le_dec (bytes_at 56 8 b),
     sb_inode_bitmap_start = le_dec (bytes_at 64 8 b), sb_inode_bitmap_blocks = le_dec (bytes_at 72 8 b),
     sb_journal_start = le_dec (bytes_at 80 8 b), sb_journal_blocks = le_dec (bytes_at 88 8 b),
     sb_data_start = le_dec (bytes_at 96 8 b), sb_root_inode = le_dec (bytes_at 104 4 b),
     sb_mount_state = le_dec (bytes_at 108 4 b), sb_feature_flags_compat = le_dec (bytes_at 112 8 b),
     sb_feature_flags_ro_compat = le_dec (bytes_at 120 8 b),
     sb_feature_flags_incompat = le_dec (bytes_at 128 8 b), sb_uuid = bytes_at 136 16 b,
     sb_label = bytes_at 152 32 b, sb_generation = le_dec (bytes_at 184 8 b),
     sb_checksum = le_dec (bytes_at 192 4 b), sb_reserved = bytes_at 196 3784 b\<rparr>"

definition enc_journal_entry :: "k64_xfs_journal_entry \<Rightarrow> bytes" where
  "enc_journal_entry e = le_enc 4 (je_magic e) @ le_enc 8 (je_tx_id e) @ le_enc 4 (je_type e) @
     le_enc 8 (je_target_block e) @ le_enc 4 (je_payload_size e) @ le_enc 4 (je_payload_checksum e) @
     le_enc 4 (je_header_checksum e)"

definition dec_journal_entry :: "bytes \<Rightarrow> k64_xfs_journal_entry" where
  "dec_journal_entry b = \<lparr>je_magic = le_dec (bytes_at 0 4 b), je_tx_id = le_dec (bytes_at 4 8 b),
     je_type = le_dec (bytes_at 12 4 b), je_target_block = le_dec (bytes_at 16 8 b),
     je_payload_size = le_dec (bytes_at 24 4 b), je_payload_checksum = le_dec (bytes_at 28 4 b),
     je_header_checksum = le_dec (bytes_at 32 4 b)\<rparr>"

section \<open>Checksums\<close>

definition crc_bit :: "u32 \<Rightarrow> u32" where
  "crc_bit crc = (let m = 0 - (crc AND 1) in drop_bit 1 crc XOR (0xEDB88320 AND m))"

definition crc_byte :: "u32 \<Rightarrow> u8 \<Rightarrow> u32" where
  "crc_byte crc b = (crc_bit ^^ 8) (crc XOR ucast b)"

definition k64_xfs_crc32 :: "bytes \<Rightarrow> u32" where
  "k64_xfs_crc32 data = NOT (foldl crc_byte 0xFFFFFFFF data)"

definition k64_xfs_super_checksum :: "k64_xfs_superblock \<Rightarrow> u32" where
  "k64_xfs_super_checksum sb = k64_xfs_crc32 (enc_super (sb\<lparr>sb_checksum := 0\<rparr>))"

definition k64_xfs_inode_checksum :: "k64_xfs_inode \<Rightarrow> u32" where
  "k64_xfs_inode_checksum inode = k64_xfs_crc32 (enc_inode (inode\<lparr>i_checksum := 0\<rparr>))"

definition k64_xfs_dirent_checksum :: "k64_xfs_dirent \<Rightarrow> u32" where
  "k64_xfs_dirent_checksum dirent = k64_xfs_crc32 (enc_dirent (dirent\<lparr>de_checksum := 0\<rparr>))"

definition journal_header_checksum :: "k64_xfs_journal_entry \<Rightarrow> u32" where
  "journal_header_checksum entry = k64_xfs_crc32 (enc_journal_entry (entry\<lparr>je_header_checksum := 0\<rparr>))"

section \<open>Round trips\<close>

definition wf_inode :: "k64_xfs_inode \<Rightarrow> bool" where
  "wf_inode i \<longleftrightarrow> length (i_direct_extents i) = 8 \<and> length (i_reserved1 i) = 28"

definition wf_dirent :: "k64_xfs_dirent \<Rightarrow> bool" where
  "wf_dirent d \<longleftrightarrow> length (de_name d) = 128 \<and> length (de_reserved d) = 20"

definition wf_super :: "k64_xfs_superblock \<Rightarrow> bool" where
  "wf_super s \<longleftrightarrow> length (sb_magic s) = 8 \<and> length (sb_uuid s) = 16 \<and> length (sb_label s) = 32 \<and>
     length (sb_reserved s) = 3784"

lemma bytes_at_skip: "length xs \<le> k \<Longrightarrow> bytes_at k n (xs @ ys) = bytes_at (k - length xs) n ys"
  by (simp add: bytes_at_def)

lemma bytes_at_head: "n = length xs \<Longrightarrow> bytes_at 0 n (xs @ ys) = xs"
  by (simp add: bytes_at_def)

lemma bytes_at_join:
  "m = k + n \<Longrightarrow> m \<le> length b \<Longrightarrow> bytes_at k n b @ bytes_at m l b = bytes_at k (n + l) b"
  by (simp add: bytes_at_def take_add add.commute [of n k])

lemma bytes_at_join_more:
  "m = k + n \<Longrightarrow> m \<le> length b \<Longrightarrow> bytes_at k n b @ bytes_at m l b @ r = bytes_at k (n + l) b @ r"
  by (simp add: bytes_at_join flip: append_assoc)

lemma le_enc_dec_at:
  "k + n \<le> length b \<Longrightarrow> 8 * n \<le> LENGTH('a) \<Longrightarrow> le_enc n (le_dec (bytes_at k n b) :: 'a::len word) = bytes_at k n b"
  using le_enc_le_dec [where 'a = 'a, of "bytes_at k n b"] by simp

lemmas field_simps_dec = bytes_at_skip bytes_at_head bytes_at_0 le_dec_le_enc
lemmas field_simps_enc = le_enc_dec_at bytes_at_join bytes_at_join_more

lemma length_enc_extent [simp]: "length (enc_extent e) = 32"
  by (simp add: enc_extent_def)

lemma dec_enc_extent [simp]: "dec_extent (enc_extent e) = e"
  by (simp add: dec_extent_def enc_extent_def field_simps_dec)

lemma enc_dec_extent: "length b = 32 \<Longrightarrow> enc_extent (dec_extent b) = b"
  by (simp add: dec_extent_def enc_extent_def field_simps_enc bytes_at_0)

lemma length_enc_extents [simp]: "length (concat (map enc_extent es)) = 32 * length es"
  by (induction es) auto

lemma bytes_at_extents:
  "k < length es \<Longrightarrow> bytes_at (32 * k) 32 (concat (map enc_extent es) @ r) = enc_extent (es ! k)"
proof (induction es arbitrary: k)
  case Nil
  then show ?case by simp
next
  case (Cons e es)
  then show ?case by (cases k) (simp_all add: field_simps_dec)
qed

lemma length_enc_inode [simp]: "wf_inode i \<Longrightarrow> length (enc_inode i) = inode_size"
  by (simp add: enc_inode_def wf_inode_def inode_size_def)

lemma dec_enc_inode [simp]:
  assumes "wf_inode i"
  shows "dec_inode (enc_inode i) = i"
proof -
  have e: "map (\<lambda>k. dec_extent (bytes_at (76 + 32 * k) 32 (enc_inode i))) [0..<8] = i_direct_extents i"
    using assms by (intro nth_equalityI)
      (simp_all add: wf_inode_def enc_inode_def field_simps_dec bytes_at_extents)
  show ?thesis
    unfolding dec_inode_def e using assms
    by (simp add: enc_inode_def wf_inode_def field_simps_dec)
qed

lemma wf_dec_inode: "length b = inode_size \<Longrightarrow> wf_inode (dec_inode b)"
  by (simp add: dec_inode_def wf_inode_def inode_size_def)

lemma concat_bytes_at:
  "k + 32 * n \<le> length b \<Longrightarrow> concat (map (\<lambda>j. bytes_at (k + 32 * j) 32 b) [0..<n]) = bytes_at k (32 * n) b"
proof (induction n)
  case 0
  then show ?case by (simp add: bytes_at_def)
next
  case (Suc n)
  then show ?case by (simp add: bytes_at_join add.commute)
qed

lemma enc_dec_inode: 
  assumes "length b = inode_size"
  shows "enc_inode (dec_inode b) = b"
proof -
  have eq: "map (enc_extent \<circ> (\<lambda>k. dec_extent (bytes_at (76 + 32 * k) 32 b))) [0..<8]
      = map (\<lambda>k. bytes_at (76 + 32 * k) 32 b) [0..<8]"
    using assms by (simp add: inode_size_def enc_dec_extent)
  have "concat (map enc_extent (i_direct_extents (dec_inode b))) = bytes_at 76 256 b"
    using concat_bytes_at [of 76 8 b] assms unfolding dec_inode_def k64_xfs_inode.select_convs map_map eq
    by (simp add: inode_size_def)
  then show ?thesis
    using assms unfolding enc_inode_def
    by (simp add: dec_inode_def inode_size_def field_simps_enc bytes_at_0)
qed

lemma length_enc_dirent [simp]: "wf_dirent d \<Longrightarrow> length (enc_dirent d) = dirent_size"
  by (simp add: enc_dirent_def wf_dirent_def dirent_size_def)

lemma dec_enc_dirent [simp]: "wf_dirent d \<Longrightarrow> dec_dirent (enc_dirent d) = d"
  by (simp add: dec_dirent_def enc_dirent_def wf_dirent_def field_simps_dec)

lemma wf_dec_dirent: "length b = dirent_size \<Longrightarrow> wf_dirent (dec_dirent b)"
  by (simp add: dec_dirent_def wf_dirent_def dirent_size_def)

lemma enc_dec_dirent: "length b = dirent_size \<Longrightarrow> enc_dirent (dec_dirent b) = b"
  by (simp add: dec_dirent_def enc_dirent_def dirent_size_def field_simps_enc bytes_at_0)

lemma length_enc_super [simp]: "wf_super s \<Longrightarrow> length (enc_super s) = super_size"
  by (simp add: enc_super_def wf_super_def super_size_def)

lemma dec_enc_super_append:
  "wf_super s \<Longrightarrow> dec_super (enc_super s @ r) = s"
  by (simp add: dec_super_def enc_super_def wf_super_def field_simps_dec)

lemma wf_dec_super: "super_size \<le> length b \<Longrightarrow> wf_super (dec_super b)"
  by (simp add: dec_super_def wf_super_def super_size_def)

lemma enc_dec_super: "length b = super_size \<Longrightarrow> enc_super (dec_super b) = b"
  by (simp add: dec_super_def enc_super_def super_size_def field_simps_enc bytes_at_0)

lemma length_enc_journal_entry [simp]: "length (enc_journal_entry e) = journal_entry_size"
  by (simp add: enc_journal_entry_def journal_entry_size_def)

lemma dec_enc_journal_entry_append: "dec_journal_entry (enc_journal_entry e @ r) = e"
  by (simp add: dec_journal_entry_def enc_journal_entry_def field_simps_dec)

lemma enc_dec_journal_entry:
  "length b = journal_entry_size \<Longrightarrow> enc_journal_entry (dec_journal_entry b) = b"
  by (simp add: dec_journal_entry_def enc_journal_entry_def journal_entry_size_def field_simps_enc bytes_at_0)

section \<open>What the checksum detects\<close>

lemma crc_poly_top: "bit (0xEDB88320 :: u32) 31"
  by simp

lemma minus_bit0: "- (x AND 1) = (if bit x 0 then - 1 else (0 :: u32))"
  by (simp add: and_one_eq bit_0 odd_iff_mod_2_eq_one)

lemma crc_bit_eq: "crc_bit x = drop_bit 1 x XOR (if bit x 0 then 0xEDB88320 else 0)"
  by (simp add: crc_bit_def Let_def minus_bit0)

text \<open>One step is a linear bijection: the top bit of the result tells whether the polynomial was added.\<close>

lemma crc_bit_xor: "crc_bit (x XOR y) = crc_bit x XOR crc_bit y"
proof (rule bit_word_eqI)
  fix n
  show "bit (crc_bit (x XOR y)) n = bit (crc_bit x XOR crc_bit y) n"
    by (auto simp: crc_bit_eq bit_simps)
qed

lemma crc_bit_eq_0: "crc_bit x = 0 \<Longrightarrow> x = 0"
proof -
  assume 0: "crc_bit x = 0"
  have "\<not> bit x 0"
  proof
    assume "bit x 0"
    moreover have "\<not> bit x 32" by (auto dest: bit_imp_le_length)
    ultimately have "bit (crc_bit x) 31" using crc_poly_top by (simp add: crc_bit_eq bit_simps)
    with 0 show False by simp
  qed
  with 0 have d: "drop_bit 1 x = 0" by (simp add: crc_bit_eq)
  show "x = 0"
  proof (rule bit_word_eqI)
    fix n
    show "bit x n = bit 0 n"
      using \<open>\<not> bit x 0\<close> arg_cong [OF d, of "\<lambda>w. bit w (n - 1)"] by (cases n) (auto simp: bit_simps)
  qed
qed

lemma crc_bits_xor: "(crc_bit ^^ k) (x XOR y) = (crc_bit ^^ k) x XOR (crc_bit ^^ k) y"
  by (induction k) (simp_all add: crc_bit_xor)

lemma crc_bits_eq_0: "(crc_bit ^^ k) x = 0 \<Longrightarrow> x = 0"
  by (induction k) (auto dest: crc_bit_eq_0)

lemma crc_bits_inj: "(crc_bit ^^ k) x = (crc_bit ^^ k) y \<Longrightarrow> x = y"
proof -
  assume "(crc_bit ^^ k) x = (crc_bit ^^ k) y"
  then have "(crc_bit ^^ k) (x XOR y) = 0" by (simp add: crc_bits_xor)
  then have "x XOR y = 0" by (rule crc_bits_eq_0)
  then show "x = y" by (metis xor.right_neutral xor_self_eq bit.xor_left_self)
qed

text \<open>Steps over zero low bits only shift.\<close>

lemma crc_bits_shift: "k \<le> 32 \<Longrightarrow> \<forall>i. 32 - k \<le> i \<longrightarrow> \<not> bit v i \<Longrightarrow> (crc_bit ^^ k) (push_bit k v) = v"
proof (induction k)
  case 0
  then show ?case by simp
next
  case (Suc k)
  have b: "crc_bit (push_bit (Suc k) v) = push_bit k v"
  proof (rule bit_word_eqI)
    fix n assume "n < LENGTH(32)"
    moreover have "n = 31 \<Longrightarrow> \<not> bit v (n - k)" using Suc.prems by simp
    ultimately show "bit (crc_bit (push_bit (Suc k) v)) n = bit (push_bit k v) n"
      by (cases "n = 31") (auto simp: crc_bit_eq bit_simps simp del: push_bit_Suc)
  qed
  have "(crc_bit ^^ k) (push_bit k v) = v" using Suc by auto
  with b show ?case by (simp add: funpow_swap1)
qed

text \<open>Up to four bytes at once: the register takes them in as one word.\<close>

lemma bit_le_dec: "bit (le_dec bs :: u32) i \<Longrightarrow> i < 8 * length bs"
proof (induction bs arbitrary: i)
  case Nil
  then show ?case by simp
next
  case (Cons b bs)
  then show ?case
    by (auto simp: bit_simps dest: bit_imp_le_length)
      (metis Cons.IH less_diff_conv2 not_less add.commute)
qed

lemma crc_bytes:
  "length bs \<le> 4 \<Longrightarrow> foldl crc_byte c bs = (crc_bit ^^ (8 * length bs)) (c XOR le_dec bs)"
proof (induction bs arbitrary: c)
  case Nil
  then show ?case by simp
next
  case (Cons b bs)
  let ?r = "le_dec bs :: u32"
  have "(crc_bit ^^ 8) (push_bit 8 ?r) = ?r"
    using Cons.prems by (intro crc_bits_shift) (auto dest: bit_le_dec)
  then have "crc_byte c b XOR ?r = (crc_bit ^^ 8) (c XOR ucast b XOR push_bit 8 ?r)"
    by (simp add: crc_byte_def crc_bits_xor xor.assoc)
  moreover have "ucast b XOR push_bit 8 ?r = (le_dec (b # bs) :: u32)"
    by (rule bit_word_eqI) (auto simp: bit_simps dest: bit_imp_le_length)
  ultimately have "crc_byte c b XOR ?r = (crc_bit ^^ 8) (c XOR le_dec (b # bs))"
    by (simp add: xor.assoc)
  then show ?case
    using Cons funpow_add [of "8 * length bs" 8 crc_bit] by (simp add: add.commute)
qed

lemma xor_cancel: "a XOR c = b XOR c \<Longrightarrow> a = (b :: u32)"
proof -
  assume "a XOR c = b XOR c"
  then have "(a XOR c) XOR c = (b XOR c) XOR c" by simp
  then show "a = b" by (simp add: xor.assoc)
qed

lemma crc_fold_inj: "foldl crc_byte c bs = foldl crc_byte c' bs \<Longrightarrow> c = c'"
proof (induction bs arbitrary: c c')
  case Nil
  then show ?case by simp
next
  case (Cons b bs)
  have "crc_byte c b = crc_byte c' b" using Cons by auto
  then have "c XOR ucast b = c' XOR ucast b" unfolding crc_byte_def by (rule crc_bits_inj)
  then show ?case by (rule xor_cancel)
qed

lemma le_dec_inj:
  assumes "length bs = length cs" and "length bs \<le> 4" and "(le_dec bs :: u32) = le_dec cs"
  shows "bs = cs"
proof -
  have "le_enc (length bs) (le_dec bs :: u32) = bs" by (rule le_enc_le_dec) (use assms(2) in simp)
  moreover have "le_enc (length cs) (le_dec cs :: u32) = cs"
    by (rule le_enc_le_dec) (use assms(1,2) in simp)
  ultimately show ?thesis using assms(1,3) by metis
qed

lemma crc32_detects_burst:
  assumes "length bs = length cs" and "length bs \<le> 4"
    and "k64_xfs_crc32 (xs @ bs @ ys) = k64_xfs_crc32 (xs @ cs @ ys)"
  shows "bs = cs"
proof -
  let ?c = "foldl crc_byte 0xFFFFFFFF xs"
  have "foldl crc_byte (foldl crc_byte ?c bs) ys = foldl crc_byte (foldl crc_byte ?c cs) ys"
    using assms(3) by (simp add: k64_xfs_crc32_def)
  then have "foldl crc_byte ?c bs = foldl crc_byte ?c cs" by (rule crc_fold_inj)
  then have "(crc_bit ^^ (8 * length bs)) (?c XOR le_dec bs) = (crc_bit ^^ (8 * length bs)) (?c XOR le_dec cs)"
    using assms(1,2) by (simp add: crc_bytes)
  then have "?c XOR le_dec bs = ?c XOR le_dec cs" by (rule crc_bits_inj)
  then have "(le_dec bs :: u32) = le_dec cs" by (metis bit.xor_left_self)
  then show ?thesis using assms(1,2) by (intro le_dec_inj)
qed

lemma put_at_append_left: "k + length d \<le> length xs \<Longrightarrow> put_at k d (xs @ ys) = put_at k d xs @ ys"
  by (simp add: put_at_def)

lemma put_at_append_right: "length xs \<le> k \<Longrightarrow> put_at k d (xs @ ys) = xs @ put_at (k - length xs) d ys"
  by (simp add: put_at_def)

text \<open>The checksum of an inode is over the record with its own field zeroed.\<close>

definition inode_prefix :: "k64_xfs_inode \<Rightarrow> bytes" where
  "inode_prefix i = take (length (enc_inode i) - length (i_reserved1 i) - 4) (enc_inode i)"

lemma enc_inode_split: "enc_inode i = inode_prefix i @ le_enc 4 (i_checksum i) @ i_reserved1 i"
  by (simp add: inode_prefix_def enc_inode_def)

lemma inode_prefix_checksum: "inode_prefix (i\<lparr>i_checksum := c\<rparr>) = inode_prefix i"
  by (simp add: inode_prefix_def enc_inode_def)

lemma length_inode_prefix: "wf_inode i \<Longrightarrow> length (inode_prefix i) = 340"
  by (simp add: inode_prefix_def enc_inode_def wf_inode_def)

lemma inode_checksum_at:
  assumes "length b = inode_size"
  shows "k64_xfs_inode_checksum (dec_inode b) = k64_xfs_crc32 (put_at 340 (replicate 4 0) b)"
proof -
  let ?i = "dec_inode b"
  have b: "b = inode_prefix ?i @ le_enc 4 (i_checksum ?i) @ i_reserved1 ?i"
    using enc_inode_split [of ?i] enc_dec_inode [OF assms] by simp
  have l: "length (inode_prefix ?i) = 340" by (rule length_inode_prefix [OF wf_dec_inode [OF assms]])
  have "enc_inode (?i\<lparr>i_checksum := 0\<rparr>) = inode_prefix ?i @ replicate 4 0 @ i_reserved1 ?i"
    unfolding enc_inode_split [of "?i\<lparr>i_checksum := 0\<rparr>"] by (simp add: inode_prefix_checksum numeral_eq_Suc)
  also have "\<dots> = put_at 340 (replicate 4 0) (inode_prefix ?i @ le_enc 4 (i_checksum ?i) @ i_reserved1 ?i)"
    by (simp add: put_at_def l)
  finally show ?thesis using b by (simp add: k64_xfs_inode_checksum_def)
qed

definition checksum_ok :: "bytes \<Rightarrow> bool" where
  "checksum_ok b \<longleftrightarrow> i_checksum (dec_inode b) = k64_xfs_inode_checksum (dec_inode b)"

lemma checksum_ok_bytes:
  "length b = inode_size \<Longrightarrow>
   checksum_ok b \<longleftrightarrow> le_dec (bytes_at 340 4 b) = k64_xfs_crc32 (put_at 340 (replicate 4 0) b)"
  by (simp add: checksum_ok_def inode_checksum_at) (simp add: dec_inode_def)

lemma inode_burst_detected:
  assumes len: "length (xs @ bs @ ys) = inode_size" "length bs = length cs" "length bs \<le> 4" and "bs \<noteq> cs"
    and place: "length xs + length bs \<le> 340 \<or> 344 \<le> length xs \<or> (340 \<le> length xs \<and> length xs + length bs \<le> 344)"
    and ok: "checksum_ok (xs @ bs @ ys)"
  shows "\<not> checksum_ok (xs @ cs @ ys)"
proof
  assume "checksum_ok (xs @ cs @ ys)"
  with ok len have eq: "le_dec (bytes_at 340 4 (xs @ bs @ ys)) = k64_xfs_crc32 (put_at 340 (replicate 4 0) (xs @ bs @ ys))"
      "le_dec (bytes_at 340 4 (xs @ cs @ ys)) = k64_xfs_crc32 (put_at 340 (replicate 4 0) (xs @ cs @ ys))"
    by (simp_all add: checksum_ok_bytes)
  have tot: "length xs + (length bs + length ys) = 372" using len(1) by (simp add: inode_size_def)
  from place consider "length xs + length bs \<le> 340" | "344 \<le> length xs" | "340 \<le> length xs \<and> length xs + length bs \<le> 344"
    by blast
  then show False
  proof cases
    case 1
    have "put_at 340 (replicate 4 0) (xs @ zs @ ys) = xs @ zs @ put_at (340 - length xs - length zs) (replicate 4 0) ys"
      "bytes_at 340 4 (xs @ zs @ ys) = bytes_at (340 - length xs - length zs) 4 ys" if "length zs = length bs" for zs
      using that 1 by (simp_all add: put_at_append_right bytes_at_skip)
    with eq len(2) have "k64_xfs_crc32 (xs @ bs @ put_at (340 - length xs - length bs) (replicate 4 0) ys)
        = k64_xfs_crc32 (xs @ cs @ put_at (340 - length xs - length bs) (replicate 4 0) ys)" by simp
    with len assms(4) show False using crc32_detects_burst by blast
  next
    case 2
    have "put_at 340 (replicate 4 0) (xs @ zs) = put_at 340 (replicate 4 0) xs @ zs"
      "bytes_at 340 4 (xs @ zs) = bytes_at 340 4 xs" for zs
      using 2 by (simp_all add: put_at_append_left bytes_at_def)
    with eq have "k64_xfs_crc32 (put_at 340 (replicate 4 0) xs @ bs @ ys) = k64_xfs_crc32 (put_at 340 (replicate 4 0) xs @ cs @ ys)"
      by simp
    with len assms(4) show False using crc32_detects_burst by blast
  next
    case 3
    have "put_at 340 (replicate 4 0) (xs @ zs @ ys) = take 340 xs @ replicate 4 0 @ drop (344 - length xs - length zs) ys"
      if "length zs = length bs" for zs
      using that 3 by (auto simp: put_at_def)
    then have "le_dec (bytes_at 340 4 (xs @ bs @ ys)) = (le_dec (bytes_at 340 4 (xs @ cs @ ys)) :: u32)"
      using eq len(2) by simp
    then have "bytes_at 340 4 (xs @ bs @ ys) = bytes_at 340 4 (xs @ cs @ ys)"
      by (rule le_dec_inj [rotated 2]) (use tot len(2) in simp_all)
    then have "bytes_at (length xs - 340) (length bs) (bytes_at 340 4 (xs @ bs @ ys)) =
        bytes_at (length xs - 340) (length bs) (bytes_at 340 4 (xs @ cs @ ys))" by simp
    moreover have "length xs - 340 + length bs \<le> 4" using 3 by linarith
    ultimately show False
      using 3 len(2) assms(4) by (simp add: bytes_at_bytes_at bytes_at_skip bytes_at_head)
  qed
qed

section \<open>Properties\<close>

text \<open>The encodings of the four on-disk structures are inverse to their decodings in both
  directions: a structure is recovered from the bytes it was copied to (also when more bytes follow, as
  in a block), and bytes of a structure's size survive being read into the structure and written back.\<close>

theorem disk_structures_roundtrip:
  "(wf_inode i \<longrightarrow> dec_inode (enc_inode i) = i) \<and> (length b = inode_size \<longrightarrow> enc_inode (dec_inode b) = b) \<and>
   (wf_dirent d \<longrightarrow> dec_dirent (enc_dirent d) = d) \<and> (length c = dirent_size \<longrightarrow> enc_dirent (dec_dirent c) = c) \<and>
   (wf_super s \<longrightarrow> dec_super (enc_super s @ r) = s) \<and> (length e = super_size \<longrightarrow> enc_super (dec_super e) = e) \<and>
   dec_journal_entry (enc_journal_entry j @ r) = j \<and>
   (length f = journal_entry_size \<longrightarrow> enc_journal_entry (dec_journal_entry f) = f)"
  by (simp add: enc_dec_inode enc_dec_dirent dec_enc_super_append enc_dec_super dec_enc_journal_entry_append
      enc_dec_journal_entry)

text \<open>C9: the checksum test that guards every inode read notices damage: when a record passes it and
  up to four consecutive bytes are changed, all inside the checksum field or all outside it, the
  damaged record fails it.\<close>

theorem inode_damage_detected:
  assumes "length (xs @ bs @ ys) = inode_size" and "length bs = length cs" and "length bs \<le> 4" and "bs \<noteq> cs"
    and "length xs + length bs \<le> 340 \<or> 344 \<le> length xs \<or> (340 \<le> length xs \<and> length xs + length bs \<le> 344)"
    and "i_checksum (dec_inode (xs @ bs @ ys)) = k64_xfs_inode_checksum (dec_inode (xs @ bs @ ys))"
  shows "i_checksum (dec_inode (xs @ cs @ ys)) \<noteq> k64_xfs_inode_checksum (dec_inode (xs @ cs @ ys))"
  using inode_burst_detected [OF assms(1-5)] assms(6) by (simp add: checksum_ok_def)

definition zero_inode :: k64_xfs_inode where
  "zero_inode = dec_inode (replicate 372 0)"

definition sealed_inode :: k64_xfs_inode where
  "sealed_inode = zero_inode\<lparr>i_checksum := k64_xfs_inode_checksum zero_inode\<rparr>"

lemma sealed_inode_ok:
  "wf_inode sealed_inode" "i_checksum sealed_inode = k64_xfs_inode_checksum sealed_inode"
  "take 4 (enc_inode sealed_inode) = [0, 0, 0, 0]"
proof -
  have "wf_inode zero_inode" unfolding zero_inode_def by (rule wf_dec_inode) (simp add: inode_size_def)
  then show "wf_inode sealed_inode" by (simp add: sealed_inode_def wf_inode_def)
  show "i_checksum sealed_inode = k64_xfs_inode_checksum sealed_inode"
    by (simp add: sealed_inode_def k64_xfs_inode_checksum_def)
  have "i_magic sealed_inode = 0"
    by (simp add: sealed_inode_def zero_inode_def dec_inode_def bytes_at_replicate)
  then show "take 4 (enc_inode sealed_inode) = [0, 0, 0, 0]" by (simp add: enc_inode_def numeral_eq_Suc)
qed

theorem disk_structures_roundtrip_witness:
  "dec_inode (enc_inode sealed_inode) = sealed_inode \<and>
   enc_inode (dec_inode (replicate inode_size 7)) = replicate inode_size 7"
  using disk_structures_roundtrip [of sealed_inode "replicate inode_size 7"] sealed_inode_ok(1) by simp

theorem inode_damage_detected_witness:
  "i_checksum (dec_inode ([] @ [1, 0, 0, 0] @ drop 4 (enc_inode sealed_inode))) \<noteq>
   k64_xfs_inode_checksum (dec_inode ([] @ [1, 0, 0, 0] @ drop 4 (enc_inode sealed_inode)))"
proof (rule inode_damage_detected [where bs = "[0, 0, 0, 0]"])
  have e: "[] @ [0, 0, 0, 0] @ drop 4 (enc_inode sealed_inode) = enc_inode sealed_inode"
    using append_take_drop_id [of 4 "enc_inode sealed_inode"] sealed_inode_ok(3) by simp
  show "length ([] @ [0, 0, 0, 0] @ drop 4 (enc_inode sealed_inode)) = inode_size"
    unfolding e by (simp add: sealed_inode_ok)
  show "i_checksum (dec_inode ([] @ [0, 0, 0, 0] @ drop 4 (enc_inode sealed_inode))) =
      k64_xfs_inode_checksum (dec_inode ([] @ [0, 0, 0, 0] @ drop 4 (enc_inode sealed_inode)))"
    unfolding e by (simp add: sealed_inode_ok)
qed simp_all

end
