(* ===== verification/Xfs_Cache.thy ===== *)
theory Xfs_Cache
  imports Block Xfs_Format
begin

text \<open>
  The block cache of the file system, \<^verbatim>\<open>src/k64_xfs_cache.c\<close>: 64 entries, write back,
  the least recently used entry evicted.

  The state of an operation is the cache together with the drivers' state. The locale
  \<open>fs_disk\<close> is what the cache needs of a device: reads and writes of whole file-system blocks
  behave like a function from block numbers to contents. Under it the cache is
  transparent: cache and device together are one such function, the \<open>view\<close>. The
  memory-backed device of the kernel's fallback root file system meets the locale.
\<close>

section \<open>Raw access\<close>

definition xfs_raw_read :: "'w k64_block_device \<Rightarrow> u64 \<Rightarrow> ('w, bytes) op" where
  "xfs_raw_read dev fs_block =
     guard (block_size dev \<noteq> 0 \<and> 4096 mod block_size dev = 0)
       (let sectors = 4096 div block_size dev in
        guard (\<not> fs_block > (- 1) div ucast sectors)
          (k64_block_read (Some dev) (fs_block * ucast sectors) sectors))"

definition xfs_raw_write :: "'w k64_block_device \<Rightarrow> u64 \<Rightarrow> bytes \<Rightarrow> ('w, unit) op" where
  "xfs_raw_write dev fs_block data =
     guard (block_size dev \<noteq> 0 \<and> 4096 mod block_size dev = 0)
       (let sectors = 4096 div block_size dev in
        guard (\<not> fs_block > (- 1) div ucast sectors)
          (k64_block_write (Some dev) (fs_block * ucast sectors) sectors data))"

section \<open>The cache\<close>

definition K64_XFS_CACHE_BLOCKS :: nat where "K64_XFS_CACHE_BLOCKS = 64"

record k64_xfs_cache_entry =
  ce_valid :: bool
  ce_dirty :: bool
  ce_block_no :: u64
  ce_last_used_tick :: u64
  ce_data :: bytes

record k64_xfs_cache =
  entries :: "k64_xfs_cache_entry list"
  clock :: u64

definition empty_entry :: k64_xfs_cache_entry where
  "empty_entry = \<lparr>ce_valid = False, ce_dirty = False, ce_block_no = 0, ce_last_used_tick = 0,
     ce_data = replicate K64_XFS_BLOCK_SIZE 0\<rparr>"

definition k64_xfs_cache_init :: k64_xfs_cache where
  "k64_xfs_cache_init = \<lparr>entries = replicate K64_XFS_CACHE_BLOCKS empty_entry, clock = 0\<rparr>"

definition upd_entry :: "nat \<Rightarrow> (k64_xfs_cache_entry \<Rightarrow> k64_xfs_cache_entry) \<Rightarrow> k64_xfs_cache \<Rightarrow> k64_xfs_cache" where
  "upd_entry i f c = c\<lparr>entries := (entries c)[i := f (entries c ! i)]\<rparr>"

definition cache_find :: "k64_xfs_cache \<Rightarrow> u64 \<Rightarrow> nat option" where
  "cache_find c block_no =
     find (\<lambda>i. ce_valid (entries c ! i) \<and> ce_block_no (entries c ! i) = block_no) [0..<K64_XFS_CACHE_BLOCKS]"

text \<open>The scan for a victim: the first free entry, otherwise the first oldest one.\<close>

fun victim_scan :: "k64_xfs_cache_entry list \<Rightarrow> nat \<Rightarrow> nat \<Rightarrow> u64 \<Rightarrow> nat \<times> bool" where
  "victim_scan [] i victim oldest = (victim, False)"
| "victim_scan (e # es) i victim oldest =
     (if \<not> ce_valid e then (i, True)
      else if ce_last_used_tick e < oldest then victim_scan es (Suc i) i (ce_last_used_tick e)
      else victim_scan es (Suc i) victim oldest)"

type_synonym 'w cached = "k64_xfs_cache \<times> 'w"

definition cache_victim :: "'w k64_block_device \<Rightarrow> ('w cached, nat) op" where
  "cache_victim dev cw =
     (case cw of (c, w) \<Rightarrow>
      case victim_scan (entries c) 0 0 (- 1) of (v, free) \<Rightarrow>
      if free then (Ok v, cw)
      else
        let e = entries c ! v;
            clear = upd_entry v (\<lambda>e. e\<lparr>ce_valid := False, ce_dirty := False\<rparr>) c
        in if ce_dirty e
           then case xfs_raw_write dev (ce_block_no e) (ce_data e) w of
               (Ok _, w) \<Rightarrow> (Ok v, (clear, w))
             | (Fail, w) \<Rightarrow> (Fail, (c, w))
             | (Fault, w) \<Rightarrow> (Fault, (c, w))
           else (Ok v, (clear, w)))"

text \<open>\<open>touch\<close> is \<^verbatim>\<open>entry->last_used_tick = ++cache->clock\<close>.\<close>

definition touch :: "nat \<Rightarrow> k64_xfs_cache \<Rightarrow> k64_xfs_cache" where
  "touch i c = upd_entry i (\<lambda>e. e\<lparr>ce_last_used_tick := clock c + 1\<rparr>) (c\<lparr>clock := clock c + 1\<rparr>)"

definition k64_xfs_cache_read :: "'w k64_block_device \<Rightarrow> u64 \<Rightarrow> ('w cached, bytes) op" where
  "k64_xfs_cache_read dev block_no cw =
     (case cache_find (fst cw) block_no of
        Some i \<Rightarrow> (Ok (ce_data (entries (fst cw) ! i)), (touch i (fst cw), snd cw))
      | None \<Rightarrow>
         bind (cache_victim dev) (\<lambda>i (c, w).
           case xfs_raw_read dev block_no w of
             (Ok d, w) \<Rightarrow>
               let c = upd_entry i (\<lambda>e. e\<lparr>ce_valid := True, ce_dirty := False, ce_block_no := block_no,
                         ce_data := d\<rparr>) c
               in (Ok d, (touch i c, w))
           | (Fail, w) \<Rightarrow> (Fail, (c, w))
           | (Fault, w) \<Rightarrow> (Fault, (c, w))) cw)"

definition k64_xfs_cache_write :: "'w k64_block_device \<Rightarrow> u64 \<Rightarrow> bytes \<Rightarrow> ('w cached, unit) op" where
  "k64_xfs_cache_write dev block_no data =
     bind (\<lambda>cw. case cache_find (fst cw) block_no of
         Some i \<Rightarrow> (Ok i, cw)
       | None \<Rightarrow> bind (cache_victim dev) (\<lambda>i (c, w).
           (Ok i, (upd_entry i (\<lambda>e. e\<lparr>ce_valid := True, ce_block_no := block_no\<rparr>) c, w))) cw)
       (\<lambda>i (c, w). (Ok (), (touch i (upd_entry i (\<lambda>e. e\<lparr>ce_data := data, ce_dirty := True\<rparr>) c), w)))"

fun flush_from :: "'w k64_block_device \<Rightarrow> nat list \<Rightarrow> ('w cached, unit) op" where
  "flush_from dev [] cw = (Ok (), cw)"
| "flush_from dev (i # is) (c, w) =
     (let e = entries c ! i in
      if ce_valid e \<and> ce_dirty e
      then case xfs_raw_write dev (ce_block_no e) (ce_data e) w of
          (Ok _, w) \<Rightarrow> flush_from dev is (upd_entry i (\<lambda>e. e\<lparr>ce_dirty := False\<rparr>) c, w)
        | (Fail, w) \<Rightarrow> (Fail, (c, w))
        | (Fault, w) \<Rightarrow> (Fault, (c, w))
      else flush_from dev is (c, w))"

definition k64_xfs_cache_flush :: "'w k64_block_device \<Rightarrow> ('w cached, unit) op" where
  "k64_xfs_cache_flush dev = flush_from dev [0..<K64_XFS_CACHE_BLOCKS]"

section \<open>The cache as a view of the device\<close>

text \<open>
  \<open>cached_view d c\<close> is what a reader of block numbers sees when the device holds \<open>d\<close>.
  \<open>coherent d n c\<close>: one entry per block, whole blocks, numbers below \<open>n\<close>, and clean entries
  agree with the device.
\<close>

definition cached_view :: "(u64 \<Rightarrow> bytes) \<Rightarrow> k64_xfs_cache \<Rightarrow> u64 \<Rightarrow> bytes" where
  "cached_view d c b = (case cache_find c b of Some i \<Rightarrow> ce_data (entries c ! i) | None \<Rightarrow> d b)"

definition cache_wf :: "k64_xfs_cache \<Rightarrow> bool" where
  "cache_wf c \<longleftrightarrow> length (entries c) = K64_XFS_CACHE_BLOCKS \<and>
     (\<forall>i<K64_XFS_CACHE_BLOCKS. \<forall>j<K64_XFS_CACHE_BLOCKS. ce_valid (entries c ! i) \<and> ce_valid (entries c ! j) \<and>
        ce_block_no (entries c ! i) = ce_block_no (entries c ! j) \<longrightarrow> i = j)"

definition coherent :: "(u64 \<Rightarrow> bytes) \<Rightarrow> u64 \<Rightarrow> k64_xfs_cache \<Rightarrow> bool" where
  "coherent d n c \<longleftrightarrow> cache_wf c \<and> (\<forall>e\<in>set (entries c). ce_valid e \<longrightarrow>
     ce_block_no e < n \<and> length (ce_data e) = K64_XFS_BLOCK_SIZE \<and> (\<not> ce_dirty e \<longrightarrow> ce_data e = d (ce_block_no e)))"

lemma cache_find_Some:
  assumes "cache_wf c"
  shows "cache_find c b = Some i \<longleftrightarrow> i < K64_XFS_CACHE_BLOCKS \<and> ce_valid (entries c ! i) \<and> ce_block_no (entries c ! i) = b"
    (is "?l = ?r")
proof
  assume "?l"
  then show "?r" unfolding cache_find_def by (auto dest: find_SomeD)
next
  assume r: "?r"
  then have "cache_find c b \<noteq> None" by (auto simp: cache_find_def find_None_iff)
  then obtain j where j: "cache_find c b = Some j" by auto
  then have "j < K64_XFS_CACHE_BLOCKS \<and> ce_valid (entries c ! j) \<and> ce_block_no (entries c ! j) = b"
    unfolding cache_find_def by (auto dest: find_SomeD)
  with r assms have "i = j" by (auto simp: cache_wf_def)
  with j show "?l" by simp
qed

lemma cache_find_None:
  "cache_find c b = None \<longleftrightarrow> (\<forall>i<K64_XFS_CACHE_BLOCKS. \<not> (ce_valid (entries c ! i) \<and> ce_block_no (entries c ! i) = b))"
  by (auto simp: cache_find_def find_None_iff)

text \<open>A changed entry changes the view at its own block only.\<close>

lemma upd_entry_nth:
  "i < length (entries c) \<Longrightarrow> entries (upd_entry i f c) ! j = (if j = i then f (entries c ! i) else entries c ! j)"
  by (simp add: upd_entry_def)

lemma length_upd_entry [simp]: "length (entries (upd_entry i f c)) = length (entries c)"
  by (simp add: upd_entry_def)

lemma cached_view_eqI:
  assumes "cache_wf c" and "length (entries c) = K64_XFS_CACHE_BLOCKS"
    and "\<And>i. i < K64_XFS_CACHE_BLOCKS \<Longrightarrow> ce_valid (entries c ! i) \<Longrightarrow> ce_block_no (entries c ! i) = b \<Longrightarrow> ce_data (entries c ! i) = v"
    and "(\<And>i. i < K64_XFS_CACHE_BLOCKS \<Longrightarrow> ce_valid (entries c ! i) \<Longrightarrow> ce_block_no (entries c ! i) \<noteq> b) \<Longrightarrow> d b = v"
  shows "cached_view d c b = v"
proof (cases "cache_find c b")
  case None
  then have "d b = v" using assms(4) by (auto simp: cache_find_None)
  with None show ?thesis by (simp add: cached_view_def)
next
  case (Some i)
  then have "ce_data (entries c ! i) = v" using assms(1,3) by (auto simp: cache_find_Some)
  with Some show ?thesis by (simp add: cached_view_def)
qed

lemma view_at:
  "cache_wf c \<Longrightarrow> i < K64_XFS_CACHE_BLOCKS \<Longrightarrow> ce_valid (entries c ! i) \<Longrightarrow>
   cached_view d c (ce_block_no (entries c ! i)) = ce_data (entries c ! i)"
  using cache_find_Some [of c "ce_block_no (entries c ! i)" i] by (simp add: cached_view_def)

text \<open>Filling slot \<open>i\<close>, which holds block \<open>b\<close> already or nothing, while \<open>b\<close> is in no other slot.\<close>

definition slot_for :: "nat \<Rightarrow> u64 \<Rightarrow> k64_xfs_cache \<Rightarrow> bool" where
  "slot_for i b c \<longleftrightarrow> i < K64_XFS_CACHE_BLOCKS \<and>
     (\<forall>j<K64_XFS_CACHE_BLOCKS. j \<noteq> i \<longrightarrow> ce_valid (entries c ! j) \<longrightarrow> ce_block_no (entries c ! j) \<noteq> b) \<and>
     (ce_valid (entries c ! i) \<longrightarrow> ce_block_no (entries c ! i) = b)"

lemma fill_slot:
  assumes coh: "coherent d n c" and slot: "slot_for i b c" and b: "b < n"
    and e: "ce_valid e" "ce_block_no e = b" "length (ce_data e) = K64_XFS_BLOCK_SIZE" "\<not> ce_dirty e \<longrightarrow> ce_data e = d b"
    and c': "entries c' = (entries c)[i := e]"
  shows "coherent d n c'" and "cached_view d c' = (cached_view d c)(b := ce_data e)"
proof -
  have len: "length (entries c) = K64_XFS_CACHE_BLOCKS" and i: "i < K64_XFS_CACHE_BLOCKS"
    using coh slot by (auto simp: coherent_def cache_wf_def slot_for_def)
  have nth: "entries c' ! j = (if j = i then e else entries c ! j)" if "j < K64_XFS_CACHE_BLOCKS" for j
    using that len i by (simp add: c')
  have wf: "cache_wf c'"
    using coh slot e(1,2) len nth unfolding cache_wf_def coherent_def slot_for_def
    by (auto simp: c' nth_list_update split: if_splits)
  then show "coherent d n c'"
    using coh e b set_update_subset_insert [of "entries c" i e] unfolding coherent_def c' by blast
  show "cached_view d c' = (cached_view d c)(b := ce_data e)"
  proof
    fix x
    show "cached_view d c' x = ((cached_view d c)(b := ce_data e)) x"
    proof (cases "x = b")
      case True
      then show ?thesis using view_at [OF wf i, of d] e(1,2) nth [OF i] by simp
    next
      case False
      have "cached_view d c' x = cached_view d c x"
      proof (rule cached_view_eqI [OF wf])
        show "length (entries c') = K64_XFS_CACHE_BLOCKS" by (simp add: c' len)
        fix j assume j: "j < K64_XFS_CACHE_BLOCKS" "ce_valid (entries c' ! j)" "ce_block_no (entries c' ! j) = x"
        then have "j \<noteq> i" "entries c' ! j = entries c ! j" using nth e(2) False by (auto split: if_splits)
        with j show "ce_data (entries c' ! j) = cached_view d c x"
          using view_at [of c j d] coh by (auto simp: coherent_def)
      next
        assume none: "\<And>j. j < K64_XFS_CACHE_BLOCKS \<Longrightarrow> ce_valid (entries c' ! j) \<Longrightarrow> ce_block_no (entries c' ! j) \<noteq> x"
        have "ce_block_no (entries c ! j) \<noteq> x" if "j < K64_XFS_CACHE_BLOCKS" "ce_valid (entries c ! j)" for j
          using that none [of j] nth [of j] slot False by (cases "j = i") (auto simp: slot_for_def)
        then have "cache_find c x = None" by (auto simp: cache_find_None)
        then show "d x = cached_view d c x" by (simp add: cached_view_def)
      qed
      with False show ?thesis by simp
    qed
  qed
qed

text \<open>Writing the content of a valid entry back to the device changes nothing a reader sees.\<close>

lemma write_back:
  assumes coh: "coherent d n c" and i: "i < K64_XFS_CACHE_BLOCKS" "ce_valid (entries c ! i)"
    and d': "d' = d(ce_block_no (entries c ! i) := ce_data (entries c ! i))"
  shows "cached_view d' c = cached_view d c" and "coherent d' n c"
proof -
  have wf: "cache_wf c" and len: "length (entries c) = K64_XFS_CACHE_BLOCKS"
    using coh by (auto simp: coherent_def cache_wf_def)
  show "cached_view d' c = cached_view d c"
  proof
    fix x show "cached_view d' c x = cached_view d c x"
      using view_at [OF wf i] by (cases "x = ce_block_no (entries c ! i)") (auto simp: cached_view_def d' split: option.splits)
  qed
  have "ce_data e = d' (ce_block_no e)" if e: "e \<in> set (entries c)" "ce_valid e" "\<not> ce_dirty e" for e
  proof -
    obtain j where j: "j < K64_XFS_CACHE_BLOCKS" "e = entries c ! j"
      using e(1) len by (metis in_set_conv_nth)
    show ?thesis
    proof (cases "ce_block_no e = ce_block_no (entries c ! i)")
      case True
      then have "j = i" using wf i j that(2) by (auto simp: cache_wf_def)
      then show ?thesis using j d' by simp
    next
      case False
      then show ?thesis using coh that d' by (auto simp: coherent_def)
    qed
  qed
  then show "coherent d' n c" using coh by (simp add: coherent_def)
qed

text \<open>An entry that agrees with the device can be dropped, or marked clean.\<close>

lemma drop_entry:
  assumes coh: "coherent d n c" and i: "i < K64_XFS_CACHE_BLOCKS"
    and same: "ce_valid (entries c ! i) \<Longrightarrow> ce_data (entries c ! i) = d (ce_block_no (entries c ! i))"
    and c': "entries c' = (entries c)[i := (entries c ! i)\<lparr>ce_valid := False, ce_dirty := False\<rparr>]"
  shows "coherent d n c'" and "cached_view d c' = cached_view d c"
proof -
  have wf: "cache_wf c" and len: "length (entries c) = K64_XFS_CACHE_BLOCKS"
    using coh by (auto simp: coherent_def cache_wf_def)
  have nth: "entries c' ! j = (if j = i then (entries c ! i)\<lparr>ce_valid := False, ce_dirty := False\<rparr> else entries c ! j)" for j
    using i len by (simp add: c')
  have "length (entries c') = K64_XFS_CACHE_BLOCKS" by (simp add: c' len)
  with wf have wf': "cache_wf c'" by (auto simp: cache_wf_def nth split: if_splits)
  then show "coherent d n c'"
    using coh set_update_subset_insert [of "entries c" i "(entries c ! i)\<lparr>ce_valid := False, ce_dirty := False\<rparr>"]
    unfolding coherent_def c' by force
  show "cached_view d c' = cached_view d c"
  proof
    fix x show "cached_view d c' x = cached_view d c x"
    proof (rule cached_view_eqI [OF wf'])
      show "length (entries c') = K64_XFS_CACHE_BLOCKS" by (simp add: c' len)
      fix j assume "j < K64_XFS_CACHE_BLOCKS" "ce_valid (entries c' ! j)" "ce_block_no (entries c' ! j) = x"
      then show "ce_data (entries c' ! j) = cached_view d c x"
        using view_at [OF wf, of j d] nth by (auto split: if_splits)
    next
      assume none: "\<And>j. j < K64_XFS_CACHE_BLOCKS \<Longrightarrow> ce_valid (entries c' ! j) \<Longrightarrow> ce_block_no (entries c' ! j) \<noteq> x"
      show "d x = cached_view d c x"
      proof (rule cached_view_eqI [OF wf len, symmetric])
        fix j assume j: "j < K64_XFS_CACHE_BLOCKS" "ce_valid (entries c ! j)" "ce_block_no (entries c ! j) = x"
        then have "j = i" using none [of j] nth [of j] by (auto split: if_splits)
        with j same show "ce_data (entries c ! j) = d x" by simp
      qed simp
    qed
  qed
qed

lemma clean_entry:
  assumes coh: "coherent d n c" and i: "i < K64_XFS_CACHE_BLOCKS" "ce_valid (entries c ! i)"
    and same: "ce_data (entries c ! i) = d (ce_block_no (entries c ! i))"
    and c': "entries c' = (entries c)[i := (entries c ! i)\<lparr>ce_dirty := False\<rparr>]"
  shows "coherent d n c'" and "cached_view d c' = cached_view d c"
proof -
  let ?e = "(entries c ! i)\<lparr>ce_dirty := False\<rparr>" and ?b = "ce_block_no (entries c ! i)"
  have wf: "cache_wf c" using coh by (simp add: coherent_def)
  have "slot_for i ?b c" using wf i by (auto simp: slot_for_def cache_wf_def)
  moreover have "entries c ! i \<in> set (entries c)" using i(1) wf by (simp add: cache_wf_def)
  then have "?b < n" "length (ce_data ?e) = K64_XFS_BLOCK_SIZE" using coh i(2) by (auto simp: coherent_def)
  ultimately show "coherent d n c'" "cached_view d c' = cached_view d c"
    using fill_slot [OF coh _ _ _ _ _ _ c'] i same view_at [OF wf i, of d] by auto
qed

lemma victim_scan_cases:
  "case victim_scan es i v o' of (r, f) \<Rightarrow>
     if f then \<exists>k<length es. r = i + k \<and> \<not> ce_valid (es ! k)
     else (\<forall>e\<in>set es. ce_valid e) \<and> (r = v \<or> (\<exists>k<length es. r = i + k))"
proof (induction es i v o' rule: victim_scan.induct)
  case (1 i victim oldest)
  then show ?case by simp
next
  case (2 e es i victim oldest)
  have up: "(\<exists>k<length es. r = Suc i + k \<and> P (es ! k)) \<Longrightarrow> \<exists>k<length (e # es). r = i + k \<and> P ((e # es) ! k)" for r P
    by (metis add_Suc_shift length_Cons not_less_eq nth_Cons_Suc)
  show ?case
  proof (cases "ce_valid e")
    case False
    then show ?thesis by auto
  next
    case True
    let ?v = "if ce_last_used_tick e < oldest then i else victim"
    let ?o = "if ce_last_used_tick e < oldest then ce_last_used_tick e else oldest"
    have eq: "victim_scan (e # es) i victim oldest = victim_scan es (Suc i) ?v ?o" using True by simp
    obtain r f where rf: "victim_scan es (Suc i) ?v ?o = (r, f)" by fastforce
    then have ih: "if f then \<exists>k<length es. r = Suc i + k \<and> \<not> ce_valid (es ! k)
        else (\<forall>e\<in>set es. ce_valid e) \<and> (r = ?v \<or> (\<exists>k<length es. r = Suc i + k))"
      using 2 True by (auto split: if_splits)
    show ?thesis
      unfolding eq rf prod.case using ih up [of r "\<lambda>e. \<not> ce_valid e"] up [of r "\<lambda>_. True"] True
      by (auto split: if_splits)
  qed
qed

section \<open>What the cache relies on\<close>

text \<open>
  A device of \<open>nblocks\<close> file-system blocks whose content is \<open>disk w\<close> in the driver state
  \<open>w\<close>, while it is \<open>ready\<close>.
\<close>

locale fs_disk =
  fixes dev :: "'w k64_block_device"
    and nblocks :: u64
    and disk :: "'w \<Rightarrow> u64 \<Rightarrow> bytes"
    and ready :: "'w \<Rightarrow> bool"
  assumes raw_read: "ready w \<Longrightarrow> b < nblocks \<Longrightarrow> xfs_raw_read dev b w = (Ok (disk w b), w)"
    and raw_write: "ready w \<Longrightarrow> b < nblocks \<Longrightarrow> length d = K64_XFS_BLOCK_SIZE \<Longrightarrow>
      \<exists>w'. xfs_raw_write dev b d w = (Ok (), w') \<and> ready w' \<and> disk w' = (disk w)(b := d)"
    and disk_length: "ready w \<Longrightarrow> b < nblocks \<Longrightarrow> length (disk w b) = K64_XFS_BLOCK_SIZE"
begin

lemma entry_props:
  assumes "coherent (disk w) nblocks c" and "i < K64_XFS_CACHE_BLOCKS" and "ce_valid (entries c ! i)"
  shows "ce_block_no (entries c ! i) < nblocks" and "length (ce_data (entries c ! i)) = K64_XFS_BLOCK_SIZE"
    and "\<not> ce_dirty (entries c ! i) \<Longrightarrow> ce_data (entries c ! i) = disk w (ce_block_no (entries c ! i))"
proof -
  have "entries c ! i \<in> set (entries c)" using assms by (simp add: coherent_def cache_wf_def)
  with assms show "ce_block_no (entries c ! i) < nblocks" "length (ce_data (entries c ! i)) = K64_XFS_BLOCK_SIZE"
    "\<not> ce_dirty (entries c ! i) \<Longrightarrow> ce_data (entries c ! i) = disk w (ce_block_no (entries c ! i))"
    by (auto simp: coherent_def)
qed

text \<open>After an eviction a free entry is at hand and nothing was lost.\<close>

lemma victim_evicts:
  assumes "coherent (disk w) nblocks c" and "ready w"
  obtains i c' w' where "cache_victim dev (c, w) = (Ok i, (c', w'))" "i < K64_XFS_CACHE_BLOCKS"
    "\<not> ce_valid (entries c' ! i)" "coherent (disk w') nblocks c'" "ready w'"
    "cached_view (disk w') c' = cached_view (disk w) c"
    "\<And>b. cache_find c b = None \<Longrightarrow> cache_find c' b = None"
proof -
  obtain v f where vf: "victim_scan (entries c) 0 0 (- 1) = (v, f)" by fastforce
  have wf: "cache_wf c" and len: "length (entries c) = K64_XFS_CACHE_BLOCKS"
    using assms(1) by (auto simp: coherent_def cache_wf_def)
  have v: "v < K64_XFS_CACHE_BLOCKS"
    using victim_scan_cases [of "entries c" 0 0 "- 1"] vf len by (auto simp: K64_XFS_CACHE_BLOCKS_def split: if_splits)
  show ?thesis
  proof (cases f)
    case True
    then have "\<not> ce_valid (entries c ! v)"
      using victim_scan_cases [of "entries c" 0 0 "- 1"] vf by auto
    with True vf v assms that [of v c w] show ?thesis by (simp add: cache_victim_def)
  next
    case False
    have "\<forall>e\<in>set (entries c). ce_valid e"
      using victim_scan_cases [of "entries c" 0 0 "- 1"] vf False by simp
    then have valid: "ce_valid (entries c ! v)" using v len by simp
    let ?e = "entries c ! v"
    let ?c = "upd_entry v (\<lambda>e. e\<lparr>ce_valid := False, ce_dirty := False\<rparr>) c"
    have ent: "entries ?c = (entries c)[v := ?e\<lparr>ce_valid := False, ce_dirty := False\<rparr>]"
      by (simp add: upd_entry_def)
    have free: "\<not> ce_valid (entries ?c ! v)" using v len by (simp add: upd_entry_nth)
    have none: "cache_find ?c b = None" if "cache_find c b = None" for b
      using that v len by (auto simp: cache_find_None upd_entry_nth)
    obtain w' where w': "ready w'" "disk w' = (if ce_dirty ?e then (disk w)(ce_block_no ?e := ce_data ?e) else disk w)"
        "cache_victim dev (c, w) = (Ok v, (?c, w'))"
    proof (cases "ce_dirty ?e")
      case True
      obtain w2 where w2: "xfs_raw_write dev (ce_block_no ?e) (ce_data ?e) w = (Ok (), w2)" "ready w2"
          "disk w2 = (disk w)(ce_block_no ?e := ce_data ?e)"
        using raw_write [OF assms(2) entry_props(1,2) [OF assms(1) v valid]] by blast
      with True show ?thesis
        using that [of w2] vf \<open>\<not> f\<close> by (simp add: cache_victim_def Let_def)
    next
      case False
      then show ?thesis using that [of w] vf \<open>\<not> f\<close> assms(2) by (simp add: cache_victim_def Let_def)
    qed
    have "coherent (disk w') nblocks c" "cached_view (disk w') c = cached_view (disk w) c"
      using write_back [OF assms(1) v valid refl] assms(1) by (simp_all add: w'(2))
    moreover have "ce_data ?e = disk w' (ce_block_no ?e)"
      using entry_props(3) [OF assms(1) v valid] by (auto simp: w'(2))
    ultimately show ?thesis
      using that [OF w'(3) v free _ w'(1) _ none] drop_entry [OF _ v _ ent, of "disk w'" nblocks] by simp
  qed
qed

lemma touch_entries: "entries (touch i c) = entries (upd_entry i (\<lambda>e. e\<lparr>ce_last_used_tick := clock c + 1\<rparr>) c)"
  by (simp add: touch_def upd_entry_def)

lemma touch_keeps:
  assumes "coherent (disk w) nblocks c" and "i < K64_XFS_CACHE_BLOCKS" and "ce_valid (entries c ! i)"
  shows "coherent (disk w) nblocks (touch i c)" and "cached_view (disk w) (touch i c) = cached_view (disk w) c"
proof -
  let ?e = "(entries c ! i)\<lparr>ce_last_used_tick := clock c + 1\<rparr>" and ?b = "ce_block_no (entries c ! i)"
  have wf: "cache_wf c" using assms(1) by (simp add: coherent_def)
  have slot: "slot_for i ?b c" using wf assms(2,3) by (auto simp: slot_for_def cache_wf_def)
  have ent: "entries (touch i c) = (entries c)[i := ?e]" by (simp add: touch_entries upd_entry_def)
  show "coherent (disk w) nblocks (touch i c)" "cached_view (disk w) (touch i c) = cached_view (disk w) c"
    using fill_slot [OF assms(1) slot _ _ _ _ _ ent] entry_props [OF assms] assms(3) view_at [OF wf assms(2,3)]
    by auto
qed

lemma free_slot_for:
  "cache_find c b = None \<Longrightarrow> i < K64_XFS_CACHE_BLOCKS \<Longrightarrow> \<not> ce_valid (entries c ! i) \<Longrightarrow> slot_for i b c"
  by (auto simp: slot_for_def cache_find_None)

lemma cache_read_view:
  assumes "coherent (disk w) nblocks c" and "ready w" and "b < nblocks"
  obtains c' w' where "k64_xfs_cache_read dev b (c, w) = (Ok (cached_view (disk w) c b), (c', w'))"
    "coherent (disk w') nblocks c'" "ready w'" "cached_view (disk w') c' = cached_view (disk w) c"
proof (cases "cache_find c b")
  case (Some i)
  then have i: "i < K64_XFS_CACHE_BLOCKS" "ce_valid (entries c ! i)"
    using assms(1) by (auto simp: cache_find_Some coherent_def)
  then show ?thesis
    using that [of "touch i c" w] touch_keeps [OF assms(1) i] assms(2) Some
    by (simp add: k64_xfs_cache_read_def cached_view_def)
next
  case None
  obtain i c1 w1 where v: "cache_victim dev (c, w) = (Ok i, (c1, w1))" "i < K64_XFS_CACHE_BLOCKS"
    "\<not> ce_valid (entries c1 ! i)" "coherent (disk w1) nblocks c1" "ready w1"
    "cached_view (disk w1) c1 = cached_view (disk w) c" "cache_find c1 b = None"
    using victim_evicts [OF assms(1,2)] None by metis
  let ?e = "(entries c1 ! i)\<lparr>ce_valid := True, ce_dirty := False, ce_block_no := b, ce_data := disk w1 b\<rparr>"
  let ?c = "upd_entry i (\<lambda>e. e\<lparr>ce_valid := True, ce_dirty := False, ce_block_no := b, ce_data := disk w1 b\<rparr>) c1"
  have d: "disk w1 b = cached_view (disk w) c b" using v(6,7) by (metis cached_view_def option.simps(4))
  have "coherent (disk w1) nblocks ?c" "cached_view (disk w1) ?c = cached_view (disk w) c"
    using fill_slot [OF v(4) free_slot_for [OF v(7,2,3)] assms(3), of ?e ?c] disk_length [OF v(5) assms(3)] v(6) d
    by (auto simp: upd_entry_def)
  moreover have "ce_valid (entries ?c ! i)"
    using v(2,4) by (simp add: upd_entry_nth coherent_def cache_wf_def)
  ultimately show ?thesis
    using that [of "touch i ?c" w1] touch_keeps [of w1 ?c i] v raw_read [OF v(5) assms(3)] None d
    by (simp add: k64_xfs_cache_read_def bind_def Let_def)
qed

lemma cache_write_view:
  assumes "coherent (disk w) nblocks c" and "ready w" and "b < nblocks" and "length d = K64_XFS_BLOCK_SIZE"
  obtains c' w' where "k64_xfs_cache_write dev b d (c, w) = (Ok (), (c', w'))"
    "coherent (disk w') nblocks c'" "ready w'" "cached_view (disk w') c' = (cached_view (disk w) c)(b := d)"
proof -
  obtain i c1 w1 where s: "slot_for i b c1" "coherent (disk w1) nblocks c1" "ready w1"
      "cached_view (disk w1) c1 = cached_view (disk w) c"
      "k64_xfs_cache_write dev b d (c, w) = (Ok (), (touch i (upd_entry i (\<lambda>e. e\<lparr>ce_data := d, ce_dirty := True\<rparr>)
         (upd_entry i (\<lambda>e. e\<lparr>ce_valid := True, ce_block_no := b\<rparr>) c1)), w1))"
  proof (cases "cache_find c b")
    case (Some i)
    then have i: "i < K64_XFS_CACHE_BLOCKS" "ce_valid (entries c ! i)" "ce_block_no (entries c ! i) = b"
      using assms(1) by (auto simp: cache_find_Some coherent_def)
    then have "slot_for i b c" using assms(1) by (auto simp: slot_for_def coherent_def cache_wf_def)
    moreover have "(entries c)[i := (entries c ! i)\<lparr>ce_valid := True, ce_block_no := b\<rparr>] = entries c"
    proof -
      have "(entries c ! i)\<lparr>ce_valid := True, ce_block_no := b\<rparr> = entries c ! i" using i by (cases "entries c ! i") simp
      then show ?thesis by simp
    qed
    then have "upd_entry i (\<lambda>e. e\<lparr>ce_valid := True, ce_block_no := b\<rparr>) c = c" by (simp add: upd_entry_def)
    ultimately show ?thesis
      using that [of i c w] assms(1,2) Some by (simp add: k64_xfs_cache_write_def bind_def)
  next
    case None
    obtain i c1 w1 where v: "cache_victim dev (c, w) = (Ok i, (c1, w1))" "i < K64_XFS_CACHE_BLOCKS"
      "\<not> ce_valid (entries c1 ! i)" "coherent (disk w1) nblocks c1" "ready w1"
      "cached_view (disk w1) c1 = cached_view (disk w) c" "cache_find c1 b = None"
      using victim_evicts [OF assms(1,2)] None by metis
    then show ?thesis
      using that [of i c1 w1] free_slot_for None by (simp add: k64_xfs_cache_write_def bind_def)
  qed
  let ?c = "touch i (upd_entry i (\<lambda>e. e\<lparr>ce_data := d, ce_dirty := True\<rparr>)
         (upd_entry i (\<lambda>e. e\<lparr>ce_valid := True, ce_block_no := b\<rparr>) c1))"
  let ?e = "(entries c1 ! i)\<lparr>ce_valid := True, ce_block_no := b, ce_data := d, ce_dirty := True,
     ce_last_used_tick := clock c1 + 1\<rparr>"
  have i: "i < length (entries c1)" using s(1,2) by (simp add: slot_for_def coherent_def cache_wf_def)
  have ent: "entries ?c = (entries c1)[i := ?e]" using i by (simp add: touch_def upd_entry_def)
  show ?thesis
    using that [OF s(5) _ s(3)] fill_slot [OF s(2,1) assms(3) _ _ _ _ ent] assms(4) s(4) by simp
qed

text \<open>Flushing makes the device itself equal to the view.\<close>

lemma flush_from_view:
  assumes "coherent (disk w) nblocks c" and "ready w" and "set is \<subseteq> {..<K64_XFS_CACHE_BLOCKS}"
  obtains c' w' where "flush_from dev is (c, w) = (Ok (), (c', w'))"
    "coherent (disk w') nblocks c'" "ready w'" "cached_view (disk w') c' = cached_view (disk w) c"
    "\<forall>i<K64_XFS_CACHE_BLOCKS. ce_valid (entries c' ! i) = ce_valid (entries c ! i) \<and>
       ce_block_no (entries c' ! i) = ce_block_no (entries c ! i) \<and>
       ce_dirty (entries c' ! i) = (ce_dirty (entries c ! i) \<and> \<not> (i \<in> set is \<and> ce_valid (entries c ! i)))"
  using assms
proof (induction "is" arbitrary: c w thesis)
  case Nil
  then show ?case by simp
next
  case (Cons i "is")
  have i: "i < K64_XFS_CACHE_BLOCKS" and len: "length (entries c) = K64_XFS_CACHE_BLOCKS"
    using Cons.prems by (auto simp: coherent_def cache_wf_def)
  show ?case
  proof (cases "ce_valid (entries c ! i) \<and> ce_dirty (entries c ! i)")
    case True
    let ?e = "entries c ! i"
    let ?c = "upd_entry i (\<lambda>e. e\<lparr>ce_dirty := False\<rparr>) c"
    have valid: "ce_valid ?e" using True ..
    obtain w1 where w1: "xfs_raw_write dev (ce_block_no ?e) (ce_data ?e) w = (Ok (), w1)" "ready w1"
        "disk w1 = (disk w)(ce_block_no ?e := ce_data ?e)"
      using raw_write [OF Cons.prems(3) entry_props(1,2) [OF Cons.prems(2) i valid]] by blast
    have wb: "coherent (disk w1) nblocks c" "cached_view (disk w1) c = cached_view (disk w) c"
      using write_back [OF Cons.prems(2) i valid w1(3)] by simp_all
    have cl: "coherent (disk w1) nblocks ?c" "cached_view (disk w1) ?c = cached_view (disk w) c"
      using clean_entry [OF wb(1) i valid, of ?c] wb(2) w1(3) by (simp_all add: upd_entry_def)
    obtain c' w' where r: "flush_from dev is (?c, w1) = (Ok (), (c', w'))"
      "coherent (disk w') nblocks c'" "ready w'" "cached_view (disk w') c' = cached_view (disk w1) ?c"
      "\<forall>j<K64_XFS_CACHE_BLOCKS. ce_valid (entries c' ! j) = ce_valid (entries ?c ! j) \<and>
         ce_block_no (entries c' ! j) = ce_block_no (entries ?c ! j) \<and>
         ce_dirty (entries c' ! j) = (ce_dirty (entries ?c ! j) \<and> \<not> (j \<in> set is \<and> ce_valid (entries ?c ! j)))"
      using Cons.IH [OF _ cl(1) w1(2)] Cons.prems(4) by auto
    have "flush_from dev (i # is) (c, w) = (Ok (), (c', w'))"
      using True w1(1) r(1) by (simp add: Let_def)
    then show ?thesis
      by (rule Cons.prems(1)) (use r cl(2) len i valid in \<open>auto simp: upd_entry_nth split: if_splits\<close>)
  next
    case False
    obtain c' w' where r: "flush_from dev is (c, w) = (Ok (), (c', w'))"
      "coherent (disk w') nblocks c'" "ready w'" "cached_view (disk w') c' = cached_view (disk w) c"
      "\<forall>j<K64_XFS_CACHE_BLOCKS. ce_valid (entries c' ! j) = ce_valid (entries c ! j) \<and>
         ce_block_no (entries c' ! j) = ce_block_no (entries c ! j) \<and>
         ce_dirty (entries c' ! j) = (ce_dirty (entries c ! j) \<and> \<not> (j \<in> set is \<and> ce_valid (entries c ! j)))"
      using Cons.IH [OF _ Cons.prems(2,3)] Cons.prems(4) by auto
    have "flush_from dev (i # is) (c, w) = (Ok (), (c', w'))" using False r(1) by (auto simp: Let_def)
    then show ?thesis
      by (rule Cons.prems(1)) (use r False in auto)
  qed
qed

lemma cache_flush_view:
  assumes "coherent (disk w) nblocks c" and "ready w"
  obtains c' w' where "k64_xfs_cache_flush dev (c, w) = (Ok (), (c', w'))" "coherent (disk w') nblocks c'" "ready w'"
    "cached_view (disk w') c' = cached_view (disk w) c" "disk w' = cached_view (disk w) c"
proof -
  have all: "set [0..<K64_XFS_CACHE_BLOCKS] \<subseteq> {..<K64_XFS_CACHE_BLOCKS}" by auto
  obtain c' w' where r: "flush_from dev [0..<K64_XFS_CACHE_BLOCKS] (c, w) = (Ok (), (c', w'))"
    "coherent (disk w') nblocks c'" "ready w'" "cached_view (disk w') c' = cached_view (disk w) c"
    and fl: "\<forall>i<K64_XFS_CACHE_BLOCKS. ce_valid (entries c' ! i) = ce_valid (entries c ! i) \<and>
       ce_block_no (entries c' ! i) = ce_block_no (entries c ! i) \<and>
       ce_dirty (entries c' ! i) = (ce_dirty (entries c ! i) \<and> \<not> (i \<in> set [0..<K64_XFS_CACHE_BLOCKS] \<and> ce_valid (entries c ! i)))"
    using flush_from_view [OF assms all] by blast
  have "cached_view (disk w') c' = disk w'"
  proof
    fix b show "cached_view (disk w') c' b = disk w' b"
    proof (cases "cache_find c' b")
      case (Some i)
      then have i: "i < K64_XFS_CACHE_BLOCKS" "ce_valid (entries c' ! i)" "ce_block_no (entries c' ! i) = b"
        using r(2) by (auto simp: cache_find_Some coherent_def)
      then have "\<not> ce_dirty (entries c' ! i)" using fl by simp
      then have "ce_data (entries c' ! i) = disk w' b" using entry_props(3) [OF r(2) i(1,2)] i(3) by simp
      then show ?thesis using Some by (simp add: cached_view_def)
    qed (simp add: cached_view_def)
  qed
  then have "disk w' = cached_view (disk w) c" by (rule trans [OF sym r(4)])
  from that [OF _ r(2-4) this] r(1) show ?thesis unfolding k64_xfs_cache_flush_def .
qed

end

section \<open>The memory-backed root device\<close>

text \<open>
  The device \<^verbatim>\<open>fs_mount_fallback\<close> registers: 16384 sectors of 512 bytes in memory, 2048
  file-system blocks. The identifier and the context are whatever the registry and the
  loader gave.
\<close>

definition fallback_device :: "u64 \<Rightarrow> nat \<Rightarrow> memdevs k64_block_device" where
  "fallback_device ident ctx =
     \<lparr>bd_id = ident, bd_name = ''memxfs'', bd_source = ''memory'', block_size = 512, block_count = 16384,
      start_lba = 0, partition_type = 0, is_partition = False, writable = True, online = True,
      bd_context = ctx, bd_read = Some fs_mem_read, bd_write = Some fs_mem_write\<rparr>"

definition mem_ready :: "nat \<Rightarrow> memdevs \<Rightarrow> bool" where
  "mem_ready ctx w \<longleftrightarrow> (case w ctx of None \<Rightarrow> False | Some mem \<Rightarrow> length mem = 8388608)"

definition mem_blocks :: "nat \<Rightarrow> memdevs \<Rightarrow> u64 \<Rightarrow> bytes" where
  "mem_blocks ctx w b = (case w ctx of None \<Rightarrow> [] | Some mem \<Rightarrow> bytes_at (unat b * 4096) 4096 mem)"

lemma block_offsets:
  assumes "(b :: u64) < 2048"
  shows "unat b < 2048" "unat (b * 8) = unat b * 8" "unat (b * 8 * 512) = unat b * 4096" "\<not> b > (- 1) div 8"
proof -
  show b: "unat b < 2048" using assms by (simp add: word_less_nat_alt)
  then show "unat (b * 8) = unat b * 8" "unat (b * 8 * 512) = unat b * 4096"
    by (simp_all add: unat_word_ariths)
  have "b \<le> 2048" using assms by simp
  also have "(2048 :: u64) \<le> (- 1) div 8" by (simp add: word_le_nat_alt unat_div)
  finally show "\<not> b > (- 1) div 8" by simp
qed

lemma mem_sector_checks:
  assumes "(b :: u64) < 2048" and "length mem = 8388608"
  shows "b * 8 < 16384" "(8 :: u64) \<le> 16384 - b * 8"
    "\<not> (b * 8 * 512 > of_nat (length mem) \<or> 4096 > of_nat (length mem) - b * 8 * 512)"
proof -
  note o = block_offsets [OF assms(1)]
  show lt: "b * 8 < 16384" using o by (simp add: word_less_nat_alt)
  show "(8 :: u64) \<le> 16384 - b * 8" using o lt by (simp add: word_le_nat_alt unat_sub)
  have "unat (8388608 - b * 8 * 512) = 8388608 - unat b * 4096"
    using o by (simp add: unat_sub word_le_nat_alt)
  then show "\<not> (b * 8 * 512 > of_nat (length mem) \<or> 4096 > of_nat (length mem) - b * 8 * 512)"
    using o assms(2) by (simp add: word_less_nat_alt)
qed

lemma fallback_raw_read:
  assumes "mem_ready ctx w" and "b < 2048"
  shows "xfs_raw_read (fallback_device ident ctx) b w = (Ok (mem_blocks ctx w b), w)"
proof -
  obtain mem where mem: "w ctx = Some mem" "length mem = 8388608"
    using assms(1) by (auto simp: mem_ready_def split: option.splits)
  note c = mem_sector_checks [OF assms(2) mem(2)] and o = block_offsets [OF assms(2)]
  have "fs_mem_read ctx (b * 8) 8 w = (Ok (bytes_at (unat b * 4096) 4096 mem), w)"
    using mem c(3) o by (simp add: fs_mem_read_def K64_ROOTFS_BLOCK_SIZE_def Let_def)
  then show ?thesis
    using c o mem by (simp add: xfs_raw_read_def fallback_device_def k64_block_read_def mem_blocks_def not_less not_le)
qed

lemma fallback_raw_write:
  assumes "mem_ready ctx w" and "b < 2048" and "length d = K64_XFS_BLOCK_SIZE"
  shows "\<exists>w'. xfs_raw_write (fallback_device ident ctx) b d w = (Ok (), w') \<and> mem_ready ctx w' \<and>
     mem_blocks ctx w' = (mem_blocks ctx w)(b := d)"
proof -
  obtain mem where mem: "w ctx = Some mem" "length mem = 8388608"
    using assms(1) by (auto simp: mem_ready_def split: option.splits)
  note c = mem_sector_checks [OF assms(2) mem(2)] and o = block_offsets [OF assms(2)]
  let ?m = "put_at (unat b * 4096) d mem"
  have fits: "unat b * 4096 + length d \<le> length mem" using o(1) mem(2) assms(3) by (simp add: K64_XFS_BLOCK_SIZE_def)
  have "fs_mem_write ctx (b * 8) 8 d w = (Ok (), w(ctx := Some ?m))"
    using mem c(3) o assms(3) by (simp add: fs_mem_write_def K64_ROOTFS_BLOCK_SIZE_def K64_XFS_BLOCK_SIZE_def Let_def)
  then have "xfs_raw_write (fallback_device ident ctx) b d w = (Ok (), w(ctx := Some ?m))"
    using c o by (simp add: xfs_raw_write_def fallback_device_def k64_block_write_def not_less not_le)
  moreover have "mem_ready ctx (w(ctx := Some ?m))" using fits mem(2) by (simp add: mem_ready_def)
  moreover have "mem_blocks ctx (w(ctx := Some ?m)) x = ((mem_blocks ctx w)(b := d)) x" for x
  proof (cases "x = b")
    case True
    then show ?thesis using fits assms(3) by (simp add: mem_blocks_def bytes_at_put_same K64_XFS_BLOCK_SIZE_def)
  next
    case False
    then have "unat x \<noteq> unat b" by (simp add: word_unat_eq_iff)
    then have "unat x * 4096 + 4096 \<le> unat b * 4096 \<or> unat b * 4096 + 4096 \<le> unat x * 4096" by linarith
    then have "bytes_at (unat x * 4096) 4096 ?m = bytes_at (unat x * 4096) 4096 mem"
      using fits assms(3) mem(2) by (auto simp: bytes_at_put_any K64_XFS_BLOCK_SIZE_def)
    with False mem show ?thesis by (simp add: mem_blocks_def)
  qed
  ultimately show ?thesis by blast
qed

interpretation mem: fs_disk "fallback_device ident ctx" 2048 "mem_blocks ctx" "mem_ready ctx" for ident ctx
proof
  fix w :: memdevs and b :: u64 and d :: bytes
  assume r: "mem_ready ctx w" and b: "b < 2048"
  show "xfs_raw_read (fallback_device ident ctx) b w = (Ok (mem_blocks ctx w b), w)"
    using r b by (rule fallback_raw_read)
  show "length (mem_blocks ctx w b) = K64_XFS_BLOCK_SIZE"
    using r block_offsets(1) [OF b] by (auto simp: mem_ready_def mem_blocks_def K64_XFS_BLOCK_SIZE_def split: option.splits)
  assume "length d = K64_XFS_BLOCK_SIZE"
  with r b show "\<exists>w'. xfs_raw_write (fallback_device ident ctx) b d w = (Ok (), w') \<and> mem_ready ctx w' \<and>
      mem_blocks ctx w' = (mem_blocks ctx w)(b := d)"
    by (rule fallback_raw_write)
qed

section \<open>Properties\<close>

text \<open>C10: on any device that stores file-system blocks faithfully the write-back cache is transparent.
  A read returns what the last write to that block stored, through any evictions; a write changes what
  is seen of its own block only; a flush leaves on the device exactly what is seen; and each of them
  succeeds and keeps the cache coherent.\<close>

theorem cache_refines_device:
  assumes disk: "fs_disk dev n disk ready" and coh: "coherent (disk w) n c" and ready: "ready w"
    and b: "b < n" and d: "length d = K64_XFS_BLOCK_SIZE"
  shows "\<exists>c1 w1 c2 w2 c3 w3.
     k64_xfs_cache_read dev b (c, w) = (Ok (cached_view (disk w) c b), (c1, w1)) \<and>
     coherent (disk w1) n c1 \<and> ready w1 \<and> cached_view (disk w1) c1 = cached_view (disk w) c \<and>
     k64_xfs_cache_write dev b d (c, w) = (Ok (), (c2, w2)) \<and>
     coherent (disk w2) n c2 \<and> ready w2 \<and> cached_view (disk w2) c2 = (cached_view (disk w) c)(b := d) \<and>
     k64_xfs_cache_flush dev (c, w) = (Ok (), (c3, w3)) \<and>
     coherent (disk w3) n c3 \<and> ready w3 \<and> disk w3 = cached_view (disk w) c \<and>
     cached_view (disk w3) c3 = cached_view (disk w) c"
proof -
  obtain c1 w1 where 1: "k64_xfs_cache_read dev b (c, w) = (Ok (cached_view (disk w) c b), (c1, w1))"
    "coherent (disk w1) n c1" "ready w1" "cached_view (disk w1) c1 = cached_view (disk w) c"
    by (rule fs_disk.cache_read_view [OF disk coh ready b])
  obtain c2 w2 where 2: "k64_xfs_cache_write dev b d (c, w) = (Ok (), (c2, w2))"
    "coherent (disk w2) n c2" "ready w2" "cached_view (disk w2) c2 = (cached_view (disk w) c)(b := d)"
    by (rule fs_disk.cache_write_view [OF disk coh ready b d])
  obtain c3 w3 where 3: "k64_xfs_cache_flush dev (c, w) = (Ok (), (c3, w3))" "coherent (disk w3) n c3" "ready w3"
    "cached_view (disk w3) c3 = cached_view (disk w) c" "disk w3 = cached_view (disk w) c"
    by (rule fs_disk.cache_flush_view [OF disk coh ready])
  from 1 2 3 show ?thesis by blast
qed

lemma cache_init_coherent: "coherent d n k64_xfs_cache_init"
  by (simp add: coherent_def cache_wf_def k64_xfs_cache_init_def empty_entry_def)

lemma cache_init_view: "cached_view d k64_xfs_cache_init = d"
proof
  fix b
  have "cache_find k64_xfs_cache_init b = None"
    by (simp add: cache_find_None k64_xfs_cache_init_def empty_entry_def)
  then show "cached_view d k64_xfs_cache_init b = d b" by (simp add: cached_view_def)
qed

lemma zero_memory_ready: "mem_ready 0 (\<lambda>_. Some (replicate 8388608 0))"
  by (simp add: mem_ready_def)

theorem cache_refines_device_witness:
  "\<exists>c w. k64_xfs_cache_write (fallback_device 1 0) 7 (replicate K64_XFS_BLOCK_SIZE 1)
      (k64_xfs_cache_init, \<lambda>_. Some (replicate 8388608 0)) = (Ok (), (c, w)) \<and>
    cached_view (mem_blocks 0 w) c 7 = replicate K64_XFS_BLOCK_SIZE 1"
  using cache_refines_device [OF mem.fs_disk_axioms [where ctx = 0 and ident = 1],
      of "\<lambda>_. Some (replicate 8388608 0)" k64_xfs_cache_init 7 "replicate K64_XFS_BLOCK_SIZE 1"]
    cache_init_coherent zero_memory_ready
  by auto

end
