(* ===== verification/Xfs_Journal.thy ===== *)
theory Xfs_Journal
  imports Xfs_Cache
begin

text \<open>
  The mount state of \<^verbatim>\<open>src/k64_xfs.h\<close> and the metadata journal, \<^verbatim>\<open>src/k64_xfs_journal.c\<close>.

  The mount record holds the fields of \<^verbatim>\<open>k64_xfs_mount_t\<close>; the device is held by value. Two
  fields stand for what the C code reaches by other means: \<open>drv\<close>, the state of the drivers behind
  the device, and \<open>xfs_tmp_block\<close>, the file-static scratch block of \<^verbatim>\<open>k64_xfs.c\<close>, whose old content
  reaches the disk behind the superblock. The journal's two scratch blocks are always filled before
  they are used, so they are local values here.

  A transaction writes pairs of a header block and a payload block from the start of the journal,
  and a commit header after the last pair. Recovery collects the pairs of one transaction and
  copies their payloads to their targets if it finds the commit header.
\<close>

section \<open>The mount\<close>

record 'w k64_xfs_mount =
  mounted :: bool
  m_dev :: "'w k64_block_device"
  super :: k64_xfs_superblock
  cache :: k64_xfs_cache
  tx_id :: u64
  journal_records :: u32
  journal_active :: bool
  mount_path :: string
  drv :: 'w
  xfs_tmp_block :: bytes

type_synonym ('w, 'a) xfs = "('w k64_xfs_mount, 'a) op"

definition lift_drv :: "('w, 'a) op \<Rightarrow> ('w, 'a) xfs" where
  "lift_drv m fs = (case m (drv fs) of (r, w) \<Rightarrow> (r, fs\<lparr>drv := w\<rparr>))"

section \<open>Blocks and entries\<close>

definition journal_block_ok :: "'w k64_block_device \<Rightarrow> u64 \<Rightarrow> bool" where
  "journal_block_ok dev block \<longleftrightarrow> block_size dev \<noteq> 0 \<and> 4096 mod block_size dev = 0 \<and>
     \<not> block > (- 1) div ucast (4096 div block_size dev)"

definition journal_block_write :: "u64 \<Rightarrow> bytes \<Rightarrow> ('w, unit) xfs" where
  "journal_block_write block data fs =
     guard (journal_block_ok (m_dev fs) block)
       (let sectors = 4096 div block_size (m_dev fs)
        in lift_drv (k64_block_write (Some (m_dev fs)) (block * ucast sectors) sectors data)) fs"

definition journal_block_read :: "u64 \<Rightarrow> ('w, bytes) xfs" where
  "journal_block_read block fs =
     guard (journal_block_ok (m_dev fs) block)
       (let sectors = 4096 div block_size (m_dev fs)
        in lift_drv (k64_block_read (Some (m_dev fs)) (block * ucast sectors) sectors)) fs"

definition journal_read_entry :: "u64 \<Rightarrow> ('w, k64_xfs_journal_entry) xfs" where
  "journal_read_entry block =
     bind (journal_block_read block) (\<lambda>b.
       let out = dec_journal_entry b in
       guard (je_magic out = K64_XFS_JOURNAL_MAGIC \<and> je_header_checksum out = journal_header_checksum out)
         (ret out))"

section \<open>Recovery\<close>

text \<open>
  The loop that collects records: \<open>off\<close> is twice the number collected, so it stays far below the
  width of its type. The result says whether the commit header was found.
\<close>

function journal_scan :: "nat \<Rightarrow> u64 \<Rightarrow> k64_xfs_journal_entry list \<Rightarrow> ('w, bool \<times> k64_xfs_journal_entry list) xfs" where
  "journal_scan off tx records fs =
     (if of_nat off < sb_journal_blocks (super fs)
      then case journal_read_entry (sb_journal_start (super fs) + of_nat off) fs of
          (Ok entry, fs) \<Rightarrow>
            let tx = (if tx = 0 then je_tx_id entry else tx) in
            if je_tx_id entry \<noteq> tx then (Ok (False, records), fs)
            else if je_type entry = K64_XFS_JOURNAL_COMMIT then (Ok (True, records), fs)
            else if je_type entry \<noteq> K64_XFS_JOURNAL_METADATA_BLOCK \<or>
                    je_payload_size entry \<noteq> of_nat K64_XFS_BLOCK_SIZE \<or>
                    of_nat off + 1 \<ge> sb_journal_blocks (super fs) \<or>
                    length records \<ge> K64_XFS_JOURNAL_BLOCKS div 2
            then (Ok (False, records), fs)
            else journal_scan (off + 2) tx (records @ [entry]) fs
        | (Fail, fs) \<Rightarrow> (Ok (False, records), fs)
        | (Fault, fs) \<Rightarrow> (Fault, fs)
      else (Ok (False, records), fs))"
  by pat_completeness auto
termination
  by (relation "measure (\<lambda>(off, tx, records, fs). K64_XFS_JOURNAL_BLOCKS div 2 - length records)") auto

declare journal_scan.simps [simp del]

fun journal_replay :: "nat \<Rightarrow> k64_xfs_journal_entry list \<Rightarrow> ('w, unit) xfs" where
  "journal_replay i [] fs = (Ok (), fs)"
| "journal_replay i (r # rs) fs =
     bind (journal_block_read (sb_journal_start (super fs) + of_nat i * 2 + 1)) (\<lambda>payload.
       guard (k64_xfs_crc32 payload = je_payload_checksum r)
         (bind (journal_block_write (je_target_block r) payload) (\<lambda>_. journal_replay (Suc i) rs))) fs"

fun journal_clear :: "nat list \<Rightarrow> ('w, unit) xfs" where
  "journal_clear [] fs = (Ok (), fs)"
| "journal_clear (off # offs) fs =
     bind (journal_block_write (sb_journal_start (super fs) + of_nat off) (replicate K64_XFS_BLOCK_SIZE 0))
       (\<lambda>_. journal_clear offs) fs"

definition k64_xfs_journal_recover :: "('w, unit) xfs" where
  "k64_xfs_journal_recover fs =
     guard (mounted fs)
       (bind (journal_scan 0 0 []) (\<lambda>(committed, records).
        bind (if committed then journal_replay 0 records else ret ()) (\<lambda>_.
        bind (journal_clear [0..<unat (sb_journal_blocks (super fs))]) (\<lambda>_.
        modify (\<lambda>fs. fs\<lparr>journal_active := False, journal_records := 0,
          super := (super fs)\<lparr>sb_mount_state := K64_XFS_MOUNT_CLEAN\<rparr>\<rparr>))))) fs"

section \<open>Transactions\<close>

definition k64_xfs_journal_begin :: "('w, unit) xfs" where
  "k64_xfs_journal_begin fs =
     guard (mounted fs)
       (if journal_active fs then ret ()
        else modify (\<lambda>fs. fs\<lparr>tx_id := tx_id fs + 1, journal_records := 0, journal_active := True,
               super := (super fs)\<lparr>sb_mount_state := K64_XFS_MOUNT_DIRTY\<rparr>\<rparr>)) fs"

definition sealed_entry :: "k64_xfs_journal_entry \<Rightarrow> k64_xfs_journal_entry" where
  "sealed_entry e = e\<lparr>je_header_checksum := journal_header_checksum e\<rparr>"

text \<open>A zeroed block with the entry copied to its start.\<close>

definition header_block :: "k64_xfs_journal_entry \<Rightarrow> bytes" where
  "header_block e = put_at 0 (enc_journal_entry e) (replicate K64_XFS_BLOCK_SIZE 0)"

definition metadata_entry :: "u64 \<Rightarrow> u64 \<Rightarrow> bytes \<Rightarrow> k64_xfs_journal_entry" where
  "metadata_entry tx block_no block =
     sealed_entry \<lparr>je_magic = K64_XFS_JOURNAL_MAGIC, je_tx_id = tx, je_type = K64_XFS_JOURNAL_METADATA_BLOCK,
       je_target_block = block_no, je_payload_size = of_nat K64_XFS_BLOCK_SIZE,
       je_payload_checksum = k64_xfs_crc32 block, je_header_checksum = 0\<rparr>"

definition commit_entry :: "u64 \<Rightarrow> k64_xfs_journal_entry" where
  "commit_entry tx =
     sealed_entry \<lparr>je_magic = K64_XFS_JOURNAL_MAGIC, je_tx_id = tx, je_type = K64_XFS_JOURNAL_COMMIT,
       je_target_block = 0, je_payload_size = 0, je_payload_checksum = 0, je_header_checksum = 0\<rparr>"

definition k64_xfs_journal_metadata :: "u64 \<Rightarrow> bytes \<Rightarrow> ('w, unit) xfs" where
  "k64_xfs_journal_metadata block_no block fs =
     guard (mounted fs \<and> journal_active fs \<and> block_no < sb_total_blocks (super fs))
       (let header = sb_journal_start (super fs) + ucast (journal_records fs) * 2; payload = header + 1 in
        guard (\<not> payload \<ge> sb_journal_start (super fs) + sb_journal_blocks (super fs))
          (bind (journal_block_write header (header_block (metadata_entry (tx_id fs) block_no block))) (\<lambda>_.
           bind (journal_block_write payload block) (\<lambda>_.
           modify (\<lambda>fs. fs\<lparr>journal_records := journal_records fs + 1\<rparr>))))) fs"

definition k64_xfs_journal_commit :: "('w, unit) xfs" where
  "k64_xfs_journal_commit fs =
     guard (mounted fs)
       (if \<not> journal_active fs then ret ()
        else
          let commit_block = sb_journal_start (super fs) + ucast (journal_records fs) * 2 in
          guard (\<not> commit_block \<ge> sb_journal_start (super fs) + sb_journal_blocks (super fs))
            (bind (journal_block_write commit_block (header_block (commit_entry (tx_id fs)))) (\<lambda>_.
             modify (\<lambda>fs. fs\<lparr>super := (super fs)\<lparr>sb_generation := sb_generation (super fs) + 1\<rparr>,
               journal_active := False, journal_records := 0\<rparr>)))) fs"

section \<open>Entries\<close>

lemma dec_header_block [simp]: "dec_journal_entry (header_block e) = e"
proof -
  have "header_block e = enc_journal_entry e @ drop journal_entry_size (replicate K64_XFS_BLOCK_SIZE 0)"
    by (simp add: header_block_def put_at_def)
  then show ?thesis by (simp only: dec_enc_journal_entry_append)
qed

lemma length_header_block [simp]: "length (header_block e) = K64_XFS_BLOCK_SIZE"
  by (simp add: header_block_def journal_entry_size_def K64_XFS_BLOCK_SIZE_def)

lemma sealed_entry_checksum: "je_header_checksum (sealed_entry e) = journal_header_checksum (sealed_entry e)"
  by (simp add: sealed_entry_def journal_header_checksum_def)

lemma sealed_entry_fields [simp]:
  "je_magic (sealed_entry e) = je_magic e" "je_tx_id (sealed_entry e) = je_tx_id e"
  "je_type (sealed_entry e) = je_type e" "je_target_block (sealed_entry e) = je_target_block e"
  "je_payload_size (sealed_entry e) = je_payload_size e"
  "je_payload_checksum (sealed_entry e) = je_payload_checksum e"
  by (simp_all add: sealed_entry_def)

text \<open>\<open>entry_valid\<close> is the test \<^verbatim>\<open>journal_read_entry\<close> makes.\<close>

definition entry_valid :: "k64_xfs_journal_entry \<Rightarrow> bool" where
  "entry_valid e \<longleftrightarrow> je_magic e = K64_XFS_JOURNAL_MAGIC \<and> je_header_checksum e = journal_header_checksum e"

lemma entries_valid [simp]: "entry_valid (metadata_entry tx b d)" "entry_valid (commit_entry tx)"
  by (simp_all add: entry_valid_def metadata_entry_def commit_entry_def sealed_entry_checksum)

lemma metadata_entry_fields [simp]:
  "je_tx_id (metadata_entry tx b d) = tx" "je_type (metadata_entry tx b d) = K64_XFS_JOURNAL_METADATA_BLOCK"
  "je_target_block (metadata_entry tx b d) = b" "je_payload_size (metadata_entry tx b d) = of_nat K64_XFS_BLOCK_SIZE"
  "je_payload_checksum (metadata_entry tx b d) = k64_xfs_crc32 d"
  by (simp_all add: metadata_entry_def)

lemma commit_entry_fields [simp]:
  "je_tx_id (commit_entry tx) = tx" "je_type (commit_entry tx) = K64_XFS_JOURNAL_COMMIT"
  by (simp_all add: commit_entry_def)

lemma journal_block_write_raw: "journal_block_write b d fs = lift_drv (xfs_raw_write (m_dev fs) b d) fs"
  by (simp add: journal_block_write_def xfs_raw_write_def journal_block_ok_def lift_drv_def guard_def Let_def)

lemma journal_block_read_raw: "journal_block_read b fs = lift_drv (xfs_raw_read (m_dev fs) b) fs"
  by (simp add: journal_block_read_def xfs_raw_read_def journal_block_ok_def lift_drv_def guard_def Let_def)

section \<open>The journal area\<close>

text \<open>
  \<open>jblock s i\<close> is block \<open>i\<close> of the journal. \<open>records_at D s tx rs\<close>: the device content \<open>D\<close> holds the
  records \<open>rs\<close> (target and payload) of transaction \<open>tx\<close> from the start of the journal.
\<close>

definition jblock :: "k64_xfs_superblock \<Rightarrow> nat \<Rightarrow> u64" where
  "jblock s i = sb_journal_start s + of_nat i"

definition journal_fits :: "u64 \<Rightarrow> k64_xfs_superblock \<Rightarrow> bool" where
  "journal_fits n s \<longleftrightarrow> unat (sb_journal_start s) + unat (sb_journal_blocks s) \<le> unat n"

definition in_journal :: "k64_xfs_superblock \<Rightarrow> u64 \<Rightarrow> bool" where
  "in_journal s b \<longleftrightarrow> unat (sb_journal_start s) \<le> unat b \<and>
     unat b < unat (sb_journal_start s) + unat (sb_journal_blocks s)"

definition records_at :: "(u64 \<Rightarrow> bytes) \<Rightarrow> k64_xfs_superblock \<Rightarrow> u64 \<Rightarrow> (u64 \<times> bytes) list \<Rightarrow> bool" where
  "records_at D s tx rs \<longleftrightarrow> 2 * length rs \<le> unat (sb_journal_blocks s) \<and>
     (\<forall>i<length rs. dec_journal_entry (D (jblock s (2 * i))) = metadata_entry tx (fst (rs ! i)) (snd (rs ! i)) \<and>
        D (jblock s (2 * i + 1)) = snd (rs ! i))"

definition entry_list :: "u64 \<Rightarrow> (u64 \<times> bytes) list \<Rightarrow> k64_xfs_journal_entry list" where
  "entry_list tx rs = map (\<lambda>(b, d). metadata_entry tx b d) rs"

definition apply_records :: "(u64 \<times> bytes) list \<Rightarrow> (u64 \<Rightarrow> bytes) \<Rightarrow> u64 \<Rightarrow> bytes" where
  "apply_records rs D = fold (\<lambda>(b, d) D. D(b := d)) rs D"

lemma unat_jblock:
  assumes "journal_fits n s" and "i < unat (sb_journal_blocks s)"
  shows "unat (jblock s i) = unat (sb_journal_start s) + i"
proof -
  have b: "unat (sb_journal_start s) + unat (sb_journal_blocks s) < 2 ^ 64"
    using assms(1) unat_u64_less [of n] by (simp add: journal_fits_def)
  then have "unat (of_nat i :: u64) = i" using assms(2) by (intro unat_of_nat_small) simp
  then show ?thesis
    unfolding jblock_def using b assms(2) by (subst unat_add_no_wrap) simp_all
qed

lemma jblock_less: "journal_fits n s \<Longrightarrow> i < unat (sb_journal_blocks s) \<Longrightarrow> jblock s i < n"
  using unat_jblock [of n s i] by (simp add: word_less_nat_alt journal_fits_def)

lemma jblock_in: "journal_fits n s \<Longrightarrow> i < unat (sb_journal_blocks s) \<Longrightarrow> in_journal s (jblock s i)"
  by (simp add: in_journal_def unat_jblock)

lemma jblock_inj:
  "journal_fits n s \<Longrightarrow> i < unat (sb_journal_blocks s) \<Longrightarrow> j < unat (sb_journal_blocks s) \<Longrightarrow>
   jblock s i = jblock s j \<longleftrightarrow> i = j"
  by (metis add_left_cancel unat_jblock)

lemma in_journalE:
  assumes "journal_fits n s" and "in_journal s b"
  obtains i where "i < unat (sb_journal_blocks s)" "b = jblock s i"
proof -
  let ?i = "unat b - unat (sb_journal_start s)"
  have i: "?i < unat (sb_journal_blocks s)" using assms(2) by (auto simp: in_journal_def)
  have "unat b = unat (jblock s ?i)" using unat_jblock [OF assms(1) i] assms(2) by (simp add: in_journal_def)
  then have "b = jblock s ?i" by (simp add: word_unat_eq_iff)
  with i that show ?thesis by blast
qed

lemma off_less: "i < 2 ^ 64 \<Longrightarrow> (of_nat i :: u64) < w \<longleftrightarrow> i < unat w"
  by (simp add: word_less_nat_alt unat_of_nat_small)

lemma apply_records_Nil: "apply_records [] = (\<lambda>D. D)"
  by (simp add: apply_records_def fun_eq_iff)

lemma apply_records_other: "b \<notin> fst ` set rs \<Longrightarrow> apply_records rs D b = D b"
proof (induction rs arbitrary: D)
  case (Cons r rs)
  then show ?case by (cases r) (simp add: apply_records_def)
qed (simp add: apply_records_def)

section \<open>Recovery on a faithful device\<close>

context fs_disk
begin

definition on_dev :: "'w k64_xfs_mount \<Rightarrow> bool" where
  "on_dev fs \<longleftrightarrow> m_dev fs = dev \<and> ready (drv fs)"

lemma journal_read_disk: "on_dev fs \<Longrightarrow> b < nblocks \<Longrightarrow> journal_block_read b fs = (Ok (disk (drv fs) b), fs)"
  by (simp add: journal_block_read_raw lift_drv_def on_dev_def raw_read)

lemma journal_write_disk:
  assumes "on_dev fs" and "b < nblocks" and "length d = K64_XFS_BLOCK_SIZE"
  obtains w where "journal_block_write b d fs = (Ok (), fs\<lparr>drv := w\<rparr>)" "ready w" "disk w = (disk (drv fs))(b := d)"
proof -
  obtain w where w: "xfs_raw_write dev b d (drv fs) = (Ok (), w)" "ready w" "disk w = (disk (drv fs))(b := d)"
    using raw_write [of "drv fs" b d] assms by (auto simp: on_dev_def)
  show ?thesis
    by (rule that [of w]) (use w assms(1) in \<open>simp_all add: journal_block_write_raw lift_drv_def on_dev_def\<close>)
qed

lemma on_dev_drv [simp]: "on_dev (fs\<lparr>drv := w\<rparr>) \<longleftrightarrow> m_dev fs = dev \<and> ready w"
  by (simp add: on_dev_def)

lemma read_entry_disk:
  assumes "on_dev fs" and "b < nblocks"
  shows "journal_read_entry b fs =
    (if entry_valid (dec_journal_entry (disk (drv fs) b)) then (Ok (dec_journal_entry (disk (drv fs) b)), fs)
     else (Fail, fs))"
  unfolding journal_read_entry_def using journal_read_disk [OF assms]
  by (simp add: bind_def Let_def entry_valid_def guard_def)

text \<open>The scan passes over the records it finds.\<close>

lemma scan_records:
  assumes dev: "on_dev fs" and fits: "journal_fits nblocks (super fs)"
    and rs: "records_at (disk (drv fs)) (super fs) tx rs" and tx: "tx \<noteq> 0"
    and len: "length rs \<le> 16" and k: "k \<le> length rs" and t: "t = 0 \<or> t = tx"
  shows "journal_scan (2 * k) t (entry_list tx (take k rs)) fs =
    journal_scan (2 * length rs) (if k < length rs then tx else t) (entry_list tx rs) fs"
  using k t
proof (induction "length rs - k" arbitrary: k t)
  case 0
  then show ?case by simp
next
  case (Suc m)
  let ?s = "super fs"
  have k: "k < length rs" using Suc.hyps(2) by simp
  have jb: "2 * k + 1 < unat (sb_journal_blocks ?s)" using rs k by (auto simp: records_at_def)
  let ?e = "metadata_entry tx (fst (rs ! k)) (snd (rs ! k))"
  have "dec_journal_entry (disk (drv fs) (jblock ?s (2 * k))) = ?e" using rs k by (simp add: records_at_def)
  then have read: "journal_read_entry (sb_journal_start ?s + of_nat (2 * k)) fs = (Ok ?e, fs)"
    unfolding jblock_def [symmetric] using read_entry_disk [OF dev jblock_less [OF fits, of "2 * k"]] jb by simp
  have small: "2 * k + 1 < 2 ^ 64" using k len by simp
  have off: "(of_nat (2 * k) :: u64) < sb_journal_blocks ?s" "\<not> of_nat (2 * k) + 1 \<ge> sb_journal_blocks ?s"
    using off_less [of "2 * k"] off_less [OF small] jb small by (simp_all add: not_le add.commute)
  have ty: "K64_XFS_JOURNAL_METADATA_BLOCK \<noteq> K64_XFS_JOURNAL_COMMIT"
    by (simp add: K64_XFS_JOURNAL_METADATA_BLOCK_def K64_XFS_JOURNAL_COMMIT_def)
  have lk: "length (entry_list tx (take k rs)) < K64_XFS_JOURNAL_BLOCKS div 2"
    using k len by (simp add: entry_list_def K64_XFS_JOURNAL_BLOCKS_def)
  have "entry_list tx (take k rs) @ [?e] = entry_list tx (take (Suc k) rs)"
    using k by (simp add: entry_list_def take_Suc_conv_app_nth case_prod_beta)
  then have "journal_scan (2 * k) t (entry_list tx (take k rs)) fs = journal_scan (2 * Suc k) tx (entry_list tx (take (Suc k) rs)) fs"
    using off read ty lk Suc.prems(2) tx
    by (subst journal_scan.simps) (auto simp: Let_def not_le)
  also have "\<dots> = journal_scan (2 * length rs) tx (entry_list tx rs) fs"
    using Suc.hyps(1) [of "Suc k" tx] Suc.hyps(2) k by auto
  finally show ?case using k by simp
qed

end

context fs_disk
begin

lemma scan_from_start:
  assumes "on_dev fs" and "journal_fits nblocks (super fs)" and "records_at (disk (drv fs)) (super fs) tx rs"
    and "tx \<noteq> 0" and "length rs \<le> 16"
  shows "journal_scan 0 0 [] fs =
    journal_scan (2 * length rs) (if 0 < length rs then tx else 0) (entry_list tx rs) fs"
  using scan_records [OF assms, of 0 0] by (simp only: entry_list_def take_0 list.map mult_0_right le0 simp_thms)

lemma scan_committed:
  assumes "on_dev fs" and "journal_fits nblocks (super fs)" and "records_at (disk (drv fs)) (super fs) tx rs"
    and "tx \<noteq> 0" and "length rs \<le> 16" and room: "2 * length rs < unat (sb_journal_blocks (super fs))"
    and commit: "dec_journal_entry (disk (drv fs) (jblock (super fs) (2 * length rs))) = commit_entry tx"
  shows "journal_scan 0 0 [] fs = (Ok (True, entry_list tx rs), fs)"
proof -
  have small: "2 * length rs < 2 ^ 64" using assms(5) by simp
  have off: "(of_nat (2 * length rs) :: u64) < sb_journal_blocks (super fs)" using off_less [OF small] room by simp
  have "journal_read_entry (sb_journal_start (super fs) + of_nat (2 * length rs)) fs = (Ok (commit_entry tx), fs)"
    unfolding jblock_def [symmetric]
    using read_entry_disk [OF assms(1) jblock_less [OF assms(2) room]] commit by simp
  then have "journal_scan (2 * length rs) (if 0 < length rs then tx else 0) (entry_list tx rs) fs = (Ok (True, entry_list tx rs), fs)"
    using off assms(4) by (subst journal_scan.simps) (simp add: Let_def)
  with scan_from_start [OF assms(1-5)] show ?thesis by (simp only:)
qed

lemma replay_records:
  assumes "on_dev fs" and "journal_fits nblocks (super fs)"
    and "\<And>j. j < length rs \<Longrightarrow> 2 * (i + j) + 1 < unat (sb_journal_blocks (super fs)) \<and>
       disk (drv fs) (jblock (super fs) (2 * (i + j) + 1)) = snd (rs ! j)"
    and "\<forall>(b, d)\<in>set rs. b < nblocks \<and> \<not> in_journal (super fs) b \<and> length d = K64_XFS_BLOCK_SIZE"
  obtains w where "journal_replay i (entry_list tx rs) fs = (Ok (), fs\<lparr>drv := w\<rparr>)" "ready w"
    "disk w = apply_records rs (disk (drv fs))"
  using assms
proof (induction rs arbitrary: i fs thesis)
  case Nil
  then show ?case using Nil(1) [of "drv fs"] by (simp add: entry_list_def apply_records_def on_dev_def)
next
  case (Cons r rs)
  obtain b d where r: "r = (b, d)" by fastforce
  let ?s = "super fs"
  have first: "2 * i + 1 < unat (sb_journal_blocks ?s)" "disk (drv fs) (jblock ?s (2 * i + 1)) = d"
    using Cons.prems(4) [of 0] r by auto
  have bd: "b < nblocks" "\<not> in_journal ?s b" "length d = K64_XFS_BLOCK_SIZE" using Cons.prems(5) r by auto
  have "sb_journal_start ?s + of_nat i * 2 + 1 = jblock ?s (2 * i + 1)" by (simp add: jblock_def ac_simps)
  then have read: "journal_block_read (sb_journal_start ?s + of_nat i * 2 + 1) fs = (Ok d, fs)"
    using journal_read_disk [OF Cons.prems(2) jblock_less [OF Cons.prems(3) first(1)]] first(2) by simp
  obtain w1 where w1: "journal_block_write b d fs = (Ok (), fs\<lparr>drv := w1\<rparr>)" "ready w1" "disk w1 = (disk (drv fs))(b := d)"
    by (rule journal_write_disk [OF Cons.prems(2) bd(1,3)])
  let ?fs = "fs\<lparr>drv := w1\<rparr>"
  have on: "on_dev ?fs" using Cons.prems(2) w1(2) by (simp add: on_dev_def)
  have pay: "2 * (Suc i + j) + 1 < unat (sb_journal_blocks (super ?fs)) \<and>
       disk (drv ?fs) (jblock (super ?fs) (2 * (Suc i + j) + 1)) = snd (rs ! j)" if "j < length rs" for j
  proof -
    have o: "2 * (i + Suc j) + 1 < unat (sb_journal_blocks ?s)" "disk (drv fs) (jblock ?s (2 * (i + Suc j) + 1)) = snd (rs ! j)"
      using Cons.prems(4) [of "Suc j"] that by auto
    then have "jblock ?s (2 * (i + Suc j) + 1) \<noteq> b"
      using bd(2) jblock_in [OF Cons.prems(3)] by auto
    with o w1(3) show ?thesis by simp
  qed
  obtain w where w: "journal_replay (Suc i) (entry_list tx rs) ?fs = (Ok (), ?fs\<lparr>drv := w\<rparr>)" "ready w"
      "disk w = apply_records rs (disk (drv ?fs))"
    by (rule Cons.IH [of "Suc i" ?fs, OF _ on _ pay]) (use Cons.prems(3,5) in auto)
  have "journal_replay i (entry_list tx (r # rs)) fs = (Ok (), fs\<lparr>drv := w\<rparr>)"
    using read w1(1) w(1) by (simp add: entry_list_def r bind_def)
  then show ?case
    by (rule Cons.prems(1)) (use w w1(3) r in \<open>simp_all add: apply_records_def\<close>)
qed

lemma clear_blocks:
  assumes "on_dev fs" and "journal_fits nblocks (super fs)" and "set offs \<subseteq> {..<unat (sb_journal_blocks (super fs))}"
  obtains w where "journal_clear offs fs = (Ok (), fs\<lparr>drv := w\<rparr>)" "ready w"
    "disk w = (\<lambda>b. if b \<in> jblock (super fs) ` set offs then replicate K64_XFS_BLOCK_SIZE 0 else disk (drv fs) b)"
  using assms
proof (induction offs arbitrary: fs thesis)
  case Nil
  then show ?case using Nil(1) [of "drv fs"] by (simp add: on_dev_def)
next
  case (Cons k offs)
  let ?z = "replicate K64_XFS_BLOCK_SIZE 0"
  obtain w1 where w1: "journal_block_write (jblock (super fs) k) ?z fs = (Ok (), fs\<lparr>drv := w1\<rparr>)" "ready w1"
      "disk w1 = (disk (drv fs))(jblock (super fs) k := ?z)"
    using journal_write_disk [OF Cons.prems(2) jblock_less [OF Cons.prems(3)], of k ?z] Cons.prems(4) by auto
  let ?fs = "fs\<lparr>drv := w1\<rparr>"
  obtain w where w: "journal_clear offs ?fs = (Ok (), ?fs\<lparr>drv := w\<rparr>)" "ready w"
      "disk w = (\<lambda>b. if b \<in> jblock (super ?fs) ` set offs then ?z else disk (drv ?fs) b)"
    by (rule Cons.IH [of ?fs]) (use Cons.prems(2-4) w1(2) in \<open>auto simp: on_dev_def\<close>)
  have "journal_clear (k # offs) fs = (Ok (), fs\<lparr>drv := w\<rparr>)"
    using w1(1) w(1) by (simp add: bind_def jblock_def)
  then show ?case
    by (rule Cons.prems(1)) (use w w1(3) in auto)
qed

end

section \<open>Crash safety\<close>

text \<open>
  \<open>no_commit tx D s\<close>: the journal holds no commit header of transaction \<open>tx\<close>, or none at all when
  \<open>tx\<close> is 0, the number of a scan that has not met a record yet. \<open>recovered s rs D\<close> is the device
  after a recovery that replayed \<open>rs\<close>.
\<close>

definition no_commit :: "u64 \<Rightarrow> (u64 \<Rightarrow> bytes) \<Rightarrow> k64_xfs_superblock \<Rightarrow> bool" where
  "no_commit tx D s \<longleftrightarrow> (\<forall>i. 2 * i < unat (sb_journal_blocks s) \<longrightarrow>
     (let e = dec_journal_entry (D (jblock s (2 * i)))
      in \<not> (entry_valid e \<and> je_type e = K64_XFS_JOURNAL_COMMIT \<and> (tx = 0 \<or> je_tx_id e = tx))))"

lemma no_commit_any: "no_commit 0 D s \<Longrightarrow> no_commit tx D s"
  by (auto simp: no_commit_def Let_def)

definition recovered :: "k64_xfs_superblock \<Rightarrow> (u64 \<times> bytes) list \<Rightarrow> (u64 \<Rightarrow> bytes) \<Rightarrow> u64 \<Rightarrow> bytes" where
  "recovered s rs D b = (if in_journal s b then replicate K64_XFS_BLOCK_SIZE 0 else apply_records rs D b)"

abbreviation journal_idle :: "'w k64_xfs_mount \<Rightarrow> 'w k64_xfs_mount" where
  "journal_idle fs \<equiv> fs\<lparr>journal_active := False, journal_records := 0,
     super := (super fs)\<lparr>sb_mount_state := K64_XFS_MOUNT_CLEAN\<rparr>\<rparr>"

context fs_disk
begin

lemma scan_no_commit:
  assumes dev: "on_dev fs" and fits: "journal_fits nblocks (super fs)"
    and "no_commit tx (disk (drv fs)) (super fs)" and "length records \<le> 16"
  shows "\<exists>rs. journal_scan (2 * length records) tx records fs = (Ok (False, rs), fs)"
  using assms(3,4)
proof (induction "16 - length records" arbitrary: records tx rule: less_induct)
  case less
  let ?s = "super fs" and ?off = "2 * length records"
  let ?e = "dec_journal_entry (disk (drv fs) (jblock ?s ?off))"
  show ?case
  proof (cases "of_nat ?off < sb_journal_blocks ?s \<and> entry_valid ?e")
    case False
    have "journal_read_entry (sb_journal_start ?s + of_nat ?off) fs = (Fail, fs)" if l: "of_nat ?off < sb_journal_blocks ?s"
    proof -
      have "?off < unat (sb_journal_blocks ?s)" using l off_less [of ?off] less.prems by (simp del: of_nat_mult)
      from read_entry_disk [OF dev jblock_less [OF fits this]] False l show ?thesis
        unfolding jblock_def by (simp del: of_nat_mult)
    qed
    then show ?thesis by (subst journal_scan.simps) simp
  next
    case True
    have o: "?off < unat (sb_journal_blocks ?s)" using True off_less [of ?off] less.prems(2) by (simp del: of_nat_mult)
    have rd: "journal_read_entry (sb_journal_start ?s + of_nat ?off) fs = (Ok ?e, fs)"
      using read_entry_disk [OF dev jblock_less [OF fits o]] True unfolding jblock_def by (simp del: of_nat_mult)
    let ?tx = "if tx = 0 then je_tx_id ?e else tx"
    have ty: "je_tx_id ?e = ?tx \<Longrightarrow> je_type ?e \<noteq> K64_XFS_JOURNAL_COMMIT"
      using less.prems(1) o True by (auto simp: no_commit_def Let_def split: if_splits)
    have nc: "no_commit ?tx (disk (drv fs)) ?s" using less.prems(1) no_commit_any by auto
    let ?stop = "je_tx_id ?e \<noteq> ?tx \<or> je_type ?e \<noteq> K64_XFS_JOURNAL_METADATA_BLOCK \<or>
       je_payload_size ?e \<noteq> of_nat K64_XFS_BLOCK_SIZE \<or> of_nat ?off + 1 \<ge> sb_journal_blocks ?s \<or>
       length records \<ge> K64_XFS_JOURNAL_BLOCKS div 2"
    have step: "journal_scan ?off tx records fs =
       (if ?stop then (Ok (False, records), fs) else journal_scan (2 * length (records @ [?e])) ?tx (records @ [?e]) fs)"
      using True ty rd by (subst journal_scan.simps) (auto simp: Let_def simp del: of_nat_mult)
    show ?thesis
    proof (cases ?stop)
      case True
      then show ?thesis using step by (simp only: if_True) blast
    next
      case False
      then have "length records < 16" by (simp add: K64_XFS_JOURNAL_BLOCKS_def)
      then have "\<exists>rs. journal_scan (2 * length (records @ [?e])) ?tx (records @ [?e]) fs = (Ok (False, rs), fs)"
        using nc by (intro less.hyps) simp_all
      then show ?thesis using step False by (simp only: if_False)
    qed
  qed
qed

end

text \<open>Clearing the journal after a replay gives the recovered device.\<close>

context fs_disk
begin

lemma clear_all:
  assumes "on_dev fs" and "journal_fits nblocks (super fs)" and "disk (drv fs) = apply_records rs D"
  obtains w where "journal_clear [0..<unat (sb_journal_blocks (super fs))] fs = (Ok (), fs\<lparr>drv := w\<rparr>)" "ready w"
    "disk w = recovered (super fs) rs D"
proof -
  let ?s = "super fs"
  obtain w where w: "journal_clear [0..<unat (sb_journal_blocks ?s)] fs = (Ok (), fs\<lparr>drv := w\<rparr>)" "ready w"
      "disk w = (\<lambda>b. if b \<in> jblock ?s ` set [0..<unat (sb_journal_blocks ?s)] then replicate K64_XFS_BLOCK_SIZE 0
         else disk (drv fs) b)"
    by (rule clear_blocks [OF assms(1,2), of "[0..<unat (sb_journal_blocks ?s)]"]) auto
  have "b \<in> jblock ?s ` set [0..<unat (sb_journal_blocks ?s)] \<longleftrightarrow> in_journal ?s b" for b
    by (auto intro: jblock_in [OF assms(2)] elim!: in_journalE [OF assms(2)])
  then have "disk w = recovered ?s rs D" using w(3) assms(3) by (simp add: recovered_def fun_eq_iff)
  with w(1,2) show ?thesis by (rule that)
qed

text \<open>A scan that starts at a record takes its transaction number.\<close>

lemma scan_takes_number:
  assumes "on_dev fs" and "journal_fits nblocks (super fs)" and "0 < unat (sb_journal_blocks (super fs))"
    and e: "entry_valid (dec_journal_entry (disk (drv fs) (jblock (super fs) 0)))"
      "je_tx_id (dec_journal_entry (disk (drv fs) (jblock (super fs) 0))) = tx"
  shows "journal_scan 0 0 [] fs = journal_scan 0 tx [] fs"
proof -
  have "journal_read_entry (sb_journal_start (super fs) + of_nat 0) fs =
      (Ok (dec_journal_entry (disk (drv fs) (jblock (super fs) 0))), fs)"
    unfolding jblock_def [symmetric] using read_entry_disk [OF assms(1) jblock_less [OF assms(2,3)]] e(1) by simp
  then show ?thesis using e(2) by (simp add: journal_scan.simps [of 0] Let_def)
qed

lemma recover_uncommitted:
  assumes "on_dev fs" and "mounted fs" and "journal_fits nblocks (super fs)" and "0 < unat (sb_journal_blocks (super fs))"
    and "no_commit tx (disk (drv fs)) (super fs)"
    and start: "tx = 0 \<or> entry_valid (dec_journal_entry (disk (drv fs) (jblock (super fs) 0))) \<and>
      je_tx_id (dec_journal_entry (disk (drv fs) (jblock (super fs) 0))) = tx"
  obtains w where "k64_xfs_journal_recover fs = (Ok (), journal_idle (fs\<lparr>drv := w\<rparr>))" "ready w"
    "disk w = recovered (super fs) [] (disk (drv fs))"
proof -
  have "journal_scan 0 0 [] fs = journal_scan 0 tx [] fs"
    using start scan_takes_number [OF assms(1,3,4)] by auto
  then obtain rs where scan: "journal_scan 0 0 [] fs = (Ok (False, rs), fs)"
    using scan_no_commit [OF assms(1,3,5), of "[]"] by auto
  obtain w where "journal_clear [0..<unat (sb_journal_blocks (super fs))] fs = (Ok (), fs\<lparr>drv := w\<rparr>)" "ready w"
      "disk w = recovered (super fs) [] (disk (drv fs))"
    by (rule clear_all [OF assms(1,3) fun_cong [OF apply_records_Nil, symmetric]])
  with scan assms(2) show ?thesis
    by (intro that [of w]) (simp_all add: k64_xfs_journal_recover_def bind_def guard_def modify_def ret_def)
qed

lemma recover_committed:
  assumes "on_dev fs" and "mounted fs" and "journal_fits nblocks (super fs)"
    and recs: "records_at (disk (drv fs)) (super fs) tx rs"
    and "tx \<noteq> 0" and "length rs \<le> 16" and "2 * length rs < unat (sb_journal_blocks (super fs))"
    and "dec_journal_entry (disk (drv fs) (jblock (super fs) (2 * length rs))) = commit_entry tx"
    and targets: "\<forall>(b, d)\<in>set rs. b < nblocks \<and> \<not> in_journal (super fs) b \<and> length d = K64_XFS_BLOCK_SIZE"
  obtains w where "k64_xfs_journal_recover fs = (Ok (), journal_idle (fs\<lparr>drv := w\<rparr>))" "ready w"
    "disk w = recovered (super fs) rs (disk (drv fs))"
proof -
  have scan: "journal_scan 0 0 [] fs = (Ok (True, entry_list tx rs), fs)"
    by (rule scan_committed [OF assms(1,3-8)])
  obtain w1 where w1: "journal_replay 0 (entry_list tx rs) fs = (Ok (), fs\<lparr>drv := w1\<rparr>)" "ready w1"
      "disk w1 = apply_records rs (disk (drv fs))"
    by (rule replay_records [OF assms(1,3) _ targets, of 0])
      (use recs in \<open>auto simp: records_at_def\<close>)
  let ?fs = "fs\<lparr>drv := w1\<rparr>"
  have on: "on_dev ?fs" using assms(1) w1(2) by (simp add: on_dev_def)
  obtain w where "journal_clear [0..<unat (sb_journal_blocks (super ?fs))] ?fs = (Ok (), ?fs\<lparr>drv := w\<rparr>)" "ready w"
      "disk w = recovered (super ?fs) rs (disk (drv fs))"
    by (rule clear_all [OF on, of rs "disk (drv fs)"]) (use assms(3) w1(3) in auto)
  with scan w1(1) assms(2) show ?thesis
    by (intro that [of w]) (simp_all add: k64_xfs_journal_recover_def bind_def guard_def modify_def ret_def)
qed

end

section \<open>Losing power in a transaction\<close>

text \<open>
  A transaction as the file system's operations run it: begin, the metadata blocks, commit.
  \<open>log_writes s tx i rs\<close> is the sequence of blocks it writes for the records from number \<open>i\<close> on.
  \<open>power_device dev\<close> is \<open>dev\<close> with a supply of power that lasts for a given number of writes; the
  writes after that fail and change nothing.
\<close>

fun log_records :: "(u64 \<times> bytes) list \<Rightarrow> ('w, unit) xfs" where
  "log_records [] fs = (Ok (), fs)"
| "log_records (r # rs) fs = bind (k64_xfs_journal_metadata (fst r) (snd r)) (\<lambda>_. log_records rs) fs"

definition journal_transaction :: "(u64 \<times> bytes) list \<Rightarrow> ('w, unit) xfs" where
  "journal_transaction rs =
     bind k64_xfs_journal_begin (\<lambda>_. bind (log_records rs) (\<lambda>_. k64_xfs_journal_commit))"

fun log_writes :: "k64_xfs_superblock \<Rightarrow> u64 \<Rightarrow> nat \<Rightarrow> (u64 \<times> bytes) list \<Rightarrow> (u64 \<times> bytes) list" where
  "log_writes s tx i [] = []"
| "log_writes s tx i (r # rs) =
     (jblock s (2 * i), header_block (metadata_entry tx (fst r) (snd r))) # (jblock s (2 * i + 1), snd r) #
     log_writes s tx (Suc i) rs"

definition power_device :: "'w k64_block_device \<Rightarrow> (nat \<times> 'w) k64_block_device" where
  "power_device d =
     \<lparr>bd_id = bd_id d, bd_name = bd_name d, bd_source = bd_source d, block_size = block_size d,
      block_count = block_count d, start_lba = start_lba d, partition_type = partition_type d,
      is_partition = is_partition d, writable = writable d, online = online d, bd_context = bd_context d,
      bd_read = map_option (\<lambda>rd ctx lba c (n, w). case rd ctx lba c w of (r, w') \<Rightarrow> (r, (n, w'))) (bd_read d),
      bd_write = map_option (\<lambda>wr ctx lba c data (n, w).
        if n = 0 then (Fail, (n, w)) else case wr ctx lba c data w of (r, w') \<Rightarrow> (r, (n - 1, w'))) (bd_write d)\<rparr>"

lemma power_write_off: "xfs_raw_write (power_device dev) b d (0, w) = (Fail, (0, w))"
  by (auto simp: xfs_raw_write_def power_device_def k64_block_write_def guard_def Let_def split: option.splits)

lemma power_write_on:
  assumes "xfs_raw_write dev b d w = (Ok (), w')"
  shows "xfs_raw_write (power_device dev) b d (Suc n, w) = (Ok (), (n, w'))"
  using assms
  by (auto simp: xfs_raw_write_def power_device_def k64_block_write_def guard_def Let_def
      split: option.splits if_splits)

lemma length_log_writes [simp]: "length (log_writes s tx i rs) = 2 * length rs"
  by (induction rs arbitrary: i) auto

lemma apply_records_simps [simp]:
  "apply_records [] D = D"
  "apply_records (r # rs) D = apply_records rs (D(fst r := snd r))"
  by (auto simp: apply_records_def case_prod_beta)

lemma apply_records_append: "apply_records (xs @ ys) D = apply_records ys (apply_records xs D)"
  by (simp add: apply_records_def)

lemma apply_records_cong: "D' b = D b \<Longrightarrow> apply_records rs D' b = apply_records rs D b"
proof (induction rs arbitrary: D D')
  case (Cons r rs)
  then have "(D'(fst r := snd r)) b = (D(fst r := snd r)) b" by simp
  then show ?case unfolding apply_records_simps by (rule Cons.IH)
qed simp

text \<open>Only journal blocks are written, and no even block gets a commit header.\<close>

lemma log_writes_set:
  "r \<in> set (log_writes s tx i rs) \<Longrightarrow>
   \<exists>j. i \<le> j \<and> j < i + length rs \<and>
     (fst r = jblock s (2 * j) \<and> je_type (dec_journal_entry (snd r)) = K64_XFS_JOURNAL_METADATA_BLOCK \<or> fst r = jblock s (2 * j + 1))"
proof (induction rs arbitrary: i)
  case (Cons r' rs)
  show ?case
  proof (cases "r \<in> set (log_writes s tx (Suc i) rs)")
    case True
    from Cons.IH [OF this] show ?thesis by (metis Suc_leD add_Suc_shift length_Cons)
  next
    case False
    with Cons.prems show ?thesis by (intro exI [of _ i]) (cases "fst r = jblock s (2 * i + 1)", auto)
  qed
qed simp

lemma log_writes_result:
  assumes fits: "journal_fits n s" and "2 * (i + length rs) \<le> unat (sb_journal_blocks s)" and "j < length rs"
  shows "apply_records (log_writes s tx i rs) D (jblock s (2 * (i + j))) =
      header_block (metadata_entry tx (fst (rs ! j)) (snd (rs ! j))) \<and>
    apply_records (log_writes s tx i rs) D (jblock s (2 * (i + j) + 1)) = snd (rs ! j)"
  using assms(2,3)
proof (induction rs arbitrary: i j D)
  case (Cons r rs)
  show ?case
  proof (cases j)
    case (Suc k)
    then show ?thesis using Cons.IH [of "Suc i" k] Cons.prems by simp
  next
    case 0
    have fresh: "jblock s x \<notin> fst ` set (log_writes s tx (Suc i) rs)" if "x < 2 * Suc i" for x
      using Cons.prems that by (auto dest!: log_writes_set simp: jblock_inj [OF fits])
    have "jblock s (2 * i) \<noteq> jblock s (2 * i + 1)" using Cons.prems by (simp add: jblock_inj [OF fits])
    then show ?thesis using 0 fresh [of "2 * i"] fresh [of "2 * i + 1"] by (simp add: apply_records_other)
  qed
qed simp

lemma log_writes_in_journal:
  assumes "journal_fits n s" and "2 * (i + length rs) \<le> unat (sb_journal_blocks s)" and "r \<in> set (log_writes s tx i rs)"
  shows "in_journal s (fst r)"
  using log_writes_set [OF assms(3)] assms(2) by (auto intro!: jblock_in [OF assms(1)])

lemma no_commit_log:
  assumes fits: "journal_fits n s" and len: "2 * (i + length rs) \<le> unat (sb_journal_blocks s)" and "no_commit t D s"
  shows "no_commit t (apply_records (take m (log_writes s tx i rs)) D) s"
proof -
  have "set ws \<subseteq> set (log_writes s tx i rs) \<Longrightarrow> no_commit t (apply_records ws D) s" for ws
    using assms(3)
  proof (induction ws arbitrary: D)
    case (Cons r ws)
    obtain j where j: "i \<le> j" "j < i + length rs"
        "fst r = jblock s (2 * j) \<and> je_type (dec_journal_entry (snd r)) = K64_XFS_JOURNAL_METADATA_BLOCK \<or>
         fst r = jblock s (2 * j + 1)"
      using log_writes_set [of r s tx i rs] Cons.prems(1) by auto
    have "fst r \<noteq> jblock s (2 * k) \<or> je_type (dec_journal_entry (snd r)) \<noteq> K64_XFS_JOURNAL_COMMIT"
      if "2 * k < unat (sb_journal_blocks s)" for k
    proof -
      have "2 * j + 1 \<noteq> 2 * k" by presburger
      then have "jblock s (2 * j + 1) \<noteq> jblock s (2 * k)" using jblock_inj [OF fits, of "2 * j + 1" "2 * k"] j(1,2) len that by simp
      then show ?thesis
        using j(3) by (auto simp: K64_XFS_JOURNAL_METADATA_BLOCK_def K64_XFS_JOURNAL_COMMIT_def)
    qed
    then have "no_commit t (D(fst r := snd r)) s" using Cons.prems(2) by (auto simp: no_commit_def Let_def)
    then show ?case using Cons.IH Cons.prems(1) by simp
  qed simp
  then show ?thesis by (meson set_take_subset)
qed

text \<open>The first write of a transaction is the header of its first record.\<close>

lemma log_first:
  assumes fits: "journal_fits k s" and "2 * length (r # rs) \<le> unat (sb_journal_blocks s)" and "0 < n"
  shows "apply_records (take n (log_writes s tx 0 (r # rs))) D (jblock s 0) =
    header_block (metadata_entry tx (fst r) (snd r))"
proof -
  have "jblock s 0 \<notin> fst ` set (log_writes s tx (Suc 0) rs)"
    using assms(2) by (auto dest!: log_writes_set simp: jblock_inj [OF fits])
  moreover have "jblock s 0 \<noteq> jblock s 1" using assms(2) by (simp add: jblock_inj [OF fits])
  ultimately have "jblock s 0 \<notin> fst ` set ((jblock s 1, snd r) # log_writes s tx (Suc 0) rs)" by simp
  then have "jblock s 0 \<notin> fst ` set (take (n - 1) ((jblock s 1, snd r) # log_writes s tx (Suc 0) rs))"
    by (meson image_mono in_mono set_take_subset)
  then show ?thesis using assms(3) by (cases n) (auto simp: apply_records_other)
qed

lemma recovered_cong:
  "(\<And>b. \<not> in_journal s b \<Longrightarrow> D' b = D b) \<Longrightarrow> recovered s rs D' = recovered s rs D"
  using apply_records_cong [of D' _ D rs] by (auto simp: recovered_def fun_eq_iff)

context fs_disk
begin

definition powered :: "(nat \<times> 'w) k64_xfs_mount \<Rightarrow> bool" where
  "powered fs \<longleftrightarrow> m_dev fs = power_device dev \<and> ready (snd (drv fs))"

text \<open>One journal write under a limited supply: it takes effect, or fails and changes nothing.\<close>

lemma powered_write:
  assumes "powered fs" and "b < nblocks" and "length d = K64_XFS_BLOCK_SIZE"
  obtains "fst (drv fs) = 0" "journal_block_write b d fs = (Fail, fs)"
  | n w where "fst (drv fs) = Suc n" "journal_block_write b d fs = (Ok (), fs\<lparr>drv := (n, w)\<rparr>)" "ready w"
      "disk w = (disk (snd (drv fs)))(b := d)"
proof -
  obtain n w where drv: "drv fs = (n, w)" by fastforce
  show ?thesis
  proof (cases n)
    case 0
    then have "journal_block_write b d fs = (Fail, fs)"
      using assms(1) drv power_write_off [of dev b d w] by (simp add: journal_block_write_raw lift_drv_def powered_def)
    with 0 drv that(1) show ?thesis by simp
  next
    case (Suc m)
    obtain w' where w': "xfs_raw_write dev b d w = (Ok (), w')" "ready w'" "disk w' = (disk w)(b := d)"
      using raw_write [of w b d] assms drv by (auto simp: powered_def)
    have "journal_block_write b d fs = (Ok (), fs\<lparr>drv := (m, w')\<rparr>)"
      using power_write_on [OF w'(1), of m] assms(1) Suc drv by (simp add: journal_block_write_raw lift_drv_def powered_def)
    with Suc drv w' that(2) show ?thesis by simp
  qed
qed

end

lemma journal_slot:
  assumes "journal_fits n s" and "k < unat (sb_journal_blocks s)"
  shows "\<not> jblock s k \<ge> sb_journal_start s + sb_journal_blocks s"
proof -
  have "unat (sb_journal_start s + sb_journal_blocks s) = unat (sb_journal_start s) + unat (sb_journal_blocks s)"
    using assms(1) unat_u64_less [of n] by (intro unat_add_no_wrap) (simp add: journal_fits_def)
  then show ?thesis using unat_jblock [OF assms] assms(2) by (simp add: word_le_nat_alt)
qed

lemma record_slot:
  "i < 2147483648 \<Longrightarrow> sb_journal_start s + ucast (of_nat i :: u32) * 2 = jblock s (2 * i)"
proof -
  assume "i < 2147483648"
  then have "(ucast (of_nat i :: u32) :: u64) = of_nat i"
    by (intro word_unat_eq_iff [THEN iffD2]) (simp add: unat_of_nat_small)
  then show ?thesis by (simp add: jblock_def mult.commute)
qed

context fs_disk
begin

lemma metadata_powered:
  assumes fs: "powered fs" "mounted fs" "journal_active fs" and fits: "journal_fits nblocks (super fs)"
    and b: "b < sb_total_blocks (super fs)" and d: "length d = K64_XFS_BLOCK_SIZE"
    and i: "journal_records fs = of_nat i" "i < 2147483648" "2 * i + 1 < unat (sb_journal_blocks (super fs))"
    and n: "fst (drv fs) = n"
  shows "\<exists>w. ready w \<and>
    disk w = apply_records (take n (log_writes (super fs) (tx_id fs) i [(b, d)])) (disk (snd (drv fs))) \<and>
    k64_xfs_journal_metadata b d fs =
      (if 2 \<le> n then (Ok (), fs\<lparr>drv := (n - 2, w), journal_records := of_nat (Suc i)\<rparr>) else (Fail, fs\<lparr>drv := (0, w)\<rparr>))"
proof -
  let ?s = "super fs" and ?h = "header_block (metadata_entry (tx_id fs) b d)"
  let ?D = "disk (snd (drv fs))"
  have slot: "sb_journal_start ?s + ucast (journal_records fs) * 2 = jblock ?s (2 * i)" using record_slot i(1,2) by simp
  have slot1: "jblock ?s (2 * i) + 1 = jblock ?s (2 * i + 1)" by (simp add: jblock_def)
  have ok: "\<not> jblock ?s (2 * i + 1) \<ge> sb_journal_start ?s + sb_journal_blocks ?s" by (rule journal_slot [OF fits i(3)])
  have less: "jblock ?s (2 * i) < nblocks" "jblock ?s (2 * i + 1) < nblocks" using jblock_less [OF fits] i(3) by simp_all
  have run: "k64_xfs_journal_metadata b d fs =
     bind (journal_block_write (jblock ?s (2 * i)) ?h) (\<lambda>_. bind (journal_block_write (jblock ?s (2 * i + 1)) d)
       (\<lambda>_. modify (\<lambda>fs. fs\<lparr>journal_records := journal_records fs + 1\<rparr>))) fs"
    unfolding k64_xfs_journal_metadata_def Let_def slot slot1 using fs b ok by (simp only: guard_simps simp_thms)
  show ?thesis
  proof (rule powered_write [OF fs(1) less(1) length_header_block])
    assume p: "fst (drv fs) = 0" "journal_block_write (jblock ?s (2 * i)) (header_block (metadata_entry (tx_id fs) b d)) fs = (Fail, fs)"
    have "fs\<lparr>drv := (0, snd (drv fs))\<rparr> = fs" using p(1) by (metis prod.collapse k64_xfs_mount.surjective k64_xfs_mount.update_convs(9))
    then show ?thesis using p n fs(1) run by (intro exI [of _ "snd (drv fs)"]) (simp add: bind_def powered_def)
  next
    fix m w1
    assume p: "fst (drv fs) = Suc m" "journal_block_write (jblock ?s (2 * i)) ?h fs = (Ok (), fs\<lparr>drv := (m, w1)\<rparr>)" "ready w1"
      "disk w1 = ?D(jblock ?s (2 * i) := ?h)"
    let ?fs = "fs\<lparr>drv := (m, w1)\<rparr>"
    have fs1: "powered ?fs" using fs(1) p(3) by (simp add: powered_def)
    show ?thesis
    proof (rule powered_write [OF fs1 less(2) d])
      assume q: "fst (drv ?fs) = 0" "journal_block_write (jblock ?s (2 * i + 1)) d ?fs = (Fail, ?fs)"
      then have "n = 1" using p(1) n by simp
      then show ?thesis using p q run by (intro exI [of _ w1]) (simp add: bind_def)
    next
      fix m' w2
      assume q: "fst (drv ?fs) = Suc m'" "journal_block_write (jblock ?s (2 * i + 1)) d ?fs = (Ok (), ?fs\<lparr>drv := (m', w2)\<rparr>)"
        "ready w2" "disk w2 = (disk (snd (drv ?fs)))(jblock ?s (2 * i + 1) := d)"
      then have nm: "n = Suc (Suc m')" using p(1) n by simp
      then show ?thesis using p q run i(1)
        by (intro exI [of _ w2]) (simp add: bind_def add.commute)
    qed
  qed
qed

lemma log_records_powered:
  assumes "powered fs" "mounted fs" "journal_active fs" and "journal_fits nblocks (super fs)"
    and "\<forall>(b, d)\<in>set rs. b < sb_total_blocks (super fs) \<and> length d = K64_XFS_BLOCK_SIZE"
    and "journal_records fs = of_nat i" "i + length rs < 2147483648" "2 * (i + length rs) \<le> unat (sb_journal_blocks (super fs))"
    and "fst (drv fs) = n"
  shows "\<exists>w. ready w \<and>
    disk w = apply_records (take n (log_writes (super fs) (tx_id fs) i rs)) (disk (snd (drv fs))) \<and>
    (if 2 * length rs \<le> n
     then log_records rs fs = (Ok (), fs\<lparr>drv := (n - 2 * length rs, w), journal_records := of_nat (i + length rs)\<rparr>)
     else \<exists>fs'. log_records rs fs = (Fail, fs') \<and> snd (drv fs') = w)"
  using assms
proof (induction rs arbitrary: fs i n)
  case Nil
  then show ?case
    by (intro exI [of _ "snd (drv fs)"]) (auto simp: powered_def)
next
  case (Cons r rs)
  obtain b d where r: "r = (b, d)" by fastforce
  have bd: "b < sb_total_blocks (super fs)" "length d = K64_XFS_BLOCK_SIZE" using Cons.prems(5) r by auto
  have ib: "i < 2147483648" "2 * i + 1 < unat (sb_journal_blocks (super fs))" using Cons.prems(7,8) by auto
  obtain w1 where w1: "ready w1"
      "disk w1 = apply_records (take n (log_writes (super fs) (tx_id fs) i [(b, d)])) (disk (snd (drv fs)))"
      "k64_xfs_journal_metadata b d fs =
        (if 2 \<le> n then (Ok (), fs\<lparr>drv := (n - 2, w1), journal_records := of_nat (Suc i)\<rparr>) else (Fail, fs\<lparr>drv := (0, w1)\<rparr>))"
    using metadata_powered [OF Cons.prems(1-4) bd Cons.prems(6) ib Cons.prems(9)] by blast
  have app: "log_writes (super fs) (tx_id fs) i (r # rs) =
      log_writes (super fs) (tx_id fs) i [(b, d)] @ log_writes (super fs) (tx_id fs) (Suc i) rs"
    by (simp add: r)
  show ?case
  proof (cases "2 \<le> n")
    case False
    then have "n - 2 = 0" by simp
    then show ?thesis using w1 False unfolding app
      by (intro exI [of _ w1]) (simp add: r bind_def apply_records_append del: log_writes.simps)
  next
    case True
    let ?fs = "fs\<lparr>drv := (n - 2, w1), journal_records := of_nat (Suc i)\<rparr>"
    obtain w where w: "ready w"
        "disk w = apply_records (take (n - 2) (log_writes (super ?fs) (tx_id ?fs) (Suc i) rs)) (disk (snd (drv ?fs)))"
        "if 2 * length rs \<le> n - 2
         then log_records rs ?fs = (Ok (), ?fs\<lparr>drv := (n - 2 - 2 * length rs, w), journal_records := of_nat (Suc i + length rs)\<rparr>)
         else \<exists>fs'. log_records rs ?fs = (Fail, fs') \<and> snd (drv fs') = w"
      using Cons.IH [of ?fs "Suc i" "n - 2"] Cons.prems w1(1) by (auto simp: powered_def)
    have "log_records (r # rs) fs = log_records rs ?fs" using w1(3) True by (simp add: r bind_def)
    moreover have "take n (log_writes (super fs) (tx_id fs) i [(b, d)]) = log_writes (super fs) (tx_id fs) i [(b, d)]"
      using True by (intro take_all) simp
    ultimately show ?thesis using w w1(2) True unfolding app
      by (intro exI [of _ w]) (auto simp: apply_records_append le_diff_conv2 simp del: log_writes.simps)
  qed
qed

end

text \<open>The blocks a whole transaction writes, in order.\<close>

definition transaction_writes :: "k64_xfs_superblock \<Rightarrow> u64 \<Rightarrow> (u64 \<times> bytes) list \<Rightarrow> (u64 \<times> bytes) list" where
  "transaction_writes s tx rs = log_writes s tx 0 rs @ [(jblock s (2 * length rs), header_block (commit_entry tx))]"

lemma log_writes_super [simp]: "log_writes (s\<lparr>sb_mount_state := x\<rparr>) tx i rs = log_writes s tx i rs"
  by (induction rs arbitrary: i) (simp_all add: jblock_def)

lemma jblock_super [simp]: "jblock (s\<lparr>sb_mount_state := x\<rparr>) i = jblock s i"
  by (simp add: jblock_def)

lemma fits_super [simp]: "journal_fits n (s\<lparr>sb_mount_state := x\<rparr>) = journal_fits n s"
  by (simp add: journal_fits_def)

context fs_disk
begin

lemma commit_powered:
  assumes fs: "powered fs" "mounted fs" "journal_active fs" and fits: "journal_fits nblocks (super fs)"
    and i: "journal_records fs = of_nat i" "i < 2147483648" "2 * i < unat (sb_journal_blocks (super fs))"
    and n: "fst (drv fs) = n"
  shows "\<exists>w. ready w \<and>
    disk w = apply_records (take n [(jblock (super fs) (2 * i), header_block (commit_entry (tx_id fs)))]) (disk (snd (drv fs))) \<and>
    (\<exists>fs'. k64_xfs_journal_commit fs = (if n = 0 then Fail else Ok (), fs') \<and> snd (drv fs') = w)"
proof -
  let ?s = "super fs" and ?h = "header_block (commit_entry (tx_id fs))"
  have slot: "sb_journal_start ?s + ucast (journal_records fs) * 2 = jblock ?s (2 * i)" using record_slot i(1,2) by simp
  have run: "k64_xfs_journal_commit fs =
     bind (journal_block_write (jblock ?s (2 * i)) ?h)
       (\<lambda>_. modify (\<lambda>fs. fs\<lparr>super := (super fs)\<lparr>sb_generation := sb_generation (super fs) + 1\<rparr>,
               journal_active := False, journal_records := 0\<rparr>)) fs"
    unfolding k64_xfs_journal_commit_def Let_def slot using fs journal_slot [OF fits i(3)] by (simp only: guard_simps simp_thms if_False)
  show ?thesis
  proof (rule powered_write [OF fs(1) jblock_less [OF fits i(3)] length_header_block])
    assume "fst (drv fs) = 0" "journal_block_write (jblock ?s (2 * i)) ?h fs = (Fail, fs)"
    then show ?thesis using n fs(1) run by (intro exI [of _ "snd (drv fs)"]) (simp add: bind_def powered_def)
  next
    fix m w
    assume "fst (drv fs) = Suc m" "journal_block_write (jblock ?s (2 * i)) ?h fs = (Ok (), fs\<lparr>drv := (m, w)\<rparr>)" "ready w"
      "disk w = (disk (snd (drv fs)))(jblock ?s (2 * i) := ?h)"
    then show ?thesis using n run by (intro exI [of _ w]) (simp add: bind_def)
  qed
qed

lemma transaction_powered:
  assumes fs: "powered fs" "mounted fs" "\<not> journal_active fs" and fits: "journal_fits nblocks (super fs)"
    and rs: "\<forall>(b, d)\<in>set rs. b < sb_total_blocks (super fs) \<and> length d = K64_XFS_BLOCK_SIZE"
    and room: "length rs < 2147483648" "2 * length rs < unat (sb_journal_blocks (super fs))"
    and n: "fst (drv fs) = n"
  shows "\<exists>fs'. journal_transaction rs fs = (if 2 * length rs < n then Ok () else Fail, fs') \<and> ready (snd (drv fs')) \<and>
    disk (snd (drv fs')) = apply_records (take n (transaction_writes (super fs) (tx_id fs + 1) rs)) (disk (snd (drv fs)))"
proof -
  let ?fs = "fs\<lparr>tx_id := tx_id fs + 1, journal_records := 0, journal_active := True,
     super := (super fs)\<lparr>sb_mount_state := K64_XFS_MOUNT_DIRTY\<rparr>\<rparr>"
  have "k64_xfs_journal_begin fs = (Ok (), ?fs)" using fs by (simp add: k64_xfs_journal_begin_def)
  then have run: "journal_transaction rs fs = bind (log_records rs) (\<lambda>_. k64_xfs_journal_commit) ?fs"
    by (simp add: journal_transaction_def bind_def)
  obtain w1 where w1: "ready w1"
      "disk w1 = apply_records (take n (log_writes (super ?fs) (tx_id ?fs) 0 rs)) (disk (snd (drv ?fs)))"
      "if 2 * length rs \<le> n
       then log_records rs ?fs = (Ok (), ?fs\<lparr>drv := (n - 2 * length rs, w1), journal_records := of_nat (0 + length rs)\<rparr>)
       else \<exists>fs'. log_records rs ?fs = (Fail, fs') \<and> snd (drv fs') = w1"
    using log_records_powered [of ?fs rs 0 n] fs fits rs room n by (auto simp: powered_def)
  show ?thesis
  proof (cases "2 * length rs \<le> n")
    case False
    then obtain fs' where "log_records rs ?fs = (Fail, fs')" "snd (drv fs') = w1" using w1(3) by auto
    then show ?thesis using False w1 run
      by (intro exI [of _ fs']) (simp add: bind_def transaction_writes_def)
  next
    case True
    let ?fs2 = "?fs\<lparr>drv := (n - 2 * length rs, w1), journal_records := of_nat (length rs)\<rparr>"
    obtain w fs' where w: "ready w" "disk w = apply_records (take (n - 2 * length rs)
          [(jblock (super ?fs2) (2 * length rs), header_block (commit_entry (tx_id ?fs2)))]) (disk (snd (drv ?fs2)))"
        "k64_xfs_journal_commit ?fs2 = (if n - 2 * length rs = 0 then Fail else Ok (), fs')" "snd (drv fs') = w"
      using commit_powered [of ?fs2 "length rs" "n - 2 * length rs"] fs fits room w1(1) by (auto simp: powered_def)
    have "journal_transaction rs fs = (if 2 * length rs < n then Ok () else Fail, fs')"
      using w1(3) True w(3) run by (auto simp: bind_def)
    then show ?thesis using w w1(2) True
      by (intro exI [of _ fs']) (simp add: transaction_writes_def apply_records_append)
  qed
qed

text \<open>Recovery after any prefix of a transaction's writes: all of its records, or none.\<close>

lemma recover_prefix:
  assumes r: "on_dev r" "mounted r" and fits: "journal_fits nblocks (super r)"
    and D: "disk (drv r) = apply_records (take n (transaction_writes (super r) tx rs)) D"
    and nc: "no_commit tx D (super r)" "0 < n \<or> no_commit 0 D (super r)" and tx: "tx \<noteq> 0"
    and rs: "\<forall>(b, d)\<in>set rs. b < nblocks \<and> \<not> in_journal (super r) b \<and> length d = K64_XFS_BLOCK_SIZE"
    and room: "length rs \<le> 16" "2 * length rs < unat (sb_journal_blocks (super r))"
  shows "\<exists>w. k64_xfs_journal_recover r = (Ok (), journal_idle (r\<lparr>drv := w\<rparr>)) \<and> ready w \<and>
    disk w = recovered (super r) (if 2 * length rs < n then rs else []) D"
proof -
  let ?s = "super r"
  have same: "recovered ?s xs (disk (drv r)) = recovered ?s xs D" for xs
  proof (rule recovered_cong)
    fix b assume b: "\<not> in_journal ?s b"
    have "in_journal ?s (fst x)" if "x \<in> set (transaction_writes ?s tx rs)" for x
      using that log_writes_in_journal [OF fits, of 0 rs x] jblock_in [OF fits room(2)] room(2)
      by (auto simp: transaction_writes_def)
    then have "b \<notin> fst ` set (take n (transaction_writes ?s tx rs))" using b by (auto dest: in_set_takeD)
    then show "disk (drv r) b = D b" using D by (simp add: apply_records_other)
  qed
  show ?thesis
  proof (cases "2 * length rs < n")
    case False
    then have log: "disk (drv r) = apply_records (take n (log_writes ?s tx 0 rs)) D"
      using D by (simp add: transaction_writes_def)
    have keep: "no_commit t (disk (drv r)) ?s" if "no_commit t D ?s" for t
      using no_commit_log [OF fits, of 0 rs t D n tx] that room(2) log by simp
    have "\<exists>t. no_commit t (disk (drv r)) ?s \<and>
        (t = 0 \<or> entry_valid (dec_journal_entry (disk (drv r) (jblock ?s 0))) \<and>
          je_tx_id (dec_journal_entry (disk (drv r) (jblock ?s 0))) = t)"
    proof (cases "n = 0")
      case True
      then show ?thesis using nc(2) keep by blast
    next
      case n: False
      then obtain x xs where "rs = x # xs" using False by (cases rs) auto
      then have "dec_journal_entry (disk (drv r) (jblock ?s 0)) = metadata_entry tx (fst x) (snd x)"
        using log_first [OF fits, of x xs n tx D] n room(2) log by simp
      then show ?thesis using keep [OF nc(1)] by (intro exI [of _ tx]) simp
    qed
    then obtain t where t: "no_commit t (disk (drv r)) ?s"
        "t = 0 \<or> entry_valid (dec_journal_entry (disk (drv r) (jblock ?s 0))) \<and>
          je_tx_id (dec_journal_entry (disk (drv r) (jblock ?s 0))) = t" by blast
    have "0 < unat (sb_journal_blocks ?s)" using room(2) by simp
    then obtain w where "k64_xfs_journal_recover r = (Ok (), journal_idle (r\<lparr>drv := w\<rparr>))" "ready w"
        "disk w = recovered ?s [] (disk (drv r))"
      by (rule recover_uncommitted [OF r fits _ t])
    then show ?thesis using False same by (intro exI [of _ w]) simp
  next
    case True
    let ?c = "jblock ?s (2 * length rs)"
    have all: "disk (drv r) = (apply_records (log_writes ?s tx 0 rs) D)(?c := header_block (commit_entry tx))"
      using D True by (simp add: transaction_writes_def apply_records_append)
    have ne: "jblock ?s k \<noteq> ?c" if "k < 2 * length rs" for k using jblock_inj [OF fits, of k] that room(2) by auto
    have "records_at (disk (drv r)) ?s tx rs"
      using log_writes_result [OF fits, of 0 rs _ tx D] room(2) ne by (auto simp: records_at_def all)
    moreover have "dec_journal_entry (disk (drv r) ?c) = commit_entry tx" by (simp add: all)
    ultimately obtain w where "k64_xfs_journal_recover r = (Ok (), journal_idle (r\<lparr>drv := w\<rparr>))" "ready w"
        "disk w = recovered ?s rs (disk (drv r))"
      using recover_committed [OF r fits _ tx room _ rs] by metis
    then show ?thesis using True same by (intro exI [of _ w]) simp
  qed
qed

end

section \<open>Properties\<close>

text \<open>C11: a metadata transaction is atomic under power loss. Let the power fail after any number \<open>n\<close> of
  block writes of a transaction that logs the blocks \<open>rs\<close>, on a device that writes blocks whole and in
  order and whose journal holds no commit header with the number of this transaction; the headers of other
  transactions may still be there. The transaction reports success exactly when all its writes were
  made. When at least one was made, or the journal held no commit header at all, recovery on the next
  mount succeeds, leaves the journal empty, and every other block of the device holds what it held
  before, with all of \<open>rs\<close> applied if the transaction had reported success and none of it otherwise.
  When none was made the device is as before the transaction.\<close>

theorem journal_crash_atomic:
  assumes disk: "fs_disk dev nb disk ready"
    and fs: "m_dev fs = power_device dev" "drv fs = (n, w)" "ready w" "mounted fs" "\<not> journal_active fs" "tx_id fs + 1 \<noteq> 0"
    and fits: "journal_fits nb (super fs)" and nc: "no_commit (tx_id fs + 1) (disk w) (super fs)"
    and rs: "\<forall>(b, d)\<in>set rs. b < nb \<and> b < sb_total_blocks (super fs) \<and> \<not> in_journal (super fs) b \<and>
      length d = K64_XFS_BLOCK_SIZE"
    and room: "length rs \<le> 16" "2 * length rs < unat (sb_journal_blocks (super fs))"
    and run: "journal_transaction rs fs = (res, fs')"
    and reboot: "m_dev r = dev" "drv r = snd (drv fs')" "mounted r" "super r = super fs"
  shows "(res = Ok () \<longleftrightarrow> 2 * length rs + 1 \<le> n) \<and>
    (n = 0 \<longrightarrow> disk (drv r) = disk w) \<and>
    (0 < n \<or> no_commit 0 (disk w) (super fs) \<longrightarrow>
      (\<exists>w'. k64_xfs_journal_recover r = (Ok (), journal_idle (r\<lparr>drv := w'\<rparr>)) \<and> ready w' \<and>
        disk w' = recovered (super fs) (if res = Ok () then rs else []) (disk w)))"
proof -
  have powered: "fs_disk.powered dev ready fs" using fs(1-3) by (simp add: fs_disk.powered_def [OF disk])
  have rs1: "\<forall>(b, d)\<in>set rs. b < sb_total_blocks (super fs) \<and> length d = K64_XFS_BLOCK_SIZE" using rs by auto
  have l: "length rs < 2147483648" using room(1) by simp
  have "fst (drv fs) = n" using fs(2) by simp
  from fs_disk.transaction_powered [OF disk powered fs(4,5) fits rs1 l room(2) this]
  have t: "res = (if 2 * length rs < n then Ok () else Fail)" "ready (drv r)"
    "disk (drv r) = apply_records (take n (transaction_writes (super r) (tx_id fs + 1) rs)) (disk w)"
    using run reboot(2,4) fs(2) by auto
  have "fs_disk.on_dev dev ready r" using reboot(1) t(2) by (simp add: fs_disk.on_dev_def [OF disk])
  note recover = fs_disk.recover_prefix [OF disk this reboot(3) _ t(3) _ _ fs(6) _ room(1)]
  have "\<exists>w'. k64_xfs_journal_recover r = (Ok (), journal_idle (r\<lparr>drv := w'\<rparr>)) \<and> ready w' \<and>
      disk w' = recovered (super fs) (if res = Ok () then rs else []) (disk w)"
    if started: "0 < n \<or> no_commit 0 (disk w) (super fs)"
  proof -
    have "\<forall>(b, d)\<in>set rs. b < nb \<and> \<not> in_journal (super r) b \<and> length d = K64_XFS_BLOCK_SIZE"
      using rs reboot(4) by auto
    from recover [OF _ _ _ this] obtain w' where
        "k64_xfs_journal_recover r = (Ok (), journal_idle (r\<lparr>drv := w'\<rparr>))" "ready w'"
        "disk w' = recovered (super fs) (if 2 * length rs < n then rs else []) (disk w)"
      using fits nc room(2) reboot(4) started by auto
    then show ?thesis using t(1) by (intro exI [of _ w']) simp
  qed
  moreover have "disk (drv r) = disk w" if "n = 0" using t(3) that by (simp add: apply_records_Nil)
  ultimately show ?thesis using t(1) by auto
qed

text \<open>A mount of the zeroed fallback device whose journal is where the formatter puts it.\<close>

definition blank_super :: k64_xfs_superblock where
  "blank_super = (dec_super (replicate K64_XFS_BLOCK_SIZE 0))
     \<lparr>sb_journal_start := 3, sb_journal_blocks := 32, sb_total_blocks := 2048\<rparr>"

definition blank_mount :: "'w k64_block_device \<Rightarrow> 'w \<Rightarrow> 'w k64_xfs_mount" where
  "blank_mount dev w = \<lparr>mounted = True, m_dev = dev, super = blank_super, cache = k64_xfs_cache_init, tx_id = 0,
     journal_records = 0, journal_active = False, mount_path = ''/'', drv = w, xfs_tmp_block = replicate 4096 0\<rparr>"

abbreviation zero_memory :: memdevs where
  "zero_memory \<equiv> \<lambda>_. Some (replicate 8388608 0)"

lemma zero_block_not_entry: "\<not> entry_valid (dec_journal_entry (replicate K64_XFS_BLOCK_SIZE 0))"
  by (simp add: entry_valid_def dec_journal_entry_def bytes_at_replicate K64_XFS_BLOCK_SIZE_def K64_XFS_JOURNAL_MAGIC_def)

lemma zero_blocks: "b < 2048 \<Longrightarrow> mem_blocks 0 zero_memory b = replicate K64_XFS_BLOCK_SIZE 0"
proof -
  assume "b < 2048"
  then have "unat b < 2048" by (simp add: word_less_nat_alt)
  then show ?thesis by (simp add: mem_blocks_def bytes_at_replicate K64_XFS_BLOCK_SIZE_def)
qed

lemma blank_journal: "sb_journal_start blank_super = 3" "sb_journal_blocks blank_super = 32" "sb_total_blocks blank_super = 2048"
  by (simp_all add: blank_super_def)

lemma blank_fits: "journal_fits 2048 blank_super"
  by (simp add: journal_fits_def blank_super_def)

lemma blank_no_commit: "no_commit tx (mem_blocks 0 zero_memory) blank_super"
proof -
  have "jblock blank_super (2 * i) < 2048" if "2 * i < unat (sb_journal_blocks blank_super)" for i
    using jblock_less [OF blank_fits that] .
  then show ?thesis by (auto simp: no_commit_def Let_def zero_blocks zero_block_not_entry)
qed

theorem journal_crash_atomic_witness:
  "\<exists>w'. k64_xfs_journal_recover (blank_mount (fallback_device 1 0) (snd (drv (snd (journal_transaction
        [(40, replicate K64_XFS_BLOCK_SIZE 7)] (blank_mount (power_device (fallback_device 1 0)) (2, zero_memory))))))) =
      (Ok (), journal_idle (blank_mount (fallback_device 1 0) w')) \<and>
    mem_blocks 0 w' 40 = replicate K64_XFS_BLOCK_SIZE 0"
proof -
  let ?fs = "blank_mount (power_device (fallback_device 1 0)) (2, zero_memory)"
  let ?rs = "[(40, replicate K64_XFS_BLOCK_SIZE 7)] :: (u64 \<times> bytes) list"
  obtain res fs' where run: "journal_transaction ?rs ?fs = (res, fs')" by fastforce
  let ?r = "blank_mount (fallback_device 1 0) (snd (drv fs'))"
  have nj: "\<not> in_journal blank_super 40" by (simp add: in_journal_def blank_super_def)
  have super_fs: "super ?fs = blank_super" by (simp add: blank_mount_def)
  have upd: "?r\<lparr>drv := w'\<rparr> = blank_mount (fallback_device 1 0) w'" for w' by (simp add: blank_mount_def)
  have "(res = Ok () \<longleftrightarrow> 2 * length ?rs + 1 \<le> 2) \<and> ((2 :: nat) = 0 \<longrightarrow> mem_blocks 0 (drv ?r) = mem_blocks 0 zero_memory) \<and>
    (0 < (2 :: nat) \<or> no_commit 0 (mem_blocks 0 zero_memory) (super ?fs) \<longrightarrow> (\<exists>w'. k64_xfs_journal_recover ?r = (Ok (), journal_idle (?r\<lparr>drv := w'\<rparr>)) \<and> mem_ready 0 w' \<and>
      mem_blocks 0 w' = recovered (super ?fs) (if res = Ok () then ?rs else []) (mem_blocks 0 zero_memory)))"
    by (rule journal_crash_atomic [OF mem.fs_disk_axioms [where ctx = 0 and ident = 1] _ _ zero_memory_ready _ _ _ _ _ _ _ _ run])
      (use nj blank_fits blank_no_commit in \<open>simp_all add: blank_mount_def\<close>, simp_all add: blank_super_def)
  then obtain w' where "k64_xfs_journal_recover ?r = (Ok (), journal_idle (blank_mount (fallback_device 1 0) w'))"
      "mem_blocks 0 w' = recovered (super ?fs) [] (mem_blocks 0 zero_memory)"
    unfolding upd by auto
  then show ?thesis
    using nj zero_blocks [of 40] by (intro exI [of _ w']) (simp add: run recovered_def super_fs)
qed

section \<open>Old records\<close>

text \<open>
  C36: the hypothesis on commit headers is needed. The transaction numbers start again at every mount and a
  clean unmount leaves the journal as it is, so the journal can hold a committed transaction \<open>o' # os\<close> with
  the number of the new one. When the power fails after the new transaction's first record, recovery
  finds that record, goes on with the old ones and replays them together.
\<close>

theorem stale_commit_replayed:
  assumes disk: "fs_disk dev nb disk ready"
    and r: "m_dev r = dev" "ready (drv r)" "mounted r" and fits: "journal_fits nb (super r)"
    and old: "records_at D (super r) tx (o' # os)" "tx \<noteq> 0"
      "dec_journal_entry (D (jblock (super r) (2 * length (o' # os)))) = commit_entry tx"
    and room: "length (o' # os) \<le> 16" "2 * length (o' # os) < unat (sb_journal_blocks (super r))"
    and targets: "\<forall>(b, d)\<in>set ((b, d) # os). b < nb \<and> \<not> in_journal (super r) b \<and> length d = K64_XFS_BLOCK_SIZE"
    and new: "disk (drv r) = apply_records (log_writes (super r) tx 0 [(b, d)]) D"
  shows "\<exists>w. k64_xfs_journal_recover r = (Ok (), journal_idle (r\<lparr>drv := w\<rparr>)) \<and>
    disk w = recovered (super r) ((b, d) # os) D"
proof -
  let ?s = "super r"
  have dev: "fs_disk.on_dev dev ready r" using r by (simp add: fs_disk.on_dev_def [OF disk])
  have ne: "jblock ?s k \<noteq> jblock ?s 0" "jblock ?s k \<noteq> jblock ?s (Suc 0)" if "2 \<le> k" "k \<le> 2 * length (o' # os)" for k
    using jblock_inj [OF fits, of k] that room(2) by auto
  have D: "disk (drv r) (jblock ?s k) = D (jblock ?s k)" if "2 \<le> k" "k \<le> 2 * length (o' # os)" for k
    using new ne [OF that] by simp
  have first: "disk (drv r) (jblock ?s 0) = header_block (metadata_entry tx b d)" "disk (drv r) (jblock ?s 1) = d"
    using new jblock_inj [OF fits, of 0 1] room(2) by auto
  have recs: "records_at (disk (drv r)) ?s tx ((b, d) # os)"
    unfolding records_at_def
  proof (intro conjI allI impI)
    show "2 * length ((b, d) # os) \<le> unat (sb_journal_blocks ?s)" using room(2) by simp
    fix i assume i: "i < length ((b, d) # os)"
    have "dec_journal_entry (disk (drv r) (jblock ?s (2 * i))) =
        metadata_entry tx (fst (((b, d) # os) ! i)) (snd (((b, d) # os) ! i)) \<and>
      disk (drv r) (jblock ?s (2 * i + 1)) = snd (((b, d) # os) ! i)"
    proof (cases i)
      case 0
      then show ?thesis using first by simp
    next
      case (Suc j)
      then have "2 \<le> 2 * i" "2 * i + 1 \<le> 2 * length (o' # os)" using i by auto
      moreover have "dec_journal_entry (D (jblock ?s (2 * i))) = metadata_entry tx (fst ((o' # os) ! i)) (snd ((o' # os) ! i))"
        "D (jblock ?s (2 * i + 1)) = snd ((o' # os) ! i)" using old(1) i by (auto simp: records_at_def)
      ultimately show ?thesis using Suc D [of "2 * i"] D [of "2 * i + 1"] by simp
    qed
    then show "dec_journal_entry (disk (drv r) (jblock ?s (2 * i))) =
        metadata_entry tx (fst (((b, d) # os) ! i)) (snd (((b, d) # os) ! i))"
      "disk (drv r) (jblock ?s (2 * i + 1)) = snd (((b, d) # os) ! i)" by auto
  qed
  have commit: "dec_journal_entry (disk (drv r) (jblock ?s (2 * length ((b, d) # os)))) = commit_entry tx"
    using D [of "2 * length (o' # os)"] old(3) by simp
  have same: "recovered ?s ((b, d) # os) (disk (drv r)) = recovered ?s ((b, d) # os) D"
  proof (rule recovered_cong)
    fix x assume "\<not> in_journal ?s x"
    then have "x \<noteq> jblock ?s 0" "x \<noteq> jblock ?s 1" using jblock_in [OF fits] room(2) by auto
    then show "disk (drv r) x = D x" using new by simp
  qed
  show ?thesis
    by (rule fs_disk.recover_committed [OF disk dev r(3) fits recs old(2) _ _ commit targets])
      (use room same in auto)
qed

lemma disk_after:
  assumes "fs_disk dev nb disk ready" and "ready w" and "\<forall>(b, d)\<in>set ws. b < nb \<and> length d = K64_XFS_BLOCK_SIZE"
  obtains w' where "ready w'" "disk w' = apply_records ws (disk w)"
  using assms(2,3)
proof (induction ws arbitrary: w thesis)
  case (Cons x ws)
  obtain b d where x: "x = (b, d)" by (cases x)
  obtain w1 where w1: "ready w1" "disk w1 = (disk w)(b := d)"
    using fs_disk.raw_write [OF assms(1) Cons.prems(2), of b d] Cons.prems(3) x by auto
  obtain w2 where "ready w2" "disk w2 = apply_records ws (disk w1)"
    by (rule Cons.IH [OF _ w1(1)]) (use Cons.prems(3) in auto)
  then show ?case using Cons.prems(1) [of w2] w1(2) x by simp
qed auto

text \<open>A committed transaction on blocks 40 and 41, then the first record of a new one on block 50.\<close>

theorem stale_commit_replayed_witness:
  "\<exists>w w'. k64_xfs_journal_recover (blank_mount (fallback_device 1 0) w) =
       (Ok (), journal_idle (blank_mount (fallback_device 1 0) w')) \<and>
     mem_blocks 0 w 41 = replicate K64_XFS_BLOCK_SIZE 0 \<and>
     mem_blocks 0 w' 41 = replicate K64_XFS_BLOCK_SIZE 2 \<and> mem_blocks 0 w' 50 = replicate K64_XFS_BLOCK_SIZE 3"
proof -
  let ?Z = "mem_blocks 0 zero_memory" and ?s = blank_super and ?B = "replicate K64_XFS_BLOCK_SIZE :: 8 word \<Rightarrow> bytes"
  let ?old = "[(40, ?B 1), (41, ?B 2)] :: (u64 \<times> bytes) list" and ?new = "[(50, ?B 3)] :: (u64 \<times> bytes) list"
  define D where "D = apply_records (transaction_writes ?s 1 ?old) ?Z"
  let ?ws = "transaction_writes ?s 1 ?old @ log_writes ?s 1 0 ?new"
  have jb: "jblock ?s 0 = 3" "jblock ?s 1 = 4" "jblock ?s 2 = 5" "jblock ?s 3 = 6" "jblock ?s 4 = 7"
    by (simp_all add: jblock_def blank_super_def)
  have jb': "jblock ?s (Suc 0) = 4" "jblock ?s (Suc (Suc 0)) = 5" "jblock ?s (Suc (Suc (Suc 0))) = 6"
    "jblock ?s (Suc (Suc (Suc (Suc 0)))) = 7"
    by (simp_all add: jblock_def blank_super_def)
  have ok: "\<forall>(b, d)\<in>set ?ws. b < 2048 \<and> length d = K64_XFS_BLOCK_SIZE" by (simp add: transaction_writes_def jb jb')
  obtain w where w: "mem_ready 0 w" "mem_blocks 0 w = apply_records ?ws ?Z"
    by (rule disk_after [OF mem.fs_disk_axioms [where ctx = 0 and ident = 1], OF zero_memory_ready ok])
  let ?r = "blank_mount (fallback_device 1 0) w"
  have recs: "records_at D ?s 1 ?old"
    by (auto simp: records_at_def D_def transaction_writes_def jb jb' less_Suc_eq blank_journal)
  have "\<exists>w'. k64_xfs_journal_recover ?r = (Ok (), journal_idle (?r\<lparr>drv := w'\<rparr>)) \<and>
      mem_blocks 0 w' = recovered ?s [(50, ?B 3), (41, ?B 2)] D"
    using stale_commit_replayed [OF mem.fs_disk_axioms [where ctx = 0 and ident = 1], of ?r D 1 "(40, ?B 1)" "[(41, ?B 2)]" 50 "?B 3"]
      w recs blank_fits by (simp add: blank_mount_def D_def apply_records_append transaction_writes_def jb jb' blank_journal in_journal_def)
  then obtain w' where "k64_xfs_journal_recover ?r = (Ok (), journal_idle (?r\<lparr>drv := w'\<rparr>))"
      "mem_blocks 0 w' = recovered ?s [(50, ?B 3), (41, ?B 2)] D" by blast
  moreover have "mem_blocks 0 w 41 = ?B 0"
    unfolding w(2) by (simp add: apply_records_append transaction_writes_def jb jb' zero_blocks)
  moreover have "recovered ?s [(50, ?B 3), (41, ?B 2)] D 41 = ?B 2" "recovered ?s [(50, ?B 3), (41, ?B 2)] D 50 = ?B 3"
    by (simp_all add: recovered_def in_journal_def blank_journal)
  ultimately show ?thesis
    by (intro exI [of _ w] exI [of _ w']) (simp add: blank_mount_def)
qed

end
