(* ===== verification/Xfs.thy ===== *)
theory Xfs
  imports Xfs_Journal
begin

text \<open>
  The K64XFS file system, \<^verbatim>\<open>src/k64_xfs.c\<close>: inode and block allocation, directories, path
  resolution, and the operations of the file-system interface.

  Every operation is a function on the mount state. The static scratch block \<^verbatim>\<open>xfs_tmp_block\<close> is a field of
  that state: \<open>put_tmp\<close> is an assignment to it, \<open>load\<close> a block read into it. Operations that have an
  output parameter return its value. A buffer with its size is a list of bytes, so the C test that
  no data comes with a non-zero size has no counterpart. Loops over block numbers are recursions over
  the list of these numbers; a bit-map access beyond the 4096 bytes of the map is a \<open>Fault\<close>.
\<close>

section \<open>Outcomes without a state\<close>

definition res_bind :: "'a res \<Rightarrow> ('a \<Rightarrow> 'b res) \<Rightarrow> 'b res" where
  "res_bind r f = (case r of Ok a \<Rightarrow> f a | Fail \<Rightarrow> Fail | Fault \<Rightarrow> Fault)"

definition of_res :: "'a res \<Rightarrow> ('s, 'a) op" where
  "of_res r s = (r, s)"

lemma res_bind_simps [simp]: "res_bind (Ok a) f = f a" "res_bind Fail f = Fail" "res_bind Fault f = Fault"
  by (simp_all add: res_bind_def)

section \<open>Layout\<close>

definition XFS_INODE_BITMAP_BLOCK :: u64 where "XFS_INODE_BITMAP_BLOCK = 1"
definition XFS_BLOCK_BITMAP_BLOCK :: u64 where "XFS_BLOCK_BITMAP_BLOCK = 2"
definition XFS_JOURNAL_START :: u64 where "XFS_JOURNAL_START = 3"
definition XFS_INODE_TABLE_START :: u64 where
  "XFS_INODE_TABLE_START = XFS_JOURNAL_START + of_nat K64_XFS_JOURNAL_BLOCKS"
definition XFS_DIRENT_PER_BLOCK :: nat where "XFS_DIRENT_PER_BLOCK = K64_XFS_BLOCK_SIZE div dirent_size"

definition xfs_copy :: "string \<Rightarrow> nat \<Rightarrow> cstr \<Rightarrow> string" where
  "xfs_copy dst dst_size src = str_copy dst dst_size src"

definition xfs_fs_blocks :: "'w k64_block_device option \<Rightarrow> u64" where
  "xfs_fs_blocks dev = (case dev of
       None \<Rightarrow> 0
     | Some d \<Rightarrow> if block_size d = 0 then 0
         else (block_count d * ucast (block_size d)) div of_nat K64_XFS_BLOCK_SIZE)"

definition xfs_dev_ok :: "'w k64_block_device option \<Rightarrow> bool" where
  "xfs_dev_ok dev = (case dev of
       None \<Rightarrow> False
     | Some d \<Rightarrow>
        if \<not> online d \<or> bd_read d = None \<or> bd_write d = None \<or> \<not> writable d \<or> block_size d = 0 \<or>
           of_nat K64_XFS_BLOCK_SIZE mod block_size d \<noteq> 0
        then False
        else (block_count d * ucast (block_size d)) div of_nat K64_XFS_BLOCK_SIZE \<ge> 64)"

definition xfs_inode_table_blocks :: u64 where
  "xfs_inode_table_blocks =
     (of_nat K64_XFS_MAX_INODES * of_nat inode_size + of_nat K64_XFS_BLOCK_SIZE - 1) div of_nat K64_XFS_BLOCK_SIZE"

definition xfs_data_start :: u64 where
  "xfs_data_start = XFS_INODE_TABLE_START + xfs_inode_table_blocks"

section \<open>Blocks\<close>

definition lift_cache :: "('w cached, 'a) op \<Rightarrow> ('w, 'a) xfs" where
  "lift_cache m fs = (case m (cache fs, drv fs) of (r, (c, w)) \<Rightarrow> (r, fs\<lparr>cache := c, drv := w\<rparr>))"

definition xfs_block_read :: "u64 \<Rightarrow> ('w, bytes) xfs" where
  "xfs_block_read block fs = lift_cache (k64_xfs_cache_read (m_dev fs) block) fs"

definition xfs_block_write :: "u64 \<Rightarrow> bytes \<Rightarrow> ('w, unit) xfs" where
  "xfs_block_write block data fs =
     bind (if journal_active fs \<and> block < sb_data_start (super fs) \<and>
              (block < sb_journal_start (super fs) \<or> block \<ge> sb_journal_start (super fs) + sb_journal_blocks (super fs))
           then k64_xfs_journal_metadata block data else ret ())
       (\<lambda>_. lift_cache (k64_xfs_cache_write (m_dev fs) block data)) fs"

definition put_tmp :: "bytes \<Rightarrow> ('w, bytes) xfs" where
  "put_tmp b fs = (Ok b, fs\<lparr>xfs_tmp_block := b\<rparr>)"

definition load :: "u64 \<Rightarrow> ('w, bytes) xfs" where
  "load block = bind (xfs_block_read block) put_tmp"

text \<open>The scratch block is changed to \<open>b\<close> and written.\<close>

definition store :: "u64 \<Rightarrow> bytes \<Rightarrow> ('w, unit) xfs" where
  "store block b = bind (put_tmp b) (xfs_block_write block)"

definition xfs_bitmap_get :: "bytes \<Rightarrow> u32 \<Rightarrow> bool res" where
  "xfs_bitmap_get bitmap k =
     (if unat k div 8 < length bitmap
      then Ok ((bitmap ! (unat k div 8) AND push_bit (unat k mod 8) 1) \<noteq> 0) else Fault)"

definition xfs_bitmap_set :: "bytes \<Rightarrow> u32 \<Rightarrow> bool \<Rightarrow> bytes res" where
  "xfs_bitmap_set bitmap k val =
     (if unat k div 8 < length bitmap
      then Ok (if val then or_bit bitmap (unat k) else andn_bit bitmap (unat k)) else Fault)"

section \<open>Inodes\<close>

definition inode_place :: "k64_xfs_superblock \<Rightarrow> u32 \<Rightarrow> u64 \<times> nat" where
  "inode_place s inode_id =
     (let index = unat (inode_id - 1); per_block = K64_XFS_BLOCK_SIZE div inode_size in
      (sb_inode_table_start s + of_nat (index div per_block), (index mod per_block) * inode_size))"

definition xfs_read_inode :: "u32 \<Rightarrow> ('w, k64_xfs_inode) xfs" where
  "xfs_read_inode inode_id fs =
     guard (\<not> (inode_id = 0 \<or> inode_id > of_nat K64_XFS_MAX_INODES))
       (case inode_place (super fs) inode_id of (block, offset) \<Rightarrow>
         bind (load block) (\<lambda>b.
           let out = dec_inode (bytes_at offset inode_size b) in
           guard (\<not> (i_magic out \<noteq> K64_XFS_INODE_MAGIC \<or> i_inode_id out \<noteq> inode_id \<or>
                     i_checksum out \<noteq> k64_xfs_inode_checksum out))
             (ret out))) fs"

definition xfs_write_inode :: "k64_xfs_inode \<Rightarrow> ('w, unit) xfs" where
  "xfs_write_inode inode fs =
     guard (\<not> (i_inode_id inode = 0 \<or> i_inode_id inode > of_nat K64_XFS_MAX_INODES))
       (case inode_place (super fs) (i_inode_id inode) of (block, offset) \<Rightarrow>
         bind (load block) (\<lambda>b.
           store block (put_at offset (enc_inode (inode\<lparr>i_checksum := k64_xfs_inode_checksum inode\<rparr>)) b))) fs"

definition xfs_write_super :: "('w, unit) xfs" where
  "xfs_write_super fs =
     (let sb = (super fs)\<lparr>sb_checksum := k64_xfs_super_checksum (super fs)\<rparr> in
      store 0 (put_at 0 (enc_super sb) (xfs_tmp_block fs)) fs)"

text \<open>The first clear bit of the inode bit map from a position on.\<close>

fun inode_scan :: "bytes \<Rightarrow> nat list \<Rightarrow> nat res" where
  "inode_scan bm [] = Fail"
| "inode_scan bm (i # is) =
     res_bind (xfs_bitmap_get bm (of_nat i)) (\<lambda>used. if \<not> used then Ok i else inode_scan bm is)"

definition xfs_alloc_inode :: "('w, u32) xfs" where
  "xfs_alloc_inode fs =
     bind (load (sb_inode_bitmap_start (super fs))) (\<lambda>bm.
     bind (of_res (inode_scan bm [1..<K64_XFS_MAX_INODES])) (\<lambda>i.
     bind (of_res (xfs_bitmap_set bm (of_nat i) True)) (\<lambda>bm.
     bind (store (sb_inode_bitmap_start (super fs)) bm) (\<lambda>_.
     ret (of_nat i + 1))))) fs"

definition xfs_free_inode :: "u32 \<Rightarrow> ('w, unit) xfs" where
  "xfs_free_inode inode_id fs =
     guard (\<not> (inode_id = 0 \<or> inode_id > of_nat K64_XFS_MAX_INODES))
       (bind (load (sb_inode_bitmap_start (super fs))) (\<lambda>bm.
        bind (of_res (xfs_bitmap_set bm (inode_id - 1) False)) (\<lambda>bm.
        store (sb_inode_bitmap_start (super fs)) bm))) fs"

section \<open>Extents\<close>

text \<open>
  The search for a run of \<open>blocks\<close> free blocks, with its two loop variables, and the marking of the
  run. Both are recursions over block numbers as they are cast to 32 bits.
\<close>

fun extent_scan :: "bytes \<Rightarrow> nat \<Rightarrow> nat list \<Rightarrow> nat \<Rightarrow> nat \<Rightarrow> nat res" where
  "extent_scan bm blocks [] run_start run_len = Fail"
| "extent_scan bm blocks (b # bs) run_start run_len =
     res_bind (xfs_bitmap_get bm (of_nat b)) (\<lambda>used.
       if \<not> used then
         let run_start = (if run_len = 0 then b else run_start) in
         if run_len + 1 = blocks then Ok run_start else extent_scan bm blocks bs run_start (run_len + 1)
       else extent_scan bm blocks bs run_start 0)"

fun set_bits :: "nat list \<Rightarrow> bytes \<Rightarrow> bytes res" where
  "set_bits [] bm = Ok bm"
| "set_bits (b # bs) bm = res_bind (xfs_bitmap_set bm (of_nat b) True) (set_bits bs)"

definition xfs_alloc_extent :: "u64 \<Rightarrow> ('w, u64) xfs" where
  "xfs_alloc_extent blocks fs =
     guard (\<not> (blocks = 0 \<or> blocks > 0xFFFFFFFF))
       (bind (load (sb_block_bitmap_start (super fs))) (\<lambda>bm.
        bind (of_res (extent_scan bm (unat blocks)
          [unat (sb_data_start (super fs))..<unat (sb_total_blocks (super fs))] 0 0)) (\<lambda>start.
        bind (of_res (set_bits [start..<start + unat blocks] bm)) (\<lambda>bm.
        bind (put_tmp bm) (\<lambda>_.
        guard (\<not> sb_free_blocks (super fs) < blocks)
          (bind (modify (\<lambda>fs. fs\<lparr>super := (super fs)\<lparr>sb_free_blocks := sb_free_blocks (super fs) - blocks\<rparr>\<rparr>)) (\<lambda>_.
           bind (xfs_block_write (sb_block_bitmap_start (super fs)) bm) (\<lambda>_.
           ret (of_nat start))))))))) fs"

text \<open>Clearing: the number of bits that were set is added to the free count.\<close>

fun clear_bits :: "nat list \<Rightarrow> bytes \<Rightarrow> u64 \<Rightarrow> (bytes \<times> u64) res" where
  "clear_bits [] bm n = Ok (bm, n)"
| "clear_bits (b # bs) bm n =
     res_bind (xfs_bitmap_get bm (of_nat b)) (\<lambda>used.
       if used then res_bind (xfs_bitmap_set bm (of_nat b) False) (\<lambda>bm. clear_bits bs bm (n + 1))
       else clear_bits bs bm n)"

definition xfs_free_extent :: "u64 \<Rightarrow> u64 \<Rightarrow> ('w, unit) xfs" where
  "xfs_free_extent start blocks fs =
     guard (\<not> (blocks = 0 \<or> start < sb_data_start (super fs) \<or> start + blocks > sb_total_blocks (super fs)))
       (bind (load (sb_block_bitmap_start (super fs))) (\<lambda>bm.
        bind (of_res (clear_bits [unat start..<unat start + unat blocks] bm (sb_free_blocks (super fs)))) (\<lambda>(bm, n).
        bind (modify (\<lambda>fs. fs\<lparr>super := (super fs)\<lparr>sb_free_blocks := n\<rparr>\<rparr>)) (\<lambda>_.
        store (sb_block_bitmap_start (super fs)) bm)))) fs"

text \<open>The extent that covers a logical block, the first one in the list.\<close>

definition extent_covers :: "u64 \<Rightarrow> k64_xfs_extent \<Rightarrow> bool" where
  "extent_covers logical ex \<longleftrightarrow>
     logical \<ge> ex_logical_block ex \<and> logical < ex_logical_block ex + ex_block_count ex"

definition inode_extents :: "k64_xfs_inode \<Rightarrow> k64_xfs_extent list" where
  "inode_extents inode =
     take (min (unat (i_extent_count inode)) K64_XFS_DIRECT_EXTENTS) (i_direct_extents inode)"

definition extent_block :: "k64_xfs_inode \<Rightarrow> u64 \<Rightarrow> u64 option" where
  "extent_block inode logical =
     map_option (\<lambda>ex. ex_physical_block ex + (logical - ex_logical_block ex))
       (find (extent_covers logical) (inode_extents inode))"

definition xfs_inode_read_data_block :: "k64_xfs_inode \<Rightarrow> u64 \<Rightarrow> ('w, bytes) xfs" where
  "xfs_inode_read_data_block inode logical =
     (case extent_block inode logical of
        Some b \<Rightarrow> load b
      | None \<Rightarrow> put_tmp (replicate K64_XFS_BLOCK_SIZE 0))"

definition xfs_inode_write_data_block :: "k64_xfs_inode \<Rightarrow> u64 \<Rightarrow> bytes \<Rightarrow> ('w, unit) xfs" where
  "xfs_inode_write_data_block inode logical data =
     (case extent_block inode logical of
        Some b \<Rightarrow> xfs_block_write b data
      | None \<Rightarrow> fail)"

section \<open>Directories\<close>

definition xfs_name_valid :: "string \<Rightarrow> bool" where
  "xfs_name_valid name \<longleftrightarrow> k64_strlen (Some name) > 0 \<and> k64_strlen (Some name) < K64_XFS_NAME_MAX \<and>
     \<not> k64_streq (Some name) (Some ''.'') \<and> \<not> k64_streq (Some name) (Some ''..'')"

definition dirent_at :: "bytes \<Rightarrow> nat \<Rightarrow> k64_xfs_dirent" where
  "dirent_at blk s = dec_dirent (bytes_at (s * dirent_size) dirent_size blk)"

definition put_dirent :: "nat \<Rightarrow> k64_xfs_dirent \<Rightarrow> bytes \<Rightarrow> bytes" where
  "put_dirent s d blk = put_at (s * dirent_size) (enc_dirent d) blk"

definition blocks_of_size :: "u64 \<Rightarrow> u64" where
  "blocks_of_size n = (n + of_nat K64_XFS_BLOCK_SIZE - 1) div of_nat K64_XFS_BLOCK_SIZE"

text \<open>The characters of a name field, read as a C string. A name that is looked up is shorter than the field.\<close>

definition dirent_name :: "k64_xfs_dirent \<Rightarrow> string" where
  "dirent_name e = array_str (de_name e)"

definition dirent_matches :: "string \<Rightarrow> k64_xfs_dirent \<Rightarrow> bool" where
  "dirent_matches name e \<longleftrightarrow> \<not> (de_inode_id e = 0 \<or> de_name_len e = 0) \<and>
     unat (de_name_len e) = k64_strlen (Some name) \<and> k64_strncmp (dirent_name e) name (unat (de_name_len e)) = 0"

fun dir_search :: "k64_xfs_inode \<Rightarrow> string \<Rightarrow> nat list \<Rightarrow> ('w, k64_xfs_dirent \<times> nat \<times> nat) xfs" where
  "dir_search dir name [] = fail"
| "dir_search dir name (b # bs) =
     bind (xfs_inode_read_data_block dir (of_nat b)) (\<lambda>blk.
       case find (\<lambda>s. dirent_matches name (dirent_at blk s)) [0..<XFS_DIRENT_PER_BLOCK] of
         Some s \<Rightarrow> ret (dirent_at blk s, b, s)
       | None \<Rightarrow> dir_search dir name bs)"

definition xfs_dir_find :: "k64_xfs_inode \<Rightarrow> string \<Rightarrow> ('w, k64_xfs_dirent \<times> nat \<times> nat) xfs" where
  "xfs_dir_find dir name =
     guard (\<not> i_type dir \<noteq> K64_XFS_TYPE_DIRECTORY) (dir_search dir name [0..<unat (blocks_of_size (i_size dir))])"

definition new_dirent :: "string \<Rightarrow> u32 \<Rightarrow> u16 \<Rightarrow> k64_xfs_dirent" where
  "new_dirent name inode_id type =
     (let e = \<lparr>de_inode_id = inode_id, de_type = type, de_name_len = of_nat (k64_strlen (Some name)),
               de_name = char_array 128 name, de_checksum = 0, de_reserved = replicate 20 0\<rparr>
      in e\<lparr>de_checksum := k64_xfs_dirent_checksum e\<rparr>)"

text \<open>The search for a free slot; \<open>None\<close> when every block of the directory is full.\<close>

fun dir_free_slot :: "k64_xfs_inode \<Rightarrow> nat list \<Rightarrow> ('w, (nat \<times> nat \<times> bytes) option) xfs" where
  "dir_free_slot dir [] = ret None"
| "dir_free_slot dir (b # bs) =
     bind (xfs_inode_read_data_block dir (of_nat b)) (\<lambda>blk.
       case find (\<lambda>s. de_inode_id (dirent_at blk s) = 0) [0..<XFS_DIRENT_PER_BLOCK] of
         Some s \<Rightarrow> ret (Some (b, s, blk))
       | None \<Rightarrow> dir_free_slot dir bs)"

definition touch_dir :: "k64_xfs_inode \<Rightarrow> k64_xfs_inode" where
  "touch_dir dir = dir\<lparr>i_modified_tick := i_modified_tick dir + 1\<rparr>"

definition set_extent :: "nat \<Rightarrow> u64 \<Rightarrow> u64 \<Rightarrow> u64 \<Rightarrow> k64_xfs_inode \<Rightarrow> k64_xfs_inode" where
  "set_extent k logical physical count inode =
     inode\<lparr>i_direct_extents := (i_direct_extents inode)[k := (i_direct_extents inode ! k)
       \<lparr>ex_logical_block := logical, ex_physical_block := physical, ex_block_count := count\<rparr>]\<rparr>"

definition xfs_dir_add :: "k64_xfs_inode \<Rightarrow> string \<Rightarrow> u32 \<Rightarrow> u16 \<Rightarrow> ('w, k64_xfs_inode) xfs" where
  "xfs_dir_add dir name inode_id type =
     guard (xfs_name_valid name \<and> inode_id \<noteq> 0)
       (bind (attempt (xfs_dir_find dir name)) (\<lambda>found.
        guard (found = None)
       (bind (dir_free_slot dir [0..<unat (blocks_of_size (i_size dir))]) (\<lambda>slot.
        case slot of
          Some (b, s, blk) \<Rightarrow>
            bind (put_tmp (put_dirent s (new_dirent name inode_id type) blk)) (\<lambda>blk.
            bind (xfs_inode_write_data_block dir (of_nat b) blk) (\<lambda>_.
            bind (xfs_write_inode (touch_dir dir)) (\<lambda>_. ret (touch_dir dir))))
        | None \<Rightarrow>
            bind (xfs_alloc_extent 1) (\<lambda>new_block.
            bind (store new_block (put_dirent 0 (new_dirent name inode_id type) (replicate K64_XFS_BLOCK_SIZE 0))) (\<lambda>_.
            if i_extent_count dir \<ge> of_nat K64_XFS_DIRECT_EXTENTS
            then bind (attempt (xfs_free_extent new_block 1)) (\<lambda>_. fail)
            else
              let dir = set_extent (unat (i_extent_count dir)) (ucast (i_extent_count dir)) new_block 1 dir;
                  dir = touch_dir (dir\<lparr>i_extent_count := i_extent_count dir + 1,
                    i_size := i_size dir + of_nat K64_XFS_BLOCK_SIZE\<rparr>)
              in bind (xfs_write_inode dir) (\<lambda>_. ret dir)))))))"

definition xfs_dir_remove :: "k64_xfs_inode \<Rightarrow> string \<Rightarrow> ('w, k64_xfs_inode) xfs" where
  "xfs_dir_remove dir name =
     bind (xfs_dir_find dir name) (\<lambda>(_, b, s).
     bind (xfs_inode_read_data_block dir (of_nat b)) (\<lambda>blk.
     bind (put_tmp (put_at (s * dirent_size) (replicate dirent_size 0) blk)) (\<lambda>blk.
     bind (xfs_inode_write_data_block dir (of_nat b) blk) (\<lambda>_.
     bind (xfs_write_inode (touch_dir dir)) (\<lambda>_.
     ret (touch_dir dir))))))"

section \<open>Paths\<close>

text \<open>Trailing slashes are dropped, but not the first character.\<close>

fun strip_slashes :: "string \<Rightarrow> nat \<Rightarrow> nat" where
  "strip_slashes p 0 = 0"
| "strip_slashes p (Suc n) = (if Suc n > 1 \<and> p ! n = CHR ''/'' then strip_slashes p n else Suc n)"

fun leaf_start :: "string \<Rightarrow> nat \<Rightarrow> nat" where
  "leaf_start p 0 = 0"
| "leaf_start p (Suc n) = (if p ! n \<noteq> CHR ''/'' then leaf_start p n else Suc n)"

text \<open>\<open>None\<close> where the C function returns false.\<close>

definition xfs_split_parent :: "cstr \<Rightarrow> nat \<Rightarrow> nat \<Rightarrow> (string \<times> string) option" where
  "xfs_split_parent path parent_size leaf_size =
     (case path of
        None \<Rightarrow> None
      | Some p \<Rightarrow>
          if p = [] \<or> p ! 0 \<noteq> CHR ''/'' then None
          else
            let len = strip_slashes p (k64_strlen path) in
            if len \<le> 1 then None
            else
              let start = leaf_start p len in
              if len - start \<ge> leaf_size then None
              else
                let leaf = take (len - start) (drop start p) in
                if start \<le> 1 then
                  if xfs_name_valid leaf then Some (xfs_copy [] parent_size (Some ''/''), leaf) else None
                else if start - 1 \<ge> parent_size then None
                else if xfs_name_valid leaf then Some (take (start - 1) p, leaf) else None)"

text \<open>The components of a path after its leading slashes.\<close>

function path_tokens :: "string \<Rightarrow> string list" where
  "path_tokens p =
     (if p = [] then []
      else takeWhile (\<lambda>c. c \<noteq> CHR ''/'') p # path_tokens (dropWhile (\<lambda>c. c = CHR ''/'') (dropWhile (\<lambda>c. c \<noteq> CHR ''/'') p)))"
  by pat_completeness auto
termination
proof (relation "measure length")
  fix p :: string
  assume p: "p \<noteq> []"
  let ?q = "dropWhile (\<lambda>c. c \<noteq> CHR ''/'') p"
  have q: "length ?q \<le> length p" and r: "length (dropWhile (\<lambda>c. c = CHR ''/'') ?q) \<le> length ?q"
    by (rule length_dropWhile_le)+
  have "length (dropWhile (\<lambda>c. c = CHR ''/'') ?q) < length p"
  proof (cases "hd p = CHR ''/''")
    case True
    with p obtain cs where cs: "p = CHR ''/'' # cs" by (metis list.collapse)
    then have "dropWhile (\<lambda>c. c = CHR ''/'') ?q = dropWhile (\<lambda>c. c = CHR ''/'') cs" by simp
    then show ?thesis using length_dropWhile_le [of "\<lambda>c. c = CHR ''/''" cs] cs by simp
  next
    case False
    with p obtain c cs where cs: "p = c # cs" "c \<noteq> CHR ''/''" by (metis list.collapse)
    then have "?q = dropWhile (\<lambda>c. c \<noteq> CHR ''/'') cs" by simp
    then have "length ?q < length p" using length_dropWhile_le [of "\<lambda>c. c \<noteq> CHR ''/''" cs] cs(1) by simp
    with r show ?thesis by simp
  qed
  then show "(dropWhile (\<lambda>c. c = CHR ''/'') ?q, p) \<in> measure length" by simp
qed simp

declare path_tokens.simps [simp del]

fun resolve_from :: "string list \<Rightarrow> u32 \<Rightarrow> k64_xfs_inode \<Rightarrow> ('w, u32 \<times> k64_xfs_inode) xfs" where
  "resolve_from [] current_id current = ret (current_id, current)"
| "resolve_from (token # tokens) current_id current =
     guard (\<not> length token + 1 > K64_XFS_NAME_MAX)
       (bind (xfs_dir_find current token) (\<lambda>(ent, _, _).
        bind (xfs_read_inode (de_inode_id ent)) (\<lambda>current.
        resolve_from tokens (de_inode_id ent) current)))"

definition xfs_resolve :: "cstr \<Rightarrow> ('w, u32 \<times> k64_xfs_inode) xfs" where
  "xfs_resolve path fs =
     (case path of
        None \<Rightarrow> (Fail, fs)
      | Some p \<Rightarrow>
          guard (mounted fs \<and> p \<noteq> [] \<and> p ! 0 = CHR ''/'')
            (bind (xfs_read_inode (sb_root_inode (super fs))) (\<lambda>current.
             resolve_from (path_tokens (dropWhile (\<lambda>c. c = CHR ''/'') p)) (sb_root_inode (super fs)) current)) fs)"

section \<open>Creation\<close>

definition zero_extent :: k64_xfs_extent where
  "zero_extent = \<lparr>ex_logical_block = 0, ex_physical_block = 0, ex_block_count = 0, ex_flags = 0, ex_reserved = 0\<rparr>"

definition blank_inode :: k64_xfs_inode where
  "blank_inode = \<lparr>i_magic = 0, i_inode_id = 0, i_type = 0, i_mode = 0, i_uid = 0, i_gid = 0, i_size = 0,
     i_link_count = 0, i_flags = 0, i_created_tick = 0, i_modified_tick = 0, i_accessed_tick = 0, i_generation = 0,
     i_extent_count = 0, i_reserved0 = 0, i_direct_extents = replicate 8 zero_extent, i_indirect_extent_block = 0,
     i_checksum = 0, i_reserved1 = replicate 28 0\<rparr>"

definition mode_bits :: "u16 \<Rightarrow> u32 \<Rightarrow> u16" where
  "mode_bits type mode = ucast ((if type = K64_XFS_TYPE_DIRECTORY then 0x4000 else 0x8000) OR (mode AND 0xFFF))"

definition fresh_inode :: "k64_xfs_superblock \<Rightarrow> u32 \<Rightarrow> u16 \<Rightarrow> u32 \<Rightarrow> u32 \<Rightarrow> u32 \<Rightarrow> k64_xfs_inode" where
  "fresh_inode s inode_id type mode uid gid =
     (let tick = sb_generation s + 1 in
      blank_inode\<lparr>i_magic := K64_XFS_INODE_MAGIC, i_inode_id := inode_id, i_type := type, i_mode := mode_bits type mode,
        i_uid := uid, i_gid := gid, i_link_count := 1, i_created_tick := tick, i_modified_tick := tick,
        i_accessed_tick := tick, i_generation := tick\<rparr>)"

definition xfs_make_inode :: "u32 \<Rightarrow> u16 \<Rightarrow> u32 \<Rightarrow> u32 \<Rightarrow> u32 \<Rightarrow> ('w, k64_xfs_inode) xfs" where
  "xfs_make_inode inode_id type mode uid gid fs =
     (let inode = fresh_inode (super fs) inode_id type mode uid gid in
      bind (xfs_write_inode inode) (\<lambda>_. ret inode) fs)"

definition xfs_create_at :: "cstr \<Rightarrow> u16 \<Rightarrow> u32 \<Rightarrow> u32 \<Rightarrow> u32 \<Rightarrow> ('w, k64_xfs_inode) xfs" where
  "xfs_create_at path type mode uid gid =
     (case xfs_split_parent path 256 128 of
        None \<Rightarrow> fail
      | Some (parent_path, leaf) \<Rightarrow>
          bind (xfs_resolve (Some parent_path)) (\<lambda>(_, parent).
          guard (\<not> i_type parent \<noteq> K64_XFS_TYPE_DIRECTORY)
         (bind (attempt (xfs_dir_find parent leaf)) (\<lambda>found.
          guard (found = None)
         (bind xfs_alloc_inode (\<lambda>inode_id.
          bind (xfs_make_inode inode_id type mode uid gid) (\<lambda>inode.
          bind (if type = K64_XFS_TYPE_DIRECTORY then
                  bind (attempt (xfs_alloc_extent 1)) (\<lambda>data_block.
                  case data_block of
                    None \<Rightarrow> bind (attempt (xfs_free_inode inode_id)) (\<lambda>_. fail)
                  | Some data_block \<Rightarrow>
                      bind (store data_block (replicate K64_XFS_BLOCK_SIZE 0)) (\<lambda>_.
                      let inode = set_extent 0 0 data_block 1
                            (inode\<lparr>i_size := of_nat K64_XFS_BLOCK_SIZE, i_extent_count := 1\<rparr>)
                      in bind (xfs_write_inode inode) (\<lambda>_. ret inode)))
                else ret inode) (\<lambda>inode.
          bind (xfs_dir_add parent leaf inode_id type) (\<lambda>_.
          ret inode)))))))))"

section \<open>Format, mount, sync\<close>

text \<open>
  \<open>in_local dev\<close> runs an operation on a zeroed mount of \<open>dev\<close> that is local to a C function:
  the drivers' state and the scratch block are shared with the caller's mount.
\<close>

definition zero_super :: k64_xfs_superblock where
  "zero_super = dec_super (replicate super_size 0)"

definition zero_mount :: "'w k64_block_device \<Rightarrow> 'w \<Rightarrow> bytes \<Rightarrow> 'w k64_xfs_mount" where
  "zero_mount dev w tmp = \<lparr>mounted = False, m_dev = dev, super = zero_super, cache = k64_xfs_cache_init, tx_id = 0,
     journal_records = 0, journal_active = False, mount_path = [], drv = w, xfs_tmp_block = tmp\<rparr>"

definition in_local :: "'w k64_block_device \<Rightarrow> ('w, 'a) xfs \<Rightarrow> ('w, 'a) xfs" where
  "in_local dev m fs = (case m (zero_mount dev (drv fs) (xfs_tmp_block fs)) of
       (r, loc) \<Rightarrow> (r, fs\<lparr>drv := drv loc, xfs_tmp_block := xfs_tmp_block loc\<rparr>))"

fun write_zero_blocks :: "nat list \<Rightarrow> ('w, unit) xfs" where
  "write_zero_blocks [] = ret ()"
| "write_zero_blocks (b # bs) =
     bind (xfs_block_write (of_nat b) (replicate K64_XFS_BLOCK_SIZE 0)) (\<lambda>_. write_zero_blocks bs)"

definition format_super :: "u64 \<Rightarrow> cstr \<Rightarrow> k64_xfs_superblock" where
  "format_super total_blocks label =
     (let data_start = xfs_data_start;
          label = (case label of None \<Rightarrow> ''K64XFS'' | Some l \<Rightarrow> if l = [] then ''K64XFS'' else l);
          sb = zero_super\<lparr>
            sb_magic := char_array 8 (take K64_XFS_MAGIC_SIZE K64_XFS_MAGIC),
            sb_version_major := K64_XFS_VERSION_MAJOR, sb_version_minor := K64_XFS_VERSION_MINOR,
            sb_block_size := of_nat K64_XFS_BLOCK_SIZE, sb_total_blocks := total_blocks,
            sb_inode_bitmap_start := XFS_INODE_BITMAP_BLOCK, sb_inode_bitmap_blocks := 1,
            sb_block_bitmap_start := XFS_BLOCK_BITMAP_BLOCK, sb_block_bitmap_blocks := 1,
            sb_journal_start := XFS_JOURNAL_START, sb_journal_blocks := of_nat K64_XFS_JOURNAL_BLOCKS,
            sb_inode_table_start := XFS_INODE_TABLE_START, sb_inode_table_blocks := xfs_inode_table_blocks,
            sb_data_start := data_start, sb_root_inode := 1, sb_mount_state := K64_XFS_MOUNT_CLEAN, sb_generation := 1,
            sb_label := char_array 32 (xfs_copy [] 32 (Some label)),
            sb_uuid := map (\<lambda>i. 0x64 + of_nat i + ucast total_blocks) [0..<K64_XFS_UUID_SIZE],
            sb_free_blocks := total_blocks - data_start - 1\<rparr>
      in sb\<lparr>sb_checksum := k64_xfs_super_checksum sb\<rparr>)"

definition format_root :: "u64 \<Rightarrow> k64_xfs_inode" where
  "format_root root_block =
     blank_inode\<lparr>i_magic := K64_XFS_INODE_MAGIC, i_inode_id := 1, i_type := K64_XFS_TYPE_DIRECTORY, i_mode := 0x41ED,
       i_size := of_nat K64_XFS_BLOCK_SIZE, i_link_count := 1, i_created_tick := 1, i_modified_tick := 1,
       i_accessed_tick := 1, i_generation := 1, i_extent_count := 1,
       i_direct_extents := (replicate 8 zero_extent)[0 := zero_extent\<lparr>ex_physical_block := root_block, ex_block_count := 1\<rparr>]\<rparr>"

definition k64_xfs_format :: "'w k64_block_device option \<Rightarrow> cstr \<Rightarrow> ('w, unit) xfs" where
  "k64_xfs_format device label =
     (case device of
        None \<Rightarrow> fail
      | Some dev \<Rightarrow>
        guard (xfs_dev_ok device)
          (let total_blocks = xfs_fs_blocks device; data_start = xfs_data_start in
           guard (\<not> (data_start + 1 \<ge> total_blocks \<or> total_blocks > 0xFFFFFFFF))
             (in_local dev
               (bind (modify (\<lambda>fs. fs\<lparr>mounted := True\<rparr>)) (\<lambda>_.
                bind (write_zero_blocks [0..<unat (data_start + 1)]) (\<lambda>_.
                let sb = format_super total_blocks label in
                bind (modify (\<lambda>fs. fs\<lparr>super := sb\<rparr>)) (\<lambda>_.
                bind (put_tmp (replicate K64_XFS_BLOCK_SIZE 0)) (\<lambda>bm.
                bind (of_res (xfs_bitmap_set bm 0 True)) (\<lambda>bm.
                bind (store (sb_inode_bitmap_start sb) bm) (\<lambda>_.
                bind (put_tmp (replicate K64_XFS_BLOCK_SIZE 0)) (\<lambda>bm.
                bind (of_res (set_bits [0..<unat data_start + 1] bm)) (\<lambda>bm.
                bind (store (sb_block_bitmap_start sb) bm) (\<lambda>_.
                bind (xfs_write_inode (format_root data_start)) (\<lambda>_.
                bind (store data_start (replicate K64_XFS_BLOCK_SIZE 0)) (\<lambda>_.
                bind xfs_write_super (\<lambda>_.
                lift_cache (k64_xfs_cache_flush dev)))))))))))))))))"

text \<open>\<open>k64_xfs_mount_op\<close> is \<^verbatim>\<open>k64_xfs_mount\<close>; its state is the caller's mount, which it overwrites.\<close>

definition super_acceptable :: "'w k64_block_device \<Rightarrow> k64_xfs_superblock \<Rightarrow> bool" where
  "super_acceptable dev sb \<longleftrightarrow>
     \<not> (k64_strncmp (array_str (sb_magic sb)) K64_XFS_MAGIC K64_XFS_MAGIC_SIZE \<noteq> 0 \<or>
        sb_version_major sb \<noteq> K64_XFS_VERSION_MAJOR \<or> sb_block_size sb \<noteq> of_nat K64_XFS_BLOCK_SIZE \<or>
        sb_total_blocks sb > xfs_fs_blocks (Some dev) \<or> sb_data_start sb \<ge> sb_total_blocks sb \<or>
        sb_checksum sb \<noteq> k64_xfs_super_checksum sb)"

definition k64_xfs_mount_op :: "'w k64_block_device option \<Rightarrow> ('w, unit) xfs" where
  "k64_xfs_mount_op device =
     (case device of
        None \<Rightarrow> fail
      | Some dev \<Rightarrow>
        guard (\<not> (block_size dev = 0 \<or> of_nat K64_XFS_BLOCK_SIZE mod block_size dev \<noteq> 0))
         (bind (modify (\<lambda>fs. zero_mount dev (drv fs) (xfs_tmp_block fs))) (\<lambda>_.
          bind (load 0) (\<lambda>b.
          let sb = dec_super b in
          guard (super_acceptable dev sb)
         (bind (modify (\<lambda>fs. fs\<lparr>super := sb, mounted := True, mount_path := xfs_copy [] 16 (Some ''/x'')\<rparr>)) (\<lambda>_.
          bind (if sb_mount_state sb = K64_XFS_MOUNT_DIRTY \<or> sb_mount_state sb = K64_XFS_MOUNT_NEEDS_RECOVERY
                then k64_xfs_journal_recover else ret ()) (\<lambda>_.
          bind (modify (\<lambda>fs. fs\<lparr>super := (super fs)\<lparr>sb_mount_state := K64_XFS_MOUNT_DIRTY\<rparr>\<rparr>)) (\<lambda>_.
          bind xfs_write_super (\<lambda>_.
          lift_cache (k64_xfs_cache_flush dev))))))))))"

definition k64_xfs_sync :: "('w, unit) xfs" where
  "k64_xfs_sync fs =
     guard (mounted fs)
       (bind (modify (\<lambda>fs. fs\<lparr>super := (super fs)\<lparr>sb_mount_state := K64_XFS_MOUNT_CLEAN\<rparr>\<rparr>)) (\<lambda>_.
        bind xfs_write_super (\<lambda>_.
        lift_cache (k64_xfs_cache_flush (m_dev fs))))) fs"

definition k64_xfs_unmount :: "('w, unit) xfs" where
  "k64_xfs_unmount = bind k64_xfs_sync (\<lambda>_. modify (\<lambda>fs. fs\<lparr>mounted := False\<rparr>))"

section \<open>Status and listing\<close>

record k64_fs_stat =
  st_exists :: bool
  st_is_dir :: bool
  st_size :: u64
  st_mode :: u32
  st_uid :: u32
  st_gid :: u32
  st_created_tick :: u64
  st_modified_tick :: u64
  st_generation :: u64
  st_path :: string

definition path_or_root :: "cstr \<Rightarrow> string" where
  "path_or_root path = (case path of None \<Rightarrow> ''/'' | Some p \<Rightarrow> if p = [] then ''/'' else p)"

definition k64_xfs_stat :: "cstr \<Rightarrow> ('w, k64_fs_stat) xfs" where
  "k64_xfs_stat path =
     bind (xfs_resolve (Some (path_or_root path))) (\<lambda>(_, inode).
     ret \<lparr>st_exists = True, st_is_dir = (i_type inode = K64_XFS_TYPE_DIRECTORY), st_size = i_size inode,
       st_mode = ucast (i_mode inode), st_uid = i_uid inode, st_gid = i_gid inode,
       st_created_tick = i_created_tick inode, st_modified_tick = i_modified_tick inode,
       st_generation = i_generation inode, st_path = xfs_copy [] 256 (Some (path_or_root path))\<rparr>)"

text \<open>
  The text of one directory block, appended to the \<open>out\<close> written so far. The name is copied while
  two positions are left; a length beyond the 128 bytes of the name field runs out of the field.
\<close>

definition list_entry :: "nat \<Rightarrow> k64_xfs_dirent \<Rightarrow> string \<Rightarrow> string res" where
  "list_entry out_size e out =
     (if de_inode_id e = 0 then Ok out
      else
        let n = min (unat (de_name_len e)) (out_size - 2 - length out) in
        if n > K64_XFS_NAME_MAX then Fault
        else
          let out = out @ map byte_char (take n (de_name e));
              out = (if de_type e = K64_XFS_TYPE_DIRECTORY \<and> length out + 2 < out_size then out @ ''/'' else out);
              out = (if length out + 1 < out_size then out @ [CHR 0x0A] else out)
          in Ok out)"

fun list_slots :: "bytes \<Rightarrow> nat \<Rightarrow> nat list \<Rightarrow> string \<Rightarrow> string res" where
  "list_slots blk out_size [] out = Ok out"
| "list_slots blk out_size (s # ss) out =
     res_bind (list_entry out_size (dirent_at blk s) out) (list_slots blk out_size ss)"

fun list_blocks :: "k64_xfs_inode \<Rightarrow> nat \<Rightarrow> nat list \<Rightarrow> string \<Rightarrow> ('w, string) xfs" where
  "list_blocks dir out_size [] out = ret out"
| "list_blocks dir out_size (b # bs) out =
     bind (xfs_inode_read_data_block dir (of_nat b)) (\<lambda>blk.
     bind (of_res (list_slots blk out_size [0..<XFS_DIRENT_PER_BLOCK] out)) (\<lambda>out.
     list_blocks dir out_size bs out))"

definition k64_xfs_list_dir :: "cstr \<Rightarrow> nat \<Rightarrow> ('w, string) xfs" where
  "k64_xfs_list_dir path out_size =
     guard (out_size > 0)
       (bind (xfs_resolve (Some (path_or_root path))) (\<lambda>(_, dir).
        guard (\<not> i_type dir \<noteq> K64_XFS_TYPE_DIRECTORY)
          (list_blocks dir out_size [0..<unat (blocks_of_size (i_size dir))] [])))"

section \<open>Files\<close>

definition k64_xfs_mkdir :: "cstr \<Rightarrow> u32 \<Rightarrow> u32 \<Rightarrow> u32 \<Rightarrow> ('w, unit) xfs" where
  "k64_xfs_mkdir path mode uid gid =
     bind k64_xfs_journal_begin (\<lambda>_.
     bind (xfs_create_at path K64_XFS_TYPE_DIRECTORY (if mode \<noteq> 0 then mode else 0x1ED) uid gid) (\<lambda>_.
     bind k64_xfs_journal_commit (\<lambda>_. xfs_write_super)))"

definition k64_xfs_create :: "cstr \<Rightarrow> u32 \<Rightarrow> u32 \<Rightarrow> u32 \<Rightarrow> ('w, unit) xfs" where
  "k64_xfs_create path mode uid gid =
     bind k64_xfs_journal_begin (\<lambda>_.
     bind (xfs_create_at path K64_XFS_TYPE_REGULAR (if mode \<noteq> 0 then mode else 0x1A4) uid gid) (\<lambda>_.
     bind k64_xfs_journal_commit (\<lambda>_. xfs_write_super)))"

fun free_extents :: "k64_xfs_extent list \<Rightarrow> ('w, unit) xfs" where
  "free_extents [] = ret ()"
| "free_extents (ex # exs) =
     bind (if ex_block_count ex \<noteq> 0 then xfs_free_extent (ex_physical_block ex) (ex_block_count ex) else ret ())
       (\<lambda>_. free_extents exs)"

definition xfs_free_file_extents :: "k64_xfs_inode \<Rightarrow> ('w, k64_xfs_inode) xfs" where
  "xfs_free_file_extents inode =
     bind (free_extents (inode_extents inode)) (\<lambda>_.
     ret (inode\<lparr>i_direct_extents := replicate 8 zero_extent, i_extent_count := 0, i_size := 0\<rparr>))"

text \<open>The data of a file, one block at a time; the last one is padded with zeros.\<close>

fun write_blocks :: "bytes \<Rightarrow> u64 \<Rightarrow> nat list \<Rightarrow> ('w, unit) xfs" where
  "write_blocks data start [] = ret ()"
| "write_blocks data start (b # bs) =
     (let off = b * K64_XFS_BLOCK_SIZE;
          n = min (length data - off) K64_XFS_BLOCK_SIZE
      in bind (store (start + of_nat b) (put_at 0 (bytes_at off n data) (replicate K64_XFS_BLOCK_SIZE 0)))
           (\<lambda>_. write_blocks data start bs))"

definition k64_xfs_write_file :: "cstr \<Rightarrow> bytes \<Rightarrow> u32 \<Rightarrow> u32 \<Rightarrow> ('w, unit) xfs" where
  "k64_xfs_write_file path data uid gid =
     guard (path \<noteq> None)
       (bind (bind (attempt (xfs_resolve path)) (\<lambda>r.
          case r of
            Some r \<Rightarrow> ret r
          | None \<Rightarrow> bind (k64_xfs_create path 0x1A4 uid gid) (\<lambda>_. xfs_resolve path))) (\<lambda>(_, inode).
        guard (\<not> i_type inode \<noteq> K64_XFS_TYPE_REGULAR)
       (let blocks = blocks_of_size (of_nat (length data)) in
        guard (\<not> blocks > 0xFFFFFFFF)
       (bind k64_xfs_journal_begin (\<lambda>_.
        bind (xfs_free_file_extents inode) (\<lambda>inode.
        bind (if blocks > 0 then
                bind (xfs_alloc_extent blocks) (\<lambda>start.
                bind (write_blocks data start [0..<unat blocks]) (\<lambda>_.
                ret (set_extent 0 0 start blocks (inode\<lparr>i_extent_count := 1\<rparr>))))
              else ret inode) (\<lambda>inode.
        bind (get (\<lambda>fs. sb_generation (super fs))) (\<lambda>gen.
        bind (xfs_write_inode (inode\<lparr>i_size := of_nat (length data), i_uid := uid, i_gid := gid,
               i_modified_tick := gen + 1\<rparr>)) (\<lambda>_.
        bind k64_xfs_journal_commit (\<lambda>_.
        xfs_write_super))))))))))"

text \<open>
  The read loop; \<open>out\<close> is what was read so far. A driver that returned less than a block would leave
  nothing to copy: that case is a \<open>Fault\<close>, so that the loop always ends.
\<close>

function read_blocks :: "k64_xfs_inode \<Rightarrow> nat \<Rightarrow> bytes \<Rightarrow> ('w, bytes) xfs" where
  "read_blocks inode limit out fs =
     (if length out < unat (i_size inode) \<and> length out < limit
      then
        let logical = length out div K64_XFS_BLOCK_SIZE; in_block = length out mod K64_XFS_BLOCK_SIZE in
        if of_nat logical \<ge> blocks_of_size (i_size inode) then (Fail, fs)
        else case xfs_inode_read_data_block inode (of_nat logical) fs of
            (Ok blk, fs) \<Rightarrow>
              let n = min (min (K64_XFS_BLOCK_SIZE - in_block) (unat (i_size inode) - length out)) (limit - length out);
                  chunk = bytes_at in_block n blk
              in if chunk = [] then (Fault, fs) else read_blocks inode limit (out @ chunk) fs
          | (Fail, fs) \<Rightarrow> (Fail, fs)
          | (Fault, fs) \<Rightarrow> (Fault, fs)
      else (Ok out, fs))"
  by pat_completeness auto
termination
proof (relation "measure (\<lambda>(inode, limit, out, fs). limit - length out)")
  fix inode limit and out chunk :: bytes and fs fs' :: "'w k64_xfs_mount" and l i r b n
  assume "length out < unat (i_size inode) \<and> length out < limit" and "\<not> chunk = []"
  then have "length out < limit" and "0 < length chunk" by simp_all
  then have "limit - (length out + length chunk) < limit - length out" by (intro diff_less_mono2) simp_all
  then show "((inode, limit, out @ chunk, fs'), inode, limit, out, fs) \<in> measure (\<lambda>(inode, limit, out, fs). limit - length out)"
    by simp
qed simp

declare read_blocks.simps [simp del]

definition k64_xfs_read_file :: "cstr \<Rightarrow> nat \<Rightarrow> ('w, bytes) xfs" where
  "k64_xfs_read_file path limit =
     bind (xfs_resolve path) (\<lambda>(_, inode).
     guard (\<not> i_type inode \<noteq> K64_XFS_TYPE_REGULAR)
       (read_blocks inode limit []))"

definition k64_xfs_truncate :: "cstr \<Rightarrow> nat \<Rightarrow> ('w, unit) xfs" where
  "k64_xfs_truncate path new_size =
     bind (xfs_resolve path) (\<lambda>(_, inode).
     guard (\<not> i_type inode \<noteq> K64_XFS_TYPE_REGULAR)
       (if new_size = 0 then k64_xfs_write_file path [] (i_uid inode) (i_gid inode)
        else if new_size \<le> unat (i_size inode) then
          guard (\<not> new_size > K64_XFS_BLOCK_SIZE)
            (bind (k64_xfs_read_file path new_size) (\<lambda>buf.
             k64_xfs_write_file path buf (i_uid inode) (i_gid inode)))
        else k64_xfs_write_file path [0] (i_uid inode) (i_gid inode)))"

definition k64_xfs_remove :: "cstr \<Rightarrow> ('w, unit) xfs" where
  "k64_xfs_remove path =
     (case xfs_split_parent path 256 128 of
        None \<Rightarrow> fail
      | Some (parent_path, leaf) \<Rightarrow>
          bind (xfs_resolve (Some parent_path)) (\<lambda>(_, parent).
          bind (xfs_resolve path) (\<lambda>(inode_id, inode).
          guard (\<not> i_type inode \<noteq> K64_XFS_TYPE_REGULAR)
         (bind k64_xfs_journal_begin (\<lambda>_.
          bind (xfs_free_file_extents inode) (\<lambda>_.
          bind (xfs_free_inode inode_id) (\<lambda>_.
          bind (xfs_dir_remove parent leaf) (\<lambda>_.
          bind (attempt (xfs_write_inode (blank_inode\<lparr>i_inode_id := inode_id\<rparr>))) (\<lambda>_.
          bind k64_xfs_journal_commit (\<lambda>_. xfs_write_super))))))))))"

definition k64_xfs_rmdir :: "cstr \<Rightarrow> ('w, unit) xfs" where
  "k64_xfs_rmdir path =
     (case xfs_split_parent path 256 128 of
        None \<Rightarrow> fail
      | Some (parent_path, leaf) \<Rightarrow>
          bind (xfs_resolve (Some parent_path)) (\<lambda>(_, parent).
          bind (xfs_resolve path) (\<lambda>(inode_id, inode).
          guard (\<not> (i_type inode \<noteq> K64_XFS_TYPE_DIRECTORY \<or> i_size inode \<noteq> of_nat K64_XFS_BLOCK_SIZE))
         (bind (xfs_inode_read_data_block inode 0) (\<lambda>blk.
          guard (\<forall>s\<in>set [0..<XFS_DIRENT_PER_BLOCK]. \<not> de_inode_id (dirent_at blk s) \<noteq> 0)
         (bind k64_xfs_journal_begin (\<lambda>_.
          bind (xfs_free_file_extents inode) (\<lambda>_.
          bind (xfs_free_inode inode_id) (\<lambda>_.
          bind (xfs_dir_remove parent leaf) (\<lambda>_.
          bind k64_xfs_journal_commit (\<lambda>_. xfs_write_super)))))))))))"

definition k64_xfs_rename :: "cstr \<Rightarrow> cstr \<Rightarrow> ('w, unit) xfs" where
  "k64_xfs_rename old_path new_path =
     (case xfs_split_parent old_path 256 128 of
        None \<Rightarrow> fail
      | Some (old_parent_path, old_leaf) \<Rightarrow>
     (case xfs_split_parent new_path 256 128 of
        None \<Rightarrow> fail
      | Some (new_parent_path, new_leaf) \<Rightarrow>
          bind (xfs_resolve (Some old_parent_path)) (\<lambda>(_, old_parent).
          bind (xfs_resolve (Some new_parent_path)) (\<lambda>(_, new_parent).
          bind (xfs_resolve old_path) (\<lambda>(inode_id, inode).
          bind (attempt (xfs_dir_find new_parent new_leaf)) (\<lambda>found.
          guard (found = None)
         (bind (xfs_dir_add new_parent new_leaf inode_id (i_type inode)) (\<lambda>_.
          bind (xfs_dir_remove old_parent old_leaf) (\<lambda>_.
          ret ())))))))))"

definition k64_xfs_chmod :: "cstr \<Rightarrow> u32 \<Rightarrow> ('w, unit) xfs" where
  "k64_xfs_chmod path mode =
     bind (xfs_resolve path) (\<lambda>(_, inode).
     bind (get (\<lambda>fs. sb_generation (super fs))) (\<lambda>gen.
     let inode = inode\<lparr>i_mode := mode_bits (i_type inode) mode, i_modified_tick := gen + 1\<rparr> in
     bind k64_xfs_journal_begin (\<lambda>_.
     bind (xfs_write_inode inode) (\<lambda>_.
     bind k64_xfs_journal_commit (\<lambda>_. xfs_write_super)))))"

definition k64_xfs_chown :: "cstr \<Rightarrow> u32 \<Rightarrow> u32 \<Rightarrow> ('w, unit) xfs" where
  "k64_xfs_chown path uid gid =
     bind (xfs_resolve path) (\<lambda>(_, inode).
     bind (get (\<lambda>fs. sb_generation (super fs))) (\<lambda>gen.
     let inode = inode\<lparr>i_uid := uid, i_gid := gid, i_modified_tick := gen + 1\<rparr> in
     bind k64_xfs_journal_begin (\<lambda>_.
     bind (xfs_write_inode inode) (\<lambda>_.
     bind k64_xfs_journal_commit (\<lambda>_. xfs_write_super)))))"

section \<open>The consistency check\<close>

text \<open>
  The two bit maps and the map of the blocks seen are in static blocks of their own that are
  filled before they are used, so they are values here.
\<close>

record k64_xfs_check_report =
  rp_ok :: bool
  rp_errors :: u32
  rp_used_inodes :: u32
  rp_used_blocks :: u64
  rp_free_blocks :: u64
  rp_message :: string

definition empty_report :: k64_xfs_check_report where
  "empty_report = \<lparr>rp_ok = False, rp_errors = 0, rp_used_inodes = 0, rp_used_blocks = 0, rp_free_blocks = 0, rp_message = []\<rparr>"

text \<open>An error is counted; its message is kept when it is the first.\<close>

definition complain :: "string \<Rightarrow> k64_xfs_check_report \<Rightarrow> k64_xfs_check_report" where
  "complain msg out = out\<lparr>rp_errors := rp_errors out + 1,
     rp_message := (if rp_message out = [] then xfs_copy (rp_message out) 96 (Some msg) else rp_message out)\<rparr>"

fun check_blocks :: "bytes \<Rightarrow> u64 \<Rightarrow> nat list \<Rightarrow> bytes \<times> k64_xfs_check_report \<Rightarrow> (bytes \<times> k64_xfs_check_report) res" where
  "check_blocks bm total_blocks [] st = Ok st"
| "check_blocks bm total_blocks (b # bs) (seen, out) =
     res_bind (xfs_bitmap_get bm (of_nat b)) (\<lambda>used.
     res_bind (if used \<and> total_blocks \<le> of_nat K64_XFS_BLOCK_SIZE * 8 then xfs_bitmap_get seen (of_nat b) else Ok False) (\<lambda>dup.
     res_bind (if total_blocks \<le> of_nat K64_XFS_BLOCK_SIZE * 8 then xfs_bitmap_set seen (of_nat b) True else Ok seen) (\<lambda>seen.
     check_blocks bm total_blocks bs
       (seen, if \<not> used then complain ''extent block unmarked'' out
              else if dup then complain ''extent block duplicate'' out else out))))"

fun check_extents :: "k64_xfs_superblock \<Rightarrow> bytes \<Rightarrow> k64_xfs_extent list \<Rightarrow>
    bytes \<times> k64_xfs_check_report \<Rightarrow> (bytes \<times> k64_xfs_check_report) res" where
  "check_extents s bm [] st = Ok st"
| "check_extents s bm (ex # exs) (seen, out) =
     (let start = ex_physical_block ex; count = ex_block_count ex in
      res_bind (if count = 0 \<or> start < sb_data_start s \<or> start > (- 1) - count \<or> start + count > sb_total_blocks s
                then Ok (seen, complain ''bad extent range'' out)
                else res_bind (check_blocks bm (sb_total_blocks s) [unat start..<unat (start + count)] (seen, out))
                  (\<lambda>(seen, out). Ok (seen, out\<lparr>rp_used_blocks := rp_used_blocks out + count\<rparr>)))
        (check_extents s bm exs))"

text \<open>One position of the inode bit map.\<close>

definition check_inode :: "bytes \<Rightarrow> bytes \<Rightarrow> nat \<Rightarrow> bytes \<times> k64_xfs_check_report \<Rightarrow> ('w, bytes \<times> k64_xfs_check_report) xfs" where
  "check_inode ibm bbm i st =
     bind (of_res (xfs_bitmap_get ibm (of_nat i))) (\<lambda>used.
       if \<not> used then ret st
       else case st of (seen, out) \<Rightarrow>
         let out = out\<lparr>rp_used_inodes := rp_used_inodes out + 1\<rparr> in
         bind (attempt (xfs_read_inode (of_nat i + 1))) (\<lambda>inode.
         case inode of
           None \<Rightarrow> ret (seen, complain ''bad used inode'' out)
         | Some inode \<Rightarrow>
             let out = (if i_type inode < K64_XFS_TYPE_REGULAR \<or> i_type inode > K64_XFS_TYPE_PIPE \<or>
                           i_extent_count inode > of_nat K64_XFS_DIRECT_EXTENTS
                        then complain ''bad inode fields'' out else out)
             in bind (get super) (\<lambda>s. of_res (check_extents s bbm (inode_extents inode) (seen, out)))))"

fun check_inodes :: "bytes \<Rightarrow> bytes \<Rightarrow> nat list \<Rightarrow> bytes \<times> k64_xfs_check_report \<Rightarrow> ('w, bytes \<times> k64_xfs_check_report) xfs" where
  "check_inodes ibm bbm [] st = ret st"
| "check_inodes ibm bbm (i # is) st = bind (check_inode ibm bbm i st) (check_inodes ibm bbm is)"

fun count_free :: "bytes \<Rightarrow> nat list \<Rightarrow> u64 \<Rightarrow> u64 res" where
  "count_free bm [] n = Ok n"
| "count_free bm (b # bs) n =
     res_bind (xfs_bitmap_get bm (of_nat b)) (\<lambda>used. count_free bm bs (if \<not> used then n + 1 else n))"

definition check_result :: "k64_xfs_check_report \<Rightarrow> k64_xfs_check_report" where
  "check_result out =
     (let out = out\<lparr>rp_ok := (rp_errors out = 0)\<rparr> in
      if rp_ok out then out\<lparr>rp_message := xfs_copy (rp_message out) 96 (Some ''K64XFS check: OK'')\<rparr>
      else if rp_message out = [] then out\<lparr>rp_message := xfs_copy (rp_message out) 96 (Some ''K64XFS check: errors'')\<rparr>
      else out)"

definition k64_xfs_check :: "('w, k64_xfs_check_report) xfs" where
  "k64_xfs_check fs =
     (let s = super fs; out = empty_report in
      if \<not> mounted fs \<or> k64_strncmp (array_str (sb_magic s)) K64_XFS_MAGIC K64_XFS_MAGIC_SIZE \<noteq> 0 \<or>
         sb_block_size s \<noteq> of_nat K64_XFS_BLOCK_SIZE \<or> sb_root_inode s \<noteq> 1 \<or> sb_data_start s \<ge> sb_total_blocks s
      then (Ok (complain ''bad superblock'' out), fs)
      else
        bind (attempt (bind (xfs_block_read (sb_inode_bitmap_start s)) (\<lambda>ibm.
              bind (xfs_block_read (sb_block_bitmap_start s)) (\<lambda>bbm. ret (ibm, bbm))))) (\<lambda>maps.
        case maps of
          None \<Rightarrow> ret (complain ''bitmap read failed'' out)
        | Some (ibm, bbm) \<Rightarrow>
            bind (attempt (xfs_read_inode (sb_root_inode s))) (\<lambda>root.
            let out = (case root of
                None \<Rightarrow> complain ''bad root inode'' out
              | Some r \<Rightarrow> if i_type r \<noteq> K64_XFS_TYPE_DIRECTORY then complain ''bad root inode'' out else out)
            in bind (check_inodes ibm bbm [0..<K64_XFS_MAX_INODES] (replicate K64_XFS_BLOCK_SIZE 0, out)) (\<lambda>(_, out).
               bind (of_res (count_free bbm [unat (sb_data_start s)..<unat (sb_total_blocks s)] 0)) (\<lambda>bitmap_free.
               let out = out\<lparr>rp_free_blocks := bitmap_free\<rparr>;
                   out = (if bitmap_free \<noteq> sb_free_blocks s then complain ''free count mismatch'' out else out)
               in ret (check_result out))))) fs)"

end
