(* ===== verification/Fs.thy ===== *)
theory Fs
  imports Xfs
begin

text \<open>
  The file-system service, \<^verbatim>\<open>src/k64_fs.c\<close>: path normalisation against the working directory, the
  pseudo files under \<^verbatim>\<open>/proc\<close> and \<^verbatim>\<open>/dev\<close>, the choice of the root device at start, and the
  path-based operations over the mounted K64XFS.

  The state is the file's static variables with the device registry. The drivers' state is a pair
  of the memory regions of the memory driver and the state \<open>'h\<close> of the hardware drivers; it is kept in
  the mount. The static buffers only hold data between a read and its use, so their contents are
  values here, bounded by the size of the buffers.
\<close>

section \<open>State\<close>

type_synonym 'h world = "memdevs \<times> 'h"

definition K64_ROOTFS_PARTITION_LBA :: u64 where "K64_ROOTFS_PARTITION_LBA = 2048"
definition K64_ROOTFS_BOOT_AREA_SECTORS :: u32 where "K64_ROOTFS_BOOT_AREA_SECTORS = 2048"
definition K64_ROOTFS_FALLBACK_BYTES :: nat where "K64_ROOTFS_FALLBACK_BYTES = 8 * 1024 * 1024"
definition K64_ROOTFS_RAW_MAX :: nat where "K64_ROOTFS_RAW_MAX = 16 * 1024 * 1024"

record 'h filesystem =
  rootfs :: "'h world k64_xfs_mount"
  fs_running :: bool
  fs_persistent :: bool
  fs_mount_name :: string
  fs_cwd :: string
  fs_devices :: "'h world k64_block_device list"
  fs_next_id :: u64

type_synonym ('h, 'a) fsop = "('h filesystem, 'a) op"

text \<open>Contexts of the memory driver: the addresses of \<^verbatim>\<open>fs_module_memdev\<close> and \<^verbatim>\<open>fs_fallback_memdev\<close>.\<close>

definition fs_module_memdev :: nat where "fs_module_memdev = 1"
definition fs_fallback_memdev :: nat where "fs_fallback_memdev = 2"

definition mem_read :: "'h world block_read_fn" where
  "mem_read ctx lba count w = (case fs_mem_read ctx lba count (fst w) of (r, m) \<Rightarrow> (r, (m, snd w)))"

definition mem_write :: "'h world block_write_fn" where
  "mem_write ctx lba count data w = (case fs_mem_write ctx lba count data (fst w) of (r, m) \<Rightarrow> (r, (m, snd w)))"

definition on_root :: "('h world, 'a) xfs \<Rightarrow> ('h, 'a) fsop" where
  "on_root m s = (case m (rootfs s) of (r, fs) \<Rightarrow> (r, s\<lparr>rootfs := fs\<rparr>))"

text \<open>\<open>a || b\<close> on calls: the second is made when the first returned false.\<close>

definition orelse :: "('s, 'a) op \<Rightarrow> ('s, 'a) op \<Rightarrow> ('s, 'a) op" where
  "orelse a b s = (case a s of (Fail, s) \<Rightarrow> b s | r \<Rightarrow> r)"

section \<open>Strings and paths\<close>

definition fs_copy :: "string \<Rightarrow> nat \<Rightarrow> cstr \<Rightarrow> string" where
  "fs_copy dst dst_size src = str_copy dst dst_size src"

definition fs_append :: "string \<Rightarrow> nat \<Rightarrow> cstr \<Rightarrow> string" where
  "fs_append dst dst_size src = str_append dst dst_size src"

definition fs_path_has_suffix :: "string \<Rightarrow> string \<Rightarrow> bool" where
  "fs_path_has_suffix s suffix =
     (if length suffix > length s then False
      else k64_strncmp (drop (length s - length suffix) s) suffix (length suffix) = 0)"

definition fs_name_has_prefix :: "cstr \<Rightarrow> cstr \<Rightarrow> bool" where
  "fs_name_has_prefix s prefix =
     (case (s, prefix) of (Some s, Some p) \<Rightarrow> k64_strncmp s p (k64_strlen prefix) = 0 | _ \<Rightarrow> False)"

text \<open>
  One component in the loop of \<^verbatim>\<open>fs_normalize\<close>; \<open>out\<close> is the text so far, its length the
  position. \<open>drop_component\<close> is the backward loop for \<open>..\<close>: the position goes back by one and on to
  the character after a slash, or to one.
\<close>

fun back_to_slash :: "string \<Rightarrow> nat \<Rightarrow> nat" where
  "back_to_slash out 0 = 0"
| "back_to_slash out (Suc n) = (if Suc n > 1 \<and> out ! n \<noteq> CHR ''/'' then back_to_slash out n else Suc n)"

definition drop_component :: "string \<Rightarrow> string" where
  "drop_component out = (if length out > 1 then take (back_to_slash out (length out - 1)) out else out)"

definition add_component :: "nat \<Rightarrow> string \<Rightarrow> string \<Rightarrow> string option" where
  "add_component out_size token out =
     (if length out > 1 \<and> length out + 1 \<ge> out_size then None
      else
        let out = (if length out > 1 then out @ ''/'' else out) in
        if length out + length token \<ge> out_size then None else Some (out @ token))"

fun normalize_tokens :: "nat \<Rightarrow> string list \<Rightarrow> string \<Rightarrow> string option" where
  "normalize_tokens out_size [] out = Some out"
| "normalize_tokens out_size (token # tokens) out =
     (if length token + 1 > 128 then None
      else if k64_streq (Some token) (Some ''.'') then normalize_tokens out_size tokens out
      else if k64_streq (Some token) (Some ''..'') then normalize_tokens out_size tokens (drop_component out)
      else case add_component out_size token out of
          None \<Rightarrow> None
        | Some out \<Rightarrow> normalize_tokens out_size tokens out)"

text \<open>The path against the working directory, in a buffer of 256 bytes.\<close>

definition fs_full_path :: "string \<Rightarrow> cstr \<Rightarrow> string" where
  "fs_full_path cwd path =
     (let p = (case path of None \<Rightarrow> ''.'' | Some p \<Rightarrow> if p = [] then ''.'' else p) in
      if p ! 0 = CHR ''/'' then fs_copy [] 256 (Some p)
      else
        let tmp = fs_copy [] 256 (Some cwd);
            tmp = (if \<not> k64_streq (Some tmp) (Some ''/'') then fs_append tmp 256 (Some ''/'') else tmp)
        in fs_append tmp 256 (Some p))"

definition fs_normalize :: "string \<Rightarrow> cstr \<Rightarrow> nat \<Rightarrow> string option" where
  "fs_normalize cwd path out_size =
     (if out_size = 0 then None
      else normalize_tokens out_size (path_tokens (dropWhile (\<lambda>c. c = CHR ''/'') (fs_full_path cwd path))) ''/'')"

text \<open>The normalised path, or the early return when there is none.\<close>

definition normalized :: "cstr \<Rightarrow> ('h, string) fsop" where
  "normalized path s = (case fs_normalize (fs_cwd s) path 256 of None \<Rightarrow> (Fail, s) | Some full \<Rightarrow> (Ok full, s))"

section \<open>Pseudo files\<close>

definition fs_is_pseudo_path :: "cstr \<Rightarrow> bool" where
  "fs_is_pseudo_path path \<longleftrightarrow> path \<noteq> None \<and>
     (k64_streq path (Some ''/proc'') \<or> fs_name_has_prefix path (Some ''/proc/'') \<or>
      k64_streq path (Some ''/dev'') \<or> fs_name_has_prefix path (Some ''/dev/''))"

definition fs_stat_fill :: "string \<Rightarrow> bool \<Rightarrow> u64 \<Rightarrow> u32 \<Rightarrow> k64_fs_stat" where
  "fs_stat_fill path is_dir size' mode =
     \<lparr>st_exists = True, st_is_dir = is_dir, st_size = size', st_mode = mode, st_uid = 0, st_gid = 0,
      st_created_tick = 0, st_modified_tick = 0, st_generation = 1, st_path = fs_copy [] 256 (Some path)\<rparr>"

definition newline :: string where "newline = [CHR 0x0A]"

definition fs_build_proc_services :: "nat \<Rightarrow> string" where
  "fs_build_proc_services out_size =
     (if out_size = 0 then []
      else fs_copy [] out_size (Some (''kernel running ring0'' @ newline @ ''fs running ring3-gated'' @ newline @
        ''proc running ring3-gated'' @ newline @ ''io running ring3-gated'' @ newline @
        ''term running ring3-gated'' @ newline)))"

definition fs_pseudo_read_all :: "cstr \<Rightarrow> string option" where
  "fs_pseudo_read_all path =
     (if path = None then None
      else if k64_streq path (Some ''/proc/version'') then Some (fs_copy [] 4096 (Some (''K64 0.3'' @ newline)))
      else if k64_streq path (Some ''/proc/services'') then Some (fs_build_proc_services 4096)
      else if k64_streq path (Some ''/dev/null'') then Some []
      else None)"

definition fs_pseudo_ls :: "cstr \<Rightarrow> nat \<Rightarrow> string option" where
  "fs_pseudo_ls path out_size =
     (if out_size = 0 \<or> path = None then None
      else if k64_streq path (Some ''/proc'')
        then Some (fs_copy [] out_size (Some (''version'' @ newline @ ''services'' @ newline)))
      else if k64_streq path (Some ''/dev'')
        then Some (fs_copy [] out_size (Some (''null'' @ newline @ ''console'' @ newline @ ''tty0'' @ newline)))
      else None)"

definition fs_pseudo_stat :: "string \<Rightarrow> k64_fs_stat option" where
  "fs_pseudo_stat path =
     (let is' = (\<lambda>p. k64_streq (Some path) (Some p)) in
      if is' ''/proc'' \<or> is' ''/dev'' then Some (fs_stat_fill path True 0 0x16D)
      else if is' ''/proc/version'' \<or> is' ''/proc/services'' \<or> is' ''/dev/null'' \<or> is' ''/dev/console'' \<or> is' ''/dev/tty0''
        then Some (fs_stat_fill path False
          (case fs_pseudo_read_all (Some path) of None \<Rightarrow> 0 | Some d \<Rightarrow> of_nat (length d))
          (if is' ''/dev/null'' then 0x1B6 else 0x124))
      else None)"

section \<open>Files and directories\<close>

abbreviation text_of :: "cstr \<Rightarrow> bytes" where
  "text_of t \<equiv> map char_byte (str_of t)"

definition k64_fs_pwd :: "nat \<Rightarrow> ('h, string) fsop" where
  "k64_fs_pwd out_size s = guard (out_size > 0) (ret (fs_copy [] out_size (Some (fs_cwd s)))) s"

definition k64_fs_cd :: "cstr \<Rightarrow> ('h, unit) fsop" where
  "k64_fs_cd path =
     bind (normalized path) (\<lambda>full.
     bind (on_root (k64_xfs_stat (Some full))) (\<lambda>st.
     guard (st_is_dir st)
       (modify (\<lambda>s. s\<lparr>fs_cwd := fs_copy (fs_cwd s) 256 (Some full)\<rparr>))))"

definition path_or_dot :: "cstr \<Rightarrow> cstr" where
  "path_or_dot path = (case path of None \<Rightarrow> Some ''.'' | Some p \<Rightarrow> if p = [] then Some ''.'' else Some p)"

definition k64_fs_ls :: "cstr \<Rightarrow> nat \<Rightarrow> ('h, string) fsop" where
  "k64_fs_ls path out_size =
     bind (normalized (path_or_dot path)) (\<lambda>full.
     bind (if fs_is_pseudo_path (Some full)
           then (case fs_pseudo_ls (Some full) out_size of None \<Rightarrow> fail | Some out \<Rightarrow> ret out)
           else on_root (k64_xfs_list_dir (Some full) out_size)) (\<lambda>out.
     ret (if out_size > 0 \<and> (out = [] \<or> out ! 0 = CHR 0x00) then fs_copy out out_size (Some (''.'' @ newline)) else out)))"

text \<open>The lines of a listing: each is cut to the 127 characters of the name buffer.\<close>

function listing_names :: "string \<Rightarrow> string list" where
  "listing_names p =
     (if p = [] then []
      else take 127 (takeWhile (\<lambda>c. c \<noteq> CHR 0x0A) p) # listing_names (tl (dropWhile (\<lambda>c. c \<noteq> CHR 0x0A) p)))"
  by pat_completeness auto
termination
proof (relation "measure length")
  fix p :: string
  assume "p \<noteq> []"
  then have "0 < length p" by simp
  moreover have "length (dropWhile (\<lambda>c. c \<noteq> CHR 0x0A) p) \<le> length p" by (rule length_dropWhile_le)
  ultimately have "length (dropWhile (\<lambda>c. c \<noteq> CHR 0x0A) p) - 1 < length p" by linarith
  then show "(tl (dropWhile (\<lambda>c. c \<noteq> CHR 0x0A) p), p) \<in> measure length" by (simp only: in_measure length_tl)
qed simp

declare listing_names.simps [simp del]

text \<open>The callback has a context of its own and says whether to go on.\<close>

fun iter_names :: "(string \<Rightarrow> bool \<Rightarrow> 'c \<Rightarrow> bool \<times> 'c) \<Rightarrow> string list \<Rightarrow> 'c \<Rightarrow> 'c" where
  "iter_names fn [] ctx = ctx"
| "iter_names fn (name # names) ctx =
     (if name = [] \<or> k64_streq (Some name) (Some ''.'') then iter_names fn names ctx
      else
        let is_dir = (last name = CHR ''/''); name = (if is_dir then butlast name else name) in
        case fn name is_dir ctx of
          (True, ctx) \<Rightarrow> iter_names fn names ctx
        | (False, ctx) \<Rightarrow> ctx)"

definition k64_fs_iter_dir :: "cstr \<Rightarrow> (string \<Rightarrow> bool \<Rightarrow> 'c \<Rightarrow> bool \<times> 'c) \<Rightarrow> 'c \<Rightarrow> ('h, 'c) fsop" where
  "k64_fs_iter_dir path fn ctx =
     bind (k64_fs_ls path 4096) (\<lambda>listing.
     ret (iter_names fn (listing_names (takeWhile (\<lambda>c. c \<noteq> CHR 0x00) listing)) ctx))"

definition k64_fs_mkdir :: "cstr \<Rightarrow> ('h, unit) fsop" where
  "k64_fs_mkdir path = bind (normalized path) (\<lambda>full. on_root (k64_xfs_mkdir (Some full) 0x1ED 0 0))"

text \<open>The components of the normalised path, made one after the other; \<open>partial\<close> is the path so far.\<close>

fun mkdir_tokens :: "string list \<Rightarrow> string \<Rightarrow> ('h, unit) fsop" where
  "mkdir_tokens [] partial = ret ()"
| "mkdir_tokens (token # tokens) partial =
     guard (\<not> (token \<noteq> [] \<and> length partial + length token \<ge> 256))
       (let partial = partial @ token in
        bind (attempt (on_root (k64_xfs_stat (Some partial)))) (\<lambda>st.
        bind (if st = None then on_root (k64_xfs_mkdir (Some partial) 0x1ED 0 0) else ret ()) (\<lambda>_.
        if tokens = [] then ret ()
        else guard (\<not> length partial + 1 \<ge> 256) (mkdir_tokens tokens (partial @ ''/'')))))"

definition k64_fs_mkdir_p :: "cstr \<Rightarrow> ('h, unit) fsop" where
  "k64_fs_mkdir_p path =
     bind (normalized path) (\<lambda>full.
     if k64_streq (Some full) (Some ''/'') then ret ()
     else mkdir_tokens (path_tokens (tl full)) ''/'')"

definition k64_fs_touch :: "cstr \<Rightarrow> ('h, unit) fsop" where
  "k64_fs_touch path =
     bind (normalized path) (\<lambda>full.
     bind (attempt (on_root (k64_xfs_stat (Some full)))) (\<lambda>st.
     if st \<noteq> None then ret () else on_root (k64_xfs_create (Some full) 0x1A4 0 0)))"

definition k64_fs_write_file_raw :: "cstr \<Rightarrow> bytes \<Rightarrow> ('h, unit) fsop" where
  "k64_fs_write_file_raw path data =
     bind (normalized path) (\<lambda>full.
     if k64_streq (Some full) (Some ''/dev/null'') then ret ()
     else guard (\<not> fs_is_pseudo_path (Some full)) (on_root (k64_xfs_write_file (Some full) data 0 0)))"

definition k64_fs_write_file :: "cstr \<Rightarrow> cstr \<Rightarrow> ('h, unit) fsop" where
  "k64_fs_write_file path text = k64_fs_write_file_raw path (text_of text)"

text \<open>The whole of a regular file that fits the static buffer.\<close>

definition read_whole :: "string \<Rightarrow> k64_fs_stat \<Rightarrow> ('h, bytes) fsop" where
  "read_whole full st =
     guard (\<not> (st_is_dir st \<or> unat (st_size st) > K64_ROOTFS_RAW_MAX))
       (bind (on_root (k64_xfs_read_file (Some full) (unat (st_size st)))) (\<lambda>d.
        guard (\<not> length d \<noteq> unat (st_size st)) (ret d)))"

definition range_of :: "nat \<Rightarrow> nat \<Rightarrow> bytes \<Rightarrow> bytes" where
  "range_of offset n d = (if offset \<ge> length d then [] else bytes_at offset (min n (length d - offset)) d)"

definition k64_fs_read_file_range :: "cstr \<Rightarrow> nat \<Rightarrow> nat \<Rightarrow> ('h, bytes) fsop" where
  "k64_fs_read_file_range path offset n =
     bind (normalized path) (\<lambda>full.
     case fs_pseudo_read_all (Some full) of
       Some text \<Rightarrow> ret (range_of offset n (map char_byte text))
     | None \<Rightarrow>
         bind (on_root (k64_xfs_stat (Some full))) (\<lambda>st.
         bind (read_whole full st) (\<lambda>d.
         ret (range_of offset n d))))"

text \<open>
  \<open>offset + size\<close> is computed in 64 bits; the two bounds before it keep it from wrapping.
\<close>

definition k64_fs_write_file_range :: "cstr \<Rightarrow> nat \<Rightarrow> bytes \<Rightarrow> ('h, unit) fsop" where
  "k64_fs_write_file_range path offset data =
     bind (normalized path) (\<lambda>full.
     bind (attempt (on_root (k64_xfs_stat (Some full)))) (\<lambda>st.
     case st of
       None \<Rightarrow> guard (offset = 0) (on_root (k64_xfs_write_file (Some full) data 0 0))
     | Some st \<Rightarrow>
         guard (\<not> (st_is_dir st \<or> unat (st_size st) > K64_ROOTFS_RAW_MAX \<or> offset > K64_ROOTFS_RAW_MAX \<or>
                   length data > K64_ROOTFS_RAW_MAX))
         (let new_size = max (unat (st_size st)) (offset + length data) in
          guard (\<not> new_size > K64_ROOTFS_RAW_MAX)
         (bind (if st_size st \<noteq> 0 then
                  bind (on_root (k64_xfs_read_file (Some full) (unat (st_size st)))) (\<lambda>d.
                  guard (\<not> length d \<noteq> unat (st_size st)) (ret d))
                else ret []) (\<lambda>d.
          on_root (k64_xfs_write_file (Some full) (put_at offset data (put_at 0 d (replicate new_size 0)))
            (st_uid st) (st_gid st)))))))"

definition k64_fs_append_file :: "cstr \<Rightarrow> cstr \<Rightarrow> ('h, unit) fsop" where
  "k64_fs_append_file path text =
     bind (normalized path) (\<lambda>full.
     bind (attempt (on_root (k64_xfs_stat (Some full)))) (\<lambda>st.
     case st of
       None \<Rightarrow> k64_fs_write_file path text
     | Some st \<Rightarrow> k64_fs_write_file_range (Some full) (unat (st_size st)) (text_of text)))"

definition k64_fs_truncate :: "cstr \<Rightarrow> nat \<Rightarrow> ('h, unit) fsop" where
  "k64_fs_truncate path n =
     bind (normalized path) (\<lambda>full.
     bind (on_root (k64_xfs_stat (Some full))) (\<lambda>st.
     guard (\<not> (st_is_dir st \<or> n > K64_ROOTFS_RAW_MAX \<or> unat (st_size st) > K64_ROOTFS_RAW_MAX))
       (bind (if st_size st \<noteq> 0 then on_root (k64_xfs_read_file (Some full) (min (unat (st_size st)) n)) else ret []) (\<lambda>d.
        on_root (k64_xfs_write_file (Some full) (put_at 0 d (replicate n 0)) (st_uid st) (st_gid st))))))"

definition k64_fs_chmod :: "cstr \<Rightarrow> u32 \<Rightarrow> ('h, unit) fsop" where
  "k64_fs_chmod path mode = bind (normalized path) (\<lambda>full. on_root (k64_xfs_chmod (Some full) mode))"

definition k64_fs_chown :: "cstr \<Rightarrow> u32 \<Rightarrow> u32 \<Rightarrow> ('h, unit) fsop" where
  "k64_fs_chown path uid gid = bind (normalized path) (\<lambda>full. on_root (k64_xfs_chown (Some full) uid gid))"

definition k64_fs_remove :: "cstr \<Rightarrow> ('h, unit) fsop" where
  "k64_fs_remove path = bind (normalized path) (\<lambda>full. on_root (k64_xfs_remove (Some full)))"

definition k64_fs_rmdir :: "cstr \<Rightarrow> ('h, unit) fsop" where
  "k64_fs_rmdir path = bind (normalized path) (\<lambda>full. on_root (k64_xfs_rmdir (Some full)))"

definition k64_fs_move :: "cstr \<Rightarrow> cstr \<Rightarrow> ('h, unit) fsop" where
  "k64_fs_move src_path dst_path =
     bind (normalized src_path) (\<lambda>src.
     bind (normalized dst_path) (\<lambda>dst.
     on_root (k64_xfs_rename (Some src) (Some dst))))"

definition k64_fs_copy :: "cstr \<Rightarrow> cstr \<Rightarrow> ('h, unit) fsop" where
  "k64_fs_copy src_path dst_path =
     bind (normalized src_path) (\<lambda>src.
     bind (normalized dst_path) (\<lambda>dst.
     bind (on_root (k64_xfs_stat (Some src))) (\<lambda>st.
     bind (read_whole src st) (\<lambda>d.
     on_root (k64_xfs_write_file (Some dst) d (st_uid st) (st_gid st))))))"

definition k64_fs_cat :: "cstr \<Rightarrow> nat \<Rightarrow> ('h, bytes) fsop" where
  "k64_fs_cat path out_size = guard (out_size > 0) (k64_fs_read_file_range path 0 (out_size - 1))"

definition k64_fs_read_file_raw :: "cstr \<Rightarrow> ('h, bytes) fsop" where
  "k64_fs_read_file_raw path =
     bind (normalized path) (\<lambda>full.
     bind (on_root (k64_xfs_stat (Some full))) (\<lambda>st.
     read_whole full st))"

definition k64_fs_stat_op :: "cstr \<Rightarrow> ('h, k64_fs_stat) fsop" where
  "k64_fs_stat_op path =
     bind (normalized (path_or_dot path)) (\<lambda>full.
     if fs_is_pseudo_path (Some full)
     then (case fs_pseudo_stat full of None \<Rightarrow> fail | Some st \<Rightarrow> ret st)
     else on_root (k64_xfs_stat (Some full)))"

definition k64_fs_find_boot_kernel :: "nat \<Rightarrow> ('h, string) fsop" where
  "k64_fs_find_boot_kernel out_size =
     guard (out_size > 0)
       (bind (on_root (k64_xfs_list_dir (Some ''/boot'') 4096)) (\<lambda>listing.
        case find (\<lambda>name. fs_name_has_prefix (Some name) (Some ''k64-kernel-v'') \<and> fs_path_has_suffix name ''.elf'')
               (listing_names (takeWhile (\<lambda>c. c \<noteq> CHR 0x00) listing)) of
          None \<Rightarrow> fail
        | Some name \<Rightarrow> ret (fs_copy [] out_size (Some name))))"

definition k64_fs_sync :: "('h, unit) fsop" where
  "k64_fs_sync s = (if \<not> mounted (rootfs s) then (Ok (), s) else on_root k64_xfs_sync s)"

section \<open>Mounting the root\<close>

text \<open>The multiboot information as far as it is read: each module with its name and its bytes.\<close>

record boot_modules =
  bm_magic :: u32
  bm_flags :: u32
  bm_mods :: "(cstr \<times> bytes) list"

definition fs_mount_device :: "'h world k64_block_device option \<Rightarrow> cstr \<Rightarrow> bool \<Rightarrow> ('h, unit) fsop" where
  "fs_mount_device device name persistent =
     (case device of
        None \<Rightarrow> fail
      | Some dev \<Rightarrow>
          bind (on_root (k64_xfs_mount_op device)) (\<lambda>_.
          modify (\<lambda>s. s\<lparr>fs_persistent := persistent,
            fs_mount_name := fs_copy (fs_mount_name s) 48 (case name of None \<Rightarrow> Some (bd_name dev) | Some n \<Rightarrow> Some n),
            fs_cwd := fs_copy (fs_cwd s) 256 (Some ''/'')\<rparr>)))"

text \<open>The registry operation of the block layer on the state of this file.\<close>

definition register_device :: "cstr \<Rightarrow> cstr \<Rightarrow> u64 \<Rightarrow> nat \<Rightarrow> ('h, 'h world k64_block_device option) fsop" where
  "register_device name source bcount ctx s =
     (case k64_block_register_device name source (ucast K64_ROOTFS_BLOCK_SIZE) bcount True ctx (Some mem_read) (Some mem_write)
         \<lparr>block_devices = fs_devices s, next_block_id = fs_next_id s, drivers = drv (rootfs s)\<rparr> of
       (dev, reg) \<Rightarrow> (Ok (map_option (\<lambda>i. block_devices reg ! i) dev),
          s\<lparr>fs_devices := block_devices reg, fs_next_id := next_block_id reg\<rparr>))"

definition set_memory :: "nat \<Rightarrow> bytes \<Rightarrow> ('h, unit) fsop" where
  "set_memory ctx mem = on_root (modify (\<lambda>fs. fs\<lparr>drv := ((fst (drv fs))(ctx := Some mem), snd (drv fs))\<rparr>))"

fun mount_first :: "'h world k64_block_device list \<Rightarrow> ('h, unit) fsop" where
  "mount_first [] = fail"
| "mount_first (dev # devs) =
     (if online dev \<and> bd_read dev \<noteq> None
      then orelse (fs_mount_device (Some dev) (Some (bd_name dev)) (writable dev)) (mount_first devs)
      else mount_first devs)"

definition fs_mount_from_blocks :: "('h, unit) fsop" where
  "fs_mount_from_blocks s = mount_first (fs_devices s) s"

fun mount_modules :: "(cstr \<times> bytes) list \<Rightarrow> ('h, unit) fsop" where
  "mount_modules [] = fail"
| "mount_modules (m # ms) =
     (let n = length (snd m) in
      if (case fst m of None \<Rightarrow> True | Some name \<Rightarrow> \<not> fs_path_has_suffix name ''.xfs'') \<or> n < K64_XFS_BLOCK_SIZE \<or>
         n mod unat K64_ROOTFS_BLOCK_SIZE \<noteq> 0
      then mount_modules ms
      else
        bind (set_memory fs_module_memdev (snd m)) (\<lambda>_.
        bind (register_device (Some ''rootmod'') (Some ''multiboot'') (of_nat n div K64_ROOTFS_BLOCK_SIZE) fs_module_memdev) (\<lambda>dev.
        orelse (fs_mount_device dev (Some ''multiboot:root.xfs'') False) (mount_modules ms))))"

definition fs_mount_from_multiboot :: "boot_modules \<Rightarrow> ('h, unit) fsop" where
  "fs_mount_from_multiboot boot =
     guard (\<not> bm_magic boot \<noteq> 0x2BADB002)
       (guard (\<not> (\<not> bit (bm_flags boot) 3 \<or> bm_mods boot = [])) (mount_modules (bm_mods boot)))"

definition fs_mount_fallback :: "('h, unit) fsop" where
  "fs_mount_fallback =
     bind (register_device (Some ''memxfs'') (Some ''memory'')
        (of_nat K64_ROOTFS_FALLBACK_BYTES div K64_ROOTFS_BLOCK_SIZE) fs_fallback_memdev) (\<lambda>dev.
     guard (dev \<noteq> None)
       (bind (on_root (k64_xfs_format dev (Some ''memroot''))) (\<lambda>_.
        bind (fs_mount_device dev (Some ''memory:xfs'') False) (\<lambda>_.
        bind (attempt (k64_fs_mkdir_p (Some ''/home/root''))) (\<lambda>_.
        bind (attempt (k64_fs_mkdir_p (Some ''/etc''))) (\<lambda>_.
        bind (attempt (k64_fs_write_file (Some ''/README'') (Some ''K64 in-memory K64XFS filesystem''))) (\<lambda>_.
        bind (attempt (k64_fs_write_file (Some ''/etc/motd'') (Some ''welcome to K64''))) (\<lambda>_.
        ret ()))))))))"

definition k64_fs_driver_start :: "boot_modules \<Rightarrow> ('h, unit) fsop" where
  "k64_fs_driver_start boot =
     bind (modify (\<lambda>s. s\<lparr>fs_running := True, fs_persistent := False, fs_mount_name := [],
       fs_cwd := fs_copy (fs_cwd s) 256 (Some ''/'')\<rparr>)) (\<lambda>_.
     orelse (orelse (orelse fs_mount_from_blocks (fs_mount_from_multiboot boot)) fs_mount_fallback)
       (bind (modify (\<lambda>s. s\<lparr>fs_running := False\<rparr>)) (\<lambda>_. fail)))"

definition k64_fs_driver_stop :: "('h, unit) fsop" where
  "k64_fs_driver_stop = bind (attempt k64_fs_sync) (\<lambda>_. modify (\<lambda>s. s\<lparr>fs_running := False\<rparr>))"

definition k64_fs_driver_running :: "'h filesystem \<Rightarrow> bool" where
  "k64_fs_driver_running s \<longleftrightarrow> fs_running s \<and> mounted (rootfs s)"

definition k64_fs_mount_source :: "nat \<Rightarrow> ('h, string) fsop" where
  "k64_fs_mount_source out_size s =
     guard (out_size > 0)
       (ret (fs_copy [] out_size (Some (if fs_mount_name s \<noteq> [] then fs_mount_name s else ''unknown'')))) s"

definition k64_fs_grow_root :: "'h filesystem \<Rightarrow> bool" where
  "k64_fs_grow_root s \<longleftrightarrow> mounted (rootfs s) \<and> fs_persistent s"

definition k64_fs_used_bytes :: "'h filesystem \<Rightarrow> u64" where
  "k64_fs_used_bytes s =
     (if \<not> mounted (rootfs s) then 0
      else (sb_total_blocks (super (rootfs s)) - sb_free_blocks (super (rootfs s))) * of_nat K64_XFS_BLOCK_SIZE)"

definition k64_fs_capacity_bytes :: "'h filesystem \<Rightarrow> u64" where
  "k64_fs_capacity_bytes s =
     (if \<not> mounted (rootfs s) then 0 else sb_total_blocks (super (rootfs s)) * of_nat K64_XFS_BLOCK_SIZE)"

section \<open>Installation\<close>

text \<open>The copy loop, 32768 sectors at a time; the list holds the first sector of each step.\<close>

fun copy_chunks :: "'h world k64_block_device \<Rightarrow> 'h world k64_block_device \<Rightarrow> nat \<Rightarrow> nat list \<Rightarrow> ('h, unit) fsop" where
  "copy_chunks src dst chunk_blocks [] = ret ()"
| "copy_chunks src dst chunk_blocks (lba # lbas) =
     (let count = of_nat (min chunk_blocks (unat (block_count src) - lba)) in
      bind (on_root (lift_drv (k64_block_read (Some src) (of_nat lba) count))) (\<lambda>d.
      bind (on_root (lift_drv (k64_block_write (Some dst) (of_nat lba) count d))) (\<lambda>_.
      copy_chunks src dst chunk_blocks lbas)))"

definition fs_copy_root_to_device :: "'h world k64_block_device option \<Rightarrow> ('h, unit) fsop" where
  "fs_copy_root_to_device device s =
     (let src = m_dev (rootfs s); chunk_blocks = K64_ROOTFS_RAW_MAX div unat K64_ROOTFS_BLOCK_SIZE in
      case device of
        None \<Rightarrow> (Fail, s)
      | Some dst \<Rightarrow>
        guard (\<not> (\<not> mounted (rootfs s) \<or> \<not> writable dst \<or> block_size src \<noteq> ucast K64_ROOTFS_BLOCK_SIZE \<or>
                  block_size dst \<noteq> ucast K64_ROOTFS_BLOCK_SIZE \<or> block_count src = 0 \<or>
                  block_count src > block_count dst \<or> chunk_blocks = 0))
          (bind (on_root k64_xfs_sync) (\<lambda>_.
           copy_chunks src dst chunk_blocks
             (map (\<lambda>i. i * chunk_blocks) [0..<(unat (block_count src) + chunk_blocks - 1) div chunk_blocks]))) s)"

text \<open>The boot area with the partition table the installer puts into it.\<close>

definition boot_area_with_table :: "u32 \<Rightarrow> bytes \<Rightarrow> bytes" where
  "boot_area_with_table part_sectors area =
     put_at 458 (le_enc 4 part_sectors)
       (put_at 454 (le_enc 4 (ucast K64_ROOTFS_PARTITION_LBA :: u32))
         ((put_at 446 (replicate 64 0) area)[446 := 0x80, 450 := 0x83]))"

definition k64_fs_install_to_block_device :: "cstr \<Rightarrow> ('h, unit) fsop" where
  "k64_fs_install_to_block_device device_name s =
     guard (device_name \<noteq> None \<and> device_name \<noteq> Some [])
       (case find (\<lambda>d. k64_streq (Some (bd_name d)) device_name) (fs_devices s) of
          None \<Rightarrow> fail
        | Some dev \<Rightarrow>
          guard (\<not> (is_partition dev \<or> \<not> online dev \<or> \<not> writable dev \<or> block_size dev \<noteq> ucast K64_ROOTFS_BLOCK_SIZE \<or>
                    block_count dev \<le> K64_ROOTFS_PARTITION_LBA))
         (bind (k64_fs_read_file_raw (Some ''/boot/grub/k64-boot-area.bin'')) (\<lambda>boot_area.
          guard (\<not> (length boot_area \<noteq> unat K64_ROOTFS_BOOT_AREA_SECTORS * unat K64_ROOTFS_BLOCK_SIZE \<or>
                    boot_area ! 510 \<noteq> 0x55 \<or> boot_area ! 511 \<noteq> 0xAA))
         (bind (on_root (lift_drv (k64_block_write (Some dev) 0 K64_ROOTFS_BOOT_AREA_SECTORS
                 (boot_area_with_table (ucast (block_count dev - K64_ROOTFS_PARTITION_LBA)) boot_area)))) (\<lambda>_.
          bind (get rootfs) (\<lambda>root.
          if mounted root \<and> bd_context (m_dev root) = bd_context dev \<and> start_lba (m_dev root) = K64_ROOTFS_PARTITION_LBA
          then on_root k64_xfs_sync
          else fs_copy_root_to_device (Some (dev\<lparr>start_lba := K64_ROOTFS_PARTITION_LBA,
                 block_count := block_count dev - K64_ROOTFS_PARTITION_LBA, is_partition := True\<rparr>)))))))) s"

section \<open>Normalisation\<close>

text \<open>\<open>join_components\<close> is the absolute path with the given components.\<close>

definition join_components :: "string list \<Rightarrow> string" where
  "join_components ts = (if ts = [] then ''/'' else concat (map (\<lambda>t. CHR ''/'' # t) ts))"

lemma join_components_snoc:
  "ts \<noteq> [] \<Longrightarrow> join_components (ts @ [t]) = join_components ts @ ''/'' @ t" "join_components [t] = ''/'' @ t"
  by (simp_all add: join_components_def)

lemma length_join_components: "length (join_components ts) = (if ts = [] then 1 else sum_list (map (\<lambda>t. Suc (length t)) ts))"
  by (simp add: join_components_def length_concat comp_def)

lemma path_tokens_ok: "t \<in> set (path_tokens p) \<Longrightarrow> set t \<subseteq> set p \<and> CHR ''/'' \<notin> set t \<and> length t \<le> length p"
proof (induction p arbitrary: t rule: path_tokens.induct)
  case (1 p)
  let ?r = "dropWhile (\<lambda>c. c = CHR ''/'') (dropWhile (\<lambda>c. c \<noteq> CHR ''/'') p)"
  have p: "p \<noteq> []" using 1(2) by (auto simp: path_tokens.simps)
  have sub: "set ?r \<subseteq> set p" by (meson set_dropWhileD subsetI)
  consider "t = takeWhile (\<lambda>c. c \<noteq> CHR ''/'') p" | "t \<in> set (path_tokens ?r)"
    using 1(2) p by (subst (asm) path_tokens.simps) auto
  then show ?case
  proof cases
    case 1
    then show ?thesis by (auto dest: set_takeWhileD simp: length_takeWhile_le)
  next
    case 2
    have "length ?r \<le> length p" by (meson length_dropWhile_le order_trans)
    then show ?thesis using "1.IH" [OF p 2] sub by force
  qed
qed

lemma path_tokens_nonempty: "p = [] \<or> p ! 0 \<noteq> CHR ''/'' \<Longrightarrow> [] \<notin> set (path_tokens p)"
proof (induction p rule: path_tokens.induct)
  case (1 p)
  let ?r = "dropWhile (\<lambda>c. c = CHR ''/'') (dropWhile (\<lambda>c. c \<noteq> CHR ''/'') p)"
  show ?case
  proof (cases "p = []")
    case True
    then show ?thesis by (simp add: path_tokens.simps)
  next
    case False
    have "?r = [] \<or> ?r ! 0 \<noteq> CHR ''/''" using hd_dropWhile [of "\<lambda>c. c = CHR ''/''" "dropWhile (\<lambda>c. c \<noteq> CHR ''/'') p"]
      by (metis hd_conv_nth)
    then have "[] \<notin> set (path_tokens ?r)" by (rule "1.IH" [OF False])
    moreover have "takeWhile (\<lambda>c. c \<noteq> CHR ''/'') p \<noteq> []" using False 1(2) by (cases p) auto
    ultimately show ?thesis using False by (subst path_tokens.simps) auto
  qed
qed

lemma add_component_join:
  assumes "t \<noteq> []" and "[] \<notin> set ts" and "2 \<le> n"
  shows "add_component n t (join_components ts) =
    (if length (join_components (ts @ [t])) < n then Some (join_components (ts @ [t])) else None)"
proof (cases "ts = []")
  case True
  then show ?thesis using assms by (auto simp: add_component_def join_components_def Let_def)
next
  case False
  then obtain u us where "ts = u # us" by (cases ts) auto
  then have "1 < length (join_components ts)" using assms(2) by (cases u) (auto simp: join_components_def)
  moreover have "0 < length t" using assms(1) by simp
  ultimately show ?thesis using assms False by (auto simp: add_component_def join_components_snoc Let_def not_le)
qed

lemma join_components_mono: "length (join_components ts) \<le> length (join_components (ts @ us))"
  by (cases us) (auto simp: length_join_components)

lemma normalize_tokens_join:
  assumes "2 \<le> n" and "\<forall>t\<in>set ts. t \<noteq> [] \<and> c_string t" and "''..'' \<notin> set ts" and "[] \<notin> set us"
    and "length (join_components us) < n"
  shows "normalize_tokens n ts (join_components us) =
    (let r = join_components (us @ filter (\<lambda>t. t \<noteq> ''.'') ts) in
     if (\<forall>t\<in>set ts. length t < 128) \<and> length r < n then Some r else None)"
  using assms(2-)
proof (induction ts arbitrary: us)
  case Nil
  then show ?case by (simp add: Let_def)
next
  case (Cons t ts)
  have eq: "k64_streq (Some t) (Some ''.'') = (t = ''.'')" "k64_streq (Some t) (Some ''..'') = (t = ''..'')"
    using Cons.prems(1) by (simp_all add: c_string_def)
  have t: "t \<noteq> []" "t \<noteq> ''..''" using Cons.prems by auto
  show ?case
  proof (cases "t = ''.''")
    case True
    then show ?thesis using Cons.IH [of us] Cons.prems eq by (simp add: Let_def)
  next
    case False
    let ?us = "us @ [t]"
    show ?thesis
    proof (cases "length t < 128 \<and> length (join_components ?us) < n")
      case True
      then have "normalize_tokens n (t # ts) (join_components us) = normalize_tokens n ts (join_components ?us)"
        using add_component_join [OF t(1) Cons.prems(3) assms(1)] eq t False by simp
      then show ?thesis using Cons.IH [of ?us] Cons.prems True t False by (simp add: Let_def)
    next
      case no: False
      then have "normalize_tokens n (t # ts) (join_components us) = None"
        using add_component_join [OF t(1) Cons.prems(3) assms(1)] eq t False by auto
      moreover have "length (join_components ?us) \<le> length (join_components (us @ filter (\<lambda>t. t \<noteq> ''.'') (t # ts)))"
        using join_components_mono [of ?us "filter (\<lambda>t. t \<noteq> ''.'') ts"] False by simp
      ultimately show ?thesis using no by (auto simp: Let_def)
    qed
  qed
qed

lemma c_string_full_path: "c_string cwd \<Longrightarrow> c_string (str_of path) \<Longrightarrow> CHR 0x00 \<notin> set (fs_full_path cwd path)"
  by (auto simp: fs_full_path_def c_string_def fs_copy_def fs_append_def Let_def dest: in_set_takeD split: option.splits)

lemma length_full_path: "length (fs_full_path cwd path) < 256"
  by (auto simp: fs_full_path_def fs_copy_def fs_append_def Let_def min_def split: option.splits)

text \<open>The components of the full path.\<close>

abbreviation full_tokens :: "string \<Rightarrow> cstr \<Rightarrow> string list" where
  "full_tokens cwd path \<equiv> path_tokens (dropWhile (\<lambda>c. c = CHR ''/'') (fs_full_path cwd path))"

lemma full_tokens_ok:
  assumes "c_string cwd" and "c_string (str_of path)"
  shows "\<forall>t\<in>set (full_tokens cwd path). t \<noteq> [] \<and> c_string t"
proof
  fix t assume t: "t \<in> set (full_tokens cwd path)"
  let ?p = "dropWhile (\<lambda>c. c = CHR ''/'') (fs_full_path cwd path)"
  have "?p = [] \<or> ?p ! 0 \<noteq> CHR ''/''" 
    using hd_dropWhile [of "\<lambda>c. c = CHR ''/''" "fs_full_path cwd path"] hd_conv_nth [of ?p] by (cases "?p = []") simp_all
  then have "[] \<notin> set (full_tokens cwd path)" by (rule path_tokens_nonempty)
  then have "t \<noteq> []" using t by blast
  moreover have "CHR 0x00 \<notin> set t" using path_tokens_ok [OF t] c_string_full_path [OF assms] by (meson set_dropWhileD subsetD)
  moreover have "length t < 2 ^ 31"
    using path_tokens_ok [OF t] length_full_path [of cwd path]
      length_dropWhile_le [of "\<lambda>c. c = CHR ''/''" "fs_full_path cwd path"] by simp
  ultimately show "t \<noteq> [] \<and> c_string t" by (simp add: c_string_def)
qed

lemma back_to_slash_le: "back_to_slash out n \<le> n" "0 < n \<Longrightarrow> 0 < back_to_slash out n"
  by (induction n) auto

lemma normalize_tokens_bounded:
  assumes "normalize_tokens n ts out = Some r" and "2 \<le> n" and "0 < length out" and "length out < n" and "out ! 0 = CHR ''/''"
  shows "length r < n \<and> r \<noteq> [] \<and> r ! 0 = CHR ''/''"
  using assms(1,3-)
proof (induction n ts out rule: normalize_tokens.induct)
  case (1 n out)
  then show ?case by auto
next
  case (2 n t ts out)
  let ?d = "drop_component out"
  have d: "0 < length ?d" "length ?d < n" "?d ! 0 = CHR ''/''"
  proof -
    have "0 < back_to_slash out (length out - 1)" "back_to_slash out (length out - 1) < n" if "1 < length out"
      using back_to_slash_le(1) [of out "length out - 1"] back_to_slash_le(2) [of "length out - 1" out] that "2.prems" by auto
    then show "0 < length ?d" "length ?d < n" "?d ! 0 = CHR ''/''"
      using "2.prems" by (auto simp: drop_component_def)
  qed
  have a: "0 < length o'" "length o' < n" "o' ! 0 = CHR ''/''" if "add_component n t out = Some o'" for o'
    using that "2.prems" by (auto simp: add_component_def Let_def nth_append split: if_splits)
  show ?case
    using "2.prems"(1) "2.IH" d a "2.prems" by (auto split: if_splits option.splits)
qed

section \<open>Properties\<close>

text \<open>C14: a path that is normalised into a buffer of at least two bytes is absolute and leaves room for the
  terminator, whatever the working directory and the given path are, \<open>..\<close> and empty components included.\<close>

theorem normalize_in_bounds:
  assumes "2 \<le> n" and "fs_normalize cwd path n = Some out"
  shows "length out < n \<and> out \<noteq> [] \<and> out ! 0 = CHR ''/''"
  using assms normalize_tokens_bounded [of n _ "''/''" out] by (auto simp: fs_normalize_def split: if_splits)

theorem normalize_in_bounds_witness:
  "length (the (fs_normalize ''/home'' (Some ''../etc//motd'') 256)) < 256"
proof -
  have "fs_normalize ''/home'' (Some ''../etc//motd'') 256 \<noteq> None" by code_simp
  then obtain out where out: "fs_normalize ''/home'' (Some ''../etc//motd'') 256 = Some out" by blast
  show ?thesis using normalize_in_bounds [OF _ out] out by simp
qed

text \<open>For paths without \<open>..\<close> normalisation is what it is meant to be: the result is the absolute path of
  the components of the working directory (when the path is relative) and the path, without the \<open>.\<close>
  components and with single slashes, provided no component is longer than 127 characters and the
  result fits; otherwise it fails.\<close>

theorem normalize_joins_components:
  assumes "2 \<le> n" and "c_string cwd" and "c_string (str_of path)"
    and ts: "ts = path_tokens (dropWhile (\<lambda>c. c = CHR ''/'') (fs_full_path cwd path))" and "''..'' \<notin> set ts"
  shows "fs_normalize cwd path n =
    (let r = join_components (filter (\<lambda>t. t \<noteq> ''.'') ts) in
     if (\<forall>t\<in>set ts. length t < 128) \<and> length r < n then Some r else None)"
  using normalize_tokens_join [OF assms(1) full_tokens_ok [OF assms(2,3)], of "[]"] assms(1,5)
  by (simp add: fs_normalize_def ts join_components_def)

theorem normalize_joins_components_witness:
  "fs_normalize ''/home'' (Some ''root/./notes//a'') 256 = Some ''/home/root/notes/a''"
proof -
  have toks: "full_tokens ''/home'' (Some ''root/./notes//a'') = [''home'', ''root'', ''.'', ''notes'', ''a'']" by code_simp
  show ?thesis
    using normalize_joins_components [of 256 "''/home''" "Some ''root/./notes//a''"] toks
    by (simp add: c_string_def join_components_def)
qed

text \<open>
  With \<open>..\<close> this is no longer so: dropping a component leaves the slash before it, the next component
  is put after a second slash, and a later \<open>..\<close> drops the empty component between the two.
\<close>

lemma normalize_dotdot_lost: "fs_normalize ''/'' (Some ''/a/b/../c/../..'') 256 = Some ''/a/''"
  by code_simp

end
