(* ===== verification/Klcs.thy ===== *)
theory Klcs
  imports Fs
begin

text \<open>
  The Linux compatibility service, \<^verbatim>\<open>src/k64_klcs.c\<close>: the table of system calls, the trace ring, the
  descriptor table, the translation of Linux paths, the validation of ELF files and the dispatcher.

  The state is the static \<^verbatim>\<open>klcs\<close>. Signed C integers are \<open>int\<close>, the conversions between widths
  are written out. The memory the dispatcher's \<^verbatim>\<open>write\<close> reads is a parameter and its output goes to
  \<open>term_out\<close>; the copies of the trace on the serial line are left out.
\<close>

section \<open>State\<close>

definition KLCS_LINUX_ENOENT :: int where "KLCS_LINUX_ENOENT = 2"
definition KLCS_LINUX_EBADF :: int where "KLCS_LINUX_EBADF = 9"
definition KLCS_LINUX_ENOMEM :: int where "KLCS_LINUX_ENOMEM = 12"
definition KLCS_LINUX_EACCES :: int where "KLCS_LINUX_EACCES = 13"
definition KLCS_LINUX_EFAULT :: int where "KLCS_LINUX_EFAULT = 14"
definition KLCS_LINUX_EINVAL :: int where "KLCS_LINUX_EINVAL = 22"
definition KLCS_LINUX_EMFILE :: int where "KLCS_LINUX_EMFILE = 24"
definition KLCS_LINUX_ENOSYS :: int where "KLCS_LINUX_ENOSYS = 38"
definition KLCS_PATH_MAX :: nat where "KLCS_PATH_MAX = 256"
definition KLCS_TRACE_LINES :: nat where "KLCS_TRACE_LINES = 16"
definition KLCS_LINUX_FD_MAX :: int where "KLCS_LINUX_FD_MAX = 32"

definition K64_ERR_INVAL :: int where "K64_ERR_INVAL = - 1"
definition K64_ERR_NOENT :: int where "K64_ERR_NOENT = - 2"
definition K64_ERR_ACCESS :: int where "K64_ERR_ACCESS = - 3"
definition K64_ERR_NOMEM :: int where "K64_ERR_NOMEM = - 4"
definition K64_ERR_FAULT :: int where "K64_ERR_FAULT = - 5"
definition K64_ERR_NOSYS :: int where "K64_ERR_NOSYS = - 8"
definition K64_ERR_BADFD :: int where "K64_ERR_BADFD = - 11"

datatype klcs_fd_kind = KLCS_FD_EMPTY | KLCS_FD_STDIN | KLCS_FD_STDOUT | KLCS_FD_STDERR | KLCS_FD_FILE
  | KLCS_FD_DIR | KLCS_FD_DEV_NULL | KLCS_FD_DEV_ZERO

record klcs_fd =
  fd_used :: bool
  fd_kind :: klcs_fd_kind
  fd_native :: int
  fd_cloexec :: bool
  fd_offset :: u64
  fd_flags :: u64
  fd_path :: string

record klcs_linux_syscall_frame =
  fr_nr :: u64
  fr_arg0 :: u64
  fr_arg1 :: u64
  fr_arg2 :: u64
  fr_arg3 :: u64
  fr_arg4 :: u64
  fr_arg5 :: u64
  fr_rip :: u64
  fr_rsp :: u64
  fr_pid :: u64
  fr_tid :: u64

record klcs_state =
  total_syscalls :: u64
  unsupported_syscalls :: u64
  trace_enabled :: bool
  last_trace :: "string list"
  next_trace :: u32
  fds :: "klcs_fd list"
  term_out :: string


definition empty_fd :: klcs_fd where
  "empty_fd = \<lparr>fd_used = False, fd_kind = KLCS_FD_EMPTY, fd_native = 0, fd_cloexec = False, fd_offset = 0,
     fd_flags = 0, fd_path = []\<rparr>"

definition syscall_table :: "(u64 \<times> string \<times> bool) list" where
  "syscall_table = [
     (0, ''read'', True), (1, ''write'', True), (2, ''open'', True), (3, ''close'', True),
     (5, ''fstat'', True), (7, ''poll'', True), (8, ''lseek'', True), (9, ''mmap'', True),
     (10, ''mprotect'', True), (11, ''munmap'', True), (12, ''brk'', True), (13, ''rt_sigaction'', True),
     (14, ''rt_sigprocmask'', True), (16, ''ioctl'', True), (17, ''pread64'', True), (18, ''pwrite64'', True),
     (20, ''writev'', True), (21, ''access'', True), (23, ''select'', True), (25, ''mremap'', True),
     (35, ''nanosleep'', True), (39, ''getpid'', True), (60, ''exit'', True), (63, ''uname'', True),
     (72, ''fcntl'', True), (79, ''getcwd'', True), (82, ''rename'', True), (83, ''mkdir'', True),
     (84, ''rmdir'', True), (77, ''ftruncate'', True), (87, ''unlink'', True), (89, ''readlink'', True),
     (90, ''chmod'', True), (91, ''fchmod'', True), (95, ''umask'', True), (102, ''getuid'', True),
     (104, ''getgid'', True), (107, ''geteuid'', True), (108, ''getegid'', True), (109, ''setpgid'', True),
     (110, ''getppid'', True), (111, ''getpgrp'', True), (112, ''setsid'', True), (121, ''getpgid'', True),
     (131, ''sigaltstack'', True), (158, ''arch_prctl'', True), (186, ''gettid'', True), (202, ''futex'', True),
     (217, ''getdents64'', True), (218, ''set_tid_address'', True), (228, ''clock_gettime'', True), (230, ''clock_nanosleep'', True),
     (231, ''exit_group'', True), (257, ''openat'', True), (258, ''mkdirat'', True), (262, ''newfstatat'', True),
     (264, ''unlinkat'', True), (267, ''readlinkat'', True), (269, ''faccessat'', True), (271, ''ppoll'', True),
     (273, ''set_robust_list'', True), (280, ''utimensat'', True), (302, ''prlimit64'', True), (316, ''renameat2'', True),
     (318, ''getrandom'', True), (332, ''statx'', True), (334, ''rseq'', True)]"

section \<open>Text\<close>

definition klcs_copy :: "string \<Rightarrow> nat \<Rightarrow> cstr \<Rightarrow> string" where
  "klcs_copy dst dst_size src = str_copy dst dst_size src"

definition klcs_append :: "string \<Rightarrow> nat \<Rightarrow> cstr \<Rightarrow> string" where
  "klcs_append dst dst_size src =
     (if dst_size = 0 then dst else str_append (take (dst_size - 1) dst) dst_size src)"

definition klcs_append_u64 :: "string \<Rightarrow> nat \<Rightarrow> u64 \<Rightarrow> string" where
  "klcs_append_u64 dst dst_size val =
     (if val = 0 then klcs_append dst dst_size (Some ''0'')
      else fold (\<lambda>c d. klcs_append d dst_size (Some [c])) (rev (digits_rev (unat val))) dst)"

definition append_all :: "nat \<Rightarrow> string list \<Rightarrow> string \<Rightarrow> string" where
  "append_all dst_size ts dst = fold (\<lambda>t d. klcs_append d dst_size (Some t)) ts dst"




section \<open>Descriptors\<close>

definition klcs_fd_alloc :: "klcs_fd_kind \<Rightarrow> cstr \<Rightarrow> int \<Rightarrow> klcs_state \<Rightarrow> int \<times> klcs_state" where
  "klcs_fd_alloc kind path native_fd s =
     (let start = (if native_fd \<ge> 0 \<and> native_fd < 3 then native_fd else 3) in
      case find (\<lambda>i. \<not> fd_used (fds s ! i)) [nat start..<nat KLCS_LINUX_FD_MAX] of
        Some i \<Rightarrow> (int i, s\<lparr>fds := (fds s)[i := \<lparr>fd_used = True, fd_kind = kind, fd_native = native_fd, fd_cloexec = False,
            fd_offset = 0, fd_flags = 0,
            fd_path = klcs_copy [] KLCS_PATH_MAX (case path of None \<Rightarrow> Some [] | Some p \<Rightarrow> Some p)\<rparr>]\<rparr>)
      | None \<Rightarrow> (- KLCS_LINUX_EMFILE, s))"

definition klcs_fd_close :: "int \<Rightarrow> klcs_state \<Rightarrow> bool \<times> klcs_state" where
  "klcs_fd_close fd s =
     (if fd < 0 \<or> fd \<ge> KLCS_LINUX_FD_MAX \<or> fd < 3 \<or> \<not> fd_used (fds s ! nat fd) then (False, s)
      else (True, s\<lparr>fds := (fds s)[nat fd := empty_fd]\<rparr>))"

definition klcs_init :: "klcs_state \<Rightarrow> klcs_state" where
  "klcs_init s =
     (let s = \<lparr>total_syscalls = 0, unsupported_syscalls = 0, trace_enabled = False,
            last_trace = replicate KLCS_TRACE_LINES [], next_trace = 0,
            fds = replicate (nat KLCS_LINUX_FD_MAX) empty_fd, term_out = term_out s\<rparr>;
          s = snd (klcs_fd_alloc KLCS_FD_STDIN (Some ''stdin'') 0 s);
          s = snd (klcs_fd_alloc KLCS_FD_STDOUT (Some ''stdout'') 1 s)
      in snd (klcs_fd_alloc KLCS_FD_STDERR (Some ''stderr'') 2 s))"

section \<open>System calls and trace\<close>

definition klcs_trace_set :: "bool \<Rightarrow> klcs_state \<Rightarrow> klcs_state" where
  "klcs_trace_set enabled s = s\<lparr>trace_enabled := enabled\<rparr>"

definition klcs_syscall_name :: "u64 \<Rightarrow> string" where
  "klcs_syscall_name nr = (case find (\<lambda>e. fst e = nr) syscall_table of Some (_, name, _) \<Rightarrow> name | None \<Rightarrow> ''unknown'')"

definition klcs_syscall_supported :: "u64 \<Rightarrow> bool" where
  "klcs_syscall_supported nr = (case find (\<lambda>e. fst e = nr) syscall_table of Some (_, _, impl) \<Rightarrow> impl | None \<Rightarrow> False)"

definition trace_line :: "u64 \<Rightarrow> u64 \<Rightarrow> cstr \<Rightarrow> int \<Rightarrow> string" where
  "trace_line pid nr name result =
     (let line = klcs_append [] 96 (Some ''[klcs] pid='');
          line = klcs_append_u64 line 96 pid;
          line = append_all 96 ['' '', case name of None \<Rightarrow> ''unknown'' | Some n \<Rightarrow> n, ''(''] line;
          line = klcs_append_u64 line 96 nr;
          line = klcs_append line 96 (Some '') -> '')
      in if result < 0
         then klcs_append_u64 (klcs_append line 96 (Some ''-'')) 96 (of_int (- result))
         else klcs_append_u64 line 96 (of_int result))"

definition klcs_trace_record :: "u64 \<Rightarrow> u64 \<Rightarrow> cstr \<Rightarrow> int \<Rightarrow> klcs_state \<Rightarrow> klcs_state" where
  "klcs_trace_record pid nr name result s =
     (if \<not> trace_enabled s then s
      else
        let slot = unat (next_trace s) mod KLCS_TRACE_LINES in
        s\<lparr>next_trace := next_trace s + 1, last_trace := (last_trace s)[slot := trace_line pid nr name result]\<rparr>)"

definition klcs_trace_record_args :: "u64 \<Rightarrow> u64 \<Rightarrow> cstr \<Rightarrow> u64 \<Rightarrow> u64 \<Rightarrow> u64 \<Rightarrow> int \<Rightarrow> klcs_state \<Rightarrow> klcs_state" where
  "klcs_trace_record_args pid nr name arg0 arg1 arg2 result s = klcs_trace_record pid nr name result s"

definition klcs_status :: "nat \<Rightarrow> klcs_state \<Rightarrow> string" where
  "klcs_status out_size s =
     (let out = append_all out_size [''KLCS: running'' @ newline, ''personality: linux-x86_64'' @ newline,
            ''ELF64 loader: validation enabled'' @ newline, ''syscall routing: service table enabled'' @ newline,
            ''filesystem bridge: foundation'' @ newline, ''memory bridge: mmap/brk foundation'' @ newline,
            ''process bridge: partial'' @ newline, ''trace: '',
            if trace_enabled s then ''on'' @ newline else ''off'' @ newline, ''total syscalls: ''] [];
          out = klcs_append_u64 out out_size (total_syscalls s);
          out = klcs_append out out_size (Some (newline @ ''unsupported syscalls: ''));
          out = klcs_append_u64 out out_size (unsupported_syscalls s)
      in klcs_append out out_size (Some newline))"

definition klcs_syscalls :: "nat \<Rightarrow> string" where
  "klcs_syscalls out_size =
     fold (\<lambda>(nr, name, impl) out. append_all out_size ['' '', name, if impl then '' implemented'' @ newline else '' planned'' @ newline]
       (klcs_append_u64 out out_size nr)) syscall_table []"

definition klcs_trace_dump :: "nat \<Rightarrow> klcs_state \<Rightarrow> string" where
  "klcs_trace_dump out_size s =
     (let out = fold (\<lambda>i out.
            let line = last_trace s ! (unat (next_trace s + of_nat i) mod KLCS_TRACE_LINES) in
            if line \<noteq> [] then append_all out_size [line, newline] out else out) [0..<KLCS_TRACE_LINES] []
      in if out = [] then klcs_append out out_size (Some (''KLCS trace: empty'' @ newline)) else out)"

definition klcs_linux_errno_from_k64 :: "int \<Rightarrow> int" where
  "klcs_linux_errno_from_k64 k64_status =
     (if k64_status \<ge> 0 then k64_status
      else if k64_status = K64_ERR_NOENT then - KLCS_LINUX_ENOENT
      else if k64_status = K64_ERR_ACCESS then - KLCS_LINUX_EACCES
      else if k64_status = K64_ERR_NOMEM then - KLCS_LINUX_ENOMEM
      else if k64_status = K64_ERR_FAULT then - KLCS_LINUX_EFAULT
      else if k64_status = K64_ERR_NOSYS then - KLCS_LINUX_ENOSYS
      else if k64_status = K64_ERR_BADFD then - KLCS_LINUX_EBADF
      else if k64_status = K64_ERR_INVAL then - KLCS_LINUX_EINVAL
      else - KLCS_LINUX_EINVAL)"

section \<open>Paths\<close>

definition starts :: "string \<Rightarrow> string \<Rightarrow> nat \<Rightarrow> bool" where
  "starts p prefix n \<longleftrightarrow> k64_strncmp p prefix n = 0"

definition klcs_translate_path :: "cstr \<Rightarrow> nat \<Rightarrow> string option" where
  "klcs_translate_path linux_path out_size =
     (case linux_path of
        None \<Rightarrow> None
      | Some p \<Rightarrow>
         if out_size = 0 \<or> p = [] then None
         else
           let is' = (\<lambda>q. k64_streq linux_path (Some q));
               out =
                 (if is' ''.'' \<or> is' ''./'' then klcs_copy [] out_size (Some ''/compat/linux/root'')
                  else if starts p ''./'' 2
                    then klcs_append (klcs_copy [] out_size (Some ''/compat/linux/root/'')) out_size (Some (drop 2 p))
                  else if is' ''..'' \<or> is' ''../'' then klcs_copy [] out_size (Some ''/compat/linux/root'')
                  else if starts p ''/compat/linux/'' 14 then klcs_copy [] out_size linux_path
                  else if is' ''/'' then klcs_copy [] out_size (Some ''/compat/linux/root'')
                  else if starts p ''/bin/'' 5 \<or> starts p ''/usr/bin/'' 9 \<or> starts p ''/lib/'' 5 \<or> starts p ''/lib64/'' 7 \<or>
                          starts p ''/usr/lib/'' 9 \<or> starts p ''/usr/lib64/'' 11 \<or> starts p ''/usr/share/'' 11
                    then klcs_append (klcs_copy [] out_size (Some ''/compat/linux'')) out_size linux_path
                  else if is' ''/tmp'' \<or> starts p ''/tmp/'' 5 then klcs_copy [] out_size linux_path
                  else if starts p ''/home'' 5 then klcs_copy [] out_size linux_path
                  else if is' ''/dev/null'' \<or> is' ''/dev/zero'' \<or> is' ''/dev/random'' \<or> is' ''/dev/urandom'' \<or> is' ''/proc/self/exe''
                    then klcs_copy [] out_size linux_path
                  else
                    let out = klcs_copy [] out_size (Some ''/compat/linux/root'');
                        out = (if p ! 0 \<noteq> CHR ''/'' then klcs_append out out_size (Some ''/'') else out)
                    in klcs_append out out_size linux_path)
           in if out \<noteq> [] then Some out else None)"

section \<open>ELF files\<close>





section \<open>The dispatcher\<close>

text \<open>\<open>mem\<close> is the memory at the addresses of the caller.\<close>

definition klcs_dispatch_syscall :: "(u64 \<Rightarrow> char) \<Rightarrow> klcs_linux_syscall_frame option \<Rightarrow> klcs_state \<Rightarrow> int \<times> klcs_state" where
  "klcs_dispatch_syscall mem frame s =
     (case frame of
        None \<Rightarrow> (- KLCS_LINUX_EFAULT, s)
      | Some f \<Rightarrow>
         let name = klcs_syscall_name (fr_nr f);
             s = s\<lparr>total_syscalls := total_syscalls s + 1\<rparr>;
             (rc, s) =
               (if fr_nr f = 1 then
                  if (fr_arg0 f = 1 \<or> fr_arg0 f = 2) \<and> fr_arg1 f \<noteq> 0 \<and> fr_arg2 f < 4096
                  then (sint (fr_arg2 f), s\<lparr>term_out := term_out s @
                     takeWhile (\<lambda>c. c \<noteq> CHR 0x00) (map (\<lambda>i. mem (fr_arg1 f + of_nat i)) [0..<unat (fr_arg2 f)])\<rparr>)
                  else (- KLCS_LINUX_EBADF, s)
                else if fr_nr f = 3 then
                  case klcs_fd_close (sint (ucast (fr_arg0 f) :: u32)) s of
                    (ok, s) \<Rightarrow> (if ok then 0 else - KLCS_LINUX_EBADF, s)
                else if fr_nr f = 39 then (sint (fr_pid f), s)
                else if fr_nr f = 60 \<or> fr_nr f = 231 then (0, s)
                else if fr_nr f = 102 \<or> fr_nr f = 104 \<or> fr_nr f = 107 \<or> fr_nr f = 108 then (0, s)
                else (- KLCS_LINUX_ENOSYS, s\<lparr>unsupported_syscalls := unsupported_syscalls s + 1\<rparr>))
         in (rc, klcs_trace_record (fr_pid f) (fr_nr f) (Some name) rc s))"

section \<open>Lengths\<close>

lemma length_klcs_append: "0 < n \<Longrightarrow> length (klcs_append dst n s) < n"
  unfolding klcs_append_def using length_str_append [of "take (n - 1) dst" n s] by simp

lemma length_klcs_append_u64: "0 < n \<Longrightarrow> length (klcs_append_u64 dst n v) < n"
proof -
  assume n: "0 < n"
  have "cs \<noteq> [] \<Longrightarrow> length (fold (\<lambda>c d. klcs_append d n (Some [c])) cs d) < n" for cs d
    using length_klcs_append [OF n] by (induction cs rule: rev_induct) auto
  moreover have "v \<noteq> 0 \<Longrightarrow> digits_rev (unat v) \<noteq> []" by (subst digits_rev.simps) (simp add: unat_eq_0)
  ultimately show ?thesis using length_klcs_append [OF n] by (simp add: klcs_append_u64_def)
qed

lemma length_trace_line: "length (trace_line pid nr name result) < 96"
  unfolding trace_line_def Let_def by (simp add: length_klcs_append_u64)

section \<open>The invariant of the service\<close>

text \<open>
  The steps of the service: what the kernel and the system-call path may call. \<open>klcs_ok\<close>: the tables
  have their sizes, the texts fit their buffers, and the three standard descriptors are open.
\<close>

inductive klcs_step :: "klcs_state \<Rightarrow> klcs_state \<Rightarrow> bool" where
  init: "klcs_step s (klcs_init s)"
| trace_set: "klcs_step s (klcs_trace_set b s)"
| alloc: "klcs_step s (snd (klcs_fd_alloc kind path native s))"
| close: "klcs_step s (snd (klcs_fd_close fd s))"
| trace: "klcs_step s (klcs_trace_record_args pid nr name a0 a1 a2 result s)"
| dispatch: "klcs_step s (snd (klcs_dispatch_syscall mem frame s))"

definition klcs_ok :: "klcs_state \<Rightarrow> bool" where
  "klcs_ok s \<longleftrightarrow> length (fds s) = 32 \<and> (\<forall>i<3. fd_used (fds s ! i)) \<and> (\<forall>f\<in>set (fds s). length (fd_path f) < 256) \<and>
     length (last_trace s) = 16 \<and> (\<forall>l\<in>set (last_trace s). length l < 96)"

lemma klcs_fd_alloc_find:
  assumes "klcs_fd_alloc kind path native s = (fd, s')"
  shows "(fd = - 24 \<and> s' = s) \<or>
    (\<exists>i f. fd = int i \<and> i < 32 \<and> \<not> fd_used (fds s ! i) \<and> (if native \<ge> 0 \<and> native < 3 then nat native else 3) \<le> i \<and>
       (\<forall>j. (if native \<ge> 0 \<and> native < 3 then nat native else 3) \<le> j \<and> j < i \<longrightarrow> fd_used (fds s ! j)) \<and>
       fd_used f \<and> fd_kind f = kind \<and> fd_native f = native \<and> fd_offset f = 0 \<and> length (fd_path f) < 256 \<and>
       s' = s\<lparr>fds := (fds s)[i := f]\<rparr>)"
proof (cases "find (\<lambda>i. \<not> fd_used (fds s ! i)) [nat (if native \<ge> 0 \<and> native < 3 then native else 3)..<nat KLCS_LINUX_FD_MAX]")
  case None
  then show ?thesis using assms by (simp add: klcs_fd_alloc_def Let_def KLCS_LINUX_EMFILE_def)
next
  case (Some i)
  let ?lo = "nat (if native \<ge> 0 \<and> native < 3 then native else 3)"
  obtain k where k: "k < length [?lo..<nat KLCS_LINUX_FD_MAX]" "\<not> fd_used (fds s ! i)" "i = [?lo..<nat KLCS_LINUX_FD_MAX] ! k"
      "\<forall>j<k. fd_used (fds s ! ([?lo..<nat KLCS_LINUX_FD_MAX] ! j))"
    using Some unfolding find_Some_iff by auto
  have i: "i = ?lo + k" "i < 32" using k(1,3) by (simp_all add: KLCS_LINUX_FD_MAX_def)
  have below: "fd_used (fds s ! j)" if "?lo \<le> j" "j < i" for j
  proof -
    have "j - ?lo < k" using that i(1) by simp
    moreover from this have "[?lo..<nat KLCS_LINUX_FD_MAX] ! (j - ?lo) = j" using that i(2) by (simp add: KLCS_LINUX_FD_MAX_def)
    ultimately show ?thesis using k(4) by metis
  qed
  have lo: "(if native \<ge> 0 \<and> native < 3 then nat native else 3) = ?lo" by simp
  let ?f = "\<lparr>fd_used = True, fd_kind = kind, fd_native = native, fd_cloexec = False, fd_offset = 0, fd_flags = 0,
     fd_path = klcs_copy [] KLCS_PATH_MAX (case path of None \<Rightarrow> Some [] | Some p \<Rightarrow> Some p)\<rparr>"
  have "fd = int i \<and> s' = s\<lparr>fds := (fds s)[i := ?f]\<rparr>"
    using assms Some by (simp add: klcs_fd_alloc_def Let_def)
  moreover have "length (fd_path ?f) < 256" by (auto simp: klcs_copy_def KLCS_PATH_MAX_def min_def split: option.splits)
  ultimately show ?thesis
    unfolding lo using k(2) i below by (intro disjI2 exI [of _ i] exI [of _ ?f]) auto
qed

lemma klcs_ok_alloc:
  assumes "klcs_ok s"
  shows "klcs_ok (snd (klcs_fd_alloc kind path native s))"
proof -
  obtain fd s' where r: "klcs_fd_alloc kind path native s = (fd, s')" by fastforce
  from klcs_fd_alloc_find [OF r] show ?thesis
  proof
    assume "fd = - 24 \<and> s' = s"
    then show ?thesis using r assms by simp
  next
    assume "\<exists>i f. fd = int i \<and> i < 32 \<and> \<not> fd_used (fds s ! i) \<and> (if native \<ge> 0 \<and> native < 3 then nat native else 3) \<le> i \<and>
       (\<forall>j. (if native \<ge> 0 \<and> native < 3 then nat native else 3) \<le> j \<and> j < i \<longrightarrow> fd_used (fds s ! j)) \<and>
       fd_used f \<and> fd_kind f = kind \<and> fd_native f = native \<and> fd_offset f = 0 \<and> length (fd_path f) < 256 \<and>
       s' = s\<lparr>fds := (fds s)[i := f]\<rparr>"
    then obtain i f where f: "i < 32" "fd_used f" "length (fd_path f) < 256" "s' = s\<lparr>fds := (fds s)[i := f]\<rparr>" by blast
    have "set ((fds s)[i := f]) \<subseteq> insert f (set (fds s))" by (rule set_update_subset_insert)
    then show ?thesis using r f assms by (auto simp: klcs_ok_def nth_list_update)
  qed
qed

lemma klcs_ok_close:
  assumes "klcs_ok s"
  shows "klcs_ok (snd (klcs_fd_close fd s))"
proof -
  have "set ((fds s)[nat fd := empty_fd]) \<subseteq> insert empty_fd (set (fds s))" by (rule set_update_subset_insert)
  then show ?thesis
    using assms by (auto simp: klcs_fd_close_def klcs_ok_def nth_list_update empty_fd_def)
qed

lemma klcs_ok_trace: "klcs_ok s \<Longrightarrow> klcs_ok (klcs_trace_record pid nr name result s)"
  using set_update_subset_insert [of "last_trace s" "unat (next_trace s) mod 16" "trace_line pid nr name result"]
  by (auto simp: klcs_trace_record_def klcs_ok_def Let_def KLCS_TRACE_LINES_def length_trace_line)

lemma klcs_ok_counters [simp]:
  "klcs_ok (s\<lparr>total_syscalls := a\<rparr>) = klcs_ok s" "klcs_ok (s\<lparr>unsupported_syscalls := a\<rparr>) = klcs_ok s"
  "klcs_ok (s\<lparr>term_out := b\<rparr>) = klcs_ok s" "klcs_ok (s\<lparr>trace_enabled := c\<rparr>) = klcs_ok s"
  by (simp_all add: klcs_ok_def)

lemma klcs_ok_closeD: "klcs_fd_close fd s = (ok, s') \<Longrightarrow> klcs_ok s \<Longrightarrow> klcs_ok s'"
  using klcs_ok_close [of s fd] by simp

lemma klcs_ok_dispatch: "klcs_ok s \<Longrightarrow> klcs_ok (snd (klcs_dispatch_syscall mem frame s))"
  unfolding klcs_dispatch_syscall_def Let_def
  by (auto split: option.splits prod.splits if_splits intro!: klcs_ok_trace dest!: klcs_ok_closeD)

lemma klcs_ok_init: "klcs_ok (klcs_init s)"
  by (simp add: klcs_init_def Let_def klcs_fd_alloc_def KLCS_LINUX_FD_MAX_def KLCS_TRACE_LINES_def klcs_copy_def
      KLCS_PATH_MAX_def upt_conv_Cons empty_fd_def klcs_ok_def nth_list_update less_Suc_eq numeral_3_eq_3 eval_nat_numeral)

lemma klcs_ok_step: "klcs_step s s' \<Longrightarrow> klcs_ok s \<Longrightarrow> klcs_ok s'"
  by (induction rule: klcs_step.induct)
    (auto simp: klcs_ok_init klcs_trace_set_def klcs_ok_alloc klcs_ok_close klcs_trace_record_args_def klcs_ok_trace klcs_ok_dispatch)

section \<open>Properties\<close>

text \<open>C16: in every state the service reaches from its initialisation, by any sequence of its entry points,
  the descriptor table has 32 entries of which the three standard ones are open, every path and every
  trace line fits its buffer, and a descriptor that is handed out was free, is the lowest one allowed
  and is open afterwards; when none is free the table is unchanged and \<open>-EMFILE\<close> is returned.\<close>

theorem klcs_invariant:
  assumes "klcs_step\<^sup>*\<^sup>* (klcs_init s0) s" and "klcs_fd_alloc kind path native s = (fd, s')"
    and lo: "lo = (if native \<ge> 0 \<and> native < 3 then nat native else 3)"
  shows "klcs_ok s \<and> klcs_ok s' \<and>
    (if \<exists>i. lo \<le> i \<and> i < 32 \<and> \<not> fd_used (fds s ! i)
     then lo \<le> nat fd \<and> 0 \<le> fd \<and> fd < 32 \<and> \<not> fd_used (fds s ! nat fd) \<and>
       (\<forall>j. lo \<le> j \<and> j < nat fd \<longrightarrow> fd_used (fds s ! j)) \<and> fd_used (fds s' ! nat fd) \<and>
       fd_kind (fds s' ! nat fd) = kind \<and> (\<forall>j. j \<noteq> nat fd \<longrightarrow> fds s' ! j = fds s ! j)
     else fd = - KLCS_LINUX_EMFILE \<and> s' = s)"
proof -
  have ok: "klcs_ok s" using assms(1)
    by (induction rule: rtranclp_induct) (auto intro: klcs_ok_init klcs_ok_step)
  then have ok': "klcs_ok s'" using klcs_ok_alloc [of s kind path native] assms(2) by simp
  have none: "find (\<lambda>i. \<not> fd_used (fds s ! i)) [lo..<32] = None \<longleftrightarrow> \<not> (\<exists>i. lo \<le> i \<and> i < 32 \<and> \<not> fd_used (fds s ! i))"
    by (auto simp: find_upt_None)
  have run: "klcs_fd_alloc kind path native s = (- 24, s)" if "find (\<lambda>i. \<not> fd_used (fds s ! i)) [lo..<32] = None"
  proof -
    have "nat (if native \<ge> 0 \<and> native < 3 then native else 3) = lo" using lo by simp
    then show ?thesis using that by (simp add: klcs_fd_alloc_def Let_def KLCS_LINUX_FD_MAX_def KLCS_LINUX_EMFILE_def)
  qed
  from klcs_fd_alloc_find [OF assms(2)] show ?thesis
  proof
    assume full: "fd = - 24 \<and> s' = s"
    have "find (\<lambda>i. \<not> fd_used (fds s ! i)) [lo..<32] = None"
    proof (rule ccontr)
      assume "find (\<lambda>i. \<not> fd_used (fds s ! i)) [lo..<32] \<noteq> None"
      then obtain i where "find (\<lambda>i. \<not> fd_used (fds s ! i)) [lo..<32] = Some i" by auto
      moreover have "nat (if native \<ge> 0 \<and> native < 3 then native else 3) = lo" using lo by simp
      ultimately have "fd = int i" using assms(2) by (simp add: klcs_fd_alloc_def Let_def KLCS_LINUX_FD_MAX_def)
      then show False using full by simp
    qed
    then show ?thesis using ok ok' full none by (simp add: KLCS_LINUX_EMFILE_def)
  next
    assume "\<exists>i f. fd = int i \<and> i < 32 \<and> \<not> fd_used (fds s ! i) \<and> (if native \<ge> 0 \<and> native < 3 then nat native else 3) \<le> i \<and>
       (\<forall>j. (if native \<ge> 0 \<and> native < 3 then nat native else 3) \<le> j \<and> j < i \<longrightarrow> fd_used (fds s ! j)) \<and>
       fd_used f \<and> fd_kind f = kind \<and> fd_native f = native \<and> fd_offset f = 0 \<and> length (fd_path f) < 256 \<and>
       s' = s\<lparr>fds := (fds s)[i := f]\<rparr>"
    then obtain i f where f: "fd = int i" "i < 32" "\<not> fd_used (fds s ! i)" "lo \<le> i"
        "\<forall>j. lo \<le> j \<and> j < i \<longrightarrow> fd_used (fds s ! j)" "fd_used f" "fd_kind f = kind" "s' = s\<lparr>fds := (fds s)[i := f]\<rparr>"
      unfolding lo [symmetric] by blast
    then have "\<exists>i. lo \<le> i \<and> i < 32 \<and> \<not> fd_used (fds s ! i)" by blast
    then show ?thesis using ok ok' f by (simp add: klcs_ok_def)
  qed
qed

theorem klcs_invariant_witness:
  "klcs_ok (klcs_init \<lparr>total_syscalls = 0, unsupported_syscalls = 0, trace_enabled = False, last_trace = [],
     next_trace = 0, fds = [], term_out = []\<rparr>)"
  using klcs_invariant [OF rtranclp.rtrancl_refl _ refl,
      of KLCS_FD_FILE None "- 1" "\<lparr>total_syscalls = 0, unsupported_syscalls = 0, trace_enabled = False, last_trace = [],
        next_trace = 0, fds = [], term_out = []\<rparr>"] prod.collapse
  by metis





section \<open>A path that leaves the compatibility root\<close>

lemma path_tokens_join:
  "\<forall>t\<in>set ts. t \<noteq> [] \<and> CHR ''/'' \<notin> set t \<Longrightarrow>
   path_tokens (dropWhile (\<lambda>c. c = CHR ''/'') (concat (map (\<lambda>t. CHR ''/'' # t) ts))) = ts"
proof (induction ts)
  case (Cons t ts)
  let ?r = "concat (map (\<lambda>t. CHR ''/'' # t) ts)"
  have t: "t \<noteq> []" "CHR ''/'' \<notin> set t" using Cons.prems by auto
  have r: "?r = [] \<or> hd ?r = CHR ''/''" by (cases ts) auto
  have "dropWhile (\<lambda>c. c = CHR ''/'') (t @ ?r) = t @ ?r" using t by (cases t) auto
  moreover have "takeWhile (\<lambda>c. c \<noteq> CHR ''/'') (t @ ?r) = t" "dropWhile (\<lambda>c. c \<noteq> CHR ''/'') (t @ ?r) = ?r"
    using t(2) r by (cases ?r; force simp: takeWhile_append dropWhile_append)+
  ultimately show ?case using Cons t(1) by (simp add: path_tokens.simps [of "t @ ?r"])
qed (simp add: path_tokens.simps)

text \<open>The three \<open>..\<close> take the path back to the root of the file system.\<close>

lemma normalize_root_dots:
  "normalize_tokens 256 ([''compat'', ''linux'', ''root'', ''..'', ''..'', ''..''] @ ts) ''/'' = normalize_tokens 256 ts ''/''"
proof -
  have add: "add_component 256 ''compat'' ''/'' = Some ''/compat''" "add_component 256 ''linux'' ''/compat'' = Some ''/compat/linux''"
    "add_component 256 ''root'' ''/compat/linux'' = Some ''/compat/linux/root''" by code_simp+
  have drop: "drop_component ''/compat/linux/root'' = ''/compat/linux/''" "drop_component ''/compat/linux/'' = ''/compat/''"
    "drop_component ''/compat/'' = ''/''" by code_simp+
  have dots: "\<not> k64_streq (Some ''compat'') (Some ''.'')" "\<not> k64_streq (Some ''compat'') (Some ''..'')"
    "\<not> k64_streq (Some ''linux'') (Some ''.'')" "\<not> k64_streq (Some ''linux'') (Some ''..'')"
    "\<not> k64_streq (Some ''root'') (Some ''.'')" "\<not> k64_streq (Some ''root'') (Some ''..'')"
    "\<not> k64_streq (Some ''..'') (Some ''.'')" "k64_streq (Some ''..'') (Some ''..'')" by code_simp+
  have len: "\<not> length ''compat'' + 1 > 128" "\<not> length ''linux'' + 1 > 128" "\<not> length ''root'' + 1 > 128" "\<not> length ''..'' + 1 > 128"
    by code_simp+
  show ?thesis
    by (simp only: append_Cons append_Nil normalize_tokens.simps add drop dots len if_False if_True option.case)
qed

text \<open>
  C38: the translation puts a relative path under the compatibility root as it is, and the file-system service
  then resolves its \<open>..\<close> components. So a Linux program can name every file of the system: \<open>../../..\<close> followed by
  an absolute path of ordinary components is translated to a path that normalises to that absolute path, whatever
  the working directory, as long as the result fits the buffer.
\<close>

theorem klcs_path_escapes:
  assumes "cs \<noteq> []" and "\<forall>t\<in>set cs. t \<noteq> [] \<and> CHR ''/'' \<notin> set t \<and> CHR 0x00 \<notin> set t \<and> t \<noteq> ''.'' \<and> t \<noteq> ''..'' \<and> length t < 128"
    and "length (join_components cs) < 229"
  shows "klcs_translate_path (Some (''../../..'' @ join_components cs)) 256 =
      Some (''/compat/linux/root/../../..'' @ join_components cs) \<and>
    fs_normalize cwd (Some (''/compat/linux/root/../../..'' @ join_components cs)) 256 = Some (join_components cs)"
proof
  let ?j = "join_components cs"
  have j: "?j = concat (map (\<lambda>t. CHR ''/'' # t) cs)" using assms(1) by (simp add: join_components_def)
  have nul: "CHR 0x00 \<notin> set ?j" using assms(2) by (auto simp: j)
  have "?j \<noteq> []" by (simp add: join_components_def)
  with nul show "klcs_translate_path (Some (''../../..'' @ ?j)) 256 = Some (''/compat/linux/root/../../..'' @ ?j)"
    using assms(3) by (simp add: klcs_translate_path_def klcs_copy_def klcs_append_def starts_def k64_strncmp_eq_0 c_string_def Let_def)
  let ?ts = "[''compat'', ''linux'', ''root'', ''..'', ''..'', ''..''] @ cs"
  have "fs_full_path cwd (Some (''/compat/linux/root/../../..'' @ ?j)) = concat (map (\<lambda>t. CHR ''/'' # t) ?ts)"
    using assms(3) by (simp add: fs_full_path_def fs_copy_def j)
  moreover have "path_tokens (dropWhile (\<lambda>c. c = CHR ''/'') (concat (map (\<lambda>t. CHR ''/'' # t) ?ts))) = ?ts"
    by (rule path_tokens_join) (use assms(2) in auto)
  ultimately have "fs_normalize cwd (Some (''/compat/linux/root/../../..'' @ ?j)) 256 = normalize_tokens 256 cs ''/''"
    by (simp add: fs_normalize_def normalize_root_dots del: append_Cons append_Nil)
  also have "\<dots> = Some ?j"
  proof -
    have e: "t \<noteq> [] \<and> c_string t" "t \<noteq> ''.''" "t \<noteq> ''..''" "length t < 128" if "t \<in> set cs" for t
    proof -
      note t = bspec [OF assms(2) that]
      show "length t < 128" "t \<noteq> ''.''" "t \<noteq> ''..''" using t by (simp_all only: simp_thms)
      have "length t < 2 ^ 31" using \<open>length t < 128\<close> by (rule less_trans) simp
      then show "t \<noteq> [] \<and> c_string t" using t by (simp only: c_string_def simp_thms)
    qed
    have ts: "\<forall>t\<in>set cs. t \<noteq> [] \<and> c_string t" by (rule ballI) (rule e(1))
    have dots: "''..'' \<notin> set cs" by (rule notI) (drule e(3), erule notE, rule refl)
    have one: "filter (\<lambda>t. t \<noteq> ''.'') cs = cs" unfolding filter_id_conv by (rule ballI) (rule e(2))
    have nil: "join_components [] = ''/''" "length (join_components []) < 256" by (simp_all add: join_components_def)
    have short: "(\<forall>t\<in>set cs. length t < 128) \<and> length ?j < 256" 
    proof
      show "\<forall>t\<in>set cs. length t < 128" by (rule ballI) (rule e(4))
      show "length ?j < 256" using assms(3) by (rule less_trans) simp
    qed
    have "normalize_tokens 256 cs (join_components []) = (if (\<forall>t\<in>set cs. length t < 128) \<and> length ?j < 256 then Some ?j else None)"
      using normalize_tokens_join [OF _ ts dots _ nil(2)] unfolding one append_Nil Let_def by simp
    then show ?thesis using short unfolding nil(1) by simp
  qed
  finally show "fs_normalize cwd (Some (''/compat/linux/root/../../..'' @ ?j)) 256 = Some ?j" .
qed

theorem klcs_path_escapes_witness:
  "klcs_translate_path (Some ''../../../etc/passwd'') 256 = Some ''/compat/linux/root/../../../etc/passwd'' \<and>
   fs_normalize ''/home'' (Some ''/compat/linux/root/../../../etc/passwd'') 256 = Some ''/etc/passwd''"
  using klcs_path_escapes [of "[''etc'', ''passwd'']" "''/home''"] by (simp add: join_components_def)

end
