(* ===== verification/Xfs_View.thy ===== *)
theory Xfs_View
  imports Xfs
begin

text \<open>
  The mounted file system seen as a map from block numbers to blocks.

  \<open>vw fs\<close> is what the file system reads, outside the journal: cached blocks first, then the device. \<open>live\<close> is
  the invariant that makes it meaningful (a faithful device, a coherent cache, no journal block in
  the cache). \<open>evolves k fs V fs'\<close>: from \<open>fs\<close> the mount went to \<open>fs'\<close>, whose view is \<open>V\<close>, with at most \<open>k\<close>
  new journal records and nothing else that later operations depend on changed. Block reads and
  writes, inodes and bit maps are described in these terms; the properties of the operations rest on it.
\<close>

section \<open>Blocks in the cache\<close>

definition cached_blocks :: "k64_xfs_cache \<Rightarrow> u64 set" where
  "cached_blocks c = ce_block_no ` {e \<in> set (entries c). ce_valid e}"

lemma cached_upd:
  assumes "i < length (entries c) \<Longrightarrow> ce_valid (f (entries c ! i)) \<Longrightarrow> ce_block_no (f (entries c ! i)) \<in> B"
    and "cached_blocks c \<subseteq> B"
  shows "cached_blocks (upd_entry i f c) \<subseteq> B"
proof (cases "i < length (entries c)")
  case True
  then show ?thesis
    using assms set_update_subset_insert [of "entries c" i "f (entries c ! i)"]
    unfolding cached_blocks_def upd_entry_def by auto
next
  case False
  then show ?thesis using assms(2) by (simp add: upd_entry_def cached_blocks_def list_update_beyond)
qed

lemma cached_nth: "i < length (entries c) \<Longrightarrow> ce_valid (entries c ! i) \<Longrightarrow> ce_block_no (entries c ! i) \<in> cached_blocks c"
  by (auto simp: cached_blocks_def)

lemma cached_touch: "cached_blocks c \<subseteq> B \<Longrightarrow> cached_blocks (touch i c) \<subseteq> B"
  unfolding touch_def
  by (rule cached_upd) (use cached_nth [of i c] in \<open>auto simp: cached_blocks_def\<close>)

lemma cached_victim:
  assumes "cache_victim dev (c, w) = (r, (c', w'))"
  shows "cached_blocks c' \<subseteq> cached_blocks c"
proof -
  have "cached_blocks (upd_entry v (\<lambda>e. e\<lparr>ce_valid := False, ce_dirty := False\<rparr>) c) \<subseteq> cached_blocks c" for v
    by (rule cached_upd) auto
  then show ?thesis
    using assms by (auto simp: cache_victim_def Let_def split: prod.splits if_splits res.splits)
qed

lemma cached_read:
  assumes "k64_xfs_cache_read dev b (c, w) = (r, (c', w'))"
  shows "cached_blocks c' \<subseteq> insert b (cached_blocks c)"
proof (cases "cache_find c b")
  case (Some i)
  then show ?thesis using assms cached_touch [of c "insert b (cached_blocks c)" i] by (auto simp: k64_xfs_cache_read_def)
next
  case None
  obtain rv c1 w1 where v: "cache_victim dev (c, w) = (rv, (c1, w1))" by (metis prod.exhaust)
  have sub: "cached_blocks c1 \<subseteq> insert b (cached_blocks c)" using cached_victim [OF v] by blast
  have fill: "cached_blocks (touch i (upd_entry i (\<lambda>e. e\<lparr>ce_valid := True, ce_dirty := False, ce_block_no := b, ce_data := d\<rparr>) c1))
      \<subseteq> insert b (cached_blocks c)" for i d
    by (intro cached_touch cached_upd sub) simp
  show ?thesis
    using assms None v sub fill
    by (cases rv) (auto simp: k64_xfs_cache_read_def bind_def Let_def split: res.splits prod.splits)
qed

lemma cached_write:
  assumes "k64_xfs_cache_write dev b d (c, w) = (r, (c', w'))"
  shows "cached_blocks c' \<subseteq> insert b (cached_blocks c)"
proof -
  let ?B = "insert b (cached_blocks c)"
  have set: "cached_blocks (touch i (upd_entry i (\<lambda>e. e\<lparr>ce_data := d, ce_dirty := True\<rparr>) c1)) \<subseteq> ?B"
    if "cached_blocks c1 \<subseteq> ?B" for i c1
    using that cached_nth [of i c1] by (intro cached_touch cached_upd) auto
  show ?thesis
  proof (cases "cache_find c b")
    case (Some i)
    then show ?thesis using assms set [of c i] by (auto simp: k64_xfs_cache_write_def bind_def)
  next
    case None
    obtain rv c1 w1 where v: "cache_victim dev (c, w) = (rv, (c1, w1))" by (metis prod.exhaust)
    have sub: "cached_blocks c1 \<subseteq> ?B" using cached_victim [OF v] by blast
    have "cached_blocks (upd_entry i (\<lambda>e. e\<lparr>ce_valid := True, ce_block_no := b\<rparr>) c1) \<subseteq> ?B" for i
      by (intro cached_upd sub) simp
    note filled = set [OF this]
    show ?thesis
    proof (cases rv)
      case (Ok i)
      then show ?thesis using assms None v filled [of i i] by (simp add: k64_xfs_cache_write_def bind_def)
    qed (use assms None v sub in \<open>auto simp: k64_xfs_cache_write_def bind_def\<close>)
  qed
qed

text \<open>A write to the device behind the cache, to a block that is not cached.\<close>

lemma uncached_write:
  assumes coh: "coherent D n c" and b: "b \<notin> cached_blocks c"
  shows "coherent (D(b := d)) n c" and "cached_view (D(b := d)) c = (cached_view D c)(b := d)"
proof -
  have len: "length (entries c) = K64_XFS_CACHE_BLOCKS" using coh by (simp add: coherent_def cache_wf_def)
  show "coherent (D(b := d)) n c" using coh b by (auto simp: coherent_def cached_blocks_def)
  have "cache_find c b = None" using b len cached_nth [of _ c] by (auto simp: cache_find_None)
  then show "cached_view (D(b := d)) c = (cached_view D c)(b := d)"
    by (auto simp: cached_view_def fun_eq_iff split: option.splits)
qed

section \<open>The view\<close>

text \<open>\<open>room fs k\<close>: \<open>k\<close> more metadata records fit the journal, if a transaction is open.\<close>

definition room :: "'w k64_xfs_mount \<Rightarrow> nat \<Rightarrow> bool" where
  "room fs k \<longleftrightarrow> (journal_active fs \<longrightarrow> mounted fs \<and> unat (journal_records fs) + k < 2147483648 \<and>
     2 * (unat (journal_records fs) + k) \<le> unat (sb_journal_blocks (super fs)))"

context fs_disk
begin

definition live :: "'w k64_xfs_mount \<Rightarrow> bool" where
  "live fs \<longleftrightarrow> m_dev fs = dev \<and> ready (drv fs) \<and> coherent (disk (drv fs)) nblocks (cache fs) \<and>
     journal_fits nblocks (super fs) \<and> (\<forall>b\<in>cached_blocks (cache fs). \<not> in_journal (super fs) b)"

definition vw :: "'w k64_xfs_mount \<Rightarrow> u64 \<Rightarrow> bytes" where
  "vw fs b = (if in_journal (super fs) b then [] else cached_view (disk (drv fs)) (cache fs) b)"

definition evolves :: "nat \<Rightarrow> 'w k64_xfs_mount \<Rightarrow> (u64 \<Rightarrow> bytes) \<Rightarrow> 'w k64_xfs_mount \<Rightarrow> bool" where
  "evolves k fs V fs' \<longleftrightarrow> live fs' \<and> vw fs' = V \<and> mounted fs' = mounted fs \<and> super fs' = super fs \<and> tx_id fs' = tx_id fs \<and>
     journal_active fs' = journal_active fs \<and> unat (journal_records fs') \<le> unat (journal_records fs) + k"

lemma evolves_refl: "live fs \<Longrightarrow> evolves 0 fs (vw fs) fs"
  by (simp add: evolves_def)

lemma evolves_trans: "evolves j fs V fs1 \<Longrightarrow> evolves k fs1 V' fs2 \<Longrightarrow> evolves (j + k) fs V' fs2"
  by (auto simp: evolves_def)

lemma evolves_room: "evolves j fs V fs' \<Longrightarrow> room fs (j + k) \<Longrightarrow> room fs' k"
  by (auto simp: evolves_def room_def)

lemma live_tmp [simp]: "live (fs\<lparr>xfs_tmp_block := t\<rparr>) = live fs" "vw (fs\<lparr>xfs_tmp_block := t\<rparr>) = vw fs"
  by (auto simp: live_def vw_def)

lemma evolves_tmp: "evolves k fs V fs' \<Longrightarrow> evolves k fs V (fs'\<lparr>xfs_tmp_block := t\<rparr>)"
  by (simp add: evolves_def)

text \<open>The length of a visible block.\<close>

lemma length_vw:
  assumes "live fs" and "b < nblocks" and "\<not> in_journal (super fs) b"
  shows "length (vw fs b) = K64_XFS_BLOCK_SIZE"
proof (cases "cache_find (cache fs) b")
  case None
  then show ?thesis using assms disk_length [of "drv fs" b] by (simp add: vw_def cached_view_def live_def)
next
  case (Some i)
  then have "i < K64_XFS_CACHE_BLOCKS" "ce_valid (entries (cache fs) ! i)"
    using assms(1) by (auto simp: live_def coherent_def cache_find_Some)
  then have "length (ce_data (entries (cache fs) ! i)) = K64_XFS_BLOCK_SIZE"
    using entry_props(2) [of "drv fs" "cache fs" i] assms(1) by (simp add: live_def)
  then show ?thesis using Some assms by (simp add: vw_def cached_view_def)
qed

end

context fs_disk
begin

lemma vw_eq:
  "super fs' = super fs \<Longrightarrow> cached_view (disk (drv fs')) (cache fs') = cached_view (disk (drv fs)) (cache fs) \<Longrightarrow> vw fs' = vw fs"
  by (simp add: vw_def fun_eq_iff)

lemma block_read_view:
  assumes live: "live fs" and b: "b < nblocks" "\<not> in_journal (super fs) b"
  obtains fs' where "xfs_block_read b fs = (Ok (vw fs b), fs')" "evolves 0 fs (vw fs) fs'"
proof -
  obtain c w where r: "k64_xfs_cache_read dev b (cache fs, drv fs) = (Ok (cached_view (disk (drv fs)) (cache fs) b), (c, w))"
      "coherent (disk w) nblocks c" "ready w" "cached_view (disk w) c = cached_view (disk (drv fs)) (cache fs)"
    using cache_read_view [of "drv fs" "cache fs" b] live b(1) by (auto simp: live_def)
  let ?fs = "fs\<lparr>cache := c, drv := w\<rparr>"
  have "cached_blocks c \<subseteq> insert b (cached_blocks (cache fs))" by (rule cached_read [OF r(1)])
  then have "live ?fs" using live r(2,3) b(2) by (auto simp: live_def)
  moreover have "vw ?fs = vw fs" by (rule vw_eq) (simp_all add: r(4))
  moreover have "xfs_block_read b fs = (Ok (vw fs b), ?fs)"
    using r(1) live b(2) by (simp add: xfs_block_read_def lift_cache_def live_def vw_def)
  ultimately show ?thesis by (intro that [of ?fs]) (auto simp: evolves_def)
qed

lemma load_view:
  assumes "live fs" and "b < nblocks" "\<not> in_journal (super fs) b"
  obtains fs' where "load b fs = (Ok (vw fs b), fs')" "evolves 0 fs (vw fs) fs'" "xfs_tmp_block fs' = vw fs b"
proof -
  obtain fs' where r: "xfs_block_read b fs = (Ok (vw fs b), fs')" "evolves 0 fs (vw fs) fs'"
    by (rule block_read_view [OF assms])
  show ?thesis
    by (rule that [of "fs'\<lparr>xfs_tmp_block := vw fs b\<rparr>"])
      (use r evolves_tmp in \<open>auto simp: load_def bind_def put_tmp_def\<close>)
qed

text \<open>A metadata record goes to the journal on the device and leaves the view alone.\<close>

lemma metadata_view:
  assumes live: "live fs" and act: "journal_active fs" and room: "room fs 1"
    and b: "b < sb_total_blocks (super fs)" and d: "length d = K64_XFS_BLOCK_SIZE"
  obtains fs' where "k64_xfs_journal_metadata b d fs = (Ok (), fs')" "evolves 1 fs (vw fs) fs'" "m_dev fs' = m_dev fs"
proof -
  let ?s = "super fs" and ?i = "unat (journal_records fs)"
  let ?h = "header_block (metadata_entry (tx_id fs) b d)"
  have fits: "journal_fits nblocks ?s" and dev: "on_dev fs" using live by (auto simp: live_def on_dev_def)
  have i: "?i < 2147483648" "2 * ?i + 1 < unat (sb_journal_blocks ?s)" "mounted fs" using room act by (auto simp: room_def)
  have slot: "sb_journal_start ?s + ucast (journal_records fs) * 2 = jblock ?s (2 * ?i)" using record_slot [OF i(1), of ?s] by simp
  have slot1: "jblock ?s (2 * ?i) + 1 = jblock ?s (2 * ?i + 1)" by (simp add: jblock_def)
  have less: "jblock ?s (2 * ?i) < nblocks" "jblock ?s (2 * ?i + 1) < nblocks" using jblock_less [OF fits] i(2) by simp_all
  obtain w1 where w1: "journal_block_write (jblock ?s (2 * ?i)) ?h fs = (Ok (), fs\<lparr>drv := w1\<rparr>)" "ready w1"
      "disk w1 = (disk (drv fs))(jblock ?s (2 * ?i) := ?h)"
    by (rule journal_write_disk [OF dev less(1) length_header_block])
  have dev1: "on_dev (fs\<lparr>drv := w1\<rparr>)" using dev w1(2) by (simp add: on_dev_def)
  obtain w2 where w2: "journal_block_write (jblock ?s (2 * ?i + 1)) d (fs\<lparr>drv := w1\<rparr>) = (Ok (), fs\<lparr>drv := w1, drv := w2\<rparr>)" "ready w2"
      "disk w2 = (disk w1)(jblock ?s (2 * ?i + 1) := d)"
    by (rule journal_write_disk [OF dev1 less(2) d]) auto
  let ?fs = "fs\<lparr>drv := w2, journal_records := journal_records fs + 1\<rparr>"
  have nc: "jblock ?s (2 * ?i) \<notin> cached_blocks (cache fs)" "jblock ?s (2 * ?i + 1) \<notin> cached_blocks (cache fs)"
    using live jblock_in [OF fits, of "2 * ?i"] jblock_in [OF fits i(2)] i(2) by (auto simp: live_def)
  have coh0: "coherent (disk (drv fs)) nblocks (cache fs)" using live by (simp add: live_def)
  have coh: "coherent (disk w2) nblocks (cache fs)"
    unfolding w2(3) w1(3) by (intro uncached_write(1) coh0 nc)
  have "cached_view (disk w2) (cache fs) = (cached_view (disk (drv fs)) (cache fs))(jblock ?s (2 * ?i) := ?h, jblock ?s (2 * ?i + 1) := d)"
    unfolding w2(3) w1(3) by (simp only: uncached_write(2) [OF uncached_write(1) [OF coh0 nc(1)] nc(2)] uncached_write(2) [OF coh0 nc(1)])
  then have "vw ?fs = vw fs"
    using jblock_in [OF fits, of "2 * ?i"] jblock_in [OF fits i(2)] i(2) by (auto simp: vw_def fun_eq_iff)
  moreover have "live ?fs" using live coh w2(2) by (simp add: live_def)
  moreover have "unat (journal_records fs + 1) \<le> ?i + 1" by (simp add: unat_word_ariths)
  moreover have "k64_xfs_journal_metadata b d fs = (Ok (), ?fs)"
    unfolding k64_xfs_journal_metadata_def Let_def slot slot1
    using i(3) act b journal_slot [OF fits i(2)] w1(1) w2(1) by (simp add: bind_def)
  ultimately show ?thesis by (intro that [of ?fs]) (auto simp: evolves_def)
qed

lemma evolves_m_dev: "evolves k fs V fs' \<Longrightarrow> m_dev fs' = dev"
  by (simp add: evolves_def live_def)

lemma cache_write_evolves:
  assumes live: "live fs" and b: "b < nblocks" "\<not> in_journal (super fs) b" and d: "length d = K64_XFS_BLOCK_SIZE"
  obtains fs' where "lift_cache (k64_xfs_cache_write dev b d) fs = (Ok (), fs')" "evolves 0 fs ((vw fs)(b := d)) fs'"
    "xfs_tmp_block fs' = xfs_tmp_block fs"
proof -
  obtain c w where r: "k64_xfs_cache_write dev b d (cache fs, drv fs) = (Ok (), (c, w))"
      "coherent (disk w) nblocks c" "ready w" "cached_view (disk w) c = (cached_view (disk (drv fs)) (cache fs))(b := d)"
    using cache_write_view [of "drv fs" "cache fs" b d] live b(1) d by (auto simp: live_def)
  let ?fs = "fs\<lparr>cache := c, drv := w\<rparr>"
  have "cached_blocks c \<subseteq> insert b (cached_blocks (cache fs))" by (rule cached_write [OF r(1)])
  then have "live ?fs" using live r(2,3) b(2) by (auto simp: live_def)
  moreover have "vw ?fs = (vw fs)(b := d)" using b(2) by (auto simp: vw_def r(4) fun_eq_iff)
  ultimately show ?thesis using r(1) by (intro that [of ?fs]) (auto simp: evolves_def lift_cache_def)
qed

lemma block_write_view:
  assumes live: "live fs" and b: "b < nblocks" "\<not> in_journal (super fs) b" "b < sb_total_blocks (super fs)"
    and d: "length d = K64_XFS_BLOCK_SIZE" and room: "room fs 1"
  obtains fs' where "xfs_block_write b d fs = (Ok (), fs')" "evolves 1 fs ((vw fs)(b := d)) fs'"
proof -
  let ?log = "journal_active fs \<and> b < sb_data_start (super fs) \<and>
     (b < sb_journal_start (super fs) \<or> b \<ge> sb_journal_start (super fs) + sb_journal_blocks (super fs))"
  have dev: "m_dev fs = dev" using live by (simp add: live_def)
  obtain fs1 where 1: "(if ?log then k64_xfs_journal_metadata b d else ret ()) fs = (Ok (), fs1)" "evolves 1 fs (vw fs) fs1"
  proof (cases ?log)
    case True
    then show ?thesis using metadata_view [OF live _ room b(3) d] that by auto
  next
    case False
    then show ?thesis using that [of fs] evolves_refl [OF live] by (auto simp: evolves_def)
  qed
  have live1: "live fs1" "super fs1 = super fs" "vw fs1 = vw fs" using 1(2) by (auto simp: evolves_def)
  obtain fs2 where 2: "lift_cache (k64_xfs_cache_write dev b d) fs1 = (Ok (), fs2)" "evolves 0 fs1 ((vw fs1)(b := d)) fs2"
    by (rule cache_write_evolves [OF live1(1) b(1) _ d]) (use b(2) live1(2) in auto)
  have "xfs_block_write b d fs = (Ok (), fs2)" using 1(1) 2(1) dev by (simp add: xfs_block_write_def bind_def)
  moreover have "evolves 1 fs ((vw fs)(b := d)) fs2" using evolves_trans [OF 1(2) 2(2)] live1(3) by simp
  ultimately show ?thesis by (rule that)
qed

lemma store_view:
  assumes "live fs" and "b < nblocks" "\<not> in_journal (super fs) b" "b < sb_total_blocks (super fs)"
    and "length d = K64_XFS_BLOCK_SIZE" and "room fs 1"
  obtains fs' where "store b d fs = (Ok (), fs')" "evolves 1 fs ((vw fs)(b := d)) fs'"
proof -
  let ?fs = "fs\<lparr>xfs_tmp_block := d\<rparr>"
  have r: "room ?fs 1" using assms(6) by (simp add: room_def)
  obtain fs' where "xfs_block_write b d ?fs = (Ok (), fs')" "evolves 1 ?fs ((vw ?fs)(b := d)) fs'"
    by (rule block_write_view [of ?fs b d]) (use assms r in auto)
  then show ?thesis by (intro that [of fs']) (auto simp: store_def bind_def put_tmp_def evolves_def)
qed

end

section \<open>Inodes\<close>

text \<open>
  \<open>layout_ok nb s\<close>: the areas of the superblock are inside the device, below the data and apart from each
  other, and one block is enough for the block bit map.
\<close>

definition in_table :: "k64_xfs_superblock \<Rightarrow> u64 \<Rightarrow> bool" where
  "in_table s b \<longleftrightarrow> unat (sb_inode_table_start s) \<le> unat b \<and> unat b < unat (sb_inode_table_start s) + 47"

definition layout_ok :: "u64 \<Rightarrow> k64_xfs_superblock \<Rightarrow> bool" where
  "layout_ok nb s \<longleftrightarrow> sb_total_blocks s \<le> nb \<and> unat (sb_total_blocks s) \<le> 32768 \<and> sb_data_start s < sb_total_blocks s \<and>
     unat (sb_journal_start s) + unat (sb_journal_blocks s) \<le> unat (sb_data_start s) \<and>
     unat (sb_inode_table_start s) + 47 \<le> unat (sb_data_start s) \<and>
     sb_inode_bitmap_start s < sb_data_start s \<and> sb_block_bitmap_start s < sb_data_start s \<and>
     (\<forall>b. in_table s b \<longrightarrow> \<not> in_journal s b) \<and>
     sb_inode_bitmap_start s \<noteq> sb_block_bitmap_start s \<and>
     (\<forall>b\<in>{sb_inode_bitmap_start s, sb_block_bitmap_start s}. \<not> in_journal s b \<and> \<not> in_table s b)"

definition inode_at :: "(u64 \<Rightarrow> bytes) \<Rightarrow> k64_xfs_superblock \<Rightarrow> u32 \<Rightarrow> k64_xfs_inode" where
  "inode_at V s ino = dec_inode (bytes_at (snd (inode_place s ino)) inode_size (V (fst (inode_place s ino))))"

definition inode_readable :: "u32 \<Rightarrow> k64_xfs_inode \<Rightarrow> bool" where
  "inode_readable ino i \<longleftrightarrow> i_magic i = K64_XFS_INODE_MAGIC \<and> i_inode_id i = ino \<and> i_checksum i = k64_xfs_inode_checksum i"

definition seal :: "k64_xfs_inode \<Rightarrow> k64_xfs_inode" where
  "seal i = i\<lparr>i_checksum := k64_xfs_inode_checksum i\<rparr>"

definition put_inode :: "k64_xfs_superblock \<Rightarrow> k64_xfs_inode \<Rightarrow> (u64 \<Rightarrow> bytes) \<Rightarrow> u64 \<Rightarrow> bytes" where
  "put_inode s i V = (case inode_place s (i_inode_id i) of (b, off) \<Rightarrow> V(b := put_at off (enc_inode (seal i)) (V b)))"

abbreviation inode_id_ok :: "u32 \<Rightarrow> bool" where
  "inode_id_ok ino \<equiv> ino \<noteq> 0 \<and> ino \<le> of_nat K64_XFS_MAX_INODES"

lemma seal_simps [simp]: "wf_inode (seal i) = wf_inode i" "i_inode_id (seal i) = i_inode_id i"
  by (simp_all add: seal_def wf_inode_def)

lemma seal_readable: "i_magic i = K64_XFS_INODE_MAGIC \<Longrightarrow> inode_readable (i_inode_id i) (seal i)"
  by (simp add: inode_readable_def seal_def k64_xfs_inode_checksum_def)

lemma inode_index:
  assumes "inode_id_ok ino"
  shows "unat (ino - 1) = unat ino - 1" "unat ino - 1 < 512" "0 < unat ino"
proof -
  have "1 \<le> ino" using assms by (simp add: word_le_nat_alt unat_gt_0 Suc_le_eq)
  then show "unat (ino - 1) = unat ino - 1" by (simp add: unat_sub)
  show "0 < unat ino" using assms by (simp add: unat_gt_0)
  then show "unat ino - 1 < 512" using assms by (simp add: word_le_nat_alt K64_XFS_MAX_INODES_def) linarith
qed

lemma inode_place_eq:
  assumes "inode_id_ok ino"
  shows "inode_place s ino = (sb_inode_table_start s + of_nat ((unat ino - 1) div 11), ((unat ino - 1) mod 11) * 372)"
  using inode_index [OF assms] by (simp add: inode_place_def Let_def K64_XFS_BLOCK_SIZE_def inode_size_def)

lemma data_start_below:
  assumes "layout_ok nb s"
  shows "unat (sb_data_start s) < unat (sb_total_blocks s)" "unat (sb_total_blocks s) \<le> unat nb" "unat (sb_total_blocks s) \<le> 32768"
  using assms by (auto simp: layout_ok_def word_less_nat_alt word_le_nat_alt)

lemma inode_block_ok:
  assumes lay: "layout_ok nb s" and ino: "inode_id_ok ino"
  shows "in_table s (fst (inode_place s ino))" "fst (inode_place s ino) < nb" "fst (inode_place s ino) < sb_total_blocks s"
    "\<not> in_journal s (fst (inode_place s ino))" "snd (inode_place s ino) + inode_size \<le> K64_XFS_BLOCK_SIZE"
    "unat (fst (inode_place s ino)) = unat (sb_inode_table_start s) + (unat ino - 1) div 11"
proof -
  let ?k = "(unat ino - 1) div 11"
  have k: "?k < 47" using inode_index(2) [OF ino] by (simp add: less_mult_imp_div_less)
  have t: "unat (sb_inode_table_start s) + 47 \<le> unat (sb_data_start s)" using lay by (simp add: layout_ok_def)
  have "unat (of_nat ?k :: u64) = ?k" using k by (intro unat_of_nat_small) simp
  then have u: "unat (fst (inode_place s ino)) = unat (sb_inode_table_start s) + ?k"
    unfolding inode_place_eq [OF ino] fst_conv using k t unat_u64_less [of "sb_data_start s"] by (subst unat_add_no_wrap) simp_all
  then show "unat (fst (inode_place s ino)) = unat (sb_inode_table_start s) + ?k" .
  show tab: "in_table s (fst (inode_place s ino))" using u k by (simp add: in_table_def)
  then show "\<not> in_journal s (fst (inode_place s ino))" using lay by (simp add: layout_ok_def)
  show "fst (inode_place s ino) < nb" "fst (inode_place s ino) < sb_total_blocks s"
    using u k t data_start_below [OF lay] by (simp_all add: word_less_nat_alt)
  have "(unat ino - 1) mod 11 * 372 \<le> 10 * 372" by (intro mult_le_mono1) (simp add: less_Suc_eq_le [symmetric])
  then show "snd (inode_place s ino) + inode_size \<le> K64_XFS_BLOCK_SIZE"
    unfolding inode_place_eq [OF ino] by (simp add: inode_size_def K64_XFS_BLOCK_SIZE_def)
qed

text \<open>Reading back an inode and its neighbours.\<close>

lemma inode_at_put_same:
  assumes "layout_ok nb s" and "inode_id_ok (i_inode_id i)" and "wf_inode i"
    and "length (V (fst (inode_place s (i_inode_id i)))) = K64_XFS_BLOCK_SIZE"
  shows "inode_at (put_inode s i V) s (i_inode_id i) = seal i"
  using inode_block_ok(5) [OF assms(1,2)] assms(3,4)
  by (auto simp: inode_at_def put_inode_def bytes_at_put_same split: prod.splits)

lemma inode_at_put_other:
  assumes lay: "layout_ok nb s" and ids: "inode_id_ok (i_inode_id i)" "inode_id_ok ino" "ino \<noteq> i_inode_id i" and wf: "wf_inode i"
    and len: "length (V (fst (inode_place s (i_inode_id i)))) = K64_XFS_BLOCK_SIZE"
  shows "inode_at (put_inode s i V) s ino = inode_at V s ino"
proof (cases "fst (inode_place s ino) = fst (inode_place s (i_inode_id i))")
  case False
  then show ?thesis by (auto simp: inode_at_def put_inode_def split: prod.splits)
next
  case True
  let ?m = "unat ino - 1" and ?n = "unat (i_inode_id i) - 1"
  have "?m div 11 = ?n div 11" using inode_block_ok(6) [OF lay ids(2)] inode_block_ok(6) [OF lay ids(1)] True by simp
  moreover have "?m \<noteq> ?n" using inode_index(3) [OF ids(1)] inode_index(3) [OF ids(2)] ids(3) by (auto simp: word_unat_eq_iff)
  ultimately have "?m mod 11 \<noteq> ?n mod 11" by (metis div_mod_decomp)
  then have "?m mod 11 * 372 + 372 \<le> ?n mod 11 * 372 \<or> ?n mod 11 * 372 + 372 \<le> ?m mod 11 * 372" by linarith
  then have apart: "snd (inode_place s ino) + inode_size \<le> snd (inode_place s (i_inode_id i)) \<or>
      snd (inode_place s (i_inode_id i)) + inode_size \<le> snd (inode_place s ino)"
    unfolding inode_place_eq [OF ids(1)] inode_place_eq [OF ids(2)] by (simp add: inode_size_def)
  show ?thesis
    using True apart wf len inode_block_ok(5) [OF lay ids(1)]
    by (auto simp: inode_at_def put_inode_def bytes_at_put_any split: prod.splits)
qed

context fs_disk
begin

lemma read_inode_view:
  assumes live: "live fs" and lay: "layout_ok nblocks (super fs)" and ino: "inode_id_ok ino"
  obtains fs' where "xfs_read_inode ino fs =
      (if inode_readable ino (inode_at (vw fs) (super fs) ino) then Ok (inode_at (vw fs) (super fs) ino) else Fail, fs')"
    "evolves 0 fs (vw fs) fs'"
proof -
  let ?p = "inode_place (super fs) ino"
  obtain fs' where l: "load (fst ?p) fs = (Ok (vw fs (fst ?p)), fs')" "evolves 0 fs (vw fs) fs'"
    by (rule load_view [OF live inode_block_ok(2,4) [OF lay ino]])
  have g: "\<not> (ino = 0 \<or> ino > of_nat K64_XFS_MAX_INODES)" using ino by (auto simp: not_less)
  have "xfs_read_inode ino fs =
      (if inode_readable ino (inode_at (vw fs) (super fs) ino) then Ok (inode_at (vw fs) (super fs) ino) else Fail, fs')"
    unfolding xfs_read_inode_def using g l(1)
    by (simp add: bind_def case_prod_beta inode_at_def Let_def inode_readable_def guard_def)
  then show ?thesis using l(2) by (rule that)
qed

lemma write_inode_view:
  assumes live: "live fs" and lay: "layout_ok nblocks (super fs)" and ino: "inode_id_ok (i_inode_id i)" and wf: "wf_inode i"
    and room: "room fs 1"
  obtains fs' where "xfs_write_inode i fs = (Ok (), fs')" "evolves 1 fs (put_inode (super fs) i (vw fs)) fs'"
proof -
  let ?p = "inode_place (super fs) (i_inode_id i)"
  let ?b = "put_at (snd ?p) (enc_inode (seal i)) (vw fs (fst ?p))"
  note blk = inode_block_ok [OF lay ino]
  obtain fs1 where 1: "load (fst ?p) fs = (Ok (vw fs (fst ?p)), fs1)" "evolves 0 fs (vw fs) fs1"
    by (rule load_view [OF live blk(2,4)])
  have fs1: "live fs1" "super fs1 = super fs" "vw fs1 = vw fs" using 1(2) by (auto simp: evolves_def)
  have len: "length ?b = K64_XFS_BLOCK_SIZE"
    using length_vw [OF live blk(2,4)] blk(5) wf by simp
  obtain fs2 where 2: "store (fst ?p) ?b fs1 = (Ok (), fs2)" "evolves 1 fs1 ((vw fs1)(fst ?p := ?b)) fs2"
    by (rule store_view [OF fs1(1) blk(2) _ _ len]) (use blk fs1 evolves_room [OF 1(2), of 1] room in auto)
  have g: "\<not> (i_inode_id i = 0 \<or> i_inode_id i > of_nat K64_XFS_MAX_INODES)" using ino by (auto simp: not_less)
  have "xfs_write_inode i fs = (Ok (), fs2)"
    unfolding xfs_write_inode_def using g 1(1) 2(1) by (simp add: bind_def case_prod_beta seal_def)
  moreover have "evolves 1 fs (put_inode (super fs) i (vw fs)) fs2"
    using evolves_trans [OF 1(2) 2(2)] fs1(3) by (simp add: put_inode_def case_prod_beta)
  ultimately show ?thesis by (rule that)
qed

end

section \<open>Bit maps\<close>

text \<open>\<open>free_run bm lo hi n s\<close>: the \<open>n\<close> blocks from \<open>s\<close> on are free and between \<open>lo\<close> and \<open>hi\<close>.\<close>

definition free_run :: "bytes \<Rightarrow> nat \<Rightarrow> nat \<Rightarrow> nat \<Rightarrow> nat \<Rightarrow> bool" where
  "free_run bm lo hi n s \<longleftrightarrow> lo \<le> s \<and> s + n \<le> hi \<and> (\<forall>x. s \<le> x \<and> x < s + n \<longrightarrow> \<not> bitmap_bit bm x)"

lemma unat_u32_small: "b < 32768 \<Longrightarrow> unat (of_nat b :: u32) = b"
  by (intro unat_of_nat_small) simp

lemma bitmap_get_ok: "length bm = 4096 \<Longrightarrow> b < 32768 \<Longrightarrow> xfs_bitmap_get bm (of_nat b) = Ok (bitmap_bit bm b)"
proof -
  assume "length bm = 4096" "b < 32768"
  moreover from this have "b div 8 < 4096" by (simp add: less_mult_imp_div_less)
  ultimately show ?thesis
    unfolding xfs_bitmap_get_def bitmap_bit_def by (simp only: unat_u32_small and_one_bit_neq_0 if_True)
qed

lemma bitmap_set_ok:
  "length bm = 4096 \<Longrightarrow> b < 32768 \<Longrightarrow> xfs_bitmap_set bm (of_nat b) v = Ok (if v then or_bit bm b else andn_bit bm b)"
  by (simp add: xfs_bitmap_set_def unat_u32_small less_mult_imp_div_less)

lemma extent_scan_first_fit:
  assumes len: "length bm = 4096" and hi: "hi \<le> 32768" and cur: "cur = (if rl = 0 then b else rs)"
    and inv: "lo \<le> cur" "cur + rl = b" "rl < n" "\<forall>x. cur \<le> x \<and> x < b \<longrightarrow> \<not> bitmap_bit bm x"
      "\<forall>s. s < cur \<longrightarrow> \<not> free_run bm lo hi n s"
  shows "extent_scan bm n [b..<hi] rs rl =
    (if \<exists>s. free_run bm lo hi n s then Ok (LEAST s. free_run bm lo hi n s) else Fail)"
  using cur inv
proof (induction "hi - b" arbitrary: b rs rl cur)
  case 0
  have "\<not> free_run bm lo hi n s" for s
  proof
    assume r: "free_run bm lo hi n s"
    then have "cur \<le> s" using "0.prems"(6) not_less by blast
    then show False using r "0.hyps" "0.prems"(3,4) by (simp add: free_run_def)
  qed
  then show ?case using "0.hyps" by simp
next
  case (Suc m)
  have b: "b < hi" using Suc.hyps(2) by simp
  have get: "xfs_bitmap_get bm (of_nat b) = Ok (bitmap_bit bm b)" using bitmap_get_ok [OF len] b hi by simp
  have up: "[b..<hi] = b # [Suc b..<hi]" using b by (simp add: upt_conv_Cons)
  show ?case
  proof (cases "bitmap_bit bm b")
    case True
    have none: "\<not> free_run bm lo hi n s" if "s < Suc b" for s
    proof
      assume r: "free_run bm lo hi n s"
      then have "cur \<le> s" using Suc.prems(6) not_less by blast
      then have "s \<le> b" "b < s + n" using that Suc.prems(3,4) by auto
      then show False using r True by (auto simp: free_run_def)
    qed
    have step: "extent_scan bm n [b..<hi] rs rl = extent_scan bm n [Suc b..<hi] rs 0" using get up True by simp
    show ?thesis unfolding step
      by (rule Suc.hyps(1) [where cur = "Suc b"]) (use Suc.hyps(2) Suc.prems none in auto)
  next
    case False
    have start: "(if rl = 0 then b else rs) = cur" using Suc.prems(1) by simp
    show ?thesis
    proof (cases "rl + 1 = n")
      case True
      have run: "free_run bm lo hi n cur"
        using Suc.prems(2,3,5) True False b by (auto simp: free_run_def less_Suc_eq)
      then have "(LEAST s. free_run bm lo hi n s) = cur"
        by (intro Least_equality) (use Suc.prems(6) not_less in blast)+
      then show ?thesis using run get up False True start by (auto simp: Let_def)
    next
      case no: False
      have step: "extent_scan bm n [b..<hi] rs rl = extent_scan bm n [Suc b..<hi] cur (rl + 1)"
        using get up False no start by (simp add: Let_def)
      show ?thesis unfolding step
        by (rule Suc.hyps(1) [where cur = cur]) (use Suc.hyps(2) Suc.prems False no in \<open>auto simp: less_Suc_eq\<close>)
    qed
  qed
qed

definition run_set :: "bytes \<Rightarrow> nat \<Rightarrow> nat \<Rightarrow> bytes \<Rightarrow> bool" where
  "run_set bm s n bm' \<longleftrightarrow> length bm' = 4096 \<and> (\<forall>x<32768. bitmap_bit bm' x = (s \<le> x \<and> x < s + n \<or> bitmap_bit bm x))"

definition run_cleared :: "bytes \<Rightarrow> nat \<Rightarrow> nat \<Rightarrow> bytes \<Rightarrow> bool" where
  "run_cleared bm s n bm' \<longleftrightarrow> length bm' = 4096 \<and> (\<forall>x<32768. bitmap_bit bm' x = (\<not> (s \<le> x \<and> x < s + n) \<and> bitmap_bit bm x))"

lemma run_set_Suc:
  assumes "length bm = 4096" and "s < 32768" and "run_set (or_bit bm s) (Suc s) n bm'"
  shows "run_set bm s (Suc n) bm'"
  unfolding run_set_def
proof (intro conjI allI impI)
  show "length bm' = 4096" using assms by (simp add: run_set_def)
  fix x :: nat assume "x < 32768"
  then have "bitmap_bit bm' x = (Suc s \<le> x \<and> x < Suc s + n \<or> bitmap_bit (or_bit bm s) x)" using assms(3) by (simp add: run_set_def)
  then show "bitmap_bit bm' x = (s \<le> x \<and> x < s + Suc n \<or> bitmap_bit bm x)"
    using bitmap_bit_or_bit [of s bm x] assms(1,2) by auto
qed

lemma set_bits_ex:
  assumes "length bm = 4096" and "s + n \<le> 32768"
  shows "\<exists>bm'. set_bits [s..<s + n] bm = Ok bm' \<and> run_set bm s n bm'"
  using assms
proof (induction n arbitrary: s bm)
  case 0
  then show ?case by (auto simp: run_set_def)
next
  case (Suc n)
  have s: "s < 32768" and len: "length (or_bit bm s) = 4096" and le: "Suc s + n \<le> 32768" using Suc.prems by auto
  obtain bm' where bm': "set_bits [Suc s..<Suc s + n] (or_bit bm s) = Ok bm'" "run_set (or_bit bm s) (Suc s) n bm'"
    using Suc.IH [OF len le] by blast
  have up: "[s..<s + Suc n] = s # [Suc s..<Suc s + n]" by (simp add: upt_conv_Cons)
  have "set_bits [s..<s + Suc n] bm = Ok bm'" unfolding up using bm'(1) bitmap_set_ok [OF Suc.prems(1) s] by simp
  then show ?case using run_set_Suc [OF Suc.prems(1) s bm'(2)] by blast
qed

lemma clear_bits_ex:
  assumes "length bm = 4096" and "s + n \<le> 32768"
  shows "\<exists>bm'. clear_bits [s..<s + n] bm k = Ok (bm', k + of_nat (card (marked bm s (s + n)))) \<and> run_cleared bm s n bm'"
  using assms unfolding run_cleared_def
proof (induction n arbitrary: s bm k)
  case 0
  have "marked bm s s = {}" by (auto simp: marked_def)
  then show ?case using 0 by auto
next
  case (Suc n)
  have s: "s < 32768" "Suc s + n \<le> 32768" using Suc.prems by auto
  define bm1 where "bm1 = (if bitmap_bit bm s then andn_bit bm s else bm)"
  define k1 where "k1 = (if bitmap_bit bm s then k + 1 else k)"
  have len: "length bm1 = 4096" using Suc.prems by (simp add: bm1_def)
  from Suc.IH [OF len s(2), of k1]
  obtain bm' where bm': "clear_bits [Suc s..<Suc s + n] bm1 k1 = Ok (bm', k1 + of_nat (card (marked bm1 (Suc s) (Suc s + n))))"
      "length bm' = 4096" "\<forall>x<32768. bitmap_bit bm' x = (\<not> (Suc s \<le> x \<and> x < Suc s + n) \<and> bitmap_bit bm1 x)"
    by blast
  have up: "[s..<s + Suc n] = s # [Suc s..<Suc s + n]" by (simp add: upt_conv_Cons)
  have bit: "bitmap_bit bm1 x = (x \<noteq> s \<and> bitmap_bit bm x)" for x
    using bitmap_bit_andn_bit [of s bm x] s Suc.prems(1) by (auto simp: bm1_def)
  have same: "marked bm1 (Suc s) (Suc s + n) = marked bm (Suc s) (Suc s + n)"
    unfolding marked_def by (rule Collect_cong) (simp add: bit Suc_le_eq, blast)
  have "marked bm s (s + Suc n) = (if bitmap_bit bm s then {s} else {}) \<union> marked bm (Suc s) (Suc s + n)"
    by (auto simp: marked_def le_eq_less_or_eq)
  moreover have "s \<notin> marked bm (Suc s) (Suc s + n)" by (simp add: marked_def)
  ultimately have card: "card (marked bm s (s + Suc n)) = (if bitmap_bit bm s then 1 else 0) + card (marked bm (Suc s) (Suc s + n))"
    by simp
  have step: "clear_bits [s..<s + Suc n] bm k = clear_bits [Suc s..<Suc s + n] bm1 k1"
    unfolding up using bitmap_set_ok [OF Suc.prems(1) s(1), of False] bitmap_get_ok [OF Suc.prems(1) s(1)] by (simp add: bm1_def k1_def)
  have num: "k1 + of_nat (card (marked bm (Suc s) (Suc s + n))) = k + of_nat (card (marked bm s (s + Suc n)))"
    unfolding card by (simp add: k1_def add.assoc)
  have bits: "\<forall>x<32768. bitmap_bit bm' x = (\<not> (s \<le> x \<and> x < s + Suc n) \<and> bitmap_bit bm x)"
    using bm'(3) bit by auto
  show ?case unfolding step bm'(1) same num using bm'(2) bits by blast
qed

section \<open>Extents\<close>

definition with_free :: "u64 \<Rightarrow> 'w k64_xfs_mount \<Rightarrow> 'w k64_xfs_mount" where
  "with_free n fs = fs\<lparr>super := (super fs)\<lparr>sb_free_blocks := n\<rparr>\<rparr>"

lemma with_free_simps [simp]:
  "m_dev (with_free n fs) = m_dev fs" "drv (with_free n fs) = drv fs" "cache (with_free n fs) = cache fs"
  "mounted (with_free n fs) = mounted fs" "journal_active (with_free n fs) = journal_active fs"
  "journal_records (with_free n fs) = journal_records fs" "tx_id (with_free n fs) = tx_id fs"
  "super (with_free n fs) = (super fs)\<lparr>sb_free_blocks := n\<rparr>" "xfs_tmp_block (with_free n fs) = xfs_tmp_block fs"
  "room (with_free n fs) k = room fs k"
  by (simp_all add: with_free_def room_def)

lemma free_blocks_irrelevant [simp]:
  "in_journal (s\<lparr>sb_free_blocks := n\<rparr>) b = in_journal s b" "journal_fits nb (s\<lparr>sb_free_blocks := n\<rparr>) = journal_fits nb s"
  "in_table (s\<lparr>sb_free_blocks := n\<rparr>) b = in_table s b" "layout_ok nb (s\<lparr>sb_free_blocks := n\<rparr>) = layout_ok nb s"
  "inode_place (s\<lparr>sb_free_blocks := n\<rparr>) ino = inode_place s ino" "put_inode (s\<lparr>sb_free_blocks := n\<rparr>) i V = put_inode s i V"
  "inode_at V (s\<lparr>sb_free_blocks := n\<rparr>) ino = inode_at V s ino"
  by (simp_all add: in_journal_def journal_fits_def in_table_def layout_ok_def inode_place_def put_inode_def inode_at_def fun_eq_iff)

abbreviation data_lo :: "k64_xfs_superblock \<Rightarrow> nat" where "data_lo s \<equiv> unat (sb_data_start s)"
abbreviation data_hi :: "k64_xfs_superblock \<Rightarrow> nat" where "data_hi s \<equiv> unat (sb_total_blocks s)"

context fs_disk
begin

lemma live_with_free [simp]: "live (with_free n fs) = live fs" "vw (with_free n fs) = vw fs"
  by (auto simp: live_def vw_def)

lemma bitmap_block_ok:
  assumes "layout_ok nblocks s" and "b = sb_block_bitmap_start s \<or> b = sb_inode_bitmap_start s"
  shows "b < nblocks" "b < sb_total_blocks s" "\<not> in_journal s b" "\<not> in_table s b" "unat b < data_lo s"
proof -
  have "b < sb_data_start s" using assms by (auto simp: layout_ok_def)
  then show "unat b < data_lo s" by (simp add: word_less_nat_alt)
  then show "b < nblocks" "b < sb_total_blocks s" using data_start_below [OF assms(1)] by (simp_all add: word_less_nat_alt)
  show "\<not> in_journal s b" "\<not> in_table s b" using assms by (auto simp: layout_ok_def)
qed

lemma data_block_ok:
  assumes "layout_ok nblocks s" and "data_lo s \<le> b" and "b < data_hi s"
  shows "unat (of_nat b :: u64) = b" "(of_nat b :: u64) < nblocks" "(of_nat b :: u64) < sb_total_blocks s" "\<not> in_journal s (of_nat b)"
proof -
  show u: "unat (of_nat b :: u64) = b" using assms data_start_below [OF assms(1)] by (intro unat_of_nat_small) simp
  show "(of_nat b :: u64) < nblocks" "(of_nat b :: u64) < sb_total_blocks s"
    using u assms data_start_below [OF assms(1)] by (simp_all add: word_less_nat_alt)
  show "\<not> in_journal s (of_nat b)" using u assms by (simp add: in_journal_def layout_ok_def)
qed

text \<open>
  Allocation: the first free run, marked in the map and counted; without one, or with a free count below
  the size, nothing changes.
\<close>

lemma alloc_extent_view:
  assumes live: "live fs" and lay: "layout_ok nblocks (super fs)" and room: "room fs 1"
    and n: "blocks \<noteq> 0" "blocks \<le> 0xFFFFFFFF" and bm: "bm = vw fs (sb_block_bitmap_start (super fs))"
    and run: "R = free_run bm (data_lo (super fs)) (data_hi (super fs)) (unat blocks)"
  shows "if Ex R \<and> blocks \<le> sb_free_blocks (super fs)
    then \<exists>bm' fs'. xfs_alloc_extent blocks fs = (Ok (of_nat (Least R)), fs') \<and> run_set bm (Least R) (unat blocks) bm' \<and>
      evolves 1 (with_free (sb_free_blocks (super fs) - blocks) fs) ((vw fs)(sb_block_bitmap_start (super fs) := bm')) fs'
    else \<exists>fs'. xfs_alloc_extent blocks fs = (Fail, fs') \<and> evolves 0 fs (vw fs) fs'"
proof -
  let ?s = "super fs" and ?b = "sb_block_bitmap_start (super fs)"
  note blk = bitmap_block_ok [OF lay, of ?b]
  obtain fs1 where 1: "load ?b fs = (Ok bm, fs1)" "evolves 0 fs (vw fs) fs1"
    unfolding bm by (rule load_view [OF live]) (use blk in auto)
  have fs1: "live fs1" "super fs1 = ?s" "vw fs1 = vw fs" using 1(2) by (auto simp: evolves_def)
  have len: "length bm = 4096" using length_vw [OF live, of ?b] blk by (simp add: bm K64_XFS_BLOCK_SIZE_def)
  have hi: "data_hi ?s \<le> 32768" using data_start_below [OF lay] by simp
  have pos: "0 < unat blocks" using n(1) by (simp add: unat_gt_0)
  have scan: "extent_scan bm (unat blocks) [data_lo ?s..<data_hi ?s] 0 0 = (if Ex R then Ok (Least R) else Fail)"
    unfolding run by (rule extent_scan_first_fit [OF len hi refl]) (use pos in \<open>auto simp: free_run_def\<close>)
  have g: "\<not> (blocks = 0 \<or> blocks > 0xFFFFFFFF)" using n by (simp add: not_less)
  have alloc: "xfs_alloc_extent blocks fs =
     bind (of_res (if Ex R then Ok (Least R) else Fail)) (\<lambda>start.
        bind (of_res (set_bits [start..<start + unat blocks] bm)) (\<lambda>bm.
        bind (put_tmp bm) (\<lambda>_.
        guard (\<not> sb_free_blocks ?s < blocks)
          (bind (modify (\<lambda>fs. fs\<lparr>super := (super fs)\<lparr>sb_free_blocks := sb_free_blocks (super fs) - blocks\<rparr>\<rparr>)) (\<lambda>_.
           bind (xfs_block_write ?b bm) (\<lambda>_.
           ret (of_nat start))))))) fs1"
    unfolding xfs_alloc_extent_def scan [symmetric] using g 1(1) by (simp add: bind_run)
  show ?thesis
  proof (cases "Ex R")
    case False
    have "xfs_alloc_extent blocks fs = (Fail, fs1)" unfolding alloc if_not_P [OF False] by (simp add: of_res_def bind_def)
    then show ?thesis unfolding if_not_P [OF False] using False 1(2) by (simp only: simp_thms if_False) blast
  next
    case ex: True
    define st where "st = Least R"
    have "R st" unfolding st_def using ex by (rule LeastI_ex)
    then have st: "st + unat blocks \<le> 32768" using hi by (simp add: run free_run_def)
    obtain bm' where bm': "set_bits [st..<st + unat blocks] bm = Ok bm'" "run_set bm st (unat blocks) bm'"
      using set_bits_ex [OF len st] by blast
    have len': "length bm' = 4096" using bm'(2) by (simp add: run_set_def)
    let ?fs = "fs1\<lparr>xfs_tmp_block := bm'\<rparr>"
    have tail: "xfs_alloc_extent blocks fs = guard (\<not> sb_free_blocks ?s < blocks)
          (bind (modify (\<lambda>fs. fs\<lparr>super := (super fs)\<lparr>sb_free_blocks := sb_free_blocks (super fs) - blocks\<rparr>\<rparr>)) (\<lambda>_.
           bind (xfs_block_write ?b bm') (\<lambda>_. ret (of_nat st)))) ?fs"
      unfolding alloc st_def [symmetric] using ex bm'(1) by (simp add: of_res_def bind_def put_tmp_def)
    show ?thesis
    proof (cases "sb_free_blocks ?s < blocks")
      case True
      then show ?thesis using tail evolves_tmp [OF 1(2)] by auto
    next
      case False
      let ?g = "with_free (sb_free_blocks ?s - blocks) ?fs"
      have eq: "?fs\<lparr>super := (super ?fs)\<lparr>sb_free_blocks := sb_free_blocks (super ?fs) - blocks\<rparr>\<rparr> = ?g"
        using fs1(2) by (simp add: with_free_def)
      obtain fs2 where 2: "xfs_block_write ?b bm' ?g = (Ok (), fs2)" "evolves 1 ?g ((vw ?g)(?b := bm')) fs2"
        by (rule block_write_view [of ?g ?b bm'])
          (use fs1 blk len' evolves_room [OF 1(2), of 1] room in \<open>auto simp: K64_XFS_BLOCK_SIZE_def room_def\<close>)
      have "xfs_alloc_extent blocks fs = (Ok (of_nat st), fs2)"
        unfolding tail using False 2(1) eq by (simp add: bind_def)
      moreover have "evolves 1 (with_free (sb_free_blocks ?s - blocks) fs) ((vw fs)(?b := bm')) fs2"
        using 2(2) 1(2) by (auto simp: evolves_def)
      moreover have "blocks \<le> sb_free_blocks ?s" using False by simp
      ultimately show ?thesis using ex bm'(2) unfolding st_def by auto
    qed
  qed
qed

text \<open>Release: the bits of the extent are cleared and the ones that were set are added to the free count.\<close>

lemma free_extent_view:
  assumes live: "live fs" and lay: "layout_ok nblocks (super fs)" and room: "room fs 1"
    and ext: "blocks \<noteq> 0" "data_lo (super fs) \<le> unat start" "unat start + unat blocks \<le> data_hi (super fs)"
    and bm: "bm = vw fs (sb_block_bitmap_start (super fs))"
  shows "\<exists>bm' fs'. xfs_free_extent start blocks fs = (Ok (), fs') \<and> run_cleared bm (unat start) (unat blocks) bm' \<and>
      evolves 1 (with_free (sb_free_blocks (super fs) + of_nat (card (marked bm (unat start) (unat start + unat blocks)))) fs)
        ((vw fs)(sb_block_bitmap_start (super fs) := bm')) fs'"
proof -
  let ?s = "super fs" and ?b = "sb_block_bitmap_start (super fs)"
  let ?n = "sb_free_blocks ?s + of_nat (card (marked bm (unat start) (unat start + unat blocks)))"
  note blk = bitmap_block_ok [OF lay, of ?b]
  obtain fs1 where 1: "load ?b fs = (Ok bm, fs1)" "evolves 0 fs (vw fs) fs1"
    unfolding bm by (rule load_view [OF live]) (use blk in auto)
  have fs1: "live fs1" "super fs1 = ?s" "vw fs1 = vw fs" using 1(2) by (auto simp: evolves_def)
  have len: "length bm = 4096" using length_vw [OF live, of ?b] blk by (simp add: bm K64_XFS_BLOCK_SIZE_def)
  have hi: "unat start + unat blocks \<le> 32768" using ext(3) data_start_below [OF lay] by simp
  have "unat (start + blocks) = unat start + unat blocks" by (rule unat_add_no_wrap) (use hi in simp)
  then have g: "\<not> (blocks = 0 \<or> start < sb_data_start ?s \<or> start + blocks > sb_total_blocks ?s)"
    using ext by (simp add: word_less_nat_alt)
  obtain bm' where bm': "clear_bits [unat start..<unat start + unat blocks] bm (sb_free_blocks ?s) = Ok (bm', ?n)"
      "run_cleared bm (unat start) (unat blocks) bm'"
    using clear_bits_ex [OF len hi, of "sb_free_blocks ?s"] by blast
  have len': "length bm' = 4096" using bm'(2) by (simp add: run_cleared_def)
  let ?g = "with_free ?n fs1"
  obtain fs2 where 2: "store ?b bm' ?g = (Ok (), fs2)" "evolves 1 ?g ((vw ?g)(?b := bm')) fs2"
    by (rule store_view [of ?g ?b bm'])
      (use fs1 blk len' evolves_room [OF 1(2), of 1] room in \<open>auto simp: K64_XFS_BLOCK_SIZE_def\<close>)
  have "xfs_free_extent start blocks fs = (Ok (), fs2)"
    unfolding xfs_free_extent_def using g 1(1) bm'(1) 2(1) by (simp add: bind_run of_res_def with_free_def)
  moreover have "evolves 1 (with_free ?n fs) ((vw fs)(?b := bm')) fs2" using 2(2) 1(2) by (auto simp: evolves_def)
  ultimately show ?thesis using bm'(2) by blast
qed

end

end
