(* ===== verification/Xfs_Props.thy ===== *)
theory Xfs_Props
  imports Xfs_View
begin

text \<open>
  Properties of the K64XFS operations on any device that behaves like a disk, with the cache and an open
  or closed journal in between: the inode table and the block allocator.
\<close>

section \<open>A mount to try things on\<close>

text \<open>The superblock of a formatted fallback device, on blank blocks.\<close>

definition sample_mount :: "memdevs k64_xfs_mount" where
  "sample_mount = (blank_mount (fallback_device 1 0) zero_memory)\<lparr>super := format_super 2048 None\<rparr>"

abbreviation sample_live :: "memdevs k64_xfs_mount \<Rightarrow> bool" where
  "sample_live \<equiv> fs_disk.live (fallback_device 1 0) 2048 (mem_blocks 0) (mem_ready 0)"

lemma sample_super:
  "sb_journal_start (format_super n l) = 3" "sb_journal_blocks (format_super n l) = 32" "sb_inode_table_start (format_super n l) = 35"
  "sb_data_start (format_super n l) = 82" "sb_total_blocks (format_super n l) = n" "sb_inode_bitmap_start (format_super n l) = 1"
  "sb_block_bitmap_start (format_super n l) = 2" "sb_free_blocks (format_super n l) = n - 83" "sb_root_inode (format_super n l) = 1"
  by (simp_all add: format_super_def Let_def XFS_JOURNAL_START_def XFS_INODE_TABLE_START_def K64_XFS_JOURNAL_BLOCKS_def
      xfs_data_start_def xfs_inode_table_blocks_def K64_XFS_MAX_INODES_def K64_XFS_BLOCK_SIZE_def inode_size_def
      XFS_INODE_BITMAP_BLOCK_def XFS_BLOCK_BITMAP_BLOCK_def)

lemma format_layout: "layout_ok 2048 (format_super 2048 l)"
  by (auto simp: layout_ok_def sample_super in_table_def in_journal_def)

lemma cached_init: "cached_blocks k64_xfs_cache_init = {}"
  by (simp add: cached_blocks_def k64_xfs_cache_init_def empty_entry_def)

lemma sample_is_live: "sample_live sample_mount"
  unfolding mem.live_def
  by (simp add: sample_mount_def blank_mount_def zero_memory_ready cache_init_coherent journal_fits_def sample_super cached_init)

lemma sample_simps [simp]: "super sample_mount = format_super 2048 None" "journal_active sample_mount = False"
  "mounted sample_mount" "drv sample_mount = zero_memory" "cache sample_mount = k64_xfs_cache_init"
  by (simp_all add: sample_mount_def blank_mount_def)

section \<open>Inodes\<close>

text \<open>C12: the inode table is a store of inodes. Take a mount of a disk-like device whose superblock lays out
  disjoint areas (\<open>layout_ok\<close>), whose cache is coherent with the device and holds no journal block (\<open>live\<close>), and
  whose open transaction, if there is one, has room for one more record (\<open>room fs 1\<close>). Then writing an inode with
  a valid number and magic succeeds, reading its number returns it with its checksum, and reading any other valid
  number gives what it gave before.\<close>

theorem inode_table_roundtrip:
  assumes disk: "fs_disk dev nb disk ready" and live: "fs_disk.live dev nb disk ready fs" and lay: "layout_ok nb (super fs)"
    and room: "room fs 1" and i: "inode_id_ok (i_inode_id i)" "i_magic i = K64_XFS_INODE_MAGIC" "wf_inode i"
  shows "\<exists>fs'. xfs_write_inode i fs = (Ok (), fs') \<and> fst (xfs_read_inode (i_inode_id i) fs') = Ok (seal i) \<and>
    (\<forall>ino. inode_id_ok ino \<and> ino \<noteq> i_inode_id i \<longrightarrow> fst (xfs_read_inode ino fs') = fst (xfs_read_inode ino fs))"
proof -
  obtain fs' where w: "xfs_write_inode i fs = (Ok (), fs')"
      "fs_disk.evolves dev nb disk ready 1 fs (put_inode (super fs) i (fs_disk.vw disk fs)) fs'"
    by (rule fs_disk.write_inode_view [OF disk live lay i(1,3) room])
  let ?V = "fs_disk.vw disk fs" and ?s = "super fs"
  have fs': "fs_disk.live dev nb disk ready fs'" "super fs' = ?s" "fs_disk.vw disk fs' = put_inode ?s i ?V"
    using w(2) by (simp_all add: fs_disk.evolves_def [OF disk])
  have lay': "layout_ok nb (super fs')" using lay fs'(2) by simp
  note blk = inode_block_ok [OF lay i(1)]
  have len: "length (?V (fst (inode_place ?s (i_inode_id i)))) = K64_XFS_BLOCK_SIZE"
    by (rule fs_disk.length_vw [OF disk live blk(2,4)])
  have rd: "fst (xfs_read_inode ino f) = (if inode_readable ino (inode_at (fs_disk.vw disk f) (super f) ino)
      then Ok (inode_at (fs_disk.vw disk f) (super f) ino) else Fail)"
    if "fs_disk.live dev nb disk ready f" "layout_ok nb (super f)" "inode_id_ok ino" for f ino
    by (rule fs_disk.read_inode_view [OF disk that]) simp
  have "fst (xfs_read_inode (i_inode_id i) fs') = Ok (seal i)"
    unfolding rd [OF fs'(1) lay' i(1)] fs'(2,3) inode_at_put_same [where V = ?V, OF lay i(1,3) len]
    by (simp add: seal_readable [OF i(2)])
  moreover have "fst (xfs_read_inode ino fs') = fst (xfs_read_inode ino fs)" if "inode_id_ok ino \<and> ino \<noteq> i_inode_id i" for ino
  proof -
    have ino: "inode_id_ok ino" "ino \<noteq> i_inode_id i" using that by auto
    show ?thesis unfolding rd [OF fs'(1) lay' ino(1)] rd [OF live lay ino(1)] fs'(2,3)
        inode_at_put_other [where V = ?V, OF lay i(1) ino i(3) len] ..
  qed
  ultimately show ?thesis using w(1) by blast
qed

theorem inode_table_roundtrip_witness:
  "\<exists>fs'. xfs_write_inode (format_root 82) sample_mount = (Ok (), fs') \<and>
     fst (xfs_read_inode 1 fs') = Ok (seal (format_root 82)) \<and> fst (xfs_read_inode 2 fs') = fst (xfs_read_inode 2 sample_mount)"
proof -
  let ?i = "format_root 82"
  have "i_inode_id ?i = 1" "i_magic ?i = K64_XFS_INODE_MAGIC" "wf_inode ?i"
    by (simp_all add: format_root_def blank_inode_def wf_inode_def)
  moreover have "layout_ok 2048 (super sample_mount)" "room sample_mount 1" by (simp_all add: format_layout room_def)
  ultimately show ?thesis
    using inode_table_roundtrip [OF mem.fs_disk_axioms [where ctx = 0 and ident = 1] sample_is_live, of ?i]
    by (auto simp: K64_XFS_MAX_INODES_def)
qed

section \<open>Extents\<close>

lemma bitmap_eqI:
  assumes len: "length bm = 4096" "length bm' = 4096" and bits: "\<And>x. x < 32768 \<Longrightarrow> bitmap_bit bm x = bitmap_bit bm' x"
  shows "bm = bm'"
proof (rule nth_equalityI)
  fix i assume i: "i < length bm"
  show "bm ! i = bm' ! i"
  proof (rule bit_word_eqI)
    fix n assume n: "n < LENGTH(8)"
    have "bitmap_bit bm (8 * i + n) = bitmap_bit bm' (8 * i + n)" using i n len by (intro bits) simp
    then show "bit (bm ! i) n = bit (bm' ! i) n" using n by (simp add: bitmap_bit_def)
  qed
qed (simp add: len)

text \<open>Marking a free run and clearing it again.\<close>

lemma run_set_cleared:
  assumes len: "length bm = 4096" and free: "free_run bm lo hi n s" and hi: "hi \<le> 32768"
    and set: "run_set bm s n bm1" and cleared: "run_cleared bm1 s n bm2"
  shows "bm2 = bm" "card (marked bm1 s (s + n)) = n"
proof -
  have b1: "bitmap_bit bm1 x = (s \<le> x \<and> x < s + n \<or> bitmap_bit bm x)" if "x < 32768" for x
    using set that by (simp add: run_set_def)
  have b2: "bitmap_bit bm2 x = (\<not> (s \<le> x \<and> x < s + n) \<and> bitmap_bit bm1 x)" if "x < 32768" for x
    using cleared that by (simp add: run_cleared_def)
  have fr: "\<not> bitmap_bit bm x" if "s \<le> x" "x < s + n" for x using free that by (simp add: free_run_def)
  have top: "s + n \<le> 32768" using free hi by (simp add: free_run_def)
  show "bm2 = bm"
  proof (rule bitmap_eqI)
    show "length bm2 = 4096" using cleared by (simp add: run_cleared_def)
    fix x :: nat assume "x < 32768"
    then show "bitmap_bit bm2 x = bitmap_bit bm x" using b1 b2 fr by blast
  qed (rule len)
  have "marked bm1 s (s + n) = {s..<s + n}" using b1 top by (auto simp: marked_def)
  then show "card (marked bm1 s (s + n)) = n" by simp
qed

text \<open>C13: The block allocator is first fit. On a mounted disk-like device with a well-formed layout and room for one more
  record in the open transaction, a request for \<open>n\<close> blocks is given the lowest run of \<open>n\<close> clear bits of
  the data area, and the run is then marked and the free count \<open>n\<close> smaller; without such a run, or with a free count
  below \<open>n\<close>, the request fails and neither the blocks nor the superblock change.\<close>

theorem extent_alloc_first_fit:
  assumes disk: "fs_disk dev nb disk ready" and live: "fs_disk.live dev nb disk ready fs" and lay: "layout_ok nb (super fs)"
    and room: "room fs 1" and n: "n \<noteq> 0" "n \<le> 0xFFFFFFFF"
    and bm: "bm = fs_disk.vw disk fs (sb_block_bitmap_start (super fs))"
    and run: "R = free_run bm (data_lo (super fs)) (data_hi (super fs)) (unat n)"
  shows "if Ex R \<and> n \<le> sb_free_blocks (super fs)
    then \<exists>bm' fs'. xfs_alloc_extent n fs = (Ok (of_nat (Least R)), fs') \<and> run_set bm (Least R) (unat n) bm' \<and>
      super fs' = (super fs)\<lparr>sb_free_blocks := sb_free_blocks (super fs) - n\<rparr> \<and>
      fs_disk.vw disk fs' = (fs_disk.vw disk fs)(sb_block_bitmap_start (super fs) := bm')
    else \<exists>fs'. xfs_alloc_extent n fs = (Fail, fs') \<and> super fs' = super fs \<and> fs_disk.vw disk fs' = fs_disk.vw disk fs"
  using fs_disk.alloc_extent_view [OF disk live lay room n bm run]
  by (auto simp: fs_disk.evolves_def [OF disk] split: if_splits)

lemma sample_bitmap: "mem.vw 0 sample_mount 2 = replicate 4096 0"
  by (simp add: mem.vw_def in_journal_def sample_super cache_init_view zero_blocks K64_XFS_BLOCK_SIZE_def)

lemma sample_run: "Ex (free_run (replicate 4096 0) 82 2048 5)" "Least (free_run (replicate 4096 0) 82 2048 5) = 82"
proof -
  have r: "free_run (replicate 4096 0) 82 2048 5 82" by (auto simp: free_run_def bitmap_bit_def)
  then show "Ex (free_run (replicate 4096 0) 82 2048 5)" by blast
  from r show "Least (free_run (replicate 4096 0) 82 2048 5) = 82" by (intro Least_equality) (auto simp: free_run_def)
qed

lemma sample_room: "room sample_mount k" "layout_ok 2048 (super sample_mount)"
  by (simp_all add: room_def format_layout)

lemmas sample_facts = sample_super sample_bitmap sample_run

theorem extent_alloc_first_fit_witness:
  "\<exists>bm' fs'. xfs_alloc_extent 5 sample_mount = (Ok 82, fs') \<and> run_set (replicate 4096 0) 82 5 bm' \<and>
     sb_free_blocks (super fs') = 1960"
  using extent_alloc_first_fit [OF mem.fs_disk_axioms [where ctx = 0 and ident = 1] sample_is_live sample_room(2,1) _ _ refl refl, of 5]
  by (auto simp: sample_facts)

text \<open>Releasing what was allocated undoes it: after \<open>xfs_alloc_extent\<close> has returned a run, \<open>xfs_free_extent\<close> of
  that run succeeds and leaves every block of the device, as seen through the cache, and the superblock with its
  free count as they were before the allocation.\<close>

theorem extent_alloc_free_roundtrip:
  assumes disk: "fs_disk dev nb disk ready" and live: "fs_disk.live dev nb disk ready fs" and lay: "layout_ok nb (super fs)"
    and room: "room fs 2" and alloc: "xfs_alloc_extent n fs = (Ok start, fs1)"
  shows "\<exists>fs2. xfs_free_extent start n fs1 = (Ok (), fs2) \<and> super fs2 = super fs \<and> fs_disk.vw disk fs2 = fs_disk.vw disk fs"
proof -
  let ?s = "super fs" and ?b = "sb_block_bitmap_start (super fs)"
  let ?V = "fs_disk.vw disk fs"
  define bm where "bm = ?V ?b"
  define R where "R = free_run bm (data_lo ?s) (data_hi ?s) (unat n)"
  have n: "n \<noteq> 0" "n \<le> 0xFFFFFFFF" using alloc by (auto simp: xfs_alloc_extent_def guard_def split: if_splits)
  have "room fs 1" using room by (auto simp: room_def)
  from fs_disk.alloc_extent_view [OF disk live lay this n bm_def R_def]
  obtain bm1 where ok: "Ex R" and start: "start = of_nat (Least R)" and bm1: "run_set bm (Least R) (unat n) bm1"
      and e1: "fs_disk.evolves dev nb disk ready 1 (with_free (sb_free_blocks ?s - n) fs) (?V(?b := bm1)) fs1"
    using alloc by (auto split: if_splits)
  have free: "free_run bm (data_lo ?s) (data_hi ?s) (unat n) (Least R)" using LeastI_ex [OF ok] unfolding R_def .
  have hi: "data_hi ?s \<le> 32768" using data_start_below [OF lay] by simp
  have "Least R < 2 ^ 64" using free hi by (simp add: free_run_def)
  then have us: "unat start = Least R" unfolding start by (simp add: unat_of_nat_small)
  have fs1: "fs_disk.live dev nb disk ready fs1" "super fs1 = ?s\<lparr>sb_free_blocks := sb_free_blocks ?s - n\<rparr>" "fs_disk.vw disk fs1 = ?V(?b := bm1)"
    using e1 by (simp_all add: fs_disk.evolves_def [OF disk])
  have room1: "room fs1 1" using fs_disk.evolves_room [OF disk e1, of 1] room by (simp add: room_def)
  have lay1: "layout_ok nb (super fs1)" and ext: "data_lo (super fs1) \<le> unat start" "unat start + unat n \<le> data_hi (super fs1)"
    using lay free us fs1(2) by (simp_all add: free_run_def)
  have v1: "bm1 = fs_disk.vw disk fs1 (sb_block_bitmap_start (super fs1))" using fs1(2,3) by simp
  from fs_disk.free_extent_view [OF disk fs1(1) lay1 room1 n(1) ext v1]
  obtain bm2 fs2 where r: "xfs_free_extent start n fs1 = (Ok (), fs2)" and bm2: "run_cleared bm1 (unat start) (unat n) bm2"
      and e2: "fs_disk.evolves dev nb disk ready 1
        (with_free (sb_free_blocks (super fs1) + of_nat (card (marked bm1 (unat start) (unat start + unat n)))) fs1)
        ((fs_disk.vw disk fs1)(sb_block_bitmap_start (super fs1) := bm2)) fs2"
    by blast
  have len: "length bm = 4096"
    using fs_disk.length_vw [OF disk live, of ?b] fs_disk.bitmap_block_ok [OF disk lay, of ?b] by (simp add: bm_def K64_XFS_BLOCK_SIZE_def)
  note undo = run_set_cleared [OF len free hi bm1 bm2 [unfolded us]]
  have "super fs2 = ?s" using e2 fs1(2) undo(2) us by (simp add: fs_disk.evolves_def [OF disk])
  moreover have "fs_disk.vw disk fs2 = ?V" using e2 fs1(2,3) undo(1) by (simp add: fs_disk.evolves_def [OF disk] bm_def)
  ultimately show ?thesis using r by blast
qed

theorem extent_alloc_free_roundtrip_witness:
  "\<exists>fs1 fs2. xfs_alloc_extent 5 sample_mount = (Ok 82, fs1) \<and> xfs_free_extent 82 5 fs1 = (Ok (), fs2) \<and>
     sb_free_blocks (super fs2) = 1965"
proof -
  obtain fs1 where 1: "xfs_alloc_extent 5 sample_mount = (Ok 82, fs1)"
    using mem.alloc_extent_view [OF sample_is_live sample_room(2,1) _ _ refl refl, of 5] by (auto simp: sample_facts)
  show ?thesis
    using extent_alloc_free_roundtrip [OF mem.fs_disk_axioms [where ctx = 0 and ident = 1] sample_is_live sample_room(2,1) 1] 1
    by (auto simp: sample_super)
qed

end
