(* ===== verification/Net.thy ===== *)
theory Net
  imports Fs
begin

text \<open>
  The network stack, \<^verbatim>\<open>src/k64_net.c\<close>: Ethernet frames, ARP, IPv4, ICMP echo, UDP, DNS, DHCP, and an HTTP
  client over one TCP connection.

  The state is the static \<^verbatim>\<open>net\<close>. The driver's \<^verbatim>\<open>send\<close> is a function on the state \<open>'h\<close> of the
  hardware, a field like in the C struct. A received frame is the list of its bytes; a handler gets the bytes
  from its start to the end of the frame and the length the headers claim, and a read beyond the frame is a
  \<open>Fault\<close>. The outgoing buffers are built by concatenation in the order of their offsets. The bytes of the
  response buffer after \<^verbatim>\<open>response_len\<close> are never read and are left out. Small counters that the code bounds
  (\<^verbatim>\<open>arp_count\<close>, \<^verbatim>\<open>dns_count\<close>, \<^verbatim>\<open>pending_dns_waits\<close>) are natural numbers.
\<close>

section \<open>State\<close>

definition ETH_TYPE_ARP :: u16 where "ETH_TYPE_ARP = 0x0806"
definition ETH_TYPE_IPV4 :: u16 where "ETH_TYPE_IPV4 = 0x0800"
definition IP_PROTO_ICMP :: u8 where "IP_PROTO_ICMP = 1"
definition IP_PROTO_TCP :: u8 where "IP_PROTO_TCP = 6"
definition IP_PROTO_UDP :: u8 where "IP_PROTO_UDP = 17"
definition DHCP_CLIENT_PORT :: u16 where "DHCP_CLIENT_PORT = 68"
definition DHCP_SERVER_PORT :: u16 where "DHCP_SERVER_PORT = 67"
definition DHCP_MAGIC :: u32 where "DHCP_MAGIC = 0x63825363"
definition TCP_FLAG_FIN :: u8 where "TCP_FLAG_FIN = 0x01"
definition TCP_FLAG_SYN :: u8 where "TCP_FLAG_SYN = 0x02"
definition TCP_FLAG_RST :: u8 where "TCP_FLAG_RST = 0x04"
definition TCP_FLAG_PSH :: u8 where "TCP_FLAG_PSH = 0x08"
definition TCP_FLAG_ACK :: u8 where "TCP_FLAG_ACK = 0x10"
definition DNS_PORT :: u16 where "DNS_PORT = 53"
definition DNS_SRC_PORT :: u16 where "DNS_SRC_PORT = 49153"
definition HTTP_BUF_SIZE :: nat where "HTTP_BUF_SIZE = 16 * 1024 * 1024"

datatype http_state = HTTP_IDLE | HTTP_RESOLVE | HTTP_ARP | HTTP_SYN_SENT | HTTP_ESTABLISHED | HTTP_REQUEST_SENT
  | HTTP_DONE | HTTP_ERROR

record dns_cache_entry =
  dc_name :: string
  dc_ip :: u32

record http_client =
  h_state :: http_state
  h_host :: string
  h_path :: string
  h_ip :: u32
  h_port :: u16
  h_local_port :: u16
  h_use_range :: bool
  h_range_start :: u64
  h_range_end :: u64
  h_seq :: u32
  h_ack :: u32
  h_response :: bytes

record k64_net_status =
  ns_link_up :: bool
  ns_driver :: string
  ns_mac :: bytes
  ns_ipv4 :: u32
  ns_gateway :: u32
  ns_netmask :: u32
  ns_dns_server :: u32
  ns_tx_frames :: u64
  ns_rx_frames :: u64
  ns_rx_arp :: u64
  ns_rx_ipv4 :: u64
  ns_rx_udp :: u64
  ns_rx_icmp :: u64
  ns_rx_tcp :: u64
  ns_rx_dns :: u64
  ns_ping_replies :: u64
  ns_last_ethertype :: u16
  ns_last_rx_len :: u16

type_synonym 'h send_frame_fn = "bytes \<Rightarrow> 'h \<Rightarrow> bool \<times> 'h"

record 'h net =
  n_ready :: bool
  n_driver :: string
  n_mac :: bytes
  n_ipv4 :: u32
  n_gateway :: u32
  n_netmask :: u32
  n_send :: "'h send_frame_fn option"
  n_stats :: k64_net_status
  next_ip_id :: u16
  next_icmp_id :: u16
  next_dns_id :: u16
  next_tcp_port :: u16
  n_dns_server :: u32
  dhcp_xid :: u32
  dhcp_server :: u32
  dhcp_offer :: u32
  arp_ip :: "bytes list"
  arp_mac :: "bytes list"
  arp_count :: nat
  dns_cache :: "dns_cache_entry list"
  dns_count :: nat
  pending_dns_id :: u16
  pending_dns_waits :: nat
  pending_dns_name :: string
  http :: http_client
  n_hw :: 'h

type_synonym ('h, 'a) netop = "('h net, 'a) op"

abbreviation on_stats :: "(k64_net_status \<Rightarrow> k64_net_status) \<Rightarrow> 'h net \<Rightarrow> 'h net" where
  "on_stats f s \<equiv> s\<lparr>n_stats := f (n_stats s)\<rparr>"

abbreviation on_http :: "(http_client \<Rightarrow> http_client) \<Rightarrow> 'h net \<Rightarrow> 'h net" where
  "on_http f s \<equiv> s\<lparr>http := f (http s)\<rparr>"

section \<open>Bytes\<close>

text \<open>Reads at an offset: \<open>None\<close> when a byte lies outside the buffer.\<close>

definition rd8 :: "bytes \<Rightarrow> nat \<Rightarrow> u8 option" where
  "rd8 p i = (if i < length p then Some (p ! i) else None)"

definition rd16be :: "bytes \<Rightarrow> nat \<Rightarrow> u16 option" where
  "rd16be p i = (if i + 1 < length p then Some (push_bit 8 (ucast (p ! i)) OR ucast (p ! (i + 1))) else None)"

definition rd32be :: "bytes \<Rightarrow> nat \<Rightarrow> u32 option" where
  "rd32be p i = (if i + 3 < length p then
     Some (push_bit 24 (ucast (p ! i)) OR push_bit 16 (ucast (p ! (i + 1))) OR push_bit 8 (ucast (p ! (i + 2))) OR ucast (p ! (i + 3)))
     else None)"

definition wr16be :: "u16 \<Rightarrow> bytes" where
  "wr16be v = [ucast (drop_bit 8 v), ucast (v AND 0xFF)]"

definition wr32be :: "u32 \<Rightarrow> bytes" where
  "wr32be v = [ucast (drop_bit 24 v AND 0xFF), ucast (drop_bit 16 v AND 0xFF), ucast (drop_bit 8 v AND 0xFF), ucast (v AND 0xFF)]"

text \<open>The value of a read the code makes without a check of its own.\<close>

definition need :: "'a option \<Rightarrow> ('s, 'a) op" where
  "need x = (case x of None \<Rightarrow> fault | Some a \<Rightarrow> ret a)"

section \<open>Checksums\<close>

fun csum_add_bytes :: "u32 \<Rightarrow> bytes \<Rightarrow> u32" where
  "csum_add_bytes acc (a # b # bs) = csum_add_bytes (acc + ucast (push_bit 8 (ucast a) OR ucast b :: u16)) bs"
| "csum_add_bytes acc [a] = acc + ucast (push_bit 8 (ucast a) :: u16)"
| "csum_add_bytes acc [] = acc"

lemma csum_fold_less: "drop_bit 16 acc \<noteq> (0 :: u32) \<Longrightarrow> unat ((acc AND 0xFFFF) + drop_bit 16 acc) < unat acc"
proof -
  assume nz: "drop_bit 16 acc \<noteq> 0"
  have m: "acc AND 0xFFFF = take_bit 16 acc" by (simp add: take_bit_eq_mask mask_eq_exp_minus_1)
  have dv: "unat (drop_bit 16 acc) = unat acc div 65536" "unat (take_bit 16 acc) = unat acc mod 65536"
    by (simp_all add: drop_bit_eq_div take_bit_eq_mod unat_div unat_mod)
  have d: "unat acc = unat (drop_bit 16 acc) * 65536 + unat (take_bit 16 acc)"
    unfolding dv by simp
  have s: "unat (take_bit 16 acc) < 65536" unfolding dv by simp
  have t: "unat (drop_bit 16 acc) < 65536" using d unat_u32_less [of acc] by linarith
  have "unat (take_bit 16 acc + drop_bit 16 acc) = unat (take_bit 16 acc) + unat (drop_bit 16 acc)"
    using s t by (intro unat_add_no_wrap) simp
  moreover have "0 < unat (drop_bit 16 acc)" using nz by (simp add: unat_gt_0)
  ultimately show ?thesis using d unfolding m by linarith
qed

function csum_fold :: "u32 \<Rightarrow> u32" where
  "csum_fold acc = (if drop_bit 16 acc \<noteq> 0 then csum_fold ((acc AND 0xFFFF) + drop_bit 16 acc) else acc)"
  by pat_completeness auto
termination
  by (relation "measure unat") (auto simp: csum_fold_less)

declare csum_fold.simps [simp del]

definition csum_finish :: "u32 \<Rightarrow> u16" where
  "csum_finish acc = ucast (NOT (csum_fold acc))"

definition csum16 :: "bytes \<Rightarrow> u16" where
  "csum16 data = csum_finish (csum_add_bytes 0 data)"

definition pseudo_header :: "u32 \<Rightarrow> u32 \<Rightarrow> u8 \<Rightarrow> nat \<Rightarrow> bytes" where
  "pseudo_header src_ip dst_ip proto len = wr32be src_ip @ wr32be dst_ip @ [0, proto] @ wr16be (of_nat len)"

definition tcp_checksum :: "u32 \<Rightarrow> u32 \<Rightarrow> bytes \<Rightarrow> u16" where
  "tcp_checksum src_ip dst_ip tcp =
     csum_finish (csum_add_bytes (csum_add_bytes 0 (pseudo_header src_ip dst_ip IP_PROTO_TCP (length tcp))) tcp)"

definition udp_checksum :: "u32 \<Rightarrow> u32 \<Rightarrow> bytes \<Rightarrow> u16" where
  "udp_checksum src_ip dst_ip udp =
     (let result = csum_finish (csum_add_bytes (csum_add_bytes 0 (pseudo_header src_ip dst_ip IP_PROTO_UDP (length udp))) udp)
      in if result \<noteq> 0 then result else 0xFFFF)"

section \<open>Names and addresses\<close>

definition copy_text :: "string \<Rightarrow> nat \<Rightarrow> cstr \<Rightarrow> string" where
  "copy_text dst dst_size src = str_copy dst dst_size src"

definition text_eq :: "cstr \<Rightarrow> cstr \<Rightarrow> bool" where
  "text_eq a b \<longleftrightarrow> k64_strcmp (Some (str_of a)) (Some (str_of b)) = 0"

definition mac_is_broadcast :: "bytes \<Rightarrow> bool" where
  "mac_is_broadcast mac = list_all (\<lambda>i. mac ! i = 0xFF) [0..<6]"

definition mac_eq :: "bytes \<Rightarrow> bytes \<Rightarrow> bool" where
  "mac_eq a b = list_all (\<lambda>i. a ! i = b ! i) [0..<6]"

definition is_digit :: "char \<Rightarrow> bool" where
  "is_digit c \<longleftrightarrow> 48 \<le> (of_char c :: nat) \<and> (of_char c :: nat) \<le> 57"

definition digit_value :: "char \<Rightarrow> nat" where
  "digit_value c = of_char c - 48"

text \<open>Dotted decimal. The digits of one part are added to \<open>parts ! part\<close>.\<close>

fun parse_ipv4_from :: "string \<Rightarrow> u32 list \<Rightarrow> nat \<Rightarrow> bool \<Rightarrow> u32 option" where
  "parse_ipv4_from [] parts part saw_digit =
     (if part = 3 \<and> saw_digit
      then Some (push_bit 24 (parts ! 0) OR push_bit 16 (parts ! 1) OR push_bit 8 (parts ! 2) OR parts ! 3) else None)"
| "parse_ipv4_from (ch # p) parts part saw_digit =
     (if is_digit ch then
        let v = parts ! part * 10 + of_nat (digit_value ch) in
        if v > 255 then None else parse_ipv4_from p (parts[part := v]) part True
      else if ch = CHR ''.'' \<and> part < 3 \<and> saw_digit then parse_ipv4_from p parts (part + 1) False
      else None)"

definition k64_net_parse_ipv4 :: "cstr \<Rightarrow> u32 option" where
  "k64_net_parse_ipv4 text = (case text of None \<Rightarrow> None | Some t \<Rightarrow> parse_ipv4_from t [0, 0, 0, 0] 0 False)"

definition ip_digit :: "u8 \<Rightarrow> char" where
  "ip_digit d = byte_char (48 + d)"

definition ip_part :: "u8 \<Rightarrow> string" where
  "ip_part part =
     (if part \<ge> 100 then [ip_digit (part div 100), ip_digit (part mod 100 div 10), ip_digit (part mod 100 mod 10)]
      else if part \<ge> 10 then [ip_digit (part div 10), ip_digit (part mod 10)]
      else [ip_digit part])"

definition k64_net_format_ipv4 :: "u32 \<Rightarrow> nat \<Rightarrow> string" where
  "k64_net_format_ipv4 ip out_size =
     fold (\<lambda>i out.
        let out = str_append out out_size (Some (ip_part (ucast (drop_bit (i * 8) ip AND 0xFF)))) in
        if i > 0 then str_append out out_size (Some ''.'') else out) [3, 2, 1, 0] []"

section \<open>Caches\<close>

text \<open>Addresses of neighbours. When the table is full its first entry is replaced.\<close>

definition arp_find :: "u32 \<Rightarrow> 'h net \<Rightarrow> nat option" where
  "arp_find ip s = find (\<lambda>i. rd32be (arp_ip s ! i) 0 = Some ip) [0..<arp_count s]"

definition arp_remember :: "u32 \<Rightarrow> bytes \<Rightarrow> ('h, unit) netop" where
  "arp_remember ip mac s =
     (let (slot, n) = (case arp_find ip s of
            Some i \<Rightarrow> (i, arp_count s)
          | None \<Rightarrow> if arp_count s < 8 then (arp_count s, arp_count s + 1) else (0, arp_count s))
      in (Ok (), s\<lparr>arp_count := n, arp_ip := (arp_ip s)[slot := wr32be ip], arp_mac := (arp_mac s)[slot := mac]\<rparr>))"

definition arp_lookup :: "u32 \<Rightarrow> 'h net \<Rightarrow> bytes option" where
  "arp_lookup ip s = (case arp_find ip s of None \<Rightarrow> None | Some i \<Rightarrow> Some (arp_mac s ! i))"

definition dns_find :: "cstr \<Rightarrow> 'h net \<Rightarrow> nat option" where
  "dns_find name s = find (\<lambda>i. text_eq (Some (dc_name (dns_cache s ! i))) name) [0..<dns_count s]"

definition dns_cache_put :: "string \<Rightarrow> u32 \<Rightarrow> 'h net \<Rightarrow> 'h net" where
  "dns_cache_put name ip s =
     (if name = [] \<or> ip = 0 then s
      else
        let (slot, n) = (case dns_find (Some name) s of
              Some i \<Rightarrow> (i, dns_count s)
            | None \<Rightarrow> if dns_count s < 8 then (dns_count s, dns_count s + 1) else (0, dns_count s))
        in s\<lparr>dns_count := n,
             dns_cache := (dns_cache s)[slot := \<lparr>dc_name = copy_text [] 64 (Some name), dc_ip = ip\<rparr>]\<rparr>)"

definition dns_cache_lookup :: "cstr \<Rightarrow> 'h net \<Rightarrow> u32 option" where
  "dns_cache_lookup name s = (case dns_find name s of None \<Rightarrow> None | Some i \<Rightarrow> Some (dc_ip (dns_cache s ! i)))"

section \<open>Sending\<close>

definition send_frame :: "bytes \<Rightarrow> ('h, unit) netop" where
  "send_frame frame s =
     (case n_send s of
        Some send \<Rightarrow>
          if n_ready s then
            (case send frame (n_hw s) of
               (True, hw) \<Rightarrow> (Ok (), on_stats (\<lambda>t. t\<lparr>ns_tx_frames := ns_tx_frames t + 1\<rparr>) (s\<lparr>n_hw := hw\<rparr>))
             | (False, hw) \<Rightarrow> (Fail, s\<lparr>n_hw := hw\<rparr>))
          else (Fail, s)
      | None \<Rightarrow> (Fail, s))"

definition arp_frame :: "bytes \<Rightarrow> bytes \<Rightarrow> u16 \<Rightarrow> u32 \<Rightarrow> bytes \<Rightarrow> u32 \<Rightarrow> bytes" where
  "arp_frame dst src op' src_ip target_mac target_ip =
     dst @ src @ wr16be ETH_TYPE_ARP @ wr16be 1 @ wr16be ETH_TYPE_IPV4 @ [6, 4] @ wr16be op' @
     src @ wr32be src_ip @ target_mac @ wr32be target_ip"

definition send_arp_reply :: "bytes \<Rightarrow> u32 \<Rightarrow> ('h, unit) netop" where
  "send_arp_reply target_mac target_ip s =
     send_frame (arp_frame target_mac (n_mac s) 2 (n_ipv4 s) target_mac target_ip) s"

definition k64_net_send_arp_request :: "u32 \<Rightarrow> ('h, unit) netop" where
  "k64_net_send_arp_request target_ip s =
     guard (n_ready s)
       (send_frame (arp_frame (replicate 6 0xFF) (n_mac s) 1 (n_ipv4 s) (replicate 6 0) target_ip)) s"

definition resolve_mac :: "u32 \<Rightarrow> ('h, bytes) netop" where
  "resolve_mac dst_ip s =
     (let target = (if dst_ip AND n_netmask s = n_ipv4 s AND n_netmask s then dst_ip else n_gateway s) in
      case arp_lookup target s of
        Some mac \<Rightarrow> (Ok mac, s)
      | None \<Rightarrow> bind (attempt (k64_net_send_arp_request target)) (\<lambda>_. fail) s)"

definition ip_header :: "u16 \<Rightarrow> u16 \<Rightarrow> u8 \<Rightarrow> u16 \<Rightarrow> u32 \<Rightarrow> u32 \<Rightarrow> bytes" where
  "ip_header ip_len ip_id proto csum src_ip dst_ip =
     [0x45, 0] @ wr16be ip_len @ wr16be ip_id @ wr16be 0x4000 @ [64, proto] @ wr16be csum @ wr32be src_ip @ wr32be dst_ip"

text \<open>The length of the packet is computed in 16 bits; the payload has to fit the 1514 bytes of the frame.\<close>

definition send_ipv4_from :: "bytes \<Rightarrow> u32 \<Rightarrow> u32 \<Rightarrow> u8 \<Rightarrow> bytes \<Rightarrow> ('h, unit) netop" where
  "send_ipv4_from dst_mac src_ip dst_ip proto payload =
     (let ip_len = 20 + of_nat (length payload) :: u16 in
      guard (\<not> ip_len > 1500)
       (bind (get next_ip_id) (\<lambda>ip_id.
        bind (modify (\<lambda>s. s\<lparr>next_ip_id := next_ip_id s + 1\<rparr>)) (\<lambda>_.
        bind (get n_mac) (\<lambda>mac.
        in_bounds (34 + length payload \<le> 1514)
         (send_frame (dst_mac @ mac @ wr16be ETH_TYPE_IPV4 @
            ip_header ip_len ip_id proto (csum16 (ip_header ip_len ip_id proto 0 src_ip dst_ip)) src_ip dst_ip @ payload)))))))"

definition send_ipv4 :: "bytes \<Rightarrow> u32 \<Rightarrow> u8 \<Rightarrow> bytes \<Rightarrow> ('h, unit) netop" where
  "send_ipv4 dst_mac dst_ip proto payload s = send_ipv4_from dst_mac (n_ipv4 s) dst_ip proto payload s"

definition tcp_header :: "u16 \<Rightarrow> u16 \<Rightarrow> u32 \<Rightarrow> u32 \<Rightarrow> u8 \<Rightarrow> u16 \<Rightarrow> bytes" where
  "tcp_header src_port dst_port seq ack flags csum =
     wr16be src_port @ wr16be dst_port @ wr32be seq @ wr32be ack @ [0x50, flags] @ wr16be 4096 @ wr16be csum @ [0, 0]"

definition send_tcp :: "u32 \<Rightarrow> u16 \<Rightarrow> u16 \<Rightarrow> u32 \<Rightarrow> u32 \<Rightarrow> u8 \<Rightarrow> bytes \<Rightarrow> ('h, unit) netop" where
  "send_tcp dst_ip dst_port src_port seq ack flags payload =
     (let tcp_len = 20 + of_nat (length payload) :: u16 in
      guard (\<not> tcp_len > 1480)
       (bind (resolve_mac dst_ip) (\<lambda>dst_mac.
        in_bounds (20 + length payload \<le> 1480)
         (bind (get n_ipv4) (\<lambda>ip.
          let packet = tcp_header src_port dst_port seq ack flags 0 @ payload in
          send_ipv4 dst_mac dst_ip IP_PROTO_TCP
            (tcp_header src_port dst_port seq ack flags (tcp_checksum ip dst_ip packet) @ payload))))))"

section \<open>DNS\<close>

text \<open>
  The labels of a name: \<open>packet\<close> is what was written so far, \<open>label_len_pos\<close> the place of the length
  of the label being written and \<open>label_start\<close> its first byte.
\<close>

fun dns_labels :: "string \<Rightarrow> bytes \<Rightarrow> nat \<Rightarrow> nat \<Rightarrow> bytes \<times> nat \<times> nat" where
  "dns_labels [] packet label_len_pos label_start = (packet, label_len_pos, label_start)"
| "dns_labels (c # cs) packet label_len_pos label_start =
     (if length packet + 6 < 512 then
        if c = CHR ''.''
        then dns_labels cs (packet[label_len_pos := of_nat (length packet - label_start)] @ [0]) (length packet) (length packet + 1)
        else dns_labels cs (packet @ [char_byte c]) label_len_pos label_start
      else (packet, label_len_pos, label_start))"

text \<open>The part of the query after its identifier; the length is that of the whole UDP packet.\<close>

definition dns_query_body :: "u16 \<Rightarrow> string \<Rightarrow> bytes" where
  "dns_query_body dns_id host =
     (let prefix = replicate 8 0 @ wr16be dns_id @ wr16be 0x0100 @ wr16be 1 @ replicate 6 0;
          (packet, label_len_pos, label_start) = dns_labels host (prefix @ [0]) 20 21;
          packet = packet[label_len_pos := of_nat (length packet - label_start)]
      in drop 8 packet @ [0] @ wr16be 1 @ wr16be 1)"

definition udp_header :: "u16 \<Rightarrow> u16 \<Rightarrow> nat \<Rightarrow> u16 \<Rightarrow> bytes" where
  "udp_header src_port dst_port len csum = wr16be src_port @ wr16be dst_port @ wr16be (of_nat len) @ wr16be csum"

definition udp_packet :: "u32 \<Rightarrow> u32 \<Rightarrow> u16 \<Rightarrow> u16 \<Rightarrow> bytes \<Rightarrow> bytes" where
  "udp_packet src_ip dst_ip src_port dst_port body =
     (let len = 8 + length body;
          csum = udp_checksum src_ip dst_ip (udp_header src_port dst_port len 0 @ body)
      in udp_header src_port dst_port len csum @ body)"

definition send_dns_query :: "cstr \<Rightarrow> ('h, unit) netop" where
  "send_dns_query host =
     guard (str_of host \<noteq> [])
      (bind (get n_gateway) (\<lambda>gateway.
       bind (resolve_mac gateway) (\<lambda>dst_mac.
       bind (get next_dns_id) (\<lambda>dns_id.
       bind (modify (\<lambda>s. s\<lparr>next_dns_id := next_dns_id s + 1\<rparr>)) (\<lambda>_.
       bind (get n_ipv4) (\<lambda>ip.
       bind (get n_dns_server) (\<lambda>server.
       let body = dns_query_body dns_id (str_of host) in
       bind (modify (\<lambda>s. s\<lparr>pending_dns_id := dns_id, pending_dns_waits := 0, pending_dns_name := copy_text [] 64 host\<rparr>)) (\<lambda>_.
       bind (attempt (send_ipv4 dst_mac server IP_PROTO_UDP (udp_packet ip server DNS_SRC_PORT DNS_PORT body))) (\<lambda>sent.
       if gateway \<noteq> 0 \<and> gateway \<noteq> server then
         bind (attempt (send_ipv4 dst_mac gateway IP_PROTO_UDP (udp_packet ip gateway DNS_SRC_PORT DNS_PORT body))) (\<lambda>again.
         guard (again \<noteq> None \<or> sent \<noteq> None) (ret ()))
       else guard (sent \<noteq> None) (ret ()))))))))))"

text \<open>The position after a name, \<open>dns_len + 1\<close> when it does not end in the message.\<close>

function dns_skip_name :: "bytes \<Rightarrow> nat \<Rightarrow> nat \<Rightarrow> nat option" where
  "dns_skip_name dns dns_len pos =
     (if pos < dns_len then
        case rd8 dns pos of
          None \<Rightarrow> None
        | Some len \<Rightarrow>
            if len = 0 then Some (pos + 1)
            else if len AND 0xC0 = 0xC0 then Some (if pos + 2 \<le> dns_len then pos + 2 else dns_len + 1)
            else dns_skip_name dns dns_len (pos + 1 + unat len)
      else Some (dns_len + 1))"
  by pat_completeness auto
termination
  by (relation "measure (\<lambda>(dns, dns_len, pos). dns_len - pos)") auto

declare dns_skip_name.simps [simp del]

fun dns_skip_questions :: "bytes \<Rightarrow> nat \<Rightarrow> nat \<Rightarrow> nat \<Rightarrow> nat option" where
  "dns_skip_questions dns dns_len 0 pos = Some pos"
| "dns_skip_questions dns dns_len (Suc qd) pos =
     (if pos < dns_len then
        case dns_skip_name dns dns_len pos of None \<Rightarrow> None | Some p \<Rightarrow> dns_skip_questions dns dns_len qd (p + 4)
      else Some pos)"

text \<open>The address of the first answer that has one: \<open>Some None\<close> when there is none, \<open>None\<close> for a read outside.\<close>

fun dns_answers :: "bytes \<Rightarrow> nat \<Rightarrow> nat \<Rightarrow> nat \<Rightarrow> u32 option option" where
  "dns_answers dns dns_len 0 pos = Some None"
| "dns_answers dns dns_len (Suc an) pos =
     (if pos + 12 \<le> dns_len then
        case dns_skip_name dns dns_len pos of
          None \<Rightarrow> None
        | Some p \<Rightarrow>
            if p + 10 > dns_len then Some None
            else (case (rd16be dns p, rd16be dns (p + 2), rd16be dns (p + 8)) of
                (Some typ, Some class_id, Some rdlen) \<Rightarrow>
                  let p = p + 10 in
                  if p + unat rdlen > dns_len then Some None
                  else if typ = 1 \<and> class_id = 1 \<and> rdlen = 4
                  then (case rd32be dns p of None \<Rightarrow> None | Some ip \<Rightarrow> Some (Some ip))
                  else dns_answers dns dns_len an (p + unat rdlen)
              | _ \<Rightarrow> None)
      else Some None)"

definition handle_dns_payload :: "bytes \<Rightarrow> nat \<Rightarrow> ('h, unit) netop" where
  "handle_dns_payload udp udp_len =
     (if udp_len < 20 then ret ()
      else
       bind (need (rd16be udp 0)) (\<lambda>src_port.
       bind (need (rd16be udp 2)) (\<lambda>dst_port.
       if src_port \<noteq> DNS_PORT \<or> dst_port \<noteq> DNS_SRC_PORT then ret ()
       else
        let dns = drop 8 udp; dns_len = udp_len - 8 in
        bind (need (rd16be dns 0)) (\<lambda>ident.
        bind (get pending_dns_id) (\<lambda>pending.
        if ident \<noteq> pending then ret ()
        else
         bind (need (rd16be dns 4)) (\<lambda>qd.
         bind (need (rd16be dns 6)) (\<lambda>an.
         bind (need (dns_skip_questions dns dns_len (unat qd) 12)) (\<lambda>pos.
         bind (need (dns_answers dns dns_len (unat an) pos)) (\<lambda>answer.
         case answer of
           None \<Rightarrow> ret ()
         | Some ip \<Rightarrow>
             modify (\<lambda>s. on_stats (\<lambda>t. t\<lparr>ns_rx_dns := ns_rx_dns t + 1\<rparr>)
               ((dns_cache_put (pending_dns_name s) ip s)\<lparr>pending_dns_name := [], pending_dns_waits := 0\<rparr>)))))))))))"

section \<open>DHCP\<close>

definition dhcp_body :: "u32 \<Rightarrow> bytes \<Rightarrow> u8 \<Rightarrow> u32 \<Rightarrow> u32 \<Rightarrow> bytes" where
  "dhcp_body xid mac msg_type requested_ip server_ip =
     [1, 1, 6, 0] @ wr32be xid @ [0, 0] @ wr16be 0x8000 @ replicate 16 0 @ mac @ replicate 202 0 @ wr32be DHCP_MAGIC @
     [53, 1, msg_type] @
     (if requested_ip \<noteq> 0 then [50, 4] @ wr32be requested_ip else []) @
     (if server_ip \<noteq> 0 then [54, 4] @ wr32be server_ip else []) @
     [55, 3, 1, 3, 6, 255]"

definition send_dhcp_message :: "u8 \<Rightarrow> u32 \<Rightarrow> u32 \<Rightarrow> ('h, unit) netop" where
  "send_dhcp_message msg_type requested_ip server_ip s =
     guard (n_ready s)
      (send_ipv4_from (replicate 6 0xFF) 0 0xFFFFFFFF IP_PROTO_UDP
        (udp_packet 0 0xFFFFFFFF DHCP_CLIENT_PORT DHCP_SERVER_PORT (dhcp_body (dhcp_xid s) (n_mac s) msg_type requested_ip server_ip))) s"

definition send_dhcp_discover :: "('h, unit) netop" where
  "send_dhcp_discover =
     bind (modify (\<lambda>s. s\<lparr>dhcp_xid := dhcp_xid s + 1, dhcp_offer := 0, dhcp_server := 0\<rparr>)) (\<lambda>_. send_dhcp_message 1 0 0)"

definition send_dhcp_request :: "u32 \<Rightarrow> u32 \<Rightarrow> ('h, unit) netop" where
  "send_dhcp_request requested_ip server_ip = send_dhcp_message 3 requested_ip server_ip"

definition k64_net_dhcp_discover :: "('h, unit) netop" where
  "k64_net_dhcp_discover = send_dhcp_discover"

record dhcp_options =
  o_msg_type :: u8
  o_server :: u32
  o_router :: u32
  o_mask :: u32
  o_dns :: u32

definition dhcp_option :: "u8 \<Rightarrow> nat \<Rightarrow> bytes \<Rightarrow> nat \<Rightarrow> dhcp_options \<Rightarrow> dhcp_options option" where
  "dhcp_option opt len bootp pos o' =
     (let word = (\<lambda>f. case rd32be bootp pos of None \<Rightarrow> None | Some v \<Rightarrow> Some (f v)) in
      if opt = 53 \<and> len \<ge> 1 then (case rd8 bootp pos of None \<Rightarrow> None | Some t \<Rightarrow> Some (o'\<lparr>o_msg_type := t\<rparr>))
      else if opt = 54 \<and> len \<ge> 4 then word (\<lambda>v. o'\<lparr>o_server := v\<rparr>)
      else if opt = 1 \<and> len \<ge> 4 then word (\<lambda>v. o'\<lparr>o_mask := v\<rparr>)
      else if opt = 3 \<and> len \<ge> 4 then word (\<lambda>v. o'\<lparr>o_router := v\<rparr>)
      else if opt = 6 \<and> len \<ge> 4 then word (\<lambda>v. o'\<lparr>o_dns := v\<rparr>)
      else Some o')"

function dhcp_parse :: "bytes \<Rightarrow> nat \<Rightarrow> nat \<Rightarrow> dhcp_options \<Rightarrow> dhcp_options option" where
  "dhcp_parse bootp bootp_len pos o' =
     (if pos + 1 < bootp_len then
        case rd8 bootp pos of
          None \<Rightarrow> None
        | Some opt \<Rightarrow>
            if opt = 255 then Some o'
            else if opt = 0 then dhcp_parse bootp bootp_len (pos + 1) o'
            else (case rd8 bootp (pos + 1) of
                None \<Rightarrow> None
              | Some len \<Rightarrow>
                  if pos + 2 + unat len > bootp_len then Some o'
                  else (case dhcp_option opt (unat len) bootp (pos + 2) o' of
                      None \<Rightarrow> None
                    | Some o'' \<Rightarrow> dhcp_parse bootp bootp_len (pos + 2 + unat len) o''))
      else Some o')"
  by pat_completeness auto
termination
  by (relation "measure (\<lambda>(bootp, bootp_len, pos, o'). bootp_len - pos)") auto

declare dhcp_parse.simps [simp del]

definition dhcp_apply :: "u32 \<Rightarrow> dhcp_options \<Rightarrow> ('h, unit) netop" where
  "dhcp_apply yiaddr o' =
     (if o_msg_type o' = 2 \<and> yiaddr \<noteq> 0 then
        bind (modify (\<lambda>s. s\<lparr>dhcp_offer := yiaddr, dhcp_server := o_server o'\<rparr>)) (\<lambda>_.
        bind (attempt (send_dhcp_request yiaddr (o_server o'))) (\<lambda>_. ret ()))
      else if o_msg_type o' = 5 \<and> yiaddr \<noteq> 0 then
        modify (\<lambda>s.
          let s = s\<lparr>n_ipv4 := yiaddr\<rparr>;
              s = (if o_router o' \<noteq> 0 then s\<lparr>n_gateway := o_router o'\<rparr> else s);
              s = (if o_mask o' \<noteq> 0 then s\<lparr>n_netmask := o_mask o'\<rparr> else s);
              s = (if o_dns o' \<noteq> 0 then s\<lparr>n_dns_server := o_dns o'\<rparr> else s)
          in on_stats (\<lambda>t. t\<lparr>ns_ipv4 := n_ipv4 s, ns_gateway := n_gateway s, ns_netmask := n_netmask s,
               ns_dns_server := n_dns_server s\<rparr>) s)
      else ret ())"

definition handle_dhcp_payload :: "bytes \<Rightarrow> nat \<Rightarrow> ('h, unit) netop" where
  "handle_dhcp_payload udp udp_len =
     (if udp_len < 252 then ret ()
      else
       bind (need (rd16be udp 0)) (\<lambda>src_port.
       bind (need (rd16be udp 2)) (\<lambda>dst_port.
       if src_port \<noteq> DHCP_SERVER_PORT \<or> dst_port \<noteq> DHCP_CLIENT_PORT then ret ()
       else
        let bootp = drop 8 udp; bootp_len = udp_len - 8 in
        bind (need (rd32be bootp 4)) (\<lambda>xid.
        bind (get dhcp_xid) (\<lambda>own.
        if xid \<noteq> own then ret ()
        else
         bind (need (rd32be bootp 236)) (\<lambda>magic.
         if magic \<noteq> DHCP_MAGIC then ret ()
         else
          bind (need (rd32be bootp 16)) (\<lambda>yiaddr.
          bind (need (dhcp_parse bootp bootp_len 240
                  \<lparr>o_msg_type = 0, o_server = 0, o_router = 0, o_mask = 0, o_dns = 0\<rparr>)) (\<lambda>o'.
          dhcp_apply yiaddr o'))))))))"

section \<open>HTTP responses\<close>

text \<open>The payload is a pointer and a length; \<open>None\<close> when the copy reads more bytes than there are.\<close>

definition http_append :: "bytes \<Rightarrow> nat \<Rightarrow> http_client \<Rightarrow> http_client option" where
  "http_append payload len h =
     (if len = 0 \<or> length (h_response h) + 1 \<ge> HTTP_BUF_SIZE then Some h
      else
        let n = min len (HTTP_BUF_SIZE - 1 - length (h_response h)) in
        if n \<le> length payload then Some (h\<lparr>h_response := h_response h @ take n payload\<rparr>) else None)"

text \<open>The loops \<^verbatim>\<open>while (pos < i && P(response[pos])) pos++\<close>.\<close>

function skip_while :: "(u8 \<Rightarrow> bool) \<Rightarrow> bytes \<Rightarrow> nat \<Rightarrow> nat \<Rightarrow> nat" where
  "skip_while P r i pos = (if pos < i \<and> P (r ! pos) then skip_while P r i (pos + 1) else pos)"
  by pat_completeness auto
termination
  by (relation "measure (\<lambda>(P, r, i, pos). i - pos)") auto

declare skip_while.simps [simp del]

lemma skip_while_ge: "pos \<le> skip_while P r i pos"
proof (induction P r i pos rule: skip_while.induct)
  case (1 P r i pos)
  then show ?case by (subst skip_while.simps) auto
qed

lemma le_skip_while: "k \<le> pos \<Longrightarrow> k \<le> skip_while P r i pos"
  using skip_while_ge [of pos P r i] by simp

definition is_blank :: "u8 \<Rightarrow> bool" where
  "is_blank b \<longleftrightarrow> b = 32 \<or> b = 9"

definition is_digit_byte :: "u8 \<Rightarrow> bool" where
  "is_digit_byte b \<longleftrightarrow> 48 \<le> b \<and> b \<le> 57"

definition http_status :: "bytes \<Rightarrow> nat \<Rightarrow> u16" where
  "http_status r i =
     (if length r \<ge> 12 \<and> take 4 r = map char_byte ''HTTP'' then
        let code_pos = skip_while is_blank r i (skip_while (\<lambda>b. \<not> is_blank b) r i 0) in
        if code_pos + 2 < i \<and> is_digit_byte (r ! code_pos) \<and> is_digit_byte (r ! (code_pos + 1)) \<and> is_digit_byte (r ! (code_pos + 2))
        then ucast (r ! code_pos - 48) * 100 + ucast (r ! (code_pos + 1) - 48) * 10 + ucast (r ! (code_pos + 2) - 48)
        else 0
      else 0)"

text \<open>The decimal number at a position, in 64 bits.\<close>

definition http_number :: "bytes \<Rightarrow> nat \<Rightarrow> nat \<Rightarrow> u64" where
  "http_number r i pos =
     foldl (\<lambda>v b. v * 10 + ucast (b - 48)) 0 (bytes_at pos (skip_while is_digit_byte r i pos - pos) r)"

definition names_content_l :: "bytes \<Rightarrow> nat \<Rightarrow> bool" where
  "names_content_l r pos =
     list_all (\<lambda>(k, lower, upper). r ! (pos + k) = char_byte lower \<or> r ! (pos + k) = char_byte upper)
       (zip [0..<9] (zip ''content-l'' ''CONTENT-L''))"

text \<open>The lines of the header: the value of the last line whose name starts like \<^verbatim>\<open>Content-L\<close>.\<close>

function http_lines :: "bytes \<Rightarrow> nat \<Rightarrow> nat \<Rightarrow> u64 option \<Rightarrow> u64 option" where
  "http_lines r i pos len =
     (if pos + 16 < i then
        let (pos', len') =
          (if (pos = 0 \<or> r ! (pos - 1) = 10) \<and> names_content_l r pos then
             let colon = skip_while (\<lambda>b. b \<noteq> char_byte CHR '':'') r i pos in
             if colon < i then
               let digits = skip_while is_blank r i (colon + 1) in
               (skip_while is_digit_byte r i digits, Some (http_number r i digits))
             else (colon, len)
           else (pos, len));
          eol = skip_while (\<lambda>b. b \<noteq> 10) r i pos'
        in http_lines r i (if eol < i then eol + 1 else eol) len'
      else len)"
  by pat_completeness auto
termination
proof (relation "measure (\<lambda>(r, i, pos, len). i - pos)")
  fix r :: bytes and i pos :: nat and len len' :: "u64 option" and x :: "nat \<times> u64 option" and pos' eol :: nat
  assume lt: "pos + 16 < i"
    and x: "x = (if (pos = 0 \<or> r ! (pos - 1) = 10) \<and> names_content_l r pos then
             let colon = skip_while (\<lambda>b. b \<noteq> char_byte CHR '':'') r i pos in
             if colon < i then
               let digits = skip_while is_blank r i (colon + 1) in
               (skip_while is_digit_byte r i digits, Some (http_number r i digits))
             else (colon, len)
           else (pos, len))"
    and xs: "(pos', len') = x" and eol: "eol = skip_while (\<lambda>b. b \<noteq> 10) r i pos'"
  have "pos \<le> pos'"
    using x xs by (auto simp: Let_def intro!: le_skip_while le_SucI split: if_splits)
  then have "pos \<le> eol" using skip_while_ge [of pos' "\<lambda>b. b \<noteq> 10" r i] eol by simp
  then show "((r, i, if eol < i then eol + 1 else eol, len'), r, i, pos, len) \<in> measure (\<lambda>(r, i, pos, len). i - pos)"
    using lt by auto
qed simp

declare http_lines.simps [simp del]

record http_head =
  hd_size :: nat
  hd_status :: u16
  hd_length :: "u64 option"

definition http_find_body :: "bytes \<Rightarrow> http_head option" where
  "http_find_body r =
     (case find (\<lambda>i. r ! i = 13 \<and> r ! (i + 1) = 10 \<and> r ! (i + 2) = 13 \<and> r ! (i + 3) = 10) [0..<length r - 3] of
        None \<Rightarrow> None
      | Some i \<Rightarrow> Some \<lparr>hd_size = i + 4, hd_status = http_status r i, hd_length = http_lines r i 0 None\<rparr>)"

text \<open>The sum of the two sizes is computed in 64 bits.\<close>

definition http_response_has_complete_body :: "bytes \<Rightarrow> bool" where
  "http_response_has_complete_body r =
     (case http_find_body r of
        Some h \<Rightarrow> (case hd_length h of
            Some n \<Rightarrow> of_nat (length r) \<ge> of_nat (hd_size h) + n
          | None \<Rightarrow> False)
      | None \<Rightarrow> False)"

section \<open>TCP\<close>

definition send_ack :: "('h, unit) netop" where
  "send_ack s =
     bind (attempt (send_tcp (h_ip (http s)) (h_port (http s)) (h_local_port (http s)) (h_seq (http s)) (h_ack (http s))
       TCP_FLAG_ACK [])) (\<lambda>_. ret ()) s"

text \<open>What the data of a segment does to the connection.\<close>

definition tcp_accept :: "u32 \<Rightarrow> bytes \<Rightarrow> nat \<Rightarrow> http_client \<Rightarrow> http_client option" where
  "tcp_accept seq data data_len h =
     (if seq = h_ack h then map_option (\<lambda>h. h\<lparr>h_ack := seq + of_nat data_len\<rparr>) (http_append data data_len h)
      else if seq < h_ack h then
        let seen = unat (h_ack h - seq) in
        if seen < data_len
        then map_option (\<lambda>h. h\<lparr>h_ack := h_ack h + of_nat (data_len - seen)\<rparr>) (http_append (drop seen data) (data_len - seen) h)
        else Some h
      else Some h)"

definition tcp_check_done :: "http_client \<Rightarrow> http_client" where
  "tcp_check_done h = (if http_response_has_complete_body (h_response h) then h\<lparr>h_state := HTTP_DONE\<rparr> else h)"

text \<open>A segment for the connection, after its header was read.\<close>

definition tcp_segment :: "u32 \<Rightarrow> u32 \<Rightarrow> u8 \<Rightarrow> bytes \<Rightarrow> nat \<Rightarrow> ('h, unit) netop" where
  "tcp_segment seq ack flags data data_len s =
     (let h = http s in
      if flags AND TCP_FLAG_RST \<noteq> 0 then (Ok (), on_http (\<lambda>h. h\<lparr>h_state := HTTP_ERROR\<rparr>) s)
      else if h_state h = HTTP_SYN_SENT \<and> flags AND (TCP_FLAG_SYN OR TCP_FLAG_ACK) = TCP_FLAG_SYN OR TCP_FLAG_ACK \<and> ack = h_seq h + 1 then
        bind (modify (on_http (\<lambda>h. h\<lparr>h_seq := h_seq h + 1, h_ack := seq + 1\<rparr>))) (\<lambda>_.
        bind send_ack (\<lambda>_.
        modify (on_http (\<lambda>h. h\<lparr>h_state := HTTP_ESTABLISHED\<rparr>)))) s
      else
        bind (if (h_state h = HTTP_REQUEST_SENT \<or> h_state h = HTTP_ESTABLISHED) \<and> data_len \<noteq> 0
              then bind (need (tcp_accept seq data data_len h)) (\<lambda>h.
                   bind (modify (on_http (\<lambda>_. tcp_check_done h))) (\<lambda>_. send_ack)) else ret ()) (\<lambda>_.
        if flags AND TCP_FLAG_FIN \<noteq> 0 then
          bind (modify (on_http (\<lambda>h. if seq + of_nat data_len = h_ack h then h\<lparr>h_ack := h_ack h + 1\<rparr> else h))) (\<lambda>_.
          bind send_ack (\<lambda>_.
          modify (on_http (\<lambda>h. h\<lparr>h_state := HTTP_DONE\<rparr>))))
        else ret ()) s)"

definition handle_tcp_payload :: "bytes \<Rightarrow> nat \<Rightarrow> u32 \<Rightarrow> ('h, unit) netop" where
  "handle_tcp_payload ip_payload payload_len src_ip =
     (if payload_len < 20 then ret ()
      else
       bind (need (rd16be ip_payload 0)) (\<lambda>src_port.
       bind (need (rd16be ip_payload 2)) (\<lambda>dst_port.
       bind (get http) (\<lambda>h.
       if h_state h = HTTP_IDLE \<or> src_ip \<noteq> h_ip h \<or> src_port \<noteq> h_port h \<or> dst_port \<noteq> h_local_port h then ret ()
       else
        bind (need (rd32be ip_payload 4)) (\<lambda>seq.
        bind (need (rd32be ip_payload 8)) (\<lambda>ack.
        bind (need (rd8 ip_payload 12)) (\<lambda>off.
        bind (need (rd8 ip_payload 13)) (\<lambda>flags.
        let hdr_len = unat (drop_bit 4 off) * 4 in
        if hdr_len < 20 \<or> hdr_len > payload_len then ret ()
        else tcp_segment seq ack flags (drop hdr_len ip_payload) (payload_len - hdr_len)))))))))"

section \<open>The device and received frames\<close>

definition zero_status :: k64_net_status where
  "zero_status = \<lparr>ns_link_up = False, ns_driver = [], ns_mac = replicate 6 0, ns_ipv4 = 0, ns_gateway = 0, ns_netmask = 0,
     ns_dns_server = 0, ns_tx_frames = 0, ns_rx_frames = 0, ns_rx_arp = 0, ns_rx_ipv4 = 0, ns_rx_udp = 0, ns_rx_icmp = 0,
     ns_rx_tcp = 0, ns_rx_dns = 0, ns_ping_replies = 0, ns_last_ethertype = 0, ns_last_rx_len = 0\<rparr>"

definition zero_http :: http_client where
  "zero_http = \<lparr>h_state = HTTP_IDLE, h_host = [], h_path = [], h_ip = 0, h_port = 0, h_local_port = 0, h_use_range = False,
     h_range_start = 0, h_range_end = 0, h_seq = 0, h_ack = 0, h_response = []\<rparr>"

definition k64_net_init :: "'h net \<Rightarrow> 'h net" where
  "k64_net_init s = \<lparr>n_ready = False, n_driver = [], n_mac = replicate 6 0, n_ipv4 = 0x0A00020F, n_gateway = 0x0A000202,
     n_netmask = 0xFFFFFF00, n_send = None, n_stats = zero_status, next_ip_id = 1, next_icmp_id = 1, next_dns_id = 1,
     next_tcp_port = 40000, n_dns_server = 0x0A000203, dhcp_xid = 0x4B363400, dhcp_server = 0, dhcp_offer = 0,
     arp_ip = replicate 8 (replicate 4 0), arp_mac = replicate 8 (replicate 6 0), arp_count = 0,
     dns_cache = replicate 8 \<lparr>dc_name = [], dc_ip = 0\<rparr>, dns_count = 0, pending_dns_id = 0, pending_dns_waits = 0,
     pending_dns_name = [], http = zero_http, n_hw = n_hw s\<rparr>"

definition k64_net_register_device :: "cstr \<Rightarrow> bytes option \<Rightarrow> 'h send_frame_fn option \<Rightarrow> ('h, unit) netop" where
  "k64_net_register_device driver mac send s =
     (case (mac, send) of
        (Some mac, Some send) \<Rightarrow>
          guard (\<not> n_ready s)
           (modify (\<lambda>s. s\<lparr>n_ready := True, n_send := Some send, n_mac := mac,
              n_driver := (if str_of driver = [] then n_driver s else take 23 (str_of driver)),
              n_stats := zero_status\<lparr>ns_link_up := True, ns_mac := mac, ns_ipv4 := n_ipv4 s, ns_gateway := n_gateway s,
                ns_netmask := n_netmask s, ns_dns_server := n_dns_server s\<rparr>\<rparr>)) s
      | _ \<Rightarrow> (Fail, s))"

definition k64_net_unregister_device :: "'h net \<Rightarrow> 'h net" where
  "k64_net_unregister_device s = on_stats (\<lambda>t. t\<lparr>ns_link_up := False\<rparr>) (s\<lparr>n_ready := False, n_send := None\<rparr>)"

definition k64_net_is_ready :: "'h net \<Rightarrow> bool" where
  "k64_net_is_ready s = n_ready s"

text \<open>An echo request is answered from a copy in a buffer of 1480 bytes.\<close>

definition handle_icmp :: "bytes \<Rightarrow> bytes \<Rightarrow> nat \<Rightarrow> u32 \<Rightarrow> ('h, unit) netop" where
  "handle_icmp src_mac icmp icmp_len src_ip =
     (if icmp_len < 8 then ret ()
      else
       bind (need (rd8 icmp 0)) (\<lambda>typ.
       bind (modify (on_stats (\<lambda>t. if typ = 0 then t\<lparr>ns_ping_replies := ns_ping_replies t + 1\<rparr> else t))) (\<lambda>_.
       if typ \<noteq> 8 then ret ()
       else in_bounds (icmp_len \<le> 1480 \<and> icmp_len \<le> length icmp)
        (let reply = put_at 2 [0, 0] ((take icmp_len icmp)[0 := 0]) in
         bind (attempt (send_ipv4 src_mac src_ip IP_PROTO_ICMP (put_at 2 (wr16be (csum16 reply)) reply))) (\<lambda>_. ret ())))))"

definition handle_arp :: "bytes \<Rightarrow> ('h, unit) netop" where
  "handle_arp frame =
     bind (need (rd16be frame 20)) (\<lambda>op'.
     bind (need (rd32be frame 28)) (\<lambda>sender_ip.
     bind (need (rd32be frame 38)) (\<lambda>target_ip.
     bind (modify (on_stats (\<lambda>t. t\<lparr>ns_rx_arp := ns_rx_arp t + 1\<rparr>))) (\<lambda>_.
     bind (arp_remember sender_ip (bytes_at 22 6 frame)) (\<lambda>_.
     bind (get n_ipv4) (\<lambda>own.
     if op' = 1 \<and> target_ip = own
     then bind (attempt (send_arp_reply (bytes_at 22 6 frame) sender_ip)) (\<lambda>_. ret ())
     else ret ()))))))"

text \<open>The bound on the length of the packet is computed in 16 bits.\<close>

definition handle_ipv4 :: "bytes \<Rightarrow> ('h, unit) netop" where
  "handle_ipv4 frame =
     bind (need (rd8 frame 14)) (\<lambda>vihl.
     bind (need (rd16be frame 16)) (\<lambda>ip_len.
     bind (need (rd8 frame 23)) (\<lambda>proto.
     bind (need (rd32be frame 26)) (\<lambda>src_ip.
     bind (need (rd32be frame 30)) (\<lambda>dst_ip.
     bind (get n_ipv4) (\<lambda>own.
     let ihl = unat (vihl AND 0x0F) * 4 in
     if ihl < 20 \<or> unat ip_len < ihl \<or> unat (14 + ip_len) > length frame \<or> (dst_ip \<noteq> own \<and> dst_ip \<noteq> 0xFFFFFFFF) then ret ()
     else
      let payload = drop (14 + ihl) frame; len = unat ip_len - ihl; src_mac = bytes_at 6 6 frame in
      bind (arp_remember src_ip src_mac) (\<lambda>_.
      bind (modify (on_stats (\<lambda>t. t\<lparr>ns_rx_ipv4 := ns_rx_ipv4 t + 1\<rparr>))) (\<lambda>_.
      if proto = IP_PROTO_UDP then
        bind (modify (on_stats (\<lambda>t. t\<lparr>ns_rx_udp := ns_rx_udp t + 1\<rparr>))) (\<lambda>_.
        bind (handle_dns_payload payload len) (\<lambda>_.
        handle_dhcp_payload payload len))
      else if proto = IP_PROTO_ICMP then
        bind (modify (on_stats (\<lambda>t. t\<lparr>ns_rx_icmp := ns_rx_icmp t + 1\<rparr>))) (\<lambda>_.
        handle_icmp src_mac payload len src_ip)
      else if proto = IP_PROTO_TCP then
        bind (modify (on_stats (\<lambda>t. t\<lparr>ns_rx_tcp := ns_rx_tcp t + 1\<rparr>))) (\<lambda>_.
        handle_tcp_payload payload len src_ip)
      else ret ()))))))))"

definition k64_net_receive_frame :: "bytes \<Rightarrow> ('h, unit) netop" where
  "k64_net_receive_frame frame s =
     (if \<not> n_ready s \<or> length frame < 14 \<or> (\<not> mac_eq frame (n_mac s) \<and> \<not> mac_is_broadcast frame) then (Ok (), s)
      else
       bind (need (rd16be frame 12)) (\<lambda>typ.
       bind (modify (on_stats (\<lambda>t. t\<lparr>ns_rx_frames := ns_rx_frames t + 1, ns_last_ethertype := typ,
               ns_last_rx_len := of_nat (length frame)\<rparr>))) (\<lambda>_.
       if typ = ETH_TYPE_ARP \<and> length frame \<ge> 42 then handle_arp frame
       else if typ = ETH_TYPE_IPV4 \<and> length frame \<ge> 34 \<and> drop_bit 4 (frame ! 14) = 4 then handle_ipv4 frame
       else ret ())) s)"

section \<open>Requests\<close>

definition k64_net_send_udp :: "u32 \<Rightarrow> u16 \<Rightarrow> cstr \<Rightarrow> ('h, unit) netop" where
  "k64_net_send_udp dst_ip dst_port payload =
     (let payload_len = of_nat (k64_strlen payload) :: u16;
          body = take (unat payload_len) (map char_byte (str_of payload)) in
      guard (\<not> payload_len > 1400)
       (bind (resolve_mac dst_ip) (\<lambda>dst_mac.
        bind (get n_ipv4) (\<lambda>ip.
        send_ipv4 dst_mac dst_ip IP_PROTO_UDP (udp_packet ip dst_ip 49152 dst_port body)))))"

definition ping_packet :: "u16 \<Rightarrow> u16 \<Rightarrow> u16 \<Rightarrow> bytes" where
  "ping_packet csum ident sequence = [8, 0] @ wr16be csum @ wr16be ident @ wr16be sequence @ map of_nat [8..<32]"

definition k64_net_send_ping :: "u32 \<Rightarrow> u16 \<Rightarrow> ('h, unit) netop" where
  "k64_net_send_ping dst_ip sequence =
     bind (resolve_mac dst_ip) (\<lambda>dst_mac.
     bind (get next_icmp_id) (\<lambda>ident.
     send_ipv4 dst_mac dst_ip IP_PROTO_ICMP (ping_packet (csum16 (ping_packet 0 ident sequence)) ident sequence)))"

text \<open>The result is the address, and whether an answer is still expected when there is none.\<close>

definition k64_net_resolve_host :: "cstr \<Rightarrow> ('h, u32 option \<times> bool) netop" where
  "k64_net_resolve_host host s =
     (if str_of host = [] then (Ok (None, False), s)
      else case k64_net_parse_ipv4 host of
        Some ip \<Rightarrow> (Ok (Some ip, False), s)
      | None \<Rightarrow>
          (case dns_cache_lookup host s of
             Some ip \<Rightarrow> (Ok (Some ip, False), s)
           | None \<Rightarrow>
               if text_eq (Some (pending_dns_name s)) host \<and> pending_dns_waits s < 8
               then (Ok (None, True), s\<lparr>pending_dns_waits := pending_dns_waits s + 1\<rparr>)
               else bind (attempt (send_dns_query host)) (\<lambda>sent. ret (None, sent \<noteq> None)) s))"

section \<open>The HTTP client\<close>

definition http_append_dec :: "nat \<Rightarrow> u64 \<Rightarrow> string" where
  "http_append_dec out_size v =
     (if v = 0 then if out_size > 1 then ''0'' else []
      else take (out_size - 1) (rev (take 24 (digits_rev (unat v)))))"

definition CRLF :: string where "CRLF = [CHR 0x0D, CHR 0x0A]"

definition http_request :: "http_client \<Rightarrow> string" where
  "http_request h =
     (let add = (\<lambda>t req. str_append req 256 (Some t));
          req = add (CRLF @ ''User-Agent: K64-kcurl/1.0'' @ CRLF) (add (h_host h) (add ('' HTTP/1.0'' @ CRLF @ ''Host: '')
                 (add (h_path h) (add ''GET '' []))));
          req = (if h_use_range h \<and> length req + 48 < 256 then
                   let req = add (http_append_dec 24 (h_range_end h)) (add ''-'' (add (http_append_dec 24 (h_range_start h))
                          (add ''Range: bytes='' req)))
                   in if length req + 2 < 256 then req @ CRLF else req
                 else req)
      in add (''Connection: close'' @ CRLF @ CRLF) req)"

text \<open>What a call returns: the truth value, the size, the state text and the bytes copied to the buffer.\<close>

record http_result =
  r_ok :: bool
  r_size :: nat
  r_state :: string
  r_out :: bytes

abbreviation http_wait :: "string \<Rightarrow> http_result" where
  "http_wait t \<equiv> \<lparr>r_ok = False, r_size = 0, r_state = t, r_out = []\<rparr>"

definition http_fail :: "string \<Rightarrow> ('h, http_result) netop" where
  "http_fail t = bind (modify (on_http (\<lambda>h. h\<lparr>h_state := HTTP_ERROR\<rparr>))) (\<lambda>_. ret (http_wait t))"

definition http_deliver :: "nat \<Rightarrow> ('h, http_result) netop" where
  "http_deliver out_capacity s =
     (let h = http s; r = h_response h in
      case http_find_body r of
        None \<Rightarrow> http_fail ''bad http response'' s
      | Some head \<Rightarrow>
          if hd_status head < 200 \<or> hd_status head \<ge> 300 then http_fail ''http status error'' s
          else if h_use_range h \<and> hd_status head \<noteq> 206 then http_fail ''range unsupported'' s
          else if (case hd_length head of None \<Rightarrow> False | Some n \<Rightarrow> of_nat (length r) - of_nat (hd_size head) \<noteq> n)
          then http_fail ''incomplete download'' s
          else if length r < hd_size head then (Ok (http_wait ''idle''), s)
          else
            let body = drop (hd_size head) r in
            if out_capacity \<noteq> 0 \<and> out_capacity < length body
            then bind (modify (on_http (\<lambda>h. h\<lparr>h_state := HTTP_ERROR\<rparr>))) (\<lambda>_.
                 ret \<lparr>r_ok = False, r_size = length body, r_state = ''buffer too small'', r_out = take out_capacity body\<rparr>) s
            else (Ok \<lparr>r_ok = True, r_size = length body, r_state = ''done'', r_out = (if out_capacity \<noteq> 0 then body else [])\<rparr>, s))"

definition http_same :: "string \<Rightarrow> string \<Rightarrow> u16 \<Rightarrow> bool \<Rightarrow> u64 \<Rightarrow> u64 \<Rightarrow> http_client \<Rightarrow> bool" where
  "http_same host path port use_range range_start range_end h \<longleftrightarrow>
     text_eq (Some (h_host h)) (Some host) \<and> text_eq (Some (h_path h)) (Some path) \<and> h_port h = port \<and>
     h_use_range h = use_range \<and> (use_range \<longrightarrow> h_range_start h = range_start \<and> h_range_end h = range_end)"

definition http_start :: "string \<Rightarrow> string \<Rightarrow> u16 \<Rightarrow> bool \<Rightarrow> u64 \<Rightarrow> u64 \<Rightarrow> 'h net \<Rightarrow> 'h net" where
  "http_start host path port use_range range_start range_end s =
     s\<lparr>next_tcp_port := next_tcp_port s + 1,
       http := zero_http\<lparr>h_state := HTTP_RESOLVE, h_host := copy_text [] 64 (Some host), h_path := copy_text [] 128 (Some path),
         h_port := port, h_use_range := use_range, h_range_start := range_start, h_range_end := range_end,
         h_local_port := next_tcp_port s, h_seq := 0x4B640000 + ucast (next_tcp_port s)\<rparr>\<rparr>"

text \<open>The stages of a request; each of them ends the call or goes on with the next.\<close>

definition http_finish :: "nat \<Rightarrow> ('h, http_result) netop" where
  "http_finish out_capacity s =
     (case h_state (http s) of
        HTTP_REQUEST_SENT \<Rightarrow> (Ok (http_wait (if h_response (http s) \<noteq> [] then ''receiving'' else ''waiting'')), s)
      | HTTP_DONE \<Rightarrow> http_deliver out_capacity s
      | _ \<Rightarrow> (Ok (http_wait ''error''), s))"

definition http_send_request :: "nat \<Rightarrow> ('h, http_result) netop" where
  "http_send_request out_capacity s =
     (if h_state (http s) = HTTP_ESTABLISHED then
        let h = http s; request = http_request h in
        bind (attempt (send_tcp (h_ip h) (h_port h) (h_local_port h) (h_seq h) (h_ack h) (TCP_FLAG_PSH OR TCP_FLAG_ACK)
               (map char_byte request))) (\<lambda>sent.
        if sent = None then ret (http_wait ''request send failed'')
        else bind (modify (on_http (\<lambda>h. h\<lparr>h_seq := h_seq h + of_nat (length request), h_state := HTTP_REQUEST_SENT\<rparr>))) (\<lambda>_.
             http_finish out_capacity)) s
      else http_finish out_capacity s)"

definition http_connect :: "nat \<Rightarrow> ('h, http_result) netop" where
  "http_connect out_capacity s =
     (if h_state (http s) = HTTP_ARP then
        let h = http s in
        bind (attempt (resolve_mac (h_ip h))) (\<lambda>mac.
        if mac = None then ret (http_wait ''resolving arp'')
        else bind (attempt (send_tcp (h_ip h) (h_port h) (h_local_port h) (h_seq h) 0 TCP_FLAG_SYN [])) (\<lambda>sent.
             if sent = None then ret (http_wait ''tcp send failed'')
             else bind (modify (on_http (\<lambda>h. h\<lparr>h_state := HTTP_SYN_SENT\<rparr>))) (\<lambda>_. ret (http_wait ''connecting'')))) s
      else if h_state (http s) = HTTP_SYN_SENT then (Ok (http_wait ''connecting''), s)
      else http_send_request out_capacity s)"

definition http_resolve :: "nat \<Rightarrow> ('h, http_result) netop" where
  "http_resolve out_capacity s =
     (if h_state (http s) = HTTP_RESOLVE then
        bind (k64_net_resolve_host (Some (h_host (http s)))) (\<lambda>(found, pending).
        case found of
          None \<Rightarrow> ret (http_wait (if pending then ''resolving dns'' else ''dns failed''))
        | Some ip \<Rightarrow>
            bind (modify (on_http (\<lambda>h. h\<lparr>h_ip := ip, h_state := HTTP_ARP\<rparr>))) (\<lambda>_. http_connect out_capacity)) s
      else http_connect out_capacity s)"

definition k64_net_http_get_range_raw :: "cstr \<Rightarrow> cstr \<Rightarrow> u16 \<Rightarrow> u64 \<Rightarrow> u64 \<Rightarrow> nat \<Rightarrow> ('h, http_result) netop" where
  "k64_net_http_get_range_raw host path port range_start range_end out_capacity s =
     (if str_of host = [] then (Ok (http_wait ''bad host''), s)
      else
        let host = str_of host;
            path = (if str_of path = [] then ''/'' else str_of path);
            port = (if port = 0 then 80 else port);
            use_range = (range_end \<ge> range_start \<and> (range_start \<noteq> 0 \<or> range_end \<noteq> 0));
            same = http_same host path port use_range range_start range_end (http s)
        in if h_state (http s) = HTTP_DONE \<and> same then http_deliver out_capacity s
           else if h_state (http s) = HTTP_IDLE \<or> h_state (http s) = HTTP_ERROR \<or> \<not> same
           then http_resolve out_capacity (http_start host path port use_range range_start range_end s)
           else http_resolve out_capacity s)"

definition k64_net_http_get_raw :: "cstr \<Rightarrow> cstr \<Rightarrow> u16 \<Rightarrow> nat \<Rightarrow> ('h, http_result) netop" where
  "k64_net_http_get_raw host path port out_capacity = k64_net_http_get_range_raw host path port 0 0 out_capacity"

text \<open>The text copied to the caller's buffer, in both cases; it is read from a buffer of 1024 bytes.\<close>

definition k64_net_http_get :: "cstr \<Rightarrow> cstr \<Rightarrow> u16 \<Rightarrow> nat \<Rightarrow> ('h, bool \<times> bytes) netop" where
  "k64_net_http_get host path port out_size =
     bind (k64_net_http_get_raw host path port 1024) (\<lambda>r.
     if out_size = 0 then ret (r_ok r, [])
     else
       let n = (if r_size r + 1 < out_size then r_size r else out_size - 1) in
       in_bounds (n \<le> 1024) (ret (r_ok r, take n (r_out r))))"

definition on_net :: "('h, 'a) netop \<Rightarrow> ('h net \<times> 's, 'a) op" where
  "on_net m s = (case m (fst s) of (r, n) \<Rightarrow> (r, (n, snd s)))"

definition on_rest :: "('s, 'a) op \<Rightarrow> ('h net \<times> 's, 'a) op" where
  "on_rest m s = (case m (snd s) of (r, t) \<Rightarrow> (r, (fst s, t)))"

definition k64_net_http_download_to_file ::
    "cstr \<Rightarrow> cstr \<Rightarrow> u16 \<Rightarrow> cstr \<Rightarrow> nat \<Rightarrow> ('h net \<times> 'g filesystem, bool \<times> string) op" where
  "k64_net_http_download_to_file host path port dst_path max_size_or_0 =
     bind (on_net (k64_net_http_get_raw host path port 0)) (\<lambda>r.
     if \<not> r_ok r then ret (False, r_state r)
     else if max_size_or_0 \<noteq> 0 \<and> r_size r > max_size_or_0 then ret (False, ''download too large'')
     else
       bind (on_net (get (\<lambda>s. h_response (http s)))) (\<lambda>response.
       bind (attempt (on_rest (k64_fs_write_file_raw dst_path (drop (length response - r_size r) response)))) (\<lambda>w.
       ret (if w = None then (False, ''write failed'') else (True, ''done'')))))"

definition k64_net_status_of :: "'h net \<Rightarrow> k64_net_status" where
  "k64_net_status_of s =
     (n_stats s)\<lparr>ns_link_up := n_ready s, ns_ipv4 := n_ipv4 s, ns_gateway := n_gateway s, ns_netmask := n_netmask s,
       ns_dns_server := n_dns_server s, ns_driver := (if n_driver s = [] then ns_driver (n_stats s) else take 23 (n_driver s))\<rparr>"

end
