(* ===== verification/Net_Props.thy ===== *)
theory Net_Props
  imports Net
begin

text \<open>
  Properties of the network stack: addresses as text, checksums, the caches, reads of received frames, the
  reassembly of the TCP stream and the delivery of an HTTP body.
\<close>

section \<open>Addresses as text\<close>

lemma ip_digit_char: "unat d < 10 \<Longrightarrow> (of_char (ip_digit d) :: nat) = 48 + unat d"
proof -
  assume d: "unat d < 10"
  then have "unat (48 + d) = 48 + unat d" by (subst unat_add_no_wrap) simp_all
  then show ?thesis using d by (simp add: ip_digit_def byte_char_def)
qed

lemma ip_digit [simp]:
  assumes "unat d < 10"
  shows "is_digit (ip_digit d)" "digit_value (ip_digit d) = unat d"
  using assms by (simp_all add: is_digit_def digit_value_def ip_digit_char)

lemma parse_digit:
  assumes "unat d < 10" and "parts ! part = of_nat k" and "k * 10 + unat d \<le> 255"
  shows "parse_ipv4_from (ip_digit d # p) parts part sd =
    parse_ipv4_from p (parts[part := of_nat (k * 10 + unat d)]) part True"
proof -
  have "parts ! part * 10 + of_nat (unat d) = (of_nat (k * 10 + unat d) :: u32)" using assms(2) by simp
  moreover have "\<not> (of_nat (k * 10 + unat d) :: u32) > 255"
    using assms(3) by (simp add: word_less_nat_alt unat_of_nat_small del: of_nat_add of_nat_mult)
  ultimately show ?thesis using assms(1) by (simp add: Let_def del: of_nat_add of_nat_mult)
qed

lemma parse_part:
  assumes "parts ! part = 0" and "part < length parts"
  shows "parse_ipv4_from (ip_part b @ p) parts part sd = parse_ipv4_from p (parts[part := ucast b]) part True"
proof -
  have b: "unat b < 256" by (rule unat_u8_less)
  have w: "unat (b div 100) = unat b div 100" "unat (b mod 100 div 10) = unat b mod 100 div 10"
      "unat (b mod 100 mod 10) = unat b mod 100 mod 10" "unat (b div 10) = unat b div 10" "unat (b mod 10) = unat b mod 10"
    by (simp_all add: unat_div unat_mod)
  have c: "b \<ge> 100 \<longleftrightarrow> unat b \<ge> 100" "b \<ge> 10 \<longleftrightarrow> unat b \<ge> 10" by (simp_all add: word_le_nat_alt)
  have u: "of_nat (unat b) = (ucast b :: u32)" by simp
  consider "unat b \<ge> 100" | "unat b \<ge> 10" "unat b < 100" | "unat b < 10" by linarith
  then show ?thesis
  proof cases
    case 1
    let ?x = "unat b div 100" and ?y = "unat b mod 100 div 10" and ?z = "unat b mod 100 mod 10"
    have e: "(?x * 10 + ?y) * 10 + ?z = unat b"
    proof -
      have "(?x * 10 + ?y) * 10 + ?z = ?x * 100 + (?y * 10 + ?z)" by (simp add: algebra_simps del: div_mult_mod_eq)
      then show ?thesis by (simp only: div_mult_mod_eq)
    qed
    have "?x < 10" using b by (simp add: div_less_iff_less_mult)
    moreover have "?y < 10" "?z < 10" by (simp_all add: div_less_iff_less_mult)
    moreover from this e b have "?x * 10 + ?y \<le> 255" by linarith
    ultimately have "parse_ipv4_from (ip_part b @ p) parts part sd =
        parse_ipv4_from p (parts[part := of_nat ((?x * 10 + ?y) * 10 + ?z)]) part True"
      using 1 assms b e w
      by (simp add: ip_part_def c parse_digit [of _ _ _ 0] parse_digit [of _ _ _ ?x] parse_digit [of _ _ _ "?x * 10 + ?y"]
          del: of_nat_add of_nat_mult parse_ipv4_from.simps)
    then show ?thesis unfolding e u .
  next
    case 2
    let ?x = "unat b div 10" and ?z = "unat b mod 10"
    have e: "?x * 10 + ?z = unat b" by simp
    have "?x < 10" "?z < 10" using 2 by (simp_all add: div_less_iff_less_mult)
    then have "parse_ipv4_from (ip_part b @ p) parts part sd = parse_ipv4_from p (parts[part := of_nat (?x * 10 + ?z)]) part True"
      using 2 assms e w
      by (simp add: ip_part_def c parse_digit [of _ _ _ 0] parse_digit [of _ _ _ ?x] del: of_nat_add of_nat_mult parse_ipv4_from.simps)
    then show ?thesis unfolding e u .
  next
    case 3
    then show ?thesis using assms by (simp add: ip_part_def c parse_digit [of _ _ _ 0] del: parse_ipv4_from.simps)
  qed
qed

lemma length_ip_part: "length (ip_part b) \<le> 3"
  by (simp add: ip_part_def)

lemma str_append_fits: "length out + length t < n \<Longrightarrow> str_append out n (Some t) = out @ t"
  by simp

abbreviation octet :: "u32 \<Rightarrow> nat \<Rightarrow> u8" where
  "octet ip i \<equiv> ucast (drop_bit (i * 8) ip AND 0xFF)"

lemma format_ipv4_text:
  assumes "16 \<le> n"
  shows "k64_net_format_ipv4 ip n =
    ip_part (octet ip 3) @ ''.'' @ ip_part (octet ip 2) @ ''.'' @ ip_part (octet ip 1) @ ''.'' @ ip_part (octet ip 0)"
  using assms length_ip_part [of "octet ip 3"] length_ip_part [of "octet ip 2"] length_ip_part [of "octet ip 1"]
    length_ip_part [of "octet ip 0"]
  by (simp add: k64_net_format_ipv4_def Let_def str_append_fits del: str_append_Some)

lemma ucast_and_ff [simp]:
  "(ucast (x AND 0xFF :: u32) :: u8) = ucast x" "(ucast (y AND 0xFF :: u16) :: u8) = ucast y"
proof -
  have m: "(0xFF :: u32) = mask 8" "(0xFF :: u16) = mask 8" by (simp_all add: mask_eq_exp_minus_1)
  show "(ucast (x AND 0xFF :: u32) :: u8) = ucast x" "(ucast (y AND 0xFF :: u16) :: u8) = ucast y"
    unfolding m by (auto intro!: bit_word_eqI simp: bit_simps simp del: mask_eq_exp_minus_1)
qed

lemma octets_join:
  "push_bit 24 (ucast (octet ip 3)) OR push_bit 16 (ucast (octet ip 2)) OR push_bit 8 (ucast (octet ip 1)) OR ucast (octet ip 0) = (ip :: u32)"
proof (rule bit_word_eqI)
  fix n assume "n < LENGTH(32)"
  then consider "n < 8" | "8 \<le> n" "n < 16" | "16 \<le> n" "n < 24" | "24 \<le> n" "n < 32" by force
  then show "bit (push_bit 24 (ucast (octet ip 3) :: u32) OR push_bit 16 (ucast (octet ip 2)) OR push_bit 8 (ucast (octet ip 1)) OR
      ucast (octet ip 0)) n = bit ip n"
    by cases (auto simp: bit_simps)
qed

text \<open>An address printed in dotted decimal into a buffer of at least 16 bytes is read back as the same address,
  and the text fits the buffer with its terminator.\<close>

theorem ipv4_text_roundtrip:
  assumes "16 \<le> n"
  shows "k64_net_parse_ipv4 (Some (k64_net_format_ipv4 ip n)) = Some ip \<and> length (k64_net_format_ipv4 ip n) < n"
proof -
  have "length (k64_net_format_ipv4 ip n) < n"
    using assms length_ip_part [of "octet ip 3"] length_ip_part [of "octet ip 2"] length_ip_part [of "octet ip 1"]
      length_ip_part [of "octet ip 0"] by (simp add: format_ipv4_text)
  moreover have dot: "\<not> is_digit CHR ''.''" by (simp add: is_digit_def)
  ultimately show ?thesis using octets_join [of ip] parse_part [where p = "[]", simplified]
    by (simp add: format_ipv4_text [OF assms] k64_net_parse_ipv4_def parse_part)
qed

theorem ipv4_text_roundtrip_witness:
  "k64_net_parse_ipv4 (Some (k64_net_format_ipv4 0xC0A80001 16)) = Some 0xC0A80001 \<and> length (k64_net_format_ipv4 0xC0A80001 16) < 16"
  using ipv4_text_roundtrip [of 16 "0xC0A80001"] by simp

section \<open>Checksums\<close>

text \<open>The sum of the 16-bit words of a buffer as a number; a last single byte is the high half of a word.\<close>

fun word_sum :: "bytes \<Rightarrow> nat" where
  "word_sum (a # b # bs) = unat a * 256 + unat b + word_sum bs"
| "word_sum [a] = unat a * 256"
| "word_sum [] = 0"

lemma unat_be_word: "unat (push_bit 8 (ucast a) OR ucast b :: u16) = unat (a :: u8) * 256 + unat (b :: u8)"
proof -
  have "push_bit 8 (ucast a) AND ucast b = (0 :: u16)"
    by (rule bit_word_eqI) (auto simp: bit_simps dest: bit_imp_le_length)
  then have "push_bit 8 (ucast a) OR ucast b = push_bit 8 (ucast a) + (ucast b :: u16)"
    by (simp add: disjunctive_add_eq_or)
  moreover have "unat (push_bit 8 (ucast a) :: u16) = unat a * 256"
    using unat_u8_less [of a] by (simp add: push_bit_eq_mult unat_word_ariths unat_ucast_up)
  ultimately show ?thesis using unat_u8_less [of a] unat_u8_less [of b] by (simp add: unat_add_no_wrap unat_ucast_up)
qed

lemma unat_be_high: "unat (push_bit 8 (ucast a) :: u16) = unat (a :: u8) * 256"
  using unat_be_word [of a 0] by simp

lemma word_sum_le: "word_sum bs \<le> 65535 * length bs"
proof (induction bs rule: word_sum.induct)
  case (1 a b bs)
  then show ?case using unat_u8_less [of a] unat_u8_less [of b] by simp
next
  case (2 a)
  then show ?case using unat_u8_less [of a] by simp
qed simp

lemma word_sum_append: "even (length xs) \<Longrightarrow> word_sum (xs @ ys) = word_sum xs + word_sum ys"
  by (induction xs rule: word_sum.induct) auto

lemma unat_csum_add: "unat a + word_sum bs < 2 ^ 32 \<Longrightarrow> unat (csum_add_bytes a bs) = unat a + word_sum bs"
proof (induction a bs rule: csum_add_bytes.induct)
  case (1 acc a b bs)
  have "unat (acc + ucast (push_bit 8 (ucast a) OR ucast b :: u16)) = unat acc + (unat a * 256 + unat b)"
    using 1(2) by (subst unat_add_no_wrap) (auto simp: unat_be_word)
  then show ?case using 1 by simp
next
  case (2 acc a)
  then show ?case by (simp add: unat_add_no_wrap unat_be_high)
qed simp

text \<open>Folding the carries keeps the sum modulo 65535, and zero stays the only sum that gives zero.\<close>

lemma fold_split: "unat (acc :: u32) = unat (drop_bit 16 acc) * 65536 + unat (acc AND 0xFFFF)"
    "unat ((acc AND 0xFFFF) + drop_bit 16 acc) = unat (acc AND 0xFFFF) + unat (drop_bit 16 acc)"
proof -
  have m: "acc AND 0xFFFF = take_bit 16 acc" by (simp add: take_bit_eq_mask mask_eq_exp_minus_1)
  have dv: "unat (drop_bit 16 acc) = unat acc div 65536" "unat (take_bit 16 acc) = unat acc mod 65536"
    by (simp_all add: drop_bit_eq_div take_bit_eq_mod unat_div unat_mod)
  show 1: "unat acc = unat (drop_bit 16 acc) * 65536 + unat (acc AND 0xFFFF)" unfolding m dv by simp
  show "unat ((acc AND 0xFFFF) + drop_bit 16 acc) = unat (acc AND 0xFFFF) + unat (drop_bit 16 acc)"
    using 1 unat_u32_less [of acc] by (intro unat_add_no_wrap) (simp add: m dv)
qed

lemma csum_fold_mod:
  "unat (csum_fold acc) mod 65535 = unat acc mod 65535 \<and> unat (csum_fold acc) < 65536 \<and> (unat (csum_fold acc) = 0 \<longleftrightarrow> unat acc = 0)"
proof (induction acc rule: csum_fold.induct)
  case (1 acc)
  show ?case
  proof (cases "drop_bit 16 acc = 0")
    case True
    then have "unat acc < 65536" using fold_split(1) [of acc] word_and_le1 [of acc "0xFFFF"] by (simp add: word_le_nat_alt)
    with True show ?thesis by (subst (1 2 3) csum_fold.simps) simp
  next
    case False
    have "(unat (acc AND 0xFFFF) + unat (drop_bit 16 acc)) mod 65535 = unat acc mod 65535"
    proof -
      have "unat acc = 65535 * unat (drop_bit 16 acc) + (unat (acc AND 0xFFFF) + unat (drop_bit 16 acc))"
        using fold_split(1) [of acc] by linarith
      then show ?thesis by (metis mod_mult_self4)
    qed
    moreover have "unat (drop_bit 16 acc) \<noteq> 0" using False by (simp add: unat_eq_0)
    moreover have "csum_fold acc = csum_fold ((acc AND 0xFFFF) + drop_bit 16 acc)" using False by (subst csum_fold.simps) simp
    ultimately show ?thesis using 1 [OF False] fold_split [of acc] by auto
  qed
qed

lemma unat_csum_finish: "unat (csum_finish acc) = 65535 - unat (csum_fold acc)"
proof -
  have lt: "unat (csum_fold acc) < 65536" using csum_fold_mod by blast
  have "ucast (NOT (csum_fold acc)) = NOT (ucast (csum_fold acc) :: u16)"
    by (rule bit_word_eqI) (auto simp: bit_simps)
  moreover have "unat (ucast (csum_fold acc) :: u16) = unat (csum_fold acc)"
    using lt by (simp add: unsigned_ucast_eq take_bit_nat_eq_self)
  moreover have "unat (NOT w) = 65535 - unat w" for w :: u16
  proof -
    have "NOT w = 65535 - w" by (simp add: not_eq_complement)
    moreover have "w \<le> 65535" using unat_u16_less [of w] by (simp add: word_le_nat_alt)
    ultimately show ?thesis by (simp add: unat_sub)
  qed
  ultimately show ?thesis by (simp add: csum_finish_def)
qed

lemma word_sum_wr16be [simp]: "word_sum (wr16be c) = unat c"
proof -
  have "unat c = unat (ucast (drop_bit 8 c) :: u8) * 256 + unat (ucast c :: u8)"
  proof -
    have "unat (drop_bit 8 c) = unat c div 256" by (simp add: drop_bit_eq_div unat_div)
    moreover have "unat (ucast (drop_bit 8 c) :: u8) = unat (drop_bit 8 c)"
      using unat_u16_less [of c] by (simp add: unsigned_ucast_eq take_bit_nat_eq_self drop_bit_eq_div unat_div div_less_iff_less_mult)
    moreover have "unat (ucast c :: u8) = unat c mod 256" by (simp add: unsigned_ucast_eq take_bit_eq_mod)
    ultimately show ?thesis by simp
  qed
  then show ?thesis by (simp add: wr16be_def)
qed

lemma length_wr [simp]: "length (wr16be v) = 2" "length (wr32be w) = 4"
  by (simp_all add: wr16be_def wr32be_def)

text \<open>
  A receiver adds the 16-bit words in ones' complement, where a carry out of the top is added at the bottom. The
  result is all ones, which is how a correct message shows, exactly when the plain sum is a positive multiple of 65535.
\<close>

definition ones_ok :: "nat \<Rightarrow> bool" where
  "ones_ok n \<longleftrightarrow> 0 < n \<and> n mod 65535 = 0"

text \<open>
  A checksum field at an even offset: once the complement of the sum with a zero field, or 65535 in the place of
  zero, is in the field, the whole is correct.
\<close>

lemma csum_verifies:
  assumes "even (length xs)" and "length xs + 2 + length ys < 65536"
    and c: "c = csum_finish (csum_add_bytes 0 (xs @ [0, 0] @ ys)) \<or>
      c = 0xFFFF \<and> csum_finish (csum_add_bytes 0 (xs @ [0, 0] @ ys)) = 0"
  shows "ones_ok (word_sum (xs @ wr16be c @ ys))"
proof -
  let ?S = "word_sum (xs @ ys)"
  have z: "word_sum (xs @ [0, 0] @ ys) = ?S" "word_sum (xs @ wr16be c @ ys) = ?S + unat c"
    using assms(1) by (simp_all add: word_sum_append)
  have b: "?S \<le> 65535 * (length xs + length ys)" using word_sum_le [of "xs @ ys"] by simp
  have lt: "?S + unat c < 2 ^ 32" using b assms(2) unat_u16_less [of c] by simp
  have 0: "unat (csum_add_bytes 0 (xs @ [0, 0] @ ys)) = ?S" using lt z by (simp add: unat_csum_add)
  let ?r = "unat (csum_fold (csum_add_bytes 0 (xs @ [0, 0] @ ys)))"
  note r = csum_fold_mod [of "csum_add_bytes 0 (xs @ [0, 0] @ ys)", unfolded 0]
  have k: "unat c = 65535 - ?r \<or> unat c = 65535 \<and> ?r = 65535"
  proof (cases "c = csum_finish (csum_add_bytes 0 (xs @ [0, 0] @ ys))")
    case True
    then show ?thesis by (simp add: unat_csum_finish)
  next
    case False
    with c have f: "c = 0xFFFF" "csum_finish (csum_add_bytes 0 (xs @ [0, 0] @ ys)) = 0" by auto
    have "65535 - ?r = 0" using unat_csum_finish [of "csum_add_bytes 0 (xs @ [0, 0] @ ys)"] f(2) by simp
    then show ?thesis using f(1) r by simp
  qed
  have "(?S + unat c) mod 65535 = 0"
  proof -
    have "(?S + unat c) mod 65535 = (?r + unat c) mod 65535" using r by (metis mod_add_left_eq)
    also have "\<dots> = 0" using k r by auto
    finally show ?thesis .
  qed
  moreover have "?S + unat c \<noteq> 0" using k r by auto
  ultimately show ?thesis by (simp add: z ones_ok_def)
qed

lemma csum_add_append: "even (length xs) \<Longrightarrow> csum_add_bytes (csum_add_bytes a xs) ys = csum_add_bytes a (xs @ ys)"
  by (induction a xs rule: csum_add_bytes.induct) auto

text \<open>A transport packet with its pseudo header: both addresses, the protocol and the length.\<close>

definition transport_sum :: "u32 \<Rightarrow> u32 \<Rightarrow> nat \<Rightarrow> bytes \<Rightarrow> nat" where
  "transport_sum src_ip dst_ip proto p = word_sum (wr32be src_ip @ wr32be dst_ip) + proto + length p + word_sum p"

lemma length_pseudo_header [simp]: "length (pseudo_header a b p n) = 12"
  by (simp add: pseudo_header_def)

lemma word_sum_pseudo_header:
  "n < 65536 \<Longrightarrow> word_sum (pseudo_header a b proto n) = word_sum (wr32be a @ wr32be b) + unat proto + n"
  by (simp add: pseudo_header_def word_sum_append unat_of_nat_small)

lemma transport_verifies:
  assumes "even (length xs)" and "length xs + length ys < 65000"
    and "c = csum_finish (csum_add_bytes 0 (pseudo_header a b proto (length xs + 2 + length ys) @ xs @ [0, 0] @ ys)) \<or>
      c = 0xFFFF \<and> csum_finish (csum_add_bytes 0 (pseudo_header a b proto (length xs + 2 + length ys) @ xs @ [0, 0] @ ys)) = 0"
  shows "ones_ok (transport_sum a b (unat proto) (xs @ wr16be c @ ys))"
proof -
  have "ones_ok (word_sum ((pseudo_header a b proto (length xs + 2 + length ys) @ xs) @ wr16be c @ ys))"
    by (rule csum_verifies) (use assms in auto)
  then show ?thesis
    using assms(1,2) by (simp add: word_sum_append word_sum_pseudo_header transport_sum_def add_ac)
qed

lemma tcp_verifies:
  assumes "length payload \<le> 1480"
  shows "ones_ok (transport_sum a b 6
    (tcp_header sp dp seq ack flags (tcp_checksum a b (tcp_header sp dp seq ack flags 0 @ payload)) @ payload))"
proof -
  have w0: "wr16be 0 = [0, 0]" by (simp add: wr16be_def)
  show ?thesis
    using transport_verifies [of "wr16be sp @ wr16be dp @ wr32be seq @ wr32be ack @ [0x50, flags] @ wr16be 4096" "[0, 0] @ payload"
        _ a b IP_PROTO_TCP] assms
    by (simp add: tcp_header_def tcp_checksum_def csum_add_append w0 IP_PROTO_TCP_def)
qed

lemma udp_verifies:
  assumes "length payload \<le> 1480"
  shows "ones_ok (transport_sum a b 17 (udp_packet a b sp dp payload))"
    and "bytes_at 6 2 (udp_packet a b sp dp payload) \<noteq> [0, 0]"
proof -
  let ?u = "\<lambda>c. udp_header sp dp (8 + length payload) c @ payload"
  let ?c = "udp_checksum a b (?u 0)"
  have w0: "wr16be 0 = [0, 0]" by (simp add: wr16be_def)
  have u: "udp_packet a b sp dp payload = ?u ?c" by (simp add: udp_packet_def Let_def)
  have l: "length (udp_header sp dp (8 + length payload) 0) = 8" by (simp add: udp_header_def)
  have c: "?c = csum_finish (csum_add_bytes 0 (pseudo_header a b IP_PROTO_UDP (8 + length payload) @ ?u 0)) \<or>
      ?c = 0xFFFF \<and> csum_finish (csum_add_bytes 0 (pseudo_header a b IP_PROTO_UDP (8 + length payload) @ ?u 0)) = 0"
    by (simp add: udp_checksum_def Let_def csum_add_append l)
  show "ones_ok (transport_sum a b 17 (udp_packet a b sp dp payload))"
    using transport_verifies [of "wr16be sp @ wr16be dp @ wr16be (of_nat (8 + length payload))" payload ?c a b IP_PROTO_UDP] assms c
    by (simp add: u udp_header_def w0 IP_PROTO_UDP_def del: of_nat_add)
  have "?c \<noteq> 0" by (simp add: udp_checksum_def Let_def)
  have "wr16be ?c \<noteq> [0, 0]"
  proof
    assume "wr16be ?c = [0, 0]"
    then have "word_sum (wr16be ?c) = word_sum [0, 0]" by (rule arg_cong)
    with \<open>?c \<noteq> 0\<close> show False by (simp add: unat_eq_0)
  qed
  then show "bytes_at 6 2 (udp_packet a b sp dp payload) \<noteq> [0, 0]"
    by (simp add: u udp_header_def bytes_at_def)
qed

lemma plain_verifies:
  assumes "even (length xs)" and "length xs + 2 + length ys < 65536"
  shows "ones_ok (word_sum (xs @ wr16be (csum16 (xs @ [0, 0] @ ys)) @ ys))"
  by (rule csum_verifies [OF assms]) (simp add: csum16_def)

lemma ip_header_verifies:
  "ones_ok (word_sum (ip_header len ident proto (csum16 (ip_header len ident proto 0 src dst)) src dst))"
proof -
  have w0: "wr16be 0 = [0, 0]" by (simp add: wr16be_def)
  show ?thesis
    using plain_verifies [of "[0x45, 0] @ wr16be len @ wr16be ident @ wr16be 0x4000 @ [64, proto]" "wr32be src @ wr32be dst"]
    by (simp add: ip_header_def w0)
qed

lemma ping_verifies: "ones_ok (word_sum (ping_packet (csum16 (ping_packet 0 ident sequence)) ident sequence))"
proof -
  have w0: "wr16be 0 = [0, 0]" by (simp add: wr16be_def)
  show ?thesis
    using plain_verifies [of "[8, 0]" "wr16be ident @ wr16be sequence @ map of_nat [8..<32]"]
    by (simp add: ping_packet_def w0)
qed

end
