(* ===== verification/Net_Inv.thy ===== *)
theory Net_Inv
  imports Net_Props
begin

text \<open>
  The sizes of the network state and the reads of received frames: every operation keeps the tables and texts
  within their arrays, and the handlers read only bytes of the frame as long as its length field is honest.
\<close>

section \<open>Well-formed states\<close>

definition texts_ok :: "'h net \<Rightarrow> bool" where
  "texts_ok s \<longleftrightarrow> length (n_driver s) < 24 \<and> length (n_mac s) = 6 \<and> length (ns_mac (n_stats s)) = 6 \<and>
     length (pending_dns_name s) < 64 \<and> pending_dns_waits s \<le> 8"

definition caches_ok :: "'h net \<Rightarrow> bool" where
  "caches_ok s \<longleftrightarrow> length (arp_ip s) = 8 \<and> length (arp_mac s) = 8 \<and> arp_count s \<le> 8 \<and>
     list_all (\<lambda>a. length a = 4) (arp_ip s) \<and> list_all (\<lambda>m. length m = 6) (arp_mac s) \<and>
     distinct (take (arp_count s) (arp_ip s)) \<and>
     length (dns_cache s) = 8 \<and> dns_count s \<le> 8 \<and> list_all (\<lambda>e. length (dc_name e) < 64) (dns_cache s)"

definition http_ok :: "http_client \<Rightarrow> bool" where
  "http_ok h \<longleftrightarrow> length (h_host h) < 64 \<and> length (h_path h) < 128 \<and> length (h_response h) < HTTP_BUF_SIZE"

definition net_ok :: "'h net \<Rightarrow> bool" where
  "net_ok s \<longleftrightarrow> texts_ok s \<and> caches_ok s \<and> http_ok (http s)"

text \<open>An operation that ends without a fault in a well-formed state.\<close>

definition stays_ok :: "('h, 'a) netop \<Rightarrow> bool" where
  "stays_ok m \<longleftrightarrow> (\<forall>s. net_ok s \<longrightarrow> fst (m s) \<noteq> Fault \<and> net_ok (snd (m s)))"

lemma stays_okD: "stays_ok m \<Longrightarrow> net_ok s \<Longrightarrow> fst (m s) \<noteq> Fault \<and> net_ok (snd (m s))"
  by (simp add: stays_ok_def)

lemma ok_at: "(\<And>s. net_ok s \<Longrightarrow> \<exists>m. stays_ok m \<and> f s = m s) \<Longrightarrow> stays_ok f"
  by (metis stays_ok_def)

lemma ok_ret [simp, intro]: "stays_ok (ret a)"
  by (simp add: stays_ok_def)

lemma ok_fail [simp, intro]: "stays_ok fail"
  by (simp add: stays_ok_def)

lemma ok_get [simp, intro]: "stays_ok (get g)"
  by (simp add: stays_ok_def)

lemma ok_modify: "(\<And>s. net_ok s \<Longrightarrow> net_ok (f s)) \<Longrightarrow> stays_ok (modify f)"
  by (simp add: stays_ok_def)

lemma ok_need: "x \<noteq> None \<Longrightarrow> stays_ok (need x)"
  by (auto simp: need_def)

lemma ok_bind:
  assumes "stays_ok m" and "\<And>a. stays_ok (f a)"
  shows "stays_ok (bind m f)"
proof (unfold stays_ok_def, intro allI impI)
  fix s :: "'a net" assume s: "net_ok s"
  obtain r t where m: "m s = (r, t)" by (cases "m s")
  have "r \<noteq> Fault" "net_ok t" using stays_okD [OF assms(1) s] m by simp_all
  then show "fst (bind m f s) \<noteq> Fault \<and> net_ok (snd (bind m f s))"
    using stays_okD [OF assms(2)] m by (cases r) (simp_all add: bind_def)
qed

lemma ok_bind_get: "(\<And>s. net_ok s \<Longrightarrow> stays_ok (f (g s))) \<Longrightarrow> stays_ok (bind (get g) f)"
  by (rule ok_at) auto

lemma ok_bind_need: "x \<noteq> None \<Longrightarrow> (\<And>a. x = Some a \<Longrightarrow> stays_ok (f a)) \<Longrightarrow> stays_ok (bind (need x) f)"
  by (rule ok_at) (auto simp: need_def)

lemma ok_attempt: "stays_ok m \<Longrightarrow> stays_ok (attempt m)"
  by (auto simp: stays_ok_def attempt_def split: prod.splits res.splits)

lemma ok_guard: "stays_ok m \<Longrightarrow> stays_ok (guard c m)"
  by (simp add: stays_ok_def guard_def)

lemma ok_guarded: "(c \<Longrightarrow> stays_ok m) \<Longrightarrow> stays_ok (guard c m)"
  by (cases c) (simp_all add: stays_ok_def guard_def)

lemma ok_in_bounds: "c \<Longrightarrow> stays_ok m \<Longrightarrow> stays_ok (in_bounds c m)"
  by (simp add: stays_ok_def)

lemma ok_if: "(c \<Longrightarrow> stays_ok a) \<Longrightarrow> (\<not> c \<Longrightarrow> stays_ok b) \<Longrightarrow> stays_ok (if c then a else b)"
  by simp

lemmas ok_rules = ok_ret ok_fail ok_get ok_bind ok_attempt ok_guard ok_if

lemmas net_ok_defs = net_ok_def texts_ok_def caches_ok_def http_ok_def

section \<open>Sending\<close>

lemma ok_send_frame: "stays_ok (send_frame f)"
  by (auto simp: stays_ok_def send_frame_def net_ok_defs split: option.splits prod.splits bool.splits)

lemma ok_arp_request: "stays_ok (k64_net_send_arp_request ip)"
  by (rule ok_at) (auto simp: k64_net_send_arp_request_def intro: ok_guard ok_send_frame)

lemma ok_arp_reply: "stays_ok (send_arp_reply mac ip)"
  by (rule ok_at) (auto simp: send_arp_reply_def intro: ok_send_frame)

lemma ok_resolve_mac: "stays_ok (resolve_mac ip)"
proof (rule ok_at)
  fix s :: "'a net" assume "net_ok s"
  define m :: "('a, bytes) netop" where "m = (let target = (if ip AND n_netmask s = n_ipv4 s AND n_netmask s then ip else n_gateway s) in
      case arp_lookup target s of Some mac \<Rightarrow> ret mac | None \<Rightarrow> bind (attempt (k64_net_send_arp_request target)) (\<lambda>_. fail))"
  have "stays_ok m" by (auto simp: m_def Let_def intro!: ok_rules ok_arp_request split: option.splits)
  moreover have "resolve_mac ip s = m s" by (auto simp: resolve_mac_def m_def Let_def split: option.splits)
  ultimately show "\<exists>m. stays_ok m \<and> resolve_mac ip s = m s" by blast
qed

lemma ok_send_ipv4_from: "length payload \<le> 1480 \<Longrightarrow> stays_ok (send_ipv4_from d a b proto payload)"
  unfolding send_ipv4_from_def Let_def
  by (intro ok_guard ok_bind ok_get ok_in_bounds ok_modify ok_send_frame) (auto simp: net_ok_defs)

lemma ok_send_ipv4: "length payload \<le> 1480 \<Longrightarrow> stays_ok (send_ipv4 d b proto payload)"
  by (rule ok_at) (auto simp: send_ipv4_def intro: ok_send_ipv4_from)

lemma length_headers [simp]:
  "length (tcp_header a b c d e f) = 20" "length (udp_header g h n i) = 8" "length (udp_packet j k l m body) = 8 + length body"
  by (simp_all add: tcp_header_def udp_header_def udp_packet_def Let_def)

lemma ok_send_tcp: "length payload \<le> 1460 \<Longrightarrow> stays_ok (send_tcp ip dp sp seq ack flags payload)"
  unfolding send_tcp_def Let_def
  by (intro ok_guard ok_bind ok_get ok_in_bounds ok_resolve_mac ok_send_ipv4) auto

lemma ok_send_ack: "stays_ok send_ack"
proof (rule ok_at)
  fix s :: "'a net"
  let ?m = "bind (attempt (send_tcp (h_ip (http s)) (h_port (http s)) (h_local_port (http s)) (h_seq (http s)) (h_ack (http s))
       TCP_FLAG_ACK [])) (\<lambda>_. ret ()) :: ('a, unit) netop"
  have "stays_ok ?m" by (intro ok_rules ok_send_tcp) simp
  then show "\<exists>m. stays_ok m \<and> send_ack s = m s" unfolding send_ack_def by blast
qed

section \<open>Caches\<close>

lemma rd32be_wr32be [simp]: "rd32be (wr32be v) 0 = Some v"
  using octets_join [of v] by (simp add: rd32be_def wr32be_def)

lemma bit_u8_high [simp]: "8 \<le> n \<Longrightarrow> \<not> bit (b :: u8) n"
  using bit_imp_le_length [of b n] by auto

lemma take_update_new:
  assumes "n < length xs" and "distinct (take n xs)" and "x \<notin> set (take n xs)"
  shows "distinct (take (Suc n) (xs[n := x]))"
  using assms by (simp add: take_Suc_conv_app_nth)

lemma take_update_old:
  assumes "i < n" and "n \<le> length xs" and "distinct (take n xs)" and "x \<notin> set (take n xs)"
  shows "distinct (take n (xs[i := x]))"
  using assms by (simp add: take_update_swap distinct_list_update)

lemma arp_new_key:
  assumes "arp_find ip s = None" and "arp_count s \<le> length (arp_ip s)"
  shows "wr32be ip \<notin> set (take (arp_count s) (arp_ip s))"
proof
  assume "wr32be ip \<in> set (take (arp_count s) (arp_ip s))"
  then obtain i where "i < arp_count s" "arp_ip s ! i = wr32be ip" using assms(2) by (auto simp: in_set_conv_nth)
  then show False using assms(1) by (auto simp: arp_find_def find_None_iff)
qed

lemma arp_found_key:
  assumes "arp_find ip s = Some i" and "list_all (\<lambda>a. length a = 4) (arp_ip s)" and "arp_count s \<le> length (arp_ip s)"
  shows "i < arp_count s \<and> arp_ip s ! i = wr32be ip"
proof -
  have i: "i < arp_count s" "rd32be (arp_ip s ! i) 0 = Some ip"
    using assms(1) find_SomeD unfolding arp_find_def by fastforce+
  then have "length (arp_ip s ! i) = 4" using assms(2,3) by (simp add: list_all_length)
  then obtain a b c d where k: "arp_ip s ! i = [a, b, c, d]" by (auto simp: length_Suc_conv numeral_eq_Suc)
  have e: "[a, b, c, d] = wr32be (push_bit 24 (ucast a) OR push_bit 16 (ucast b) OR push_bit 8 (ucast c) OR ucast d)"
    by (auto simp: wr32be_def intro!: bit_word_eqI simp: bit_simps)
  have "ip = push_bit 24 (ucast a) OR push_bit 16 (ucast b) OR push_bit 8 (ucast c) OR ucast d"
    using i(2) by (simp add: k rd32be_def)
  then have "wr32be ip = [a, b, c, d]" unfolding e by (simp only:)
  then show ?thesis using i(1) k by simp
qed

lemma list_all_update: "list_all P xs \<Longrightarrow> P x \<Longrightarrow> list_all P (xs[i := x])"
  by (auto simp: list_all_iff dest: set_update_subset_insert [THEN subsetD])

lemma net_ok_set_arp:
  assumes "net_ok s" and "length ips = 8" and "list_all (\<lambda>a. length a = 4) ips" and "distinct (take n ips)" and "n \<le> 8"
    and "length macs = 8" and "list_all (\<lambda>m. length m = 6) macs"
  shows "net_ok (s\<lparr>arp_count := n, arp_ip := ips, arp_mac := macs\<rparr>)"
  using assms by (simp add: net_ok_defs)

lemma ok_arp_remember:
  assumes "length mac = 6"
  shows "stays_ok (arp_remember ip mac)"
proof (unfold stays_ok_def, intro allI impI)
  fix s :: "'a net" assume s: "net_ok s"
  then have c: "length (arp_ip s) = 8" "length (arp_mac s) = 8" "arp_count s \<le> 8" "list_all (\<lambda>a. length a = 4) (arp_ip s)"
      "list_all (\<lambda>m. length m = 6) (arp_mac s)" "distinct (take (arp_count s) (arp_ip s))"
    by (simp_all add: net_ok_defs)
  note upd = list_all_update [OF c(4), of "wr32be ip"] list_all_update [OF c(5), of mac] assms
  have "net_ok (snd (arp_remember ip mac s))"
  proof (cases "arp_find ip s")
    case (Some i)
    then have "(arp_ip s)[i := wr32be ip] = arp_ip s" using arp_found_key [OF Some c(4)] c(1,3) by (metis list_update_id)
    then show ?thesis using Some net_ok_set_arp [OF s c(1,4,6,3), of "(arp_mac s)[i := mac]"] upd c
      by (simp add: arp_remember_def)
  next
    case None
    note new = arp_new_key [OF None]
    show ?thesis
    proof (cases "arp_count s < 8")
      case True
      have "distinct (take (Suc (arp_count s)) ((arp_ip s)[arp_count s := wr32be ip]))"
        using take_update_new [of "arp_count s" "arp_ip s"] True c new by simp
      then show ?thesis using None True upd c by (simp add: arp_remember_def net_ok_set_arp [OF s])
    next
      case False
      then have "arp_count s = 8" using c by simp
      then have "distinct (take (arp_count s) ((arp_ip s)[0 := wr32be ip]))"
        using take_update_old [of 0 "arp_count s" "arp_ip s"] c new by simp
      then show ?thesis using None False upd c by (simp add: arp_remember_def net_ok_set_arp [OF s])
    qed
  qed
  moreover have "fst (arp_remember ip mac s) = Ok ()" by (simp add: arp_remember_def Let_def split: prod.splits)
  ultimately show "fst (arp_remember ip mac s) \<noteq> Fault \<and> net_ok (snd (arp_remember ip mac s))" by simp
qed

lemma net_ok_dns_put: "net_ok s \<Longrightarrow> net_ok (dns_cache_put name ip s)"
proof -
  assume s: "net_ok s"
  have "length (copy_text [] 64 (Some name)) < 64" by (simp add: copy_text_def)
  then have "list_all (\<lambda>e. length (dc_name e) < 64) ((dns_cache s)[i := \<lparr>dc_name = copy_text [] 64 (Some name), dc_ip = ip\<rparr>])" for i
    using s by (intro list_all_update) (simp_all add: net_ok_defs)
  then show ?thesis using s by (auto simp: dns_cache_put_def net_ok_defs Let_def split: option.splits)
qed

lemma distinct_take_nth: "distinct (take n xs) \<Longrightarrow> n \<le> length xs \<Longrightarrow> i < n \<Longrightarrow> j < n \<Longrightarrow> xs ! i = xs ! j \<Longrightarrow> i = j"
  using nth_eq_iff_index_eq [of "take n xs" i j] by simp

lemma arp_remember_lookup:
  assumes "net_ok s" and "length mac = 6"
  shows "arp_lookup ip (snd (arp_remember ip mac s)) = Some mac"
proof -
  let ?s = "snd (arp_remember ip mac s)"
  have c: "length (arp_ip s) = 8" "length (arp_mac s) = 8" "arp_count s \<le> 8" "list_all (\<lambda>a. length a = 4) (arp_ip s)"
    using assms(1) by (simp_all add: net_ok_defs)
  have "\<exists>slot n. ?s = s\<lparr>arp_count := n, arp_ip := (arp_ip s)[slot := wr32be ip], arp_mac := (arp_mac s)[slot := mac]\<rparr> \<and>
      slot < n \<and> n \<le> 8"
  proof (cases "arp_find ip s")
    case (Some i)
    then have "i < arp_count s" using arp_found_key [OF Some c(4)] c by simp
    then show ?thesis using Some c by (intro exI [of _ i] exI [of _ "arp_count s"]) (simp add: arp_remember_def)
  next
    case None
    let ?slot = "if arp_count s < 8 then arp_count s else 0" and ?n = "if arp_count s < 8 then arp_count s + 1 else arp_count s"
    show ?thesis using None c by (intro exI [of _ ?slot] exI [of _ ?n]) (simp add: arp_remember_def)
  qed
  then obtain slot n where sl: "?s = s\<lparr>arp_count := n, arp_ip := (arp_ip s)[slot := wr32be ip], arp_mac := (arp_mac s)[slot := mac]\<rparr>"
      "slot < n" "n \<le> 8" by blast
  have ok: "net_ok ?s" using stays_okD [OF ok_arp_remember [OF assms(2)] assms(1)] by blast
  have k: "arp_ip ?s ! slot = wr32be ip" "slot < arp_count ?s" using sl c by simp_all
  then have "arp_find ip ?s \<noteq> None" by (auto simp: arp_find_def find_None_iff)
  then obtain i where i: "arp_find ip ?s = Some i" by blast
  have "i < arp_count ?s" "arp_ip ?s ! i = wr32be ip" using arp_found_key [OF i] ok by (simp_all add: net_ok_defs)
  moreover have "distinct (take (arp_count ?s) (arp_ip ?s))" "arp_count ?s \<le> length (arp_ip ?s)"
    using ok by (simp_all add: net_ok_defs)
  ultimately have "i = slot" using distinct_take_nth k by metis
  then show ?thesis using i sl c by (simp add: arp_lookup_def)
qed

section \<open>Reads of a frame\<close>

lemma reads [simp]:
  "rd8 p i = None \<longleftrightarrow> length p \<le> i" "rd16be p i = None \<longleftrightarrow> length p \<le> i + 1" "rd32be p i = None \<longleftrightarrow> length p \<le> i + 3"
  by (auto simp: rd8_def rd16be_def rd32be_def)

lemma dns_skip_name_reads: "dns_len \<le> length dns \<Longrightarrow> dns_skip_name dns dns_len pos \<noteq> None"
proof (induction dns dns_len pos rule: dns_skip_name.induct)
  case (1 dns dns_len pos)
  show ?case
  proof (cases "pos < dns_len")
    case True
    then obtain b where "rd8 dns pos = Some b" using 1(2) by (cases "rd8 dns pos") simp_all
    then show ?thesis using 1 True by (subst dns_skip_name.simps) simp
  qed (subst dns_skip_name.simps, simp)
qed

lemma dns_skip_questions_reads: "dns_len \<le> length dns \<Longrightarrow> dns_skip_questions dns dns_len qd pos \<noteq> None"
  by (induction dns dns_len qd pos rule: dns_skip_questions.induct) (auto split: option.splits simp: dns_skip_name_reads)

lemma dns_answers_reads: "dns_len \<le> length dns \<Longrightarrow> dns_answers dns dns_len an pos \<noteq> None"
proof (induction dns dns_len an pos rule: dns_answers.induct)
  case (2 dns dns_len an pos)
  obtain p where p: "dns_skip_name dns dns_len pos = Some p" using dns_skip_name_reads [OF 2(2)] by blast
  show ?case
  proof (cases "pos + 12 \<le> dns_len \<and> \<not> p + 10 > dns_len")
    case True
    then obtain t c l where r: "rd16be dns p = Some t" "rd16be dns (p + 2) = Some c" "rd16be dns (p + 8) = Some l"
      using 2(2) by (cases "rd16be dns p"; cases "rd16be dns (p + 2)"; cases "rd16be dns (p + 8)") simp_all
    have "rd32be dns (p + 10) \<noteq> None" if "\<not> p + 10 + unat l > dns_len" "l = 4"
      using that 2(2) by simp
    then show ?thesis using True p r 2 by (cases "rd32be dns (p + 10)") (auto simp: Let_def)
  qed (use p in auto)
qed simp

lemma ok_handle_dns: "udp_len \<le> length udp \<Longrightarrow> stays_ok (handle_dns_payload udp udp_len)"
  unfolding handle_dns_payload_def Let_def
  by (intro ok_if ok_ret ok_bind ok_need ok_get dns_skip_questions_reads dns_answers_reads)
    (auto intro!: ok_ret ok_modify dest: net_ok_dns_put simp: net_ok_defs split: option.splits)

lemma dhcp_option_reads: "pos + len \<le> length bootp \<Longrightarrow> dhcp_option opt len bootp pos o' \<noteq> None"
  by (auto simp: dhcp_option_def Let_def split: option.splits if_splits)

lemma dhcp_parse_reads: "bootp_len \<le> length bootp \<Longrightarrow> dhcp_parse bootp bootp_len pos o' \<noteq> None"
proof (induction bootp bootp_len pos o' rule: dhcp_parse.induct)
  case (1 bootp bootp_len pos o')
  show ?case
  proof (cases "pos + 1 < bootp_len")
    case True
    then obtain opt len where r: "rd8 bootp pos = Some opt" "rd8 bootp (pos + 1) = Some len"
      using 1(3) by (cases "rd8 bootp pos"; cases "rd8 bootp (pos + 1)") simp_all
    moreover have "dhcp_option opt (unat len) bootp (pos + 2) o' \<noteq> None" if "\<not> pos + 2 + unat len > bootp_len"
      using that 1(3) by (intro dhcp_option_reads) simp
    ultimately show ?thesis using 1 True by (subst dhcp_parse.simps) (auto split: option.splits)
  qed (subst dhcp_parse.simps, simp)
qed

lemma ok_dhcp_message: "stays_ok (send_dhcp_message t r v)"
proof (rule ok_at)
  fix s :: "'a net" assume "net_ok s"
  then have "length (n_mac s) = 6" by (simp add: net_ok_defs)
  then have "stays_ok (guard (n_ready s) (send_ipv4_from (replicate 6 0xFF) 0 0xFFFFFFFF IP_PROTO_UDP
        (udp_packet 0 0xFFFFFFFF DHCP_CLIENT_PORT DHCP_SERVER_PORT (dhcp_body (dhcp_xid s) (n_mac s) t r v))) :: ('a, unit) netop)"
    by (intro ok_guard ok_send_ipv4_from) (simp add: dhcp_body_def)
  then show "\<exists>m. stays_ok m \<and> send_dhcp_message t r v s = m s" unfolding send_dhcp_message_def by blast
qed

lemma ok_dhcp_apply: "stays_ok (dhcp_apply y o')"
  unfolding dhcp_apply_def send_dhcp_request_def
  by (intro ok_rules ok_modify ok_dhcp_message) (auto simp: net_ok_defs Let_def)

lemma ok_handle_dhcp: "udp_len \<le> length udp \<Longrightarrow> stays_ok (handle_dhcp_payload udp udp_len)"
  unfolding handle_dhcp_payload_def Let_def
  by (intro ok_if ok_ret ok_bind ok_need ok_get ok_dhcp_apply dhcp_parse_reads) auto

lemma ok_handle_icmp:
  "icmp_len \<le> length icmp \<Longrightarrow> icmp_len \<le> 1480 \<Longrightarrow> stays_ok (handle_icmp mac icmp icmp_len ip)"
  unfolding handle_icmp_def Let_def
  by (intro ok_rules ok_need ok_modify ok_in_bounds ok_send_ipv4) (auto simp: net_ok_defs)

lemma http_append_reads:
  assumes "len \<le> length p" and "length (h_response h) < HTTP_BUF_SIZE"
  shows "\<exists>r. http_append p len h = Some (h\<lparr>h_response := r\<rparr>) \<and> length r < HTTP_BUF_SIZE"
proof (cases "len = 0 \<or> length (h_response h) + 1 \<ge> HTTP_BUF_SIZE")
  case True
  then show ?thesis using assms(2) by (intro exI [of _ "h_response h"]) (simp add: http_append_def)
next
  case False
  then show ?thesis using assms by (auto simp: http_append_def Let_def)
qed

lemma tcp_accept_reads:
  assumes "len \<le> length p" and "http_ok h"
  shows "\<exists>h'. tcp_accept seq p len h = Some h' \<and> http_ok h'"
proof -
  let ?seen = "unat (h_ack h - seq)"
  have r: "length (h_response h) < HTTP_BUF_SIZE" using assms(2) by (simp add: http_ok_def)
  obtain r1 where "http_append p len h = Some (h\<lparr>h_response := r1\<rparr>)" "length r1 < HTTP_BUF_SIZE"
    using http_append_reads [OF assms(1) r] by blast
  moreover obtain r2 where "http_append (drop ?seen p) (len - ?seen) h = Some (h\<lparr>h_response := r2\<rparr>)" "length r2 < HTTP_BUF_SIZE"
    using http_append_reads [of "len - ?seen" "drop ?seen p" h] assms(1) r by (auto simp: diff_le_mono)
  ultimately show ?thesis using assms(2) by (auto simp: tcp_accept_def Let_def http_ok_def)
qed

lemma http_ok_updates [simp]:
  "http_ok (h\<lparr>h_state := st\<rparr>) = http_ok h" "http_ok (h\<lparr>h_seq := a\<rparr>) = http_ok h" "http_ok (h\<lparr>h_ack := b\<rparr>) = http_ok h"
  "http_ok (h\<lparr>h_ip := c\<rparr>) = http_ok h" "http_ok (tcp_check_done h) = http_ok h"
  by (simp_all add: http_ok_def tcp_check_done_def)

lemma ok_on_http: "(\<And>h. http_ok h \<Longrightarrow> http_ok (f h)) \<Longrightarrow> stays_ok (modify (on_http f))"
  by (rule ok_modify) (simp add: net_ok_def texts_ok_def caches_ok_def)

lemma ok_tcp_segment: "len \<le> length data \<Longrightarrow> stays_ok (tcp_segment seq ack flags data len)"
proof (rule ok_at)
  fix s :: "'a net" assume len: "len \<le> length data" and s: "net_ok s"
  have h: "http_ok (http s)" using s by (simp add: net_ok_def)
  obtain h' where acc: "tcp_accept seq data len (http s) = Some h'" "http_ok h'" using tcp_accept_reads [OF len h] by blast
  define a :: "('a, unit) netop" where "a = modify (on_http (\<lambda>h. h\<lparr>h_state := HTTP_ERROR\<rparr>))"
  define b :: "('a, unit) netop" where "b = bind (modify (on_http (\<lambda>h. h\<lparr>h_seq := h_seq h + 1, h_ack := seq + 1\<rparr>))) (\<lambda>_.
        bind send_ack (\<lambda>_. modify (on_http (\<lambda>h. h\<lparr>h_state := HTTP_ESTABLISHED\<rparr>))))"
  define c :: "('a, unit) netop" where "c = bind (if (h_state (http s) = HTTP_REQUEST_SENT \<or> h_state (http s) = HTTP_ESTABLISHED) \<and> len \<noteq> 0
              then bind (need (tcp_accept seq data len (http s))) (\<lambda>h.
                   bind (modify (on_http (\<lambda>_. tcp_check_done h))) (\<lambda>_. send_ack)) else ret ()) (\<lambda>_.
        if flags AND TCP_FLAG_FIN \<noteq> 0 then
          bind (modify (on_http (\<lambda>h. if seq + of_nat len = h_ack h then h\<lparr>h_ack := h_ack h + 1\<rparr> else h))) (\<lambda>_.
          bind send_ack (\<lambda>_.
          modify (on_http (\<lambda>h. h\<lparr>h_state := HTTP_DONE\<rparr>))))
        else ret ())"
  have "stays_ok a" "stays_ok b" "stays_ok c"
    unfolding a_def b_def c_def using acc by (intro ok_if ok_bind_need ok_bind ok_send_ack ok_on_http ok_ret; auto)+
  moreover have "tcp_segment seq ack flags data len s =
      (if flags AND TCP_FLAG_RST \<noteq> 0 then a
       else if h_state (http s) = HTTP_SYN_SENT \<and> flags AND (TCP_FLAG_SYN OR TCP_FLAG_ACK) = TCP_FLAG_SYN OR TCP_FLAG_ACK \<and>
         ack = h_seq (http s) + 1 then b else c) s"
    by (simp add: tcp_segment_def Let_def a_def b_def c_def)
  ultimately show "\<exists>m. stays_ok m \<and> tcp_segment seq ack flags data len s = m s" by (meson ok_if)
qed

lemma ok_handle_tcp: "len \<le> length p \<Longrightarrow> stays_ok (handle_tcp_payload p len ip)"
  unfolding handle_tcp_payload_def Let_def
  by (intro ok_if ok_ret ok_bind ok_need ok_get ok_tcp_segment) auto

lemma ok_handle_arp: "42 \<le> length frame \<Longrightarrow> stays_ok (handle_arp frame)"
  unfolding handle_arp_def
  by (intro ok_rules ok_need ok_modify ok_arp_remember ok_arp_reply) (auto simp: net_ok_defs)

text \<open>The length field of an IPv4 packet, when there is one, is small enough not to wrap around in the bound.\<close>

definition honest_length :: "bytes \<Rightarrow> bool" where
  "honest_length frame \<longleftrightarrow> (case rd16be frame 16 of None \<Rightarrow> True | Some ip_len \<Rightarrow> unat ip_len < 65522)"

lemma ok_handle_ipv4:
  assumes "34 \<le> length frame" and "length frame \<le> 1514" and "honest_length frame"
  shows "stays_ok (handle_ipv4 frame)"
  unfolding handle_ipv4_def
proof (intro ok_bind_need ok_bind_get)
  fix vihl ip_len proto src_ip dst_ip and s :: "'a net"
  assume l: "rd16be frame 16 = Some ip_len"
  let ?ihl = "unat (vihl AND 0x0F) * 4"
  have w: "unat (14 + ip_len) = 14 + unat ip_len"
    using assms(3) l by (simp add: honest_length_def unat_add_no_wrap)
  have mac: "length (bytes_at 6 6 frame) = 6" using assms(1) by simp
  have stat: "stays_ok (modify (on_stats f) :: ('a, unit) netop)" if "\<And>t. length (ns_mac t) = 6 \<Longrightarrow> length (ns_mac (f t)) = 6" for f
    using that by (intro ok_modify) (simp add: net_ok_defs)
  show "stays_ok (let ihl = ?ihl in
     if ihl < 20 \<or> unat ip_len < ihl \<or> unat (14 + ip_len) > length frame \<or> (dst_ip \<noteq> n_ipv4 s \<and> dst_ip \<noteq> 0xFFFFFFFF) then ret ()
     else
      let payload = drop (14 + ihl) frame; len = unat ip_len - ihl; src_mac = bytes_at 6 6 frame in
      bind (arp_remember src_ip src_mac) (\<lambda>_.
      bind (modify (on_stats (\<lambda>t. t\<lparr>ns_rx_ipv4 := ns_rx_ipv4 t + 1\<rparr>))) (\<lambda>_.
      if proto = IP_PROTO_UDP then
        bind (modify (on_stats (\<lambda>t. t\<lparr>ns_rx_udp := ns_rx_udp t + 1\<rparr>))) (\<lambda>_.
        bind (handle_dns_payload payload len) (\<lambda>_.
        handle_dhcp_payload payload len))
      else if proto = IP_PROTO_ICMP then
        bind (modify (on_stats (\<lambda>t. t\<lparr>ns_rx_icmp := ns_rx_icmp t + 1\<rparr>))) (\<lambda>_.
        handle_icmp src_mac payload len src_ip)
      else if proto = IP_PROTO_TCP then
        bind (modify (on_stats (\<lambda>t. t\<lparr>ns_rx_tcp := ns_rx_tcp t + 1\<rparr>))) (\<lambda>_.
        handle_tcp_payload payload len src_ip)
      else ret ())) :: ('a, unit) netop)"
    unfolding Let_def w
    by (intro ok_if ok_ret ok_bind ok_arp_remember mac stat ok_handle_dns ok_handle_dhcp ok_handle_icmp ok_handle_tcp)
      (use assms in auto)
qed (use assms(1) in auto)

lemma receive_frame_stays:
  assumes "net_ok s" and "length frame \<le> 1514" and "honest_length frame"
  shows "fst (k64_net_receive_frame frame s) \<noteq> Fault \<and> net_ok (snd (k64_net_receive_frame frame s))"
proof (cases "\<not> n_ready s \<or> length frame < 14 \<or> (\<not> mac_eq frame (n_mac s) \<and> \<not> mac_is_broadcast frame)")
  case True
  then show ?thesis using assms(1) by (simp add: k64_net_receive_frame_def)
next
  case False
  let ?m = "bind (need (rd16be frame 12)) (\<lambda>typ.
       bind (modify (on_stats (\<lambda>t. t\<lparr>ns_rx_frames := ns_rx_frames t + 1, ns_last_ethertype := typ,
               ns_last_rx_len := of_nat (length frame)\<rparr>))) (\<lambda>_.
       if typ = ETH_TYPE_ARP \<and> length frame \<ge> 42 then handle_arp frame
       else if typ = ETH_TYPE_IPV4 \<and> length frame \<ge> 34 \<and> drop_bit 4 (frame ! 14) = 4 then handle_ipv4 frame
       else ret ()))"
  have m: "stays_ok ?m"
    using False assms(2,3)
    by (intro ok_if ok_ret ok_bind ok_need ok_modify ok_handle_arp ok_handle_ipv4) (auto simp: net_ok_defs)
  have e: "k64_net_receive_frame frame s = ?m s"
    unfolding k64_net_receive_frame_def using False by (rule if_not_P)
  show ?thesis unfolding e by (rule stays_okD [OF m assms(1)])
qed

text \<open>C21: a received frame of at most 1514 bytes is handled without a read or write outside a buffer, and the state
  stays well formed, when the length field of its IPv4 header is below 65522: whatever the DNS, DHCP,
  ICMP and TCP fields claim, the handlers read bytes of the frame only.\<close>

theorem receive_frame_safe:
  assumes "net_ok s" and "length frame \<le> 1514" and "honest_length frame"
  shows "fst (k64_net_receive_frame frame s) \<noteq> Fault \<and> net_ok (snd (k64_net_receive_frame frame s))"
  using receive_frame_stays [OF assms] .

lemma net_ok_init: "net_ok (k64_net_init s)"
  by (simp add: k64_net_init_def net_ok_defs zero_status_def zero_http_def HTTP_BUF_SIZE_def list_all_iff)

text \<open>An ICMP echo request of 42 bytes to all stations, with the two bytes of its length field.\<close>

definition echo_frame :: "u8 \<Rightarrow> u8 \<Rightarrow> bytes" where
  "echo_frame hi lo = [255, 255, 255, 255, 255, 255, 2, 2, 2, 2, 2, 2, 8, 0, 0x45, 0, hi, lo, 0, 0, 0, 0, 64, 1, 0, 0,
     10, 0, 2, 2, 255, 255, 255, 255, 8, 0, 0, 0, 0, 0, 0, 0]"

definition sample_net :: "unit net" where
  "sample_net = (k64_net_init undefined)\<lparr>n_ready := True, n_send := Some (\<lambda>frame hw. (True, hw))\<rparr>"

lemma net_ok_sample: "net_ok sample_net"
  using net_ok_init [of undefined] by (simp add: sample_net_def net_ok_defs)

theorem receive_frame_safe_witness:
  "fst (k64_net_receive_frame (echo_frame 0 28) sample_net) \<noteq> Fault \<and> net_ok (snd (k64_net_receive_frame (echo_frame 0 28) sample_net))"
  by (rule receive_frame_safe) (simp_all add: net_ok_sample honest_length_def rd16be_def echo_frame_def)

lemma arp_remember_ok: "\<exists>t. arp_remember ip mac s = (Ok (), t)"
  by (simp add: arp_remember_def Let_def split: prod.splits)

text \<open>C37: the bound on the length of an IPv4 packet is computed in 16 bits and wraps around: an echo request of 42
  bytes whose length field is 65530 is accepted, and its handler copies 65510 bytes, far beyond the
  frame, into a buffer of 1480 bytes on the stack.\<close>

theorem overlong_echo_overflows: "fst (k64_net_receive_frame (echo_frame 0xFF 0xFA) (s\<lparr>n_ready := True\<rparr>)) = Fault"
proof -
  let ?f = "echo_frame 0xFF 0xFA"
  have len: "length ?f = 42" by (simp add: echo_frame_def)
  have bc: "mac_is_broadcast ?f" by (simp add: mac_is_broadcast_def echo_frame_def upt_rec)
  have r: "rd16be ?f 12 = Some ETH_TYPE_IPV4" "?f ! 14 = 0x45" "rd8 ?f 14 = Some 0x45" "rd16be ?f 16 = Some 0xFFFA" "rd8 ?f 23 = Some IP_PROTO_ICMP"
      "rd32be ?f 26 = Some 0x0A000202" "rd32be ?f 30 = Some 0xFFFFFFFF" "rd8 (drop 34 ?f) 0 = Some 8"
    by (simp_all add: echo_frame_def rd8_def rd16be_def rd32be_def ETH_TYPE_IPV4_def IP_PROTO_ICMP_def)
  have icmp: "fst (handle_icmp mac (drop 34 ?f) 65510 ip t) = Fault" for mac ip and t :: "'a net"
    using r(8) by (simp add: handle_icmp_def need_def)
  have "fst (handle_ipv4 ?f t) = Fault" for t :: "'a net"
  proof -
    obtain u where "arp_remember 0x0A000202 (bytes_at 6 6 ?f) t = (Ok (), u)" using arp_remember_ok by blast
    then show ?thesis using icmp len
      by (simp add: handle_ipv4_def r need_def Let_def bind_run IP_PROTO_ICMP_def IP_PROTO_UDP_def)
  qed
  then show ?thesis using len bc by (simp add: k64_net_receive_frame_def r need_def ETH_TYPE_IPV4_def ETH_TYPE_ARP_def)
qed

section \<open>Requests keep the state well formed\<close>

lemma length_dns_labels: "length packet \<le> 506 \<Longrightarrow> length (fst (dns_labels host packet l a)) \<le> 506"
  by (induction host packet l a rule: dns_labels.induct) auto

lemma length_dns_body: "length (dns_query_body ident host) \<le> 503"
proof -
  obtain p l a where d: "dns_labels host (replicate 8 0 @ wr16be ident @ wr16be 0x0100 @ wr16be 1 @ replicate 6 0 @ [0]) 20 21 = (p, l, a)"
    by (cases "dns_labels host (replicate 8 0 @ wr16be ident @ wr16be 0x0100 @ wr16be 1 @ replicate 6 0 @ [0]) 20 21")
  have "length p \<le> 506"
    using length_dns_labels [of "replicate 8 0 @ wr16be ident @ wr16be 0x0100 @ wr16be 1 @ replicate 6 0 @ [0]" host 20 21] d by simp
  then show ?thesis using d by (simp add: dns_query_body_def)
qed

lemma ok_send_dns_query: "stays_ok (send_dns_query host)"
  unfolding send_dns_query_def Let_def
  by (intro ok_rules ok_resolve_mac ok_modify ok_send_ipv4)
    (use order_trans [OF length_dns_body, of 1472] in \<open>auto simp: net_ok_defs copy_text_def str_copy_def copy_from_take split: option.splits\<close>)

lemma ok_resolve_host: "stays_ok (k64_net_resolve_host host)"
proof (unfold stays_ok_def, intro allI impI)
  fix s :: "'a net" assume s: "net_ok s"
  let ?q = "bind (attempt (send_dns_query host)) (\<lambda>sent. ret (None, sent \<noteq> None)) :: ('a, u32 option \<times> bool) netop"
  have q: "stays_ok ?q" by (intro ok_rules ok_send_dns_query)
  have w: "net_ok (s\<lparr>pending_dns_waits := pending_dns_waits s + 1\<rparr>)" if "pending_dns_waits s < 8"
    using s that by (simp add: net_ok_defs)
  show "fst (k64_net_resolve_host host s) \<noteq> Fault \<and> net_ok (snd (k64_net_resolve_host host s))"
    using s w stays_okD [OF q s] by (auto simp: k64_net_resolve_host_def split: option.splits)
qed

lemma http_deliver_state:
  "fst (http_deliver cap s) \<noteq> Fault \<and>
   (snd (http_deliver cap s) = s \<or> snd (http_deliver cap s) = on_http (\<lambda>h. h\<lparr>h_state := HTTP_ERROR\<rparr>) s)"
proof -
  define P :: "http_result res \<times> 'a net \<Rightarrow> bool" where
    "P x \<longleftrightarrow> fst x \<noteq> Fault \<and> (snd x = s \<or> snd x = on_http (\<lambda>h. h\<lparr>h_state := HTTP_ERROR\<rparr>) s)" for x
  have i: "P (if c then x else y)" if "P x" "P y" for c x y using that by simp
  have f: "P (http_fail t s)" "P (Ok r, s)" "P (bind (modify (on_http (\<lambda>h. h\<lparr>h_state := HTTP_ERROR\<rparr>))) (\<lambda>_. ret r) s)" for t r
    by (simp_all add: P_def http_fail_def)
  have "P (http_deliver cap s)"
    unfolding http_deliver_def Let_def by (cases "http_find_body (h_response (http s))") (simp_all only: option.case, (intro i f)+)
  then show ?thesis unfolding P_def .
qed

lemma ok_http_deliver: "stays_ok (http_deliver cap)"
proof (unfold stays_ok_def, intro allI impI)
  fix s :: "'a net" assume s: "net_ok s"
  have "net_ok (on_http (\<lambda>h. h\<lparr>h_state := HTTP_ERROR\<rparr>) s)" using s by (simp add: net_ok_defs)
  then show "fst (http_deliver cap s) \<noteq> Fault \<and> net_ok (snd (http_deliver cap s))"
    using http_deliver_state [of cap s] s by auto
qed

lemma length_http_request: "length (http_request h) < 256"
proof -
  have a: "length (str_append r 256 (Some t)) < 256" if "length r < 256" for r t using length_str_append [OF that] .
  have e: "length ([] :: string) < 256" by simp
  have c: "length (if c then r else r') < 256" if "c \<Longrightarrow> length r < 256" "length r' < 256" for c and r r' :: string
    using that by simp
  have d: "length (let q = r in if length q + 2 < 256 then q @ CRLF else q) < 256" if "length r < 256" for r
    using that by (simp add: CRLF_def Let_def)
  show ?thesis unfolding http_request_def Let_def [of "\<lambda>t req. str_append req 256 (Some t)"]
    Let_def [of "str_append (str_append (str_append (str_append (str_append [] 256 (Some ''GET '')) 256 (Some (h_path h))) 256
      (Some ('' HTTP/1.0'' @ CRLF @ ''Host: ''))) 256 (Some (h_host h))) 256 (Some (CRLF @ ''User-Agent: K64-kcurl/1.0'' @ CRLF))"]
    Let_def [of "if _ then _ else (_ :: string)"]
    by (rule a, rule c, rule d) (rule a | rule e)+
qed

lemma ok_http_finish: "stays_ok (http_finish cap)"
proof (rule ok_at)
  fix s :: "'a net"
  show "\<exists>m. stays_ok m \<and> http_finish cap s = m s"
    using ok_http_deliver [of cap] ok_ret
    by (cases "h_state (http s)") (auto simp: http_finish_def intro: exI [of _ "ret (http_wait ''error'')"])
qed

lemma ok_http_send_request: "stays_ok (http_send_request cap)"
proof (rule ok_at)
  fix s :: "'a net"
  let ?h = "http s" and ?r = "http_request (http s)"
  let ?m = "bind (attempt (send_tcp (h_ip ?h) (h_port ?h) (h_local_port ?h) (h_seq ?h) (h_ack ?h) (TCP_FLAG_PSH OR TCP_FLAG_ACK)
               (map char_byte ?r))) (\<lambda>sent.
        if sent = None then ret (http_wait ''request send failed'')
        else bind (modify (on_http (\<lambda>h. h\<lparr>h_seq := h_seq h + of_nat (length ?r), h_state := HTTP_REQUEST_SENT\<rparr>))) (\<lambda>_.
             http_finish cap)) :: ('a, http_result) netop"
  have "stays_ok ?m"
    using length_http_request [of ?h] by (intro ok_rules ok_send_tcp ok_on_http ok_http_finish) auto
  then show "\<exists>m. stays_ok m \<and> http_send_request cap s = m s"
    using ok_http_finish [of cap] by (cases "h_state ?h = HTTP_ESTABLISHED") (auto simp: http_send_request_def Let_def)
qed

lemma ok_http_connect: "stays_ok (http_connect cap)"
proof (rule ok_at)
  fix s :: "'a net"
  let ?h = "http s"
  let ?m = "bind (attempt (resolve_mac (h_ip ?h))) (\<lambda>mac.
        if mac = None then ret (http_wait ''resolving arp'')
        else bind (attempt (send_tcp (h_ip ?h) (h_port ?h) (h_local_port ?h) (h_seq ?h) 0 TCP_FLAG_SYN [])) (\<lambda>sent.
             if sent = None then ret (http_wait ''tcp send failed'')
             else bind (modify (on_http (\<lambda>h. h\<lparr>h_state := HTTP_SYN_SENT\<rparr>))) (\<lambda>_. ret (http_wait ''connecting'')))) :: ('a, http_result) netop"
  have "stays_ok ?m" by (intro ok_rules ok_resolve_mac ok_send_tcp ok_on_http) auto
  then show "\<exists>m. stays_ok m \<and> http_connect cap s = m s"
    using ok_http_send_request [of cap] ok_ret [of "http_wait ''connecting''"]
    by (cases "h_state ?h = HTTP_ARP"; cases "h_state ?h = HTTP_SYN_SENT") (auto simp: http_connect_def Let_def intro: exI [of _ "ret (http_wait ''connecting'')"])
qed

lemma ok_http_resolve: "stays_ok (http_resolve cap)"
proof (rule ok_at)
  fix s :: "'a net"
  let ?m = "bind (k64_net_resolve_host (Some (h_host (http s)))) (\<lambda>(found, pending).
        case found of
          None \<Rightarrow> ret (http_wait (if pending then ''resolving dns'' else ''dns failed''))
        | Some ip \<Rightarrow>
            bind (modify (on_http (\<lambda>h. h\<lparr>h_ip := ip, h_state := HTTP_ARP\<rparr>))) (\<lambda>_. http_connect cap)) :: ('a, http_result) netop"
  have "stays_ok ?m"
    by (intro ok_bind ok_resolve_host) (auto intro!: ok_rules ok_on_http ok_http_connect split: option.splits)
  then show "\<exists>m. stays_ok m \<and> http_resolve cap s = m s"
    using ok_http_connect [of cap] by (cases "h_state (http s) = HTTP_RESOLVE") (auto simp: http_resolve_def)
qed

lemma net_ok_http_start: "net_ok s \<Longrightarrow> net_ok (http_start host path port u a b s)"
  by (simp add: net_ok_defs http_start_def zero_http_def copy_text_def HTTP_BUF_SIZE_def min_less_iff_disj)

lemma ok_http_get_range: "stays_ok (k64_net_http_get_range_raw host path port a b cap)"
proof (unfold stays_ok_def, intro allI impI)
  fix s :: "'a net" assume s: "net_ok s"
  note r = stays_okD [OF ok_http_resolve] stays_okD [OF ok_http_deliver]
  show "fst (k64_net_http_get_range_raw host path port a b cap s) \<noteq> Fault \<and> net_ok (snd (k64_net_http_get_range_raw host path port a b cap s))"
    by (simp add: k64_net_http_get_range_raw_def Let_def r s net_ok_http_start)
qed

text \<open>The text variant copies out of a buffer of 1024 bytes: it keeps the state well-formed in any case, and stays
  inside the buffer when the caller's is at most one byte larger.\<close>

lemma http_get_state: "snd (k64_net_http_get host path port n s) = snd (k64_net_http_get_range_raw host path port 0 0 1024 s)"
  by (simp add: k64_net_http_get_def k64_net_http_get_raw_def bind_def in_bounds_def ret_def Let_def split: prod.splits res.splits)

lemma ok_http_get: "n \<le> 1025 \<Longrightarrow> stays_ok (k64_net_http_get host path port n)"
  unfolding k64_net_http_get_def k64_net_http_get_raw_def Let_def
  by (intro ok_bind ok_http_get_range ok_if ok_ret ok_in_bounds) auto

lemma ok_send_udp: "stays_ok (k64_net_send_udp ip port text)"
proof -
  have "length (udp_packet a ip 49152 port (take (unat (of_nat n :: u16)) (map char_byte (str_of text)))) \<le> 1480"
    if "\<not> (of_nat n :: u16) > 1400" for n a
    using that by (simp add: word_less_nat_alt not_less)
  then show ?thesis unfolding k64_net_send_udp_def Let_def
    by (intro ok_guarded ok_bind ok_resolve_mac ok_get ok_send_ipv4)
qed

lemma ok_send_ping: "stays_ok (k64_net_send_ping ip n)"
  unfolding k64_net_send_ping_def by (intro ok_rules ok_resolve_mac ok_send_ipv4) (simp add: ping_packet_def)

lemma ok_dhcp_discover: "stays_ok k64_net_dhcp_discover"
  unfolding k64_net_dhcp_discover_def send_dhcp_discover_def
  by (intro ok_rules ok_modify ok_dhcp_message) (simp add: net_ok_defs)

lemma ok_register: "length mac = 6 \<Longrightarrow> stays_ok (k64_net_register_device driver (Some mac) (Some send))"
  by (auto simp: stays_ok_def k64_net_register_device_def guard_def net_ok_defs)

section \<open>Reachable states\<close>

text \<open>One call into the stack, from a driver or a client; frames are those a driver may hand over.\<close>

inductive net_step :: "'h net \<Rightarrow> 'h net \<Rightarrow> bool" where
  register: "length mac = 6 \<Longrightarrow> net_step s (snd (k64_net_register_device driver (Some mac) (Some send) s))"
| unregister: "net_step s (k64_net_unregister_device s)"
| receive: "length frame \<le> 1514 \<Longrightarrow> honest_length frame \<Longrightarrow> net_step s (snd (k64_net_receive_frame frame s))"
| arp: "net_step s (snd (k64_net_send_arp_request ip s))"
| dhcp: "net_step s (snd (k64_net_dhcp_discover s))"
| udp: "net_step s (snd (k64_net_send_udp ip port text s))"
| ping: "net_step s (snd (k64_net_send_ping ip sequence s))"
| resolve: "net_step s (snd (k64_net_resolve_host host s))"
| http: "net_step s (snd (k64_net_http_get_range_raw host path port range_start range_end cap s))"
| http_text: "net_step s (snd (k64_net_http_get host path port out_size s))"

inductive net_reachable :: "'h net \<Rightarrow> bool" where
  init: "net_reachable (k64_net_init s)"
| step: "net_reachable s \<Longrightarrow> net_step s t \<Longrightarrow> net_reachable t"

lemma ok_receive: "length frame \<le> 1514 \<Longrightarrow> honest_length frame \<Longrightarrow> stays_ok (k64_net_receive_frame frame)"
  by (simp add: stays_ok_def receive_frame_stays)

lemmas ok_calls = ok_arp_request ok_dhcp_discover ok_send_udp ok_send_ping ok_resolve_host ok_http_get_range

lemma stays_ok_net: "stays_ok m \<Longrightarrow> net_ok s \<Longrightarrow> net_ok (snd (m s))"
  by (simp add: stays_ok_def)

lemma net_step_ok: "net_step s t \<Longrightarrow> net_ok s \<Longrightarrow> net_ok t"
proof (induction rule: net_step.induct)
  case (unregister s)
  then show ?case by (simp add: k64_net_unregister_device_def net_ok_defs)
next
  case (http_text s)
  then show ?case using stays_ok_net [OF ok_http_get_range] by (simp add: http_get_state)
qed (rule stays_ok_net, (intro ok_calls ok_register ok_receive; assumption), assumption)+

text \<open>C22: in every state of the network stack reached by registering devices with 6-byte addresses, receiving frames
  of at most 1514 bytes whose length field does not exceed the frame, and client calls, the tables and texts have the sizes of their arrays:
  addresses of 6 and 4 bytes, at most 8 entries in each cache with no address twice, names and paths shorter than
  their buffers, the response shorter than its buffer. The client calls made there read and write inside their
  buffers: neighbour requests, DHCP, UDP, ping, host names, the raw download, and the text download into a buffer of at most
  1025 bytes. A neighbour that was just heard is found in the cache with its address.\<close>

theorem net_reachable_ok:
  assumes "net_reachable s"
  shows "net_ok s \<and> fst (k64_net_send_arp_request ip s) \<noteq> Fault \<and> fst (k64_net_dhcp_discover s) \<noteq> Fault \<and>
    fst (k64_net_send_udp ip dst_port text s) \<noteq> Fault \<and> fst (k64_net_send_ping ip sequence s) \<noteq> Fault \<and>
    fst (k64_net_resolve_host host s) \<noteq> Fault \<and>
    fst (k64_net_http_get_range_raw host path port range_start range_end cap s) \<noteq> Fault \<and>
    (out_size \<le> 1025 \<longrightarrow> fst (k64_net_http_get host path port out_size s) \<noteq> Fault) \<and>
    arp_lookup ip (snd (arp_remember ip [a, b, c, d, e, f] s)) = Some [a, b, c, d, e, f]"
proof -
  have ok: "net_ok s" using assms by induction (auto intro: net_ok_init net_step_ok)
  then show ?thesis
    using ok_calls [THEN stays_okD, OF ok] ok_http_get [THEN stays_okD, OF _ ok] arp_remember_lookup [OF ok, of "[a, b, c, d, e, f]" ip]
    by auto
qed

theorem net_reachable_ok_witness:
  "net_ok (k64_net_init undefined :: unit net) \<and>
   fst (k64_net_http_get_range_raw (Some ''example'') (Some ''/'') 80 0 0 1024 (k64_net_init undefined :: unit net)) \<noteq> Fault"
  using net_reachable_ok [OF net_reachable.init] by blast

end
