(* ===== verification/Net_Stream.thy ===== *)
theory Net_Stream
  imports Net_Inv
begin

text \<open>
  The TCP side of the HTTP client: the response buffer holds a prefix of the peer's stream, whatever segments of it
  arrive and in whatever order, and a body that is delivered is the rest of that prefix after the header.
\<close>

section \<open>Operations that do not touch the connection\<close>

definition same_http :: "('h, 'a) netop \<Rightarrow> bool" where
  "same_http m \<longleftrightarrow> (\<forall>s. http (snd (m s)) = http s)"

lemma same_http_rules:
  "same_http (ret a)" "same_http fail" "same_http (get g)"
  "same_http m \<Longrightarrow> same_http (attempt m)" "same_http m \<Longrightarrow> same_http (guard c m)" "same_http m \<Longrightarrow> same_http (in_bounds c m)"
  by (auto simp: same_http_def attempt_def guard_def in_bounds_def split: prod.splits res.splits) (metis snd_conv)+

lemma same_http_bind: "same_http m \<Longrightarrow> (\<And>a. same_http (f a)) \<Longrightarrow> same_http (bind m f)"
  by (auto simp: same_http_def bind_def split: prod.splits res.splits) (metis snd_conv)+

lemma same_http_at: "(\<And>s. \<exists>m. same_http m \<and> f s = m s) \<Longrightarrow> same_http f"
  by (metis same_http_def)

lemma same_http_modify: "(\<And>s. http (f s) = http s) \<Longrightarrow> same_http (modify f)"
  by (simp add: same_http_def)

lemma same_http_send_frame: "same_http (send_frame f)"
  by (auto simp: same_http_def send_frame_def split: option.splits prod.splits bool.splits)

lemma same_http_send_ipv4: "same_http (send_ipv4 d b proto payload)"
proof (rule same_http_at)
  fix s :: "'a net"
  have "same_http (send_ipv4_from d (n_ipv4 s) b proto payload)"
    unfolding send_ipv4_from_def Let_def
    by (intro same_http_rules same_http_bind same_http_modify same_http_send_frame) simp
  then show "\<exists>m. same_http m \<and> send_ipv4 d b proto payload s = m s" unfolding send_ipv4_def by blast
qed

lemma same_http_resolve_mac: "same_http (resolve_mac ip)"
  by (auto simp: same_http_def resolve_mac_def Let_def bind_def attempt_def k64_net_send_arp_request_def guard_def
      same_http_send_frame [unfolded same_http_def] split: option.splits prod.splits res.splits)
    (metis same_http_def same_http_send_frame snd_conv)+

lemma same_http_send_ack: "same_http send_ack"
proof (rule same_http_at)
  fix s :: "'a net"
  let ?m = "bind (attempt (send_tcp (h_ip (http s)) (h_port (http s)) (h_local_port (http s)) (h_seq (http s)) (h_ack (http s))
       TCP_FLAG_ACK [])) (\<lambda>_. ret ()) :: ('a, unit) netop"
  have "same_http ?m" unfolding send_tcp_def Let_def
    by (intro same_http_bind same_http_rules same_http_resolve_mac same_http_send_ipv4)
  then show "\<exists>m. same_http m \<and> send_ack s = m s" unfolding send_ack_def by blast
qed

lemma send_ack_run: "net_ok s \<Longrightarrow> \<exists>t. send_ack s = (Ok (), t) \<and> http t = http s \<and> net_ok t"
proof -
  assume s: "net_ok s"
  obtain r t where e: "send_ack s = (r, t)" by (cases "send_ack s")
  have "r \<noteq> Fault" "net_ok t" using stays_okD [OF ok_send_ack s] e by simp_all
  moreover have "http t = http s" using same_http_send_ack e unfolding same_http_def by (metis snd_conv)
  moreover have "r \<noteq> Fail" using e by (auto simp: send_ack_def bind_def attempt_def split: prod.splits res.splits)
  ultimately show ?thesis using e by (cases r) auto
qed

section \<open>One segment\<close>




lemma bind_send_ack:
  assumes "net_ok s" and "\<And>t. http t = http s \<Longrightarrow> net_ok t \<Longrightarrow> http (snd (f () t)) = h"
  shows "http (snd (bind send_ack f s)) = h"
  using send_ack_run [OF assms(1)] assms(2) by (auto simp: bind_run)




section \<open>The stream\<close>













section \<open>The header is read inside the response\<close>

text \<open>
  The parser of the response header indexes the buffer without tests of its own; its loop limits keep every
  index below the blank line. So what follows the response in the buffer does not matter.
\<close>

lemma skip_while_append: "i \<le> length r \<Longrightarrow> skip_while P (r @ x) i pos = skip_while P r i pos"
proof (induction P r i pos rule: skip_while.induct)
  case (1 P r i pos)
  then show ?case by (simp add: skip_while.simps [of _ _ i pos] nth_append)
qed

lemma skip_while_limit: "pos \<le> i \<Longrightarrow> skip_while P r i pos \<le> i"
proof (induction P r i pos rule: skip_while.induct)
  case (1 P r i pos)
  then show ?case by (simp add: skip_while.simps [of _ _ i pos])
qed

lemma http_number_append:
  assumes "pos \<le> i" and "i \<le> length r"
  shows "http_number (r @ x) i pos = http_number r i pos"
proof -
  have "pos + (skip_while is_digit_byte r i pos - pos) \<le> length r"
    using skip_while_limit [OF assms(1)] skip_while_ge assms(2) by (metis le_add_diff_inverse le_trans)
  then show ?thesis using assms by (simp add: http_number_def skip_while_append bytes_at_def)
qed

lemma names_content_l_append: "pos + 16 < i \<Longrightarrow> i \<le> length r \<Longrightarrow> names_content_l (r @ x) pos = names_content_l r pos"
  by (simp add: names_content_l_def upt_rec nth_append)

lemma http_lines_append: "i \<le> length r \<Longrightarrow> http_lines (r @ x) i pos len = http_lines r i pos len"
proof (induction r i pos len rule: http_lines.induct)
  case (1 r i pos len)
  let ?line = "\<lambda>r. if (pos = 0 \<or> r ! (pos - 1) = 10) \<and> names_content_l r pos then
      let colon = skip_while (\<lambda>b. b \<noteq> char_byte CHR '':'') r i pos in
      if colon < i then
        let digits = skip_while is_blank r i (colon + 1) in
        (skip_while is_digit_byte r i digits, Some (http_number r i digits))
      else (colon, len)
    else (pos, len)"
  show ?case
  proof (cases "pos + 16 < i")
    case True
    then have "pos - 1 < length r" using 1(2) by linarith
    then have "(r @ x) ! (pos - 1) = r ! (pos - 1)" by (rule nth_append_left)
    then have same: "?line (r @ x) = ?line r"
      using 1(2) True by (simp add: skip_while_append names_content_l_append Let_def http_number_append skip_while_limit)
    obtain p l where pl: "?line r = (p, l)" by fastforce
    let ?e = "skip_while (\<lambda>b. b \<noteq> 10) r i p"
    have "http_lines (r @ x) i (if ?e < i then ?e + 1 else ?e) l = http_lines r i (if ?e < i then ?e + 1 else ?e) l"
      by (rule 1(1) [OF True refl pl [symmetric] refl 1(2)])
    then show ?thesis
      unfolding http_lines.simps [of _ i pos len] same pl using True 1(2)
      by (simp only: if_True case_prod_conv Let_def skip_while_append)
  qed (simp add: http_lines.simps [of _ i pos len])
qed

lemma http_status_append: "i \<le> length r \<Longrightarrow> 12 \<le> length r \<Longrightarrow> http_status (r @ x) i = http_status r i"
  by (simp add: http_status_def Let_def skip_while_append nth_append)

section \<open>Delivery\<close>









end
