(* ===== verification/Net_Sent.thy ===== *)
theory Net_Sent
  imports Net_Inv
begin

text \<open>
  The frames the network stack hands to its driver, seen from the receiver. The driver is any function that
  records the frames it is given, whether it reports success or not; a receiver checks each IPv4 frame as
  RFC 1071 and the definitions of the protocols say, on nothing but the bytes of the frame.
\<close>

section \<open>The receiver\<close>

text \<open>
  \<open>receiver_accepts f\<close>: if \<open>f\<close> is an IPv4 frame, its total length is that of the packet, its header adds up, an
  ICMP message adds up by itself, and a TCP segment or UDP packet adds up with the pseudo header made of the
  addresses, the protocol and the length of this packet; the checksum of a UDP packet is not zero, which
  would mean that there is none.
\<close>

definition receiver_accepts :: "bytes \<Rightarrow> bool" where
  "receiver_accepts f \<longleftrightarrow> (bytes_at 12 2 f = [0x08, 0x00] \<longrightarrow>
     (let ip = drop 14 f; p = drop 20 ip; total = word_sum (bytes_at 12 8 ip) + unat (ip ! 9) + length p + word_sum p
      in 20 \<le> length ip \<and> unat (ip ! 2) * 256 + unat (ip ! 3) = length ip \<and> ones_ok (word_sum (take 20 ip)) \<and>
        (ip ! 9 = 1 \<longrightarrow> ones_ok (word_sum p)) \<and>
        (ip ! 9 = 6 \<longrightarrow> ones_ok total) \<and>
        (ip ! 9 = 17 \<longrightarrow> ones_ok total \<and> bytes_at 6 2 p \<noteq> [0, 0])))"

text \<open>What the payload of a packet has to satisfy for that.\<close>

definition payload_valid :: "u32 \<Rightarrow> u32 \<Rightarrow> u8 \<Rightarrow> bytes \<Rightarrow> bool" where
  "payload_valid src dst proto p \<longleftrightarrow>
     (proto = 1 \<longrightarrow> ones_ok (word_sum p)) \<and> (proto = 6 \<longrightarrow> ones_ok (transport_sum src dst 6 p)) \<and>
     (proto = 17 \<longrightarrow> ones_ok (transport_sum src dst 17 p) \<and> bytes_at 6 2 p \<noteq> [0, 0])"

lemma wr16be_parts: "wr16be v = [a, b] \<Longrightarrow> unat a * 256 + unat b = unat v"
  using word_sum_wr16be [of v] by simp

lemma ip_header_fields:
  "ip_header l ident proto c src dst ! 9 = proto" "bytes_at 12 8 (ip_header l ident proto c src dst) = wr32be src @ wr32be dst"
  "unat (ip_header l ident proto c src dst ! 2) * 256 + unat (ip_header l ident proto c src dst ! 3) = unat l"
proof -
  obtain x y where xy: "wr16be l = [x, y]" by (simp add: wr16be_def)
  then show "unat (ip_header l ident proto c src dst ! 2) * 256 + unat (ip_header l ident proto c src dst ! 3) = unat l"
    using wr16be_parts [OF xy] by (simp add: ip_header_def)
  show "ip_header l ident proto c src dst ! 9 = proto" "bytes_at 12 8 (ip_header l ident proto c src dst) = wr32be src @ wr32be dst"
    by (simp_all add: ip_header_def bytes_at_def wr16be_def)
qed

lemma frame_accepted:
  assumes "length d = 6" and "length m = 6" and "length p \<le> 1480" and "payload_valid src dst proto p"
  shows "receiver_accepts (d @ m @ wr16be ETH_TYPE_IPV4 @
    ip_header (20 + of_nat (length p)) ident proto (csum16 (ip_header (20 + of_nat (length p)) ident proto 0 src dst)) src dst @ p)"
proof -
  let ?l = "20 + of_nat (length p) :: u16"
  let ?h = "ip_header ?l ident proto (csum16 (ip_header ?l ident proto 0 src dst)) src dst"
  have l: "unat ?l = 20 + length p" using assms(3) by (subst unat_add_no_wrap) (simp_all add: unat_of_nat_small)
  have h: "length ?h = 20" by (simp add: ip_header_def)
  note fields = ip_header_fields [of ?l ident proto "csum16 (ip_header ?l ident proto 0 src dst)" src dst, unfolded l]
  have "drop 14 (d @ m @ wr16be ETH_TYPE_IPV4 @ ?h @ p) = ?h @ p" using assms(1,2) by simp
  moreover have "drop 20 (h @ p) = p" "take 20 (h @ p) = h" "(h @ p) ! 9 = h ! 9" "(h @ p) ! 2 = h ! 2" "(h @ p) ! 3 = h ! 3"
      "bytes_at 12 8 (h @ p) = bytes_at 12 8 h" "length (h @ p) = 20 + length p" if "length h = 20" for h
    using that by (simp_all add: nth_append bytes_at_def)
  note this [OF h]
  moreover have u: "unat (6 :: u8) = 6" "unat (17 :: u8) = 17" by simp_all
  ultimately show ?thesis
    using assms(4) ip_header_verifies [of ?l ident proto src dst]
    unfolding receiver_accepts_def Let_def by (auto simp only: fields payload_valid_def transport_sum_def u)
qed

lemma arp_accepted: "length d = 6 \<Longrightarrow> length m = 6 \<Longrightarrow> receiver_accepts (arp_frame d m op' a t b)"
  by (simp add: receiver_accepts_def arp_frame_def bytes_at_def wr16be_def ETH_TYPE_ARP_def)

section \<open>A recording driver\<close>

text \<open>
  \<open>tracked answer a s\<close>: the driver records every frame and reports what \<open>answer\<close> says, the address of the host is \<open>a\<close>,
  hardware addresses have 6 bytes, and a receiver accepts every frame recorded.
\<close>

definition recorder :: "(bytes \<Rightarrow> bool) \<Rightarrow> bytes list send_frame_fn" where
  "recorder answer frame sent = (answer frame, sent @ [frame])"

definition tracked :: "(bytes \<Rightarrow> bool) \<Rightarrow> u32 \<Rightarrow> bytes list net \<Rightarrow> bool" where
  "tracked answer a s \<longleftrightarrow> n_send s = Some (recorder answer) \<and> n_ipv4 s = a \<and> length (n_mac s) = 6 \<and>
     length (arp_mac s) = 8 \<and> arp_count s \<le> 8 \<and> list_all (\<lambda>m. length m = 6) (arp_mac s) \<and>
     list_all receiver_accepts (n_hw s)"

definition keeps_tracked :: "(bytes \<Rightarrow> bool) \<Rightarrow> u32 \<Rightarrow> ('b \<Rightarrow> bool) \<Rightarrow> (bytes list, 'b) netop \<Rightarrow> bool" where
  "keeps_tracked answer a Q m \<longleftrightarrow> (\<forall>s. tracked answer a s \<longrightarrow>
     tracked answer a (snd (m s)) \<and> (\<forall>v. fst (m s) = Ok v \<longrightarrow> Q v))"

lemma keeps_trackedD:
  "keeps_tracked answer a Q m \<Longrightarrow> tracked answer a s \<Longrightarrow> m s = (r, t) \<Longrightarrow> tracked answer a t \<and> (\<forall>v. r = Ok v \<longrightarrow> Q v)"
  unfolding keeps_tracked_def by (metis fst_conv snd_conv)

lemma tracked_at: "(\<And>s. tracked answer a s \<Longrightarrow> \<exists>m. keeps_tracked answer a Q m \<and> f s = m s) \<Longrightarrow> keeps_tracked answer a Q f"
  unfolding keeps_tracked_def by metis

lemma tracked_bind:
  assumes "keeps_tracked answer a P m" and "\<And>v. P v \<Longrightarrow> keeps_tracked answer a Q (f v)"
  shows "keeps_tracked answer a Q (bind m f)"
proof (unfold keeps_tracked_def, intro allI impI)
  fix s assume s: "tracked answer a s"
  obtain r t where m: "m s = (r, t)" by fastforce
  note mt = keeps_trackedD [OF assms(1) s m]
  show "tracked answer a (snd (bind m f s)) \<and> (\<forall>v. fst (bind m f s) = Ok v \<longrightarrow> Q v)"
    using mt assms(2) by (cases r) (auto simp: bind_def m keeps_tracked_def)
qed

lemma tracked_basics:
  "Q v \<Longrightarrow> keeps_tracked answer a Q (ret v)" "keeps_tracked answer a Q fail"
  "(\<And>s. tracked answer a s \<Longrightarrow> Q (g s)) \<Longrightarrow> keeps_tracked answer a Q (get g)"
  "(\<And>s. tracked answer a s \<Longrightarrow> tracked answer a (h s)) \<Longrightarrow> keeps_tracked answer a (\<lambda>_. True) (modify h)"
  "(c \<Longrightarrow> keeps_tracked answer a Q m) \<Longrightarrow> keeps_tracked answer a Q (guard c m)"
  "(c \<Longrightarrow> keeps_tracked answer a Q m) \<Longrightarrow> keeps_tracked answer a Q (in_bounds c m)"
  "(c \<Longrightarrow> keeps_tracked answer a Q m) \<Longrightarrow> (\<not> c \<Longrightarrow> keeps_tracked answer a Q m') \<Longrightarrow>
     keeps_tracked answer a Q (if c then m else m')"
  by (auto simp: keeps_tracked_def get_def modify_def guard_def in_bounds_def)

lemma tracked_attempt: "keeps_tracked answer a Q m \<Longrightarrow> keeps_tracked answer a (\<lambda>_. True) (attempt m)"
  by (fastforce simp: keeps_tracked_def attempt_def split: prod.splits res.splits)

lemma tracked_need: "keeps_tracked answer a (\<lambda>v. x = Some v) (need x)"
  by (auto simp: keeps_tracked_def need_def split: option.splits)

lemma tracked_send_frame: "receiver_accepts f \<Longrightarrow> keeps_tracked answer a (\<lambda>_. True) (send_frame f)"
  by (auto simp: keeps_tracked_def send_frame_def tracked_def recorder_def split: bool.splits)

section \<open>The senders\<close>

lemma tracked_arp_request: "keeps_tracked answer a (\<lambda>_. True) (k64_net_send_arp_request ip)"
proof (rule tracked_at)
  fix s :: "bytes list net" assume "tracked answer a s"
  then have "length (n_mac s) = 6" by (simp add: tracked_def)
  then have "keeps_tracked answer a (\<lambda>_. True)
      (guard (n_ready s) (send_frame (arp_frame (replicate 6 0xFF) (n_mac s) 1 (n_ipv4 s) (replicate 6 0) ip)))"
    by (intro tracked_basics(5) tracked_send_frame arp_accepted) simp_all
  then show "\<exists>m. keeps_tracked answer a (\<lambda>_. True) m \<and> k64_net_send_arp_request ip s = m s"
    unfolding k64_net_send_arp_request_def by blast
qed

lemma arp_lookup_length:
  assumes "tracked answer a s" and "arp_lookup ip s = Some mac"
  shows "length mac = 6"
proof -
  obtain i where "i < arp_count s" "mac = arp_mac s ! i"
    using assms(2) by (auto simp: arp_lookup_def arp_find_def find_Some_iff split: option.splits)
  then show ?thesis using assms(1) by (auto simp: tracked_def list_all_length)
qed

lemma tracked_resolve_mac: "keeps_tracked answer a (\<lambda>mac. length mac = 6) (resolve_mac ip)"
proof (rule tracked_at)
  fix s :: "bytes list net" assume s: "tracked answer a s"
  define m :: "(bytes list, bytes) netop" where "m = (let target = (if ip AND n_netmask s = n_ipv4 s AND n_netmask s then ip else n_gateway s) in
      case arp_lookup target s of Some mac \<Rightarrow> ret mac | None \<Rightarrow> bind (attempt (k64_net_send_arp_request target)) (\<lambda>_. fail))"
  have "keeps_tracked answer a (\<lambda>mac. length mac = 6) m"
    using arp_lookup_length [OF s]
    by (auto simp: m_def Let_def intro!: tracked_basics(1,2) tracked_bind [OF tracked_attempt [OF tracked_arp_request]] split: option.splits)
  moreover have "resolve_mac ip s = m s" by (auto simp: resolve_mac_def m_def Let_def split: option.splits)
  ultimately show "\<exists>m. keeps_tracked answer a (\<lambda>mac. length mac = 6) m \<and> resolve_mac ip s = m s" by blast
qed

lemma tracked_send_ipv4_from:
  assumes "length d = 6" and "length p \<le> 1480 \<Longrightarrow> payload_valid src dst proto p"
  shows "keeps_tracked answer a (\<lambda>_. True) (send_ipv4_from d src dst proto p)"
  unfolding send_ipv4_from_def Let_def
  by (intro tracked_bind [where P = "\<lambda>_. True"] tracked_bind [where P = "\<lambda>m. length m = 6"] tracked_basics(3-6)
      tracked_send_frame frame_accepted)
    (use assms in \<open>auto simp: tracked_def\<close>)

lemma tracked_send_ipv4:
  assumes "length d = 6" and "length p \<le> 1480 \<Longrightarrow> payload_valid a dst proto p"
  shows "keeps_tracked answer a (\<lambda>_. True) (send_ipv4 d dst proto p)"
proof (rule tracked_at)
  fix s :: "bytes list net" assume "tracked answer a s"
  then have "n_ipv4 s = a" by (simp add: tracked_def)
  then show "\<exists>m. keeps_tracked answer a (\<lambda>_. True) m \<and> send_ipv4 d dst proto p s = m s"
    using tracked_send_ipv4_from [OF assms] by (auto simp: send_ipv4_def)
qed

lemma own_address: "tracked answer a s \<Longrightarrow> n_ipv4 s = a"
  by (simp add: tracked_def)

lemma udp_payload: "length body \<le> 1472 \<Longrightarrow> payload_valid src dst IP_PROTO_UDP (udp_packet src dst sp dp body)"
  using udp_verifies [of body src dst sp dp] by (simp add: payload_valid_def IP_PROTO_UDP_def)

lemma tracked_send_tcp: "keeps_tracked answer a (\<lambda>_. True) (send_tcp ip dp sp seq ack flags payload)"
  unfolding send_tcp_def Let_def
  by (intro tracked_basics(5,6) tracked_bind [OF tracked_resolve_mac] tracked_bind [where P = "\<lambda>v. v = a"] tracked_basics(3)
      own_address tracked_send_ipv4)
    (use tcp_verifies [of payload a ip] in \<open>auto simp: payload_valid_def IP_PROTO_TCP_def\<close>)

lemma tracked_send_udp: "keeps_tracked answer a (\<lambda>_. True) (k64_net_send_udp ip port msg)"
  unfolding k64_net_send_udp_def Let_def
  by (intro tracked_basics(5) tracked_bind [OF tracked_resolve_mac] tracked_bind [where P = "\<lambda>v. v = a"] tracked_basics(3)
      own_address tracked_send_ipv4)
    (auto intro: udp_payload)

lemma tracked_send_ping: "keeps_tracked answer a (\<lambda>_. True) (k64_net_send_ping ip sequence)"
  unfolding k64_net_send_ping_def
  by (intro tracked_bind [OF tracked_resolve_mac] tracked_bind [where P = "\<lambda>_. True"] tracked_basics(3) tracked_send_ipv4)
    (use ping_verifies in \<open>auto simp: payload_valid_def IP_PROTO_ICMP_def\<close>)

lemma tracked_dhcp_message: "keeps_tracked answer a (\<lambda>_. True) (send_dhcp_message t r v)"
proof (rule tracked_at)
  fix s :: "bytes list net"
  have "keeps_tracked answer a (\<lambda>_. True) (guard (n_ready s) (send_ipv4_from (replicate 6 0xFF) 0 0xFFFFFFFF IP_PROTO_UDP
        (udp_packet 0 0xFFFFFFFF DHCP_CLIENT_PORT DHCP_SERVER_PORT (dhcp_body (dhcp_xid s) (n_mac s) t r v))))"
    by (intro tracked_basics(5) tracked_send_ipv4_from udp_payload) simp_all
  then show "\<exists>m. keeps_tracked answer a (\<lambda>_. True) m \<and> send_dhcp_message t r v s = m s"
    unfolding send_dhcp_message_def by blast
qed

lemma tracked_dns_query: "keeps_tracked answer a (\<lambda>_. True) (send_dns_query host)"
proof -
  have q: "keeps_tracked answer a (\<lambda>_. True) (attempt (send_ipv4 d ip IP_PROTO_UDP
      (udp_packet a ip DNS_SRC_PORT DNS_PORT (dns_query_body ident nm))))" if "length d = 6" for d ip ident nm
    using that length_dns_body [of ident nm] by (intro tracked_attempt [where Q = "\<lambda>_. True"] tracked_send_ipv4 udp_payload) simp_all
  show ?thesis
    unfolding send_dns_query_def Let_def
    by (intro tracked_basics(1,3-5,7) tracked_bind [OF tracked_resolve_mac] tracked_bind [OF q]
        tracked_bind [where P = "\<lambda>v. v = a" and m = "get n_ipv4"] tracked_bind [where P = "\<lambda>_. True"] own_address)
      (auto simp: tracked_def intro: q)
qed

text \<open>The answer to an echo request.\<close>

lemma echo_verifies:
  assumes "8 \<le> length r" and "length r \<le> 1480"
  shows "ones_ok (word_sum (put_at 2 (wr16be (csum16 (put_at 2 [0, 0] r))) (put_at 2 [0, 0] r)))"
  using plain_verifies [of "take 2 r" "drop 4 r"] assms by (simp add: put_at_def)

lemma tracked_handle_icmp:
  assumes "length mac = 6"
  shows "keeps_tracked answer a (\<lambda>_. True) (handle_icmp mac icmp len ip)"
  unfolding handle_icmp_def Let_def
  by (intro tracked_basics(1,4,6,7) tracked_bind [OF tracked_need] tracked_bind [OF tracked_attempt [where Q = "\<lambda>_. True"]] tracked_send_ipv4
      tracked_bind [OF tracked_basics(4)] assms)
    (use echo_verifies [of "(take len icmp)[0 := 0]"] in \<open>auto simp: tracked_def payload_valid_def IP_PROTO_ICMP_def\<close>)

section \<open>Properties\<close>

text \<open>C23: the checksums of what is sent are right. In a well-formed state with a driver that records the frames it is
  given, whatever it reports, a TCP segment, a UDP message, an echo request, a DNS query, a DHCP message and the
  answer to an echo request hand the driver only frames that a receiver accepts, which adds up each frame by itself
  in ones' complement: the header, the ICMP message, or the TCP or UDP packet with its pseudo header.\<close>

theorem sent_checksums_verify:
  assumes "net_ok s" and "n_send s = Some (recorder answer)" and "n_hw s = []" and "length mac = 6"
    and "m \<in> {send_tcp ip dp sp seq ack flags payload, k64_net_send_udp ip port msg, k64_net_send_ping ip sequence,
      send_dns_query host, send_dhcp_message t r v, handle_icmp mac icmp len ip}"
  shows "list_all receiver_accepts (n_hw (snd (m s)))"
proof -
  have "tracked answer (n_ipv4 s) s" using assms(1-3) by (simp add: tracked_def net_ok_defs)
  moreover have "keeps_tracked answer (n_ipv4 s) (\<lambda>_. True) m"
    using assms(5) tracked_send_tcp tracked_send_udp tracked_send_ping tracked_dns_query tracked_dhcp_message
      tracked_handle_icmp [OF assms(4)] by auto
  ultimately show ?thesis by (auto simp: keeps_tracked_def tracked_def)
qed

text \<open>A UDP message of three bytes to the gateway, whose address is known.\<close>

definition known_gateway :: "bytes list net" where
  "known_gateway = (k64_net_init (undefined :: bytes list net))
     \<lparr>n_ready := True, n_send := Some (recorder (\<lambda>_. True)), n_hw := [], arp_count := 1,
      arp_ip := [10, 0, 2, 2] # replicate 7 (replicate 4 0)\<rparr>"

theorem sent_checksums_verify_witness:
  "\<exists>frame. n_hw (snd (k64_net_send_udp 0x0A000202 53 (Some ''abc'') known_gateway)) = [frame] \<and> length frame = 45 \<and>
     receiver_accepts frame"
proof -
  have ok: "net_ok known_gateway" by (simp add: known_gateway_def k64_net_init_def net_ok_defs zero_http_def zero_status_def HTTP_BUF_SIZE_def list_all_iff)
  have d: "n_send known_gateway = Some (recorder (\<lambda>_. True))" "n_hw known_gateway = []" by (simp_all add: known_gateway_def)
  have "length (n_hw (snd (k64_net_send_udp 0x0A000202 53 (Some ''abc'') known_gateway))) = 1 \<and>
      length (hd (n_hw (snd (k64_net_send_udp 0x0A000202 53 (Some ''abc'') known_gateway)))) = 45" by code_simp
  then obtain frame where f: "n_hw (snd (k64_net_send_udp 0x0A000202 53 (Some ''abc'') known_gateway)) = [frame]" "length frame = 45"
    by (auto simp: length_Suc_conv)
  have "list_all receiver_accepts (n_hw (snd (k64_net_send_udp 0x0A000202 53 (Some ''abc'') known_gateway)))"
    by (rule sent_checksums_verify [OF ok d, where mac = "replicate 6 0" and ip = "0x0A000202" and port = 53 and msg = "Some ''abc''"])
      simp_all
  then show ?thesis using f by simp
qed

end
