(* ===== verification/Kpm.thy ===== *)
theory Kpm
  imports Net
begin

text \<open>
  The package manager, \<^verbatim>\<open>src/k64_kpm.c\<close>: URLs, the list of sources, the lookups in the repository's JSON
  files, the validation of packages, their download in one piece or in ranges and their installation.

  The state joins the network stack, the file system, what the validation reports and the text on the
  terminal. The static buffers only hold data between a read and its use, so their contents are values. What
  the network drivers deliver while \<^verbatim>\<open>kpm_poll_net_ms\<close> waits is a parameter \<open>poll\<close>, a function on the network
  state; the contents of arrays that the code reads before it writes them are parameters too.
\<close>

section \<open>State\<close>

definition KPM_MAGIC :: u32 where "KPM_MAGIC = 0x3147504B"
definition KPM_KIND_ELF :: u16 where "KPM_KIND_ELF = 1"
definition KPM_KIND_K64S :: u16 where "KPM_KIND_K64S = 2"
definition KPM_KIND_K64M :: u16 where "KPM_KIND_K64M = 3"
definition KPM_SOURCES_PATH :: string where "KPM_SOURCES_PATH = ''/etc/kpm/sources.cfg''"
definition KPM_INSTALLED_PATH :: string where "KPM_INSTALLED_PATH = ''/var/lib/kpm/installed.db''"
definition KPM_TMP_DIR :: string where "KPM_TMP_DIR = ''/tmp/kpm''"
definition KPM_TEXT_MAX :: nat where "KPM_TEXT_MAX = 8192"
definition KPM_MAX_SOURCES :: nat where "KPM_MAX_SOURCES = 8"
definition KPM_HTTP_TRIES :: nat where "KPM_HTTP_TRIES = 120"
definition KPM_DOWNLOAD_CHUNK :: nat where "KPM_DOWNLOAD_CHUNK = 16 * 1024"
definition kpm_pkg_buf_size :: nat where "kpm_pkg_buf_size = 16 * 1024 * 1024"
definition kpm_header_size :: nat where "kpm_header_size = 248"

record kpm_package_header =
  pk_magic :: u32
  pk_format_version :: u16
  pk_kind :: u16
  pk_package_name :: bytes
  pk_package_version :: bytes
  pk_install_name :: bytes
  pk_payload_size :: u64
  pk_payload_crc32 :: u32
  pk_flags :: u32
  pk_reserved :: bytes

definition dec_package_header :: "bytes \<Rightarrow> kpm_package_header" where
  "dec_package_header b = \<lparr>pk_magic = le_dec (bytes_at 0 4 b), pk_format_version = le_dec (bytes_at 4 2 b),
     pk_kind = le_dec (bytes_at 6 2 b), pk_package_name = bytes_at 8 64 b, pk_package_version = bytes_at 72 32 b,
     pk_install_name = bytes_at 104 64 b, pk_payload_size = le_dec (bytes_at 168 8 b),
     pk_payload_crc32 = le_dec (bytes_at 176 4 b), pk_flags = le_dec (bytes_at 180 4 b), pk_reserved = bytes_at 184 64 b\<rparr>"

record kpm_url =
  u_scheme :: string
  u_host :: string
  u_port :: u16
  u_base_path :: string

record kpm_source =
  ks_name :: string
  ks_baseurl :: string
  ks_url :: kpm_url

record ('h, 'g) kpm =
  k_net :: "'h net"
  k_fs :: "'g filesystem"
  kpm_validate_error :: string
  kpm_validate_expected_crc :: u32
  kpm_validate_actual_crc :: u32
  k_term :: string

type_synonym ('h, 'g, 'a) kpmop = "(('h, 'g) kpm, 'a) op"

definition on_knet :: "('h, 'a) netop \<Rightarrow> ('h, 'g, 'a) kpmop" where
  "on_knet m s = (case m (k_net s) of (r, n) \<Rightarrow> (r, s\<lparr>k_net := n\<rparr>))"

definition on_kfs :: "('g, 'a) fsop \<Rightarrow> ('h, 'g, 'a) kpmop" where
  "on_kfs m s = (case m (k_fs s) of (r, f) \<Rightarrow> (r, s\<lparr>k_fs := f\<rparr>))"

definition term_write :: "string \<Rightarrow> ('h, 'g, unit) kpmop" where
  "term_write t = modify (\<lambda>s. s\<lparr>k_term := k_term s @ t\<rparr>)"

definition kpm_print :: "string \<Rightarrow> ('h, 'g, unit) kpmop" where
  "kpm_print t = term_write (t @ newline)"

section \<open>Text\<close>

definition kpm_copy :: "string \<Rightarrow> nat \<Rightarrow> cstr \<Rightarrow> string" where
  "kpm_copy dst dst_size src = str_copy dst dst_size src"

definition kpm_append :: "string \<Rightarrow> nat \<Rightarrow> cstr \<Rightarrow> string" where
  "kpm_append dst dst_size src = str_append dst dst_size src"

definition kpm_append_all :: "nat \<Rightarrow> string list \<Rightarrow> string \<Rightarrow> string" where
  "kpm_append_all dst_size ts dst = fold (\<lambda>t d. kpm_append d dst_size (Some t)) ts dst"

definition is_ws :: "char \<Rightarrow> bool" where
  "is_ws c \<longleftrightarrow> c = CHR '' '' \<or> c = CHR 0x09 \<or> c = CHR 0x0D \<or> c = CHR 0x0A"

definition kpm_skip_ws :: "string \<Rightarrow> string" where
  "kpm_skip_ws s = dropWhile is_ws s"

definition kpm_next_token :: "string \<Rightarrow> nat \<Rightarrow> string \<times> string" where
  "kpm_next_token s token_size =
     (let s = kpm_skip_ws s; token = take (token_size - 1) (takeWhile (\<lambda>c. \<not> is_ws c) s)
      in (token, kpm_skip_ws (drop (length token) s)))"

definition kpm_streq :: "cstr \<Rightarrow> cstr \<Rightarrow> bool" where
  "kpm_streq a b = k64_streq (Some (str_of a)) (Some (str_of b))"

fun make_dirs :: "string list \<Rightarrow> ('h, 'g, unit) kpmop" where
  "make_dirs [] = ret ()"
| "make_dirs (d # ds) = bind (attempt (on_kfs (k64_fs_mkdir (Some d)))) (\<lambda>_. make_dirs ds)"

definition kpm_ensure_dirs :: "('h, 'g, unit) kpmop" where
  "kpm_ensure_dirs = make_dirs [''/etc'', ''/etc/kpm'', ''/var'', ''/var/lib'', ''/var/lib/kpm'', ''/tmp'', KPM_TMP_DIR,
     ''/ex'', ''/k64s'', ''/k64m'']"

section \<open>URLs\<close>

text \<open>The digits of a port; \<open>None\<close> when the number passes 65535.\<close>

fun parse_port :: "string \<Rightarrow> nat \<Rightarrow> (nat \<times> string) option" where
  "parse_port [] port = Some (port, [])"
| "parse_port (c # p) port =
     (if is_digit c then
        let port = port * 10 + digit_value c in if port > 65535 then None else parse_port p port
      else Some (port, c # p))"

definition k64_kpm_parse_url :: "string \<Rightarrow> kpm_url option" where
  "k64_kpm_parse_url url =
     (if k64_strncmp url ''https://'' 8 = 0 then None
      else if k64_strncmp url ''http://'' 7 \<noteq> 0 then None
      else
        let p = drop 7 url;
            host = take 63 (takeWhile (\<lambda>c. c \<noteq> CHR '':'' \<and> c \<noteq> CHR ''/'') p);
            p = drop (length host) p
        in if host = [] then None
           else case (case p of
                  c # q \<Rightarrow>
                    if c = CHR '':'' then (case q of d # _ \<Rightarrow> if is_digit d then parse_port q 0 else None | [] \<Rightarrow> None)
                    else Some (80, p)
                | [] \<Rightarrow> Some (80, p)) of
               None \<Rightarrow> None
             | Some (port, p) \<Rightarrow>
                 if p \<noteq> [] \<and> hd p \<noteq> CHR ''/'' then None
                 else Some \<lparr>u_scheme = kpm_copy [] 8 (Some ''http''), u_host = host, u_port = of_nat port, u_base_path = take 127 p\<rparr>)"

definition kpm_join_path :: "nat \<Rightarrow> string \<Rightarrow> string \<Rightarrow> string" where
  "kpm_join_path out_size base suffix =
     (let out = (if base \<noteq> [] then kpm_append [] out_size (Some base) else []);
          out = (if out = [] \<or> last out \<noteq> CHR ''/'' then kpm_append out out_size (Some ''/'') else out);
          suffix = (if suffix \<noteq> [] \<and> hd suffix = CHR ''/'' then tl suffix else suffix)
      in kpm_append out out_size (Some suffix))"

section \<open>Sources\<close>

definition is_nl :: "char \<Rightarrow> bool" where
  "is_nl c \<longleftrightarrow> c = CHR 0x0A \<or> c = CHR 0x0D"

definition next_line :: "string \<Rightarrow> string" where
  "next_line p = dropWhile is_nl (dropWhile (\<lambda>c. \<not> is_nl c) p)"

lemma next_line_shorter: "p \<noteq> [] \<Longrightarrow> length (next_line p) < length p"
proof (cases p)
  case (Cons c cs)
  have "length (next_line p) \<le> length (dropWhile (\<lambda>c. \<not> is_nl c) p)" unfolding next_line_def by (rule length_dropWhile_le)
  moreover have "length (dropWhile (\<lambda>c. \<not> is_nl c) p) < length p" if "\<not> is_nl c"
    using that Cons length_dropWhile_le [of "\<lambda>c. \<not> is_nl c" cs] by simp
  moreover have "length (next_line p) < length p" if "is_nl c"
    using that Cons length_dropWhile_le [of is_nl cs] by (simp add: next_line_def)
  ultimately show ?thesis by force
qed simp

definition read_source :: "string \<Rightarrow> kpm_source option" where
  "read_source p =
     (case kpm_next_token p 32 of (name, q) \<Rightarrow>
      case kpm_next_token q 160 of (url, _) \<Rightarrow>
        if name = [] \<or> url = [] then None
        else (case k64_kpm_parse_url url of
            None \<Rightarrow> None
          | Some u \<Rightarrow> Some \<lparr>ks_name = kpm_copy [] 32 (Some name), ks_baseurl = kpm_copy [] 160 (Some url), ks_url = u\<rparr>))"

text \<open>Both tokens are read from the start of a line, but they may come from the lines after it.\<close>

function parse_sources :: "string \<Rightarrow> nat \<Rightarrow> kpm_source list" where
  "parse_sources p n =
     (if p \<noteq> [] \<and> n < KPM_MAX_SOURCES then
        case read_source p of
          Some src \<Rightarrow> src # parse_sources (next_line p) (n + 1)
        | None \<Rightarrow> parse_sources (next_line p) n
      else [])"
  by pat_completeness auto
termination
  by (relation "measure (\<lambda>(p, n). length p)") (auto simp: next_line_shorter)

declare parse_sources.simps [simp del]

definition kpm_load_sources :: "('h, 'g, kpm_source list) kpmop" where
  "kpm_load_sources =
     bind (attempt (on_kfs (k64_fs_cat (Some KPM_SOURCES_PATH) KPM_TEXT_MAX))) (\<lambda>text.
     ret (case text of None \<Rightarrow> [] | Some t \<Rightarrow> parse_sources (array_str t) 0))"

definition print_sources :: "kpm_source list \<Rightarrow> string" where
  "print_sources sources =
     fold (\<lambda>src text. kpm_append_all KPM_TEXT_MAX [ks_name src, '' '', ks_baseurl src, newline] text) sources []"

definition kpm_save_sources :: "kpm_source list \<Rightarrow> ('h, 'g, unit) kpmop" where
  "kpm_save_sources sources =
     bind kpm_ensure_dirs (\<lambda>_. on_kfs (k64_fs_write_file (Some KPM_SOURCES_PATH) (Some (print_sources sources))))"

section \<open>Repository files\<close>

definition quote_char :: char where "quote_char = CHR 0x22"

text \<open>\<open>p\<close> starts with the quoted key.\<close>

definition at_key :: "string \<Rightarrow> string \<Rightarrow> bool" where
  "at_key p key \<longleftrightarrow> p \<noteq> [] \<and> hd p = quote_char \<and> k64_strncmp (tl p) key (length key) = 0 \<and>
     drop (1 + length key) p \<noteq> [] \<and> hd (drop (1 + length key) p) = quote_char"

definition starts_with :: "char \<Rightarrow> string \<Rightarrow> bool" where
  "starts_with c p \<longleftrightarrow> p \<noteq> [] \<and> hd p = c"

lemma length_skip_ws: "length (kpm_skip_ws p) \<le> length p"
  by (simp add: kpm_skip_ws_def length_dropWhile_le)

lemma length_skip_ws_le: "length p \<le> n \<Longrightarrow> length (kpm_skip_ws p) \<le> n"
  using length_skip_ws [of p] by simp

text \<open>The result is the truth value and, when the buffer was written, its text.\<close>

function kpm_json_get_string_after :: "string \<Rightarrow> string \<Rightarrow> nat \<Rightarrow> bool \<times> string option" where
  "kpm_json_get_string_after p key out_size =
     (if p = [] \<or> out_size = 0 then (False, None)
      else if at_key p key then
        let p1 = kpm_skip_ws (drop (length key + 2) p) in
        if \<not> starts_with CHR '':'' p1 then kpm_json_get_string_after p1 key out_size
        else
          let p2 = kpm_skip_ws (tl p1) in
          if \<not> starts_with quote_char p2 then kpm_json_get_string_after p2 key out_size
          else
            let p3 = tl p2; v = take (out_size - 1) (takeWhile (\<lambda>c. c \<noteq> quote_char) p3)
            in (starts_with quote_char (drop (length v) p3), Some v)
      else kpm_json_get_string_after (tl p) key out_size)"
  by pat_completeness auto
termination
proof (relation "measure (\<lambda>(p, key, n). length p)")
  fix p key :: string and out_size :: nat and p1 :: string
  assume "\<not> (p = [] \<or> out_size = 0)" and p1: "p1 = kpm_skip_ws (drop (length key + 2) p)"
  then have "length p1 < length p" using length_skip_ws [of "drop (length key + 2) p"] by (cases p) auto
  then show "((p1, key, out_size), p, key, out_size) \<in> measure (\<lambda>(p, key, n). length p)" by simp
  fix p2 assume "p2 = kpm_skip_ws (tl p1)"
  then have "length p2 < length p" using \<open>length p1 < length p\<close> length_skip_ws [of "tl p1"] by simp
  then show "((p2, key, out_size), p, key, out_size) \<in> measure (\<lambda>(p, key, n). length p)" by simp
qed auto

declare kpm_json_get_string_after.simps [simp del]

definition k64_kpm_json_latest_version :: "string \<Rightarrow> string \<Rightarrow> nat \<Rightarrow> bool \<times> string option" where
  "k64_kpm_json_latest_version json package out_size =
     (case kpm_json_get_string_after json ''latest'' out_size of (found, out) \<Rightarrow>
      if \<not> found then (False, out)
      else if package \<noteq> [] \<and>
              (case kpm_json_get_string_after json ''name'' 64 of (named, name) \<Rightarrow>
                 named \<and> \<not> kpm_streq name (Some package))
      then (False, out)
      else (True, out))"

fun k64_kpm_json_version_exists_from :: "string \<Rightarrow> string \<Rightarrow> bool" where
  "k64_kpm_json_version_exists_from [] version = False"
| "k64_kpm_json_version_exists_from (c # p) version =
     (at_key (c # p) version \<or> k64_kpm_json_version_exists_from p version)"

definition k64_kpm_json_version_exists :: "string \<Rightarrow> string \<Rightarrow> bool" where
  "k64_kpm_json_version_exists json version \<longleftrightarrow> version \<noteq> [] \<and> k64_kpm_json_version_exists_from json version"

section \<open>Packages\<close>

definition kpm_crc32 :: "bytes \<Rightarrow> u32" where
  "kpm_crc32 data = NOT (foldl (\<lambda>crc b. ((\<lambda>crc. drop_bit 1 crc XOR (0xEDB88320 AND (0 - (crc AND 1)))) ^^ 8) (crc XOR ucast b)) 0xFFFFFFFF data)"

definition kpm_bounded_cstr :: "bytes \<Rightarrow> bool" where
  "kpm_bounded_cstr s = list_ex (\<lambda>b. b = 0) s"

fun valid_name_from :: "string \<Rightarrow> bool" where
  "valid_name_from [] = True"
| "valid_name_from (c # cs) =
     (\<not> ((of_char c :: nat) < 32 \<or> c = CHR ''/'' \<or> c = CHR 0x5C) \<and>
      \<not> (c = CHR ''.'' \<and> cs \<noteq> [] \<and> hd cs = CHR ''.'') \<and> valid_name_from cs)"

definition kpm_valid_install_name :: "string \<Rightarrow> bool" where
  "kpm_valid_install_name name \<longleftrightarrow> name \<noteq> [] \<and> valid_name_from name"

definition report :: "string \<Rightarrow> ('h, 'g, unit) kpmop" where
  "report t = modify (\<lambda>s. s\<lparr>kpm_validate_error := t\<rparr>)"

definition k64_kpm_validate_package_bytes :: "bytes \<Rightarrow> ('h, 'g, kpm_package_header) kpmop" where
  "k64_kpm_validate_package_bytes data =
     (let hdr = dec_package_header data in
      if length data < kpm_header_size then bind (report ''package too small'') (\<lambda>_. fail)
      else if pk_magic hdr \<noteq> KPM_MAGIC \<or> pk_format_version hdr \<noteq> 1 \<or>
              (pk_kind hdr \<noteq> KPM_KIND_ELF \<and> pk_kind hdr \<noteq> KPM_KIND_K64S \<and> pk_kind hdr \<noteq> KPM_KIND_K64M)
      then bind (report ''bad header'') (\<lambda>_. fail)
      else if \<not> kpm_bounded_cstr (pk_package_name hdr) \<or> \<not> kpm_bounded_cstr (pk_package_version hdr) \<or>
              \<not> kpm_bounded_cstr (pk_install_name hdr) \<or> \<not> kpm_valid_install_name (array_str (pk_install_name hdr))
      then bind (report ''bad names'') (\<lambda>_. fail)
      else if pk_payload_size hdr \<noteq> of_nat (length data) - of_nat kpm_header_size
      then bind (report ''payload size mismatch'') (\<lambda>_. fail)
      else
        let payload = bytes_at kpm_header_size (unat (pk_payload_size hdr)) data; actual = kpm_crc32 payload in
        bind (modify (\<lambda>s. s\<lparr>kpm_validate_expected_crc := pk_payload_crc32 hdr, kpm_validate_actual_crc := actual\<rparr>)) (\<lambda>_.
        if actual \<noteq> pk_payload_crc32 hdr then bind (report ''payload crc mismatch'') (\<lambda>_. fail)
        else bind (report ''ok'') (\<lambda>_. ret hdr)))"

definition kpm_kind_name :: "u16 \<Rightarrow> string" where
  "kpm_kind_name kind = (if kind = KPM_KIND_ELF then ''ELF'' else if kind = KPM_KIND_K64S then ''K64S''
     else if kind = KPM_KIND_K64M then ''K64M'' else ''UNKNOWN'')"

definition kpm_install_path :: "nat \<Rightarrow> kpm_package_header \<Rightarrow> string" where
  "kpm_install_path out_size hdr =
     (let name = array_str (pk_install_name hdr) in
      if pk_kind hdr = KPM_KIND_ELF then kpm_append_all out_size [''/ex/'', name, ''.elf''] []
      else if pk_kind hdr = KPM_KIND_K64S then kpm_append_all out_size [''/k64s/'', name, ''.k64s''] []
      else kpm_append_all out_size [''/k64m/'', name, ''.k64m''] [])"

definition kpm_update_installed_db :: "kpm_package_header \<Rightarrow> string \<Rightarrow> cstr \<Rightarrow> ('h, 'g, unit) kpmop" where
  "kpm_update_installed_db hdr path source_name =
     bind (attempt (on_kfs (k64_fs_cat (Some KPM_INSTALLED_PATH) KPM_TEXT_MAX))) (\<lambda>old.
     let text = (case old of None \<Rightarrow> [] | Some t \<Rightarrow> array_str t);
         text = kpm_append_all KPM_TEXT_MAX [array_str (pk_package_name hdr), '' '', array_str (pk_package_version hdr), '' '',
           kpm_kind_name (pk_kind hdr), '' '', path, '' '', case source_name of None \<Rightarrow> ''unknown'' | Some n \<Rightarrow> n, newline] text
     in on_kfs (k64_fs_write_file (Some KPM_INSTALLED_PATH) (Some text)))"

definition discard :: "string \<Rightarrow> ('h, 'g, unit) kpmop" where
  "discard path = bind (attempt (on_kfs (k64_fs_remove (Some path)))) (\<lambda>_. ret ())"

text \<open>The new file replaces the old one: the part after the payload was written to its temporary name.\<close>

definition replace_file :: "string \<Rightarrow> string \<Rightarrow> string \<Rightarrow> ('h, 'g, unit) kpmop" where
  "replace_file final temp backup =
     bind (attempt (on_kfs (k64_fs_stat_op (Some final)))) (\<lambda>old.
     let had_old = (case old of Some st \<Rightarrow> st_exists st \<and> \<not> st_is_dir st | None \<Rightarrow> False) in
     bind (if had_old then attempt (on_kfs (k64_fs_copy (Some final) (Some backup))) else ret (Some ())) (\<lambda>copied.
     if copied = None then bind (discard temp) (\<lambda>_. fail)
     else
      bind (if had_old then attempt (on_kfs (k64_fs_remove (Some final))) else ret (Some ())) (\<lambda>removed.
      if removed = None then bind (discard temp) (\<lambda>_. bind (discard backup) (\<lambda>_. fail))
      else
       bind (attempt (on_kfs (k64_fs_move (Some temp) (Some final)))) (\<lambda>moved.
       if moved = None then
         bind (if had_old then bind (attempt (on_kfs (k64_fs_copy (Some backup) (Some final)))) (\<lambda>_. ret ()) else ret ()) (\<lambda>_.
         bind (discard temp) (\<lambda>_. bind (discard backup) (\<lambda>_. fail)))
       else discard backup))))"

definition k64_kpm_install_package_bytes :: "bytes \<Rightarrow> cstr \<Rightarrow> ('h, 'g, unit) kpmop" where
  "k64_kpm_install_package_bytes data source_name =
     bind (k64_kpm_validate_package_bytes data) (\<lambda>hdr.
     bind kpm_ensure_dirs (\<lambda>_.
     let final = kpm_install_path 128 hdr;
         temp = kpm_append (kpm_copy [] 160 (Some final)) 160 (Some ''.kpmtmp'');
         backup = kpm_copy [] 160 (Some (KPM_TMP_DIR @ ''/backup.bin'')) in
     bind (discard temp) (\<lambda>_.
     bind (discard backup) (\<lambda>_.
     bind (on_kfs (k64_fs_write_file_raw (Some temp) (bytes_at kpm_header_size (unat (pk_payload_size hdr)) data))) (\<lambda>_.
     bind (replace_file final temp backup) (\<lambda>_.
     bind (kpm_update_installed_db hdr final source_name) (\<lambda>_.
     on_kfs k64_fs_sync)))))))"

section \<open>Downloads\<close>

text \<open>
  A request repeated until its result is accepted, at most \<open>n\<close> times with a wait after each failure. The
  result is whether one was accepted and the last result; \<open>none\<close> stands for no request at all.
\<close>

fun retry :: "nat \<Rightarrow> ('h net \<Rightarrow> 'h net) \<Rightarrow> ('h, http_result) netop \<Rightarrow> (http_result \<Rightarrow> bool) \<Rightarrow> http_result \<Rightarrow> ('h, bool \<times> http_result) netop" where
  "retry 0 poll request good none = ret (False, none)"
| "retry (Suc n) poll request good none =
     bind request (\<lambda>r.
     if good r then ret (True, r)
     else bind (modify poll) (\<lambda>_. retry n poll request good r))"

definition no_result :: http_result where
  "no_result = \<lparr>r_ok = False, r_size = 0, r_state = [], r_out = []\<rparr>"

definition state_or :: "string \<Rightarrow> http_result \<Rightarrow> string" where
  "state_or t r = (if r_state r = [] then t else r_state r)"

text \<open>The text is cut to the buffer and ends at its first zero byte.\<close>

definition kpm_fetch_text :: "('h net \<Rightarrow> 'h net) \<Rightarrow> kpm_source \<Rightarrow> string \<Rightarrow> nat \<Rightarrow> ('h, 'g, string) kpmop" where
  "kpm_fetch_text poll src suffix out_size =
     (let path = kpm_join_path 192 (u_base_path (ks_url src)) suffix in
      bind (on_knet (retry KPM_HTTP_TRIES poll
             (k64_net_http_get_raw (Some (u_host (ks_url src))) (Some path) (u_port (ks_url src)) (out_size - 1)) r_ok no_result)) (\<lambda>(ok, r).
      if ok then ret (array_str (take (out_size - 1) (r_out r)))
      else bind (term_write (''kpm: warning: fetch failed from '' @ ks_name src @ '': '' @ state_or ''no response'' r @ newline)) (\<lambda>_. fail)))"

definition package_fits :: "bytes \<Rightarrow> bool" where
  "package_fits data \<longleftrightarrow> pk_magic (dec_package_header data) = KPM_MAGIC \<and>
     unat (pk_payload_size (dec_package_header data)) \<le> kpm_pkg_buf_size - kpm_header_size"

definition package_total :: "bytes \<Rightarrow> nat" where
  "package_total data = kpm_header_size + unat (pk_payload_size (dec_package_header data))"

definition download_failed :: "string \<Rightarrow> http_result \<Rightarrow> ('h, 'g, 'a) kpmop" where
  "download_failed t r = bind (term_write (''kpm: download failed: '' @ state_or t r @ newline)) (\<lambda>_. fail)"

text \<open>The sizes of the ranges that the loop asks for, when \<open>n\<close> bytes are missing.\<close>

function range_sizes :: "nat \<Rightarrow> nat list" where
  "range_sizes n =
     (if n = 0 then []
      else let chunk = min n KPM_DOWNLOAD_CHUNK in chunk # range_sizes (n - chunk))"
  by pat_completeness auto
termination
  by (relation "measure id") (auto simp: KPM_DOWNLOAD_CHUNK_def)

declare range_sizes.simps [simp del]

text \<open>The rest of a package in ranges; \<open>data\<close> is what the buffer holds, \<open>got\<close> how much of it counts.\<close>

fun fetch_ranges :: "('h net \<Rightarrow> 'h net) \<Rightarrow> kpm_source \<Rightarrow> string \<Rightarrow> nat list \<Rightarrow> nat \<Rightarrow> bytes \<Rightarrow> ('h, 'g, bytes) kpmop" where
  "fetch_ranges poll src path [] got data = ret data"
| "fetch_ranges poll src path (chunk # chunks) got data =
     bind (on_knet (retry KPM_HTTP_TRIES poll
            (k64_net_http_get_range_raw (Some (u_host (ks_url src))) (Some path) (u_port (ks_url src))
               (of_nat got) (of_nat (got + chunk - 1)) chunk) (\<lambda>r. r_ok r \<and> r_size r = chunk) no_result)) (\<lambda>(ok, r).
     if ok then fetch_ranges poll src path chunks (got + chunk) (data @ r_out r)
     else download_failed ''range unavailable'' r)"

text \<open>The two ways to download: the whole file in one response, or the header and then the rest in ranges.\<close>

definition whole_package :: "http_result \<Rightarrow> bool" where
  "whole_package r \<longleftrightarrow> r_ok r \<and> r_size r \<ge> kpm_header_size \<and> package_fits (r_out r) \<and> r_size r = package_total (r_out r)"

definition fetch_whole :: "('h net \<Rightarrow> 'h net) \<Rightarrow> kpm_source \<Rightarrow> string \<Rightarrow> ('h, 'g, bool \<times> http_result) kpmop" where
  "fetch_whole poll src path =
     on_knet (retry KPM_HTTP_TRIES poll
       (k64_net_http_get_raw (Some (u_host (ks_url src))) (Some path) (u_port (ks_url src)) kpm_pkg_buf_size) whole_package no_result)"

definition fetch_header :: "('h net \<Rightarrow> 'h net) \<Rightarrow> kpm_source \<Rightarrow> string \<Rightarrow> ('h, 'g, bool \<times> http_result) kpmop" where
  "fetch_header poll src path =
     on_knet (retry KPM_HTTP_TRIES poll
       (k64_net_http_get_range_raw (Some (u_host (ks_url src))) (Some path) (u_port (ks_url src)) 0 (of_nat (kpm_header_size - 1)) kpm_header_size)
       (\<lambda>r. r_ok r \<and> r_size r = kpm_header_size) no_result)"

definition fetch_in_ranges :: "('h net \<Rightarrow> 'h net) \<Rightarrow> kpm_source \<Rightarrow> string \<Rightarrow> ('h, 'g, bytes) kpmop" where
  "fetch_in_ranges poll src path =
     bind (fetch_header poll src path) (\<lambda>(_, r).
     if r_size r \<noteq> kpm_header_size then download_failed ''header unavailable'' r
     else if \<not> package_fits (r_out r) then bind (kpm_print ''kpm: invalid package header'') (\<lambda>_. fail)
     else fetch_ranges poll src path (range_sizes (package_total (r_out r) - kpm_header_size)) kpm_header_size (r_out r))"

definition kpm_fetch_package :: "('h net \<Rightarrow> 'h net) \<Rightarrow> kpm_source \<Rightarrow> string \<Rightarrow> string \<Rightarrow> ('h, 'g, bytes) kpmop" where
  "kpm_fetch_package poll src package version =
     (let suffix = kpm_append_all 192 [package, ''/'', version, ''/package.kpg''] [];
          path = kpm_join_path 224 (u_base_path (ks_url src)) suffix in
      bind (fetch_whole poll src path) (\<lambda>(whole, r).
      if whole then ret (r_out r) else fetch_in_ranges poll src path))"

section \<open>Commands\<close>

definition kpm_cmd_sources :: "('h, 'g, unit) kpmop" where
  "kpm_cmd_sources =
     bind kpm_load_sources (\<lambda>sources.
     bind (kpm_print ''Sources:'') (\<lambda>_.
     term_write (concat (map (\<lambda>src. ''  '' @ ks_name src @ ''  '' @ ks_baseurl src @ newline) sources))))"

text \<open>The first entry that has the name or the address decides the message.\<close>

definition source_conflict :: "string \<Rightarrow> string \<Rightarrow> kpm_source list \<Rightarrow> string option" where
  "source_conflict name url sources =
     (case find (\<lambda>src. kpm_streq (Some (ks_name src)) (Some name) \<or> kpm_streq (Some (ks_baseurl src)) (Some url)) sources of
        None \<Rightarrow> None
      | Some src \<Rightarrow> Some (if kpm_streq (Some (ks_name src)) (Some name) then ''kpm: source name already exists''
                         else ''kpm: source URL already exists''))"

definition kpm_cmd_source_add :: "string \<Rightarrow> ('h, 'g, unit) kpmop" where
  "kpm_cmd_source_add args =
     (case kpm_next_token args 32 of (name, rest) \<Rightarrow>
      case kpm_next_token rest 160 of (url, _) \<Rightarrow>
      case (if name = [] \<or> url = [] then None else k64_kpm_parse_url url) of
        None \<Rightarrow> kpm_print ''usage: kpm source add <name> <http://host[:port][/path]>''
      | Some parsed \<Rightarrow>
          bind kpm_ensure_dirs (\<lambda>_.
          bind kpm_load_sources (\<lambda>sources.
          case source_conflict name url sources of
            Some t \<Rightarrow> kpm_print t
          | None \<Rightarrow>
              if length sources \<ge> KPM_MAX_SOURCES then kpm_print ''kpm: too many sources''
              else
                bind (attempt (kpm_save_sources (sources @
                  [\<lparr>ks_name = kpm_copy [] 32 (Some name), ks_baseurl = kpm_copy [] 160 (Some url), ks_url = parsed\<rparr>]))) (\<lambda>saved.
                kpm_print (if saved = None then ''kpm: failed to save sources'' else ''kpm: source added'')))))"

text \<open>From the first entry with the name on, every entry is replaced by the one after it.\<close>

definition delete_source :: "string \<Rightarrow> kpm_source list \<Rightarrow> kpm_source list option" where
  "delete_source name sources =
     (case find (\<lambda>i. kpm_streq (Some (ks_name (sources ! i))) (Some name)) [0..<length sources] of
        None \<Rightarrow> None
      | Some i \<Rightarrow> Some (take i sources @ drop (i + 1) sources))"

definition kpm_cmd_source_del :: "string \<Rightarrow> ('h, 'g, unit) kpmop" where
  "kpm_cmd_source_del args =
     (case kpm_next_token args 32 of (name, _) \<Rightarrow>
      if name = [] then kpm_print ''usage: kpm source del <name>''
      else
        bind kpm_load_sources (\<lambda>sources.
        case delete_source name sources of
          None \<Rightarrow> kpm_print ''kpm: source not found''
        | Some rest \<Rightarrow>
            bind (attempt (kpm_save_sources rest)) (\<lambda>saved.
            kpm_print (if saved = None then ''kpm: failed to save sources'' else ''kpm: source removed''))))"

text \<open>
  The listing of a repository. \<open>latest0\<close> and \<open>desc0\<close> are the contents of the arrays that are printed even
  when the lookup did not write them.
\<close>

definition to_name_key :: "string \<Rightarrow> string" where
  "to_name_key p = (case find (\<lambda>i. k64_strncmp (drop i p) (quote_char # ''name'' @ [quote_char]) 6 = 0) [0..<length p] of
     Some i \<Rightarrow> drop i p | None \<Rightarrow> [])"

lemma length_to_name_key: "length (to_name_key p) \<le> length p"
  by (auto simp: to_name_key_def split: option.splits)

function list_entries :: "string \<Rightarrow> string \<Rightarrow> string \<Rightarrow> string" where
  "list_entries latest0 desc0 p =
     (if p = [] then []
      else case kpm_json_get_string_after p ''name'' 64 of
          (True, Some name) \<Rightarrow>
            (let latest = (case snd (kpm_json_get_string_after p ''latest'' 32) of None \<Rightarrow> latest0 | Some t \<Rightarrow> t);
                 desc = (case snd (kpm_json_get_string_after p ''description'' 96) of None \<Rightarrow> desc0 | Some t \<Rightarrow> t)
             in ''  '' @ name @ ''  '' @ (if latest = [] then ''-'' else latest) @ ''  '' @ desc @ newline) @
            list_entries latest0 desc0 (to_name_key (tl p))
        | _ \<Rightarrow> [])"
  by pat_completeness auto
termination
proof (relation "measure (\<lambda>(l, d, p). length p)")
  fix l d p :: string
  assume "p \<noteq> []"
  then have "length (to_name_key (tl p)) < length p" using length_to_name_key [of "tl p"] by (cases p) auto
  then show "((l, d, to_name_key (tl p)), l, d, p) \<in> measure (\<lambda>(l, d, p). length p)" by simp
qed simp

declare list_entries.simps [simp del]

fun list_sources :: "('h net \<Rightarrow> 'h net) \<Rightarrow> string \<Rightarrow> string \<Rightarrow> kpm_source list \<Rightarrow> ('h, 'g, unit) kpmop" where
  "list_sources poll latest0 desc0 [] = ret ()"
| "list_sources poll latest0 desc0 (src # srcs) =
     bind (term_write (''Source: '' @ ks_name src @ newline)) (\<lambda>_.
     bind (attempt (kpm_fetch_text poll src ''packages.json'' KPM_TEXT_MAX)) (\<lambda>text.
     bind (term_write (case text of None \<Rightarrow> [] | Some t \<Rightarrow> list_entries latest0 desc0 t)) (\<lambda>_.
     list_sources poll latest0 desc0 srcs)))"

definition kpm_cmd_list :: "('h net \<Rightarrow> 'h net) \<Rightarrow> string \<Rightarrow> string \<Rightarrow> ('h, 'g, unit) kpmop" where
  "kpm_cmd_list poll latest0 desc0 = bind kpm_load_sources (list_sources poll latest0 desc0)"

text \<open>
  The versions of a package: every quoted text that starts with a digit. \<open>latest0\<close> is the content of the array
  that the text is compared with when the lookup did not write it.
\<close>

fun version_lines :: "nat \<Rightarrow> string \<Rightarrow> string \<Rightarrow> string" where
  "version_lines 0 latest p = []"
| "version_lines (Suc n) latest p =
     (case p of
        [] \<Rightarrow> []
      | c # q \<Rightarrow>
          if c = quote_char then
            (let ver = take 31 (takeWhile (\<lambda>c. c \<noteq> quote_char) q) in
             (if ver \<noteq> [] \<and> is_digit (hd ver)
              then ''  '' @ ver @ (if kpm_streq (Some ver) (Some latest) then '' latest'' else []) @ newline else []) @
             version_lines n latest (tl (drop (length ver) q)))
          else version_lines n latest q)"

definition versions_suffix :: "string \<Rightarrow> string" where
  "versions_suffix package = kpm_append_all 128 [package, ''/versions.json''] []"

fun versions_sources :: "('h net \<Rightarrow> 'h net) \<Rightarrow> string \<Rightarrow> string \<Rightarrow> kpm_source list \<Rightarrow> ('h, 'g, unit) kpmop" where
  "versions_sources poll latest0 package [] = ret ()"
| "versions_sources poll latest0 package (src # srcs) =
     bind (attempt (kpm_fetch_text poll src (versions_suffix package) KPM_TEXT_MAX)) (\<lambda>text.
     bind (term_write (case text of
         None \<Rightarrow> []
       | Some t \<Rightarrow>
           let latest = (case snd (k64_kpm_json_latest_version t package 32) of None \<Rightarrow> latest0 | Some l \<Rightarrow> l)
           in package @ '':'' @ newline @ version_lines (length t) latest t)) (\<lambda>_.
     versions_sources poll latest0 package srcs))"

definition kpm_cmd_versions :: "('h net \<Rightarrow> 'h net) \<Rightarrow> string \<Rightarrow> string \<Rightarrow> ('h, 'g, unit) kpmop" where
  "kpm_cmd_versions poll latest0 package =
     (if package = [] then kpm_print ''usage: kpm versions <package>''
      else bind kpm_load_sources (versions_sources poll latest0 package))"

definition k64_term_hex :: "u64 \<Rightarrow> string" where
  "k64_term_hex v = ''0x'' @ map (\<lambda>i. ''0123456789ABCDEF'' ! unat (drop_bit i v AND 0xF)) (rev (map (\<lambda>i. 4 * i) [0..<16]))"

text \<open>One source answered with the selected version: the rest of the command, after which it returns.\<close>

definition validation_report :: "('h, 'g, unit) kpmop" where
  "validation_report s =
     term_write (''kpm: invalid package: '' @ kpm_validate_error s @
       (if kpm_streq (Some (kpm_validate_error s)) (Some ''payload crc mismatch'')
        then '' expected='' @ k64_term_hex (ucast (kpm_validate_expected_crc s)) @
             '' actual='' @ k64_term_hex (ucast (kpm_validate_actual_crc s)) else []) @ newline) s"

definition installed_text :: "kpm_package_header \<Rightarrow> string" where
  "installed_text hdr =
     ''kpm: installed '' @ array_str (pk_package_name hdr) @ '' '' @ array_str (pk_package_version hdr) @ newline @
     (if pk_kind hdr = KPM_KIND_K64M then ''Installed driver. Run '' @ [CHR 0x27] @ ''reload drivers'' @ [CHR 0x27] @ '' to activate.''
      else if pk_kind hdr = KPM_KIND_K64S then ''Installed service. Reboot or reload services when service reload exists.''
      else ''Installed executable to '' @ kpm_install_path KPM_TEXT_MAX hdr) @ newline"

definition install_bytes :: "kpm_source \<Rightarrow> bytes \<Rightarrow> ('h, 'g, unit) kpmop" where
  "install_bytes src data =
     bind (kpm_print ''kpm: validating KPG1 package'') (\<lambda>_.
     bind (attempt (k64_kpm_validate_package_bytes data)) (\<lambda>valid.
     case valid of
       None \<Rightarrow> validation_report
     | Some hdr \<Rightarrow>
         bind (term_write (''kpm: installing '' @ kpm_kind_name (pk_kind hdr) @ '' to '' @ kpm_install_path KPM_TEXT_MAX hdr @ newline)) (\<lambda>_.
         bind (attempt (k64_kpm_install_package_bytes data (Some (ks_name src)))) (\<lambda>done.
         if done = None then kpm_print ''kpm: install failed''
         else bind (kpm_print ''kpm: syncing rootfs'') (\<lambda>_. term_write (installed_text hdr))))))"

definition package_file :: "string \<Rightarrow> string \<Rightarrow> string" where
  "package_file package version =
     kpm_append_all KPM_TEXT_MAX [package, ''-'', version, ''.kpg''] (kpm_copy [] KPM_TEXT_MAX (Some (KPM_TMP_DIR @ ''/'')))"

definition install_version :: "('h net \<Rightarrow> 'h net) \<Rightarrow> kpm_source \<Rightarrow> string \<Rightarrow> string \<Rightarrow> ('h, 'g, unit) kpmop" where
  "install_version poll src package version =
     bind (term_write (''kpm: selected version '' @ version @ newline)) (\<lambda>_.
     bind (kpm_print ''kpm: downloading package'') (\<lambda>_.
     bind (attempt (kpm_fetch_package poll src package version)) (\<lambda>got.
     case got of
       None \<Rightarrow> ret ()
     | Some data \<Rightarrow>
         bind kpm_ensure_dirs (\<lambda>_.
         bind (attempt (on_kfs (k64_fs_write_file_raw (Some (package_file package version)) data))) (\<lambda>_.
         install_bytes src data)))))"

text \<open>A version on the command line is \<open>Some\<close>.\<close>

definition select_version :: "string \<Rightarrow> string \<Rightarrow> string option \<Rightarrow> string option" where
  "select_version t package wanted =
     (case wanted of
        Some v \<Rightarrow> Some v
      | None \<Rightarrow> (case k64_kpm_json_latest_version t package 32 of (found, v) \<Rightarrow> if found then v else None))"

fun install_sources :: "('h net \<Rightarrow> 'h net) \<Rightarrow> string \<Rightarrow> string option \<Rightarrow> kpm_source list \<Rightarrow> ('h, 'g, unit) kpmop" where
  "install_sources poll package wanted [] = kpm_print ''kpm: package not found in configured sources''"
| "install_sources poll package wanted (src # srcs) =
     bind (attempt (kpm_fetch_text poll src (versions_suffix package) KPM_TEXT_MAX)) (\<lambda>text.
     case text of
       None \<Rightarrow> install_sources poll package wanted srcs
     | Some t \<Rightarrow>
         (case select_version t package wanted of
            None \<Rightarrow> install_sources poll package wanted srcs
          | Some version \<Rightarrow>
              if \<not> k64_kpm_json_version_exists t version then kpm_print ''kpm: requested version not found''
              else install_version poll src package version))"

definition kpm_cmd_install :: "('h net \<Rightarrow> 'h net) \<Rightarrow> string \<Rightarrow> ('h, 'g, unit) kpmop" where
  "kpm_cmd_install poll args =
     (case kpm_next_token args 64 of (package, args) \<Rightarrow>
      case kpm_next_token args 16 of (opt, args) \<Rightarrow>
      let version = (if kpm_streq (Some opt) (Some ''-v'') then fst (kpm_next_token args 32) else []);
          wanted = (if version = [] then None else Some version) in
      if package = [] then kpm_print ''usage: kpm install <package> [-v <version>]''
      else
        bind (kpm_print ''kpm: resolving package'') (\<lambda>_.
        bind kpm_load_sources (install_sources poll package wanted)))"

definition kpm_usage :: "('h, 'g, unit) kpmop" where
  "kpm_usage =
     bind (kpm_print ''usage: kpm <list|versions|install|sources|source>'') (\<lambda>_.
     bind (kpm_print ''       kpm source add <name> <baseurl>'') (\<lambda>_.
     kpm_print ''       kpm source del <name>''))"

definition k64_kpm_command :: "('h net \<Rightarrow> 'h net) \<Rightarrow> string \<Rightarrow> string \<Rightarrow> string \<Rightarrow> ('h, 'g, unit) kpmop" where
  "k64_kpm_command poll latest0 desc0 args =
     (case kpm_next_token args 32 of (sub, args) \<Rightarrow>
      if kpm_streq (Some sub) (Some ''sources'') then kpm_cmd_sources
      else if kpm_streq (Some sub) (Some ''source'') then
        (case kpm_next_token args 64 of (arg, args) \<Rightarrow>
         if kpm_streq (Some arg) (Some ''list'') then kpm_cmd_sources
         else if kpm_streq (Some arg) (Some ''add'') then kpm_cmd_source_add args
         else if kpm_streq (Some arg) (Some ''del'') then kpm_cmd_source_del args
         else kpm_usage)
      else if kpm_streq (Some sub) (Some ''list'') then kpm_cmd_list poll latest0 desc0
      else if kpm_streq (Some sub) (Some ''versions'') then kpm_cmd_versions poll latest0 (fst (kpm_next_token args 64))
      else if kpm_streq (Some sub) (Some ''install'') then kpm_cmd_install poll args
      else kpm_usage)"

end
