(* ===== verification/Kpm_Props.thy ===== *)
theory Kpm_Props
  imports Kpm
begin

text \<open>
  Properties of the package manager: where packages are installed, what its validation rejects, the round
  trip of the list of sources and what a download returns.
\<close>

section \<open>Installation paths\<close>

lemmas kind_simps = KPM_KIND_ELF_def KPM_KIND_K64S_def KPM_KIND_K64M_def

lemma kpm_append_all_fits:
  assumes "length dst + length (concat ts) < n"
  shows "kpm_append_all n ts dst = dst @ concat ts"
  using assms
proof (induction ts arbitrary: dst)
  case (Cons t ts)
  then show ?case by (simp add: kpm_append_all_def kpm_append_def)
qed (simp add: kpm_append_all_def)

lemma tokens_one:
  assumes "CHR ''/'' \<notin> set f" and "f \<noteq> []"
  shows "path_tokens f = [f]"
proof -
  have "takeWhile (\<lambda>c. c \<noteq> CHR ''/'') f = f" "dropWhile (\<lambda>c. c \<noteq> CHR ''/'') f = []"
    using assms(1) by (auto simp: takeWhile_eq_all_conv dropWhile_eq_Nil_conv)
  moreover have "path_tokens [] = []" by (simp add: path_tokens.simps)
  ultimately show ?thesis using assms(2) by (subst path_tokens.simps) (simp only: if_False dropWhile.simps)
qed

lemma tokens_two:
  assumes "CHR ''/'' \<notin> set d" and "d \<noteq> []" and "CHR ''/'' \<notin> set f" and "f \<noteq> []"
  shows "path_tokens (d @ CHR ''/'' # f) = [d, f]"
proof -
  have d: "takeWhile (\<lambda>c. c \<noteq> CHR ''/'') (d @ CHR ''/'' # f) = d" "dropWhile (\<lambda>c. c \<noteq> CHR ''/'') (d @ CHR ''/'' # f) = CHR ''/'' # f"
    using assms(1) by (induction d) auto
  have f: "dropWhile (\<lambda>c. c = CHR ''/'') f = f" using assms(3,4) by (cases f) auto
  show ?thesis
    using assms d f tokens_one [OF assms(3,4)] by (subst path_tokens.simps) simp
qed

text \<open>An absolute path of two plain components is its own normal form.\<close>

lemma normalize_two:
  assumes "CHR ''/'' \<notin> set d" and "d \<notin> {[], ''.'', ''..''}" and "CHR ''/'' \<notin> set f" and "f \<notin> {[], ''.'', ''..''}"
    and "CHR 0x00 \<notin> set (d @ f)" and "length d < 100" and "length f < 100"
  shows "fs_normalize cwd (Some (CHR ''/'' # d @ CHR ''/'' # f)) 256 = Some (CHR ''/'' # d @ CHR ''/'' # f)"
proof -
  let ?p = "d @ CHR ''/'' # f"
  have "fs_full_path cwd (Some (CHR ''/'' # ?p)) = CHR ''/'' # ?p"
    using assms(6,7) by (simp add: fs_full_path_def fs_copy_def)
  moreover have "dropWhile (\<lambda>c. c = CHR ''/'') ?p = ?p" using assms(1,2) by (cases d) auto
  moreover have "path_tokens ?p = [d, f]" using assms by (intro tokens_two) auto
  ultimately have "full_tokens cwd (Some (CHR ''/'' # ?p)) = [d, f]" by simp
  moreover have "normalize_tokens 256 [d, f] (join_components []) = Some (join_components [d, f])"
    using assms by (subst normalize_tokens_join) (auto simp: c_string_def Let_def length_join_components join_components_def)
  ultimately show ?thesis by (simp add: fs_normalize_def join_components_def)
qed

lemma array_str_bounded:
  assumes "kpm_bounded_cstr b"
  shows "length (array_str b) < length b"
proof -
  have "0 \<in> set b" using assms by (auto simp: kpm_bounded_cstr_def list_ex_iff)
  then show ?thesis
  proof (induction b)
    case (Cons x b)
    then show ?case by (cases "x = 0") (auto simp: array_str_def)
  qed simp
qed

lemma array_str_no_nul [simp]: "CHR 0x00 \<notin> set (array_str b)"
  by (auto simp: array_str_def dest: set_takeWhileD)

lemma valid_name_plain: "valid_name_from name \<Longrightarrow> CHR ''/'' \<notin> set name \<and> CHR 0x5C \<notin> set name"
  by (induction name) auto

lemma valid_name_no_dots: "valid_name_from name \<Longrightarrow> name \<noteq> xs @ ''..'' @ ys"
proof (induction name arbitrary: xs)
  case (Cons c name)
  then show ?case by (cases xs) auto
qed simp

text \<open>What validation established of a header it accepted.\<close>

lemma validate_Ok:
  assumes "k64_kpm_validate_package_bytes data s = (Ok hdr, t)"
  shows "hdr = dec_package_header data \<and> kpm_header_size \<le> length data \<and>
    pk_magic hdr = KPM_MAGIC \<and> pk_format_version hdr = 1 \<and> pk_kind hdr \<in> {KPM_KIND_ELF, KPM_KIND_K64S, KPM_KIND_K64M} \<and>
    kpm_bounded_cstr (pk_package_name hdr) \<and> kpm_bounded_cstr (pk_package_version hdr) \<and> kpm_bounded_cstr (pk_install_name hdr) \<and>
    kpm_valid_install_name (array_str (pk_install_name hdr)) \<and>
    pk_payload_size hdr = of_nat (length data) - of_nat kpm_header_size \<and>
    kpm_crc32 (bytes_at kpm_header_size (unat (pk_payload_size hdr)) data) = pk_payload_crc32 hdr"
  using assms unfolding k64_kpm_validate_package_bytes_def Let_def
  by (simp add: report_def split: if_split_asm)

text \<open>C25: a package that passes validation is installed as one file directly below \<open>/ex\<close>, \<open>/k64s\<close> or \<open>/k64m\<close>,
  whatever its install name says: the name is not empty, has no slash, no backslash and no two dots in a
  row, the path is not cut by its buffer, and the file-system service leaves it as it is.\<close>

theorem package_install_confined:
  assumes "k64_kpm_validate_package_bytes data s = (Ok hdr, t)"
  shows "\<exists>dir name ext. kpm_install_path 128 hdr = dir @ name @ ext \<and> name = array_str (pk_install_name hdr) \<and> name \<noteq> [] \<and>
    (dir, ext) \<in> {(''/ex/'', ''.elf''), (''/k64s/'', ''.k64s''), (''/k64m/'', ''.k64m'')} \<and>
    CHR ''/'' \<notin> set name \<and> CHR 0x5C \<notin> set name \<and> (\<nexists>xs ys. name = xs @ ''..'' @ ys) \<and>
    fs_normalize cwd (Some (kpm_install_path 128 hdr)) 256 = Some (kpm_install_path 128 hdr)"
proof -
  define name where "name = array_str (pk_install_name hdr)"
  note ok = validate_Ok [OF assms]
  have "length (pk_install_name hdr) \<le> 64" using ok by (simp add: dec_package_header_def bytes_at_def)
  moreover have "length name < length (pk_install_name hdr)" unfolding name_def using ok by (intro array_str_bounded) blast
  ultimately have len: "length name < 64" by linarith
  have name: "name \<noteq> []" "valid_name_from name" using ok unfolding name_def kpm_valid_install_name_def by blast+
  note plain = valid_name_plain [OF name(2)] valid_name_no_dots [OF name(2)]
  have norm: "fs_normalize cwd (Some (CHR ''/'' # d @ CHR ''/'' # name @ ext)) 256 = Some (CHR ''/'' # d @ CHR ''/'' # name @ ext)"
    if "d \<in> {''ex'', ''k64s'', ''k64m''}" "ext \<in> {''.elf'', ''.k64s'', ''.k64m''}" for d ext
    using that len name plain(1) by (intro normalize_two) (auto simp: name_def Cons_eq_append_conv append_eq_Cons_conv)
  consider "pk_kind hdr = KPM_KIND_ELF" | "pk_kind hdr = KPM_KIND_K64S" | "pk_kind hdr = KPM_KIND_K64M" using ok by blast
  then have "\<exists>d ext. kpm_install_path 128 hdr = (CHR ''/'' # d @ ''/'') @ name @ ext \<and>
    (d, ext) \<in> {(''ex'', ''.elf''), (''k64s'', ''.k64s''), (''k64m'', ''.k64m'')}"
  proof cases
    case 1
    with len show ?thesis by (intro exI [of _ "''ex''"] exI [of _ "''.elf''"]) (simp add: kpm_install_path_def kpm_append_all_fits name_def)
  next
    case 2
    with len show ?thesis
      by (intro exI [of _ "''k64s''"] exI [of _ "''.k64s''"]) (simp add: kpm_install_path_def kpm_append_all_fits name_def kind_simps)
  next
    case 3
    with len show ?thesis
      by (intro exI [of _ "''k64m''"] exI [of _ "''.k64m''"]) (simp add: kpm_install_path_def kpm_append_all_fits name_def kind_simps)
  qed
  then obtain d ext where p: "kpm_install_path 128 hdr = (CHR ''/'' # d @ ''/'') @ name @ ext"
    and de: "(d, ext) \<in> {(''ex'', ''.elf''), (''k64s'', ''.k64s''), (''k64m'', ''.k64m'')}" by blast
  have "fs_normalize cwd (Some (kpm_install_path 128 hdr)) 256 = Some (kpm_install_path 128 hdr)"
    using norm [of d ext] de unfolding p by fastforce
  moreover have "(CHR ''/'' # d @ ''/'', ext) \<in> {(''/ex/'', ''.elf''), (''/k64s/'', ''.k64s''), (''/k64m/'', ''.k64m'')}"
    using de by auto
  ultimately show ?thesis using p name(1) plain name_def by blast
qed

text \<open>A package whose payload is the letter A.\<close>

definition demo_header :: bytes where
  "demo_header = [0x4B, 0x50, 0x47, 0x31, 1, 0, 1, 0] @ char_array 64 ''hello'' @ char_array 32 ''1.0'' @ char_array 64 ''hello'' @
     [1, 0, 0, 0, 0, 0, 0, 0, 0x8B, 0x9E, 0xD9, 0xD3] @ replicate 68 0"

definition demo_package :: bytes where
  "demo_package = demo_header @ [0x41]"

lemma demo_fields:
  "demo_package = demo_header @ [] @ [0x41] @ []" "length demo_header = kpm_header_size" "length demo_package = 249"
  "pk_magic (dec_package_header demo_package) = KPM_MAGIC"
  "pk_format_version (dec_package_header demo_package) = 1" "pk_kind (dec_package_header demo_package) = KPM_KIND_ELF"
  "kpm_bounded_cstr (pk_package_name (dec_package_header demo_package))"
  "kpm_bounded_cstr (pk_package_version (dec_package_header demo_package))"
  "kpm_bounded_cstr (pk_install_name (dec_package_header demo_package))"
  "kpm_valid_install_name (array_str (pk_install_name (dec_package_header demo_package)))"
  "pk_payload_size (dec_package_header demo_package) = 1"
  "pk_payload_crc32 (dec_package_header demo_package) = kpm_crc32 [0x41]" "bytes_at 248 1 demo_package = [0x41]"
  by code_simp+

lemma demo_valid: "\<exists>t. k64_kpm_validate_package_bytes demo_package s = (Ok (dec_package_header demo_package), t)"
  using demo_fields(3-) by (simp add: k64_kpm_validate_package_bytes_def kpm_header_size_def report_def Let_def)

theorem package_install_confined_witness:
  "fs_normalize ''/'' (Some (kpm_install_path 128 (dec_package_header demo_package))) 256 =
     Some (kpm_install_path 128 (dec_package_header demo_package))"
proof -
  obtain t where "k64_kpm_validate_package_bytes demo_package undefined = (Ok (dec_package_header demo_package), t)"
    using demo_valid by blast
  from package_install_confined [OF this] show ?thesis by blast
qed


section \<open>Damaged packages\<close>

lemma kpm_crc32_is_xfs: "kpm_crc32 data = k64_xfs_crc32 data"
proof -
  have "crc_byte = (\<lambda>crc b. ((\<lambda>crc. drop_bit 1 crc XOR (0xEDB88320 AND (0 - (crc AND 1)))) ^^ 8) (crc XOR ucast b))"
    unfolding crc_byte_def crc_bit_def Let_def by (rule refl)
  then show ?thesis unfolding kpm_crc32_def k64_xfs_crc32_def by simp
qed

lemma dec_header_append: "length h = kpm_header_size \<Longrightarrow> dec_package_header (h @ p) = dec_package_header h"
  by (simp add: dec_package_header_def bytes_at_def kpm_header_size_def)

lemma validate_append:
  assumes "length h = kpm_header_size" and "length p + kpm_header_size < 2 ^ 64"
  shows "k64_kpm_validate_package_bytes (h @ p) s =
    (let hdr = dec_package_header h in
     if pk_magic hdr \<noteq> KPM_MAGIC \<or> pk_format_version hdr \<noteq> 1 \<or> pk_kind hdr \<notin> {KPM_KIND_ELF, KPM_KIND_K64S, KPM_KIND_K64M}
     then (Fail, s\<lparr>kpm_validate_error := ''bad header''\<rparr>)
     else if \<not> kpm_bounded_cstr (pk_package_name hdr) \<or> \<not> kpm_bounded_cstr (pk_package_version hdr) \<or>
       \<not> kpm_bounded_cstr (pk_install_name hdr) \<or> \<not> kpm_valid_install_name (array_str (pk_install_name hdr))
     then (Fail, s\<lparr>kpm_validate_error := ''bad names''\<rparr>)
     else if unat (pk_payload_size hdr) \<noteq> length p then (Fail, s\<lparr>kpm_validate_error := ''payload size mismatch''\<rparr>)
     else
       let t = s\<lparr>kpm_validate_expected_crc := pk_payload_crc32 hdr, kpm_validate_actual_crc := kpm_crc32 p\<rparr> in
       if kpm_crc32 p \<noteq> pk_payload_crc32 hdr then (Fail, t\<lparr>kpm_validate_error := ''payload crc mismatch''\<rparr>)
       else (Ok hdr, t\<lparr>kpm_validate_error := ''ok''\<rparr>))"
proof -
  have n: "of_nat (length (h @ p)) - of_nat kpm_header_size = (of_nat (length p) :: u64)" using assms(1) by simp
  have eq: "pk_payload_size hdr \<noteq> of_nat (length p) \<longleftrightarrow> unat (pk_payload_size hdr) \<noteq> length p" for hdr
    using assms(2) by (simp add: word_unat_eq_iff unat_of_nat_small)
  have p: "bytes_at kpm_header_size (length p) (h @ p) = p" using assms(1) by (simp add: bytes_at_def)
  show ?thesis
    unfolding k64_kpm_validate_package_bytes_def dec_header_append [OF assms(1)] n eq Let_def using assms(1) p
    by (simp add: report_def)
qed


text \<open>C26: a change of up to four consecutive bytes of the payload of a valid package is detected: the installation
  fails with the message \<open>payload crc mismatch\<close> and leaves the file system as it was.\<close>

theorem package_damage_rejected:
  assumes "k64_kpm_validate_package_bytes (h @ xs @ bs @ ys) s = (Ok hdr, t)" and "length h = kpm_header_size"
    and "length bs = length cs" and "length bs \<le> 4" and "bs \<noteq> cs" and "length (h @ xs @ bs @ ys) < 2 ^ 64"
  shows "\<exists>t. k64_kpm_install_package_bytes (h @ xs @ cs @ ys) source_name s = (Fail, t) \<and>
    k_fs t = k_fs s \<and> kpm_validate_error t = ''payload crc mismatch''"
proof -
  let ?p = "xs @ bs @ ys" and ?q = "xs @ cs @ ys"
  have len: "length ?p + kpm_header_size < 2 ^ 64" "length ?q + kpm_header_size < 2 ^ 64" "length ?p = length ?q"
    using assms(2,3,6) by (simp_all add: ac_simps)
  have "kpm_crc32 ?q \<noteq> kpm_crc32 ?p"
    using crc32_detects_burst [OF assms(3,4), of xs ys] assms(5) by (auto simp: kpm_crc32_is_xfs)
  moreover have "kpm_crc32 ?p = pk_payload_crc32 (dec_package_header h)"
    using assms(1) unfolding validate_append [OF assms(2) len(1)] Let_def by (simp split: if_split_asm)
  ultimately have "\<exists>t. k64_kpm_validate_package_bytes (h @ ?q) s = (Fail, t) \<and> k_fs t = k_fs s \<and>
      kpm_validate_error t = ''payload crc mismatch''"
    using assms(1) len(3) unfolding validate_append [OF assms(2) len(1)] validate_append [OF assms(2) len(2)] Let_def
    by (simp split: if_split_asm)
  then show ?thesis unfolding k64_kpm_install_package_bytes_def by (auto simp: bind_run_Fail)
qed

theorem package_damage_rejected_witness:
  "\<exists>t. k64_kpm_install_package_bytes (demo_header @ [] @ [0x42] @ []) None (undefined :: (unit, unit) kpm) = (Fail, t) \<and>
    k_fs t = k_fs (undefined :: (unit, unit) kpm) \<and> kpm_validate_error t = ''payload crc mismatch''"
proof -
  obtain t where "k64_kpm_validate_package_bytes (demo_header @ [] @ [0x41] @ []) (undefined :: (unit, unit) kpm) = (Ok (dec_package_header demo_package), t)"
    using demo_valid demo_fields(1) by metis
  from package_damage_rejected [OF this demo_fields(2), of "[0x42]" None] show ?thesis
    using demo_fields(2) by (simp add: kpm_header_size_def)
qed

section \<open>The list of sources\<close>

definition plain_word :: "nat \<Rightarrow> string \<Rightarrow> bool" where
  "plain_word n w \<longleftrightarrow> w \<noteq> [] \<and> length w < n \<and> (\<forall>c\<in>set w. \<not> is_ws c)"

definition source_ok :: "kpm_source \<Rightarrow> bool" where
  "source_ok src \<longleftrightarrow> plain_word 32 (ks_name src) \<and> plain_word 160 (ks_baseurl src) \<and>
     k64_kpm_parse_url (ks_baseurl src) = Some (ks_url src)"

definition source_line :: "kpm_source \<Rightarrow> string" where
  "source_line src = ks_name src @ '' '' @ ks_baseurl src @ newline"

lemma next_token_word:
  assumes "plain_word n w" and "is_ws c"
  shows "kpm_next_token (w @ c # rest) n = (w, kpm_skip_ws rest)"
proof -
  have "kpm_skip_ws (w @ c # rest) = w @ c # rest"
    using assms(1) by (cases w) (auto simp: kpm_skip_ws_def plain_word_def)
  moreover have "takeWhile (\<lambda>c. \<not> is_ws c) (w @ c # rest) = w"
    using assms by (subst takeWhile_append2) (auto simp: plain_word_def)
  moreover have "take (n - 1) w = w" using assms(1) by (auto simp: plain_word_def)
  ultimately show ?thesis using assms(2) by (simp add: kpm_next_token_def kpm_skip_ws_def Let_def)
qed

lemma next_token_plain: "kpm_next_token p n = (w, q) \<Longrightarrow> 0 < n \<Longrightarrow> w \<noteq> [] \<Longrightarrow> plain_word n w"
  by (auto simp: kpm_next_token_def Let_def plain_word_def dest!: in_set_takeD set_takeWhileD)

lemma ws_chars [simp]: "is_ws CHR '' ''" "is_ws CHR 0x0A" "is_nl c \<Longrightarrow> is_ws c"
  by (auto simp: is_ws_def is_nl_def)

lemma skip_word: "plain_word n w \<Longrightarrow> kpm_skip_ws (w @ rest) = w @ rest"
  by (cases w) (auto simp: kpm_skip_ws_def plain_word_def)

lemma read_source_line:
  assumes "source_ok src"
  shows "read_source (source_line src @ rest) = Some src"
proof -
  have w: "plain_word 32 (ks_name src)" "plain_word 160 (ks_baseurl src)" "ks_name src \<noteq> []" "ks_baseurl src \<noteq> []"
    "length (ks_name src) < 32" "length (ks_baseurl src) < 160"
    using assms by (auto simp: source_ok_def plain_word_def)
  have 1: "kpm_next_token (source_line src @ rest) 32 = (ks_name src, ks_baseurl src @ CHR 0x0A # rest)"
    using next_token_word [OF w(1), of "CHR '' ''"] skip_word [OF w(2)] by (simp add: source_line_def newline_def)
  have 2: "kpm_next_token (ks_baseurl src @ CHR 0x0A # rest) 160 = (ks_baseurl src, kpm_skip_ws rest)"
    by (rule next_token_word [OF w(2)]) simp
  show ?thesis using assms w by (simp add: read_source_def 1 2 source_ok_def kpm_copy_def)
qed

lemma no_leading_nl: "list_all source_ok srcs \<Longrightarrow> dropWhile is_nl (concat (map source_line srcs)) = concat (map source_line srcs)"
proof (cases srcs)
  case (Cons src srcs')
  assume "list_all source_ok srcs"
  then have "\<not> is_nl (hd (ks_name src))" "ks_name src \<noteq> []"
    using Cons ws_chars(3) [of "hd (ks_name src)"] by (auto simp: source_ok_def plain_word_def simp del: ws_chars)
  then show ?thesis using Cons by (cases "ks_name src") (auto simp: source_line_def)
qed simp

lemma next_line_source:
  assumes "source_ok src" and "list_all source_ok srcs"
  shows "next_line (source_line src @ concat (map source_line srcs)) = concat (map source_line srcs)"
proof -
  have "\<forall>c\<in>set (ks_name src @ '' '' @ ks_baseurl src). \<not> is_nl c"
    using assms(1) by (auto simp: source_ok_def plain_word_def is_nl_def is_ws_def)
  then have "dropWhile (\<lambda>c. \<not> is_nl c) ((ks_name src @ '' '' @ ks_baseurl src) @ CHR 0x0A # concat (map source_line srcs))
      = CHR 0x0A # concat (map source_line srcs)"
    by (subst dropWhile_append2) (auto simp: is_nl_def)
  then show ?thesis
    using no_leading_nl [OF assms(2)] by (simp add: next_line_def source_line_def newline_def is_nl_def)
qed

lemma source_line_nonempty [simp]: "source_line src \<noteq> []"
  by (simp add: source_line_def)

lemma parse_source_lines:
  "list_all source_ok srcs \<Longrightarrow> n + length srcs \<le> KPM_MAX_SOURCES \<Longrightarrow> parse_sources (concat (map source_line srcs)) n = srcs"
proof (induction srcs arbitrary: n)
  case Nil
  then show ?case by (simp add: parse_sources.simps)
next
  case (Cons src srcs)
  then have "parse_sources (source_line src @ concat (map source_line srcs)) n = src # parse_sources (concat (map source_line srcs)) (n + 1)"
    by (subst parse_sources.simps) (auto simp: read_source_line next_line_source)
  then show ?case using Cons.IH [of "n + 1"] Cons.prems by simp
qed

lemma print_lines:
  assumes "list_all source_ok srcs" and "length tx + 192 * length srcs < KPM_TEXT_MAX"
  shows "fold (\<lambda>src tx. kpm_append_all KPM_TEXT_MAX [ks_name src, '' '', ks_baseurl src, newline] tx) srcs tx =
    tx @ concat (map source_line srcs)"
  using assms
proof (induction srcs arbitrary: tx)
  case (Cons src srcs)
  have len: "length (source_line src) \<le> 192" using Cons.prems(1) by (simp add: source_ok_def plain_word_def source_line_def newline_def)
  have "kpm_append_all KPM_TEXT_MAX [ks_name src, '' '', ks_baseurl src, newline] tx = tx @ source_line src"
    using len Cons.prems(2) by (subst kpm_append_all_fits) (simp_all add: source_line_def)
  then show ?case using Cons.IH [of "tx @ source_line src"] Cons.prems len by simp
qed simp

lemma read_source_ok: "read_source p = Some src \<Longrightarrow> source_ok src"
proof -
  assume r: "read_source p = Some src"
  obtain name q where n: "kpm_next_token p 32 = (name, q)" by fastforce
  obtain url q' where u: "kpm_next_token q 160 = (url, q')" by fastforce
  have ne: "name \<noteq> []" "url \<noteq> []" using r n u by (auto simp: read_source_def)
  then have w: "plain_word 32 name" "plain_word 160 url" using next_token_plain [OF n] next_token_plain [OF u] by simp_all
  then have "take 31 name = name" "take 159 url = url" by (auto simp: plain_word_def)
  then show ?thesis using r n u ne w by (auto simp: read_source_def kpm_copy_def source_ok_def split: option.splits)
qed

lemma parse_sources_ok: "list_all source_ok (parse_sources p n) \<and> length (parse_sources p n) \<le> KPM_MAX_SOURCES - n"
proof (induction p n rule: parse_sources.induct)
  case (1 p n)
  then show ?case
    by (cases "p \<noteq> [] \<and> n < KPM_MAX_SOURCES"; cases "read_source p")
       (auto simp: parse_sources.simps [of p n] read_source_ok)
qed

text \<open>The list of sources survives being saved and loaded: a list of at most eight sources whose names and
  addresses are words that fit their buffers is read back as it was written; and what is read from any
  text is such a list, so saving what was loaded loses nothing.\<close>

theorem sources_roundtrip:
  "(list_all source_ok srcs \<and> length srcs \<le> KPM_MAX_SOURCES \<longrightarrow> parse_sources (print_sources srcs) 0 = srcs) \<and>
   list_all source_ok (parse_sources tx 0) \<and> length (parse_sources tx 0) \<le> KPM_MAX_SOURCES \<and>
   parse_sources (print_sources (parse_sources tx 0)) 0 = parse_sources tx 0"
proof -
  have r: "parse_sources (print_sources ss) 0 = ss" if "list_all source_ok ss" "length ss \<le> KPM_MAX_SOURCES" for ss
    using that print_lines [OF that(1), of "[]"] parse_source_lines [OF that(1), of 0]
    by (simp add: print_sources_def KPM_MAX_SOURCES_def KPM_TEXT_MAX_def)
  then show ?thesis using parse_sources_ok [of tx 0] by simp
qed

theorem sources_roundtrip_witness:
  "let src = \<lparr>ks_name = ''main'', ks_baseurl = ''http://k/r'',
      ks_url = \<lparr>u_scheme = ''http'', u_host = ''k'', u_port = 80, u_base_path = ''/r''\<rparr>\<rparr>
   in parse_sources (print_sources [src]) 0 = [src]"
proof -
  have "k64_kpm_parse_url ''http://k/r'' = Some \<lparr>u_scheme = ''http'', u_host = ''k'', u_port = 80, u_base_path = ''/r''\<rparr>" by code_simp
  then show ?thesis
    using sources_roundtrip [of "[\<lparr>ks_name = ''main'', ks_baseurl = ''http://k/r'',
      ks_url = \<lparr>u_scheme = ''http'', u_host = ''k'', u_port = 80, u_base_path = ''/r''\<rparr>\<rparr>]"]
    by (simp add: source_ok_def plain_word_def is_ws_def KPM_MAX_SOURCES_def)
qed

section \<open>Downloads\<close>

text \<open>A result that reports a size within the capacity of the buffer comes with that many bytes.\<close>

definition delivers :: "nat \<Rightarrow> http_result res \<times> 's \<Rightarrow> bool" where
  "delivers cap x \<longleftrightarrow> (case fst x of Ok r \<Rightarrow> r_size r \<le> cap \<longrightarrow> length (r_out r) = r_size r | _ \<Rightarrow> True)"

lemma delivers_Ok: "length (r_out r) = r_size r \<or> cap < r_size r \<Longrightarrow> delivers cap (Ok r, s)"
  by (auto simp: delivers_def)

lemma delivers_wait: "delivers cap (Ok (http_wait t), s)" "delivers cap (ret (http_wait t) s)"
  by (simp_all add: delivers_def)

lemma delivers_bind: "(\<And>a t. delivers cap (f a t)) \<Longrightarrow> delivers cap (bind m f s)"
  by (cases "m s"; cases "fst (m s)") (auto simp: bind_def delivers_def)

lemma delivers_if: "(c \<Longrightarrow> delivers cap x) \<Longrightarrow> (\<not> c \<Longrightarrow> delivers cap y) \<Longrightarrow> delivers cap (if c then x else y)"
  "(c \<Longrightarrow> delivers cap (f s)) \<Longrightarrow> (\<not> c \<Longrightarrow> delivers cap (g s)) \<Longrightarrow> delivers cap ((if c then f else g) s)"
  by simp_all

lemma delivers_option: "(x = None \<Longrightarrow> delivers cap (f s)) \<Longrightarrow> (\<And>a. x = Some a \<Longrightarrow> delivers cap (g a s)) \<Longrightarrow>
    delivers cap ((case x of None \<Rightarrow> f | Some a \<Rightarrow> g a) s)"
  by (cases x) simp_all

lemmas delivers_rules = delivers_wait delivers_bind delivers_if delivers_option

lemma delivers_fail: "delivers cap (http_fail t s)"
  unfolding http_fail_def by (intro delivers_rules)

lemma delivers_deliver: "0 < cap \<Longrightarrow> delivers cap (http_deliver cap s)"
  unfolding http_deliver_def Let_def
  by (cases "http_find_body (h_response (http s))")
     (simp_all only: option.case, (intro delivers_fail delivers_rules delivers_Ok | simp add: delivers_def)+)

lemma delivers_finish: "0 < cap \<Longrightarrow> delivers cap (http_finish cap s)"
  unfolding http_finish_def by (cases "h_state (http s)") (simp_all only: http_state.case, (intro delivers_deliver delivers_wait | assumption)+)

lemma delivers_send_request: "0 < cap \<Longrightarrow> delivers cap (http_send_request cap s)"
  unfolding http_send_request_def Let_def by (intro delivers_rules delivers_finish)

lemma delivers_connect: "0 < cap \<Longrightarrow> delivers cap (http_connect cap s)"
  unfolding http_connect_def Let_def by (intro delivers_rules delivers_send_request)

lemma delivers_resolve: "0 < cap \<Longrightarrow> delivers cap (http_resolve cap s)"
  unfolding http_resolve_def split_def by (intro delivers_rules delivers_connect)

lemma delivers_get_range: "0 < cap \<Longrightarrow> delivers cap (k64_net_http_get_range_raw host path port a b cap s)"
  unfolding k64_net_http_get_range_raw_def Let_def by (intro delivers_rules delivers_resolve delivers_deliver)

lemma retry_delivers:
  assumes "\<And>s. delivers cap (request s)" and "retry n poll request good none s = (Ok (ok, r), t)"
    and "r_size none \<le> cap \<longrightarrow> length (r_out none) = r_size none"
  shows "(r_size r \<le> cap \<longrightarrow> length (r_out r) = r_size r) \<and> (ok \<longrightarrow> good r)"
  using assms(2,3)
proof (induction n arbitrary: none s)
  case (Suc n)
  obtain x u where x: "request s = (Ok x, u)" using Suc.prems(1) by (auto simp: bind_Ok_eq)
  then have d: "r_size x \<le> cap \<longrightarrow> length (r_out x) = r_size x" using assms(1) [of s] by (simp add: delivers_def)
  show ?case
  proof (cases "good x")
    case True
    then show ?thesis using Suc.prems(1) d x by (simp add: bind_run)
  next
    case False
    then have "retry n poll request good x (poll u) = (Ok (ok, r), t)" using Suc.prems(1) x by (simp add: bind_run)
    then show ?thesis using Suc.IH d by blast
  qed
qed simp

lemma on_knet_Ok: "on_knet m s = (Ok r, t) \<longleftrightarrow> (\<exists>n. m (k_net s) = (Ok r, n) \<and> t = s\<lparr>k_net := n\<rparr>)"
  by (auto simp: on_knet_def split: prod.splits)

lemma range_sizes_sum: "sum_list (range_sizes n) = n \<and> (\<forall>c\<in>set (range_sizes n). 0 < c \<and> c \<le> KPM_DOWNLOAD_CHUNK)"
proof (induction n rule: range_sizes.induct)
  case (1 n)
  show ?case
  proof (cases "n = 0")
    case True
    then show ?thesis by (simp add: range_sizes.simps)
  next
    case False
    define m where "m = min n KPM_DOWNLOAD_CHUNK"
    have m: "0 < m" "m \<le> KPM_DOWNLOAD_CHUNK" "m \<le> n" using False by (auto simp: m_def KPM_DOWNLOAD_CHUNK_def)
    have "range_sizes n = m # range_sizes (n - m)" using False by (subst range_sizes.simps) (simp add: m_def Let_def)
    then show ?thesis using "1.IH" [OF False m_def] m by simp
  qed
qed

lemma fetch_ranges_appends:
  assumes "fetch_ranges poll src path chunks got data s = (Ok d, t)" and "\<forall>c\<in>set chunks. 0 < c"
  shows "\<exists>e. d = data @ e \<and> length e = sum_list chunks"
  using assms
proof (induction chunks arbitrary: got data s)
  case (Cons c chunks)
  obtain ok r u where r: "on_knet (retry KPM_HTTP_TRIES poll (k64_net_http_get_range_raw (Some (u_host (ks_url src))) (Some path)
      (u_port (ks_url src)) (of_nat got) (of_nat (got + c - 1)) c) (\<lambda>r. r_ok r \<and> r_size r = c) no_result) s = (Ok (ok, r), u)"
    and rest: "(if ok then fetch_ranges poll src path chunks (got + c) (data @ r_out r) else download_failed ''range unavailable'' r) u = (Ok d, t)"
    using Cons.prems(1) by (auto simp: bind_Ok_eq)
  have ok: "ok" using rest by (auto simp: download_failed_def bind_def term_write_def split: if_splits)
  then have "length (r_out r) = c"
    using r Cons.prems(2) retry_delivers [OF delivers_get_range, of c] by (fastforce simp: on_knet_Ok no_result_def)
  then show ?case using Cons.IH [of "got + c" "data @ r_out r" u] rest ok Cons.prems(2) by auto
qed simp

lemma download_failed_not_Ok: "download_failed m r s \<noteq> (Ok d, t)"
  by (simp add: download_failed_def bind_def term_write_def)

lemma fetch_whole_complete:
  assumes "fetch_whole poll src path s = (Ok (True, r), t)"
  shows "length (r_out r) = package_total (r_out r) \<and> package_fits (r_out r)"
proof -
  have pos: "0 < kpm_pkg_buf_size" by (simp add: kpm_pkg_buf_size_def)
  have d: "(r_size r \<le> kpm_pkg_buf_size \<longrightarrow> length (r_out r) = r_size r) \<and> whole_package r"
    using assms retry_delivers [OF delivers_get_range [OF pos]]
    unfolding fetch_whole_def k64_net_http_get_raw_def on_knet_Ok by (fastforce simp: no_result_def)
  then have "r_size r \<le> kpm_pkg_buf_size"
    by (auto simp: whole_package_def package_fits_def package_total_def kpm_pkg_buf_size_def kpm_header_size_def)
  then show ?thesis using d by (auto simp: whole_package_def)
qed

lemma fetch_header_complete:
  assumes "fetch_header poll src path s = (Ok (x, r), t)" and "r_size r = kpm_header_size"
  shows "length (r_out r) = kpm_header_size"
proof -
  have pos: "0 < kpm_header_size" by (simp add: kpm_header_size_def)
  show ?thesis using assms retry_delivers [OF delivers_get_range [OF pos]]
    unfolding fetch_header_def on_knet_Ok by (fastforce simp: no_result_def)
qed

lemma fetch_in_ranges_complete:
  assumes "fetch_in_ranges poll src path s = (Ok data, t)"
  shows "length data = package_total data \<and> package_fits data"
proof -
  obtain x r u where hdr: "fetch_header poll src path s = (Ok (x, r), u)" and r: "r_size r = kpm_header_size" "package_fits (r_out r)"
    and got: "fetch_ranges poll src path (range_sizes (package_total (r_out r) - kpm_header_size)) kpm_header_size (r_out r) u = (Ok data, t)"
    using assms unfolding fetch_in_ranges_def by (auto simp: bind_Ok_eq download_failed_not_Ok split: if_split_asm)
  have "length (r_out r) = kpm_header_size" by (rule fetch_header_complete [OF hdr r(1)])
  moreover obtain e where "data = r_out r @ e" "length e = package_total (r_out r) - kpm_header_size"
    using fetch_ranges_appends [OF got] range_sizes_sum by metis
  ultimately show ?thesis using r(2) by (simp add: package_total_def package_fits_def dec_header_append)
qed

text \<open>C24: A download that succeeds is complete: there are exactly as many bytes as the header asks for, whether they
  came in one piece or in ranges; they fit the package buffer, and the size test of the validation holds.\<close>

theorem package_download_complete:
  assumes "kpm_fetch_package poll src package version s = (Ok data, t)"
  shows "length data = package_total data \<and> package_fits data \<and> kpm_header_size \<le> length data \<and> length data \<le> kpm_pkg_buf_size \<and>
    pk_payload_size (dec_package_header data) = of_nat (length data) - of_nat kpm_header_size"
proof -
  have main: "length data = package_total data \<and> package_fits data"
    using assms fetch_whole_complete fetch_in_ranges_complete unfolding kpm_fetch_package_def Let_def
    by (fastforce simp: bind_Ok_eq split: if_split_asm)
  then have n: "length data - kpm_header_size = unat (pk_payload_size (dec_package_header data))" "kpm_header_size \<le> length data"
    by (simp_all add: package_total_def)
  have "of_nat (length data) - of_nat kpm_header_size = (of_nat (length data - kpm_header_size) :: u64)"
    using n(2) by (simp add: of_nat_diff)
  then have "pk_payload_size (dec_package_header data) = of_nat (length data) - of_nat kpm_header_size" unfolding n(1) by simp
  moreover have "length data \<le> kpm_pkg_buf_size" using main by (simp add: package_total_def package_fits_def kpm_pkg_buf_size_def kpm_header_size_def)
  ultimately show ?thesis using main n(2) by blast
qed

definition demo_client :: http_client where
  "demo_client = zero_http\<lparr>h_state := HTTP_DONE, h_host := ''k'', h_path := ''/r/hello/1.0/package.kpg'', h_port := 80,
     h_response := map char_byte ''HTTP/1.0 200 OK'' @ [13, 10, 13, 10] @ demo_package\<rparr>"

definition demo_source :: kpm_source where
  "demo_source = \<lparr>ks_name = ''main'', ks_baseurl = ''http://k/r'',
     ks_url = \<lparr>u_scheme = ''http'', u_host = ''k'', u_port = 80, u_base_path = ''/r''\<rparr>\<rparr>"

lemma demo_download:
  assumes "http (k_net s) = demo_client"
  shows "kpm_fetch_package poll demo_source ''hello'' ''1.0'' s = (Ok demo_package, s)"
proof -
  have path: "kpm_join_path 224 ''/r'' (kpm_append_all 192 [''hello'', ''/'', ''1.0'', ''/package.kpg''] []) = ''/r/hello/1.0/package.kpg''"
    by code_simp
  have same: "http_same ''k'' ''/r/hello/1.0/package.kpg'' 80 False 0 0 demo_client" by code_simp
  have body: "http_find_body (h_response demo_client) = Some \<lparr>hd_size = 19, hd_status = 200, hd_length = None\<rparr>" by code_simp
  have resp: "drop 19 (h_response demo_client) = demo_package" "length (h_response demo_client) = 268" 
    "h_state demo_client = HTTP_DONE" "\<not> h_use_range demo_client"
    by code_simp+
  let ?r = "\<lparr>r_ok = True, r_size = 249, r_state = ''done'', r_out = demo_package\<rparr>"
  have get: "k64_net_http_get_raw (Some ''k'') (Some ''/r/hello/1.0/package.kpg'') 80 kpm_pkg_buf_size n = (Ok ?r, n)"
    if "http n = demo_client" for n :: "'a net"
    using that same body resp demo_fields(3)
    by (simp add: k64_net_http_get_raw_def k64_net_http_get_range_raw_def http_deliver_def kpm_pkg_buf_size_def)
  have "whole_package ?r"
    using demo_fields by (simp add: whole_package_def package_fits_def package_total_def kpm_header_size_def kpm_pkg_buf_size_def)
  then have "fetch_whole poll demo_source ''/r/hello/1.0/package.kpg'' s = (Ok (True, ?r), s)"
    using get [OF assms] by (simp add: fetch_whole_def on_knet_def demo_source_def KPM_HTTP_TRIES_def bind_run numeral_eq_Suc)
  then show ?thesis using path by (simp add: kpm_fetch_package_def bind_run demo_source_def Let_def)
qed

theorem package_download_complete_witness:
  "length demo_package = package_total demo_package \<and> package_fits demo_package"
proof -
  have "\<exists>s :: (unit, unit) kpm. http (k_net s) = demo_client"
    by (rule exI [of _ "undefined\<lparr>k_net := undefined\<lparr>http := demo_client\<rparr>\<rparr>"]) simp
  then obtain s :: "(unit, unit) kpm" where "http (k_net s) = demo_client" by blast
  from package_download_complete [OF demo_download [OF this, of id]] show ?thesis by blast
qed

section \<open>The fuel of the version listing\<close>

text \<open>Every step of the listing consumes a character, so the length of the text is enough fuel.\<close>

lemma version_lines_fuel: "length p \<le> n \<Longrightarrow> length p \<le> m \<Longrightarrow> version_lines n latest p = version_lines m latest p"
proof (induction n arbitrary: m p)
  case 0
  then show ?case by (cases m) auto
next
  case (Suc n)
  show ?case
  proof (cases "m = 0 \<or> p = []")
    case True
    then show ?thesis using Suc.prems by (cases m) auto
  next
    case False
    then obtain k c q where "m = Suc k" "p = c # q" by (cases m; cases p) auto
    then show ?thesis
      using Suc.IH [of q k] Suc.IH [of "tl (drop (length (take 31 (takeWhile (\<lambda>c. c \<noteq> quote_char) q))) q)" k] Suc.prems
      by (simp add: Let_def)
  qed
qed

end
