(* ===== verification/User.thy ===== *)
theory User
  imports Fs
begin

text \<open>
  Accounts, groups and permissions, \<^verbatim>\<open>src/k64_user.c\<close>: the tables and their two files, login and sudo, the
  commands of the service and the access decisions that other parts ask for.

  The arrays of accounts and groups are lists of the entries in use: an entry is written as a whole when the
  count grows, so what lies behind the count is never read. \<^verbatim>\<open>current_index\<close> stays an integer, since it is
  kept when accounts move. The state also holds the file system and the text on the terminal. Registration
  of the commands with the service manager is left out.
\<close>

section \<open>State\<close>

definition K64_USER_MAX_ACCOUNTS :: nat where "K64_USER_MAX_ACCOUNTS = 8"
definition K64_USER_NAME_MAX :: nat where "K64_USER_NAME_MAX = 16"
definition K64_USER_PASS_MAX :: nat where "K64_USER_PASS_MAX = 40"
definition K64_GROUP_MAX :: nat where "K64_GROUP_MAX = 16"
definition K64_GROUP_NAME_MAX :: nat where "K64_GROUP_NAME_MAX = 16"
definition K64_USER_DB_PATH :: string where "K64_USER_DB_PATH = ''/etc/users.k64''"
definition K64_GROUP_DB_PATH :: string where "K64_GROUP_DB_PATH = ''/etc/groups.k64''"

record k64_user_account =
  a_name :: string
  a_password :: string
  a_primary_group :: string
  a_is_root :: bool
  a_sudoer :: bool

record k64_user_group =
  g_name :: string
  g_members :: "bool list"

record user_tables =
  accounts :: "k64_user_account list"
  groups :: "k64_user_group list"

record 'g user_state = user_tables +
  u_ready :: bool
  current_index :: int
  sudo_active :: bool
  u_fs :: "'g filesystem"
  u_term :: string

type_synonym ('g, 'a) userop = "('g user_state, 'a) op"

definition on_ufs :: "('g, 'a) fsop \<Rightarrow> ('g, 'a) userop" where
  "on_ufs m s = (case m (u_fs s) of (r, f) \<Rightarrow> (r, s\<lparr>u_fs := f\<rparr>))"

definition user_write :: "string \<Rightarrow> ('g, unit) userop" where
  "user_write t = modify (\<lambda>s. s\<lparr>u_term := u_term s @ t\<rparr>)"

definition user_print_line :: "string \<Rightarrow> ('g, unit) userop" where
  "user_print_line t = user_write (t @ newline)"

section \<open>Passwords and text\<close>

definition user_hash_is_encoded :: "string \<Rightarrow> bool" where
  "user_hash_is_encoded v \<longleftrightarrow> k64_strncmp v ''k64$'' 4 = 0"

definition hash_char :: "u64 \<Rightarrow> char \<Rightarrow> u64" where
  "hash_char hash c = (hash XOR of_nat (of_char c)) * 1099511628211"

definition user_hash :: "string \<Rightarrow> string \<Rightarrow> u64" where
  "user_hash user_name password =
     foldl hash_char (hash_char (foldl hash_char (foldl hash_char 1469598103934665603 ''K64:userctl:v1'') user_name) CHR '':'') password"

definition user_hash_password :: "string \<Rightarrow> string \<Rightarrow> nat \<Rightarrow> string" where
  "user_hash_password user_name password out_size =
     (let hash = user_hash user_name password;
          digits = map (\<lambda>i. ''0123456789abcdef'' ! unat (drop_bit (60 - 4 * i) hash AND 0xF)) [0..<16]
      in if out_size < 5 then [] else ''k64$'' @ take (out_size - 5) digits)"

definition user_store_password :: "nat \<Rightarrow> string \<Rightarrow> string \<Rightarrow> bool \<Rightarrow> string" where
  "user_store_password dst_size user_name password_value already_hashed =
     (if already_hashed \<and> user_hash_is_encoded password_value then str_copy [] dst_size (Some password_value)
      else user_hash_password user_name password_value dst_size)"

definition user_password_matches :: "k64_user_account \<Rightarrow> string \<Rightarrow> bool" where
  "user_password_matches account candidate =
     (if \<not> user_hash_is_encoded (a_password account) then k64_streq (Some (a_password account)) (Some candidate)
      else k64_streq (Some (a_password account)) (Some (user_hash_password (a_name account) candidate K64_USER_PASS_MAX)))"

definition user_copy :: "nat \<Rightarrow> string \<Rightarrow> string" where
  "user_copy dst_size src = str_copy [] dst_size (Some src)"

definition user_append :: "nat \<Rightarrow> string \<Rightarrow> string \<Rightarrow> string" where
  "user_append dst_size src dst = str_append dst dst_size (Some src)"

definition user_append_all :: "nat \<Rightarrow> string list \<Rightarrow> string \<Rightarrow> string" where
  "user_append_all dst_size srcs dst = fold (user_append dst_size) srcs dst"

definition user_ws :: "char \<Rightarrow> bool" where
  "user_ws c \<longleftrightarrow> c = CHR '' '' \<or> c = CHR 0x09"

definition user_skip_ws :: "string \<Rightarrow> string" where
  "user_skip_ws s = dropWhile user_ws s"

definition user_next_token :: "string \<Rightarrow> nat \<Rightarrow> string \<times> string" where
  "user_next_token s token_size =
     (let s = user_skip_ws s; token = take (token_size - 1) (takeWhile (\<lambda>c. \<not> user_ws c) s)
      in (token, user_skip_ws (drop (length token) s)))"

definition user_home_path :: "string \<Rightarrow> nat \<Rightarrow> string" where
  "user_home_path name out_size = user_append_all out_size [''/usr/'', name] []"

definition user_dir_exists :: "string \<Rightarrow> ('g, bool) userop" where
  "user_dir_exists path = bind (attempt (on_ufs (k64_fs_ls (Some path) 64))) (\<lambda>r. ret (r \<noteq> None))"

definition try_fs :: "('g, unit) fsop \<Rightarrow> ('g, unit) userop" where
  "try_fs m = bind (attempt (on_ufs m)) (\<lambda>_. ret ())"

definition user_ensure_dir :: "string \<Rightarrow> ('g, unit) userop" where
  "user_ensure_dir path = bind (user_dir_exists path) (\<lambda>there. if there then ret () else try_fs (k64_fs_mkdir (Some path)))"

section \<open>The tables\<close>

fun index_of :: "('a \<Rightarrow> bool) \<Rightarrow> 'a list \<Rightarrow> nat option" where
  "index_of P [] = None"
| "index_of P (x # xs) = (if P x then Some 0 else map_option Suc (index_of P xs))"

definition user_find :: "string \<Rightarrow> 'x user_tables_scheme \<Rightarrow> nat option" where
  "user_find name s = index_of (\<lambda>a. k64_streq (Some (a_name a)) (Some name)) (accounts s)"

definition group_find :: "string \<Rightarrow> 'x user_tables_scheme \<Rightarrow> nat option" where
  "group_find name s = index_of (\<lambda>g. k64_streq (Some (g_name g)) (Some name)) (groups s)"

definition group_add_internal :: "string \<Rightarrow> 'x user_tables_scheme \<Rightarrow> bool \<times> 'x user_tables_scheme" where
  "group_add_internal name s =
     (if name = [] then (False, s)
      else if group_find name s \<noteq> None then (True, s)
      else if length (groups s) \<ge> K64_GROUP_MAX then (False, s)
      else (True, s\<lparr>groups := groups s @
             [\<lparr>g_name = user_copy K64_GROUP_NAME_MAX name, g_members = replicate K64_USER_MAX_ACCOUNTS False\<rparr>]\<rparr>))"

definition group_set_membership :: "nat option \<Rightarrow> nat \<Rightarrow> bool \<Rightarrow> 'x user_tables_scheme \<Rightarrow> 'x user_tables_scheme" where
  "group_set_membership group_idx user_idx member s =
     (case group_idx of
        None \<Rightarrow> s
      | Some g \<Rightarrow>
          if g \<ge> length (groups s) \<or> user_idx \<ge> length (accounts s) then s
          else s\<lparr>groups := (groups s)[g := (groups s ! g)\<lparr>g_members := (g_members (groups s ! g))[user_idx := member]\<rparr>]\<rparr>)"

definition group_is_member :: "nat \<Rightarrow> nat \<Rightarrow> 'x user_tables_scheme \<Rightarrow> bool" where
  "group_is_member g u s \<longleftrightarrow> g < length (groups s) \<and> u < length (accounts s) \<and> g_members (groups s ! g) ! u"

definition user_add_to_group :: "string \<Rightarrow> string \<Rightarrow> 'x user_tables_scheme \<Rightarrow> bool \<times> 'x user_tables_scheme" where
  "user_add_to_group user_name group_name s =
     (case user_find user_name s of
        None \<Rightarrow> (False, s)
      | Some u \<Rightarrow>
          (case group_add_internal group_name s of (added, s) \<Rightarrow>
           if \<not> added then (False, s)
           else if group_find group_name s = None then (False, s)
           else (True, group_set_membership (group_find group_name s) u True s)))"

definition user_remove_from_group :: "string \<Rightarrow> string \<Rightarrow> 'x user_tables_scheme \<Rightarrow> bool \<times> 'x user_tables_scheme" where
  "user_remove_from_group user_name group_name s =
     (case (user_find user_name s, group_find group_name s) of
        (Some u, Some g) \<Rightarrow>
          if k64_streq (Some (a_primary_group (accounts s ! u))) (Some group_name) then (False, s)
          else (True, group_set_membership (Some g) u False s)
      | _ \<Rightarrow> (False, s))"

text \<open>The names with commas between them, appended one by one.\<close>

fun join_names :: "nat \<Rightarrow> string \<Rightarrow> string list \<Rightarrow> string \<Rightarrow> string" where
  "join_names out_size sep [] out = out"
| "join_names out_size sep [n] out = user_append out_size n out"
| "join_names out_size sep (n # ns) out = join_names out_size sep ns (user_append out_size sep (user_append out_size n out))"

definition user_collect_groups :: "nat \<Rightarrow> nat \<Rightarrow> 'x user_tables_scheme \<Rightarrow> string" where
  "user_collect_groups u out_size s =
     (if u \<ge> length (accounts s) then []
      else join_names out_size '','' (map (\<lambda>g. g_name (groups s ! g)) (filter (\<lambda>g. group_is_member g u s) [0..<length (groups s)])) [])"

definition group_member_names :: "k64_user_group \<Rightarrow> 'x user_tables_scheme \<Rightarrow> string list" where
  "group_member_names g s = map (\<lambda>j. a_name (accounts s ! j)) (filter (\<lambda>j. g_members g ! j) [0..<length (accounts s)])"

section \<open>Saving\<close>

definition account_fields :: "k64_user_account \<Rightarrow> string list" where
  "account_fields a = [a_name a, '':'', a_password a, '':'', if a_is_root a then ''root'' else ''user'', '':'',
     if a_sudoer a then ''1'' else ''0'', '':'', a_primary_group a, newline]"

definition print_users_db :: "k64_user_account list \<Rightarrow> string" where
  "print_users_db as = fold (\<lambda>a. user_append_all 1024 (account_fields a)) as []"

definition user_save_db :: "('g, unit) userop" where
  "user_save_db =
     bind (get (\<lambda>s. print_users_db (accounts s))) (\<lambda>buf.
     bind (try_fs (k64_fs_touch (Some K64_USER_DB_PATH))) (\<lambda>_.
     on_ufs (k64_fs_write_file (Some K64_USER_DB_PATH) (Some buf))))"

definition print_groups_db :: "'x user_tables_scheme \<Rightarrow> string" where
  "print_groups_db s =
     fold (\<lambda>g buf. user_append 1024 newline (join_names 1024 '','' (group_member_names g s) (user_append_all 1024 [g_name g, '':''] buf)))
       (groups s) []"

definition user_save_groups_db :: "('g, unit) userop" where
  "user_save_groups_db =
     bind (get print_groups_db) (\<lambda>buf.
     bind (try_fs (k64_fs_touch (Some K64_GROUP_DB_PATH))) (\<lambda>_.
     on_ufs (k64_fs_write_file (Some K64_GROUP_DB_PATH) (Some buf))))"

definition user_save_state :: "('g, unit) userop" where
  "user_save_state = bind user_save_db (\<lambda>_. user_save_groups_db)"

section \<open>Accounts\<close>

definition user_reset_state :: "'g user_state \<Rightarrow> 'g user_state" where
  "user_reset_state s = s\<lparr>accounts := [], groups := [], current_index := -1, sudo_active := False\<rparr>"

definition user_add_account :: "string \<Rightarrow> string \<Rightarrow> bool \<Rightarrow> bool \<Rightarrow> string \<Rightarrow> bool \<Rightarrow> 'x user_tables_scheme \<Rightarrow> bool \<times> 'x user_tables_scheme" where
  "user_add_account name password is_root sudoer primary_group password_is_hashed s =
     (if name = [] \<or> password = [] then (False, s)
      else
        case (if primary_group \<noteq> [] then group_add_internal primary_group s else (True, s)) of (added, s) \<Rightarrow>
        if \<not> added then (False, s)
        else
          let stored = user_store_password K64_USER_PASS_MAX name password password_is_hashed;
              primary = user_copy K64_GROUP_NAME_MAX (if primary_group \<noteq> [] then primary_group else name) in
          case user_find name s of
            Some idx \<Rightarrow> (True, s\<lparr>accounts := (accounts s)[idx := (accounts s ! idx)\<lparr>a_password := stored,
                a_is_root := is_root, a_sudoer := sudoer \<or> is_root, a_primary_group := primary\<rparr>]\<rparr>)
          | None \<Rightarrow>
              if length (accounts s) \<ge> K64_USER_MAX_ACCOUNTS then (False, s)
              else (True, s\<lparr>accounts := accounts s @ [\<lparr>a_name = user_copy K64_USER_NAME_MAX name, a_password = stored,
                     a_primary_group = primary, a_is_root = is_root, a_sudoer = sudoer \<or> is_root\<rparr>]\<rparr>))"

definition sync_roles :: "nat option \<Rightarrow> nat option \<Rightarrow> nat \<Rightarrow> 'x user_tables_scheme \<Rightarrow> 'x user_tables_scheme" where
  "sync_roles root_group sudo_group i s =
     (let a = accounts s ! i in
      group_set_membership sudo_group i (a_sudoer a \<or> a_is_root a) (group_set_membership root_group i (a_is_root a) s))"

definition user_sync_role_groups :: "'x user_tables_scheme \<Rightarrow> 'x user_tables_scheme" where
  "user_sync_role_groups s =
     (let s = snd (group_add_internal ''root'' s);
          s = snd (group_add_internal ''sudo'' s)
      in fold (sync_roles (group_find ''root'' s) (group_find ''sudo'' s)) [0..<length (accounts s)] s)"

definition ensure_primary :: "nat \<Rightarrow> 'x user_tables_scheme \<Rightarrow> 'x user_tables_scheme" where
  "ensure_primary i s =
     (let a = accounts s ! i;
          s = (if a_primary_group a = []
               then s\<lparr>accounts := (accounts s)[i := a\<lparr>a_primary_group := user_copy K64_GROUP_NAME_MAX (a_name a)\<rparr>]\<rparr> else s);
          primary = a_primary_group (accounts s ! i);
          s = snd (group_add_internal primary s)
      in group_set_membership (group_find primary s) i True s)"

definition user_ensure_primary_groups :: "'x user_tables_scheme \<Rightarrow> 'x user_tables_scheme" where
  "user_ensure_primary_groups s = fold ensure_primary [0..<length (accounts s)] s"

definition user_seed_defaults :: "'g user_state \<Rightarrow> 'g user_state" where
  "user_seed_defaults s =
     (let s = user_reset_state s;
          s = snd (group_add_internal ''root'' s);
          s = snd (group_add_internal ''sudo'' s);
          s = snd (user_add_account ''root'' ''root'' True True ''root'' False s);
          s = snd (user_add_account ''guest'' ''guest'' False True ''guest'' False s)
      in (user_sync_role_groups (user_ensure_primary_groups s))\<lparr>current_index := -1, sudo_active := False\<rparr>)"

section \<open>Loading\<close>

text \<open>A line of at most 159 characters and what follows it; a longer line is continued as the next one.\<close>

definition db_line :: "string \<Rightarrow> string \<times> string" where
  "db_line p =
     (let line = take 159 (takeWhile (\<lambda>c. c \<noteq> CHR 0x0A) p); rest = drop (length line) p
      in (line, if rest \<noteq> [] \<and> hd rest = CHR 0x0A then tl rest else rest))"

lemma db_line_shorter:
  assumes "p \<noteq> []"
  shows "length (snd (db_line p)) < length p"
proof (cases p)
  case (Cons c cs)
  show ?thesis
  proof (cases "c = CHR 0x0A")
    case True
    then show ?thesis using Cons by (simp add: db_line_def)
  next
    case False
    then have "0 < length (take 159 (takeWhile (\<lambda>c. c \<noteq> CHR 0x0A) p))" using Cons by simp
    then show ?thesis using Cons by (auto simp: db_line_def Let_def)
  qed
qed (use assms in simp)

function db_lines :: "string \<Rightarrow> string list" where
  "db_lines p = (if p = [] then [] else fst (db_line p) # db_lines (snd (db_line p)))"
  by pat_completeness auto
termination
  by (relation "measure length") (auto simp: db_line_shorter)

declare db_lines.simps [simp del]

fun split_colon :: "string \<Rightarrow> string list" where
  "split_colon [] = [[]]"
| "split_colon (c # cs) =
     (if c = CHR '':'' then [] # split_colon cs
      else case split_colon cs of f # fs \<Rightarrow> (c # f) # fs | [] \<Rightarrow> [[c]])"

text \<open>Field \<open>i\<close> of a line: five fields of 31 characters, empty when missing.\<close>

definition db_field :: "string \<Rightarrow> nat \<Rightarrow> string" where
  "db_field line i = (let fs = split_colon line in if i < length fs \<and> i < 5 then take 31 (fs ! i) else [])"

definition load_account :: "string \<Rightarrow> 'x user_tables_scheme \<Rightarrow> 'x user_tables_scheme" where
  "load_account line s =
     (if line = [] \<or> db_field line 0 = [] \<or> db_field line 1 = [] then s
      else snd (user_add_account (db_field line 0) (db_field line 1) (k64_streq (Some (db_field line 2)) (Some ''root''))
             (db_field line 3 \<noteq> [] \<and> hd (db_field line 3) = CHR ''1'')
             (if db_field line 4 \<noteq> [] then db_field line 4 else db_field line 0)
             (user_hash_is_encoded (db_field line 1)) s))"

definition user_load_db :: "('g, unit) userop" where
  "user_load_db =
     bind (attempt (on_ufs (k64_fs_cat (Some K64_USER_DB_PATH) 1024))) (\<lambda>buf.
     let text = (case buf of None \<Rightarrow> [] | Some b \<Rightarrow> array_str b) in
     if text = [] then bind (modify user_seed_defaults) (\<lambda>_. user_save_state)
     else
       bind (modify (\<lambda>s. fold load_account (db_lines text) (user_reset_state s))) (\<lambda>_.
       bind (get accounts) (\<lambda>as.
       if as = [] then bind (modify user_seed_defaults) (\<lambda>_. user_save_state) else ret ())))"

function load_members :: "string \<Rightarrow> string \<Rightarrow> 'x user_tables_scheme \<Rightarrow> 'x user_tables_scheme" where
  "load_members group_name mp s =
     (if mp = [] then s
      else
        let mp' = dropWhile (\<lambda>c. c = CHR '','' \<or> c = CHR '' '') mp;
            user_name = take 15 (takeWhile (\<lambda>c. c \<noteq> CHR '','') mp');
            rest = dropWhile (\<lambda>c. c \<noteq> CHR '','') mp'
        in load_members group_name (if rest \<noteq> [] then tl rest else rest)
             (case user_find user_name s of
                None \<Rightarrow> s
              | Some u \<Rightarrow> group_set_membership (group_find group_name s) u True s))"
  by pat_completeness auto
termination
proof (relation "measure (\<lambda>(g, mp, s). length mp)")
  fix g mp s mp' n rest
  assume "mp \<noteq> []" and mp': "mp' = dropWhile (\<lambda>c. c = CHR '','' \<or> c = CHR '' '') (mp :: string)"
    and rest: "rest = dropWhile (\<lambda>c. c \<noteq> CHR '','') mp'"
  have "length mp' \<le> length mp" "length rest \<le> length mp'" unfolding mp' rest by (simp_all add: length_dropWhile_le)
  moreover have "length rest < length mp \<or> rest \<noteq> []" using \<open>mp \<noteq> []\<close> by auto
  ultimately have "length (if rest \<noteq> [] then tl rest else rest) < length mp" by (cases rest) auto
  then show "((g, if rest \<noteq> [] then tl rest else rest, case user_find n s of None \<Rightarrow> s
      | Some u \<Rightarrow> group_set_membership (group_find g s) u True s), g, mp, s) \<in> measure (\<lambda>(g, mp, s). length mp)"
    by simp
qed simp

declare load_members.simps [simp del]

text \<open>The line up to its first colon is the name, what follows the members.\<close>

definition load_group :: "string \<Rightarrow> 'x user_tables_scheme \<Rightarrow> 'x user_tables_scheme" where
  "load_group line s =
     (let group_name = user_copy K64_GROUP_NAME_MAX (takeWhile (\<lambda>c. c \<noteq> CHR '':'') line);
          members = user_copy 96 (tl (dropWhile (\<lambda>c. c \<noteq> CHR '':'') line)) in
      if group_name = [] then s
      else case group_add_internal group_name s of (added, s) \<Rightarrow>
        if added then load_members group_name members s else s)"

definition user_load_groups_db :: "('g, unit) userop" where
  "user_load_groups_db =
     bind (attempt (on_ufs (k64_fs_cat (Some K64_GROUP_DB_PATH) 1024))) (\<lambda>buf.
     let text = (case buf of None \<Rightarrow> [] | Some b \<Rightarrow> array_str b) in
     bind (modify (\<lambda>s. user_sync_role_groups (user_ensure_primary_groups (fold load_group (db_lines text) s)))) (\<lambda>_.
     if text = [] then user_save_groups_db else ret ()))"

definition account_uid :: "k64_user_account \<Rightarrow> nat \<Rightarrow> u32" where
  "account_uid a i = (if a_is_root a then 0 else 1000 + of_nat i)"

definition home_gid :: "nat option \<Rightarrow> u32" where
  "home_gid g = (case g of None \<Rightarrow> 0 | Some 0 \<Rightarrow> 0 | Some i \<Rightarrow> 1000 + of_nat i)"

fun ensure_dirs :: "string list \<Rightarrow> ('g, unit) userop" where
  "ensure_dirs [] = ret ()"
| "ensure_dirs (d # ds) = bind (user_ensure_dir d) (\<lambda>_. ensure_dirs ds)"

fun ensure_homes :: "nat list \<Rightarrow> ('g, unit) userop" where
  "ensure_homes [] = ret ()"
| "ensure_homes (i # js) =
     bind (get (\<lambda>s. (accounts s ! i, group_find (a_primary_group (accounts s ! i)) s))) (\<lambda>(a, g).
     let path = user_home_path (a_name a) 64 in
     bind (user_ensure_dir path) (\<lambda>_.
     bind (try_fs (k64_fs_chmod (Some path) 0x1E8)) (\<lambda>_.
     bind (try_fs (k64_fs_chown (Some path) (account_uid a i) (home_gid g))) (\<lambda>_.
     ensure_homes js))))"

definition user_ensure_layout :: "('g, unit) userop" where
  "user_ensure_layout =
     bind (ensure_dirs [''/bin'', ''/dev'', ''/etc'', ''/home'', ''/lib'', ''/mnt'', ''/proc'', ''/run'', ''/srv'', ''/tmp'', ''/usr'', ''/var'']) (\<lambda>_.
     bind (try_fs (k64_fs_chmod (Some ''/tmp'') 0x1FF)) (\<lambda>_.
     bind (try_fs (k64_fs_chmod (Some K64_USER_DB_PATH) 0x180)) (\<lambda>_.
     bind (try_fs (k64_fs_chown (Some K64_USER_DB_PATH) 0 0)) (\<lambda>_.
     bind (try_fs (k64_fs_chmod (Some K64_GROUP_DB_PATH) 0x1A4)) (\<lambda>_.
     bind (try_fs (k64_fs_chown (Some K64_GROUP_DB_PATH) 0 0)) (\<lambda>_.
     bind (get (\<lambda>s. [0..<length (accounts s)])) ensure_homes))))))"

section \<open>Who is asking\<close>

text \<open>The test that opens most functions: a valid index of the account that is logged in.\<close>

definition logged_in :: "'g user_state \<Rightarrow> nat option" where
  "logged_in s = (if 0 \<le> current_index s \<and> nat (current_index s) < length (accounts s) then Some (nat (current_index s)) else None)"

definition ready_user :: "'g user_state \<Rightarrow> nat option" where
  "ready_user s = (if u_ready s then logged_in s else None)"

definition k64_user_is_root :: "'g user_state \<Rightarrow> bool" where
  "k64_user_is_root s = (case ready_user s of None \<Rightarrow> False | Some i \<Rightarrow> a_is_root (accounts s ! i) \<or> sudo_active s)"

definition k64_user_is_logged_in :: "'g user_state \<Rightarrow> bool" where
  "k64_user_is_logged_in s \<longleftrightarrow> ready_user s \<noteq> None"

definition k64_user_can_sudo :: "'g user_state \<Rightarrow> bool" where
  "k64_user_can_sudo s = (case ready_user s of None \<Rightarrow> False | Some i \<Rightarrow> a_is_root (accounts s ! i) \<or> a_sudoer (accounts s ! i))"

definition k64_user_begin_sudo_scope :: "'g user_state \<Rightarrow> 'g user_state" where
  "k64_user_begin_sudo_scope s =
     (case ready_user s of
        None \<Rightarrow> s
      | Some i \<Rightarrow> if \<not> a_is_root (accounts s ! i) \<and> a_sudoer (accounts s ! i) then s\<lparr>sudo_active := True\<rparr> else s)"

definition k64_user_end_sudo_scope :: "'g user_state \<Rightarrow> 'g user_state" where
  "k64_user_end_sudo_scope s =
     (case ready_user s of
        None \<Rightarrow> s
      | Some i \<Rightarrow> if \<not> a_is_root (accounts s ! i) then s\<lparr>sudo_active := False\<rparr> else s)"

datatype k64_service_class = K64_SERVICE_CLASS_KERNEL | K64_SERVICE_CLASS_SYSTEM | K64_SERVICE_CLASS_ROOT | K64_SERVICE_CLASS_USER

text \<open>The service is given by its class, or is missing.\<close>

definition k64_user_can_manage_service :: "k64_service_class option \<Rightarrow> 'g user_state \<Rightarrow> bool" where
  "k64_user_can_manage_service service s =
     (case service of None \<Rightarrow> False | Some c \<Rightarrow> k64_user_is_root s \<or> c = K64_SERVICE_CLASS_USER)"

definition k64_user_can_manage_drivers :: "'g user_state \<Rightarrow> bool" where
  "k64_user_can_manage_drivers s = k64_user_is_root s"

definition k64_user_effective_name :: "'g user_state \<Rightarrow> string" where
  "k64_user_effective_name s =
     (case ready_user s of
        None \<Rightarrow> ''guest''
      | Some i \<Rightarrow> if k64_user_is_root s then ''root'' else a_name (accounts s ! i))"

definition k64_user_real_name :: "'g user_state \<Rightarrow> string" where
  "k64_user_real_name s = (case ready_user s of None \<Rightarrow> ''guest'' | Some i \<Rightarrow> a_name (accounts s ! i))"

definition k64_user_real_uid :: "'g user_state \<Rightarrow> u32" where
  "k64_user_real_uid s = (case ready_user s of None \<Rightarrow> 1000 | Some i \<Rightarrow> account_uid (accounts s ! i) i)"

definition k64_user_effective_uid :: "'g user_state \<Rightarrow> u32" where
  "k64_user_effective_uid s = (if k64_user_is_root s then 0 else k64_user_real_uid s)"

definition group_gid :: "nat option \<Rightarrow> u32" where
  "group_gid g = (case g of None \<Rightarrow> 1000 | Some i \<Rightarrow> 1000 + of_nat i)"

definition k64_user_effective_gid :: "'g user_state \<Rightarrow> u32" where
  "k64_user_effective_gid s =
     (if k64_user_is_root s then 0
      else case ready_user s of None \<Rightarrow> 1000 | Some i \<Rightarrow> group_gid (group_find (a_primary_group (accounts s ! i)) s))"

definition k64_user_name_to_uid :: "string \<Rightarrow> 'g user_state \<Rightarrow> u32 option" where
  "k64_user_name_to_uid name s = map_option (\<lambda>i. account_uid (accounts s ! i) i) (user_find name s)"

definition k64_user_group_to_gid :: "string \<Rightarrow> 'g user_state \<Rightarrow> u32 option" where
  "k64_user_group_to_gid name s =
     map_option (\<lambda>i. if k64_streq (Some name) (Some ''root'') then 0 else 1000 + of_nat i) (group_find name s)"

text \<open>The index computed from a group identifier is a signed 32-bit number; a negative one is no group.\<close>

definition k64_user_is_member_gid :: "u32 \<Rightarrow> 'g user_state \<Rightarrow> bool" where
  "k64_user_is_member_gid gid s =
     (case ready_user s of
        None \<Rightarrow> False
      | Some i \<Rightarrow>
          if k64_user_is_root s then True
          else if gid = 0 then (case group_find ''root'' s of None \<Rightarrow> False | Some g \<Rightarrow> group_is_member g i s)
          else if gid \<ge> 1000 then sint (gid - 1000) \<ge> 0 \<and> group_is_member (nat (sint (gid - 1000))) i s
          else False)"

definition access_bits :: "bool \<Rightarrow> bool \<Rightarrow> u32 \<Rightarrow> u32" where
  "access_bits owner in_group mode =
     (if owner then drop_bit 6 mode AND 7 else if in_group then drop_bit 3 mode AND 7 else mode AND 7)"

definition k64_user_can_access :: "u32 \<Rightarrow> u32 \<Rightarrow> u32 \<Rightarrow> u32 \<Rightarrow> 'g user_state \<Rightarrow> bool" where
  "k64_user_can_access owner_uid owner_gid mode wanted s =
     (if k64_user_is_root s then True
      else access_bits (k64_user_effective_uid s = owner_uid) (k64_user_is_member_gid owner_gid s) mode AND wanted = wanted)"

definition k64_user_can_access_uid :: "u32 \<Rightarrow> u32 \<Rightarrow> u32 \<Rightarrow> u32 \<Rightarrow> u32 \<Rightarrow> u32 \<Rightarrow> bool" where
  "k64_user_can_access_uid effective_uid effective_gid owner_uid owner_gid mode wanted =
     (if effective_uid = 0 then True
      else access_bits (effective_uid = owner_uid) (effective_gid = owner_gid) mode AND wanted = wanted)"

section \<open>Commands\<close>

definition user_require_login :: "('g, bool) userop" where
  "user_require_login s = (if logged_in s \<noteq> None then (Ok True, s) else bind (user_print_line ''login required'') (\<lambda>_. ret False) s)"

definition user_require_root :: "('g, bool) userop" where
  "user_require_root s =
     (if k64_user_is_root s then (Ok True, s)
      else bind (user_print_line ''permission denied: root privileges required'') (\<lambda>_. ret False) s)"

text \<open>\<open>as_root k\<close> is the early return at the start of a command for root.\<close>

definition as_root :: "('g, unit) userop \<Rightarrow> ('g, unit) userop" where
  "as_root k = bind user_require_root (\<lambda>ok. if ok then k else ret ())"

definition or_dash :: "string \<Rightarrow> string" where
  "or_dash t = (if t = [] then ''-'' else t)"

definition user_line :: "'g user_state \<Rightarrow> nat \<Rightarrow> string" where
  "user_line s i =
     (let a = accounts s ! i in
      a_name a @ ''  '' @ (if a_is_root a then ''root'' else ''user'') @ (if a_sudoer a \<and> \<not> a_is_root a then '' sudo'' else []) @
      '' primary='' @ a_primary_group a @ '' groups='' @ or_dash (user_collect_groups i 128 s) @
      (if int i = current_index s then (if sudo_active s then '' current(effective root)'' else '' current'') else []) @ newline)"

definition user_print_users :: "('g, unit) userop" where
  "user_print_users s = user_write (concat (map (user_line s) [0..<length (accounts s)])) s"

fun comma_list :: "string list \<Rightarrow> string" where
  "comma_list [] = []"
| "comma_list [n] = n"
| "comma_list (n # ns) = n @ '', '' @ comma_list ns"

definition user_print_groups :: "('g, unit) userop" where
  "user_print_groups s =
     user_write (concat (map (\<lambda>g. g_name g @ '': '' @
       (if group_member_names g s = [] then ''-'' else comma_list (group_member_names g s)) @ newline) (groups s))) s"

definition user_command_users :: "string \<Rightarrow> ('g, unit) userop" where
  "user_command_users args = user_print_users"

definition user_command_groups :: "string \<Rightarrow> ('g, unit) userop" where
  "user_command_groups args s =
     (case user_next_token args K64_USER_NAME_MAX of (name, _) \<Rightarrow>
      if name = [] then user_print_groups s
      else case user_find name s of
          None \<Rightarrow> user_print_line ''user not found'' s
        | Some i \<Rightarrow> user_write (name @ '': '' @ or_dash (user_collect_groups i 128 s) @ newline) s)"

definition user_command_whoami :: "string \<Rightarrow> ('g, unit) userop" where
  "user_command_whoami args s = user_print_line (k64_user_effective_name s) s"

definition user_command_id :: "string \<Rightarrow> ('g, unit) userop" where
  "user_command_id args =
     bind user_require_login (\<lambda>ok.
     if \<not> ok then ret ()
     else
       bind (get (\<lambda>s. let i = nat (current_index s); a = accounts s ! i in
         ''real='' @ a_name a @ '' effective='' @ k64_user_effective_name s @ '' primary='' @ a_primary_group a @
         '' groups='' @ or_dash (user_collect_groups i 128 s) @ '' home='' @ user_home_path (a_name a) 64 @ newline)) user_write)"

definition user_command_login_like :: "string \<Rightarrow> ('g, unit) userop" where
  "user_command_login_like args s =
     (case user_next_token args K64_USER_NAME_MAX of (name, args) \<Rightarrow>
      case user_next_token args K64_USER_PASS_MAX of (password, _) \<Rightarrow>
      if name = [] \<or> password = [] then user_print_line ''usage: login <user> <password>'' s
      else case user_find name s of
          None \<Rightarrow> user_print_line ''authentication failed'' s
        | Some i \<Rightarrow>
            if \<not> user_password_matches (accounts s ! i) password then user_print_line ''authentication failed'' s
            else user_write (''logged in as '' @ a_name (accounts s ! i) @ newline) (s\<lparr>current_index := int i, sudo_active := False\<rparr>))"

definition user_command_login :: "string \<Rightarrow> ('g, unit) userop" where
  "user_command_login args = user_command_login_like args"

definition user_command_su :: "string \<Rightarrow> ('g, unit) userop" where
  "user_command_su args = user_command_login_like args"

definition user_command_logout :: "string \<Rightarrow> ('g, unit) userop" where
  "user_command_logout args s = user_print_line ''logged out'' (s\<lparr>current_index := -1, sudo_active := False\<rparr>)"

definition user_command_sudo :: "string \<Rightarrow> ('g, unit) userop" where
  "user_command_sudo args =
     bind user_require_login (\<lambda>ok s.
     if \<not> ok then (Ok (), s)
     else
       case user_next_token args K64_USER_PASS_MAX of (action, _) \<Rightarrow>
       let a = accounts s ! nat (current_index s) in
       if action = [] \<or> k64_streq (Some action) (Some ''on'') then
         if k64_user_is_root s then user_print_line ''already root'' s
         else if \<not> a_sudoer a then user_print_line ''permission denied: account is not in sudo'' s
         else user_print_line ''sudo active'' (s\<lparr>sudo_active := True\<rparr>)
       else if k64_streq (Some action) (Some ''off'') then user_print_line ''sudo inactive'' (s\<lparr>sudo_active := False\<rparr>)
       else if \<not> a_sudoer a then user_print_line ''permission denied: account is not in sudo'' s
       else if \<not> user_password_matches a action then user_print_line ''authentication failed'' s
       else user_print_line ''sudo active'' (s\<lparr>sudo_active := True\<rparr>))"

definition try_user :: "('g, unit) userop \<Rightarrow> ('g, unit) userop" where
  "try_user m = bind (attempt m) (\<lambda>_. ret ())"

text \<open>Whether the caller may change the password of \<open>name\<close>; a caller who is not logged in is told so first.\<close>

definition passwd_allowed :: "string \<Rightarrow> ('g, bool) userop" where
  "passwd_allowed name s =
     (if k64_user_is_root s then (Ok True, s)
      else bind user_require_login (\<lambda>ok s.
        (Ok (ok \<and> k64_streq (Some (a_name (accounts s ! nat (current_index s)))) (Some name)), s)) s)"

definition user_command_passwd :: "string \<Rightarrow> ('g, unit) userop" where
  "user_command_passwd args s =
     (case user_next_token args K64_USER_NAME_MAX of (name, args) \<Rightarrow>
      case user_next_token args K64_USER_PASS_MAX of (password, _) \<Rightarrow>
      if name = [] \<or> password = [] then user_print_line ''usage: passwd <user> <new-password>'' s
      else case user_find name s of
          None \<Rightarrow> user_print_line ''user not found'' s
        | Some i \<Rightarrow>
            bind (passwd_allowed name) (\<lambda>ok.
            if \<not> ok then user_print_line ''permission denied''
            else
              bind (modify (\<lambda>s. s\<lparr>accounts := (accounts s)[i := (accounts s ! i)\<lparr>a_password :=
                user_store_password K64_USER_PASS_MAX (a_name (accounts s ! i)) password False\<rparr>]\<rparr>)) (\<lambda>_.
              bind (try_user user_save_db) (\<lambda>_.
              user_print_line ''password updated''))) s)"

text \<open>The home directory of an account that was just added.\<close>

definition make_home :: "string \<Rightarrow> ('g, unit) userop" where
  "make_home name =
     (let path = user_home_path name 64 in
      bind (user_ensure_dir path) (\<lambda>_.
      bind (get (\<lambda>s. map_option (\<lambda>i. (account_uid (accounts s ! i) i, home_gid (group_find (a_primary_group (accounts s ! i)) s)))
        (user_find name s))) (\<lambda>ids.
      case ids of
        None \<Rightarrow> ret ()
      | Some (uid, gid) \<Rightarrow>
          bind (try_fs (k64_fs_chmod (Some path) 0x1E8)) (\<lambda>_. try_fs (k64_fs_chown (Some path) uid gid)))))"

definition user_command_useradd :: "string \<Rightarrow> ('g, unit) userop" where
  "user_command_useradd args =
     as_root
       (case user_next_token args K64_USER_NAME_MAX of (name, args) \<Rightarrow>
        case user_next_token args K64_USER_PASS_MAX of (password, args) \<Rightarrow>
        case user_next_token args 8 of (role, args) \<Rightarrow>
        case user_next_token args K64_GROUP_NAME_MAX of (primary_group, _) \<Rightarrow>
        if name = [] \<or> password = [] then user_print_line ''usage: useradd <user> <password> [user|sudo|root] [primary-group]''
        else
          let is_root = k64_streq (Some role) (Some ''root'');
              sudoer = (is_root \<or> k64_streq (Some role) (Some ''sudo''));
              primary_group = (if primary_group = [] then user_copy K64_GROUP_NAME_MAX name else primary_group) in
          bind (\<lambda>s. case user_add_account name password is_root sudoer primary_group False s of (ok, s) \<Rightarrow> (Ok ok, s)) (\<lambda>ok.
          if \<not> ok then user_print_line ''useradd failed''
          else
            bind (modify (\<lambda>s. user_sync_role_groups (user_ensure_primary_groups s))) (\<lambda>_.
            bind (make_home name) (\<lambda>_.
            bind (try_user user_save_state) (\<lambda>_.
            user_print_line ''user added'')))))"

text \<open>An account leaves its table and its column of the groups; the index of the caller moves with the accounts.\<close>

definition remove_account :: "nat \<Rightarrow> 'g user_state \<Rightarrow> 'g user_state" where
  "remove_account idx s =
     (let s = s\<lparr>accounts := take idx (accounts s) @ drop (idx + 1) (accounts s),
            groups := map (\<lambda>g. g\<lparr>g_members := (let n = length (accounts s) - 1; m = g_members g in
               take idx m @ take (n - idx) (drop (idx + 1) m) @ False # drop (n + 1) m)\<rparr>) (groups s)\<rparr>
      in if current_index s = int idx then s\<lparr>current_index := -1, sudo_active := False\<rparr>
         else if current_index s > int idx then s\<lparr>current_index := current_index s - 1\<rparr>
         else s)"

definition delete_user :: "string \<Rightarrow> ('g, unit) userop" where
  "delete_user name s =
     (case user_find name s of
        None \<Rightarrow> user_print_line ''user not found'' s
      | Some idx \<Rightarrow>
          if a_is_root (accounts s ! idx) then user_print_line ''cannot delete root account'' s
          else bind (modify (remove_account idx)) (\<lambda>_. bind (try_user user_save_state) (\<lambda>_. user_print_line ''user deleted'')) s)"

definition user_command_userdel :: "string \<Rightarrow> ('g, unit) userop" where
  "user_command_userdel args =
     as_root
       (case user_next_token args K64_USER_NAME_MAX of (name, _) \<Rightarrow>
        if name = [] then user_print_line ''usage: userdel <user>'' else delete_user name)"

text \<open>A change of the tables that can fail, and what is printed then.\<close>

definition table_op :: "('g user_state \<Rightarrow> bool \<times> 'g user_state) \<Rightarrow> string \<Rightarrow> ('g, unit) userop \<Rightarrow> ('g, unit) userop" where
  "table_op f failure k s = (case f s of (ok, s) \<Rightarrow> if ok then k s else user_print_line failure s)"

definition save_groups_then :: "string \<Rightarrow> ('g, unit) userop" where
  "save_groups_then t = bind (try_user user_save_groups_db) (\<lambda>_. user_print_line t)"

definition user_command_groupadd :: "string \<Rightarrow> ('g, unit) userop" where
  "user_command_groupadd args =
     as_root
       (case user_next_token args K64_GROUP_NAME_MAX of (grp, _) \<Rightarrow>
        if grp = [] then user_print_line ''usage: groupadd <group>''
        else table_op (group_add_internal grp) ''groupadd failed'' (save_groups_then ''group added''))"

definition delete_group :: "string \<Rightarrow> ('g, unit) userop" where
  "delete_group grp s =
     (case group_find grp s of
        None \<Rightarrow> user_print_line ''group not found'' s
      | Some idx \<Rightarrow>
          if list_ex (\<lambda>a. k64_streq (Some (a_primary_group a)) (Some grp)) (accounts s)
          then user_print_line ''group is still a primary group'' s
          else save_groups_then ''group deleted'' (s\<lparr>groups := take idx (groups s) @ drop (idx + 1) (groups s)\<rparr>))"

definition user_command_groupdel :: "string \<Rightarrow> ('g, unit) userop" where
  "user_command_groupdel args =
     as_root
       (case user_next_token args K64_GROUP_NAME_MAX of (grp, _) \<Rightarrow>
        if grp = [] then user_print_line ''usage: groupdel <group>''
        else if k64_streq (Some grp) (Some ''root'') \<or> k64_streq (Some grp) (Some ''sudo'')
        then user_print_line ''cannot delete essential group''
        else delete_group grp)"

definition user_command_gpasswd :: "string \<Rightarrow> ('g, unit) userop" where
  "user_command_gpasswd args =
     as_root
       (case user_next_token args 8 of (action, args) \<Rightarrow>
        case user_next_token args K64_GROUP_NAME_MAX of (grp, args) \<Rightarrow>
        case user_next_token args K64_USER_NAME_MAX of (user_name, _) \<Rightarrow>
        if action = [] \<or> grp = [] \<or> user_name = [] then user_print_line ''usage: gpasswd <add|del> <group> <user>''
        else
          table_op (if k64_streq (Some action) (Some ''add'') then user_add_to_group user_name grp
                    else if k64_streq (Some action) (Some ''del'') then user_remove_from_group user_name grp
                    else (\<lambda>s. (False, s)))
            ''gpasswd failed'' (save_groups_then ''group membership updated''))"

definition set_role :: "nat \<Rightarrow> string \<Rightarrow> 'x user_tables_scheme \<Rightarrow> 'x user_tables_scheme" where
  "set_role idx role s =
     (let is_root = k64_streq (Some role) (Some ''root'') in
      s\<lparr>accounts := (accounts s)[idx := (accounts s ! idx)\<lparr>a_is_root := is_root, a_sudoer := is_root \<or> k64_streq (Some role) (Some ''sudo'')\<rparr>]\<rparr>)"

definition set_primary :: "nat \<Rightarrow> string \<Rightarrow> 'x user_tables_scheme \<Rightarrow> 'x user_tables_scheme" where
  "set_primary idx grp s =
     (let s = s\<lparr>accounts := (accounts s)[idx := (accounts s ! idx)\<lparr>a_primary_group := user_copy K64_GROUP_NAME_MAX grp\<rparr>]\<rparr>
      in group_set_membership (group_find grp s) idx True s)"

definition usermod_usage :: string where
  "usermod_usage = ''usage: usermod <role|primary|groupadd|groupdel> <user> <value>''"

definition modify_user :: "string \<Rightarrow> string \<Rightarrow> string \<Rightarrow> nat \<Rightarrow> ('g, unit) userop" where
  "modify_user action name val idx =
     (if k64_streq (Some action) (Some ''role'') then
        bind (modify (\<lambda>s. user_sync_role_groups (set_role idx val s))) (\<lambda>_.
        bind (try_user user_save_state) (\<lambda>_. user_print_line ''user role updated''))
      else if k64_streq (Some action) (Some ''primary'') then
        table_op (group_add_internal val) ''primary group update failed''
          (bind (modify (set_primary idx val)) (\<lambda>_.
           bind (try_user user_save_state) (\<lambda>_. user_print_line ''primary group updated'')))
      else if k64_streq (Some action) (Some ''groupadd'') then
        table_op (user_add_to_group name val) ''group membership update failed'' (save_groups_then ''group membership updated'')
      else if k64_streq (Some action) (Some ''groupdel'') then
        table_op (user_remove_from_group name val) ''group membership update failed'' (save_groups_then ''group membership updated'')
      else user_print_line usermod_usage)"

definition user_command_usermod :: "string \<Rightarrow> ('g, unit) userop" where
  "user_command_usermod args =
     as_root (\<lambda>s.
       case user_next_token args 16 of (action, args) \<Rightarrow>
       case user_next_token args K64_USER_NAME_MAX of (name, args) \<Rightarrow>
       case user_next_token args K64_GROUP_NAME_MAX of (val, _) \<Rightarrow>
       if action = [] \<or> name = [] \<or> val = [] then user_print_line usermod_usage s
       else case user_find name s of
           None \<Rightarrow> user_print_line ''user not found'' s
         | Some idx \<Rightarrow> modify_user action name val idx s)"

definition userctl_usage :: string where
  "userctl_usage = ''usage: userctl <users|groups|whoami|id|login|logout|su|sudo|passwd|useradd|userdel|usermod|groupadd|groupdel|gpasswd>''"

definition user_commands :: "(string \<times> (string \<Rightarrow> ('g, unit) userop)) list" where
  "user_commands = [(''users'', user_command_users), (''groups'', user_command_groups), (''whoami'', user_command_whoami),
     (''id'', user_command_id), (''login'', user_command_login), (''logout'', user_command_logout), (''su'', user_command_su),
     (''sudo'', user_command_sudo), (''passwd'', user_command_passwd), (''useradd'', user_command_useradd),
     (''userdel'', user_command_userdel), (''usermod'', user_command_usermod), (''groupadd'', user_command_groupadd),
     (''groupdel'', user_command_groupdel), (''gpasswd'', user_command_gpasswd)]"

definition user_command_userctl :: "string \<Rightarrow> ('g, unit) userop" where
  "user_command_userctl args =
     (case user_next_token args 16 of (subcmd, args) \<Rightarrow>
      if subcmd = [] then user_print_line userctl_usage
      else case find (\<lambda>(n, f). k64_streq (Some subcmd) (Some n)) user_commands of
          Some (_, f) \<Rightarrow> f args
        | None \<Rightarrow> user_print_line userctl_usage)"

section \<open>Service and setup\<close>

definition k64_user_service_start :: "('g, unit) userop" where
  "k64_user_service_start =
     bind (\<lambda>s. if \<not> k64_fs_driver_running (u_fs s) then (Ok (), user_seed_defaults s)
       else
         bind (user_ensure_dir ''/etc'') (\<lambda>_.
         bind (user_ensure_dir ''/usr'') (\<lambda>_.
         bind (attempt user_load_db) (\<lambda>loaded.
         bind (if loaded = None then bind (modify user_seed_defaults) (\<lambda>_. try_user user_save_state) else try_user user_load_groups_db) (\<lambda>_.
         user_ensure_layout)))) s) (\<lambda>_.
     bind (modify (\<lambda>s. s\<lparr>current_index := -1, sudo_active := False, u_ready := True\<rparr>)) (\<lambda>_.
     user_print_line ''[svc] userctl started''))"

definition k64_user_service_stop :: "('g, unit) userop" where
  "k64_user_service_stop = bind (modify (\<lambda>s. s\<lparr>u_ready := False\<rparr>)) (\<lambda>_. user_print_line ''[svc] userctl stopped'')"

definition own_home :: "string \<Rightarrow> ('g, unit) userop" where
  "own_home name =
     (let path = user_home_path name 64 in
      bind (get (\<lambda>s. map_option (\<lambda>i. (i, group_gid (group_find (a_primary_group (accounts s ! i)) s))) (user_find name s))) (\<lambda>ids.
      case ids of
        None \<Rightarrow> ret ()
      | Some (i, gid) \<Rightarrow>
          bind (try_fs (k64_fs_chown (Some path) (1000 + of_nat i) gid)) (\<lambda>_. try_fs (k64_fs_chmod (Some path) 0x1C0))))"

definition k64_user_create_account :: "string \<Rightarrow> string \<Rightarrow> bool \<Rightarrow> ('g, unit) userop" where
  "k64_user_create_account name password sudoer s =
     (if \<not> u_ready s \<or> name = [] \<or> password = [] then (Fail, s)
      else case user_add_account name password False sudoer (user_copy K64_GROUP_NAME_MAX name) False s of (ok, s) \<Rightarrow>
        if \<not> ok then (Fail, s)
        else
          bind (modify (\<lambda>s. user_sync_role_groups (user_ensure_primary_groups s))) (\<lambda>_.
          bind (own_home name) (\<lambda>_. user_save_state)) s)"

end
