(* ===== verification/User_Props.thy ===== *)
theory User_Props
  imports User
begin

text \<open>
  Properties of the accounts service: what a caller without root rights can change, the invariant of the
  tables, the round trip of the accounts file, and what happens to user identifiers when an account is
  deleted.
\<close>

section \<open>Operations that leave tables and session alone\<close>

definition same_session :: "'g user_state \<Rightarrow> 'g user_state \<Rightarrow> bool" where
  "same_session s t \<longleftrightarrow> accounts t = accounts s \<and> groups t = groups s \<and> u_ready t = u_ready s \<and>
     current_index t = current_index s \<and> sudo_active t = sudo_active s"

definition quiet :: "('g, 'a) userop \<Rightarrow> bool" where
  "quiet m \<longleftrightarrow> (\<forall>s. same_session s (snd (m s)))"

named_theorems quiet_rules

lemma same_session_refl [simp]: "same_session s s"
  by (simp add: same_session_def)

lemma same_session_trans: "same_session s t \<Longrightarrow> same_session t u \<Longrightarrow> same_session s u"
  by (simp add: same_session_def)

lemma quietD: "quiet m \<Longrightarrow> same_session s (snd (m s))"
  by (simp add: quiet_def)

lemma quiet_bind [quiet_rules]: "quiet m \<Longrightarrow> (\<And>a. quiet (f a)) \<Longrightarrow> quiet (bind m f)"
  unfolding quiet_def bind_def by (auto split: prod.splits res.splits) (metis same_session_trans snd_conv)+

lemma quiet_attempt [quiet_rules]: "quiet m \<Longrightarrow> quiet (attempt m)"
  unfolding quiet_def attempt_def by (auto split: prod.splits res.splits) (metis snd_conv)+

lemma quiet_basic [quiet_rules]: "quiet (ret a)" "quiet fail" "quiet (get f)"
  by (simp_all add: quiet_def)

lemma quiet_on_ufs [quiet_rules]: "quiet (on_ufs m)"
  by (auto simp: quiet_def on_ufs_def same_session_def split: prod.splits)

lemma quiet_write [quiet_rules]: "quiet (user_write t)"
  by (simp add: quiet_def user_write_def same_session_def)

lemma quiet_if [quiet_rules]: "quiet m \<Longrightarrow> quiet n \<Longrightarrow> quiet (if c then m else n)"
  by simp

lemma quiet_option [quiet_rules]: "quiet m \<Longrightarrow> (\<And>a. quiet (f a)) \<Longrightarrow> quiet (case x of None \<Rightarrow> m | Some a \<Rightarrow> f a)"
  by (cases x) simp_all

lemma quiet_prod [quiet_rules]: "(\<And>a b. quiet (f a b)) \<Longrightarrow> quiet (case x of (a, b) \<Rightarrow> f a b)"
  by (cases x) simp

lemma quiet_print [quiet_rules]: "quiet (user_print_line t)"
  unfolding user_print_line_def by (intro quiet_rules)

lemma quiet_try_fs [quiet_rules]: "quiet (try_fs m)"
  unfolding try_fs_def by (intro quiet_rules)

lemma quiet_ensure_dir [quiet_rules]: "quiet (user_ensure_dir path)"
  unfolding user_ensure_dir_def user_dir_exists_def by (intro quiet_rules)

lemma quiet_save [quiet_rules]: "quiet user_save_db" "quiet user_save_groups_db"
  unfolding user_save_db_def user_save_groups_db_def by (intro quiet_rules)+

lemma quiet_save_state [quiet_rules]: "quiet user_save_state"
  unfolding user_save_state_def by (intro quiet_rules)

lemma quiet_try_user [quiet_rules]: "quiet m \<Longrightarrow> quiet (try_user m)"
  unfolding try_user_def by (intro quiet_rules)

lemma quiet_save_groups_then [quiet_rules]: "quiet (save_groups_then t)"
  unfolding save_groups_then_def by (intro quiet_rules)

lemma quiet_make_home [quiet_rules]: "quiet (make_home name)"
  unfolding make_home_def Let_def by (intro quiet_rules)

lemma quiet_ensure_dirs [quiet_rules]: "quiet (ensure_dirs ds)"
  by (induction ds) (simp_all only: ensure_dirs.simps, (intro quiet_rules | assumption)+)

lemma quiet_ensure_homes [quiet_rules]: "quiet (ensure_homes js)"
  by (induction js) (simp_all only: ensure_homes.simps Let_def, (intro quiet_rules | assumption)+)

lemma quiet_layout [quiet_rules]: "quiet user_ensure_layout"
  unfolding user_ensure_layout_def by (intro quiet_rules)

section \<open>Callers without root rights\<close>

lemma same_session_login: "same_session s t \<Longrightarrow> logged_in t = logged_in s \<and> ready_user t = ready_user s \<and> k64_user_is_root t = k64_user_is_root s"
  by (simp add: same_session_def logged_in_def ready_user_def k64_user_is_root_def)

lemma as_root_denied: "\<not> k64_user_is_root s \<Longrightarrow> same_session s (snd (as_root k s))"
proof -
  assume n: "\<not> k64_user_is_root s"
  have "as_root k s = (Ok (), s\<lparr>u_term := u_term s @ ''permission denied: root privileges required'' @ newline\<rparr>)"
    using n by (simp add: as_root_def user_require_root_def bind_def user_print_line_def user_write_def)
  then show ?thesis by (simp add: same_session_def)
qed

text \<open>
  What a call can do for a caller who is not root. \<open>pw\<close> is the password given; the three cases are a session
  that stays as it is, a new password for an account of the caller's name, and a change of the session.
\<close>

definition unprivileged_change :: "string \<Rightarrow> 'g user_state \<Rightarrow> 'g user_state \<Rightarrow> bool" where
  "unprivileged_change pw s t \<longleftrightarrow> groups t = groups s \<and> u_ready t = u_ready s \<and>
     (accounts t = accounts s \<or>
      (\<exists>i j p. logged_in s = Some i \<and> j < length (accounts s) \<and> a_name (accounts s ! j) = a_name (accounts s ! i) \<and>
         accounts t = (accounts s)[j := (accounts s ! j)\<lparr>a_password := p\<rparr>])) \<and>
     (current_index t = current_index s \<or> current_index t = -1 \<or>
      (\<exists>j < length (accounts s). current_index t = int j \<and> user_password_matches (accounts s ! j) pw)) \<and>
     (sudo_active t \<longrightarrow> current_index t = current_index s \<and>
        (sudo_active s \<or> (\<exists>i. logged_in s = Some i \<and> a_sudoer (accounts s ! i))))"

lemma same_session_unprivileged: "same_session s t \<Longrightarrow> unprivileged_change pw s t"
  by (simp add: same_session_def unprivileged_change_def)

lemma index_of_Some: "index_of P xs = Some i \<Longrightarrow> i < length xs \<and> P (xs ! i)"
proof (induction xs arbitrary: i)
  case (Cons x xs)
  then show ?case by (cases "P x") auto
qed simp

lemma user_find_Some: "user_find name s = Some i \<Longrightarrow> i < length (accounts s) \<and> k64_streq (Some (a_name (accounts s ! i))) (Some name)"
  by (auto simp: user_find_def dest: index_of_Some)

lemma print_session: "same_session s (snd (user_print_line t s))" "same_session s (snd (user_write t s))"
  by (rule quietD, rule quiet_rules)+

lemma c_string_token: "c_string args \<Longrightarrow> user_next_token args n = (w, rest) \<Longrightarrow> c_string w \<and> c_string rest"
proof -
  assume a: "c_string args" and t: "user_next_token args n = (w, rest)"
  let ?s = "user_skip_ws args"
  have s: "set ?s \<subseteq> set args" "length ?s \<le> length args"
    by (auto simp: user_skip_ws_def length_dropWhile_le dest: set_dropWhileD)
  have w: "set w \<subseteq> set ?s" "length w \<le> length ?s"
    using t length_takeWhile_le [of "\<lambda>c. \<not> user_ws c" ?s]
    by (auto simp: user_next_token_def Let_def dest!: in_set_takeD set_takeWhileD)
  have "set rest \<subseteq> set ?s" "length rest \<le> length ?s"
    using t by (auto simp: user_next_token_def Let_def user_skip_ws_def dest!: set_dropWhileD in_set_dropD intro: le_trans [OF length_dropWhile_le])
  with s w a show ?thesis by (auto simp: c_string_def)
qed

lemma login_unprivileged:
  "unprivileged_change (fst (user_next_token (snd (user_next_token args K64_USER_NAME_MAX)) K64_USER_PASS_MAX)) s
     (snd (user_command_login_like args s))"
proof -
  obtain name r where n: "user_next_token args K64_USER_NAME_MAX = (name, r)" by fastforce
  obtain pw r' where p: "user_next_token r K64_USER_PASS_MAX = (pw, r')" by fastforce
  show ?thesis
  proof (cases "name = [] \<or> pw = []")
    case True
    then show ?thesis using n p by (auto simp: user_command_login_like_def intro!: same_session_unprivileged print_session)
  next
    case False
    show ?thesis
    proof (cases "user_find name s")
      case None
      then show ?thesis using n p False by (auto simp: user_command_login_like_def intro!: same_session_unprivileged print_session)
    next
      case (Some i)
      show ?thesis
      proof (cases "user_password_matches (accounts s ! i) pw")
        case True
        then show ?thesis using n p False Some user_find_Some [OF Some]
          by (auto simp: user_command_login_like_def unprivileged_change_def user_write_def)
      next
        case no: False
        then show ?thesis using n p False Some by (auto simp: user_command_login_like_def intro!: same_session_unprivileged print_session)
      qed
    qed
  qed
qed

lemma sudo_unprivileged: "unprivileged_change pw s (snd (user_command_sudo args s))"
proof (cases "logged_in s")
  case None
  then have "same_session s (snd (user_command_sudo args s))"
    by (simp add: user_command_sudo_def user_require_login_def bind_def user_print_line_def user_write_def same_session_def)
  then show ?thesis by (rule same_session_unprivileged)
next
  case (Some i)
  then have i: "nat (current_index s) = i" by (auto simp: logged_in_def split: if_splits)
  obtain action r where a: "user_next_token args K64_USER_PASS_MAX = (action, r)" by fastforce
  show ?thesis
    using Some i a
    by (auto simp: user_command_sudo_def user_require_login_def bind_def unprivileged_change_def user_print_line_def user_write_def Let_def)
qed

lemma passwd_unprivileged:
  fixes s :: "'g user_state"
  assumes "\<not> k64_user_is_root s" and "\<forall>a\<in>set (accounts s). c_string (a_name a)" and "c_string args"
  shows "unprivileged_change pw s (snd (user_command_passwd args s))"
proof -
  obtain name r where n: "user_next_token args K64_USER_NAME_MAX = (name, r)" by fastforce
  obtain password r' where p: "user_next_token r K64_USER_PASS_MAX = (password, r')" by fastforce
  have cs: "c_string name" using c_string_token [OF assms(3) n] by blast
  show ?thesis
  proof (cases "name = [] \<or> password = [] \<or> user_find name s = None")
    case True
    then show ?thesis using n p by (auto simp: user_command_passwd_def intro!: same_session_unprivileged print_session)
  next
    case False
    then obtain j where j: "user_find name s = Some j" by blast
    define upd where "upd = (\<lambda>s. s\<lparr>accounts := (accounts s)[j := (accounts s ! j)\<lparr>a_password :=
        user_store_password K64_USER_PASS_MAX (a_name (accounts s ! j)) password False\<rparr>]\<rparr> :: 'g user_state)"
    let ?save = "bind (try_user user_save_db) (\<lambda>_. user_print_line ''password updated'')"
    have cmd: "user_command_passwd args s = bind (passwd_allowed name) (\<lambda>ok. if \<not> ok then user_print_line ''permission denied''
        else bind (modify upd) (\<lambda>_. ?save)) s"
      unfolding upd_def using n p False j by (simp add: user_command_passwd_def)
    show ?thesis
    proof (cases "\<exists>i. logged_in s = Some i \<and> k64_streq (Some (a_name (accounts s ! i))) (Some name)")
      case True
      then obtain i where i: "logged_in s = Some i" "k64_streq (Some (a_name (accounts s ! i))) (Some name)" by blast
      then have ci: "nat (current_index s) = i" "i < length (accounts s)" by (auto simp: logged_in_def split: if_splits)
      have "passwd_allowed name s = (Ok True, s)" using assms(1) i ci by (simp add: passwd_allowed_def user_require_login_def bind_def)
      then have run: "user_command_passwd args s = ?save (upd s)" unfolding cmd by (simp add: bind_run)
      have "quiet ?save" by (intro quiet_rules)
      then have "same_session (upd s) (snd (?save (upd s)))" by (rule quietD)
      moreover have "a_name (accounts s ! j) = a_name (accounts s ! i)"
        using user_find_Some [OF j] i(2) assms(2) ci(2) cs by (auto simp: k64_streq_Some)
      ultimately show ?thesis using i(1) user_find_Some [OF j] unfolding run
        by (auto simp: unprivileged_change_def same_session_def upd_def)
    next
      case no: False
      have "same_session s (snd (user_command_passwd args s))"
        using no assms(1) unfolding cmd passwd_allowed_def user_require_login_def
        by (auto simp: bind_def logged_in_def user_print_line_def user_write_def same_session_def split: if_splits)
      then show ?thesis by (rule same_session_unprivileged)
    qed
  qed
qed

definition login_password :: "string \<Rightarrow> string" where
  "login_password args = fst (user_next_token (snd (user_next_token args K64_USER_NAME_MAX)) K64_USER_PASS_MAX)"

lemma read_only_commands:
  "same_session s (snd (user_command_users args s))" "same_session s (snd (user_command_groups args s))"
  "same_session s (snd (user_command_whoami args s))" "same_session s (snd (user_command_id args s))"
proof -
  show "same_session s (snd (user_command_users args s))"
    unfolding user_command_users_def user_print_users_def by (rule print_session)
  obtain n r where t: "user_next_token args K64_USER_NAME_MAX = (n, r)" by fastforce
  show "same_session s (snd (user_command_groups args s))"
    unfolding user_command_groups_def t user_print_groups_def by (cases "user_find n s") (auto intro: print_session)
  show "same_session s (snd (user_command_whoami args s))" unfolding user_command_whoami_def by (rule print_session)
  show "same_session s (snd (user_command_id args s))"
    unfolding user_command_id_def user_require_login_def
    by (auto simp: bind_def user_print_line_def user_write_def same_session_def split: if_splits)
qed

lemma root_commands_denied:
  assumes "\<not> k64_user_is_root s"
  shows "same_session s (snd (user_command_useradd args s))" "same_session s (snd (user_command_userdel args s))"
    "same_session s (snd (user_command_usermod args s))" "same_session s (snd (user_command_groupadd args s))"
    "same_session s (snd (user_command_groupdel args s))" "same_session s (snd (user_command_gpasswd args s))"
  unfolding user_command_useradd_def user_command_userdel_def user_command_usermod_def user_command_groupadd_def
    user_command_groupdel_def user_command_gpasswd_def
  by (rule as_root_denied [OF assms])+

lemma logout_unprivileged: "unprivileged_change pw s (snd (user_command_logout args s))"
  by (simp add: user_command_logout_def user_print_line_def user_write_def unprivileged_change_def)

lemma command_unprivileged:
  assumes "\<not> k64_user_is_root s" and "\<forall>a\<in>set (accounts s). c_string (a_name a)" and "c_string args"
    and "(n, f) \<in> set user_commands"
  shows "unprivileged_change (login_password args) s (snd (f args s))"
proof -
  note quiet_cmds = read_only_commands [THEN same_session_unprivileged] root_commands_denied [OF assms(1), THEN same_session_unprivileged]
  have "unprivileged_change (login_password args) s (snd (user_command_login args s))"
    "unprivileged_change (login_password args) s (snd (user_command_su args s))"
    unfolding login_password_def user_command_login_def user_command_su_def by (rule login_unprivileged)+
  note cmds = quiet_cmds this sudo_unprivileged logout_unprivileged passwd_unprivileged [OF assms(1-3)]
  have "list_all (\<lambda>(n, f). unprivileged_change (login_password args) s (snd (f args s))) user_commands"
    unfolding user_commands_def list.pred_inject prod.case by (intro conjI TrueI cmds list.pred_inject(1))
  then show ?thesis using assms(4) by (auto simp: list_all_iff)
qed

lemma userctl_unprivileged:
  assumes "\<not> k64_user_is_root s" and "\<forall>a\<in>set (accounts s). c_string (a_name a)" and "c_string args"
  shows "unprivileged_change (login_password (snd (user_next_token args 16))) s (snd (user_command_userctl args s))"
proof -
  obtain sub r where t: "user_next_token args 16 = (sub, r)" by fastforce
  have cs: "c_string r" using c_string_token [OF assms(3) t] by blast
  show ?thesis
  proof (cases "find (\<lambda>(n, f). k64_streq (Some sub) (Some n)) (user_commands :: (string \<times> (string \<Rightarrow> ('a, unit) userop)) list)")
    case None
    then show ?thesis unfolding user_command_userctl_def t by (auto intro!: same_session_unprivileged print_session)
  next
    case (Some nf)
    obtain n f where nf: "nf = (n, f)" by fastforce
    have "(n, f) \<in> set user_commands" using Some nf by (metis find_Some_iff nth_mem)
    from command_unprivileged [OF assms(1,2) cs this] show ?thesis
      unfolding user_command_userctl_def t using Some nf by (auto intro!: same_session_unprivileged print_session)
  qed
qed

lemma unprivileged_root:
  assumes "unprivileged_change pw s t" and "\<not> k64_user_is_root s" and "k64_user_is_root t"
  shows "(\<exists>i. logged_in s = Some i \<and> a_sudoer (accounts s ! i)) \<or>
    (\<exists>j. logged_in t = Some j \<and> j < length (accounts s) \<and> a_is_root (accounts s ! j) \<and> user_password_matches (accounts s ! j) pw)"
proof -
  obtain k where k: "u_ready t" "logged_in t = Some k" "a_is_root (accounts t ! k) \<or> sudo_active t"
    using assms(3) by (auto simp: k64_user_is_root_def ready_user_def split: option.splits if_splits)
  have acc: "accounts t = accounts s \<or> (\<exists>j p. j < length (accounts s) \<and> accounts t = (accounts s)[j := (accounts s ! j)\<lparr>a_password := p\<rparr>])"
    using assms(1) unfolding unprivileged_change_def by blast
  have len: "length (accounts t) = length (accounts s)" using acc by (elim disjE exE conjE) simp_all
  have roles: "map a_is_root (accounts t) = map a_is_root (accounts s)"
    using acc by (elim disjE exE conjE) (simp_all add: map_update list_update_same_conv)
  have ct: "current_index t = int k" "k < length (accounts s)" using k(2) len by (auto simp: logged_in_def split: if_splits)
  have rk: "a_is_root (accounts t ! k) = a_is_root (accounts s ! k)" using roles ct(2) len by (metis nth_map)
  show ?thesis
  proof (cases "current_index t = current_index s")
    case True
    then have ls: "logged_in s = Some k" "u_ready s" using ct k(1) assms(1) by (auto simp: logged_in_def unprivileged_change_def)
    then have "\<not> a_is_root (accounts s ! k)" "\<not> sudo_active s" using assms(2) by (auto simp: k64_user_is_root_def ready_user_def)
    then show ?thesis using k(3) rk assms(1) by (auto simp: unprivileged_change_def)
  next
    case False
    then have "\<not> sudo_active t" "user_password_matches (accounts s ! k) pw"
      using assms(1) ct by (auto simp: unprivileged_change_def)
    then show ?thesis using k(2,3) ct rk by auto
  qed
qed

text \<open>C27: a caller who is not root cannot raise himself above what he may have. Whatever command line the service
  gets from him, groups and roles stay as they are, at most the password of an account with his own name
  changes, and he is root afterwards only as a sudoer or by giving the password of a root account.\<close>

theorem unprivileged_commands_confined:
  assumes "\<not> k64_user_is_root s" and "\<forall>a\<in>set (accounts s). c_string (a_name a)" and "c_string args"
    and "t = snd (user_command_userctl args s)"
  shows "groups t = groups s \<and> u_ready t = u_ready s \<and>
    (accounts t = accounts s \<or>
     (\<exists>i j p. logged_in s = Some i \<and> j < length (accounts s) \<and> a_name (accounts s ! j) = a_name (accounts s ! i) \<and>
        accounts t = (accounts s)[j := (accounts s ! j)\<lparr>a_password := p\<rparr>])) \<and>
    (k64_user_is_root t \<longrightarrow>
      (\<exists>i. logged_in s = Some i \<and> a_sudoer (accounts s ! i)) \<or>
      (\<exists>j. logged_in t = Some j \<and> j < length (accounts s) \<and> a_is_root (accounts s ! j) \<and>
         user_password_matches (accounts s ! j) (login_password (snd (user_next_token args 16)))))"
proof -
  note u = userctl_unprivileged [OF assms(1-3), folded assms(4)]
  have "groups t = groups s" "u_ready t = u_ready s"
    "accounts t = accounts s \<or>
     (\<exists>i j p. logged_in s = Some i \<and> j < length (accounts s) \<and> a_name (accounts s ! j) = a_name (accounts s ! i) \<and>
        accounts t = (accounts s)[j := (accounts s ! j)\<lparr>a_password := p\<rparr>])"
    using u unfolding unprivileged_change_def by blast+
  with unprivileged_root [OF u assms(1)] show ?thesis by blast
qed

text \<open>A root account and two others; the second is logged in.\<close>

definition demo_users :: "unit user_state" where
  "demo_users = \<lparr>accounts = [\<lparr>a_name = ''root'', a_password = ''k64$0'', a_primary_group = ''root'', a_is_root = True, a_sudoer = True\<rparr>,
       \<lparr>a_name = ''ann'', a_password = ''k64$1'', a_primary_group = ''ann'', a_is_root = False, a_sudoer = False\<rparr>,
       \<lparr>a_name = ''bob'', a_password = ''k64$2'', a_primary_group = ''bob'', a_is_root = False, a_sudoer = False\<rparr>],
     groups = map (\<lambda>n. \<lparr>g_name = n, g_members = replicate 8 False\<rparr>) [''root'', ''sudo'', ''ann'', ''bob''],
     u_ready = True, current_index = 1, sudo_active = False, u_fs = undefined, u_term = []\<rparr>"

theorem unprivileged_commands_confined_witness:
  "groups (snd (user_command_userctl ''login root guess'' demo_users)) = groups demo_users"
proof -
  have "\<not> k64_user_is_root demo_users" by (simp add: demo_users_def k64_user_is_root_def ready_user_def logged_in_def)
  moreover have "\<forall>a\<in>set (accounts demo_users). c_string (a_name a)" by (simp add: demo_users_def c_string_def)
  ultimately show ?thesis using unprivileged_commands_confined [of demo_users "''login root guess''"] by (simp add: c_string_def)
qed

section \<open>Deleted accounts\<close>

text \<open>C39: user identifiers follow the position in the table, so deleting an account hands its files to the account
  after it: a file of the deleted account with mode 0600, which the next account could not read, is readable
  for it after the deletion.\<close>

theorem userdel_hands_files_on:
  assumes "u_ready s" and "idx + 1 < length (accounts s)"
    and "\<not> a_is_root (accounts s ! idx)" and "\<not> a_is_root (accounts s ! (idx + 1))"
    and uid: "uid = account_uid (accounts s ! idx) idx"
  shows "accounts (remove_account idx s) ! idx = accounts s ! (idx + 1) \<and>
    \<not> k64_user_can_access uid gid 0x180 4 (s\<lparr>current_index := int (idx + 1), sudo_active := False\<rparr>) \<and>
    k64_user_can_access uid gid 0x180 4 ((remove_account idx s)\<lparr>current_index := int idx, sudo_active := False\<rparr>)"
proof -
  let ?s = "s\<lparr>current_index := int (idx + 1), sudo_active := False\<rparr>"
  let ?t = "(remove_account idx s)\<lparr>current_index := int idx, sudo_active := False\<rparr>"
  have acc: "accounts (remove_account idx s) = take idx (accounts s) @ drop (idx + 1) (accounts s)" "u_ready (remove_account idx s)"
    using assms(1) by (simp_all add: remove_account_def Let_def)
  have nxt: "accounts (remove_account idx s) ! idx = accounts s ! (idx + 1)" "idx < length (accounts (remove_account idx s))"
    using assms(2) by (simp_all add: acc(1) nth_append)
  have "nat (1 + int idx) = Suc idx" by linarith
  then have before: "ready_user ?s = Some (idx + 1)" using assms(1,2) by (simp add: ready_user_def logged_in_def)
  have after: "ready_user ?t = Some idx" using acc(2) nxt(2) by (simp add: ready_user_def logged_in_def)
  have ids: "uid = 1000 + of_nat idx" "(1000 + of_nat (idx + 1) :: u32) \<noteq> 1000 + of_nat idx"
    using assms(3) by (simp_all add: uid account_uid_def)
  have "k64_user_effective_uid ?s = 1000 + of_nat (idx + 1)" "\<not> k64_user_is_root ?s"
    using before assms(4) by (simp_all add: k64_user_effective_uid_def k64_user_real_uid_def k64_user_is_root_def account_uid_def)
  moreover have "k64_user_effective_uid ?t = uid" "\<not> k64_user_is_root ?t"
    using after assms(4) nxt(1) ids by (simp_all add: k64_user_effective_uid_def k64_user_real_uid_def k64_user_is_root_def account_uid_def)
  ultimately show ?thesis using ids nxt(1) by (simp add: k64_user_can_access_def access_bits_def)
qed

theorem userdel_hands_files_on_witness:
  "k64_user_can_access 1001 1001 0x180 4 ((remove_account 1 demo_users)\<lparr>current_index := 1, sudo_active := False\<rparr>)"
  using userdel_hands_files_on [of demo_users 1 1001 1001] by (simp add: demo_users_def account_uid_def)

section \<open>The accounts file\<close>

definition db_word :: "nat \<Rightarrow> string \<Rightarrow> bool" where
  "db_word n w \<longleftrightarrow> w \<noteq> [] \<and> length w < n \<and> set w \<inter> {CHR '':'', CHR 0x0A, CHR 0x00} = {}"

definition account_ok :: "k64_user_account \<Rightarrow> bool" where
  "account_ok a \<longleftrightarrow> db_word K64_USER_NAME_MAX (a_name a) \<and> db_word 32 (a_password a) \<and> user_hash_is_encoded (a_password a) \<and>
     db_word K64_GROUP_NAME_MAX (a_primary_group a) \<and> (a_is_root a \<longrightarrow> a_sudoer a)"

definition account_text :: "k64_user_account \<Rightarrow> string" where
  "account_text a = concat (butlast (account_fields a))"

lemma user_append_all_fits: "length dst + length (concat ts) < n \<Longrightarrow> user_append_all n ts dst = dst @ concat ts"
proof (induction ts arbitrary: dst)
  case (Cons t ts)
  then show ?case by (simp add: user_append_all_def user_append_def)
qed (simp add: user_append_all_def)

lemma account_text_props:
  assumes "account_ok a"
  shows "concat (account_fields a) = account_text a @ newline" "length (account_text a) < 75" "CHR 0x0A \<notin> set (account_text a)"
    "account_text a \<noteq> []"
  using assms by (auto simp: account_fields_def account_text_def account_ok_def db_word_def K64_USER_NAME_MAX_def K64_GROUP_NAME_MAX_def)

lemma print_users_lines:
  assumes "list_all account_ok as" and "length buf + 75 * length as < 1024"
  shows "fold (\<lambda>a. user_append_all 1024 (account_fields a)) as buf = buf @ concat (map (\<lambda>a. account_text a @ newline) as)"
  using assms
proof (induction as arbitrary: buf)
  case (Cons a as)
  note p = account_text_props [of a]
  have "user_append_all 1024 (account_fields a) buf = buf @ account_text a @ newline"
    using Cons.prems p by (subst user_append_all_fits) (simp_all add: newline_def)
  then show ?case using Cons.IH [of "buf @ account_text a @ newline"] Cons.prems p by (simp add: newline_def)
qed simp

lemma db_line_text: "CHR 0x0A \<notin> set l \<Longrightarrow> length l < 160 \<Longrightarrow> db_line (l @ newline @ rest) = (l, rest)"
proof -
  assume l: "CHR 0x0A \<notin> set l" "length l < 160"
  have "takeWhile (\<lambda>c. c \<noteq> CHR 0x0A) (l @ newline @ rest) = l"
    using l(1) by (subst takeWhile_append2) (auto simp: newline_def)
  then show ?thesis using l(2) by (simp add: db_line_def Let_def newline_def)
qed

lemma db_lines_text:
  "list_all account_ok as \<Longrightarrow> db_lines (concat (map (\<lambda>a. account_text a @ newline) as)) = map account_text as"
proof (induction as)
  case Nil
  then show ?case by (simp add: db_lines.simps)
next
  case (Cons a as)
  note p = account_text_props [of a]
  have "db_line (account_text a @ newline @ concat (map (\<lambda>a. account_text a @ newline) as)) = (account_text a, concat (map (\<lambda>a. account_text a @ newline) as))"
    using Cons.prems p by (intro db_line_text) auto
  then show ?case using Cons by (simp add: db_lines.simps [of "account_text a @ _"] newline_def)
qed

lemma split_colon_word: "CHR '':'' \<notin> set w \<Longrightarrow> split_colon w = [w]"
  by (induction w) auto

lemma split_colon_append: "CHR '':'' \<notin> set w \<Longrightarrow> split_colon (w @ CHR '':'' # rest) = w # split_colon rest"
  by (induction w) auto

lemma account_fields_read:
  assumes "account_ok a"
  shows "split_colon (account_text a) =
    [a_name a, a_password a, if a_is_root a then ''root'' else ''user'', if a_sudoer a then ''1'' else ''0'', a_primary_group a]"
proof -
  let ?role = "if a_is_root a then ''root'' else ''user''" and ?sudo = "if a_sudoer a then ''1'' else ''0''"
  have w: "CHR '':'' \<notin> set (a_name a)" "CHR '':'' \<notin> set (a_password a)" "CHR '':'' \<notin> set ?role" "CHR '':'' \<notin> set ?sudo"
    "CHR '':'' \<notin> set (a_primary_group a)"
    using assms by (auto simp: account_ok_def db_word_def)
  have "account_text a = a_name a @ CHR '':'' # a_password a @ CHR '':'' # ?role @ CHR '':'' # ?sudo @ CHR '':'' # a_primary_group a"
    by (simp add: account_text_def account_fields_def)
  then show ?thesis by (simp only: split_colon_append [OF w(1)] split_colon_append [OF w(2)] split_colon_append [OF w(3)]
      split_colon_append [OF w(4)] split_colon_word [OF w(5)])
qed

lemma group_add_grows:
  assumes "group_add_internal name s = (ok, t)"
  shows "accounts t = accounts s \<and> length (groups t) \<le> length (groups s) + 1 \<and>
    (name \<noteq> [] \<and> length (groups s) < K64_GROUP_MAX \<longrightarrow> ok)"
  using assms by (auto simp: group_add_internal_def split: if_splits)

lemma index_of_None: "index_of P xs = None \<longleftrightarrow> (\<forall>x\<in>set xs. \<not> P x)"
  by (induction xs) auto

lemma load_account_appends:
  assumes "account_ok a" and "\<forall>b\<in>set (accounts s). account_ok b \<and> a_name b \<noteq> a_name a"
    and "length (accounts s) < K64_USER_MAX_ACCOUNTS" and "length (groups s) < K64_GROUP_MAX"
  shows "accounts (load_account (account_text a) s) = accounts s @ [a] \<and> length (groups (load_account (account_text a) s)) \<le> length (groups s) + 1"
proof -
  have w: "db_word 16 (a_name a)" "db_word 32 (a_password a)" "db_word 16 (a_primary_group a)" "user_hash_is_encoded (a_password a)"
    using assms(1) by (simp_all add: account_ok_def K64_USER_NAME_MAX_def K64_GROUP_NAME_MAX_def)
  have f: "db_field (account_text a) 0 = a_name a" "db_field (account_text a) 1 = a_password a"
    "db_field (account_text a) 2 = (if a_is_root a then ''root'' else ''user'')"
    "db_field (account_text a) 3 = (if a_sudoer a then ''1'' else ''0'')" "db_field (account_text a) 4 = a_primary_group a"
    using w by (simp_all add: db_field_def account_fields_read [OF assms(1)] db_word_def)
  obtain ok t where g: "group_add_internal (a_primary_group a) s = (ok, t)" by fastforce
  note grow = group_add_grows [OF g]
  have cs: "c_string (a_name b)" if "account_ok b" for b using that by (auto simp: account_ok_def db_word_def c_string_def K64_USER_NAME_MAX_def)
  have "user_find (a_name a) t = None"
    using assms(1,2) grow cs unfolding user_find_def index_of_None by auto
  moreover have "user_copy K64_USER_NAME_MAX (a_name a) = a_name a" "user_copy K64_GROUP_NAME_MAX (a_primary_group a) = a_primary_group a"
    "user_store_password K64_USER_PASS_MAX (a_name a) (a_password a) True = a_password a"
    using w by (simp_all add: user_copy_def user_store_password_def db_word_def K64_USER_NAME_MAX_def K64_GROUP_NAME_MAX_def K64_USER_PASS_MAX_def)
  moreover have "\<lparr>a_name = a_name a, a_password = a_password a, a_primary_group = a_primary_group a, a_is_root = a_is_root a,
      a_sudoer = a_sudoer a \<or> a_is_root a\<rparr> = a"
    using assms(1) by (cases a) (auto simp: account_ok_def)
  ultimately have "user_add_account (a_name a) (a_password a) (a_is_root a) (a_sudoer a) (a_primary_group a) True s =
      (True, t\<lparr>accounts := accounts s @ [a]\<rparr>)"
    using w(1-3) g grow assms(3,4) by (simp add: user_add_account_def db_word_def)
  moreover have "k64_streq (Some (if a_is_root a then ''root'' else ''user'')) (Some ''root'') = a_is_root a" by (simp add: c_string_def)
  then have "load_account (account_text a) s = snd (user_add_account (a_name a) (a_password a) (a_is_root a) (a_sudoer a) (a_primary_group a) True s)"
    using account_text_props(4) [OF assms(1)] w unfolding load_account_def f by (simp add: db_word_def)
  ultimately show ?thesis using grow by simp
qed

lemma load_accounts:
  assumes "list_all account_ok (accounts s @ as)" and "distinct (map a_name (accounts s @ as))"
    and "length (accounts s @ as) \<le> K64_USER_MAX_ACCOUNTS" and "length (groups s) \<le> length (accounts s)"
  shows "accounts (fold load_account (map account_text as) s) = accounts s @ as"
  using assms
proof (induction as arbitrary: s)
  case (Cons a as)
  have "a_name a \<notin> a_name ` set (accounts s)" using Cons.prems(2) by simp
  then have "\<forall>b\<in>set (accounts s). a_name b \<noteq> a_name a" by (metis imageI)
  then have step: "accounts (load_account (account_text a) s) = accounts s @ [a] \<and> length (groups (load_account (account_text a) s)) \<le> length (groups s) + 1"
    using Cons.prems by (intro load_account_appends) (auto simp: list_all_iff K64_GROUP_MAX_def K64_USER_MAX_ACCOUNTS_def)
  then show ?case using Cons.IH [of "load_account (account_text a) s"] Cons.prems by simp
qed simp

text \<open>C29: the accounts file round-trips: up to eight accounts with different names, texts that fit their fields and
  hold no separator, and encoded passwords are read back exactly as they were written, roles included.\<close>

theorem accounts_file_roundtrip:
  assumes "list_all account_ok as" and "distinct (map a_name as)" and "length as \<le> K64_USER_MAX_ACCOUNTS"
  shows "accounts (fold load_account (db_lines (print_users_db as)) (user_reset_state s)) = as"
  using assms print_users_lines [OF assms(1), of "[]"] load_accounts [of "user_reset_state s" as]
  by (simp add: print_users_db_def db_lines_text user_reset_state_def K64_USER_MAX_ACCOUNTS_def)

theorem accounts_file_roundtrip_witness:
  "accounts (fold load_account (db_lines (print_users_db (accounts demo_users))) (user_reset_state demo_users)) = accounts demo_users"
proof -
  have "user_hash_is_encoded ''k64$0''" "user_hash_is_encoded ''k64$1''" "user_hash_is_encoded ''k64$2''" by code_simp+
  then show ?thesis
    by (intro accounts_file_roundtrip)
       (simp_all add: demo_users_def account_ok_def db_word_def K64_USER_NAME_MAX_def K64_GROUP_NAME_MAX_def K64_USER_MAX_ACCOUNTS_def)
qed

end
