(* ===== verification/User_Inv.thy ===== *)
theory User_Inv
  imports User_Props
begin

text \<open>
  The invariant of the tables of accounts and groups and of the session, for every state that the service can
  reach from its start.
\<close>

section \<open>The invariant\<close>

definition account_fits :: "k64_user_account \<Rightarrow> bool" where
  "account_fits a \<longleftrightarrow> a_name a \<noteq> [] \<and> c_string (a_name a) \<and> length (a_name a) < K64_USER_NAME_MAX \<and>
     length (a_password a) < K64_USER_PASS_MAX \<and> length (a_primary_group a) < K64_GROUP_NAME_MAX \<and> (a_is_root a \<longrightarrow> a_sudoer a)"

definition group_fits :: "nat \<Rightarrow> k64_user_group \<Rightarrow> bool" where
  "group_fits n g \<longleftrightarrow> g_name g \<noteq> [] \<and> length (g_name g) < K64_GROUP_NAME_MAX \<and> length (g_members g) = K64_USER_MAX_ACCOUNTS \<and>
     (\<forall>u. n \<le> u \<and> u < K64_USER_MAX_ACCOUNTS \<longrightarrow> \<not> g_members g ! u)"

definition tables_ok :: "'x user_tables_scheme \<Rightarrow> bool" where
  "tables_ok s \<longleftrightarrow> length (accounts s) \<le> K64_USER_MAX_ACCOUNTS \<and> length (groups s) \<le> K64_GROUP_MAX \<and>
     (\<forall>a\<in>set (accounts s). account_fits a) \<and> (\<forall>g\<in>set (groups s). group_fits (length (accounts s)) g)"

definition session_ok :: "'g user_state \<Rightarrow> bool" where
  "session_ok s \<longleftrightarrow> tables_ok s \<and> -1 \<le> current_index s \<and> current_index s < int (length (accounts s)) \<and>
     (sudo_active s \<longrightarrow> current_index s \<noteq> -1)"

lemmas user_limits = K64_USER_MAX_ACCOUNTS_def K64_USER_NAME_MAX_def K64_USER_PASS_MAX_def K64_GROUP_MAX_def K64_GROUP_NAME_MAX_def

lemma tables_okI:
  assumes "length (accounts s) \<le> K64_USER_MAX_ACCOUNTS" "length (groups s) \<le> K64_GROUP_MAX"
    "\<And>a. a \<in> set (accounts s) \<Longrightarrow> account_fits a" "\<And>g. g \<in> set (groups s) \<Longrightarrow> group_fits (length (accounts s)) g"
  shows "tables_ok s"
  using assms by (simp add: tables_ok_def)

lemma tables_okD:
  assumes "tables_ok s"
  shows "length (accounts s) \<le> K64_USER_MAX_ACCOUNTS" "length (groups s) \<le> K64_GROUP_MAX"
    "i < length (accounts s) \<Longrightarrow> account_fits (accounts s ! i)" "j < length (groups s) \<Longrightarrow> group_fits (length (accounts s)) (groups s ! j)"
  using assms by (simp_all add: tables_ok_def)

lemma user_copy_props [simp]:
  "0 < n \<Longrightarrow> length (user_copy n w) < n" "1 < n \<Longrightarrow> user_copy n w = [] \<longleftrightarrow> w = []" "0 < n \<Longrightarrow> c_string w \<Longrightarrow> c_string (user_copy n w)"
  by (auto simp: user_copy_def c_string_def dest: in_set_takeD)

lemma stored_password_fits: "length (user_store_password K64_USER_PASS_MAX name pw h) < K64_USER_PASS_MAX"
  by (auto simp: user_store_password_def user_hash_password_def Let_def K64_USER_PASS_MAX_def)

section \<open>Changes of the tables\<close>

lemma ok_group_add:
  assumes "tables_ok s"
  shows "tables_ok (snd (group_add_internal name s)) \<and> accounts (snd (group_add_internal name s)) = accounts s"
  using assms by (auto simp: group_add_internal_def tables_ok_def group_fits_def user_limits)

lemma ok_set_membership:
  assumes "tables_ok s"
  shows "tables_ok (group_set_membership g u m s) \<and> accounts (group_set_membership g u m s) = accounts s"
proof (cases "case g of None \<Rightarrow> False | Some i \<Rightarrow> i < length (groups s) \<and> u < length (accounts s)")
  case True
  then obtain i where i: "g = Some i" "i < length (groups s)" "u < length (accounts s)" by (auto split: option.splits)
  let ?g = "(groups s ! i)\<lparr>g_members := (g_members (groups s ! i))[u := m]\<rparr>"
  have "group_fits (length (accounts s)) ?g"
    using tables_okD(4) [OF assms i(2)] i(3) by (auto simp: group_fits_def nth_list_update)
  then have "\<forall>h\<in>set ((groups s)[i := ?g]). group_fits (length (accounts s)) h"
    using assms set_update_subset_insert [of "groups s" i ?g] by (auto simp: tables_ok_def)
  then show ?thesis using i assms by (simp add: group_set_membership_def tables_ok_def)
next
  case False
  then show ?thesis using assms by (auto simp: group_set_membership_def split: option.splits)
qed

lemma accounts_kept [simp]: "accounts (snd (group_add_internal name s)) = accounts s" "accounts (group_set_membership g u m s) = accounts s"
  by (auto simp: group_add_internal_def group_set_membership_def split: option.splits)

lemma tables_ok_kept [simp]:
  "tables_ok s \<Longrightarrow> tables_ok (snd (group_add_internal name s))" "tables_ok s \<Longrightarrow> tables_ok (group_set_membership g u m s)"
  using ok_group_add ok_set_membership by blast+

lemma ok_update_account:
  assumes "tables_ok s" and "i < length (accounts s)" and "account_fits a"
  shows "tables_ok (s\<lparr>accounts := (accounts s)[i := a]\<rparr>)"
  using assms set_update_subset_insert [of "accounts s" i a] by (auto simp: tables_ok_def)

lemma ok_append_account:
  assumes "tables_ok s" and "length (accounts s) < K64_USER_MAX_ACCOUNTS" and "account_fits a"
  shows "tables_ok (s\<lparr>accounts := accounts s @ [a]\<rparr>)"
  using assms by (auto simp: tables_ok_def group_fits_def)

lemma ok_add_account:
  assumes "tables_ok s" and "c_string name"
  shows "tables_ok (snd (user_add_account name pw is_root sudoer primary h s)) \<and>
    length (accounts s) \<le> length (accounts (snd (user_add_account name pw is_root sudoer primary h s)))"
proof -
  define st where "st = (if primary \<noteq> [] then group_add_internal primary s else (True, s))"
  obtain ok t where t: "st = (ok, t)" by fastforce
  have "t = snd st" using t by simp
  then have tok: "tables_ok t" "accounts t = accounts s" using assms(1) by (simp_all add: st_def)
  let ?stored = "user_store_password K64_USER_PASS_MAX name pw h"
  let ?prim = "user_copy K64_GROUP_NAME_MAX (if primary \<noteq> [] then primary else name)"
  have upd: "tables_ok (t\<lparr>accounts := (accounts t)[i := (accounts t ! i)\<lparr>a_password := ?stored, a_is_root := is_root,
      a_sudoer := sudoer \<or> is_root, a_primary_group := ?prim\<rparr>]\<rparr>)" if "user_find name t = Some i" for i
    using user_find_Some [OF that] tables_okD(3) [OF tok(1), of i] stored_password_fits
    by (intro ok_update_account [OF tok(1)]) (auto simp: account_fits_def user_limits)
  have app: "tables_ok (t\<lparr>accounts := accounts t @ [\<lparr>a_name = user_copy K64_USER_NAME_MAX name, a_password = ?stored,
      a_primary_group = ?prim, a_is_root = is_root, a_sudoer = sudoer \<or> is_root\<rparr>]\<rparr>)"
    if "name \<noteq> []" "length (accounts t) < K64_USER_MAX_ACCOUNTS"
    using that assms(2) stored_password_fits by (intro ok_append_account [OF tok(1)]) (auto simp: account_fits_def user_limits)
  show ?thesis
    unfolding user_add_account_def st_def [symmetric] t
    using upd app tok assms(1) by (auto simp: Let_def split: option.splits)
qed

lemma ok_fold:
  assumes "tables_ok s" and "\<And>x s. tables_ok s \<Longrightarrow> x \<in> set xs \<Longrightarrow> length (accounts s) = n \<Longrightarrow> tables_ok (f x s) \<and> length (accounts (f x s)) = n"
    and "length (accounts s) = n"
  shows "tables_ok (fold f xs s) \<and> length (accounts (fold f xs s)) = n"
  using assms
proof (induction xs arbitrary: s)
  case (Cons x xs)
  then show ?case by simp
qed simp

lemma ok_sync: "tables_ok s \<Longrightarrow> tables_ok (user_sync_role_groups s) \<and> length (accounts (user_sync_role_groups s)) = length (accounts s)"
proof -
  assume s: "tables_ok s"
  define t where "t = snd (group_add_internal ''sudo'' (snd (group_add_internal ''root'' s)))"
  have t: "tables_ok t" "accounts t = accounts s" using s ok_group_add [of s "''root''"] ok_group_add [of "snd (group_add_internal ''root'' s)" "''sudo''"]
    by (auto simp: t_def)
  have "tables_ok (fold (sync_roles g g') js t) \<and> length (accounts (fold (sync_roles g g') js t)) = length (accounts s)" for g g' js
  proof (rule ok_fold)
    fix x and u :: "'a user_tables_scheme"
    assume u: "tables_ok u" "length (accounts u) = length (accounts s)"
    show "tables_ok (sync_roles g g' x u) \<and> length (accounts (sync_roles g g' x u)) = length (accounts s)"
      using u by (simp add: sync_roles_def Let_def)
  qed (use t in simp_all)
  then show ?thesis by (simp add: user_sync_role_groups_def t_def [symmetric] Let_def)
qed

lemma ok_ensure_primary:
  assumes "tables_ok s" and "i < length (accounts s)"
  shows "tables_ok (ensure_primary i s) \<and> length (accounts (ensure_primary i s)) = length (accounts s)"
proof -
  let ?a = "accounts s ! i"
  define u where "u = (if a_primary_group ?a = [] then s\<lparr>accounts := (accounts s)[i := ?a\<lparr>a_primary_group := user_copy K64_GROUP_NAME_MAX (a_name ?a)\<rparr>]\<rparr> else s)"
  have u: "tables_ok u" "length (accounts u) = length (accounts s)"
    using assms tables_okD(3) [OF assms] ok_update_account [OF assms] by (auto simp: u_def account_fits_def user_limits)
  show ?thesis
    using u by (simp add: ensure_primary_def Let_def u_def [symmetric])
qed

lemma ok_ensure_primaries: "tables_ok s \<Longrightarrow> tables_ok (user_ensure_primary_groups s) \<and> length (accounts (user_ensure_primary_groups s)) = length (accounts s)"
  unfolding user_ensure_primary_groups_def by (rule ok_fold) (auto simp: ok_ensure_primary)

lemma c_string_field: "c_string line \<Longrightarrow> c_string (db_field line i)"
proof -
  assume c: "c_string line"
  have "\<forall>f\<in>set (split_colon l). set f \<subseteq> set l \<and> length f \<le> length l" for l
    by (induction l) (auto split: list.splits intro: le_SucI)
  then have "i < length (split_colon line) \<Longrightarrow> set (split_colon line ! i) \<subseteq> set line \<and> length (split_colon line ! i) \<le> length line"
    by simp
  then show ?thesis using c by (auto simp: db_field_def Let_def c_string_def dest: in_set_takeD)
qed

lemma ok_load_account: "tables_ok s \<Longrightarrow> c_string line \<Longrightarrow> tables_ok (load_account line s)"
  using ok_add_account [OF _ c_string_field, of s line 0] by (simp add: load_account_def)

lemma db_lines_c_string: "CHR 0x00 \<notin> set p \<Longrightarrow> l \<in> set (db_lines p) \<Longrightarrow> c_string l"
proof (induction p rule: db_lines.induct)
  case (1 p)
  have sub: "set (fst (db_line p)) \<subseteq> set p" "length (fst (db_line p)) \<le> 159" "set (snd (db_line p)) \<subseteq> set p"
    by (auto simp: db_line_def Let_def tl_drop drop_Suc [symmetric] dest: in_set_takeD set_takeWhileD in_set_dropD)
  then have "c_string (fst (db_line p))" "CHR 0x00 \<notin> set (snd (db_line p))" using 1(2) by (auto simp: c_string_def)
  then show ?case using 1 by (cases "p = []") (auto simp: db_lines.simps [of p] db_lines.simps [of "[]"])
qed

lemma ok_load_accounts:
  assumes "tables_ok s" and "\<forall>l\<in>set ls. c_string l"
  shows "tables_ok (fold load_account ls s)"
  using assms by (induction ls arbitrary: s) (auto simp: ok_load_account)

lemma ok_load_members: "tables_ok s \<Longrightarrow> tables_ok (load_members g mp s)"
proof (induction g mp s rule: load_members.induct)
  case (1 g mp s)
  show ?case
  proof (cases "mp = []")
    case True
    then show ?thesis using 1(2) by (simp add: load_members.simps)
  next
    case False
    have "tables_ok (case user_find n s of None \<Rightarrow> s | Some u \<Rightarrow> group_set_membership (group_find g s) u True s)" for n
      using 1(2) by (cases "user_find n s") simp_all
    then show ?thesis using 1(1) [OF False refl refl refl] False by (subst load_members.simps) (simp only: if_False Let_def)
  qed
qed

lemma ok_load_group:
  assumes "tables_ok s"
  shows "tables_ok (load_group line s)"
proof -
  define n where "n = user_copy K64_GROUP_NAME_MAX (takeWhile (\<lambda>c. c \<noteq> CHR '':'') line)"
  obtain ok t where t: "group_add_internal n s = (ok, t)" by fastforce
  have "tables_ok t" using tables_ok_kept(1) [OF assms, of n] t by simp
  then show ?thesis unfolding load_group_def Let_def n_def [symmetric] t using assms by (simp add: ok_load_members)
qed

lemma ok_load_groups: "tables_ok s \<Longrightarrow> tables_ok (fold load_group ls s)"
  by (induction ls arbitrary: s) (auto simp: ok_load_group)

lemma tables_ok_session: "tables_ok (s\<lparr>current_index := i, sudo_active := b\<rparr>) = tables_ok s"
  "tables_ok (s\<lparr>current_index := i, sudo_active := b, u_ready := r\<rparr>) = tables_ok s"
  by (simp_all add: tables_ok_def)

lemma ok_reset: "tables_ok (user_reset_state s)"
  by (simp add: user_reset_state_def tables_ok_def)

lemma ok_seed: "tables_ok (user_seed_defaults s)"
  unfolding user_seed_defaults_def Let_def tables_ok_session
  by (intro conjunct1 [OF ok_sync] conjunct1 [OF ok_ensure_primaries] conjunct1 [OF ok_add_account] tables_ok_kept ok_reset) (simp_all add: c_string_def)

lemma ok_remove_account:
  assumes "tables_ok s" and "idx < length (accounts s)"
  shows "tables_ok (remove_account idx s) \<and> length (accounts (remove_account idx s)) = length (accounts s) - 1"
proof -
  let ?n = "length (accounts s) - 1"
  let ?del = "\<lambda>m. take idx m @ take (?n - idx) (drop (idx + 1) m) @ False # drop (?n + 1) m"
  have n: "?n < K64_USER_MAX_ACCOUNTS" "idx \<le> ?n" using assms tables_okD(1) [OF assms(1)] by auto
  have "group_fits ?n (g\<lparr>g_members := ?del (g_members g)\<rparr>)" if g: "group_fits (length (accounts s)) g" for g
  proof -
    have len: "length (g_members g) = K64_USER_MAX_ACCOUNTS" using g by (simp add: group_fits_def)
    define xs where "xs = take idx (g_members g) @ take (?n - idx) (drop (idx + 1) (g_members g))"
    have xs: "length xs = ?n" using n len by (simp add: xs_def)
    have del: "?del (g_members g) = xs @ False # drop (?n + 1) (g_members g)" by (simp add: xs_def)
    have "\<not> ?del (g_members g) ! u" if u: "?n \<le> u" "u < K64_USER_MAX_ACCOUNTS" for u
    proof (cases "u = ?n")
      case True
      then show ?thesis unfolding del using xs by (simp add: nth_append)
    next
      case False
      then have "(xs @ False # drop (?n + 1) (g_members g)) ! u = g_members g ! u" using u xs len by (simp add: nth_append nth_Cons')
      then show ?thesis unfolding del using g u False by (simp add: group_fits_def)
    qed
    then show ?thesis using g n len by (simp add: group_fits_def)
  qed
  moreover have "\<forall>a\<in>set (take idx (accounts s) @ drop (idx + 1) (accounts s)). account_fits a"
    using assms(1) by (auto simp: tables_ok_def dest: in_set_takeD in_set_dropD)
  ultimately have "tables_ok (s\<lparr>accounts := take idx (accounts s) @ drop (idx + 1) (accounts s),
      groups := map (\<lambda>g. g\<lparr>g_members := ?del (g_members g)\<rparr>) (groups s)\<rparr>)"
    using assms by (auto simp: tables_ok_def)
  then show ?thesis using assms(2) by (auto simp: remove_account_def Let_def tables_ok_def)
qed

lemma ok_set_role: "tables_ok s \<Longrightarrow> i < length (accounts s) \<Longrightarrow> tables_ok (set_role i r s) \<and> length (accounts (set_role i r s)) = length (accounts s)"
  unfolding set_role_def Let_def by (auto intro!: ok_update_account dest: tables_okD(3) simp: account_fits_def)

lemma ok_set_primary: "tables_ok s \<Longrightarrow> i < length (accounts s) \<Longrightarrow> tables_ok (set_primary i g s) \<and> length (accounts (set_primary i g s)) = length (accounts s)"
  unfolding set_primary_def Let_def
  by (auto intro!: ok_update_account tables_ok_kept dest: tables_okD(3) simp: account_fits_def user_limits)

section \<open>Operations\<close>

definition safe :: "('g, 'a) userop \<Rightarrow> bool" where
  "safe m \<longleftrightarrow> (\<forall>s. session_ok s \<longrightarrow> session_ok (snd (m s)))"

named_theorems safe_rules

lemma safeD: "safe m \<Longrightarrow> session_ok s \<Longrightarrow> session_ok (snd (m s))"
  by (simp add: safe_def)

lemma session_ok_same: "same_session s t \<Longrightarrow> session_ok s \<Longrightarrow> session_ok t"
  by (simp add: same_session_def session_ok_def tables_ok_def)

lemma safe_quiet: "quiet m \<Longrightarrow> safe m"
  unfolding safe_def using quietD session_ok_same by blast

lemma safe_bind [safe_rules]: "safe m \<Longrightarrow> (\<And>a. safe (f a)) \<Longrightarrow> safe (bind m f)"
  unfolding safe_def bind_def by (fastforce split: prod.splits res.splits)

lemma safe_if [safe_rules]: "safe m \<Longrightarrow> safe n \<Longrightarrow> safe (if c then m else n)"
  by simp

lemma safe_prod [safe_rules]: "(\<And>a b. x = (a, b) \<Longrightarrow> safe (f a b)) \<Longrightarrow> safe (case x of (a, b) \<Rightarrow> f a b)"
  by (cases x) simp

lemma safe_modify [safe_rules]: "(\<And>s. session_ok s \<Longrightarrow> session_ok (f s)) \<Longrightarrow> safe (modify f)"
  by (simp add: safe_def)

lemma safe_print [safe_rules]: "safe (user_print_line t)" "safe (user_write t)" "safe (ret a)" "safe (try_user user_save_state)" "safe (try_user user_save_db)"
  "safe (save_groups_then t)" "safe (make_home name)" "safe user_save_state" "safe user_save_groups_db"
  by (rule safe_quiet, intro quiet_rules)+

lemma session_ok_tables:
  assumes "session_ok s" and "tables_ok t" and "length (accounts s) \<le> length (accounts t)"
    and "current_index t = current_index s" and "sudo_active t = sudo_active s"
  shows "session_ok t"
  using assms by (auto simp: session_ok_def)

text \<open>Changes of the tables keep the session.\<close>

lemma session_kept [simp]:
  "current_index (snd (group_add_internal n s)) = current_index s" "sudo_active (snd (group_add_internal n s)) = sudo_active s"
  "current_index (group_set_membership g u m s) = current_index s" "sudo_active (group_set_membership g u m s) = sudo_active s"
  by (auto simp: group_add_internal_def group_set_membership_def split: option.splits)

lemma session_kept_fold:
  assumes "\<And>x s. current_index (f x s) = current_index s \<and> sudo_active (f x s) = sudo_active s"
  shows "current_index (fold f xs s) = current_index s \<and> sudo_active (fold f xs s) = sudo_active s"
  using assms by (induction xs arbitrary: s) auto

lemma session_kept_all:
  fixes s :: "'a user_state"
  shows "current_index (user_sync_role_groups s) = current_index s \<and> sudo_active (user_sync_role_groups s) = sudo_active s"
  "current_index (user_ensure_primary_groups s) = current_index s \<and> sudo_active (user_ensure_primary_groups s) = sudo_active s"
proof -
  have "current_index (fold (sync_roles g g') xs t) = current_index t \<and> sudo_active (fold (sync_roles g g') xs t) = sudo_active t"
    for g g' xs and t :: "'a user_state"
    by (rule session_kept_fold) (simp add: sync_roles_def Let_def)
  then show "current_index (user_sync_role_groups s) = current_index s \<and> sudo_active (user_sync_role_groups s) = sudo_active s"
    by (simp add: user_sync_role_groups_def Let_def)
  have "current_index (fold ensure_primary xs t) = current_index t \<and> sudo_active (fold ensure_primary xs t) = sudo_active t"
    for xs and t :: "'a user_state"
    by (rule session_kept_fold) (simp add: ensure_primary_def Let_def)
  then show "current_index (user_ensure_primary_groups s) = current_index s \<and> sudo_active (user_ensure_primary_groups s) = sudo_active s"
    by (simp add: user_ensure_primary_groups_def)
qed

lemma session_ok_regroup: "session_ok s \<Longrightarrow> session_ok (user_sync_role_groups (user_ensure_primary_groups s))"
  using ok_ensure_primaries [of s] ok_sync [of "user_ensure_primary_groups s"] session_kept_all(1) [of "user_ensure_primary_groups s"] session_kept_all(2) [of s]
  by - (rule session_ok_tables [of s], auto simp: session_ok_def)

lemma session_kept_add_account:
  "current_index (snd (user_add_account n p r d g h s)) = current_index s \<and> sudo_active (snd (user_add_account n p r d g h s)) = sudo_active s"
proof -
  define st where "st = (if g \<noteq> [] then group_add_internal g s else (True, s))"
  obtain ok t where t: "st = (ok, t)" by fastforce
  have "t = snd st" using t by simp
  then have "current_index t = current_index s" "sudo_active t = sudo_active s" by (simp_all add: st_def)
  then show ?thesis unfolding user_add_account_def st_def [symmetric] t by (auto simp: Let_def split: option.splits)
qed

lemma session_ok_add_account: "session_ok s \<Longrightarrow> c_string n \<Longrightarrow> session_ok (snd (user_add_account n p r d g h s))"
  using ok_add_account [of s n p r d g h] session_kept_add_account [of n p r d g h s]
  by - (rule session_ok_tables [of s], auto simp: session_ok_def)

lemma session_ok_group_add: "session_ok s \<Longrightarrow> session_ok (snd (group_add_internal n s))"
  by (rule session_ok_tables [of s]) (auto simp: session_ok_def)

lemma session_ok_membership: "session_ok s \<Longrightarrow> session_ok (group_set_membership g u m s)"
  by (rule session_ok_tables [of s]) (auto simp: session_ok_def)

lemma session_ok_add_to_group: "session_ok s \<Longrightarrow> session_ok (snd (user_add_to_group u g s))"
proof -
  assume s: "session_ok s"
  obtain ok t where t: "group_add_internal g s = (ok, t)" by fastforce
  have "session_ok t" using session_ok_group_add [OF s, of g] t by simp
  then show ?thesis using s by (auto simp: user_add_to_group_def t session_ok_membership split: option.splits)
qed

lemma session_ok_remove_from_group: "session_ok s \<Longrightarrow> session_ok (snd (user_remove_from_group u g s))"
  by (auto simp: user_remove_from_group_def session_ok_membership split: option.splits)

lemma session_ok_remove_account: "session_ok s \<Longrightarrow> idx < length (accounts s) \<Longrightarrow> session_ok (remove_account idx s)"
proof -
  assume s: "session_ok s" and i: "idx < length (accounts s)"
  have t: "tables_ok (remove_account idx s)" "length (accounts (remove_account idx s)) = length (accounts s) - 1"
    using ok_remove_account [of s idx] s i by (simp_all add: session_ok_def)
  show ?thesis
  proof (cases "current_index s = int idx")
    case True
    then have "current_index (remove_account idx s) = -1" "\<not> sudo_active (remove_account idx s)"
      by (simp_all add: remove_account_def Let_def)
    then show ?thesis using t by (simp add: session_ok_def)
  next
    case False
    then have "current_index (remove_account idx s) = (if current_index s > int idx then current_index s - 1 else current_index s)"
      "sudo_active (remove_account idx s) = sudo_active s"
      by (simp_all add: remove_account_def Let_def)
    then show ?thesis using t s i False by (auto simp: session_ok_def)
  qed
qed

lemma session_ok_role: "session_ok s \<Longrightarrow> i < length (accounts s) \<Longrightarrow> session_ok (user_sync_role_groups (set_role i r s))"
  using ok_set_role [of s i r] ok_sync [of "set_role i r s"] session_kept_all(1) [of "set_role i r s"]
  by - (rule session_ok_tables [of s], auto simp: session_ok_def set_role_def Let_def)

lemma session_ok_primary: "session_ok s \<Longrightarrow> i < length (accounts s) \<Longrightarrow> session_ok (set_primary i g s)"
  using ok_set_primary [of s i g] by - (rule session_ok_tables [of s], auto simp: session_ok_def set_primary_def Let_def)

lemma session_ok_password:
  assumes "session_ok s" and "i < length (accounts s)"
  shows "session_ok (s\<lparr>accounts := (accounts s)[i := (accounts s ! i)\<lparr>a_password := user_store_password K64_USER_PASS_MAX n p h\<rparr>]\<rparr>)"
  using assms tables_okD(3) [of s i] stored_password_fits
  by - (rule session_ok_tables [of s], auto intro!: ok_update_account simp: session_ok_def account_fits_def)

lemma safe_as_root [safe_rules]: "safe k \<Longrightarrow> safe (as_root k)"
proof -
  assume k: "safe k"
  have "quiet (user_require_root :: ('a, bool) userop)"
    by (auto simp: quiet_def user_require_root_def bind_def user_print_line_def user_write_def same_session_def)
  then have "safe (user_require_root :: ('a, bool) userop)" by (rule safe_quiet)
  then show ?thesis unfolding as_root_def using k by (intro safe_bind) (simp_all add: safe_print)
qed

lemma safe_table_op [safe_rules]:
  assumes "\<And>s. session_ok s \<Longrightarrow> session_ok (snd (f s))" and "safe k"
  shows "safe (table_op f t k)"
  unfolding safe_def
proof (intro allI impI)
  fix s :: "'a user_state"
  assume s: "session_ok s"
  obtain ok u where u: "f s = (ok, u)" by fastforce
  then have "session_ok u" using assms(1) [OF s] by simp
  then show "session_ok (snd (table_op f t k s))"
    by (simp add: table_op_def u safeD [OF assms(2)] safeD [OF safe_print(1)])
qed

lemma safe_find:
  assumes "\<And>s. session_ok s \<Longrightarrow> c s = None \<Longrightarrow> session_ok (snd (m s))" and "\<And>s i. session_ok s \<Longrightarrow> c s = Some i \<Longrightarrow> session_ok (snd (f i s))"
  shows "safe (\<lambda>s. case c s of None \<Rightarrow> m s | Some i \<Rightarrow> f i s)"
  using assms by (auto simp: safe_def split: option.splits)

lemma safe_at: "(\<And>s. session_ok s \<Longrightarrow> session_ok (snd (m s))) \<Longrightarrow> safe m"
  by (simp add: safe_def)

lemma safe_read_only: "safe (user_command_users args)" "safe (user_command_groups args)" "safe (user_command_whoami args)" "safe (user_command_id args)"
  by (rule safe_quiet, simp add: quiet_def read_only_commands)+

lemma session_ok_login: "session_ok s \<Longrightarrow> i < length (accounts s) \<Longrightarrow> session_ok (s\<lparr>current_index := int i, sudo_active := False\<rparr>)"
  by (simp add: session_ok_def tables_ok_def)

lemma safe_login: "safe (user_command_login_like args)"
proof (rule safe_at)
  fix s :: "'a user_state"
  assume s: "session_ok s"
  obtain name r where n: "user_next_token args K64_USER_NAME_MAX = (name, r)" by fastforce
  obtain pw r' where p: "user_next_token r K64_USER_PASS_MAX = (pw, r')" by fastforce
  have print: "session_ok t \<Longrightarrow> session_ok (snd (user_print_line x t))" "session_ok t \<Longrightarrow> session_ok (snd (user_write x t))"
    for x and t :: "'a user_state" by (rule safeD, rule safe_rules, assumption)+
  show "session_ok (snd (user_command_login_like args s))"
    using s by (auto simp: user_command_login_like_def n p split: option.splits intro!: print session_ok_login dest: user_find_Some)
qed

lemma safe_logout: "safe (user_command_logout args)"
  by (rule safe_at) (simp add: user_command_logout_def user_print_line_def user_write_def session_ok_def tables_ok_def)

lemma safe_sudo: "safe (user_command_sudo args)"
proof (rule safe_at)
  fix s :: "'a user_state"
  assume s: "session_ok s"
  obtain action r where a: "user_next_token args K64_USER_PASS_MAX = (action, r)" by fastforce
  have "session_ok (s\<lparr>sudo_active := True\<rparr>)" if "logged_in s \<noteq> None"
    using s that by (auto simp: session_ok_def tables_ok_def logged_in_def split: if_splits)
  moreover have "session_ok (s\<lparr>sudo_active := False\<rparr>)" using s by (simp add: session_ok_def tables_ok_def)
  moreover have print: "session_ok t \<Longrightarrow> session_ok (snd (user_print_line x t))" for x and t :: "'a user_state" by (rule safeD, rule safe_rules)
  ultimately show "session_ok (snd (user_command_sudo args s))"
    using s by (cases "logged_in s") (auto simp: user_command_sudo_def user_require_login_def a bind_def Let_def user_print_line_def user_write_def
      session_ok_def tables_ok_def)
qed

lemma safe_passwd: "safe (user_command_passwd args)"
proof (rule safe_at)
  fix s :: "'a user_state"
  assume s: "session_ok s"
  obtain name r where n: "user_next_token args K64_USER_NAME_MAX = (name, r)" by fastforce
  obtain pw r' where p: "user_next_token r K64_USER_PASS_MAX = (pw, r')" by fastforce
  have print: "session_ok t \<Longrightarrow> session_ok (snd (user_print_line x t))" for x and t :: "'a user_state" by (rule safeD, rule safe_rules)
  define upd where "upd i t = t\<lparr>accounts := (accounts t)[i := (accounts t ! i)\<lparr>a_password :=
      user_store_password K64_USER_PASS_MAX (a_name (accounts t ! i)) pw False\<rparr>]\<rparr>" for i and t :: "'a user_state"
  let ?save = "bind (try_user user_save_db) (\<lambda>_. user_print_line ''password updated'')"
  have save: "safe (?save :: ('a, unit) userop)" by (intro safe_rules)
  have "same_session s (snd (passwd_allowed name s))"
    by (auto simp: passwd_allowed_def user_require_login_def bind_def user_print_line_def user_write_def same_session_def)
  then obtain ok u where u: "passwd_allowed name s = (ok, u)" "same_session s u" by (cases "passwd_allowed name s") auto
  have su: "session_ok u" by (rule session_ok_same [OF u(2) s])
  have "session_ok (snd (bind (passwd_allowed name) (\<lambda>ok. if \<not> ok then user_print_line ''permission denied'' else bind (modify (upd i)) (\<lambda>_. ?save)) s))"
    if "user_find name s = Some i" for i
  proof -
    have "session_ok (upd i u)" unfolding upd_def using su u(2) user_find_Some [OF that]
      by (intro session_ok_password) (simp_all add: same_session_def)
    then show ?thesis using u su print safeD [OF save] by (cases ok) (auto simp: bind_def [of "passwd_allowed name"])
  qed
  then show "session_ok (snd (user_command_passwd args s))"
    using s print unfolding user_command_passwd_def n p prod.case upd_def [abs_def] by (cases "user_find name s") auto
qed

lemma safe_useradd:
  assumes "c_string args"
  shows "safe (user_command_useradd args)"
  unfolding user_command_useradd_def
proof (intro safe_as_root safe_prod safe_if safe_print, unfold Let_def, intro safe_bind safe_if safe_print)
  fix name args2 pw args3 role args4 g rest
  assume n: "user_next_token args K64_USER_NAME_MAX = (name, args2)"
  have "c_string name" using c_string_token [OF assms n] by blast
  then show "safe (\<lambda>s. case user_add_account name pw r d q False s of (ok, s) \<Rightarrow> (Ok ok, s))" for r d q
    by (auto intro!: safe_at dest: session_ok_add_account simp: split_def)
qed (auto intro!: safe_modify session_ok_regroup)

lemma safe_delete_user: "safe (delete_user name)"
proof (rule safe_at)
  fix s :: "'a user_state"
  assume s: "session_ok s"
  have rest: "safe (bind (try_user user_save_state) (\<lambda>_. user_print_line ''user deleted'') :: ('a, unit) userop)" by (intro safe_rules)
  have "session_ok (remove_account i s)" if "user_find name s = Some i" for i
    using session_ok_remove_account [OF s] user_find_Some [OF that] by blast
  then show "session_ok (snd (delete_user name s))"
    unfolding delete_user_def by (cases "user_find name s") (auto simp: safeD [OF safe_print(1)] safeD [OF rest] s)
qed

lemma safe_delete_group: "safe (delete_group grp)"
proof (rule safe_at)
  fix s :: "'a user_state"
  assume s: "session_ok s"
  have "session_ok (s\<lparr>groups := take i (groups s) @ drop (i + 1) (groups s)\<rparr>)" for i
    using s by (auto simp: session_ok_def tables_ok_def dest: in_set_takeD in_set_dropD)
  then show "session_ok (snd (delete_group grp s))"
    unfolding delete_group_def by (cases "group_find grp s") (auto simp: safeD [OF safe_print(1)] safeD [OF safe_print(6)] s)
qed

lemma safe_delete: "safe (user_command_userdel args)" "safe (user_command_groupdel args)"
  unfolding user_command_userdel_def user_command_groupdel_def
  by (intro safe_rules safe_delete_user, intro safe_rules safe_delete_group)

lemma safe_groupadd: "safe (user_command_groupadd args)"
  unfolding user_command_groupadd_def by (intro safe_rules session_ok_group_add)

lemma safe_gpasswd: "safe (user_command_gpasswd args)"
  unfolding user_command_gpasswd_def
  by (intro safe_as_root safe_prod safe_if safe_print safe_table_op) (auto simp: session_ok_add_to_group session_ok_remove_from_group)

lemma modify_user_ok:
  assumes s: "session_ok s" and i: "i < length (accounts s)"
  shows "session_ok (snd (modify_user action name val i s))"
proof -
  have saved: "safe (bind (try_user user_save_state) (\<lambda>_. user_print_line t) :: ('a, unit) userop)" for t by (intro safe_rules)
  have add: "safe (table_op (user_add_to_group name val) t (save_groups_then u) :: ('a, unit) userop)" for t u
    by (intro safe_rules session_ok_add_to_group)
  have del: "safe (table_op (user_remove_from_group name val) t (save_groups_then u) :: ('a, unit) userop)" for t u
    by (intro safe_rules session_ok_remove_from_group)
  obtain ok t where t: "group_add_internal val s = (ok, t)" by fastforce
  have "session_ok t" "i < length (accounts t)" using session_ok_group_add [OF s, of val] accounts_kept(1) [of val s] i t by simp_all
  then show ?thesis
    using session_ok_role [OF s i] s
    by (simp add: modify_user_def table_op_def [of "group_add_internal val"] t safeD [OF saved] safeD [OF safe_print(1)] session_ok_primary
      safeD [OF add] safeD [OF del])
qed

lemma safe_usermod: "safe (user_command_usermod args)"
  unfolding user_command_usermod_def
  by (intro safe_as_root safe_at)
     (auto simp: safeD [OF safe_print(1)] modify_user_ok split: prod.splits option.splits dest: user_find_Some)

lemma safe_command: "c_string args \<Longrightarrow> (n, f) \<in> set user_commands \<Longrightarrow> safe (f args)"
proof -
  assume c: "c_string args" and f: "(n, f) \<in> set user_commands"
  have "safe (user_command_login args)" "safe (user_command_su args)"
    unfolding user_command_login_def user_command_su_def by (rule safe_login)+
  note cmds = this safe_read_only safe_logout safe_sudo safe_passwd safe_useradd [OF c] safe_delete safe_groupadd safe_gpasswd safe_usermod
  have "list_all (\<lambda>(n, f). safe (f args)) user_commands"
    unfolding user_commands_def list.pred_inject prod.case by (intro conjI TrueI cmds list.pred_inject(1))
  then show ?thesis using f by (auto simp: list_all_iff)
qed

lemma safe_create_account:
  assumes "c_string name"
  shows "safe (k64_user_create_account name pw sudoer)"
proof (rule safe_at)
  fix s :: "'a user_state"
  assume s: "session_ok s"
  obtain ok t where t: "user_add_account name pw False sudoer (user_copy K64_GROUP_NAME_MAX name) False s = (ok, t)" by fastforce
  have "session_ok t" using session_ok_add_account [OF s assms, of pw False sudoer "user_copy K64_GROUP_NAME_MAX name" False] t by simp
  moreover have "safe (bind (own_home name) (\<lambda>_. user_save_state) :: ('a, unit) userop)"
    unfolding own_home_def Let_def by (rule safe_quiet, intro quiet_rules)
  ultimately show "session_ok (snd (k64_user_create_account name pw sudoer s))"
    using s by (simp add: k64_user_create_account_def t safeD session_ok_regroup)
qed

lemma safe_scopes: "session_ok s \<Longrightarrow> session_ok (k64_user_begin_sudo_scope s)" "session_ok s \<Longrightarrow> session_ok (k64_user_end_sudo_scope s)"
  by (auto simp: k64_user_begin_sudo_scope_def k64_user_end_sudo_scope_def ready_user_def logged_in_def session_ok_def tables_ok_def
    split: option.splits if_splits)

lemma safe_stop: "safe k64_user_service_stop"
  by (auto simp: safe_def k64_user_service_stop_def user_print_line_def user_write_def session_ok_def tables_ok_def)

section \<open>Start and reachable states\<close>

lemma tables_ok_same: "same_session s t \<Longrightarrow> tables_ok t = tables_ok s"
  by (simp add: same_session_def tables_ok_def)

lemma quiet_tables: "quiet m \<Longrightarrow> m s = (r, t) \<Longrightarrow> tables_ok t = tables_ok s"
  using quietD [of m s] tables_ok_same by auto

text \<open>After the accounts were loaded, whatever the file held, the tables are in order.\<close>

lemma load_db_ok:
  assumes "user_load_db s = (r, t)" and "r \<noteq> Fault"
  shows "tables_ok t"
proof -
  obtain b u where u: "attempt (on_ufs (k64_fs_cat (Some K64_USER_DB_PATH) 1024)) s = (b, u)" by fastforce
  define tx where "tx c = (case c of None \<Rightarrow> [] | Some b \<Rightarrow> array_str b)" for c :: "bytes option"
  define loaded where "loaded c = fold load_account (db_lines (tx c)) (user_reset_state u)" for c
  have seeded: "tables_ok t" if "user_save_state (user_seed_defaults v) = (r, t)" for v :: "'a user_state"
    using quiet_tables [OF quiet_save_state that] ok_seed by blast
  have "b \<noteq> Fail" using u by (auto simp: attempt_def split: prod.splits res.splits)
  moreover have "b \<noteq> Fault" using assms u by (auto simp: user_load_db_def bind_def)
  ultimately obtain c where b: "b = Ok c" by (cases b) auto
  have nul: "CHR 0x00 \<notin> set (tx c)" by (auto simp: tx_def array_str_def dest: set_takeWhileD split: option.splits)
  then have ok: "tables_ok (loaded c)" unfolding loaded_def by (intro ok_load_accounts ok_reset) (auto intro: db_lines_c_string)
  have "user_load_db s = (if tx c = [] then user_save_state (user_seed_defaults u)
      else if accounts (loaded c) = [] then user_save_state (user_seed_defaults (loaded c)) else (Ok (), loaded c))"
    using u b by (simp add: user_load_db_def bind_run Let_def tx_def [symmetric] loaded_def)
  then show ?thesis using assms(1) ok seeded by (auto split: if_splits)
qed

lemma load_groups_tables:
  assumes "tables_ok s" and "user_load_groups_db s = (r, t)" and "r \<noteq> Fault"
  shows "tables_ok t"
proof -
  obtain b u where u: "attempt (on_ufs (k64_fs_cat (Some K64_GROUP_DB_PATH) 1024)) s = (b, u)" by fastforce
  have "quiet (attempt (on_ufs (k64_fs_cat (Some K64_GROUP_DB_PATH) 1024)) :: ('a, bytes option) userop)" by (intro quiet_rules)
  from quiet_tables [OF this u] have tu: "tables_ok u" using assms(1) by blast
  define tx where "tx c = (case c of None \<Rightarrow> [] | Some b \<Rightarrow> array_str b)" for c :: "bytes option"
  define loaded where "loaded c = user_sync_role_groups (user_ensure_primary_groups (fold load_group (db_lines (tx c)) u))" for c
  have ok: "tables_ok (loaded c)" for c
    unfolding loaded_def using ok_sync ok_ensure_primaries ok_load_groups [OF tu] by blast
  have "b \<noteq> Fail" using u by (auto simp: attempt_def split: prod.splits res.splits)
  moreover have "b \<noteq> Fault" using assms u by (auto simp: user_load_groups_db_def bind_def)
  ultimately obtain c where b: "b = Ok c" by (cases b) auto
  have "user_load_groups_db s = (if tx c = [] then user_save_groups_db (loaded c) else (Ok (), loaded c))"
    using u b by (simp add: user_load_groups_db_def bind_run Let_def tx_def [symmetric] loaded_def)
  moreover have "tables_ok t" if "user_save_groups_db (loaded c) = (r, t)"
    using quiet_tables [OF quiet_save(2) that] ok by blast
  ultimately show ?thesis using assms(2) ok by (auto split: if_splits)
qed

text \<open>What start does to the tables, before the session is reset.\<close>

lemma start_tables:
  assumes "bind (user_ensure_dir ''/etc'') (\<lambda>_. bind (user_ensure_dir ''/usr'') (\<lambda>_. bind (attempt user_load_db) (\<lambda>loaded.
      bind (if loaded = None then bind (modify user_seed_defaults) (\<lambda>_. try_user user_save_state) else try_user user_load_groups_db) (\<lambda>_.
      user_ensure_layout)))) s = (Ok (), t)"
  shows "tables_ok t"
proof -
  obtain u l v w where l: "attempt user_load_db u = (Ok l, v)"
    and g: "(if l = None then bind (modify user_seed_defaults) (\<lambda>_. try_user user_save_state) else try_user user_load_groups_db) v = (Ok (), w)"
    and t: "user_ensure_layout w = (Ok (), t)"
    using assms by (auto simp: bind_Ok_eq)
  have v: "tables_ok v" using l load_db_ok [of u _ v] by (auto simp: attempt_Ok_eq)
  have "tables_ok w"
  proof (cases "l = None")
    case True
    then have "try_user user_save_state (user_seed_defaults v) = (Ok (), w)" using g by simp
    from quiet_tables [OF quiet_try_user [OF quiet_save_state] this] show ?thesis using ok_seed by blast
  next
    case False
    then obtain r where "user_load_groups_db v = (r, w)" "r \<noteq> Fault"
      using g by (auto simp: try_user_def bind_Ok_eq attempt_Ok_eq)
    then show ?thesis using load_groups_tables [OF v] by blast
  qed
  then show ?thesis using quiet_tables [OF quiet_layout t] by blast
qed

lemma start_ok:
  assumes "k64_user_service_start s = (Ok (), t)"
  shows "session_ok t"
proof -
  obtain u where u: "tables_ok u" and t: "user_print_line ''[svc] userctl started'' (u\<lparr>current_index := -1, sudo_active := False, u_ready := True\<rparr>) = (Ok (), t)"
  proof (cases "k64_fs_driver_running (u_fs s)")
    case True
    then show ?thesis using assms start_tables [of s] that unfolding k64_user_service_start_def by (auto simp: bind_Ok_eq)
  next
    case False
    then show ?thesis using assms ok_seed that unfolding k64_user_service_start_def by (auto simp: bind_Ok_eq)
  qed
  have "session_ok (u\<lparr>current_index := -1, sudo_active := False, u_ready := True\<rparr>)" using u by (simp add: session_ok_def tables_ok_session)
  then show ?thesis using safeD [OF safe_print(1)] t by (metis snd_conv)
qed

text \<open>
  The states of the service: it starts over any contents of the two files, and then any of its commands and
  entry points is called, with any arguments that are C strings.
\<close>

inductive user_reachable :: "'g user_state \<Rightarrow> bool" where
  start: "k64_user_service_start s = (Ok (), t) \<Longrightarrow> user_reachable t"
| command: "user_reachable s \<Longrightarrow> (n, f) \<in> set user_commands \<Longrightarrow> c_string args \<Longrightarrow> f args s = (r, t) \<Longrightarrow> user_reachable t"
| create: "user_reachable s \<Longrightarrow> c_string name \<Longrightarrow> k64_user_create_account name pw sudoer s = (r, t) \<Longrightarrow> user_reachable t"
| begin_sudo: "user_reachable s \<Longrightarrow> user_reachable (k64_user_begin_sudo_scope s)"
| end_sudo: "user_reachable s \<Longrightarrow> user_reachable (k64_user_end_sudo_scope s)"
| stop: "user_reachable s \<Longrightarrow> k64_user_service_stop s = (r, t) \<Longrightarrow> user_reachable t"

lemma reachable_session_ok: "user_reachable s \<Longrightarrow> session_ok s"
proof (induction rule: user_reachable.induct)
  case (start s t)
  then show ?case by (rule start_ok)
next
  case (command s n f args r t)
  then show ?case using safeD [OF safe_command] by (metis snd_conv)
next
  case (create s name pw sudoer r t)
  then show ?case using safeD [OF safe_create_account] by (metis snd_conv)
next
  case (stop s r t)
  then show ?case using safeD [OF safe_stop] by (metis snd_conv)
qed (auto intro: safe_scopes)

text \<open>C28: in every reachable state of the accounts service the tables are inside their arrays and the texts inside
  their fields, every account has a name, every root account is a sudoer, no group has a member without an
  account (so a new account inherits no membership), and root rights belong to an account that is logged in.\<close>

theorem user_reachable_invariant:
  assumes "user_reachable s"
  shows "length (accounts s) \<le> K64_USER_MAX_ACCOUNTS \<and> length (groups s) \<le> K64_GROUP_MAX \<and>
    (\<forall>a\<in>set (accounts s). account_fits a) \<and> (\<forall>g\<in>set (groups s). group_fits (length (accounts s)) g) \<and>
    -1 \<le> current_index s \<and> current_index s < int (length (accounts s)) \<and>
    (sudo_active s \<or> k64_user_is_root s \<longrightarrow> logged_in s \<noteq> None)"
proof -
  have ok: "tables_ok s" "-1 \<le> current_index s" "current_index s < int (length (accounts s))" "sudo_active s \<longrightarrow> current_index s \<noteq> -1"
    using reachable_session_ok [OF assms] by (simp_all add: session_ok_def)
  then have "sudo_active s \<longrightarrow> logged_in s \<noteq> None" by (auto simp: logged_in_def)
  moreover have "k64_user_is_root s \<longrightarrow> logged_in s \<noteq> None" by (auto simp: k64_user_is_root_def ready_user_def split: option.splits if_splits)
  ultimately show ?thesis using ok by (auto simp: tables_ok_def)
qed

theorem user_reachable_invariant_witness:
  "\<exists>s :: unit user_state. user_reachable s \<and> length (accounts s) \<le> K64_USER_MAX_ACCOUNTS"
proof -
  define s :: "unit user_state" where "s = demo_users\<lparr>u_fs := undefined\<lparr>fs_running := False\<rparr>\<rparr>"
  have "\<not> k64_fs_driver_running (u_fs s)" by (simp add: s_def k64_fs_driver_running_def)
  then obtain t where "k64_user_service_start s = (Ok (), t)"
    by (simp add: k64_user_service_start_def bind_def user_print_line_def user_write_def)
  then have "user_reachable t" by (rule start)
  then show ?thesis using user_reachable_invariant by blast
qed

end
