(* ===== verification/Service.thy ===== *)
theory Service
  imports Klcs User Vmm
begin

text \<open>
  The service manager, \<^verbatim>\<open>src/k64_system.c\<close>: the registry of services with their start and stop, the commands
  and calls they register, the dispatch of a call with its access policy, the message exchange with services
  that run as user processes, and the calls of the kernel, the file system and the service manager itself.

  A C function pointer is the name of its function. What such a name does is a parameter, a record \<open>service_env\<close>
  of functions on the state, as are the entries of the ELF loader and of user mode that this file calls:
  executing a program, the path and the identifiers of the running process. The functions of this file that
  are registered by name are looked up before the parameter. The table of services is the list of its used
  entries. The field \<^verbatim>\<open>task\<close> of a service is only ever set to \<^verbatim>\<open>NULL\<close>, so the branch that stops a task is left out.
\<close>

section \<open>State\<close>

definition K64_MAX_SERVICES :: nat where "K64_MAX_SERVICES = 32"
definition K64_MAX_SERVICE_COMMANDS :: nat where "K64_MAX_SERVICE_COMMANDS = 96"
definition K64_MAX_SERVICE_CALLS :: nat where "K64_MAX_SERVICE_CALLS = 128"
definition K64_MAX_SERVICE_MESSAGES :: nat where "K64_MAX_SERVICE_MESSAGES = 8"
definition K64_SERVICE_CALL_NAME_MAX :: nat where "K64_SERVICE_CALL_NAME_MAX = 32"
definition K64_SERVICE_CALL_OWNER_MAX :: nat where "K64_SERVICE_CALL_OWNER_MAX = 32"
definition K64_SERVICE_CALL_PAYLOAD_MAX :: nat where "K64_SERVICE_CALL_PAYLOAD_MAX = 65536"
definition K64_SERVICE_MSG_DATA_MAX :: nat where "K64_SERVICE_MSG_DATA_MAX = 65400"
definition K64_SYSTEM_PID_BASE :: u64 where "K64_SYSTEM_PID_BASE = 1000"
definition K64_ROOT_PID_BASE :: u64 where "K64_ROOT_PID_BASE = 2000"
definition K64_USER_PID_BASE :: u64 where "K64_USER_PID_BASE = 3000"
definition K64_SERVICE_FLAG_ASYNC :: u32 where "K64_SERVICE_FLAG_ASYNC = 1"
definition K64_SERVICE_FLAG_AUTOSTART :: u32 where "K64_SERVICE_FLAG_AUTOSTART = 2"
definition K64_SERVICE_FLAG_ESSENTIAL :: u32 where "K64_SERVICE_FLAG_ESSENTIAL = 4"
definition K64_SERVICE_FLAG_RING3_REQUIRED :: u32 where "K64_SERVICE_FLAG_RING3_REQUIRED = 8"
definition K64_SERVICE_CALL_FLAG_PUBLIC :: u32 where "K64_SERVICE_CALL_FLAG_PUBLIC = 1"
definition K64_SERVICE_CALL_FLAG_KERNEL_ONLY :: u32 where "K64_SERVICE_CALL_FLAG_KERNEL_ONLY = 2"
definition K64_SERVICE_CALL_FLAG_ROOT_ONLY :: u32 where "K64_SERVICE_CALL_FLAG_ROOT_ONLY = 4"
definition K64_SERVICE_CALL_FLAG_USER_ALLOWED :: u32 where "K64_SERVICE_CALL_FLAG_USER_ALLOWED = 8"
definition K64_SERVICE_CALL_FLAG_CAN_SPAWN :: u32 where "K64_SERVICE_CALL_FLAG_CAN_SPAWN = 16"
definition K64_SERVICE_CALL_FLAG_CAN_WRITE_FS :: u32 where "K64_SERVICE_CALL_FLAG_CAN_WRITE_FS = 32"
definition K64_SERVICE_CALLER_KERNEL :: u64 where "K64_SERVICE_CALLER_KERNEL = 1"
definition K64_SERVICE_CALLER_ROOT :: u64 where "K64_SERVICE_CALLER_ROOT = 2"
definition K64_OK :: int where "K64_OK = 0"
definition K64_ERR_AGAIN :: int where "K64_ERR_AGAIN = - 6"
definition K64_ERR_OVERFLOW :: int where "K64_ERR_OVERFLOW = - 9"
definition K64_ERR_BUSY :: int where "K64_ERR_BUSY = - 13"

datatype k64_service_run = K64_SERVICE_STATE_STOPPED | K64_SERVICE_STATE_RUNNING

datatype k64_service_result = K64_SERVICE_OK | K64_SERVICE_ERR_NOT_FOUND | K64_SERVICE_ERR_ALREADY_RUNNING
  | K64_SERVICE_ERR_ALREADY_STOPPED | K64_SERVICE_ERR_ESSENTIAL | K64_SERVICE_ERR_UNMANAGED | K64_SERVICE_ERR_START_FAILED

datatype k64_service_call_backend = K64_SERVICE_CALL_BACKEND_KERNEL | K64_SERVICE_CALL_BACKEND_RING3_MESSAGE

datatype k64_service_msg_state = K64_SERVICE_MSG_EMPTY | K64_SERVICE_MSG_PENDING | K64_SERVICE_MSG_ACTIVE | K64_SERVICE_MSG_DONE

record k64_service =
  sv_pid :: u64
  sv_name :: string
  sv_source :: string
  sv_class :: k64_service_class
  sv_state :: k64_service_run
  sv_flags :: u32
  sv_priority :: u32
  sv_poll_interval_ticks :: u32
  sv_start_count :: u64
  sv_stop_count :: u64
  sv_last_start_tick :: u64
  sv_last_poll_tick :: u64
  sv_managed_pid :: u64
  sv_user_pid :: u64
  sv_controllable :: bool
  sv_ring3_required :: bool
  sv_ring3_verified :: bool
  sv_entry_path :: string
  sv_start :: string
  sv_stop :: string
  sv_poll :: "string option"
  sv_vm_space :: k64_vm_space

record k64_service_command =
  cm_name :: string
  cm_owner :: string
  cm_handler :: "string option"
  cm_active :: bool

record k64_service_call =
  sc_owner :: string
  sc_name :: string
  sc_flags :: u32
  sc_backend :: k64_service_call_backend
  sc_handler :: "string option"
  sc_active :: bool

record k64_service_msg =
  m_state :: k64_service_msg_state
  m_request_id :: u64
  m_caller_pid :: u64
  m_caller_uid :: u64
  m_caller_flags :: u64
  m_service_pid :: u64
  m_service :: string
  m_method :: string
  m_request :: bytes
  m_response :: bytes
  m_response_capacity :: nat
  m_status :: int

text \<open>A staging slot of the system call gate; its two buffers are the values that the gate passes on.\<close>

record k64_user_service_scratch =
  ss_used :: bool
  ss_owner_pid :: u64

record 'g service_state =
  sv_services :: "k64_service list"
  sv_commands :: "k64_service_command list"
  sv_calls :: "k64_service_call list"
  sv_msgs :: "k64_service_msg list"
  next_service_request_id :: u64
  sv_scratch :: "k64_user_service_scratch list"
  next_system_pid :: u64
  next_root_pid :: u64
  next_user_pid :: u64
  sv_vm :: vmm
  sv_fs :: "'g filesystem"
  sv_ticks :: u64
  sv_term :: string

type_synonym ('g, 'a) svcop = "('g service_state, 'a) op"

text \<open>
  A request: \<open>rq_in\<close> is the input or \<open>None\<close> for a null pointer, \<open>rq_out\<close> the size of the output buffer or
  \<open>None\<close>. The answer of a handler is its status, the bytes it wrote to the start of the output buffer and
  the length it reports.
\<close>

record k64_service_call_request =
  rq_caller_pid :: u64
  rq_caller_uid :: u64
  rq_caller_flags :: u64
  rq_service :: string
  rq_method :: string
  rq_in :: "bytes option"
  rq_out :: "nat option"
  rq_flags :: u32

record call_answer =
  an_status :: int
  an_out :: bytes
  an_length :: nat

record 'g service_env =
  e_start :: "string \<Rightarrow> nat \<Rightarrow> 'g service_state \<Rightarrow> bool \<times> 'g service_state"
  e_stop :: "string \<Rightarrow> nat \<Rightarrow> 'g service_state \<Rightarrow> 'g service_state"
  e_poll :: "string \<Rightarrow> nat \<Rightarrow> 'g service_state \<Rightarrow> 'g service_state"
  e_command :: "string \<Rightarrow> string \<Rightarrow> string \<Rightarrow> 'g service_state \<Rightarrow> bool \<times> 'g service_state"
  e_call :: "string \<Rightarrow> k64_service_call_request \<Rightarrow> ('g, call_answer) svcop"
  e_exec :: "string \<Rightarrow> string \<Rightarrow> 'g service_state \<Rightarrow> bool \<times> 'g service_state"
  e_nested :: "string \<Rightarrow> string \<Rightarrow> 'g service_state \<Rightarrow> bool \<times> 'g service_state"
  e_spawn :: "string \<Rightarrow> string \<Rightarrow> 'g service_state \<Rightarrow> bool \<times> 'g service_state"
  e_path :: "'g service_state \<Rightarrow> string option"
  e_uid :: "'g service_state \<Rightarrow> u32"
  e_gid :: "'g service_state \<Rightarrow> u32"
  e_version :: string

definition answer :: "int \<Rightarrow> ('g, call_answer) svcop" where
  "answer status = ret \<lparr>an_status = status, an_out = [], an_length = 0\<rparr>"

definition on_sfs :: "('g, 'a) fsop \<Rightarrow> ('g, 'a) svcop" where
  "on_sfs m s = (case m (sv_fs s) of (r, f) \<Rightarrow> (r, s\<lparr>sv_fs := f\<rparr>))"

definition svc_write :: "string \<Rightarrow> 'g service_state \<Rightarrow> 'g service_state" where
  "svc_write t s = s\<lparr>sv_term := sv_term s @ t\<rparr>"

section \<open>Text\<close>

definition svc_copy :: "nat \<Rightarrow> string \<Rightarrow> string" where
  "svc_copy dst_size src = str_copy [] dst_size (Some src)"

definition has_suffix :: "string \<Rightarrow> string \<Rightarrow> bool" where
  "has_suffix t suffix \<longleftrightarrow> length suffix \<le> length t \<and> k64_streq (Some (drop (length t - length suffix) t)) (Some suffix)"

definition svc_starts_with :: "string \<Rightarrow> string \<Rightarrow> bool" where
  "svc_starts_with t pre \<longleftrightarrow> take (length pre) t = pre"

fun path_has_traversal :: "string \<Rightarrow> bool" where
  "path_has_traversal [] = False"
| "path_has_traversal (c # cs) = ((c = CHR ''.'' \<and> cs \<noteq> [] \<and> hd cs = CHR ''.'') \<or> path_has_traversal cs)"

definition name_char :: "char \<Rightarrow> bool" where
  "name_char c \<longleftrightarrow> (let n = of_char c :: nat in (97 \<le> n \<and> n \<le> 122) \<or> (65 \<le> n \<and> n \<le> 90) \<or> (48 \<le> n \<and> n \<le> 57)) \<or>
     c = CHR ''_'' \<or> c = CHR ''-'' \<or> c = CHR ''.''"

definition name_valid :: "string \<Rightarrow> nat \<Rightarrow> bool" where
  "name_valid name max_len \<longleftrightarrow> name \<noteq> [] \<and> length name < max_len \<and> list_all name_char name"

text \<open>The parts around the first dot, when both fit their buffers and are not empty.\<close>

definition split_service_method :: "string \<Rightarrow> nat \<Rightarrow> nat \<Rightarrow> (string \<times> string) option" where
  "split_service_method t service_size method_size =
     (let service = takeWhile (\<lambda>c. c \<noteq> CHR ''.'') t;
          rest = drop (length service) t;
          method = takeWhile (\<lambda>c. \<not> user_ws c) (tl rest)
      in if length service \<ge> service_size \<or> rest = [] \<or> length method \<ge> method_size \<or> service = [] \<or> method = []
         then None else Some (service, method))"

definition call_flags_text :: "u32 \<Rightarrow> string" where
  "call_flags_text flags =
     (if flags AND K64_SERVICE_CALL_FLAG_PUBLIC \<noteq> 0 then ''public '' else []) @
     (if flags AND K64_SERVICE_CALL_FLAG_USER_ALLOWED \<noteq> 0 then ''user '' else []) @
     (if flags AND K64_SERVICE_CALL_FLAG_KERNEL_ONLY \<noteq> 0 then ''kernel '' else []) @
     (if flags AND K64_SERVICE_CALL_FLAG_CAN_WRITE_FS \<noteq> 0 then ''writefs '' else []) @
     (if flags AND K64_SERVICE_CALL_FLAG_CAN_SPAWN \<noteq> 0 then ''spawn '' else [])"

text \<open>The answer that copies \<open>data\<close> to the output buffer, as much of it as fits.\<close>

definition copy_response :: "k64_service_call_request \<Rightarrow> bytes \<Rightarrow> call_answer" where
  "copy_response req data =
     \<lparr>an_status = K64_OK, an_out = (case rq_out req of None \<Rightarrow> [] | Some n \<Rightarrow> take n data), an_length = length data\<rparr>"

definition text_bytes :: "string \<Rightarrow> bytes" where
  "text_bytes t = map char_byte t @ [0]"

section \<open>The registry\<close>

definition service_is_ring0_kernel :: "k64_service \<Rightarrow> bool" where
  "service_is_ring0_kernel sv \<longleftrightarrow> sv_class sv = K64_SERVICE_CLASS_KERNEL \<and> k64_streq (Some (sv_name sv)) (Some ''kernel'')"

definition allocate_pid :: "k64_service_class \<Rightarrow> 'g service_state \<Rightarrow> u64 \<times> 'g service_state" where
  "allocate_pid c s =
     (case c of
        K64_SERVICE_CLASS_KERNEL \<Rightarrow> (0, s)
      | K64_SERVICE_CLASS_ROOT \<Rightarrow> (next_root_pid s, s\<lparr>next_root_pid := next_root_pid s + 1\<rparr>)
      | K64_SERVICE_CLASS_USER \<Rightarrow> (next_user_pid s, s\<lparr>next_user_pid := next_user_pid s + 1\<rparr>)
      | K64_SERVICE_CLASS_SYSTEM \<Rightarrow> (next_system_pid s, s\<lparr>next_system_pid := next_system_pid s + 1\<rparr>))"

text \<open>The result is the index of the new entry.\<close>

definition k64_system_register_service ::
    "cstr \<Rightarrow> cstr \<Rightarrow> k64_service_class \<Rightarrow> u32 \<Rightarrow> u32 \<Rightarrow> u32 \<Rightarrow> bool \<Rightarrow> string option \<Rightarrow> string option \<Rightarrow> string option \<Rightarrow>
     'g service_state \<Rightarrow> nat option \<times> 'g service_state" where
  "k64_system_register_service name source c flags priority interval controllable start stop poll s =
     (if length (sv_services s) \<ge> K64_MAX_SERVICES then (None, s)
      else
        let c = (if c = K64_SERVICE_CLASS_KERNEL \<and> \<not> k64_streq name (Some ''kernel'') then K64_SERVICE_CLASS_SYSTEM else c) in
        case allocate_pid c s of (pid, s) \<Rightarrow>
        let sv = \<lparr>sv_pid = pid, sv_name = svc_copy 32 (case name of None \<Rightarrow> ''unnamed'' | Some n \<Rightarrow> n),
              sv_source = svc_copy 48 (case source of None \<Rightarrow> ''k64s'' | Some t \<Rightarrow> t), sv_class = c, sv_state = K64_SERVICE_STATE_STOPPED,
              sv_flags = flags, sv_priority = priority, sv_poll_interval_ticks = interval, sv_start_count = 0, sv_stop_count = 0,
              sv_last_start_tick = 0, sv_last_poll_tick = 0, sv_managed_pid = pid, sv_user_pid = 0, sv_controllable = controllable,
              sv_ring3_required = False, sv_ring3_verified = False, sv_entry_path = [],
              sv_start = (case start of None \<Rightarrow> ''default_start'' | Some f \<Rightarrow> f), sv_stop = (case stop of None \<Rightarrow> ''default_stop'' | Some f \<Rightarrow> f),
              sv_poll = poll, sv_vm_space = blank_space\<rparr>;
            kernel = service_is_ring0_kernel sv;
            sv = sv\<lparr>sv_ring3_required := \<not> kernel, sv_ring3_verified := kernel\<rparr>;
            sv = (if kernel then sv
                  else sv\<lparr>sv_entry_path := svc_copy 96 ''/ex/servicehost.elf'', sv_flags := flags OR K64_SERVICE_FLAG_RING3_REQUIRED\<rparr>)
        in (Some (length (sv_services s)), s\<lparr>sv_services := sv_services s @ [sv]\<rparr>))"

definition set_service :: "nat \<Rightarrow> (k64_service \<Rightarrow> k64_service) \<Rightarrow> 'g service_state \<Rightarrow> 'g service_state" where
  "set_service i f s = s\<lparr>sv_services := (sv_services s)[i := f (sv_services s ! i)]\<rparr>"

definition k64_system_find_service :: "u64 \<Rightarrow> 'g service_state \<Rightarrow> nat option" where
  "k64_system_find_service pid s = index_of (\<lambda>sv. sv_managed_pid sv = pid) (sv_services s)"

definition k64_system_find_service_by_name :: "string \<Rightarrow> 'g service_state \<Rightarrow> nat option" where
  "k64_system_find_service_by_name name s = index_of (\<lambda>sv. k64_streq (Some (sv_name sv)) (Some name)) (sv_services s)"

definition is_running :: "nat option \<Rightarrow> 'g service_state \<Rightarrow> bool" where
  "is_running i s = (case i of None \<Rightarrow> False | Some i \<Rightarrow> sv_state (sv_services s ! i) = K64_SERVICE_STATE_RUNNING)"

definition k64_system_is_service_running :: "string \<Rightarrow> 'g service_state \<Rightarrow> bool" where
  "k64_system_is_service_running name s = is_running (k64_system_find_service_by_name name s) s"

definition k64_system_control_plane_online :: "'g service_state \<Rightarrow> bool" where
  "k64_system_control_plane_online s = k64_system_is_service_running ''servicectl'' s"

definition no_command :: k64_service_command where
  "no_command = \<lparr>cm_name = [], cm_owner = [], cm_handler = None, cm_active = False\<rparr>"

definition no_call :: k64_service_call where
  "no_call = \<lparr>sc_owner = [], sc_name = [], sc_flags = 0, sc_backend = K64_SERVICE_CALL_BACKEND_KERNEL, sc_handler = None, sc_active = False\<rparr>"

definition k64_system_register_command :: "cstr \<Rightarrow> cstr \<Rightarrow> string option \<Rightarrow> 'g service_state \<Rightarrow> bool \<times> 'g service_state" where
  "k64_system_register_command owner command handler s =
     (case index_of (\<lambda>c. \<not> cm_active c) (sv_commands s) of
        None \<Rightarrow> (False, s)
      | Some i \<Rightarrow> (True, s\<lparr>sv_commands := (sv_commands s)[i := \<lparr>cm_name = svc_copy 16 (str_of command),
          cm_owner = svc_copy 32 (case owner of None \<Rightarrow> ''service'' | Some t \<Rightarrow> t), cm_handler = handler, cm_active = True\<rparr>]\<rparr>))"

definition k64_system_unregister_commands :: "string \<Rightarrow> 'g service_state \<Rightarrow> 'g service_state" where
  "k64_system_unregister_commands owner s =
     s\<lparr>sv_commands := map (\<lambda>c. if cm_active c \<and> k64_streq (Some (cm_owner c)) (Some owner) then no_command else c) (sv_commands s)\<rparr>"

definition is_call :: "string \<Rightarrow> string \<Rightarrow> k64_service_call \<Rightarrow> bool" where
  "is_call owner name c \<longleftrightarrow> sc_active c \<and> k64_streq (Some (sc_owner c)) (Some owner) \<and> k64_streq (Some (sc_name c)) (Some name)"

definition k64_system_register_call_backend ::
    "string \<Rightarrow> string \<Rightarrow> u32 \<Rightarrow> k64_service_call_backend \<Rightarrow> string option \<Rightarrow> 'g service_state \<Rightarrow> bool \<times> 'g service_state" where
  "k64_system_register_call_backend owner name flags backend handler s =
     (if \<not> name_valid owner K64_SERVICE_CALL_OWNER_MAX \<or> \<not> name_valid name K64_SERVICE_CALL_NAME_MAX \<or>
         (backend = K64_SERVICE_CALL_BACKEND_KERNEL \<and> handler = None) then (False, s)
      else if list_ex (is_call owner name) (sv_calls s) then (False, s)
      else case index_of (\<lambda>c. \<not> sc_active c) (sv_calls s) of
          None \<Rightarrow> (False, s)
        | Some i \<Rightarrow> (True, s\<lparr>sv_calls := (sv_calls s)[i := \<lparr>sc_owner = svc_copy K64_SERVICE_CALL_OWNER_MAX owner,
            sc_name = svc_copy K64_SERVICE_CALL_NAME_MAX name, sc_flags = flags, sc_backend = backend, sc_handler = handler, sc_active = True\<rparr>]\<rparr>))"

definition k64_system_register_call :: "string \<Rightarrow> string \<Rightarrow> u32 \<Rightarrow> string option \<Rightarrow> 'g service_state \<Rightarrow> bool \<times> 'g service_state" where
  "k64_system_register_call owner name flags handler = k64_system_register_call_backend owner name flags K64_SERVICE_CALL_BACKEND_KERNEL handler"

definition k64_system_unregister_calls :: "string \<Rightarrow> 'g service_state \<Rightarrow> 'g service_state" where
  "k64_system_unregister_calls owner s =
     s\<lparr>sv_calls := map (\<lambda>c. if sc_active c \<and> k64_streq (Some (sc_owner c)) (Some owner) then no_call else c) (sv_calls s)\<rparr>"

definition k64_system_call_exists :: "string \<Rightarrow> string \<Rightarrow> 'g service_state \<Rightarrow> bool" where
  "k64_system_call_exists service method s = list_ex (is_call service method) (sv_calls s)"

section \<open>Start and stop\<close>

definition rootfs_service_start :: "'g service_env \<Rightarrow> nat \<Rightarrow> string \<Rightarrow> 'g service_state \<Rightarrow> bool \<times> 'g service_state" where
  "rootfs_service_start env i ctx_path s =
     (if ctx_path = [] then (False, svc_write (''[svc] rootfs service has no entry'' @ newline) s)
      else
        case e_exec env ctx_path (sv_name (sv_services s ! i)) (svc_write (''[svc] exec '' @ ctx_path @ newline) s) of (ok, s) \<Rightarrow>
        if ok then (True, set_service i (\<lambda>sv. sv\<lparr>sv_ring3_verified := True\<rparr>) s) else (False, s))"

text \<open>A start function by its name; the entry path of a service from the root file system is its context.\<close>

definition run_start :: "'g service_env \<Rightarrow> nat \<Rightarrow> 'g service_state \<Rightarrow> bool \<times> 'g service_state" where
  "run_start env i s =
     (let sv = sv_services s ! i in
      if sv_start sv = ''default_start'' then (True, s)
      else if sv_start sv = ''rootfs_service_start'' then rootfs_service_start env i (take 63 (sv_entry_path sv)) s
      else e_start env (sv_start sv) i s)"

definition run_stop :: "'g service_env \<Rightarrow> nat \<Rightarrow> 'g service_state \<Rightarrow> 'g service_state" where
  "run_stop env i s = (if sv_stop (sv_services s ! i) = ''default_stop'' then s else e_stop env (sv_stop (sv_services s ! i)) i s)"

definition service_verify_ring3_host :: "'g service_env \<Rightarrow> nat \<Rightarrow> 'g service_state \<Rightarrow> bool \<times> 'g service_state" where
  "service_verify_ring3_host env i s =
     (let sv = sv_services s ! i in
      if sv_ring3_verified sv then (True, s)
      else if service_is_ring0_kernel sv then (True, set_service i (\<lambda>sv. sv\<lparr>sv_ring3_verified := True\<rparr>) s)
      else
        let entry = (if sv_entry_path sv = [] then ''/ex/servicehost.elf'' else sv_entry_path sv);
            args = svc_copy 64 (if sv_name sv = [] then ''service'' else sv_name sv) in
        case e_exec env entry args (svc_write (''[svc] ring3 host '' @ sv_name sv @ '' -> '' @ entry @ newline) s) of (ok, s) \<Rightarrow>
        if ok then (True, set_service i (\<lambda>sv. sv\<lparr>sv_ring3_verified := True\<rparr>) s)
        else (False, svc_write (''[svc] ring3 host failed '' @ sv_name sv @ newline) s))"

definition release_space :: "nat \<Rightarrow> 'g service_state \<Rightarrow> 'g service_state" where
  "release_space i s =
     (case k64_vmm_release_service_space (sv_vm s, sv_vm_space (sv_services s ! i)) of (vm, sp) \<Rightarrow>
      set_service i (\<lambda>sv. sv\<lparr>sv_vm_space := sp\<rparr>) (s\<lparr>sv_vm := vm\<rparr>))"

definition unregister_all :: "nat \<Rightarrow> 'g service_state \<Rightarrow> 'g service_state" where
  "unregister_all i s =
     (let name = sv_name (sv_services s ! i) in k64_system_unregister_calls name (k64_system_unregister_commands name s))"

text \<open>The address space a service needs before it starts; \<open>Fail\<close> when there is none.\<close>

definition ensure_space :: "nat \<Rightarrow> ('g, unit) svcop" where
  "ensure_space i s =
     (let sv = sv_services s ! i in
      if present (sv_vm_space sv) \<or> sv_start sv = ''rootfs_service_start'' then (Ok (), s)
      else
        case k64_vmm_alloc_service_space (sv_managed_pid sv) (sv_vm s, sv_vm_space sv) of (r, (vm, sp)) \<Rightarrow>
        let s = set_service i (\<lambda>sv. sv\<lparr>sv_vm_space := sp\<rparr>) (s\<lparr>sv_vm := vm\<rparr>) in
        if r = Fail then (Fail, svc_write (''[svc] vm allocation failed '' @ sv_name sv @ newline) s) else (r, s))"

definition perform_start :: "'g service_env \<Rightarrow> nat \<Rightarrow> ('g, unit) svcop" where
  "perform_start env i =
     bind (ensure_space i) (\<lambda>_ s.
     case run_start env i (set_service i (\<lambda>sv. sv\<lparr>sv_ring3_verified := False\<rparr>) s) of (ok, s) \<Rightarrow>
     if \<not> ok then (Fail, release_space i s)
     else
       case (if sv_ring3_required (sv_services s ! i) then service_verify_ring3_host env i s else (True, s)) of (ok, s) \<Rightarrow>
       if \<not> ok then (Fail, release_space i (unregister_all i s))
       else (Ok (), set_service i (\<lambda>sv. sv\<lparr>sv_state := K64_SERVICE_STATE_RUNNING, sv_start_count := sv_start_count sv + 1,
              sv_last_start_tick := sv_ticks s, sv_last_poll_tick := sv_ticks s\<rparr>) s))"

definition perform_stop :: "'g service_env \<Rightarrow> nat \<Rightarrow> 'g service_state \<Rightarrow> 'g service_state" where
  "perform_stop env i s =
     (let s = run_stop env i s;
          s = set_service i (\<lambda>sv. sv\<lparr>sv_state := K64_SERVICE_STATE_STOPPED, sv_stop_count := sv_stop_count sv + 1, sv_last_poll_tick := 0\<rparr>) s;
          s = unregister_all i s;
          s = set_service i (\<lambda>sv. sv\<lparr>sv_ring3_verified := False, sv_user_pid := 0\<rparr>) s
      in release_space i s)"

definition k64_system_start_service :: "'g service_env \<Rightarrow> u64 \<Rightarrow> ('g, k64_service_result) svcop" where
  "k64_system_start_service env pid s =
     (case k64_system_find_service pid s of
        None \<Rightarrow> (Ok K64_SERVICE_ERR_NOT_FOUND, s)
      | Some i \<Rightarrow>
          let sv = sv_services s ! i in
          if sv_state sv = K64_SERVICE_STATE_RUNNING then (Ok K64_SERVICE_ERR_ALREADY_RUNNING, s)
          else if \<not> sv_controllable sv then (Ok K64_SERVICE_ERR_UNMANAGED, s)
          else bind (attempt (perform_start env i)) (\<lambda>r. ret (if r = None then K64_SERVICE_ERR_START_FAILED else K64_SERVICE_OK)) s)"

definition k64_system_start_service_by_name :: "'g service_env \<Rightarrow> string \<Rightarrow> ('g, k64_service_result) svcop" where
  "k64_system_start_service_by_name env name s =
     (case k64_system_find_service_by_name name s of
        None \<Rightarrow> (Ok K64_SERVICE_ERR_NOT_FOUND, s)
      | Some i \<Rightarrow> k64_system_start_service env (sv_managed_pid (sv_services s ! i)) s)"

definition k64_system_stop_service :: "'g service_env \<Rightarrow> u64 \<Rightarrow> 'g service_state \<Rightarrow> k64_service_result \<times> 'g service_state" where
  "k64_system_stop_service env pid s =
     (case k64_system_find_service pid s of
        None \<Rightarrow> (K64_SERVICE_ERR_NOT_FOUND, s)
      | Some i \<Rightarrow>
          let sv = sv_services s ! i in
          if sv_state sv = K64_SERVICE_STATE_STOPPED then (K64_SERVICE_ERR_ALREADY_STOPPED, s)
          else if sv_flags sv AND K64_SERVICE_FLAG_ESSENTIAL \<noteq> 0 then (K64_SERVICE_ERR_ESSENTIAL, s)
          else if \<not> sv_controllable sv then (K64_SERVICE_ERR_UNMANAGED, s)
          else (K64_SERVICE_OK, perform_stop env i s))"

definition k64_system_restart_service :: "'g service_env \<Rightarrow> u64 \<Rightarrow> ('g, k64_service_result) svcop" where
  "k64_system_restart_service env pid s =
     (case k64_system_stop_service env pid s of (r, s) \<Rightarrow>
      if r \<noteq> K64_SERVICE_OK then (Ok r, s) else k64_system_start_service env pid s)"

definition k64_system_result_string :: "k64_service_result \<Rightarrow> string" where
  "k64_system_result_string r =
     (case r of
        K64_SERVICE_OK \<Rightarrow> ''ok''
      | K64_SERVICE_ERR_NOT_FOUND \<Rightarrow> ''service not found''
      | K64_SERVICE_ERR_ALREADY_RUNNING \<Rightarrow> ''service already running''
      | K64_SERVICE_ERR_ALREADY_STOPPED \<Rightarrow> ''service already stopped''
      | K64_SERVICE_ERR_ESSENTIAL \<Rightarrow> ''essential service cannot be stopped''
      | K64_SERVICE_ERR_UNMANAGED \<Rightarrow> ''service cannot be controlled''
      | K64_SERVICE_ERR_START_FAILED \<Rightarrow> ''service start failed'')"

definition k64_system_class_name :: "k64_service_class \<Rightarrow> string" where
  "k64_system_class_name c =
     (case c of K64_SERVICE_CLASS_KERNEL \<Rightarrow> ''kernel'' | K64_SERVICE_CLASS_SYSTEM \<Rightarrow> ''system''
      | K64_SERVICE_CLASS_ROOT \<Rightarrow> ''root'' | K64_SERVICE_CLASS_USER \<Rightarrow> ''user'')"

definition k64_system_state_name :: "k64_service_run \<Rightarrow> string" where
  "k64_system_state_name st = (case st of K64_SERVICE_STATE_RUNNING \<Rightarrow> ''running'' | K64_SERVICE_STATE_STOPPED \<Rightarrow> ''stopped'')"

definition verify_service :: "'g service_env \<Rightarrow> nat \<Rightarrow> 'g service_state \<Rightarrow> 'g service_state" where
  "verify_service env i s =
     (let sv = sv_services s ! i in
      if sv_state sv \<noteq> K64_SERVICE_STATE_RUNNING \<or> \<not> sv_ring3_required sv \<or> sv_ring3_verified sv then s
      else
        case service_verify_ring3_host env i s of (ok, s) \<Rightarrow>
        if ok then s
        else unregister_all i (set_service i (\<lambda>sv. sv\<lparr>sv_state := K64_SERVICE_STATE_STOPPED\<rparr>)
               (svc_write (''[svc] disabling unverified service '' @ sv_name sv @ newline) s)))"

definition k64_system_verify_ring3_services :: "'g service_env \<Rightarrow> 'g service_state \<Rightarrow> 'g service_state" where
  "k64_system_verify_ring3_services env s = fold (verify_service env) [0..<length (sv_services s)] s"

text \<open>A service whose time has come; the poll function runs in the address space of the service.\<close>

definition poll_service :: "'g service_env \<Rightarrow> u64 \<Rightarrow> nat \<Rightarrow> 'g service_state \<Rightarrow> 'g service_state" where
  "poll_service env now i s =
     (let sv = sv_services s ! i in
      if sv_state sv \<noteq> K64_SERVICE_STATE_RUNNING then s
      else case (if sv_flags sv AND K64_SERVICE_FLAG_ASYNC = 0 then None else sv_poll sv) of
          None \<Rightarrow> s
        | Some f \<Rightarrow>
            if sv_poll_interval_ticks sv \<noteq> 0 \<and> sv_last_poll_tick sv \<noteq> 0 \<and> now - sv_last_poll_tick sv < ucast (sv_poll_interval_ticks sv) then s
            else e_poll env f i (set_service i (\<lambda>sv. sv\<lparr>sv_last_poll_tick := now\<rparr>) s))"

definition k64_system_poll_async :: "'g service_env \<Rightarrow> 'g service_state \<Rightarrow> 'g service_state" where
  "k64_system_poll_async env s = fold (poll_service env (sv_ticks s)) [0..<length (sv_services s)] s"

section \<open>Messages\<close>

definition no_msg :: "k64_service_msg \<Rightarrow> k64_service_msg" where
  "no_msg m = m\<lparr>m_state := K64_SERVICE_MSG_EMPTY, m_request_id := 0, m_caller_pid := 0, m_caller_uid := 0, m_caller_flags := 0,
     m_service_pid := 0, m_service := [], m_method := [], m_request := [], m_response := [], m_response_capacity := 0, m_status := K64_ERR_BUSY\<rparr>"

definition set_msg :: "nat \<Rightarrow> (k64_service_msg \<Rightarrow> k64_service_msg) \<Rightarrow> 'g service_state \<Rightarrow> 'g service_state" where
  "set_msg i f s = s\<lparr>sv_msgs := (sv_msgs s)[i := f (sv_msgs s ! i)]\<rparr>"

definition service_msg_clear :: "nat \<Rightarrow> 'g service_state \<Rightarrow> 'g service_state" where
  "service_msg_clear i s = set_msg i no_msg s"

definition next_request_id :: "u64 \<Rightarrow> u64" where
  "next_request_id n = (if n + 1 = 0 then 1 else n + 1)"

definition service_msg_alloc :: "'g service_state \<Rightarrow> nat option \<times> 'g service_state" where
  "service_msg_alloc s =
     (case index_of (\<lambda>m. m_state m = K64_SERVICE_MSG_EMPTY) (sv_msgs s) of
        None \<Rightarrow> (None, s)
      | Some i \<Rightarrow>
          (Some i, set_msg i (\<lambda>m. (no_msg m)\<lparr>m_state := K64_SERVICE_MSG_PENDING, m_request_id := next_service_request_id s\<rparr>)
             (s\<lparr>next_service_request_id := next_request_id (next_service_request_id s)\<rparr>)))"

definition service_msg_find :: "u64 \<Rightarrow> 'g service_state \<Rightarrow> nat option" where
  "service_msg_find request_id s =
     (if request_id = 0 then None
      else index_of (\<lambda>m. m_state m \<noteq> K64_SERVICE_MSG_EMPTY \<and> m_request_id m = request_id) (sv_msgs s))"

text \<open>
  A call that a user process answers: the request is posted, the program of the service runs until it ends,
  and the response that it left in the message is the answer.
\<close>

definition dispatch_ring3_message_call ::
    "'g service_env \<Rightarrow> nat \<Rightarrow> k64_service_call \<Rightarrow> bytes \<Rightarrow> nat option \<Rightarrow> u64 \<Rightarrow> u64 \<Rightarrow> 'g service_state \<Rightarrow> call_answer \<times> 'g service_state" where
  "dispatch_ring3_message_call env owner call input out caller_pid caller_flags s =
     (let failed = (\<lambda>e s. (\<lparr>an_status = e, an_out = [], an_length = 0\<rparr>, s)); out_len = (case out of None \<Rightarrow> 0 | Some n \<Rightarrow> n) in
      if length input > K64_SERVICE_MSG_DATA_MAX then failed K64_ERR_INVAL s
      else if sv_entry_path (sv_services s ! owner) = [] then failed K64_ERR_NOENT s
      else case service_msg_alloc s of
          (None, s) \<Rightarrow> failed K64_ERR_BUSY s
        | (Some i, s) \<Rightarrow>
            let s = set_msg i (\<lambda>m. m\<lparr>m_caller_pid := caller_pid,
                  m_caller_uid := (if caller_flags AND K64_SERVICE_CALLER_KERNEL \<noteq> 0 then 0 else ucast (e_uid env s)),
                  m_caller_flags := caller_flags, m_response_capacity := min out_len K64_SERVICE_MSG_DATA_MAX,
                  m_service := svc_copy K64_SERVICE_CALL_OWNER_MAX (sc_owner call), m_method := svc_copy K64_SERVICE_CALL_NAME_MAX (sc_name call),
                  m_request := input\<rparr>) s in
            case e_nested env (sv_entry_path (sv_services s ! owner)) (sv_name (sv_services s ! owner)) s of (finished, s) \<Rightarrow>
            let m = sv_msgs s ! i in
            if \<not> finished \<or> m_state m \<noteq> K64_SERVICE_MSG_DONE then failed K64_ERR_BUSY (service_msg_clear i s)
            else
              let too_long = (m_status m \<ge> 0 \<and> length (m_response m) > out_len) in
              (\<lparr>an_status = (if too_long then K64_ERR_OVERFLOW else m_status m),
                an_out = (if m_status m \<ge> 0 \<and> \<not> too_long \<and> out \<noteq> None then m_response m else []),
                an_length = length (m_response m)\<rparr>, service_msg_clear i s))"

definition current_process_is_service_host :: "'g service_env \<Rightarrow> nat \<Rightarrow> 'g service_state \<Rightarrow> bool" where
  "current_process_is_service_host env i s \<longleftrightarrow> sv_entry_path (sv_services s ! i) \<noteq> [] \<and>
     (case e_path env s of None \<Rightarrow> False | Some p \<Rightarrow> k64_streq (Some p) (Some (sv_entry_path (sv_services s ! i))))"

definition msg_header_size :: nat where "msg_header_size = 112"

definition enc_msg_header :: "k64_service_msg \<Rightarrow> bytes" where
  "enc_msg_header m = le_enc 8 (m_request_id m) @ le_enc 8 (m_caller_pid m) @ le_enc 8 (m_caller_uid m) @
     le_enc 8 (of_nat (length (m_request m)) :: u64) @ le_enc 8 (of_nat (m_response_capacity m) :: u64) @ le_enc 8 (m_caller_flags m) @
     char_array K64_SERVICE_CALL_OWNER_MAX (svc_copy K64_SERVICE_CALL_OWNER_MAX (m_service m)) @
     char_array K64_SERVICE_CALL_NAME_MAX (svc_copy K64_SERVICE_CALL_NAME_MAX (m_method m))"

text \<open>The request is copied behind the header without a look at the size of the output buffer.\<close>

definition svc_recv_call :: "'g service_env \<Rightarrow> k64_service_call_request \<Rightarrow> ('g, call_answer) svcop" where
  "svc_recv_call env req s =
     (case (rq_in req, rq_out req) of
        (Some input, Some out_len) \<Rightarrow>
          let name = array_str input in
          if input = [] \<or> length input > K64_SERVICE_CALL_OWNER_MAX \<or> out_len < msg_header_size then answer K64_ERR_INVAL s
          else if name = [] \<or> last input \<noteq> 0 \<or> \<not> name_valid name K64_SERVICE_CALL_OWNER_MAX then answer K64_ERR_INVAL s
          else case k64_system_find_service_by_name name s of
              None \<Rightarrow> answer K64_ERR_NOENT s
            | Some i \<Rightarrow>
                if sv_state (sv_services s ! i) \<noteq> K64_SERVICE_STATE_RUNNING then answer K64_ERR_NOENT s
                else if \<not> current_process_is_service_host env i s then answer K64_ERR_ACCESS s
                else case index_of (\<lambda>m. m_state m = K64_SERVICE_MSG_PENDING \<and> k64_streq (Some (m_service m)) (Some name)) (sv_msgs s) of
                    None \<Rightarrow> answer K64_ERR_AGAIN s
                  | Some j \<Rightarrow>
                      let m = sv_msgs s ! j in
                      in_bounds (msg_header_size + length (m_request m) \<le> out_len)
                        (ret \<lparr>an_status = K64_OK, an_out = enc_msg_header m @ m_request m, an_length = msg_header_size + length (m_request m)\<rparr>)
                        (set_msg j (\<lambda>m. m\<lparr>m_state := K64_SERVICE_MSG_ACTIVE, m_service_pid := rq_caller_pid req\<rparr>) s)
      | _ \<Rightarrow> answer K64_ERR_INVAL s)"

definition svc_reply_call :: "k64_service_call_request \<Rightarrow> ('g, call_answer) svcop" where
  "svc_reply_call req s =
     (case rq_in req of
        None \<Rightarrow> answer K64_ERR_INVAL s
      | Some input \<Rightarrow>
          if length input < 24 then answer K64_ERR_INVAL s
          else
            let request_id = le_dec (bytes_at 0 8 input) :: u64; status = sint (le_dec (bytes_at 8 8 input) :: u64);
                response_len = unat (le_dec (bytes_at 16 8 input) :: u64) in
            if response_len > K64_SERVICE_MSG_DATA_MAX \<or> 24 + response_len > length input then answer K64_ERR_OVERFLOW s
            else case service_msg_find request_id s of
                None \<Rightarrow> answer K64_ERR_NOENT s
              | Some i \<Rightarrow>
                  let m = sv_msgs s ! i in
                  if m_state m \<noteq> K64_SERVICE_MSG_ACTIVE then answer K64_ERR_NOENT s
                  else if m_service_pid m \<noteq> rq_caller_pid req then answer K64_ERR_ACCESS s
                  else answer K64_OK (set_msg i (\<lambda>m. (if response_len > m_response_capacity m
                      then m\<lparr>m_status := K64_ERR_OVERFLOW, m_response := []\<rparr>
                      else m\<lparr>m_status := status, m_response := bytes_at 24 response_len input\<rparr>)\<lparr>m_state := K64_SERVICE_MSG_DONE\<rparr>) s))"

section \<open>The calls of the kernel and the file system\<close>

definition kernel_version_call :: "'g service_env \<Rightarrow> k64_service_call_request \<Rightarrow> ('g, call_answer) svcop" where
  "kernel_version_call env req = ret (copy_response req (text_bytes (e_version env)))"

definition kernel_uptime_call :: "k64_service_call_request \<Rightarrow> ('g, call_answer) svcop" where
  "kernel_uptime_call req s = (Ok (copy_response req (le_enc 8 (sv_ticks s))), s)"

definition kernel_uname_call :: "k64_service_call_request \<Rightarrow> ('g, call_answer) svcop" where
  "kernel_uname_call req = ret (copy_response req (text_bytes ''K64''))"

definition K64_ACCESS_EXEC :: u32 where "K64_ACCESS_EXEC = 1"
definition K64_ACCESS_WRITE :: u32 where "K64_ACCESS_WRITE = 2"
definition K64_ACCESS_READ :: u32 where "K64_ACCESS_READ = 4"

definition may_access :: "'g service_env \<Rightarrow> k64_fs_stat \<Rightarrow> u32 \<Rightarrow> 'g service_state \<Rightarrow> bool" where
  "may_access env st wanted s = k64_user_can_access_uid (e_uid env s) (e_gid env s) (st_uid st) (st_gid st) (st_mode st) wanted"

definition fs_call_can_access_path :: "'g service_env \<Rightarrow> string \<Rightarrow> u32 \<Rightarrow> ('g, bool) svcop" where
  "fs_call_can_access_path env path wanted =
     (if path = [] then ret False
      else
        bind (attempt (on_sfs (k64_fs_stat_op (Some path)))) (\<lambda>st s.
        case st of None \<Rightarrow> (Ok False, s) | Some st \<Rightarrow> (Ok (may_access env st wanted s), s)))"

text \<open>The directory part: slashes at the end go, then the last component, then the slash before it.\<close>

definition parent_path :: "string \<Rightarrow> string" where
  "parent_path path =
     (let p = svc_copy 256 path;
          q = rev (dropWhile (\<lambda>c. c = CHR ''/'') (rev p));
          p = (if q = [] then take 1 p else q);
          d = rev (dropWhile (\<lambda>c. c \<noteq> CHR ''/'') (rev p))
      in if d = [] then ''.'' else if length d = 1 then d else butlast d)"

definition fs_call_can_create_path :: "'g service_env \<Rightarrow> string \<Rightarrow> ('g, bool) svcop" where
  "fs_call_can_create_path env path =
     (if path = [] then ret False else fs_call_can_access_path env (parent_path path) (K64_ACCESS_WRITE OR K64_ACCESS_EXEC))"

text \<open>A path as the whole input: not empty, at most 256 bytes, with a terminator at the end.\<close>

definition path_input :: "bytes option \<Rightarrow> string option" where
  "path_input input =
     (case input of
        None \<Rightarrow> None
      | Some b \<Rightarrow> if b = [] \<or> length b > 256 \<or> array_str b = [] \<or> last b \<noteq> 0 then None else Some (array_str b))"

definition enc_stat :: "k64_fs_stat \<Rightarrow> bytes" where
  "enc_stat st = le_enc 8 (if st_is_dir st then 1 else 2 :: u64) @ le_enc 8 (st_size st) @ le_enc 8 (0 :: u64) @
     le_enc 8 (ucast (st_mode st) :: u64) @ le_enc 8 (ucast (st_uid st) :: u64) @ le_enc 8 (ucast (st_gid st) :: u64) @
     le_enc 8 (st_created_tick st) @ le_enc 8 (st_modified_tick st) @ le_enc 8 (st_generation st)"

definition fs_stat_call :: "'g service_env \<Rightarrow> k64_service_call_request \<Rightarrow> ('g, call_answer) svcop" where
  "fs_stat_call env req =
     (case (path_input (rq_in req), rq_out req) of
        (Some path, Some out_len) \<Rightarrow>
          if out_len < 72 then answer K64_ERR_INVAL
          else
            bind (attempt (on_sfs (k64_fs_stat_op (Some path)))) (\<lambda>st s.
            case st of
              None \<Rightarrow> answer K64_ERR_NOENT s
            | Some st \<Rightarrow>
                if \<not> may_access env st K64_ACCESS_READ s then answer K64_ERR_ACCESS s
                else (Ok (copy_response req (enc_stat st)), s))
      | _ \<Rightarrow> answer K64_ERR_INVAL)"

definition fs_list_dir_call :: "'g service_env \<Rightarrow> k64_service_call_request \<Rightarrow> ('g, call_answer) svcop" where
  "fs_list_dir_call env req =
     (case (path_input (rq_in req), rq_out req) of
        (Some path, Some out_len) \<Rightarrow>
          if out_len = 0 then answer K64_ERR_INVAL
          else
            bind (fs_call_can_access_path env path (K64_ACCESS_READ OR K64_ACCESS_EXEC)) (\<lambda>ok.
            if \<not> ok then answer K64_ERR_ACCESS
            else
              bind (attempt (on_sfs (k64_fs_ls (Some path) out_len))) (\<lambda>listing.
              case listing of
                None \<Rightarrow> ret \<lparr>an_status = K64_ERR_NOENT, an_out = replicate out_len 0, an_length = 0\<rparr>
              | Some t \<Rightarrow> ret \<lparr>an_status = K64_OK, an_out = put_at 0 (map char_byte t) (replicate out_len 0), an_length = length t + 1\<rparr>))
      | _ \<Rightarrow> answer K64_ERR_INVAL)"

text \<open>
  The request of a user process: two lengths, the path with its terminator, the data. The request of a kernel
  caller holds pointers; it has no model here and its handling is the parameter \<open>kernel_write\<close>.
\<close>

definition fs_write_file_call :: "'g service_env \<Rightarrow> (bytes \<Rightarrow> ('g, call_answer) svcop) \<Rightarrow> k64_service_call_request \<Rightarrow> ('g, call_answer) svcop" where
  "fs_write_file_call env kernel_write req =
     (case rq_in req of
        None \<Rightarrow> answer K64_ERR_INVAL
      | Some input \<Rightarrow>
          if rq_caller_flags req AND K64_SERVICE_CALLER_KERNEL \<noteq> 0 then kernel_write input
          else if length input < 16 then answer K64_ERR_INVAL
          else
            let path_len = le_dec (bytes_at 0 8 input) :: u64; data_len = le_dec (bytes_at 8 8 input) :: u64 in
            if path_len = 0 \<or> path_len > 256 \<or> unat data_len > K64_SERVICE_CALL_PAYLOAD_MAX \<or>
               16 + unat path_len + unat data_len > length input then answer K64_ERR_INVAL
            else
              let packed = bytes_at 16 (unat path_len) input; path = array_str packed in
              if last packed \<noteq> 0 then answer K64_ERR_INVAL
              else
                bind (attempt (on_sfs (k64_fs_stat_op (Some path)))) (\<lambda>st.
                bind (if st \<noteq> None then fs_call_can_access_path env path K64_ACCESS_WRITE else fs_call_can_create_path env path) (\<lambda>ok.
                if \<not> ok then answer K64_ERR_ACCESS
                else
                  bind (attempt (on_sfs (k64_fs_write_file_raw (Some path) (bytes_at (16 + unat path_len) (unat data_len) input)))) (\<lambda>w.
                  if w = None then answer K64_ERR_ACCESS
                  else
                    bind (\<lambda>s. attempt (on_sfs (k64_fs_chown (Some path) (e_uid env s) (e_gid env s))) s) (\<lambda>_.
                    answer K64_OK)))))"

text \<open>Two paths, each with its terminator; the length of the first is measured before the last byte is looked at.\<close>

definition fs_move_call :: "'g service_env \<Rightarrow> k64_service_call_request \<Rightarrow> ('g, call_answer) svcop" where
  "fs_move_call env req =
     (case rq_in req of
        None \<Rightarrow> answer K64_ERR_INVAL
      | Some input \<Rightarrow>
          if length input < 4 \<or> length input > 512 then answer K64_ERR_INVAL
          else
            in_bounds (0 \<in> set input)
              (let src = array_str input; src_len = length src + 1; dst = array_str (drop src_len input) in
               if src_len \<le> 1 \<or> src_len \<ge> length input then answer K64_ERR_INVAL
               else if drop src_len input ! 0 = 0 \<or> last input \<noteq> 0 then answer K64_ERR_INVAL
               else
                 bind (fs_call_can_access_path env src K64_ACCESS_WRITE) (\<lambda>ok.
                 bind (if ok then fs_call_can_create_path env dst else ret False) (\<lambda>ok.
                 if \<not> ok then answer K64_ERR_ACCESS
                 else
                   bind (attempt (on_sfs (k64_fs_move (Some src) (Some dst)))) (\<lambda>moved.
                   answer (if moved = None then K64_ERR_NOENT else K64_OK))))))"

definition k64_service_spawn_helper :: "'g service_env \<Rightarrow> string \<Rightarrow> string \<Rightarrow> string \<Rightarrow> 'g service_state \<Rightarrow> int \<times> 'g service_state" where
  "k64_service_spawn_helper env owner path args s =
     (if path = [] \<or> path_has_traversal path then (K64_ERR_INVAL, s)
      else if \<not> k64_system_is_service_running owner s then (K64_ERR_NOENT, s)
      else if \<not> svc_starts_with path ''/ex/'' \<and> \<not> svc_starts_with path ''/k64s/'' \<and> \<not> svc_starts_with path ''/svc/'' then (K64_ERR_ACCESS, s)
      else case e_spawn env path args s of (ok, s) \<Rightarrow> (if ok then K64_OK else K64_ERR_NOENT, s))"

definition svc_demo_run_call :: "'g service_env \<Rightarrow> k64_service_call_request \<Rightarrow> ('g, call_answer) svcop" where
  "svc_demo_run_call env req s =
     (if rq_caller_flags req AND K64_SERVICE_CALLER_KERNEL = 0 then answer K64_ERR_ACCESS s
      else case k64_service_spawn_helper env ''svc'' ''/ex/childexit.elf'' [] s of (rc, s) \<Rightarrow>
        if rc \<noteq> K64_OK then answer rc s
        else case rq_out req of
            Some n \<Rightarrow> if n \<ge> 8 then (Ok \<lparr>an_status = K64_OK, an_out = le_enc 8 (0 :: u64), an_length = 8\<rparr>, s) else answer K64_OK s
          | None \<Rightarrow> answer K64_OK s)"

section \<open>Dispatch\<close>

definition call_handler :: "'g service_env \<Rightarrow> string \<Rightarrow> k64_service_call_request \<Rightarrow> ('g, call_answer) svcop" where
  "call_handler env name req =
     (if name = ''kernel_version_call'' then kernel_version_call env req
      else if name = ''kernel_uptime_call'' then kernel_uptime_call req
      else if name = ''kernel_uname_call'' then kernel_uname_call req
      else if name = ''fs_stat_call'' then fs_stat_call env req
      else if name = ''fs_list_dir_call'' then fs_list_dir_call env req
      else if name = ''fs_write_file_call'' then fs_write_file_call env (\<lambda>_. e_call env name req) req
      else if name = ''fs_move_call'' then fs_move_call env req
      else if name = ''svc_demo_run_call'' then svc_demo_run_call env req
      else if name = ''svc_recv_call'' then svc_recv_call env req
      else if name = ''svc_reply_call'' then svc_reply_call req
      else e_call env name req)"

definition host_verified :: "k64_service \<Rightarrow> bool" where
  "host_verified sv \<longleftrightarrow> sv_class sv = K64_SERVICE_CLASS_KERNEL \<or> (sv_ring3_required sv \<and> sv_ring3_verified sv)"

text \<open>The first command of that name decides; a command without a handler is passed over.\<close>

definition k64_system_dispatch_command :: "'g service_env \<Rightarrow> string \<Rightarrow> string \<Rightarrow> 'g service_state \<Rightarrow> bool \<times> 'g service_state" where
  "k64_system_dispatch_command env command args s =
     (case find (\<lambda>c. cm_active c \<and> cm_handler c \<noteq> None \<and> k64_streq (Some (cm_name c)) (Some command)) (sv_commands s) of
        None \<Rightarrow> (False, s)
      | Some c \<Rightarrow>
          (case k64_system_find_service_by_name (cm_owner c) s of
             None \<Rightarrow> (False, s)
           | Some i \<Rightarrow>
               let sv = sv_services s ! i in
               if sv_state sv \<noteq> K64_SERVICE_STATE_RUNNING \<or> \<not> host_verified sv then (False, s)
               else e_command env (the (cm_handler c)) command args s))"

definition k64_system_dispatch_call ::
    "'g service_env \<Rightarrow> string \<Rightarrow> string \<Rightarrow> bytes option \<Rightarrow> nat option \<Rightarrow> u64 \<Rightarrow> u64 \<Rightarrow> ('g, call_answer) svcop" where
  "k64_system_dispatch_call env service method input out caller_pid caller_flags s =
     (let in_len = (case input of None \<Rightarrow> 0 | Some b \<Rightarrow> length b); out_len = (case out of None \<Rightarrow> 0 | Some n \<Rightarrow> n);
          kernel = (caller_flags AND K64_SERVICE_CALLER_KERNEL \<noteq> 0) in
      if \<not> name_valid service K64_SERVICE_CALL_OWNER_MAX \<or> \<not> name_valid method K64_SERVICE_CALL_NAME_MAX \<or>
         in_len > K64_SERVICE_CALL_PAYLOAD_MAX \<or> out_len > K64_SERVICE_CALL_PAYLOAD_MAX then answer K64_ERR_INVAL s
      else case find (is_call service method) (sv_calls s) of
          None \<Rightarrow> answer K64_ERR_NOENT s
        | Some c \<Rightarrow>
            (case k64_system_find_service_by_name (sc_owner c) s of
               None \<Rightarrow> answer K64_ERR_NOENT s
             | Some i \<Rightarrow>
                 let sv = sv_services s ! i in
                 if sv_state sv \<noteq> K64_SERVICE_STATE_RUNNING then answer K64_ERR_NOENT s
                 else if \<not> host_verified sv then answer K64_ERR_ACCESS s
                 else if sc_flags c AND K64_SERVICE_CALL_FLAG_KERNEL_ONLY \<noteq> 0 \<and> \<not> kernel then answer K64_ERR_ACCESS s
                 else if sc_flags c AND K64_SERVICE_CALL_FLAG_ROOT_ONLY \<noteq> 0 \<and>
                         caller_flags AND (K64_SERVICE_CALLER_ROOT OR K64_SERVICE_CALLER_KERNEL) = 0 then answer K64_ERR_ACCESS s
                 else if \<not> kernel \<and> sc_flags c AND (K64_SERVICE_CALL_FLAG_PUBLIC OR K64_SERVICE_CALL_FLAG_USER_ALLOWED) = 0
                 then answer K64_ERR_ACCESS s
                 else if sc_backend c = K64_SERVICE_CALL_BACKEND_RING3_MESSAGE then
                   (case dispatch_ring3_message_call env i c (case input of None \<Rightarrow> [] | Some b \<Rightarrow> b) out caller_pid caller_flags s of (a, s) \<Rightarrow> (Ok a, s))
                 else case sc_handler c of
                     None \<Rightarrow> answer K64_ERR_NOENT s
                   | Some h \<Rightarrow>
                       call_handler env h \<lparr>rq_caller_pid = caller_pid, rq_caller_uid = (if kernel then 0 else ucast (e_uid env s)),
                         rq_caller_flags = caller_flags, rq_service = svc_copy K64_SERVICE_CALL_OWNER_MAX service,
                         rq_method = svc_copy K64_SERVICE_CALL_NAME_MAX method, rq_in = input, rq_out = out, rq_flags = sc_flags c\<rparr> s))"

definition call_line :: "'g service_state \<Rightarrow> k64_service_call \<Rightarrow> string" where
  "call_line s c =
     sc_owner c @ ''.'' @ sc_name c @ ''  '' @ sc_owner c @ ''  '' @
     (if sc_backend c = K64_SERVICE_CALL_BACKEND_RING3_MESSAGE then ''ring3-msg '' else ''kernel '') @ call_flags_text (sc_flags c) @
     (if k64_system_is_service_running (sc_owner c) s then ''running'' else ''stopped'') @ newline"

definition k64_system_dump_calls :: "'g service_state \<Rightarrow> 'g service_state" where
  "k64_system_dump_calls s =
     svc_write (''SERVICE.METHOD                 OWNER     BACKEND       FLAGS'' @ newline @ concat (map (call_line s) (filter sc_active (sv_calls s)))) s"

section \<open>Initialisation and core services\<close>

definition empty_msg :: k64_service_msg where
  "empty_msg = \<lparr>m_state = K64_SERVICE_MSG_EMPTY, m_request_id = 0, m_caller_pid = 0, m_caller_uid = 0, m_caller_flags = 0, m_service_pid = 0,
     m_service = [], m_method = [], m_request = [], m_response = [], m_response_capacity = 0, m_status = K64_ERR_BUSY\<rparr>"

definition k64_system_registry_init :: "'g service_state \<Rightarrow> 'g service_state" where
  "k64_system_registry_init s =
     s\<lparr>sv_services := [], sv_commands := replicate K64_MAX_SERVICE_COMMANDS no_command, sv_calls := replicate K64_MAX_SERVICE_CALLS no_call,
       sv_msgs := replicate K64_MAX_SERVICE_MESSAGES empty_msg, next_service_request_id := 1,
       next_system_pid := K64_SYSTEM_PID_BASE, next_root_pid := K64_ROOT_PID_BASE, next_user_pid := K64_USER_PID_BASE\<rparr>"

text \<open>A service of the core, running from the start, with its calls; \<open>f\<close> is what else is set in its entry.\<close>

definition core_call :: "string \<Rightarrow> string \<times> u32 \<times> string option \<Rightarrow> 'g service_state \<Rightarrow> 'g service_state" where
  "core_call owner c s =
     (case c of (name, flags, handler) \<Rightarrow>
      snd (k64_system_register_call_backend owner name flags
        (if handler = None then K64_SERVICE_CALL_BACKEND_RING3_MESSAGE else K64_SERVICE_CALL_BACKEND_KERNEL) handler s))"

definition core_service ::
    "string \<Rightarrow> string \<Rightarrow> k64_service_class \<Rightarrow> u32 \<Rightarrow> bool \<Rightarrow> (k64_service \<Rightarrow> k64_service) \<Rightarrow> (string \<times> u32 \<times> string option) list \<Rightarrow> 'g service_state \<Rightarrow> 'g service_state" where
  "core_service name source c flags controllable f calls s =
     (case k64_system_register_service (Some name) (Some source) c flags 0 0 controllable (Some ''default_start'') (Some ''default_stop'') None s of
        (None, s) \<Rightarrow> s
      | (Some i, s) \<Rightarrow>
          fold (core_call name) calls (set_service i (\<lambda>sv. f (sv\<lparr>sv_state := K64_SERVICE_STATE_RUNNING, sv_start_count := 1,
            sv_vm_space := (sv_vm_space sv)\<lparr>present := True\<rparr>\<rparr>)) s))"

definition user_call_flags :: u32 where
  "user_call_flags = K64_SERVICE_CALL_FLAG_PUBLIC OR K64_SERVICE_CALL_FLAG_USER_ALLOWED"

definition kernel_service :: "'g service_state \<Rightarrow> 'g service_state" where
  "kernel_service s =
     (if length (sv_services s) \<ge> K64_MAX_SERVICES then s
      else
        let s = core_service ''kernel'' ''k64/kernel'' K64_SERVICE_CLASS_KERNEL K64_SERVICE_FLAG_ESSENTIAL False
              (\<lambda>sv. sv\<lparr>sv_vm_space := (sv_vm_space sv)\<lparr>root_base := 0, root_size := 0x40000000\<rparr>\<rparr>) [] s;
            s = snd (k64_system_register_command (Some ''kernel'') (Some ''calls'') (Some ''kernel_calls_command'') s);
            s = snd (k64_system_register_command (Some ''kernel'') (Some ''call'') (Some ''kernel_call_command'') s)
        in fold (core_call ''kernel'') [(''version'', user_call_flags, Some ''kernel_version_call''), (''uptime'', user_call_flags, Some ''kernel_uptime_call''),
             (''uname'', user_call_flags, Some ''kernel_uname_call'')] s)"

definition k64_system_register_core_services :: "'g service_state \<Rightarrow> 'g service_state" where
  "k64_system_register_core_services s =
     (let plain = (\<lambda>name source. core_service name source K64_SERVICE_CLASS_SYSTEM K64_SERVICE_FLAG_ESSENTIAL False id);
          w = user_call_flags OR K64_SERVICE_CALL_FLAG_CAN_WRITE_FS;
          s = kernel_service s;
          s = plain ''fs'' ''k64/fs'' [(''stat'', user_call_flags, Some ''fs_stat_call''), (''list_dir'', user_call_flags, Some ''fs_list_dir_call''),
                (''write_file'', w, Some ''fs_write_file_call''), (''move'', w, Some ''fs_move_call'')] s;
          s = plain ''proc'' ''k64/proc'' [] s;
          s = plain ''io'' ''k64/io'' [] s;
          s = plain ''sched'' ''k64/sched'' [] s;
          s = plain ''term'' ''k64/term'' [] s;
          s = plain ''svc'' ''k64/svc'' [(''demo_run'', K64_SERVICE_CALL_FLAG_KERNEL_ONLY OR K64_SERVICE_CALL_FLAG_CAN_SPAWN, Some ''svc_demo_run_call''),
                (''recv'', user_call_flags, Some ''svc_recv_call''), (''reply'', user_call_flags, Some ''svc_reply_call'')] s
      in core_service ''demo'' ''/ex/demosvc.elf'' K64_SERVICE_CLASS_SYSTEM 0 True (\<lambda>sv. sv\<lparr>sv_entry_path := svc_copy 96 ''/ex/demosvc.elf''\<rparr>)
           [(''echo'', user_call_flags, None), (''upper'', user_call_flags, None), (''pid'', user_call_flags, None)] s)"

end
