(* ===== verification/Service_Gate.thy ===== *)
theory Service_Gate
  imports Service
begin

text \<open>
  The gate through which a user process calls a service, \<^verbatim>\<open>syscall_service_call\<close> of \<^verbatim>\<open>src/k64_usermode.c\<close>: the
  call block, the names and the request are copied from the memory of the process, a staging slot is taken for
  the call, the dispatcher runs, and the response is copied back. The address space of the process is an
  argument, \<open>None\<close> when there is none, and so is the process identifier.

  \<open>service_gate\<close> is the same call with its operands as values: what the gate does between the copies. The
  lemma \<open>syscall_is_gate\<close> says that the system call is this function and the copies.
\<close>

section \<open>Memory of the process\<close>

definition user_read_mem :: "k64_vm_space option \<Rightarrow> u64 \<Rightarrow> nat \<Rightarrow> 'g service_state \<Rightarrow> bytes option" where
  "user_read_mem space user_ptr size' s =
     (if size' = 0 then Some []
      else case space of None \<Rightarrow> None | Some sp \<Rightarrow> k64_vmm_read_user (phys (sv_vm s)) sp user_ptr (of_nat size'))"

text \<open>A write that fails may have changed the pages before the one that is not mapped.\<close>

definition user_write_mem :: "k64_vm_space option \<Rightarrow> u64 \<Rightarrow> bytes \<Rightarrow> 'g service_state \<Rightarrow> bool \<times> 'g service_state" where
  "user_write_mem space user_ptr data s =
     (if data = [] then (True, s)
      else case space of
          None \<Rightarrow> (False, s)
        | Some sp \<Rightarrow> (case k64_vmm_write_user sp user_ptr data (phys (sv_vm s)) of
            (r, m) \<Rightarrow> (r = Ok (), s\<lparr>sv_vm := (sv_vm s)\<lparr>phys := m\<rparr>\<rparr>)))"

definition service_call_name_valid :: "string \<Rightarrow> nat \<Rightarrow> bool" where
  "service_call_name_valid name max_len \<longleftrightarrow> name \<noteq> [] \<and> length name < max_len \<and> list_all name_char name"

text \<open>The bytes up to the terminator, at most \<open>left\<close> of them; \<open>done'\<close> is what has been copied.\<close>

fun copy_name_bytes :: "k64_vm_space option \<Rightarrow> u64 \<Rightarrow> nat \<Rightarrow> nat \<Rightarrow> string \<Rightarrow> 'g service_state \<Rightarrow> int + string" where
  "copy_name_bytes space addr out_size 0 done' s = Inl K64_ERR_INVAL"
| "copy_name_bytes space addr out_size (Suc left) done' s =
     (case user_read_mem space (addr + of_nat (length done')) 1 s of
        None \<Rightarrow> Inl K64_ERR_FAULT
      | Some ch \<Rightarrow>
          if hd ch = 0 then (if service_call_name_valid done' out_size then Inr done' else Inl K64_ERR_INVAL)
          else copy_name_bytes space addr out_size left (done' @ [byte_char (hd ch)]) s)"

definition copy_user_service_name :: "k64_vm_space option \<Rightarrow> u64 \<Rightarrow> nat \<Rightarrow> 'g service_state \<Rightarrow> int + string" where
  "copy_user_service_name space user_ptr out_size s =
     (if user_ptr = 0 \<or> out_size = 0 then Inl K64_ERR_FAULT else copy_name_bytes space user_ptr out_size (out_size - 1) [] s)"

section \<open>Staging slots\<close>

definition K64_USER_SERVICE_CALL_DEPTH_MAX :: nat where "K64_USER_SERVICE_CALL_DEPTH_MAX = 4"

definition free_scratch :: k64_user_service_scratch where
  "free_scratch = \<lparr>ss_used = False, ss_owner_pid = 0\<rparr>"

definition service_scratch_acquire :: "u64 \<Rightarrow> 'g service_state \<Rightarrow> nat option \<times> 'g service_state" where
  "service_scratch_acquire owner_pid s =
     (case index_of (\<lambda>c. \<not> ss_used c) (sv_scratch s) of
        None \<Rightarrow> (None, s)
      | Some j \<Rightarrow> (Some j, s\<lparr>sv_scratch := (sv_scratch s)[j := \<lparr>ss_used = True, ss_owner_pid = owner_pid\<rparr>]\<rparr>))"

definition service_scratch_release :: "nat \<Rightarrow> 'g service_state \<Rightarrow> 'g service_state" where
  "service_scratch_release j s = s\<lparr>sv_scratch := (sv_scratch s)[j := free_scratch]\<rparr>"

section \<open>The system call\<close>

record k64_service_call_user =
  uc_service :: u64
  uc_method :: u64
  uc_request :: u64
  uc_request_len :: u64
  uc_response :: u64
  uc_response_len :: u64
  uc_flags :: u64

definition dec_call_user :: "bytes \<Rightarrow> k64_service_call_user" where
  "dec_call_user b = \<lparr>uc_service = le_dec (bytes_at 0 8 b), uc_method = le_dec (bytes_at 8 8 b), uc_request = le_dec (bytes_at 16 8 b),
     uc_request_len = le_dec (bytes_at 24 8 b), uc_response = le_dec (bytes_at 32 8 b), uc_response_len = le_dec (bytes_at 40 8 b),
     uc_flags = le_dec (bytes_at 48 8 b)\<rparr>"

text \<open>A successful call of \<^verbatim>\<open>proc.exit\<close> does not return to the process.\<close>

datatype gate_return = Returned int | Left_user_mode

text \<open>The result of the dispatcher as the gate sees it, with the bytes of the response buffer that it copies back.\<close>

definition gate_response :: "call_answer \<Rightarrow> nat \<Rightarrow> int \<times> bytes" where
  "gate_response a response_len =
     (if an_status a \<ge> 0 \<and> an_length a > response_len then (K64_ERR_OVERFLOW, [])
      else (an_status a, if an_status a \<ge> 0 then take (an_length a) (put_at 0 (an_out a) (replicate response_len 0)) else []))"

definition syscall_service_call :: "'g service_env \<Rightarrow> k64_vm_space option \<Rightarrow> u64 \<Rightarrow> u64 \<Rightarrow> ('g, gate_return) svcop" where
  "syscall_service_call env space caller_pid user_call_ptr s =
     (let return = (\<lambda>rc. ret (Returned rc)) in
      case (if user_call_ptr = 0 then None else user_read_mem space user_call_ptr 56 s) of
        None \<Rightarrow> return K64_ERR_FAULT s
      | Some block \<Rightarrow>
          let user_call = dec_call_user block in
          case copy_user_service_name space (uc_service user_call) K64_SERVICE_CALL_OWNER_MAX s of
            Inl rc \<Rightarrow> return rc s
          | Inr service \<Rightarrow>
          case copy_user_service_name space (uc_method user_call) K64_SERVICE_CALL_NAME_MAX s of
            Inl rc \<Rightarrow> return rc s
          | Inr method \<Rightarrow>
              let request_len = unat (uc_request_len user_call); response_len = unat (uc_response_len user_call) in
              if request_len > K64_SERVICE_CALL_PAYLOAD_MAX \<or> response_len > K64_SERVICE_CALL_PAYLOAD_MAX then return K64_ERR_OVERFLOW s
              else if request_len \<noteq> 0 \<and> uc_request user_call = 0 \<or> response_len \<noteq> 0 \<and> uc_response user_call = 0 then return K64_ERR_FAULT s
              else case service_scratch_acquire caller_pid s of
                  (None, s) \<Rightarrow> return K64_ERR_BUSY s
                | (Some j, s) \<Rightarrow>
                    (case user_read_mem space (uc_request user_call) request_len s of
                       None \<Rightarrow> return K64_ERR_FAULT (service_scratch_release j s)
                     | Some in_buf \<Rightarrow>
                         bind (k64_system_dispatch_call env service method (if request_len \<noteq> 0 then Some in_buf else None)
                                 (if response_len \<noteq> 0 then Some response_len else None) caller_pid 0) (\<lambda>a.
                         case gate_response a response_len of (rc, data) \<Rightarrow> (\<lambda>s.
                         case (if response_len \<noteq> 0 then user_write_mem space (uc_response user_call) data s else (True, s)) of (ok, s) \<Rightarrow>
                         let rc = (if ok then rc else K64_ERR_FAULT); s = service_scratch_release j s in
                         if rc = K64_OK \<and> service = ''proc'' \<and> method = ''exit'' then ret Left_user_mode s else return rc s)) s))"

section \<open>The call on values\<close>

type_synonym 'g syscall = "string \<Rightarrow> string \<Rightarrow> bytes option \<Rightarrow> nat option \<Rightarrow> ('g, int \<times> bytes) svcop"

abbreviation opt_bytes :: "bytes option \<Rightarrow> bytes" where
  "opt_bytes b \<equiv> (case b of None \<Rightarrow> [] | Some b \<Rightarrow> b)"

abbreviation opt_size :: "nat option \<Rightarrow> nat" where
  "opt_size n \<equiv> (case n of None \<Rightarrow> 0 | Some n \<Rightarrow> n)"

text \<open>An operand of length zero is passed on as a null pointer.\<close>

definition service_gate :: "'g service_env \<Rightarrow> u64 \<Rightarrow> 'g syscall" where
  "service_gate env caller_pid service method request out s =
     (let request_len = length (opt_bytes request); response_len = opt_size out in
      if \<not> service_call_name_valid service K64_SERVICE_CALL_OWNER_MAX \<or> \<not> service_call_name_valid method K64_SERVICE_CALL_NAME_MAX
      then ret (K64_ERR_INVAL, []) s
      else if request_len > K64_SERVICE_CALL_PAYLOAD_MAX \<or> response_len > K64_SERVICE_CALL_PAYLOAD_MAX then ret (K64_ERR_OVERFLOW, []) s
      else case service_scratch_acquire caller_pid s of
          (None, s) \<Rightarrow> ret (K64_ERR_BUSY, []) s
        | (Some j, s) \<Rightarrow>
            bind (k64_system_dispatch_call env service method (if request_len \<noteq> 0 then request else None)
                    (if response_len \<noteq> 0 then out else None) caller_pid 0) (\<lambda>a s.
            ret (gate_response a response_len) (service_scratch_release j s)) s)"

lemma scratch_acquire_vm: "service_scratch_acquire pid s = (j, t) \<Longrightarrow> user_read_mem space p n t = user_read_mem space p n s"
  by (auto simp: service_scratch_acquire_def user_read_mem_def split: option.splits)

lemma scratch_release_write:
  "user_write_mem space p data (service_scratch_release j s) = (case user_write_mem space p data s of (ok, t) \<Rightarrow> (ok, service_scratch_release j t))"
  by (simp add: user_write_mem_def service_scratch_release_def split: option.split prod.split)

lemma copied_name_valid: "copy_name_bytes space p n left done' s = Inr name \<Longrightarrow> service_call_name_valid name n"
  by (induction left arbitrary: done') (auto split: option.splits if_splits)

lemma copied_service_name_valid: "copy_user_service_name space p n s = Inr name \<Longrightarrow> service_call_name_valid name n"
  by (auto simp: copy_user_service_name_def copied_name_valid split: if_splits)

text \<open>
  For a process whose call block, names and request can be read, the system call is the call on the values
  read and the copy of the response into the memory of the process.
\<close>

lemma syscall_is_gate:
  assumes ptr: "user_call_ptr \<noteq> 0" "user_read_mem space user_call_ptr 56 s = Some block" and call: "c = dec_call_user block"
    and names: "copy_user_service_name space (uc_service c) K64_SERVICE_CALL_OWNER_MAX s = Inr service"
      "copy_user_service_name space (uc_method c) K64_SERVICE_CALL_NAME_MAX s = Inr method"
    and request: "user_read_mem space (uc_request c) (unat (uc_request_len c)) s = Some input" "length input = unat (uc_request_len c)"
    and pointers: "input \<noteq> [] \<Longrightarrow> uc_request c \<noteq> 0" "n \<noteq> 0 \<Longrightarrow> uc_response c \<noteq> 0" and out: "n = unat (uc_response_len c)"
  shows "syscall_service_call env space pid user_call_ptr s =
    bind (service_gate env pid service method (Some input) (Some n)) (\<lambda>(rc, data) s.
      case (if n \<noteq> 0 then user_write_mem space (uc_response c) data s else (True, s)) of (ok, s) \<Rightarrow>
      let rc = (if ok then rc else K64_ERR_FAULT) in
      ret (if rc = K64_OK \<and> service = ''proc'' \<and> method = ''exit'' then Left_user_mode else Returned rc) s) s"
proof (cases "service_scratch_acquire pid s")
  case (Pair j t)
  have valid: "service_call_name_valid service K64_SERVICE_CALL_OWNER_MAX" "service_call_name_valid method K64_SERVICE_CALL_NAME_MAX"
    using names by (simp_all add: copied_service_name_valid)
  have ptrs: "\<not> (length input \<noteq> 0 \<and> uc_request c = 0 \<or> n \<noteq> 0 \<and> uc_response c = 0)" using pointers by auto
  have read: "user_read_mem space (uc_request c) (length input) t = Some input"
    using request by (simp add: scratch_acquire_vm [OF Pair])
  note step = syscall_service_call_def Let_def if_not_P [OF ptr(1)] ptr(2) option.case call [symmetric] names sum.case
    request(2) [symmetric] out [symmetric] if_not_P [OF ptrs]
  show ?thesis
  proof (cases "length input > K64_SERVICE_CALL_PAYLOAD_MAX \<or> n > K64_SERVICE_CALL_PAYLOAD_MAX")
    case True
    then show ?thesis
      by (simp only: step if_P service_gate_def valid bind_def ret_def) (auto simp: K64_ERR_OVERFLOW_def K64_OK_def user_write_mem_def)
  next
    case False
    show ?thesis
    proof (cases j)
      case None
      then show ?thesis
        by (simp only: step if_not_P [OF False] service_gate_def valid bind_def ret_def Pair prod.case) (auto simp: K64_ERR_BUSY_def K64_OK_def user_write_mem_def)
    next
      case (Some k)
      obtain r u where d: "k64_system_dispatch_call env service method (if length input \<noteq> 0 then Some input else None) (if n \<noteq> 0 then Some n else None) pid 0 t = (r, u)"
        by fastforce
      obtain rc data where g: "\<And>a. r = Ok a \<Longrightarrow> gate_response a n = (rc, data)"
        by (cases r) fastforce+
      obtain ok v where w: "(if n \<noteq> 0 then user_write_mem space (uc_response c) data u else (True, u)) = (ok, v)" by fastforce
      then have w': "(if n \<noteq> 0 then user_write_mem space (uc_response c) data (service_scratch_release k u) else (True, service_scratch_release k u)) = (ok, service_scratch_release k v)"
        by (cases "n = 0") (simp_all add: scratch_release_write)
      show ?thesis
        by (cases r; simp only: step if_not_P [OF False] service_gate_def valid Pair Some prod.case read bind_def d g res.case ret_def w w' not_True_eq_False simp_thms if_False)
          simp_all
    qed
  qed
qed

end
