(* ===== verification/Demosvc.thy ===== *)
theory Demosvc
  imports Service_Gate
begin

text \<open>
  A service that runs as a user process: the program \<^verbatim>\<open>src/userland/bin/demosvc.c\<close> and the functions of the
  user library \<^verbatim>\<open>src/userland/lib/k64libc.c\<close> through which it takes a request and answers it. The system call
  is an argument \<open>call\<close> of the program: service, method, request and size of the response buffer give the
  status and the bytes of the response. \<open>service_gate\<close> is that call as the kernel serves it.
\<close>

section \<open>The user library\<close>

definition k64_getpid :: "'g syscall \<Rightarrow> ('g, int) svcop" where
  "k64_getpid call =
     bind (call ''proc'' ''getpid'' None (Some 8)) (\<lambda>(rc, out).
     ret (if rc = K64_OK then sint (le_dec (put_at 0 out (le_enc 8 (word_of_int K64_ERR_INVAL :: u64))) :: u64) else rc))"

definition k64_service_recv :: "'g syscall \<Rightarrow> string \<Rightarrow> ('g, int \<times> bytes) svcop" where
  "k64_service_recv call service =
     call ''svc'' ''recv'' (Some (text_bytes service)) (Some (msg_header_size + K64_SERVICE_MSG_DATA_MAX))"

definition enc_reply :: "u64 \<Rightarrow> int \<Rightarrow> bytes \<Rightarrow> bytes" where
  "enc_reply request_id status response =
     le_enc 8 request_id @ le_enc 8 (word_of_int status :: u64) @ le_enc 8 (of_nat (length response) :: u64) @ response"

definition k64_service_reply :: "'g syscall \<Rightarrow> u64 \<Rightarrow> int \<Rightarrow> bytes \<Rightarrow> ('g, int) svcop" where
  "k64_service_reply call request_id status response =
     (if length response > K64_SERVICE_MSG_DATA_MAX then ret K64_ERR_OVERFLOW
      else bind (call ''svc'' ''reply'' (Some (enc_reply request_id status response)) None) (\<lambda>(rc, _). ret rc))"

section \<open>The program\<close>

definition upper_byte :: "u8 \<Rightarrow> u8" where
  "upper_byte ch = (if 97 \<le> ch \<and> ch \<le> 122 then ch - 97 + 65 else ch)"

definition upper_copy :: "bytes \<Rightarrow> bytes" where
  "upper_copy src = map upper_byte (take K64_SERVICE_MSG_DATA_MAX src)"

text \<open>The fields of a received message that the program reads.\<close>

definition msg_request_id :: "bytes \<Rightarrow> u64" where "msg_request_id msg = le_dec (bytes_at 0 8 msg)"
definition msg_method :: "bytes \<Rightarrow> string" where "msg_method msg = array_str (bytes_at 80 K64_SERVICE_CALL_NAME_MAX msg)"
definition msg_data :: "bytes \<Rightarrow> bytes" where
  "msg_data msg = bytes_at msg_header_size (unat (le_dec (bytes_at 24 8 msg) :: u64)) msg"

definition demosvc_main :: "'g syscall \<Rightarrow> string option \<Rightarrow> ('g, int) svcop" where
  "demosvc_main call arg =
     bind (k64_service_recv call (case arg of None \<Rightarrow> ''demo'' | Some t \<Rightarrow> t)) (\<lambda>(rc, msg).
     if rc = K64_ERR_AGAIN then ret 0
     else if rc \<noteq> K64_OK then ret 1
     else
       let exit_code = (\<lambda>rc. ret (if rc = K64_OK then 0 else 1)) in
       if msg_method msg = ''echo'' then bind (k64_service_reply call (msg_request_id msg) K64_OK (msg_data msg)) exit_code
       else if msg_method msg = ''upper'' then bind (k64_service_reply call (msg_request_id msg) K64_OK (upper_copy (msg_data msg))) exit_code
       else if msg_method msg = ''pid'' then
         bind (k64_getpid call) (\<lambda>pid.
         bind (k64_service_reply call (msg_request_id msg) K64_OK (le_enc 8 (word_of_int pid :: u64))) exit_code)
       else bind (k64_service_reply call (msg_request_id msg) K64_ERR_NOENT []) (\<lambda>_. ret 0))"

end
