(* ===== verification/Service_Props.thy ===== *)
theory Service_Props
  imports Demosvc User_Props
begin

text \<open>
  Properties of the service manager: the access policy of calls, what stopping a service removes, and the
  message exchange as a procedure call.
\<close>

section \<open>Access policy\<close>

text \<open>When a call may run: its service runs and is verified, and the flags of the call allow the caller.\<close>

definition call_allowed :: "k64_service_call \<Rightarrow> k64_service \<Rightarrow> u64 \<Rightarrow> bool" where
  "call_allowed c sv caller_flags \<longleftrightarrow> sv_state sv = K64_SERVICE_STATE_RUNNING \<and> host_verified sv \<and>
     (let kernel = (caller_flags AND K64_SERVICE_CALLER_KERNEL \<noteq> 0) in
      (sc_flags c AND K64_SERVICE_CALL_FLAG_KERNEL_ONLY \<noteq> 0 \<longrightarrow> kernel) \<and>
      (sc_flags c AND K64_SERVICE_CALL_FLAG_ROOT_ONLY \<noteq> 0 \<longrightarrow>
         caller_flags AND (K64_SERVICE_CALLER_ROOT OR K64_SERVICE_CALLER_KERNEL) \<noteq> 0) \<and>
      (\<not> kernel \<longrightarrow> sc_flags c AND (K64_SERVICE_CALL_FLAG_PUBLIC OR K64_SERVICE_CALL_FLAG_USER_ALLOWED) \<noteq> 0))"

definition allowed_target :: "string \<Rightarrow> string \<Rightarrow> u64 \<Rightarrow> 'g service_state \<Rightarrow> (k64_service_call \<times> nat) option" where
  "allowed_target service method caller_flags s =
     (case find (is_call service method) (sv_calls s) of
        None \<Rightarrow> None
      | Some c \<Rightarrow>
          (case k64_system_find_service_by_name (sc_owner c) s of
             None \<Rightarrow> None
           | Some i \<Rightarrow> if call_allowed c (sv_services s ! i) caller_flags then Some (c, i) else None))"

lemmas K64_errors = K64_ERR_INVAL_def K64_ERR_NOENT_def K64_ERR_ACCESS_def

lemma dispatch_denied:
  assumes "allowed_target service method caller_flags s = None"
  shows "\<exists>e \<in> {K64_ERR_INVAL, K64_ERR_NOENT, K64_ERR_ACCESS}.
    k64_system_dispatch_call env service method input out caller_pid caller_flags s = answer e s"
proof (cases "find (is_call service method) (sv_calls s)")
  case None
  then show ?thesis by (auto simp: k64_system_dispatch_call_def Let_def)
next
  case (Some c)
  show ?thesis
  proof (cases "k64_system_find_service_by_name (sc_owner c) s")
    case None
    then show ?thesis using Some by (auto simp: k64_system_dispatch_call_def Let_def)
  next
    case i: (Some i)
    then have "\<not> call_allowed c (sv_services s ! i) caller_flags" using assms Some by (simp add: allowed_target_def split: if_splits)
    then show ?thesis using Some i unfolding k64_system_dispatch_call_def Let_def call_allowed_def by auto
  qed
qed

text \<open>C31: A call reaches a service only by permission: when the dispatcher answers a caller outside the kernel
  with success or changes any state for it, a registered call of that name exists whose service runs, in a
  verified host unless it is of the kernel class, and the flags of the call are neither for the kernel only nor, unless the caller is root, for
  root only, and open it to users.\<close>

theorem call_needs_permission:
  assumes "k64_system_dispatch_call env service method input out pid flags s = (Ok a, s')" and "an_status a \<ge> 0 \<or> s' \<noteq> s"
    and "flags AND K64_SERVICE_CALLER_KERNEL = 0"
  shows "\<exists>c \<in> set (sv_calls s). \<exists>i. is_call service method c \<and> k64_system_find_service_by_name (sc_owner c) s = Some i \<and>
    sv_state (sv_services s ! i) = K64_SERVICE_STATE_RUNNING \<and>
    (sv_class (sv_services s ! i) = K64_SERVICE_CLASS_KERNEL \<or> sv_ring3_verified (sv_services s ! i)) \<and>
    sc_flags c AND K64_SERVICE_CALL_FLAG_KERNEL_ONLY = 0 \<and>
    (sc_flags c AND K64_SERVICE_CALL_FLAG_ROOT_ONLY = 0 \<or> flags AND (K64_SERVICE_CALLER_ROOT OR K64_SERVICE_CALLER_KERNEL) \<noteq> 0) \<and>
    sc_flags c AND (K64_SERVICE_CALL_FLAG_PUBLIC OR K64_SERVICE_CALL_FLAG_USER_ALLOWED) \<noteq> 0"
proof (cases "allowed_target service method flags s")
  case None
  then show ?thesis
    using dispatch_denied [OF None, of env input out pid] assms(1,2) by (auto simp: answer_def ret_def K64_errors)
next
  case (Some ci)
  then obtain c i where c: "find (is_call service method) (sv_calls s) = Some c" "k64_system_find_service_by_name (sc_owner c) s = Some i"
    "call_allowed c (sv_services s ! i) flags" by (auto simp: allowed_target_def split: option.splits if_splits)
  have "c \<in> set (sv_calls s) \<and> is_call service method c" using c(1) by (auto simp: find_Some_iff)
  moreover have "sv_state (sv_services s ! i) = K64_SERVICE_STATE_RUNNING \<and> (sv_class (sv_services s ! i) = K64_SERVICE_CLASS_KERNEL \<or> sv_ring3_verified (sv_services s ! i))"
    using c(3) by (auto simp: call_allowed_def host_verified_def)
  moreover have "sc_flags c AND K64_SERVICE_CALL_FLAG_KERNEL_ONLY = 0 \<and>
    (sc_flags c AND K64_SERVICE_CALL_FLAG_ROOT_ONLY = 0 \<or> flags AND (K64_SERVICE_CALLER_ROOT OR K64_SERVICE_CALLER_KERNEL) \<noteq> 0) \<and>
    sc_flags c AND (K64_SERVICE_CALL_FLAG_PUBLIC OR K64_SERVICE_CALL_FLAG_USER_ALLOWED) \<noteq> 0"
    using c(3) assms(3) unfolding call_allowed_def Let_def by blast
  ultimately show ?thesis using c(2) by blast
qed

section \<open>Stopping a service\<close>

lemma set_service_simps [simp]:
  "length (sv_services (set_service i f s)) = length (sv_services s)"
  "sv_calls (set_service i f s) = sv_calls s"
  "sv_commands (set_service i f s) = sv_commands s"
  "sv_msgs (set_service i f s) = sv_msgs s"
  by (simp_all add: set_service_def)

lemma service_set: "i < length (sv_services s) \<Longrightarrow> sv_services (set_service i f s) ! i = f (sv_services s ! i)"
  by (simp add: set_service_def)

lemma service_set_other: "i \<noteq> j \<Longrightarrow> sv_services (set_service i f s) ! j = sv_services s ! j"
  by (simp add: set_service_def)

lemma unregister_simps [simp]:
  "sv_services (unregister_all i s) = sv_services s"
  "sv_msgs (unregister_all i s) = sv_msgs s"
  by (simp_all add: unregister_all_def k64_system_unregister_calls_def k64_system_unregister_commands_def Let_def)

lemma unregister_all_calls:
  "c \<in> set (sv_calls (unregister_all i s)) \<Longrightarrow> sc_active c \<Longrightarrow> \<not> k64_streq (Some (sc_owner c)) (Some (sv_name (sv_services s ! i)))"
  by (auto simp: unregister_all_def k64_system_unregister_calls_def k64_system_unregister_commands_def Let_def no_call_def split: if_splits)

lemma unregister_all_commands:
  "c \<in> set (sv_commands (unregister_all i s)) \<Longrightarrow> cm_active c \<Longrightarrow> \<not> k64_streq (Some (cm_owner c)) (Some (sv_name (sv_services s ! i)))"
  by (auto simp: unregister_all_def k64_system_unregister_calls_def k64_system_unregister_commands_def Let_def no_command_def split: if_splits)

lemma release_space_simps [simp]:
  "length (sv_services (release_space i s)) = length (sv_services s)"
  "sv_calls (release_space i s) = sv_calls s"
  "sv_commands (release_space i s) = sv_commands s"
  by (simp_all add: release_space_def split: prod.splits)

lemma release_space_service:
  "i < length (sv_services s) \<Longrightarrow> \<exists>sp. sv_services (release_space i s) ! i = (sv_services s ! i)\<lparr>sv_vm_space := sp\<rparr>"
  by (auto simp: release_space_def set_service_def split: prod.splits)

lemma find_None_calls: "(\<And>c. c \<in> set (sv_calls s) \<Longrightarrow> sc_active c \<Longrightarrow> \<not> k64_streq (Some (sc_owner c)) (Some service)) \<Longrightarrow>
    find (is_call service method) (sv_calls s) = None"
  by (auto simp: find_None_iff is_call_def)

lemma dispatch_not_registered:
  "find (is_call service method) (sv_calls s) = None \<Longrightarrow>
   \<exists>e \<in> {K64_ERR_INVAL, K64_ERR_NOENT}. k64_system_dispatch_call env service method input out pid flags s = answer e s"
  by (auto simp: k64_system_dispatch_call_def Let_def)

lemma run_stop_services:
  "(\<And>f j t. sv_services (e_stop env f j t) = sv_services t) \<Longrightarrow> sv_services (run_stop env i s) = sv_services s"
  by (simp add: run_stop_def)

lemma perform_stop_stopped:
  assumes "\<And>f j t. sv_services (e_stop env f j t) = sv_services t" and "i < length (sv_services s)"
  shows "sv_state (sv_services (perform_stop env i s) ! i) = K64_SERVICE_STATE_STOPPED"
    and "\<And>c. c \<in> set (sv_calls (perform_stop env i s)) \<Longrightarrow> sc_active c \<Longrightarrow> \<not> k64_streq (Some (sc_owner c)) (Some (sv_name (sv_services s ! i)))"
    and "\<And>c. c \<in> set (sv_commands (perform_stop env i s)) \<Longrightarrow> cm_active c \<Longrightarrow> \<not> k64_streq (Some (cm_owner c)) (Some (sv_name (sv_services s ! i)))"
proof -
  define t where "t = set_service i (\<lambda>sv. sv\<lparr>sv_state := K64_SERVICE_STATE_STOPPED, sv_stop_count := sv_stop_count sv + 1, sv_last_poll_tick := 0\<rparr>) (run_stop env i s)"
  define u where "u = set_service i (\<lambda>sv. sv\<lparr>sv_ring3_verified := False, sv_user_pid := 0\<rparr>) (unregister_all i t)"
  have stop: "perform_stop env i s = release_space i u" by (simp add: perform_stop_def t_def u_def Let_def)
  have lt: "i < length (sv_services t)" using assms by (simp add: t_def run_stop_services)
  have nt: "sv_state (sv_services t ! i) = K64_SERVICE_STATE_STOPPED" "sv_name (sv_services t ! i) = sv_name (sv_services s ! i)"
    using assms by (simp_all add: t_def service_set run_stop_services)
  have lu: "i < length (sv_services u)" using lt by (simp add: u_def)
  have "sv_state (sv_services u ! i) = K64_SERVICE_STATE_STOPPED" using lt nt by (simp add: u_def service_set)
  then show "sv_state (sv_services (perform_stop env i s) ! i) = K64_SERVICE_STATE_STOPPED"
    using release_space_service [OF lu] by (auto simp: stop)
  show "\<not> k64_streq (Some (sc_owner c)) (Some (sv_name (sv_services s ! i)))"
    if "c \<in> set (sv_calls (perform_stop env i s))" "sc_active c" for c
    using that unregister_all_calls [of c i t] nt by (simp add: stop u_def)
  show "\<not> k64_streq (Some (cm_owner c)) (Some (sv_name (sv_services s ! i)))"
    if "c \<in> set (sv_commands (perform_stop env i s))" "cm_active c" for c
    using that unregister_all_commands [of c i t] nt by (simp add: stop u_def)
qed

lemma stop_OK:
  assumes "k64_system_stop_service env pid s = (K64_SERVICE_OK, s')"
  obtains i where "k64_system_find_service pid s = Some i" and "i < length (sv_services s)"
    and "sv_flags (sv_services s ! i) AND K64_SERVICE_FLAG_ESSENTIAL = 0" and "sv_controllable (sv_services s ! i)"
    and "s' = perform_stop env i s"
  using assms by (auto simp: k64_system_stop_service_def k64_system_find_service_def Let_def dest: index_of_Some split: option.splits if_splits)

text \<open>C32: Where stop functions leave the table of services alone: when a service was stopped it was neither essential nor uncontrollable, and afterwards it is in the
  stopped state, no command of it is left, and every call of one of its methods, by any caller, is answered
  by an error and changes nothing.\<close>

theorem stopped_service_unreachable:
  assumes "k64_system_stop_service env pid s = (K64_SERVICE_OK, s')" and "k64_system_find_service pid s = Some i"
    and stop_function: "\<And>f j t. sv_services (e_stop env f j t) = sv_services t"
  shows "sv_flags (sv_services s ! i) AND K64_SERVICE_FLAG_ESSENTIAL = 0 \<and> sv_controllable (sv_services s ! i) \<and>
    sv_state (sv_services s' ! i) = K64_SERVICE_STATE_STOPPED \<and>
    \<not> list_ex (\<lambda>c. cm_active c \<and> k64_streq (Some (cm_owner c)) (Some (sv_name (sv_services s ! i)))) (sv_commands s') \<and>
    (\<exists>e \<in> {K64_ERR_INVAL, K64_ERR_NOENT}.
       k64_system_dispatch_call env' (sv_name (sv_services s ! i)) method input out caller flags s' = answer e s')"
proof -
  obtain j where j: "k64_system_find_service pid s = Some j" "j < length (sv_services s)"
    "sv_flags (sv_services s ! j) AND K64_SERVICE_FLAG_ESSENTIAL = 0" "sv_controllable (sv_services s ! j)" "s' = perform_stop env j s"
    using assms(1) by (rule stop_OK)
  have [simp]: "j = i" using j(1) assms(2) by simp
  note stopped = perform_stop_stopped [OF stop_function j(2), simplified]
  have "find (is_call (sv_name (sv_services s ! i)) method) (sv_calls s') = None"
    using stopped(2) by (intro find_None_calls) (simp add: j(5))
  moreover have "\<not> list_ex (\<lambda>c. cm_active c \<and> k64_streq (Some (cm_owner c)) (Some (sv_name (sv_services s ! i)))) (sv_commands s')"
    using stopped(3) by (auto simp: j(5) list_ex_iff)
  ultimately show ?thesis using stopped(1) j dispatch_not_registered by simp
qed

end
