(* ===== verification/Demosvc_Props.thy ===== *)
theory Demosvc_Props
  imports Service_Props
begin

text \<open>
  The message exchange with a service process, from the dispatch of a call through the mailbox, the program of
  the service and back: a call of a method of the demonstration service is the procedure call that its
  program computes.
\<close>

section \<open>The part of the state a call goes through\<close>

text \<open>
  The tables of the service manager and of the gate. Running a process also changes the memory, the file system,
  the clock, the terminal and the counters of process identifiers, of which nothing is said.
\<close>

definition same_registry :: "'g service_state \<Rightarrow> 'g service_state \<Rightarrow> bool" where
  "same_registry s t \<longleftrightarrow> sv_services s = sv_services t \<and> sv_commands s = sv_commands t \<and> sv_calls s = sv_calls t \<and> sv_msgs s = sv_msgs t \<and>
     next_service_request_id s = next_service_request_id t \<and> sv_scratch s = sv_scratch t"

lemma same_registry_refl [simp]: "same_registry s s"
  by (simp add: same_registry_def)

lemma same_registry_clear: "same_registry s t \<Longrightarrow> same_registry (service_msg_clear i s) (service_msg_clear i t)"
  by (simp add: same_registry_def service_msg_clear_def set_msg_def)

text \<open>A staging slot is free, and the free ones have no owner.\<close>

definition scratch_ready :: "'g service_state \<Rightarrow> bool" where
  "scratch_ready s \<longleftrightarrow> list_ex (\<lambda>c. \<not> ss_used c) (sv_scratch s) \<and> list_all (\<lambda>c. ss_used c \<or> ss_owner_pid c = 0) (sv_scratch s)"

lemma scratch_slot:
  assumes "scratch_ready s"
  obtains j where "j < length (sv_scratch s)" and "sv_scratch s ! j = free_scratch"
    and "service_scratch_acquire pid s = (Some j, s\<lparr>sv_scratch := (sv_scratch s)[j := \<lparr>ss_used = True, ss_owner_pid = pid\<rparr>]\<rparr>)"
proof -
  obtain j where j: "index_of (\<lambda>c. \<not> ss_used c) (sv_scratch s) = Some j"
    using assms by (cases "index_of (\<lambda>c. \<not> ss_used c) (sv_scratch s)") (auto simp: scratch_ready_def index_of_None list_ex_iff)
  then have i: "j < length (sv_scratch s)" "\<not> ss_used (sv_scratch s ! j)" using index_of_Some [OF j] by simp_all
  then have "ss_owner_pid (sv_scratch s ! j) = 0" using assms by (auto simp: scratch_ready_def list_all_length)
  then have "sv_scratch s ! j = free_scratch" using i(2) by (cases "sv_scratch s ! j") (simp add: free_scratch_def)
  then show ?thesis using that [of j] i(1) j by (simp add: service_scratch_acquire_def)
qed

section \<open>The mailbox\<close>

text \<open>No message of the mailbox waits to be taken, none has the next identifier, and one is free.\<close>

definition mailbox_ready :: "'g service_state \<Rightarrow> bool" where
  "mailbox_ready s \<longleftrightarrow> next_service_request_id s \<noteq> 0 \<and>
     list_all (\<lambda>m. m_state m = K64_SERVICE_MSG_EMPTY \<or>
       m_state m \<noteq> K64_SERVICE_MSG_PENDING \<and> m_request_id m \<noteq> next_service_request_id s) (sv_msgs s) \<and>
     list_ex (\<lambda>m. m_state m = K64_SERVICE_MSG_EMPTY) (sv_msgs s)"

definition posted :: "'g service_state \<Rightarrow> nat \<Rightarrow> k64_service_msg \<Rightarrow> 'g service_state" where
  "posted s i m = s\<lparr>sv_msgs := (sv_msgs s)[i := m], next_service_request_id := next_request_id (next_service_request_id s)\<rparr>"

lemma posted_simps [simp]:
  "sv_services (posted s i m) = sv_services s"
  "sv_calls (posted s i m) = sv_calls s"
  "sv_msgs (posted s i m) = (sv_msgs s)[i := m]"
  "sv_scratch (posted s i m) = sv_scratch s"
  by (simp_all add: posted_def)

lemma posted_scratch: "(posted s i m)\<lparr>sv_scratch := x\<rparr> = posted (s\<lparr>sv_scratch := x\<rparr>) i m"
  by (simp add: posted_def)

lemma posted_other:
  assumes "same_registry v (posted s i m)"
  obtains s' where "v = posted s' i m" and "same_registry s' s"
  using that [of "v\<lparr>sv_msgs := sv_msgs s, next_service_request_id := next_service_request_id s\<rparr>"] assms
  by (cases v) (simp add: same_registry_def posted_def)

lemma same_registry_posted: "same_registry s' s \<Longrightarrow> same_registry (posted s' i m) (posted s i m)"
  by (simp add: same_registry_def posted_def)

lemma mailbox_registry: "same_registry s t \<Longrightarrow> mailbox_ready s = mailbox_ready t"
  by (simp add: same_registry_def mailbox_ready_def)

lemma scratch_registry: "same_registry s t \<Longrightarrow> scratch_ready s = scratch_ready t"
  by (simp add: same_registry_def scratch_ready_def)

lemma posted_find [simp]: "k64_system_find_service_by_name name (posted s i m) = k64_system_find_service_by_name name s"
  by (simp add: k64_system_find_service_by_name_def)

lemma posted_target [simp]: "allowed_target service method flags (posted s i m) = allowed_target service method flags s"
  by (simp add: allowed_target_def cong: option.case_cong)

lemma set_msg_posted [simp]: "i < length (sv_msgs s) \<Longrightarrow> set_msg i f (posted s i m) = posted s i (f m)"
  by (simp add: set_msg_def posted_def)

lemma index_of_update:
  "i < length xs \<Longrightarrow> P m \<Longrightarrow> (\<And>j. j < length xs \<Longrightarrow> j \<noteq> i \<Longrightarrow> \<not> P (xs ! j)) \<Longrightarrow> index_of P (xs[i := m]) = Some i"
proof (induction xs arbitrary: i)
  case (Cons x xs)
  show ?case
  proof (cases i)
    case (Suc k)
    have "\<not> P x" using Cons.prems(3) [of 0] Suc by simp
    moreover have "index_of P (xs[k := m]) = Some k"
      using Cons.prems(1,2) Suc Cons.prems(3) [of "Suc j" for j] by (intro Cons.IH) auto
    ultimately show ?thesis using Suc by simp
  qed (use Cons.prems in simp)
qed simp

lemma mailbox_slot:
  assumes "mailbox_ready s"
  obtains i where "i < length (sv_msgs s)" and "m_state (sv_msgs s ! i) = K64_SERVICE_MSG_EMPTY"
    and "service_msg_alloc s = (Some i, posted s i (empty_msg\<lparr>m_state := K64_SERVICE_MSG_PENDING, m_request_id := next_service_request_id s\<rparr>))"
proof -
  obtain i where i: "index_of (\<lambda>m. m_state m = K64_SERVICE_MSG_EMPTY) (sv_msgs s) = Some i"
    using assms by (cases "index_of (\<lambda>m. m_state m = K64_SERVICE_MSG_EMPTY) (sv_msgs s)") (auto simp: mailbox_ready_def index_of_None list_ex_iff)
  have "no_msg m = empty_msg" for m by (cases m) (simp add: no_msg_def empty_msg_def)
  then show ?thesis using that [of i] index_of_Some [OF i] i
    by (simp add: service_msg_alloc_def set_msg_def posted_def)
qed

lemma mailbox_other:
  "mailbox_ready s \<Longrightarrow> j < length (sv_msgs s) \<Longrightarrow>
   m_state (sv_msgs s ! j) \<noteq> K64_SERVICE_MSG_PENDING \<and>
   (m_state (sv_msgs s ! j) = K64_SERVICE_MSG_EMPTY \<or> m_request_id (sv_msgs s ! j) \<noteq> next_service_request_id s)"
  by (auto simp: mailbox_ready_def list_all_length)

lemma pending_posted:
  assumes "mailbox_ready s" and "i < length (sv_msgs s)" and "m_state m = K64_SERVICE_MSG_PENDING" and "Q m"
  shows "index_of (\<lambda>m. m_state m = K64_SERVICE_MSG_PENDING \<and> Q m) ((sv_msgs s)[i := m]) = Some i"
  using assms mailbox_other [OF assms(1)] by (intro index_of_update) auto

lemma find_posted:
  assumes "mailbox_ready s" and "i < length (sv_msgs s)" and "m_state m \<noteq> K64_SERVICE_MSG_EMPTY" and "m_request_id m = next_service_request_id s"
  shows "service_msg_find (next_service_request_id s) (posted s i m) = Some i"
proof -
  have "next_service_request_id s \<noteq> 0" using assms(1) by (simp add: mailbox_ready_def)
  moreover have "index_of (\<lambda>m. m_state m \<noteq> K64_SERVICE_MSG_EMPTY \<and> m_request_id m = next_service_request_id s) ((sv_msgs s)[i := m]) = Some i"
    using assms mailbox_other [OF assms(1)] by (intro index_of_update) auto
  ultimately show ?thesis by (simp add: service_msg_find_def)
qed

section \<open>The layout of the messages\<close>

lemma length_svc_copy: "0 < n \<Longrightarrow> length (svc_copy n t) \<le> n"
  by (simp add: svc_copy_def)

lemma length_header: "length (enc_msg_header m) = msg_header_size"
  by (simp add: enc_msg_header_def msg_header_size_def length_char_array length_svc_copy K64_SERVICE_CALL_OWNER_MAX_def K64_SERVICE_CALL_NAME_MAX_def)

lemma header_request_id: "msg_request_id (enc_msg_header m @ d) = m_request_id m"
  by (simp add: msg_request_id_def enc_msg_header_def bytes_at_head le_dec_le_enc)

lemma header_method:
  assumes "CHR 0x00 \<notin> set (m_method m)" and "length (m_method m) < K64_SERVICE_CALL_NAME_MAX"
  shows "msg_method (enc_msg_header m @ d) = m_method m"
proof -
  let ?t = "svc_copy K64_SERVICE_CALL_NAME_MAX (m_method m)"
  have t: "?t = m_method m" using assms(2) by (simp add: svc_copy_def K64_SERVICE_CALL_NAME_MAX_def)
  have "bytes_at 80 32 (enc_msg_header m @ d) = char_array 32 ?t"
    by (simp add: enc_msg_header_def bytes_at_skip bytes_at_head length_char_array length_svc_copy K64_SERVICE_CALL_OWNER_MAX_def K64_SERVICE_CALL_NAME_MAX_def)
  then show ?thesis using assms t by (simp add: msg_method_def K64_SERVICE_CALL_NAME_MAX_def array_str_char_array)
qed

lemma header_data:
  assumes "length (m_request m) \<le> K64_SERVICE_MSG_DATA_MAX"
  shows "msg_data (enc_msg_header m @ m_request m) = m_request m"
proof -
  have "bytes_at 24 8 (enc_msg_header m @ m_request m) = le_enc 8 (of_nat (length (m_request m)) :: u64)"
    by (simp add: enc_msg_header_def bytes_at_skip bytes_at_head)
  moreover have "unat (of_nat (length (m_request m)) :: u64) = length (m_request m)"
    using assms by (simp add: K64_SERVICE_MSG_DATA_MAX_def unat_of_nat take_bit_nat_eq_self)
  ultimately show ?thesis
    by (simp add: msg_data_def le_dec_le_enc bytes_at_skip length_header)
qed

lemma reply_fields:
  assumes "length r \<le> K64_SERVICE_MSG_DATA_MAX"
  shows "le_dec (bytes_at 0 8 (enc_reply rid st r)) = rid"
    and "(le_dec (bytes_at 8 8 (enc_reply rid st r)) :: u64) = word_of_int st"
    and "unat (le_dec (bytes_at 16 8 (enc_reply rid st r)) :: u64) = length r"
    and "bytes_at 24 (length r) (enc_reply rid st r) = r"
    and "length (enc_reply rid st r) = 24 + length r"
  using assms by (simp_all add: enc_reply_def bytes_at_skip bytes_at_head le_dec_le_enc K64_SERVICE_MSG_DATA_MAX_def unat_of_nat take_bit_nat_eq_self)

section \<open>Calls of the service process\<close>

lemma dispatch_allowed:
  assumes "allowed_target service method flags s = Some (c, i)" and "name_valid service K64_SERVICE_CALL_OWNER_MAX"
    and "name_valid method K64_SERVICE_CALL_NAME_MAX" and "\<And>b. input = Some b \<Longrightarrow> length b \<le> K64_SERVICE_CALL_PAYLOAD_MAX"
    and "\<And>n. out = Some n \<Longrightarrow> n \<le> K64_SERVICE_CALL_PAYLOAD_MAX"
  shows "k64_system_dispatch_call env service method input out pid flags s =
    (if sc_backend c = K64_SERVICE_CALL_BACKEND_RING3_MESSAGE then
       (case dispatch_ring3_message_call env i c (case input of None \<Rightarrow> [] | Some b \<Rightarrow> b) out pid flags s of (a, s) \<Rightarrow> (Ok a, s))
     else case sc_handler c of
         None \<Rightarrow> answer K64_ERR_NOENT s
       | Some h \<Rightarrow> call_handler env h \<lparr>rq_caller_pid = pid,
           rq_caller_uid = (if flags AND K64_SERVICE_CALLER_KERNEL \<noteq> 0 then 0 else ucast (e_uid env s)),
           rq_caller_flags = flags, rq_service = svc_copy K64_SERVICE_CALL_OWNER_MAX service,
           rq_method = svc_copy K64_SERVICE_CALL_NAME_MAX method, rq_in = input, rq_out = out, rq_flags = sc_flags c\<rparr> s)"
proof -
  have len: "\<not> (case input of None \<Rightarrow> 0 | Some b \<Rightarrow> length b) > K64_SERVICE_CALL_PAYLOAD_MAX"
    "\<not> (case out of None \<Rightarrow> 0 | Some n \<Rightarrow> n) > K64_SERVICE_CALL_PAYLOAD_MAX"
    using assms(4,5) by (auto split: option.splits)
  have target: "find (is_call service method) (sv_calls s) = Some c" "k64_system_find_service_by_name (sc_owner c) s = Some i"
    "call_allowed c (sv_services s ! i) flags"
    using assms(1) by (auto simp: allowed_target_def split: option.splits if_splits)
  note allowed = target(3) [unfolded call_allowed_def Let_def]
  let ?kernel = "flags AND K64_SERVICE_CALLER_KERNEL \<noteq> 0"
  have g: "\<not> sv_state (sv_services s ! i) \<noteq> K64_SERVICE_STATE_RUNNING" "\<not> \<not> host_verified (sv_services s ! i)"
    "\<not> (sc_flags c AND K64_SERVICE_CALL_FLAG_KERNEL_ONLY \<noteq> 0 \<and> \<not> ?kernel)"
    "\<not> (sc_flags c AND K64_SERVICE_CALL_FLAG_ROOT_ONLY \<noteq> 0 \<and> flags AND (K64_SERVICE_CALLER_ROOT OR K64_SERVICE_CALLER_KERNEL) = 0)"
    "\<not> (\<not> ?kernel \<and> sc_flags c AND (K64_SERVICE_CALL_FLAG_PUBLIC OR K64_SERVICE_CALL_FLAG_USER_ALLOWED) = 0)"
    using allowed by blast+
  have "\<not> (\<not> name_valid service K64_SERVICE_CALL_OWNER_MAX \<or> \<not> name_valid method K64_SERVICE_CALL_NAME_MAX \<or>
      (case input of None \<Rightarrow> 0 | Some b \<Rightarrow> length b) > K64_SERVICE_CALL_PAYLOAD_MAX \<or> (case out of None \<Rightarrow> 0 | Some n \<Rightarrow> n) > K64_SERVICE_CALL_PAYLOAD_MAX)"
    using len assms(2,3) by blast
  then show ?thesis
    by (simp only: k64_system_dispatch_call_def Let_def target(1,2) option.case if_not_P [OF g(1)] if_not_P [OF g(2)] if_not_P [OF g(3)]
          if_not_P [OF g(4)] if_not_P [OF g(5)] if_False)
qed

text \<open>A call that is served by the handler \<open>h\<close> for every user process.\<close>

definition served_by :: "string \<Rightarrow> string \<Rightarrow> string \<Rightarrow> 'g service_state \<Rightarrow> bool" where
  "served_by service method h s \<longleftrightarrow>
     (case allowed_target service method 0 s of
        None \<Rightarrow> False
      | Some (c, i) \<Rightarrow> sc_backend c = K64_SERVICE_CALL_BACKEND_KERNEL \<and> sc_handler c = Some h)"

lemma served_posted [simp]: "served_by service method h (posted s i m) = served_by service method h s"
  by (simp add: served_by_def)

lemma served_dispatch:
  assumes "served_by service method h s" and "name_valid service K64_SERVICE_CALL_OWNER_MAX"
    and "name_valid method K64_SERVICE_CALL_NAME_MAX" and "\<And>b. input = Some b \<Longrightarrow> length b \<le> K64_SERVICE_CALL_PAYLOAD_MAX"
    and "\<And>n. out = Some n \<Longrightarrow> n \<le> K64_SERVICE_CALL_PAYLOAD_MAX"
  obtains req where "k64_system_dispatch_call env service method input out pid 0 s = call_handler env h req s"
    and "rq_caller_pid req = pid" and "rq_in req = input" and "rq_out req = out"
proof -
  obtain c i where c: "allowed_target service method 0 s = Some (c, i)" "sc_backend c = K64_SERVICE_CALL_BACKEND_KERNEL" "sc_handler c = Some h"
    using assms(1) by (auto simp: served_by_def split: option.splits)
  show ?thesis
    using that by (simp add: dispatch_allowed [OF c(1) assms(2-5)] c(2,3))
qed

text \<open>A service and a call are found in the same way in a state with the same tables.\<close>

lemma target_cong: "sv_services s = sv_services t \<Longrightarrow> sv_calls s = sv_calls t \<Longrightarrow> allowed_target service method flags s = allowed_target service method flags t"
  by (simp add: allowed_target_def k64_system_find_service_by_name_def cong: option.case_cong)

lemma served_cong: "sv_services s = sv_services t \<Longrightarrow> sv_calls s = sv_calls t \<Longrightarrow> served_by service method h s = served_by service method h t"
  using target_cong [of s t] by (simp add: served_by_def)

text \<open>The conditions on the host of a service: it runs from the entry path of the service.\<close>

definition host_of :: "'g service_env \<Rightarrow> string \<Rightarrow> 'g service_state \<Rightarrow> bool" where
  "host_of host name s \<longleftrightarrow> c_string name \<and> name_valid name K64_SERVICE_CALL_OWNER_MAX \<and>
     (case k64_system_find_service_by_name name s of
        None \<Rightarrow> False
      | Some k \<Rightarrow> sv_state (sv_services s ! k) = K64_SERVICE_STATE_RUNNING \<and> c_string (sv_entry_path (sv_services s ! k)) \<and>
          sv_entry_path (sv_services s ! k) \<noteq> [] \<and> (\<forall>t. e_path host t = Some (sv_entry_path (sv_services s ! k))))"

lemma host_posted [simp]: "host_of host name (posted s i m) = host_of host name s"
  by (simp add: host_of_def cong: option.case_cong)

lemma host_cong: "sv_services s = sv_services t \<Longrightarrow> host_of host name s = host_of host name t"
  by (simp add: host_of_def k64_system_find_service_by_name_def cong: option.case_cong)

lemma array_str_text: "CHR 0x00 \<notin> set t \<Longrightarrow> array_str (map char_byte t @ [0]) = t"
  by (subst array_str_def) (auto simp: comp_def takeWhile_append)

lemma text_bytes_simps:
  "CHR 0x00 \<notin> set t \<Longrightarrow> array_str (text_bytes t) = t" "last (text_bytes t) = 0" "length (text_bytes t) = Suc (length t)" "text_bytes t \<noteq> []"
  by (simp_all add: text_bytes_def array_str_text)

lemma svc_recv_posted:
  assumes "mailbox_ready s" and i: "i < length (sv_msgs s)" and "host_of host name s"
    and m: "m_state m = K64_SERVICE_MSG_PENDING" "m_service m = name" "length (m_request m) \<le> K64_SERVICE_MSG_DATA_MAX"
    and req: "rq_in req = Some (text_bytes name)" "rq_out req = Some (msg_header_size + K64_SERVICE_MSG_DATA_MAX)"
  shows "svc_recv_call host req (posted s i m) =
    (Ok \<lparr>an_status = K64_OK, an_out = enc_msg_header m @ m_request m, an_length = msg_header_size + length (m_request m)\<rparr>,
     posted s i (m\<lparr>m_state := K64_SERVICE_MSG_ACTIVE, m_service_pid := rq_caller_pid req\<rparr>))"
proof -
  obtain k where k: "k64_system_find_service_by_name name s = Some k" "sv_state (sv_services s ! k) = K64_SERVICE_STATE_RUNNING"
    "sv_entry_path (sv_services s ! k) \<noteq> []" "c_string (sv_entry_path (sv_services s ! k))" "\<And>t. e_path host t = Some (sv_entry_path (sv_services s ! k))"
    using assms(3) by (auto simp: host_of_def split: option.splits)
  have name: "c_string name" "name_valid name K64_SERVICE_CALL_OWNER_MAX" "CHR 0x00 \<notin> set name" "name \<noteq> []" "Suc (length name) \<le> K64_SERVICE_CALL_OWNER_MAX"
    using assms(3) by (auto simp: host_of_def c_string_def name_valid_def)
  have host: "current_process_is_service_host host k (posted s i m)"
    using k by (simp add: current_process_is_service_host_def)
  have idx: "index_of (\<lambda>m. m_state m = K64_SERVICE_MSG_PENDING \<and> k64_streq (Some (m_service m)) (Some name)) ((sv_msgs s)[i := m]) = Some i"
    using assms name by (intro pending_posted) simp_all
  show ?thesis
    using name k i m by (simp add: svc_recv_call_def req text_bytes_simps host idx in_bounds_def ret_def Let_def)
qed

lemma svc_reply_posted:
  assumes "mailbox_ready s" and i: "i < length (sv_msgs s)"
    and m: "m_state m = K64_SERVICE_MSG_ACTIVE" "m_request_id m = next_service_request_id s" "m_service_pid m = rq_caller_pid req"
    and r: "length r \<le> K64_SERVICE_MSG_DATA_MAX" and req: "rq_in req = Some (enc_reply (next_service_request_id s) st r)"
  shows "svc_reply_call req (posted s i m) =
    answer K64_OK (posted s i ((if length r \<le> m_response_capacity m
       then m\<lparr>m_status := sint (word_of_int st :: u64), m_response := r\<rparr> else m\<lparr>m_status := K64_ERR_OVERFLOW, m_response := []\<rparr>)
         \<lparr>m_state := K64_SERVICE_MSG_DONE\<rparr>))"
proof -
  note f = reply_fields [OF r, of "next_service_request_id s" st]
  show ?thesis
    using i m r find_posted [OF assms(1,2), of m]
    by (simp add: svc_reply_call_def req f Let_def)
qed

section \<open>The exchange\<close>

text \<open>A call that reaches the dispatcher, when what is dispatched leaves the staging slots alone.\<close>

lemma gate_call:
  assumes "scratch_ready s" and names: "name_valid service K64_SERVICE_CALL_OWNER_MAX" "name_valid method K64_SERVICE_CALL_NAME_MAX"
    and sizes: "length (opt_bytes request) \<le> K64_SERVICE_CALL_PAYLOAD_MAX" "opt_size out \<le> K64_SERVICE_CALL_PAYLOAD_MAX"
      "request \<noteq> Some []" "out \<noteq> Some 0"
    and dispatch: "\<And>x. k64_system_dispatch_call env service method request out pid 0 (s\<lparr>sv_scratch := x\<rparr>) = (Ok a, t\<lparr>sv_scratch := x\<rparr>)"
    and keep: "sv_scratch t = sv_scratch s"
  shows "service_gate env pid service method request out s = (Ok (gate_response a (opt_size out)), t)"
proof -
  obtain j where j: "j < length (sv_scratch s)" "sv_scratch s ! j = free_scratch"
    "service_scratch_acquire pid s = (Some j, s\<lparr>sv_scratch := (sv_scratch s)[j := \<lparr>ss_used = True, ss_owner_pid = pid\<rparr>]\<rparr>)"
    using assms(1) by (rule scratch_slot)
  have valid: "service_call_name_valid service K64_SERVICE_CALL_OWNER_MAX" "service_call_name_valid method K64_SERVICE_CALL_NAME_MAX"
    using names by (simp_all add: service_call_name_valid_def name_valid_def)
  have r: "(if length (opt_bytes request) \<noteq> 0 then request else None) = request" "(if opt_size out \<noteq> 0 then out else None) = out"
    using sizes(3,4) by (auto split: option.splits)
  have n: "\<not> (length (opt_bytes request) > K64_SERVICE_CALL_PAYLOAD_MAX \<or> opt_size out > K64_SERVICE_CALL_PAYLOAD_MAX)" using sizes(1,2) by linarith
  have "(sv_scratch s)[j := free_scratch] = sv_scratch t" using j(2) keep by (metis list_update_id)
  then have rel: "service_scratch_release j (t\<lparr>sv_scratch := (sv_scratch s)[j := x]\<rparr>) = t" for x
    by (cases t) (simp add: service_scratch_release_def)
  show ?thesis
    by (simp only: service_gate_def Let_def valid r if_not_P [OF n] j(3) prod.case option.case bind_def dispatch res.case ret_def rel simp_thms if_False)
qed

lemma gate_recv:
  assumes ready: "mailbox_ready s" and scratch: "scratch_ready s" and i: "i < length (sv_msgs s)" and host: "host_of host name s" and recv: "served_by ''svc'' ''recv'' ''svc_recv_call'' s"
    and m: "m_state m = K64_SERVICE_MSG_PENDING" "m_service m = name" "length (m_request m) \<le> K64_SERVICE_MSG_DATA_MAX"
  shows "k64_service_recv (service_gate host pid) name (posted s i m) =
    (Ok (K64_OK, enc_msg_header m @ m_request m), posted s i (m\<lparr>m_state := K64_SERVICE_MSG_ACTIVE, m_service_pid := pid\<rparr>))"
proof -
  have nv: "name_valid ''svc'' K64_SERVICE_CALL_OWNER_MAX" "name_valid ''recv'' K64_SERVICE_CALL_NAME_MAX" by code_simp+
  have name: "length (text_bytes name) \<le> K64_SERVICE_CALL_PAYLOAD_MAX"
    using host by (auto simp: host_of_def name_valid_def text_bytes_simps K64_SERVICE_CALL_OWNER_MAX_def K64_SERVICE_CALL_PAYLOAD_MAX_def)
  let ?out = "Some (msg_header_size + K64_SERVICE_MSG_DATA_MAX)"
  let ?a = "\<lparr>an_status = K64_OK, an_out = enc_msg_header m @ m_request m, an_length = msg_header_size + length (m_request m)\<rparr>"
  let ?t = "posted s i (m\<lparr>m_state := K64_SERVICE_MSG_ACTIVE, m_service_pid := pid\<rparr>)"
  have dispatch: "k64_system_dispatch_call host ''svc'' ''recv'' (Some (text_bytes name)) ?out pid 0 ((posted s i m)\<lparr>sv_scratch := x\<rparr>) = (Ok ?a, ?t\<lparr>sv_scratch := x\<rparr>)" for x
  proof -
    let ?s = "s\<lparr>sv_scratch := x\<rparr>"
    have same: "mailbox_ready ?s" "i < length (sv_msgs ?s)" "host_of host name ?s" "served_by ''svc'' ''recv'' ''svc_recv_call'' ?s"
      using ready i host recv host_cong [of ?s s] served_cong [of ?s s] by (simp_all add: mailbox_ready_def)
    obtain req where req: "k64_system_dispatch_call host ''svc'' ''recv'' (Some (text_bytes name)) ?out pid 0 (posted ?s i m) = call_handler host ''svc_recv_call'' req (posted ?s i m)"
      "rq_caller_pid req = pid" "rq_in req = Some (text_bytes name)" "rq_out req = ?out"
      using served_dispatch [of "''svc''" "''recv''" "''svc_recv_call''" "posted ?s i m" "Some (text_bytes name)" ?out host pid] same(4) nv name
      by (auto simp: msg_header_size_def K64_SERVICE_MSG_DATA_MAX_def K64_SERVICE_CALL_PAYLOAD_MAX_def)
    have handler: "call_handler host ''svc_recv_call'' req = svc_recv_call host req" by (simp add: call_handler_def)
    show ?thesis
      using svc_recv_posted [OF same(1-3) m req(3,4)] by (simp only: posted_scratch req(1,2) handler)
  qed
  have out: "take (msg_header_size + length (m_request m)) (put_at 0 (enc_msg_header m @ m_request m) (replicate (msg_header_size + K64_SERVICE_MSG_DATA_MAX) 0))
      = enc_msg_header m @ m_request m"
    using m(3) by (simp add: put_at_def length_header)
  have "service_gate host pid ''svc'' ''recv'' (Some (text_bytes name)) ?out (posted s i m) = (Ok (gate_response ?a (opt_size ?out)), ?t)"
    using scratch name by (intro gate_call dispatch nv)
      (simp_all add: text_bytes_def msg_header_size_def K64_SERVICE_MSG_DATA_MAX_def K64_SERVICE_CALL_PAYLOAD_MAX_def scratch_ready_def)
  then show ?thesis
    using m(3) out by (simp add: k64_service_recv_def gate_response_def K64_OK_def)
qed

lemma gate_reply:
  assumes ready: "mailbox_ready s" and scratch: "scratch_ready s" and i: "i < length (sv_msgs s)" and reply: "served_by ''svc'' ''reply'' ''svc_reply_call'' s"
    and m: "m_state m = K64_SERVICE_MSG_ACTIVE" "m_request_id m = next_service_request_id s" "m_service_pid m = pid"
    and r: "length r \<le> K64_SERVICE_MSG_DATA_MAX"
  shows "k64_service_reply (service_gate host pid) (next_service_request_id s) st r (posted s i m) =
    (Ok K64_OK, posted s i ((if length r \<le> m_response_capacity m
       then m\<lparr>m_status := sint (word_of_int st :: u64), m_response := r\<rparr> else m\<lparr>m_status := K64_ERR_OVERFLOW, m_response := []\<rparr>)
         \<lparr>m_state := K64_SERVICE_MSG_DONE\<rparr>))"
proof -
  have nv: "name_valid ''svc'' K64_SERVICE_CALL_OWNER_MAX" "name_valid ''reply'' K64_SERVICE_CALL_NAME_MAX" by code_simp+
  let ?b = "enc_reply (next_service_request_id s) st r"
  let ?t = "posted s i ((if length r \<le> m_response_capacity m
       then m\<lparr>m_status := sint (word_of_int st :: u64), m_response := r\<rparr> else m\<lparr>m_status := K64_ERR_OVERFLOW, m_response := []\<rparr>)
         \<lparr>m_state := K64_SERVICE_MSG_DONE\<rparr>)"
  have len: "length ?b \<le> K64_SERVICE_CALL_PAYLOAD_MAX" "?b \<noteq> []"
    using r reply_fields(5) [OF r, of "next_service_request_id s" st] by (auto simp: K64_SERVICE_MSG_DATA_MAX_def K64_SERVICE_CALL_PAYLOAD_MAX_def)
  have dispatch: "k64_system_dispatch_call host ''svc'' ''reply'' (Some ?b) None pid 0 ((posted s i m)\<lparr>sv_scratch := x\<rparr>) =
      (Ok \<lparr>an_status = K64_OK, an_out = [], an_length = 0\<rparr>, ?t\<lparr>sv_scratch := x\<rparr>)" for x
  proof -
    let ?s = "s\<lparr>sv_scratch := x\<rparr>"
    have same: "mailbox_ready ?s" "i < length (sv_msgs ?s)" "served_by ''svc'' ''reply'' ''svc_reply_call'' ?s" "m_request_id m = next_service_request_id ?s"
      using ready i reply m(2) served_cong [of ?s s] by (simp_all add: mailbox_ready_def)
    obtain req where req: "k64_system_dispatch_call host ''svc'' ''reply'' (Some ?b) None pid 0 (posted ?s i m) = call_handler host ''svc_reply_call'' req (posted ?s i m)"
      "rq_caller_pid req = pid" "rq_in req = Some ?b"
      using served_dispatch [of "''svc''" "''reply''" "''svc_reply_call''" "posted ?s i m" "Some ?b" None host pid] same(3) nv len(1) by auto
    have handler: "call_handler host ''svc_reply_call'' req = svc_reply_call req" by (simp add: call_handler_def)
    have "m_service_pid m = rq_caller_pid req" "rq_in req = Some (enc_reply (next_service_request_id ?s) st r)" using m(3) req(2,3) by simp_all
    from svc_reply_posted [OF same(1,2) m(1) same(4) this(1) r this(2)]
    show ?thesis by (simp only: posted_scratch req(1) handler answer_def ret_def)
  qed
  have "service_gate host pid ''svc'' ''reply'' (Some ?b) None (posted s i m) = (Ok (gate_response \<lparr>an_status = K64_OK, an_out = [], an_length = 0\<rparr> (opt_size None)), ?t)"
    using scratch by (intro gate_call dispatch nv) (simp_all add: len scratch_ready_def)
  then show ?thesis
    using r by (simp add: k64_service_reply_def gate_response_def bind_def ret_def K64_OK_def)
qed

text \<open>What the program of the demonstration service computes for its methods.\<close>

definition demo_function :: "string \<Rightarrow> bytes \<Rightarrow> bytes" where
  "demo_function method input = (if method = ''upper'' then map upper_byte input else input)"

lemma demosvc_run:
  assumes ready: "mailbox_ready s" and scratch: "scratch_ready s" and i: "i < length (sv_msgs s)" and host: "host_of host name s"
    and served: "served_by ''svc'' ''recv'' ''svc_recv_call'' s" "served_by ''svc'' ''reply'' ''svc_reply_call'' s"
    and m: "m_state m = K64_SERVICE_MSG_PENDING" "m_service m = name" "length (m_request m) \<le> K64_SERVICE_MSG_DATA_MAX"
      "m_request_id m = next_service_request_id s" and mth: "m_method m \<in> {''echo'', ''upper''}"
  shows "demosvc_main (service_gate host pid) (Some name) (posted s i m) =
    (Ok 0, posted s i ((let r = demo_function (m_method m) (m_request m) in
       if length r \<le> m_response_capacity m
       then m\<lparr>m_service_pid := pid, m_status := K64_OK, m_response := r\<rparr> else m\<lparr>m_service_pid := pid, m_status := K64_ERR_OVERFLOW, m_response := []\<rparr>)
         \<lparr>m_state := K64_SERVICE_MSG_DONE\<rparr>))"
proof -
  define m' where "m' = m\<lparr>m_state := K64_SERVICE_MSG_ACTIVE, m_service_pid := pid\<rparr>"
  let ?r = "demo_function (m_method m) (m_request m)"
  have r: "length ?r \<le> K64_SERVICE_MSG_DATA_MAX" using m(3) by (simp add: demo_function_def)
  have recv: "k64_service_recv (service_gate host pid) name (posted s i m) = (Ok (K64_OK, enc_msg_header m @ m_request m), posted s i m')"
    unfolding m'_def by (rule gate_recv [OF ready scratch i host served(1) m(1-3)])
  have fields: "msg_request_id (enc_msg_header m @ m_request m) = next_service_request_id s" "msg_method (enc_msg_header m @ m_request m) = m_method m"
    "msg_data (enc_msg_header m @ m_request m) = m_request m"
    using mth m(3,4) header_method [of m "m_request m"] by (auto simp: header_request_id header_data K64_SERVICE_CALL_NAME_MAX_def)
  have upper: "upper_copy (m_request m) = map upper_byte (m_request m)" using m(3) by (simp add: upper_copy_def)
  note reply = gate_reply [OF ready scratch i served(2), of m' pid ?r host K64_OK]
  have "m_state m' = K64_SERVICE_MSG_ACTIVE" "m_request_id m' = next_service_request_id s" "m_service_pid m' = pid"
    using m(4) by (simp_all add: m'_def)
  note reply = reply [OF this r]
  have ok: "K64_OK \<noteq> K64_ERR_AGAIN" by (simp add: K64_OK_def K64_ERR_AGAIN_def)
  show ?thesis
    using mth reply recv fields upper ok
    by (auto simp: demosvc_main_def bind_def ret_def Let_def demo_function_def m'_def K64_OK_def)
qed

text \<open>
  The demonstration service is online: its method, its process and the two calls of the mailbox can be reached,
  the mailbox has room and the gate a free staging slot.
\<close>

definition demo_online :: "'g service_env \<Rightarrow> string \<Rightarrow> u64 \<Rightarrow> 'g service_state \<Rightarrow> bool" where
  "demo_online host method flags s \<longleftrightarrow> mailbox_ready s \<and> scratch_ready s \<and> host_of host ''demo'' s \<and>
     served_by ''svc'' ''recv'' ''svc_recv_call'' s \<and> served_by ''svc'' ''reply'' ''svc_reply_call'' s \<and>
     (case allowed_target ''demo'' method flags s of
        None \<Rightarrow> False
      | Some (c, k) \<Rightarrow> sc_backend c = K64_SERVICE_CALL_BACKEND_RING3_MESSAGE \<and> sc_owner c = ''demo'' \<and> sc_name c = method \<and>
          sv_name (sv_services s ! k) = ''demo'' \<and> sv_entry_path (sv_services s ! k) = ''/ex/demosvc.elf'')"

text \<open>
  What a nested execution of \<^verbatim>\<open>/ex/demosvc.elf\<close> does, when it comes to an end, to the tables a call goes through:
  it makes the system calls of the program, as a process of some identifier. Loading may fail, and nothing is
  said of the memory, the files and the clock, which loading and running change.
\<close>

definition runs_demosvc :: "'g service_env \<Rightarrow> 'g service_env \<Rightarrow> bool" where
  "runs_demosvc env host \<longleftrightarrow> (\<forall>t u. e_nested env ''/ex/demosvc.elf'' ''demo'' t = (True, u) \<longrightarrow>
     (\<exists>v pid. same_registry v t \<and> same_registry u (snd (demosvc_main (service_gate host pid) (Some ''demo'') v))))"

lemma service_msg_clear_posted: "i < length (sv_msgs s) \<Longrightarrow> service_msg_clear i (posted s i m) = posted s i empty_msg"
  by (cases m) (simp add: service_msg_clear_def no_msg_def empty_msg_def)

text \<open>The message after the program has answered it.\<close>

definition answered :: "string \<Rightarrow> u64 \<Rightarrow> k64_service_msg \<Rightarrow> k64_service_msg" where
  "answered method pid m =
     (let r = demo_function method (m_request m) in
      if length r \<le> m_response_capacity m
      then m\<lparr>m_service_pid := pid, m_status := K64_OK, m_response := r\<rparr> else m\<lparr>m_service_pid := pid, m_status := K64_ERR_OVERFLOW, m_response := []\<rparr>)
        \<lparr>m_state := K64_SERVICE_MSG_DONE\<rparr>"

lemma nested_demosvc:
  assumes online: "demo_online host method flags s" and runs: "runs_demosvc env host"
    and i: "i < length (sv_msgs s)" and nested: "e_nested env ''/ex/demosvc.elf'' ''demo'' (posted s i m) = (True, u)"
    and m: "m_state m = K64_SERVICE_MSG_PENDING" "m_service m = ''demo''" "length (m_request m) \<le> K64_SERVICE_MSG_DATA_MAX"
      "m_request_id m = next_service_request_id s" "m_method m = method" and mth: "method \<in> {''echo'', ''upper''}"
  shows "\<exists>pid. same_registry u (posted s i (answered method pid m))"
proof -
  obtain v pid where v: "same_registry v (posted s i m)" and u: "same_registry u (snd (demosvc_main (service_gate host pid) (Some ''demo'') v))"
    using runs nested unfolding runs_demosvc_def by blast
  obtain s' where s': "v = posted s' i m" "same_registry s' s" using v by (rule posted_other)
  have online': "mailbox_ready s" "scratch_ready s" "host_of host ''demo'' s" "served_by ''svc'' ''recv'' ''svc_recv_call'' s" "served_by ''svc'' ''reply'' ''svc_reply_call'' s"
    using online by (simp_all add: demo_online_def)
  have tables: "sv_services s' = sv_services s" "sv_calls s' = sv_calls s" "i < length (sv_msgs s')" "m_request_id m = next_service_request_id s'"
    using s'(2) i m(4) by (simp_all add: same_registry_def)
  have "snd (demosvc_main (service_gate host pid) (Some ''demo'') v) = posted s' i (answered method pid m)"
    using demosvc_run [of s' i host "''demo''" m pid] online' tables m mth s'(2)
    by (simp add: s'(1) mailbox_registry scratch_registry host_cong [OF tables(1)] served_cong [OF tables(1,2)] answered_def)
  then show ?thesis
    using u same_registry_posted [OF s'(2), of i "answered method pid m"] by (auto simp: same_registry_def)
qed

text \<open>The request as the dispatcher posts it, and the answer to it.\<close>

definition posted_request :: "string \<Rightarrow> bytes \<Rightarrow> nat \<Rightarrow> 'g service_state \<Rightarrow> k64_service_msg \<Rightarrow> bool" where
  "posted_request method input n s m \<longleftrightarrow> m_state m = K64_SERVICE_MSG_PENDING \<and> m_request_id m = next_service_request_id s \<and> m_service m = ''demo'' \<and>
     m_method m = method \<and> m_request m = input \<and> m_response_capacity m = min n K64_SERVICE_MSG_DATA_MAX"

definition demo_answer :: "string \<Rightarrow> bytes \<Rightarrow> nat \<Rightarrow> call_answer" where
  "demo_answer method input n =
     (if length input \<le> n
      then \<lparr>an_status = K64_OK, an_out = demo_function method input, an_length = length input\<rparr>
      else \<lparr>an_status = K64_ERR_OVERFLOW, an_out = [], an_length = 0\<rparr>)"

lemma ring3_exchange:
  assumes online: "demo_online host method flags s" and runs: "runs_demosvc env host" and mth: "method \<in> {''echo'', ''upper''}"
    and call: "sc_owner c = ''demo''" "sc_name c = method"
    and entry: "sv_name (sv_services s ! k) = ''demo''" "sv_entry_path (sv_services s ! k) = ''/ex/demosvc.elf''"
    and len: "length input \<le> K64_SERVICE_MSG_DATA_MAX"
  shows "\<exists>i m finished u. i < length (sv_msgs s) \<and> m_state (sv_msgs s ! i) = K64_SERVICE_MSG_EMPTY \<and> posted_request method input n s m \<and>
    e_nested env ''/ex/demosvc.elf'' ''demo'' (posted s i m) = (finished, u) \<and>
    dispatch_ring3_message_call env k c input (Some n) caller flags s =
      (if finished then demo_answer method input n else \<lparr>an_status = K64_ERR_BUSY, an_out = [], an_length = 0\<rparr>, service_msg_clear i u) \<and>
    (finished \<longrightarrow> same_registry (service_msg_clear i u) (posted s i empty_msg))"
proof -
  obtain i where i: "i < length (sv_msgs s)" "m_state (sv_msgs s ! i) = K64_SERVICE_MSG_EMPTY"
    "service_msg_alloc s = (Some i, posted s i (empty_msg\<lparr>m_state := K64_SERVICE_MSG_PENDING, m_request_id := next_service_request_id s\<rparr>))"
    using online by (auto simp: demo_online_def intro: mailbox_slot)
  define uid where "uid = (if flags AND K64_SERVICE_CALLER_KERNEL \<noteq> 0 then 0
      else ucast (e_uid env (posted s i (empty_msg\<lparr>m_state := K64_SERVICE_MSG_PENDING, m_request_id := next_service_request_id s\<rparr>))) :: u64)"
  define m where "m = empty_msg\<lparr>m_state := K64_SERVICE_MSG_PENDING, m_request_id := next_service_request_id s, m_caller_pid := caller, m_caller_uid := uid,
      m_caller_flags := flags, m_response_capacity := min n K64_SERVICE_MSG_DATA_MAX, m_service := ''demo'', m_method := method, m_request := input\<rparr>"
  have copies: "svc_copy K64_SERVICE_CALL_OWNER_MAX ''demo'' = ''demo''" "svc_copy K64_SERVICE_CALL_NAME_MAX method = method"
    using mth by (auto simp: svc_copy_def K64_SERVICE_CALL_OWNER_MAX_def K64_SERVICE_CALL_NAME_MAX_def)
  have fields: "m_state m = K64_SERVICE_MSG_PENDING" "m_service m = ''demo''" "length (m_request m) \<le> K64_SERVICE_MSG_DATA_MAX"
    "m_request_id m = next_service_request_id s" "m_method m = method" "posted_request method input n s m" by (simp_all add: m_def posted_request_def len)
  obtain finished u where u: "e_nested env ''/ex/demosvc.elf'' ''demo'' (posted s i m) = (finished, u)" by fastforce
  have done': "\<exists>pid. same_registry u (posted s i (answered method pid m))" if h: "finished"
    using nested_demosvc [OF online runs i(1) _ fields(1-5) mth] u h by simp
  have dispatch: "dispatch_ring3_message_call env k c input (Some n) caller flags s =
     (let a = sv_msgs u ! i in
      if \<not> finished \<or> m_state a \<noteq> K64_SERVICE_MSG_DONE then \<lparr>an_status = K64_ERR_BUSY, an_out = [], an_length = 0\<rparr>
      else \<lparr>an_status = (if m_status a \<ge> 0 \<and> length (m_response a) > n then K64_ERR_OVERFLOW else m_status a),
             an_out = (if m_status a \<ge> 0 \<and> \<not> length (m_response a) > n then m_response a else []), an_length = length (m_response a)\<rparr>, service_msg_clear i u)"
    using i(1) len u by (simp add: dispatch_ring3_message_call_def i(3) entry call copies Let_def m_def uid_def)
  have "dispatch_ring3_message_call env k c input (Some n) caller flags s =
      (if finished then demo_answer method input n else \<lparr>an_status = K64_ERR_BUSY, an_out = [], an_length = 0\<rparr>, service_msg_clear i u)"
  proof (cases finished)
    case True
    then obtain pid where "sv_msgs u ! i = answered method pid m" using done' i(1) by (auto simp: same_registry_def)
    then show ?thesis
      using True len unfolding dispatch
      by (simp add: Let_def answered_def demo_answer_def demo_function_def m_def K64_OK_def K64_ERR_OVERFLOW_def)
  qed (simp add: dispatch)
  moreover have "same_registry (service_msg_clear i u) (posted s i empty_msg)" if h: "finished"
    using done' [OF h] same_registry_clear service_msg_clear_posted [OF i(1)] by metis
  ultimately show ?thesis using i(1,2) fields(6) u by blast
qed

lemma ring3_call:
  assumes online: "demo_online host method flags s" and mth: "method \<in> {''echo'', ''upper''}" and runs: "runs_demosvc env host"
    and sizes: "length input \<le> K64_SERVICE_MSG_DATA_MAX" "n \<le> K64_SERVICE_CALL_PAYLOAD_MAX"
  shows "\<exists>i m finished u. i < length (sv_msgs s) \<and> m_state (sv_msgs s ! i) = K64_SERVICE_MSG_EMPTY \<and> posted_request method input n s m \<and>
    e_nested env ''/ex/demosvc.elf'' ''demo'' (posted s i m) = (finished, u) \<and>
    k64_system_dispatch_call env ''demo'' method (Some input) (Some n) caller flags s =
      (Ok (if finished then demo_answer method input n else \<lparr>an_status = K64_ERR_BUSY, an_out = [], an_length = 0\<rparr>), service_msg_clear i u) \<and>
    (finished \<longrightarrow> same_registry (service_msg_clear i u) (posted s i empty_msg))"
proof -
  obtain c k where c: "allowed_target ''demo'' method flags s = Some (c, k)" "sc_backend c = K64_SERVICE_CALL_BACKEND_RING3_MESSAGE"
    "sc_owner c = ''demo''" "sc_name c = method" "sv_name (sv_services s ! k) = ''demo''" "sv_entry_path (sv_services s ! k) = ''/ex/demosvc.elf''"
    using online by (auto simp: demo_online_def split: option.splits)
  have "name_valid ''echo'' K64_SERVICE_CALL_NAME_MAX" "name_valid ''upper'' K64_SERVICE_CALL_NAME_MAX" "name_valid ''demo'' K64_SERVICE_CALL_OWNER_MAX"
    by code_simp+
  then have "name_valid method K64_SERVICE_CALL_NAME_MAX" "name_valid ''demo'' K64_SERVICE_CALL_OWNER_MAX" using mth by auto
  moreover have "length input \<le> K64_SERVICE_CALL_PAYLOAD_MAX"
    using sizes(1) by (simp add: K64_SERVICE_MSG_DATA_MAX_def K64_SERVICE_CALL_PAYLOAD_MAX_def)
  ultimately have d: "k64_system_dispatch_call env ''demo'' method (Some input) (Some n) caller flags s =
      (case dispatch_ring3_message_call env k c input (Some n) caller flags s of (a, s) \<Rightarrow> (Ok a, s))"
    using dispatch_allowed [OF c(1), of "Some input" "Some n" env caller] sizes(2) c(2) by simp
  from ring3_exchange [OF online runs mth c(3-6) sizes(1), of n caller]
  show ?thesis unfolding d by fastforce
qed

text \<open>C30: A call of \<^verbatim>\<open>demo.echo\<close> or \<^verbatim>\<open>demo.upper\<close> is a procedure call. The service is online, a nested execution of its
  program that ends makes the system calls of \<^verbatim>\<open>demosvc\<close>, the request is at most \<^verbatim>\<open>K64_SERVICE_MSG_DATA_MAX\<close> bytes long
  and the buffer at most \<^verbatim>\<open>K64_SERVICE_CALL_PAYLOAD_MAX\<close>. Then the dispatcher posts the request in an empty message of
  the mailbox and executes the program. When the execution ends, the caller gets the request as it is or in upper
  case, or an overflow error and no byte when his buffer is too small; the message is empty again, and of the
  tables of services, commands, calls, messages and staging slots nothing has changed but the next request identifier. When
  the program cannot be executed, the caller gets the busy error and the message is cleared as well.\<close>

theorem demo_call_is_procedure_call:
  assumes "demo_online host method flags s" and "method \<in> {''echo'', ''upper''}" and "runs_demosvc env host"
    and "length input \<le> K64_SERVICE_MSG_DATA_MAX" and "n \<le> K64_SERVICE_CALL_PAYLOAD_MAX"
  shows "\<exists>i m finished u t. i < length (sv_msgs s) \<and> m_state (sv_msgs s ! i) = K64_SERVICE_MSG_EMPTY \<and> posted_request method input n s m \<and>
    e_nested env ''/ex/demosvc.elf'' ''demo'' (posted s i m) = (finished, u) \<and> t = service_msg_clear i u \<and>
    (if finished then
       k64_system_dispatch_call env ''demo'' method (Some input) (Some n) caller flags s =
         (Ok (if length input \<le> n
              then \<lparr>an_status = K64_OK, an_out = if method = ''upper'' then map upper_byte input else input, an_length = length input\<rparr>
              else \<lparr>an_status = K64_ERR_OVERFLOW, an_out = [], an_length = 0\<rparr>), t) \<and>
       sv_services t = sv_services s \<and> sv_commands t = sv_commands s \<and> sv_calls t = sv_calls s \<and> sv_scratch t = sv_scratch s \<and>
       sv_msgs t = (sv_msgs s)[i := empty_msg] \<and> next_service_request_id t = next_request_id (next_service_request_id s)
     else k64_system_dispatch_call env ''demo'' method (Some input) (Some n) caller flags s =
         (Ok \<lparr>an_status = K64_ERR_BUSY, an_out = [], an_length = 0\<rparr>, t))"
proof -
  obtain i m finished u where e: "i < length (sv_msgs s)" "m_state (sv_msgs s ! i) = K64_SERVICE_MSG_EMPTY" "posted_request method input n s m"
    "e_nested env ''/ex/demosvc.elf'' ''demo'' (posted s i m) = (finished, u)"
    and d: "k64_system_dispatch_call env ''demo'' method (Some input) (Some n) caller flags s =
      (Ok (if finished then demo_answer method input n else \<lparr>an_status = K64_ERR_BUSY, an_out = [], an_length = 0\<rparr>), service_msg_clear i u)"
    and r: "finished \<longrightarrow> same_registry (service_msg_clear i u) (posted s i empty_msg)"
    using ring3_call [OF assms, of caller] by blast
  show ?thesis
    by (rule exI [of _ i], rule exI [of _ m], rule exI [of _ finished], rule exI [of _ u], rule exI [of _ "service_msg_clear i u"])
      (use e d r in \<open>simp add: demo_answer_def demo_function_def same_registry_def posted_def\<close>)
qed

section \<open>The services at work\<close>

text \<open>A system with the service of the mailbox and the demonstration service, both running in verified hosts.\<close>

definition sample_env :: "unit service_env" where
  "sample_env = \<lparr>e_start = (\<lambda>_ _ s. (True, s)), e_stop = (\<lambda>_ _ s. s), e_poll = (\<lambda>_ _ s. s), e_command = (\<lambda>_ _ _ s. (True, s)),
     e_call = (\<lambda>_ _. answer K64_ERR_NOENT), e_exec = (\<lambda>_ _ s. (True, s)), e_nested = (\<lambda>_ _ s. (False, s)), e_spawn = (\<lambda>_ _ s. (False, s)),
     e_path = (\<lambda>_. Some ''/ex/demosvc.elf''), e_uid = (\<lambda>_. 0), e_gid = (\<lambda>_. 0), e_version = ''K64''\<rparr>"

definition sample_caller :: "unit service_env" where
  "sample_caller = sample_env\<lparr>e_nested := (\<lambda>path args s.
     if path = ''/ex/demosvc.elf'' then (True, snd (demosvc_main (service_gate sample_env 7) (Some args) s)) else (False, s))\<rparr>"

definition sample_service :: "u64 \<Rightarrow> string \<Rightarrow> u32 \<Rightarrow> string \<Rightarrow> k64_service" where
  "sample_service pid name flags path = \<lparr>sv_pid = pid, sv_name = name, sv_source = name, sv_class = K64_SERVICE_CLASS_SYSTEM,
     sv_state = K64_SERVICE_STATE_RUNNING, sv_flags = flags, sv_priority = 0, sv_poll_interval_ticks = 0, sv_start_count = 1, sv_stop_count = 0,
     sv_last_start_tick = 0, sv_last_poll_tick = 0, sv_managed_pid = pid, sv_user_pid = 0, sv_controllable = (flags = 0), sv_ring3_required = True,
     sv_ring3_verified = True, sv_entry_path = path, sv_start = ''default_start'', sv_stop = ''default_stop'', sv_poll = None, sv_vm_space = blank_space\<rparr>"

definition sample_call :: "string \<Rightarrow> string \<Rightarrow> string option \<Rightarrow> k64_service_call" where
  "sample_call owner name handler = \<lparr>sc_owner = owner, sc_name = name, sc_flags = user_call_flags,
     sc_backend = (if handler = None then K64_SERVICE_CALL_BACKEND_RING3_MESSAGE else K64_SERVICE_CALL_BACKEND_KERNEL), sc_handler = handler, sc_active = True\<rparr>"

definition sample_services :: "unit service_state" where
  "sample_services = \<lparr>sv_services = [sample_service 1001 ''svc'' K64_SERVICE_FLAG_ESSENTIAL ''/ex/servicehost.elf'', sample_service 1002 ''demo'' 0 ''/ex/demosvc.elf''],
     sv_commands = [], sv_calls = [sample_call ''svc'' ''recv'' (Some ''svc_recv_call''), sample_call ''svc'' ''reply'' (Some ''svc_reply_call''),
       sample_call ''demo'' ''upper'' None, sample_call ''demo'' ''echo'' None], sv_msgs = [empty_msg, empty_msg], next_service_request_id = 1, sv_scratch = replicate K64_USER_SERVICE_CALL_DEPTH_MAX free_scratch,
     next_system_pid = 1003, next_root_pid = 0, next_user_pid = 0, sv_vm = undefined, sv_fs = undefined, sv_ticks = 0, sv_term = []\<rparr>"

lemmas sample_defs = sample_services_def sample_call_def sample_service_def sample_env_def

lemma sample_online: "demo_online sample_env ''upper'' 0 sample_services"
proof -
  have "mailbox_ready sample_services" "scratch_ready sample_services" "served_by ''svc'' ''recv'' ''svc_recv_call'' sample_services"
    "served_by ''svc'' ''reply'' ''svc_reply_call'' sample_services" by code_simp+
  moreover have "host_of sample_env ''demo'' sample_services"
  proof -
    have "name_valid ''demo'' K64_SERVICE_CALL_OWNER_MAX" by code_simp
    moreover have "k64_system_find_service_by_name ''demo'' sample_services = Some 1"
      by (simp add: k64_system_find_service_by_name_def sample_defs c_string_def)
    ultimately show ?thesis by (simp add: host_of_def c_string_def sample_defs)
  qed
  moreover have "case allowed_target ''demo'' ''upper'' 0 sample_services of None \<Rightarrow> False
    | Some (c, k) \<Rightarrow> sc_backend c = K64_SERVICE_CALL_BACKEND_RING3_MESSAGE \<and> sc_owner c = ''demo'' \<and> sc_name c = ''upper'' \<and>
        sv_name (sv_services sample_services ! k) = ''demo'' \<and> sv_entry_path (sv_services sample_services ! k) = ''/ex/demosvc.elf''"
    by code_simp
  ultimately show ?thesis by (simp add: demo_online_def)
qed

lemma sample_runs: "runs_demosvc sample_caller sample_env"
  by (auto simp: runs_demosvc_def sample_caller_def intro!: exI [of _ 7] same_registry_refl)

lemma sample_finishes: "e_nested sample_caller ''/ex/demosvc.elf'' ''demo'' t = (finished, u) \<Longrightarrow> finished"
  by (simp add: sample_caller_def)

lemma sample_sizes: "length [104, 105 :: u8] \<le> K64_SERVICE_MSG_DATA_MAX" "length ([] :: bytes) \<le> K64_SERVICE_MSG_DATA_MAX" "8 \<le> K64_SERVICE_CALL_PAYLOAD_MAX"
  by (simp_all add: K64_SERVICE_MSG_DATA_MAX_def K64_SERVICE_CALL_PAYLOAD_MAX_def)

lemma upper_method: "''upper'' \<in> {''echo'', ''upper''}"
  by (rule insertI2, rule singletonI)

theorem demo_call_is_procedure_call_witness:
  "\<exists>t. k64_system_dispatch_call sample_caller ''demo'' ''upper'' (Some [104, 105]) (Some 8) 3 0 sample_services =
     (Ok \<lparr>an_status = K64_OK, an_out = [72, 73], an_length = 2\<rparr>, t) \<and> next_service_request_id t = 2"
proof -
  obtain i m finished u t where "e_nested sample_caller ''/ex/demosvc.elf'' ''demo'' (posted sample_services i m) = (finished, u)"
    and e: "if finished then
       k64_system_dispatch_call sample_caller ''demo'' ''upper'' (Some [104, 105]) (Some 8) 3 0 sample_services =
         (Ok (if length [104, 105 :: u8] \<le> 8
              then \<lparr>an_status = K64_OK, an_out = if ''upper'' = ''upper'' then map upper_byte [104, 105] else [104, 105], an_length = length [104, 105 :: u8]\<rparr>
              else \<lparr>an_status = K64_ERR_OVERFLOW, an_out = [], an_length = 0\<rparr>), t) \<and>
       sv_services t = sv_services sample_services \<and> sv_commands t = sv_commands sample_services \<and> sv_calls t = sv_calls sample_services \<and>
       sv_scratch t = sv_scratch sample_services \<and> sv_msgs t = (sv_msgs sample_services)[i := empty_msg] \<and>
       next_service_request_id t = next_request_id (next_service_request_id sample_services)
     else k64_system_dispatch_call sample_caller ''demo'' ''upper'' (Some [104, 105]) (Some 8) 3 0 sample_services =
         (Ok \<lparr>an_status = K64_ERR_BUSY, an_out = [], an_length = 0\<rparr>, t)"
    using demo_call_is_procedure_call [OF sample_online upper_method sample_runs sample_sizes(1,3), of 3] by blast
  then have "finished" by (blast dest: sample_finishes)
  moreover have "upper_byte 104 = 72" "upper_byte 105 = 73" "next_request_id (next_service_request_id sample_services) = 2"
    by (simp_all add: upper_byte_def next_request_id_def sample_services_def)
  ultimately show ?thesis using e by simp
qed

theorem stopped_service_unreachable_witness:
  "\<exists>e \<in> {K64_ERR_INVAL, K64_ERR_NOENT}.
     k64_system_dispatch_call sample_env ''demo'' ''upper'' None None 3 0 (snd (k64_system_stop_service sample_env 1002 sample_services)) =
       answer e (snd (k64_system_stop_service sample_env 1002 sample_services))"
proof -
  have f: "k64_system_find_service 1002 sample_services = Some 1" by (simp add: k64_system_find_service_def sample_defs)
  then have "k64_system_stop_service sample_env 1002 sample_services = (K64_SERVICE_OK, perform_stop sample_env 1 sample_services)"
    by (simp add: k64_system_stop_service_def sample_defs)
  from stopped_service_unreachable [OF this f, of sample_env "''upper''" None None 3 0] this
  show ?thesis by (auto simp: sample_defs)
qed

theorem call_needs_permission_witness:
  "\<exists>c \<in> set (sv_calls sample_services). is_call ''demo'' ''upper'' c \<and> sc_flags c AND K64_SERVICE_CALL_FLAG_KERNEL_ONLY = 0"
proof -
  obtain a t where "k64_system_dispatch_call sample_caller ''demo'' ''upper'' (Some []) (Some 8) 3 0 sample_services = (Ok a, t)" "0 \<le> an_status a"
    using ring3_call [OF sample_online upper_method sample_runs sample_sizes(2,3), of 3] sample_finishes by (fastforce simp: demo_answer_def K64_OK_def)
  then show ?thesis using call_needs_permission by fastforce
qed

end
