(* ===== verification/Process.thy ===== *)
theory Process
  imports Service
begin

text \<open>
  The processes of user mode, \<^verbatim>\<open>src/k64_usermode.c\<close>: the process table with its life cycle, the queue of spawned
  children, file and pipe handles, and the calls of the services \<^verbatim>\<open>proc\<close> and \<^verbatim>\<open>io\<close>.

  What runs a program is a parameter, a record \<open>um_env\<close>: the ELF loader, the switch to user mode, whether the
  Linux heap could be mapped and the characters of the console; the last two do not touch the state modelled here. The field \<^verbatim>\<open>wait_task\<close> of a process is only ever set to
  \<^verbatim>\<open>NULL\<close>, so it is left out with the branch that wakes a task. The data pointer of an open file always is
  \<^verbatim>\<open>fs_raw_buffer\<close>, the one buffer of \<^verbatim>\<open>k64_fs_read_file_raw\<close>, which is a field of the state here; what a failed
  read leaves in it is a parameter. Output to the console is left out.
\<close>

section \<open>State\<close>

definition K64_USER_PROCESS_MAX :: nat where "K64_USER_PROCESS_MAX = 64"
definition K64_USER_PROCESS_PATH_MAX :: nat where "K64_USER_PROCESS_PATH_MAX = 96"
definition K64_USER_SPAWN_MAX :: nat where "K64_USER_SPAWN_MAX = 8"
definition K64_USER_SPAWN_ARGS_MAX :: nat where "K64_USER_SPAWN_ARGS_MAX = 256"
definition K64_USER_FD_MAX :: nat where "K64_USER_FD_MAX = 16"
definition K64_USER_PIPE_MAX :: nat where "K64_USER_PIPE_MAX = 16"
definition K64_USER_PIPE_BUFFER_SIZE :: nat where "K64_USER_PIPE_BUFFER_SIZE = 4096"
definition K64_LINUX_BRK_BASE :: u64 where "K64_LINUX_BRK_BASE = 0x4B80000"
definition K64_WAIT_BLOCK :: u64 where "K64_WAIT_BLOCK = 0"
definition K64_WAIT_NOHANG :: u64 where "K64_WAIT_NOHANG = 1"
definition K64_ERR_NOTCHILD :: int where "K64_ERR_NOTCHILD = - 7"
definition K64_ERR_FULL :: int where "K64_ERR_FULL = - 10"
definition K64_ERR_PIPE :: int where "K64_ERR_PIPE = - 12"

datatype k64_user_process_state = K64_USER_PROCESS_EMPTY | K64_USER_PROCESS_RUNNING | K64_USER_PROCESS_EXITED
  | K64_USER_PROCESS_FAULTED | K64_USER_PROCESS_ZOMBIE | K64_USER_PROCESS_REAPED

datatype k64_user_fd_kind = K64_USER_FD_EMPTY | K64_USER_FD_FILE | K64_USER_FD_PIPE_READ | K64_USER_FD_PIPE_WRITE

datatype k64_process_personality = K64_PERSONALITY_NATIVE | K64_PERSONALITY_LINUX_X86_64

record k64_user_fd =
  uf_used :: bool
  uf_kind :: k64_user_fd_kind
  uf_size :: nat
  uf_offset :: nat
  uf_pipe_index :: int

record k64_user_process =
  up_used :: bool
  up_pid :: u64
  up_parent_pid :: u64
  up_task_id :: u64
  up_state :: k64_user_process_state
  up_exit_code :: int
  up_entry :: u64
  up_cr3 :: u64
  up_start_tick :: u64
  up_end_tick :: u64
  up_fault_vector :: u64
  up_fault_rip :: u64
  up_real_uid :: u32
  up_effective_uid :: u32
  up_real_gid :: u32
  up_effective_gid :: u32
  up_personality :: k64_process_personality
  up_linux_brk :: u64
  up_linux_mmap_next :: u64
  up_linux_fs_base :: u64
  up_path :: string
  up_fds :: "k64_user_fd list"

record k64_user_pipe =
  pp_used :: bool
  pp_data :: bytes
  pp_read_pos :: nat
  pp_write_pos :: nat
  pp_size :: nat
  pp_read_refs :: u32
  pp_write_refs :: u32

record k64_user_spawn_ctx =
  sq_used :: bool
  sq_pid :: u64
  sq_parent_pid :: u64
  sq_path :: string
  sq_args :: string

text \<open>The context of the running process; index \<open>None\<close> stands for \<open>-1\<close>.\<close>

record k64_user_exec_context =
  cx_result :: int
  cx_active :: bool
  cx_scheduler_unlocked :: bool
  cx_process_index :: "nat option"
  cx_fallback_fds :: "k64_user_fd list"

record 'g usermode =
  process_table :: "k64_user_process list"
  pipe_table :: "k64_user_pipe list"
  um_next_pid :: u64
  next_process_personality :: k64_process_personality
  spawn_ctx :: "k64_user_spawn_ctx list"
  active_ctx :: k64_user_exec_context
  fs_raw_buffer :: bytes
  um_ticks :: u64
  um_task :: "u64 option"
  um_user :: "'g user_state"

type_synonym ('g, 'a) umop = "('g usermode, 'a) op"

record 'g um_env =
  um_run :: "string \<Rightarrow> string \<Rightarrow> u64 \<Rightarrow> u64 \<Rightarrow> 'g usermode \<Rightarrow> bool \<times> 'g usermode"
  um_enter :: "u64 \<Rightarrow> u64 \<Rightarrow> u64 \<Rightarrow> 'g usermode \<Rightarrow> int \<times> 'g usermode"
  um_heap :: "'g usermode \<Rightarrow> bool"
  um_stdin :: "nat \<Rightarrow> 'g usermode \<Rightarrow> bytes"
  um_failed_read :: "bytes \<Rightarrow> bytes"

definition um_answer :: "int \<Rightarrow> ('g, call_answer) umop" where
  "um_answer status = ret \<lparr>an_status = status, an_out = [], an_length = 0\<rparr>"

definition um_reply :: "int \<Rightarrow> bytes \<Rightarrow> ('g, call_answer) umop" where
  "um_reply status out = ret \<lparr>an_status = status, an_out = out, an_length = length out\<rparr>"

definition on_umfs :: "('g, 'a) fsop \<Rightarrow> ('g, 'a) umop" where
  "on_umfs m s = (case on_ufs m (um_user s) of (r, u) \<Rightarrow> (r, s\<lparr>um_user := u\<rparr>))"

definition set_process :: "nat \<Rightarrow> (k64_user_process \<Rightarrow> k64_user_process) \<Rightarrow> 'g usermode \<Rightarrow> 'g usermode" where
  "set_process i f s = s\<lparr>process_table := (process_table s)[i := f (process_table s ! i)]\<rparr>"

section \<open>The process table\<close>

definition no_fd :: k64_user_fd where
  "no_fd = \<lparr>uf_used = False, uf_kind = K64_USER_FD_EMPTY, uf_size = 0, uf_offset = 0, uf_pipe_index = - 1\<rparr>"

definition ctx_clear :: "'g usermode \<Rightarrow> 'g usermode" where
  "ctx_clear s = s\<lparr>active_ctx := \<lparr>cx_result = K64_ERR_INVAL, cx_active = False, cx_scheduler_unlocked = False, cx_process_index = None,
     cx_fallback_fds = replicate K64_USER_FD_MAX no_fd\<rparr>\<rparr>"

definition process_copy_path :: "cstr \<Rightarrow> string" where
  "process_copy_path src = take (K64_USER_PROCESS_PATH_MAX - 1) (case src of None \<Rightarrow> ''<user-elf>'' | Some t \<Rightarrow> if t = [] then ''<user-elf>'' else t)"

definition k64_usermode_next_pid :: "'g usermode \<Rightarrow> u64 \<times> 'g usermode" where
  "k64_usermode_next_pid s = (um_next_pid s, s\<lparr>um_next_pid := um_next_pid s + 1\<rparr>)"

definition is_process :: "u64 \<Rightarrow> k64_user_process \<Rightarrow> bool" where
  "is_process pid p \<longleftrightarrow> up_used p \<and> up_pid p = pid"

text \<open>Real and effective user, then real and effective group.\<close>

definition current_session_creds :: "'g usermode \<Rightarrow> u32 \<times> u32 \<times> u32 \<times> u32" where
  "current_session_creds s = (let u = um_user s; rgid = k64_user_effective_gid u in (k64_user_real_uid u, k64_user_effective_uid u, rgid, rgid))"

definition process_creds :: "k64_user_process \<Rightarrow> u32 \<times> u32 \<times> u32 \<times> u32" where
  "process_creds p = (up_real_uid p, up_effective_uid p, up_real_gid p, up_effective_gid p)"

definition inherit_process_creds :: "u64 \<Rightarrow> 'g usermode \<Rightarrow> u32 \<times> u32 \<times> u32 \<times> u32" where
  "inherit_process_creds parent_pid s =
     (case (if parent_pid = 0 then None else find (is_process parent_pid) (process_table s)) of
        None \<Rightarrow> current_session_creds s
      | Some p \<Rightarrow> process_creds p)"

definition process_slot :: "u64 \<Rightarrow> 'g usermode \<Rightarrow> nat option" where
  "process_slot pid s =
     (case (if pid = 0 then None else index_of (is_process pid) (process_table s)) of
        Some i \<Rightarrow> Some i
      | None \<Rightarrow> index_of (\<lambda>p. \<not> up_used p) (process_table s))"

definition process_alloc :: "cstr \<Rightarrow> u64 \<Rightarrow> u64 \<Rightarrow> u64 \<Rightarrow> u64 \<Rightarrow> 'g usermode \<Rightarrow> nat option \<times> 'g usermode" where
  "process_alloc path entry_point cr3v parent_pid pid s =
     (case process_slot pid s of
        None \<Rightarrow> (None, s)
      | Some i \<Rightarrow>
          let old = process_table s ! i; replacing = up_used old in
          case (if replacing then process_creds old else inherit_process_creds parent_pid s) of (real_uid, effective_uid, real_gid, effective_gid) \<Rightarrow>
          case (if pid \<noteq> 0 then (pid, s) else k64_usermode_next_pid s) of (pid, s) \<Rightarrow>
          let s = (if pid \<ge> um_next_pid s then s\<lparr>um_next_pid := pid + 1\<rparr> else s) in
          (Some i, (set_process i (\<lambda>p. \<lparr>up_used = True, up_pid = pid, up_parent_pid = parent_pid,
             up_task_id = (case um_task s of None \<Rightarrow> up_task_id old | Some t \<Rightarrow> if up_task_id old = 0 then t else up_task_id old),
             up_state = K64_USER_PROCESS_RUNNING, up_exit_code = K64_ERR_INVAL, up_entry = entry_point, up_cr3 = cr3v, up_start_tick = um_ticks s,
             up_end_tick = 0, up_fault_vector = 0, up_fault_rip = 0, up_real_uid = real_uid, up_effective_uid = effective_uid,
             up_real_gid = real_gid, up_effective_gid = effective_gid,
             up_personality = (if replacing then up_personality old else next_process_personality s),
             up_linux_brk = 0x70000000, up_linux_mmap_next = 0x60000000, up_linux_fs_base = 0, up_path = process_copy_path path,
             up_fds = replicate K64_USER_FD_MAX no_fd\<rparr>) s)\<lparr>next_process_personality := K64_PERSONALITY_NATIVE\<rparr>))"

definition process_reserve :: "cstr \<Rightarrow> u64 \<Rightarrow> u64 \<Rightarrow> u64 \<Rightarrow> 'g usermode \<Rightarrow> nat option \<times> 'g usermode" where
  "process_reserve path parent_pid pid task_id s =
     (case process_alloc path 0 0 parent_pid pid s of
        (None, s) \<Rightarrow> (None, s)
      | (Some i, s) \<Rightarrow> (Some i, set_process i (\<lambda>p. p\<lparr>up_task_id := task_id\<rparr>) s))"

definition live_slot :: "nat option \<Rightarrow> 'g usermode \<Rightarrow> nat option" where
  "live_slot i s = (case i of None \<Rightarrow> None | Some i \<Rightarrow> if i < length (process_table s) \<and> up_used (process_table s ! i) then Some i else None)"

definition process_finish :: "nat option \<Rightarrow> k64_user_process_state \<Rightarrow> int \<Rightarrow> 'g usermode \<Rightarrow> 'g usermode" where
  "process_finish i st exit_code s =
     (case live_slot i s of
        None \<Rightarrow> s
      | Some i \<Rightarrow> set_process i (\<lambda>p. p\<lparr>up_state := st, up_exit_code := exit_code, up_end_tick := um_ticks s\<rparr>) s)"

text \<open>The handles are marked as free; a pipe behind a handle is not told.\<close>

definition process_reap :: "nat option \<Rightarrow> 'g usermode \<Rightarrow> 'g usermode" where
  "process_reap i s =
     (case live_slot i s of
        None \<Rightarrow> s
      | Some i \<Rightarrow> set_process i (\<lambda>p. p\<lparr>up_fds := map (\<lambda>d. d\<lparr>uf_used := False, uf_kind := K64_USER_FD_EMPTY\<rparr>) (up_fds p),
          up_state := K64_USER_PROCESS_REAPED, up_task_id := 0, up_used := False\<rparr>) s)"

definition process_find_pid :: "u64 \<Rightarrow> 'g usermode \<Rightarrow> nat option" where
  "process_find_pid pid s =
     (if pid = 0 \<and> cx_process_index (active_ctx s) \<noteq> None then cx_process_index (active_ctx s)
      else index_of (is_process pid) (process_table s))"

definition current_slot :: "'g usermode \<Rightarrow> nat option" where
  "current_slot s = live_slot (cx_process_index (active_ctx s)) s"

definition current_process_pid :: "'g usermode \<Rightarrow> u64" where
  "current_process_pid s = (case current_slot s of None \<Rightarrow> 0 | Some i \<Rightarrow> up_pid (process_table s ! i))"

definition k64_usermode_current_real_uid :: "'g usermode \<Rightarrow> u32" where
  "k64_usermode_current_real_uid s = (case current_slot s of None \<Rightarrow> k64_user_real_uid (um_user s) | Some i \<Rightarrow> up_real_uid (process_table s ! i))"

definition k64_usermode_current_effective_uid :: "'g usermode \<Rightarrow> u32" where
  "k64_usermode_current_effective_uid s =
     (case current_slot s of None \<Rightarrow> k64_user_effective_uid (um_user s) | Some i \<Rightarrow> up_effective_uid (process_table s ! i))"

definition k64_usermode_current_effective_gid :: "'g usermode \<Rightarrow> u32" where
  "k64_usermode_current_effective_gid s =
     (case current_slot s of None \<Rightarrow> k64_user_effective_gid (um_user s) | Some i \<Rightarrow> up_effective_gid (process_table s ! i))"

definition k64_usermode_set_process_personality :: "u64 \<Rightarrow> k64_process_personality \<Rightarrow> 'g usermode \<Rightarrow> bool \<times> 'g usermode" where
  "k64_usermode_set_process_personality pid personality s =
     (case process_find_pid pid s of
        None \<Rightarrow> (False, s)
      | Some i \<Rightarrow> (True, set_process i (\<lambda>p. p\<lparr>up_personality := personality\<rparr>) s))"

definition k64_usermode_set_next_personality :: "k64_process_personality \<Rightarrow> 'g usermode \<Rightarrow> 'g usermode" where
  "k64_usermode_set_next_personality personality s = s\<lparr>next_process_personality := personality\<rparr>"

definition k64_usermode_current_path :: "nat \<Rightarrow> 'g usermode \<Rightarrow> string option" where
  "k64_usermode_current_path out_size s =
     (if out_size = 0 then None
      else case current_slot s of None \<Rightarrow> None | Some i \<Rightarrow> Some (take (out_size - 1) (up_path (process_table s ! i))))"

definition process_state_name :: "k64_user_process_state \<Rightarrow> string" where
  "process_state_name st =
     (case st of K64_USER_PROCESS_RUNNING \<Rightarrow> ''RUNNING'' | K64_USER_PROCESS_EXITED \<Rightarrow> ''EXITED'' | K64_USER_PROCESS_FAULTED \<Rightarrow> ''FAULTED''
      | K64_USER_PROCESS_ZOMBIE \<Rightarrow> ''ZOMBIE'' | K64_USER_PROCESS_REAPED \<Rightarrow> ''REAPED'' | K64_USER_PROCESS_EMPTY \<Rightarrow> ''EMPTY'')"

definition process_state_number :: "k64_user_process_state \<Rightarrow> u64" where
  "process_state_number st =
     (case st of K64_USER_PROCESS_EMPTY \<Rightarrow> 0 | K64_USER_PROCESS_RUNNING \<Rightarrow> 1 | K64_USER_PROCESS_EXITED \<Rightarrow> 2
      | K64_USER_PROCESS_FAULTED \<Rightarrow> 3 | K64_USER_PROCESS_ZOMBIE \<Rightarrow> 4 | K64_USER_PROCESS_REAPED \<Rightarrow> 5)"

definition proc_info_size :: nat where "proc_info_size = 176"

definition enc_proc_info :: "u64 \<Rightarrow> k64_user_process \<Rightarrow> bytes" where
  "enc_proc_info now p = le_enc 8 (up_pid p) @ le_enc 8 (up_parent_pid p) @ le_enc 8 (up_task_id p) @
     le_enc 8 (process_state_number (up_state p)) @ le_enc 8 (word_of_int (up_exit_code p) :: u64) @
     le_enc 8 (up_start_tick p) @ le_enc 8 (up_end_tick p) @
     le_enc 8 ((if up_end_tick p \<noteq> 0 then up_end_tick p else now) - up_start_tick p) @
     le_enc 8 (up_fault_vector p) @ le_enc 8 (up_fault_rip p) @
     char_array K64_USER_PROCESS_PATH_MAX (process_copy_path (Some (up_path p)))"

definition process_fill_info :: "nat option \<Rightarrow> 'g usermode \<Rightarrow> bytes" where
  "process_fill_info i s =
     (case live_slot i s of
        None \<Rightarrow> replicate proc_info_size 0
      | Some i \<Rightarrow> enc_proc_info (um_ticks s) (process_table s ! i))"

section \<open>Handles and pipes\<close>

definition current_fds :: "'g usermode \<Rightarrow> k64_user_fd list" where
  "current_fds s = (case current_slot s of None \<Rightarrow> cx_fallback_fds (active_ctx s) | Some i \<Rightarrow> up_fds (process_table s ! i))"

definition set_fds :: "k64_user_fd list \<Rightarrow> 'g usermode \<Rightarrow> 'g usermode" where
  "set_fds ds s =
     (case current_slot s of
        None \<Rightarrow> s\<lparr>active_ctx := (active_ctx s)\<lparr>cx_fallback_fds := ds\<rparr>\<rparr>
      | Some i \<Rightarrow> set_process i (\<lambda>p. p\<lparr>up_fds := ds\<rparr>) s)"

definition fd_clear :: "nat \<Rightarrow> 'g usermode \<Rightarrow> 'g usermode" where
  "fd_clear i s = set_fds ((current_fds s)[i := no_fd]) s"

definition alloc_fd :: "k64_user_fd \<Rightarrow> 'g usermode \<Rightarrow> int \<times> 'g usermode" where
  "alloc_fd d s =
     (case index_of (\<lambda>d. \<not> uf_used d) (current_fds s) of
        None \<Rightarrow> (- 1, s)
      | Some i \<Rightarrow> (int i + 3, set_fds ((current_fds s)[i := d]) s))"

definition alloc_fd_file :: "nat \<Rightarrow> 'g usermode \<Rightarrow> int \<times> 'g usermode" where
  "alloc_fd_file sz = alloc_fd \<lparr>uf_used = True, uf_kind = K64_USER_FD_FILE, uf_size = sz, uf_offset = 0, uf_pipe_index = - 1\<rparr>"

definition alloc_fd_pipe :: "nat \<Rightarrow> k64_user_fd_kind \<Rightarrow> 'g usermode \<Rightarrow> int \<times> 'g usermode" where
  "alloc_fd_pipe pipe_index kind = alloc_fd \<lparr>uf_used = True, uf_kind = kind, uf_size = 0, uf_offset = 0, uf_pipe_index = int pipe_index\<rparr>"

text \<open>The index of a handle in the table of the current process.\<close>

definition get_fd :: "u64 \<Rightarrow> 'g usermode \<Rightarrow> nat option" where
  "get_fd fd s =
     (if fd < 3 then None
      else
        let i = unat (fd - 3) in
        if i \<ge> K64_USER_FD_MAX then None else if uf_used (current_fds s ! i) then Some i else None)"

definition set_pipe :: "nat \<Rightarrow> (k64_user_pipe \<Rightarrow> k64_user_pipe) \<Rightarrow> 'g usermode \<Rightarrow> 'g usermode" where
  "set_pipe i f s = s\<lparr>pipe_table := (pipe_table s)[i := f (pipe_table s ! i)]\<rparr>"

definition pipe_alloc :: "'g usermode \<Rightarrow> nat option \<times> 'g usermode" where
  "pipe_alloc s =
     (case index_of (\<lambda>p. \<not> pp_used p) (pipe_table s) of
        None \<Rightarrow> (None, s)
      | Some i \<Rightarrow> (Some i, set_pipe i (\<lambda>p. p\<lparr>pp_used := True, pp_read_pos := 0, pp_write_pos := 0, pp_size := 0,
          pp_read_refs := 1, pp_write_refs := 1\<rparr>) s))"

definition live_pipe :: "int \<Rightarrow> 'g usermode \<Rightarrow> nat option" where
  "live_pipe i s = (if i < 0 \<or> i \<ge> int K64_USER_PIPE_MAX \<or> \<not> pp_used (pipe_table s ! nat i) then None else Some (nat i))"

definition drop_ref :: "k64_user_fd_kind \<Rightarrow> k64_user_pipe \<Rightarrow> k64_user_pipe" where
  "drop_ref kind p =
     (let p = (if kind = K64_USER_FD_PIPE_READ \<and> pp_read_refs p > 0 then p\<lparr>pp_read_refs := pp_read_refs p - 1\<rparr>
               else if kind = K64_USER_FD_PIPE_WRITE \<and> pp_write_refs p > 0 then p\<lparr>pp_write_refs := pp_write_refs p - 1\<rparr> else p)
      in if pp_read_refs p = 0 \<and> pp_write_refs p = 0 then p\<lparr>pp_used := False, pp_read_pos := 0, pp_write_pos := 0, pp_size := 0\<rparr> else p)"

definition pipe_drop_ref :: "int \<Rightarrow> k64_user_fd_kind \<Rightarrow> 'g usermode \<Rightarrow> 'g usermode" where
  "pipe_drop_ref pipe_index kind s = (case live_pipe pipe_index s of None \<Rightarrow> s | Some i \<Rightarrow> set_pipe i (drop_ref kind) s)"

fun pipe_put :: "bytes \<Rightarrow> k64_user_pipe \<Rightarrow> k64_user_pipe" where
  "pipe_put [] p = p"
| "pipe_put (b # bs) p =
     pipe_put bs (p\<lparr>pp_data := (pp_data p)[pp_write_pos p := b], pp_write_pos := (pp_write_pos p + 1) mod K64_USER_PIPE_BUFFER_SIZE\<rparr>)"

fun pipe_get :: "nat \<Rightarrow> k64_user_pipe \<Rightarrow> bytes \<times> k64_user_pipe" where
  "pipe_get 0 p = ([], p)"
| "pipe_get (Suc n) p =
     (case pipe_get n (p\<lparr>pp_read_pos := (pp_read_pos p + 1) mod K64_USER_PIPE_BUFFER_SIZE\<rparr>) of (bs, q) \<Rightarrow> (pp_data p ! pp_read_pos p # bs, q))"

text \<open>A write to a pipe: the result and the pipe after it; as much is taken as there is room.\<close>

definition pipe_write :: "bytes \<Rightarrow> k64_user_pipe \<Rightarrow> int \<times> k64_user_pipe" where
  "pipe_write bs p =
     (if pp_read_refs p = 0 then (K64_ERR_PIPE, p)
      else if pp_size p = K64_USER_PIPE_BUFFER_SIZE then (K64_ERR_AGAIN, p)
      else
        let count = min (length bs) (K64_USER_PIPE_BUFFER_SIZE - pp_size p); q = pipe_put (take count bs) p in
        (int count, q\<lparr>pp_size := pp_size q + count\<rparr>))"

definition pipe_read :: "nat \<Rightarrow> k64_user_pipe \<Rightarrow> (int \<times> bytes) \<times> k64_user_pipe" where
  "pipe_read n p =
     (if pp_size p = 0 then (if pp_write_refs p = 0 then ((0, []), p) else ((K64_ERR_AGAIN, []), p))
      else
        let count = min n (pp_size p) in
        case pipe_get count p of (bs, q) \<Rightarrow> ((int count, bs), q\<lparr>pp_size := pp_size q - count\<rparr>))"

section \<open>Children\<close>

definition copy_bounded :: "nat \<Rightarrow> cstr \<Rightarrow> string" where
  "copy_bounded dst_size src = str_copy [] dst_size src"

definition queue_spawn :: "string \<Rightarrow> string \<Rightarrow> 'g usermode \<Rightarrow> int \<times> 'g usermode" where
  "queue_spawn path args s =
     (case index_of (\<lambda>q. \<not> sq_used q) (spawn_ctx s) of
        None \<Rightarrow> (K64_ERR_FULL, s)
      | Some i \<Rightarrow>
          (case k64_usermode_next_pid s of (pid, s) \<Rightarrow>
           let parent = current_process_pid s;
               q = \<lparr>sq_used = True, sq_pid = pid, sq_parent_pid = parent, sq_path = copy_bounded 256 (Some path),
                 sq_args = copy_bounded K64_USER_SPAWN_ARGS_MAX (Some args)\<rparr> in
           case process_reserve (Some path) parent pid 0 (s\<lparr>spawn_ctx := (spawn_ctx s)[i := q]\<rparr>) of
             (None, s) \<Rightarrow> (K64_ERR_FULL, s\<lparr>spawn_ctx := (spawn_ctx s)[i := q\<lparr>sq_used := False\<rparr>]\<rparr>)
           | (Some _, s) \<Rightarrow> (sint pid, s)))"

definition find_spawn_ctx :: "u64 \<Rightarrow> 'g usermode \<Rightarrow> nat option" where
  "find_spawn_ctx pid s = index_of (\<lambda>q. sq_used q \<and> sq_pid q = pid) (spawn_ctx s)"

definition clear_spawn_ctx :: "u64 \<Rightarrow> 'g usermode \<Rightarrow> 'g usermode" where
  "clear_spawn_ctx pid s =
     (case find_spawn_ctx pid s of
        None \<Rightarrow> s
      | Some i \<Rightarrow> s\<lparr>spawn_ctx := (spawn_ctx s)[i := \<lparr>sq_used = False, sq_pid = 0, sq_parent_pid = 0, sq_path = [], sq_args = []\<rparr>]\<rparr>)"

text \<open>The context of the caller is put back after the child has run.\<close>

definition with_saved_ctx :: "('g usermode \<Rightarrow> 'a \<times> 'g usermode) \<Rightarrow> 'g usermode \<Rightarrow> 'a \<times> 'g usermode" where
  "with_saved_ctx f s = (case f s of (a, t) \<Rightarrow> (a, t\<lparr>active_ctx := (active_ctx s)\<lparr>cx_scheduler_unlocked := False\<rparr>\<rparr>))"

definition run_reserved_child :: "'g um_env \<Rightarrow> u64 \<Rightarrow> u64 \<Rightarrow> 'g usermode \<Rightarrow> int \<times> 'g usermode" where
  "run_reserved_child env pid parent_pid s =
     (case find_spawn_ctx pid s of
        None \<Rightarrow> (K64_ERR_AGAIN, s)
      | Some i \<Rightarrow>
          let q = spawn_ctx s ! i in
          if sq_parent_pid q \<noteq> parent_pid then (K64_ERR_AGAIN, s)
          else
            case with_saved_ctx (um_run env (copy_bounded 256 (Some (sq_path q))) (copy_bounded K64_USER_SPAWN_ARGS_MAX (Some (sq_args q))) parent_pid pid) s of (ok, s) \<Rightarrow>
            case process_find_pid pid s of
              None \<Rightarrow> (K64_ERR_NOENT, clear_spawn_ctx pid s)
            | Some k \<Rightarrow>
                let s = (if \<not> ok \<and> up_state (process_table s ! k) = K64_USER_PROCESS_RUNNING
                         then process_finish (Some k) K64_USER_PROCESS_FAULTED K64_ERR_NOENT s else s) in
                if up_state (process_table s ! k) = K64_USER_PROCESS_RUNNING then (K64_ERR_AGAIN, s) else (K64_OK, clear_spawn_ctx pid s))"

definition run_ready_child_for_parent :: "'g um_env \<Rightarrow> u64 \<Rightarrow> 'g usermode \<Rightarrow> bool \<times> 'g usermode" where
  "run_ready_child_for_parent env parent_pid s =
     (case find (\<lambda>q. sq_used q \<and> (parent_pid = 0 \<or> sq_parent_pid q = parent_pid)) (spawn_ctx s) of
        None \<Rightarrow> (False, s)
      | Some q \<Rightarrow> (True, snd (run_reserved_child env (sq_pid q) (sq_parent_pid q) s)))"

definition k64_usermode_poll_background :: "'g um_env \<Rightarrow> 'g usermode \<Rightarrow> 'g usermode" where
  "k64_usermode_poll_background env s = (if cx_active (active_ctx s) then s else snd (run_ready_child_for_parent env 0 s))"

definition k64_usermode_execute_nested_path_args :: "'g um_env \<Rightarrow> string \<Rightarrow> string \<Rightarrow> 'g usermode \<Rightarrow> bool \<times> 'g usermode" where
  "k64_usermode_execute_nested_path_args env path args s =
     (if path = [] then (False, s) else with_saved_ctx (um_run env path args 0 0) s)"

definition activate_process :: "nat \<Rightarrow> 'g usermode \<Rightarrow> 'g usermode" where
  "activate_process i s = (let s = ctx_clear s in s\<lparr>active_ctx := (active_ctx s)\<lparr>cx_active := True, cx_process_index := Some i\<rparr>\<rparr>)"

definition prepare_linux_heap :: "'g um_env \<Rightarrow> nat \<Rightarrow> 'g usermode \<Rightarrow> bool \<times> 'g usermode" where
  "prepare_linux_heap env i s =
     (if up_personality (process_table s ! i) = K64_PERSONALITY_LINUX_X86_64
      then let s = set_process i (\<lambda>p. p\<lparr>up_linux_brk := K64_LINUX_BRK_BASE\<rparr>) s in (um_heap env s, s)
      else (True, s))"

text \<open>A program that comes back while it is still running becomes a zombie. Only service hosts are reaped here.\<close>

definition leave_process :: "nat \<Rightarrow> int \<Rightarrow> cstr \<Rightarrow> u64 \<Rightarrow> u64 \<Rightarrow> 'g usermode \<Rightarrow> 'g usermode" where
  "leave_process i result path parent_pid pid s =
     (let s = s\<lparr>active_ctx := (active_ctx s)\<lparr>cx_result := result\<rparr>\<rparr>;
          s = (if up_state (process_table s ! i) = K64_USER_PROCESS_RUNNING then process_finish (Some i) K64_USER_PROCESS_ZOMBIE result s else s)
      in if parent_pid = 0 \<and> pid = 0 \<and> path \<noteq> None \<and> (k64_streq path (Some ''/ex/servicehost.elf'') \<or> k64_streq path (Some ''/ex/demosvc.elf''))
         then process_reap (Some i) s else s)"

definition k64_usermode_execute_named_ex ::
    "'g um_env \<Rightarrow> bool \<Rightarrow> u64 \<Rightarrow> u64 \<Rightarrow> u64 \<Rightarrow> cstr \<Rightarrow> u64 \<Rightarrow> u64 \<Rightarrow> 'g usermode \<Rightarrow> int \<times> 'g usermode" where
  "k64_usermode_execute_named_ex env space_present space_cr3 entry_point stack_top path parent_pid pid s =
     (if \<not> space_present \<or> entry_point = 0 \<or> stack_top = 0 then (K64_ERR_INVAL, s)
      else case process_alloc path entry_point space_cr3 parent_pid pid s of
          (None, s) \<Rightarrow> (K64_ERR_FULL, s)
        | (Some i, s) \<Rightarrow>
            (case prepare_linux_heap env i (activate_process i s) of (ok, s) \<Rightarrow>
             if \<not> ok then (K64_ERR_NOMEM, ctx_clear (process_finish (Some i) K64_USER_PROCESS_FAULTED K64_ERR_NOMEM s))
             else case um_enter env space_cr3 stack_top entry_point s of (result, s) \<Rightarrow> (result, leave_process i result path parent_pid pid s)))"

section \<open>The calls of the process service\<close>

definition um_may_access :: "k64_fs_stat \<Rightarrow> u32 \<Rightarrow> 'g usermode \<Rightarrow> bool" where
  "um_may_access st wanted s =
     k64_user_can_access_uid (k64_usermode_current_effective_uid s) (k64_usermode_current_effective_gid s) (st_uid st) (st_gid st) (st_mode st) wanted"

definition proc_info_service_call :: "k64_service_call_request \<Rightarrow> ('g, call_answer) umop" where
  "proc_info_service_call req s =
     (case (rq_in req, rq_out req) of
        (Some input, Some out_len) \<Rightarrow>
          if length input < 8 \<or> out_len < proc_info_size then um_answer K64_ERR_INVAL s
          else case process_find_pid (le_dec (bytes_at 0 8 input)) s of
              None \<Rightarrow> um_answer K64_ERR_NOENT s
            | Some i \<Rightarrow>
                let p = process_table s ! i in
                if rq_caller_pid req \<noteq> 0 \<and> up_pid p \<noteq> rq_caller_pid req \<and> up_parent_pid p \<noteq> rq_caller_pid req then um_answer K64_ERR_ACCESS s
                else um_reply K64_OK (process_fill_info (Some i) s) s
      | _ \<Rightarrow> um_answer K64_ERR_INVAL s)"

text \<open>The path is a string in the request that need not end inside its field.\<close>

definition proc_spawn_service_call :: "k64_service_call_request \<Rightarrow> ('g, call_answer) umop" where
  "proc_spawn_service_call req =
     (case (rq_in req, rq_out req) of
        (Some input, Some out_len) \<Rightarrow>
          if length input < 512 \<or> out_len < 8 then um_answer K64_ERR_INVAL
          else if input ! 0 = 0 then um_answer K64_ERR_INVAL
          else
            in_bounds (0 \<in> set input)
              (bind (attempt (on_umfs (k64_fs_stat_op (Some (array_str input))))) (\<lambda>st s.
               case st of
                 None \<Rightarrow> um_answer K64_ERR_NOENT s
               | Some st \<Rightarrow>
                   if \<not> um_may_access st (K64_ACCESS_EXEC OR K64_ACCESS_READ) s then um_answer K64_ERR_ACCESS s
                   else
                     case queue_spawn (array_str input) (array_str (bytes_at 256 256 input)) s of (pid, s) \<Rightarrow>
                     if pid < 0 then um_answer pid s else um_reply K64_OK (le_enc 8 (word_of_int pid :: u64)) s))
      | _ \<Rightarrow> um_answer K64_ERR_INVAL)"

definition reap_child :: "nat \<Rightarrow> ('g, call_answer) umop" where
  "reap_child i s = um_reply K64_OK (le_enc 8 (word_of_int (up_exit_code (process_table s ! i)) :: u64)) (process_reap (Some i) s)"

definition proc_wait_service_call :: "'g um_env \<Rightarrow> k64_service_call_request \<Rightarrow> ('g, call_answer) umop" where
  "proc_wait_service_call env req s =
     (case (rq_in req, rq_out req) of
        (Some input, Some out_len) \<Rightarrow>
          if length input < 16 \<or> out_len < 8 then um_answer K64_ERR_INVAL s
          else
            let pid = le_dec (bytes_at 0 8 input) :: u64; flags = le_dec (bytes_at 8 8 input) :: u64 in
            if flags \<noteq> K64_WAIT_BLOCK \<and> flags \<noteq> K64_WAIT_NOHANG then um_answer K64_ERR_INVAL s
            else case process_find_pid pid s of
                None \<Rightarrow> um_answer K64_ERR_NOENT s
              | Some i \<Rightarrow>
                  if up_parent_pid (process_table s ! i) \<noteq> rq_caller_pid req then um_answer K64_ERR_NOTCHILD s
                  else if up_state (process_table s ! i) \<noteq> K64_USER_PROCESS_RUNNING then reap_child i s
                  else if flags = K64_WAIT_NOHANG then um_answer K64_ERR_AGAIN s
                  else
                    case run_reserved_child env (up_pid (process_table s ! i)) (rq_caller_pid req) s of (rc, s) \<Rightarrow>
                    if rc \<noteq> K64_OK then um_answer rc s
                    else case process_find_pid pid s of
                        None \<Rightarrow> um_answer K64_ERR_NOENT s
                      | Some i \<Rightarrow> if up_state (process_table s ! i) = K64_USER_PROCESS_RUNNING then um_answer K64_ERR_AGAIN s else reap_child i s
      | _ \<Rightarrow> um_answer K64_ERR_INVAL s)"

definition proc_exit_service_call :: "k64_service_call_request \<Rightarrow> ('g, call_answer) umop" where
  "proc_exit_service_call req s =
     (case rq_in req of
        None \<Rightarrow> um_answer K64_ERR_INVAL s
      | Some input \<Rightarrow>
          if length input < 8 then um_answer K64_ERR_INVAL s
          else
            let code = sint (le_dec (bytes_at 0 8 input) :: u64);
                s = s\<lparr>active_ctx := (active_ctx s)\<lparr>cx_result := code, cx_active := False\<rparr>\<rparr>
            in um_answer K64_OK (process_finish (cx_process_index (active_ctx s)) K64_USER_PROCESS_ZOMBIE code s))"

definition proc_getpid_service_call :: "k64_service_call_request \<Rightarrow> ('g, call_answer) umop" where
  "proc_getpid_service_call req s =
     (case rq_out req of
        None \<Rightarrow> um_answer K64_ERR_INVAL s
      | Some out_len \<Rightarrow>
          if out_len < 8 then um_answer K64_ERR_INVAL s
          else case current_slot s of
              None \<Rightarrow> um_answer K64_ERR_NOENT s
            | Some i \<Rightarrow> um_reply K64_OK (le_enc 8 (up_pid (process_table s ! i))) s)"

section \<open>The calls of the io service\<close>

text \<open>Output to the console stops at a zero byte; the console itself is not modelled.\<close>

definition io_write_service_call :: "k64_service_call_request \<Rightarrow> ('g, call_answer) umop" where
  "io_write_service_call req s =
     (case (rq_in req, rq_out req) of
        (Some input, Some out_len) \<Rightarrow>
          if length input < 16 \<or> out_len < 8 then um_answer K64_ERR_INVAL s
          else
            let fd = sint (le_dec (bytes_at 0 8 input) :: u64); len = le_dec (bytes_at 8 8 input) :: u64; data = drop 16 input;
                result = (\<lambda>r. um_reply K64_OK (le_enc 8 (word_of_int r :: u64))) in
            if 16 + len > of_nat (length input) then um_answer K64_ERR_INVAL s
            else if fd = 1 \<or> fd = 2 then in_bounds (unat len \<le> length data \<or> 0 \<in> set data) (result (sint len)) s
            else case get_fd (word_of_int fd) s of
                None \<Rightarrow> result K64_ERR_BADFD s
              | Some d \<Rightarrow>
                  if uf_kind (current_fds s ! d) \<noteq> K64_USER_FD_PIPE_WRITE then result K64_ERR_BADFD s
                  else case live_pipe (uf_pipe_index (current_fds s ! d)) s of
                      None \<Rightarrow> result K64_ERR_PIPE s
                    | Some i \<Rightarrow>
                        in_bounds (pp_read_refs (pipe_table s ! i) = 0 \<or> pp_size (pipe_table s ! i) = K64_USER_PIPE_BUFFER_SIZE \<or>
                            min (unat len) (K64_USER_PIPE_BUFFER_SIZE - pp_size (pipe_table s ! i)) \<le> length data)
                          (\<lambda>s. case pipe_write (take (unat len) data) (pipe_table s ! i) of (r, p) \<Rightarrow> result r (set_pipe i (\<lambda>_. p) s)) s
      | _ \<Rightarrow> um_answer K64_ERR_INVAL s)"

definition io_open_service_call :: "'g um_env \<Rightarrow> k64_service_call_request \<Rightarrow> ('g, call_answer) umop" where
  "io_open_service_call env req =
     (case (path_input (rq_in req), rq_out req) of
        (Some path, Some out_len) \<Rightarrow>
          let result = (\<lambda>r. um_reply K64_OK (le_enc 8 (word_of_int r :: u64))) in
          if out_len < 8 then um_answer K64_ERR_INVAL
          else
            bind (attempt (on_umfs (k64_fs_stat_op (Some path)))) (\<lambda>st s.
            case st of
              None \<Rightarrow> result K64_ERR_NOENT s
            | Some st \<Rightarrow>
                if \<not> um_may_access st K64_ACCESS_READ s then result K64_ERR_ACCESS s
                else
                  bind (attempt (on_umfs (k64_fs_read_file_raw (Some path)))) (\<lambda>d s.
                  case d of
                    None \<Rightarrow> result K64_ERR_NOENT (s\<lparr>fs_raw_buffer := um_failed_read env (fs_raw_buffer s)\<rparr>)
                  | Some d \<Rightarrow>
                      (case alloc_fd_file (length d) (s\<lparr>fs_raw_buffer := put_at 0 d (fs_raw_buffer s)\<rparr>) of (fd, s) \<Rightarrow>
                       result (if fd \<ge> 0 then fd else K64_ERR_FULL) s)) s)
      | _ \<Rightarrow> um_answer K64_ERR_INVAL)"

definition io_read_service_call :: "'g um_env \<Rightarrow> k64_service_call_request \<Rightarrow> ('g, call_answer) umop" where
  "io_read_service_call env req s =
     (case (rq_in req, rq_out req) of
        (Some input, Some out_len) \<Rightarrow>
          if length input < 16 \<or> out_len = 0 then um_answer K64_ERR_INVAL s
          else
            let fd = sint (le_dec (bytes_at 0 8 input) :: u64); n = unat (le_dec (bytes_at 8 8 input) :: u64) in
            if out_len < n then um_answer K64_ERR_INVAL s
            else if fd = 0 then (let bs = um_stdin env n s in um_reply (int (length bs)) bs s)
            else case get_fd (word_of_int fd) s of
                None \<Rightarrow> um_answer K64_ERR_BADFD s
              | Some d \<Rightarrow>
                  let desc = current_fds s ! d in
                  if uf_kind desc = K64_USER_FD_PIPE_READ then
                    (case live_pipe (uf_pipe_index desc) s of
                       None \<Rightarrow> um_answer K64_ERR_PIPE s
                     | Some i \<Rightarrow> (case pipe_read n (pipe_table s ! i) of ((r, bs), p) \<Rightarrow> um_reply r bs (set_pipe i (\<lambda>_. p) s)))
                  else if uf_kind desc = K64_USER_FD_FILE then
                    (let count = min n (uf_size desc - uf_offset desc) in
                     um_reply (int count) (bytes_at (uf_offset desc) count (fs_raw_buffer s))
                       (set_fds ((current_fds s)[d := desc\<lparr>uf_offset := uf_offset desc + count\<rparr>]) s))
                  else um_answer K64_ERR_BADFD s
      | _ \<Rightarrow> um_answer K64_ERR_INVAL s)"

definition io_close_service_call :: "k64_service_call_request \<Rightarrow> ('g, call_answer) umop" where
  "io_close_service_call req s =
     (case rq_in req of
        None \<Rightarrow> um_answer K64_ERR_INVAL s
      | Some input \<Rightarrow>
          if length input < 8 then um_answer K64_ERR_INVAL s
          else
            let fd = sint (le_dec (bytes_at 0 8 input) :: u64) in
            if fd < 3 then um_answer K64_ERR_BADFD s
            else case get_fd (word_of_int fd) s of
                None \<Rightarrow> um_answer K64_ERR_BADFD s
              | Some d \<Rightarrow>
                  let desc = current_fds s ! d;
                      s = (if uf_kind desc = K64_USER_FD_PIPE_READ \<or> uf_kind desc = K64_USER_FD_PIPE_WRITE
                           then pipe_drop_ref (uf_pipe_index desc) (uf_kind desc) s else s)
                  in um_answer K64_OK (fd_clear d s))"

text \<open>When only one of the two handles could be had, the pipe is given back but the handle stays.\<close>

definition io_pipe_service_call :: "k64_service_call_request \<Rightarrow> ('g, call_answer) umop" where
  "io_pipe_service_call req s =
     (case rq_out req of
        None \<Rightarrow> um_answer K64_ERR_INVAL s
      | Some out_len \<Rightarrow>
          if out_len < 8 then um_answer K64_ERR_INVAL s
          else case pipe_alloc s of
              (None, s) \<Rightarrow> um_answer K64_ERR_FULL s
            | (Some i, s) \<Rightarrow>
                (case alloc_fd_pipe i K64_USER_FD_PIPE_READ s of (read_fd, s) \<Rightarrow>
                 case alloc_fd_pipe i K64_USER_FD_PIPE_WRITE s of (write_fd, s) \<Rightarrow>
                 if read_fd < 0 \<or> write_fd < 0 then um_answer K64_ERR_FULL (set_pipe i (\<lambda>p. p\<lparr>pp_used := False\<rparr>) s)
                 else um_reply K64_OK (le_enc 4 (word_of_int read_fd :: u32) @ le_enc 4 (word_of_int write_fd :: u32)) s))"

end
