(* ===== verification/Process_Props.thy ===== *)
theory Process_Props
  imports Process Service_Props
begin

text \<open>
  Properties of processes and handles: a pipe is a bounded queue, what handles can reach, and what waiting for
  a child gives.
\<close>

section \<open>A pipe is a bounded queue\<close>

definition pipe_ok :: "k64_user_pipe \<Rightarrow> bool" where
  "pipe_ok p \<longleftrightarrow> length (pp_data p) = K64_USER_PIPE_BUFFER_SIZE \<and> pp_read_pos p < K64_USER_PIPE_BUFFER_SIZE \<and>
     pp_size p \<le> K64_USER_PIPE_BUFFER_SIZE \<and> pp_write_pos p = (pp_read_pos p + pp_size p) mod K64_USER_PIPE_BUFFER_SIZE"

text \<open>The bytes that wait in a pipe, the next one to be read first.\<close>

definition pipe_bytes :: "k64_user_pipe \<Rightarrow> bytes" where
  "pipe_bytes p = map (\<lambda>k. pp_data p ! ((pp_read_pos p + k) mod K64_USER_PIPE_BUFFER_SIZE)) [0..<pp_size p]"

lemma length_pipe_bytes [simp]: "length (pipe_bytes p) = pp_size p"
  by (simp add: pipe_bytes_def)

lemma pipe_size_pos [simp]: "0 < K64_USER_PIPE_BUFFER_SIZE"
  by (simp add: K64_USER_PIPE_BUFFER_SIZE_def)

lemma mod_add_inj_le:
  assumes "(a + k) mod n = (a + j) mod n" and "k \<le> j" and "j < n"
  shows "k = (j :: nat)"
proof -
  have "n dvd (a + j) - (a + k)" using assms(1,2) by (intro mod_eq_dvd_iff_nat [THEN iffD1]) simp_all
  then have "n dvd j - k" by simp
  then show ?thesis using assms(2,3) nat_dvd_not_less [of "j - k" n] by (cases "j = k") auto
qed

lemma mod_add_inj: "(a + k) mod n = (a + j) mod n \<Longrightarrow> k < n \<Longrightarrow> j < n \<Longrightarrow> k = (j :: nat)"
  using mod_add_inj_le [of a k n j] mod_add_inj_le [of a j n k] by (cases "k \<le> j") auto

definition put_byte :: "u8 \<Rightarrow> k64_user_pipe \<Rightarrow> k64_user_pipe" where
  "put_byte b p = p\<lparr>pp_data := (pp_data p)[pp_write_pos p := b], pp_write_pos := (pp_write_pos p + 1) mod K64_USER_PIPE_BUFFER_SIZE, pp_size := pp_size p + 1\<rparr>"

lemma put_byte_ok:
  assumes "pipe_ok p" and "pp_size p < K64_USER_PIPE_BUFFER_SIZE"
  shows "pipe_ok (put_byte b p)" and "pipe_bytes (put_byte b p) = pipe_bytes p @ [b]"
proof -
  let ?N = K64_USER_PIPE_BUFFER_SIZE
  show "pipe_ok (put_byte b p)" using assms by (simp add: pipe_ok_def put_byte_def mod_Suc_eq)
  have w: "pp_write_pos p = (pp_read_pos p + pp_size p) mod ?N" "length (pp_data p) = ?N" using assms(1) by (simp_all add: pipe_ok_def)
  have "(pp_data p)[pp_write_pos p := b] ! ((pp_read_pos p + k) mod ?N) = pp_data p ! ((pp_read_pos p + k) mod ?N)" if "k < pp_size p" for k
    using mod_add_inj [of "pp_read_pos p" k ?N "pp_size p"] that assms(2) w by (metis less_irrefl nth_list_update_neq order.strict_trans)
  then show "pipe_bytes (put_byte b p) = pipe_bytes p @ [b]"
    using w by (simp add: pipe_bytes_def put_byte_def)
qed

lemma pipe_put_size: "pipe_put bs (p\<lparr>pp_size := n\<rparr>) = (pipe_put bs p)\<lparr>pp_size := n\<rparr>"
proof (induction bs arbitrary: p)
  case (Cons b bs)
  let ?p = "p\<lparr>pp_data := (pp_data p)[pp_write_pos p := b], pp_write_pos := (pp_write_pos p + 1) mod K64_USER_PIPE_BUFFER_SIZE\<rparr>"
  have "pipe_put (b # bs) (p\<lparr>pp_size := n\<rparr>) = pipe_put bs (?p\<lparr>pp_size := n\<rparr>)" by (cases p) simp
  then show ?case by (simp only: Cons.IH) simp
qed simp

lemma pipe_put_keeps [simp]:
  "pp_size (pipe_put bs p) = pp_size p" "pp_read_refs (pipe_put bs p) = pp_read_refs p" "pp_write_refs (pipe_put bs p) = pp_write_refs p"
  "pp_used (pipe_put bs p) = pp_used p"
  by (induction bs arbitrary: p) simp_all

lemma pipe_put_ok:
  assumes "pipe_ok p" and "pp_size p + length bs \<le> K64_USER_PIPE_BUFFER_SIZE"
  shows "pipe_ok ((pipe_put bs p)\<lparr>pp_size := pp_size p + length bs\<rparr>) \<and>
    pipe_bytes ((pipe_put bs p)\<lparr>pp_size := pp_size p + length bs\<rparr>) = pipe_bytes p @ bs"
  using assms
proof (induction bs arbitrary: p)
  case (Cons b bs)
  have ok: "pipe_ok (put_byte b p)" "pipe_bytes (put_byte b p) = pipe_bytes p @ [b]"
    using put_byte_ok [of p b] Cons.prems by simp_all
  have step: "(pipe_put (b # bs) p)\<lparr>pp_size := pp_size p + length (b # bs)\<rparr> =
      (pipe_put bs (put_byte b p))\<lparr>pp_size := pp_size (put_byte b p) + length bs\<rparr>"
    by (simp add: put_byte_def flip: pipe_put_size)
  have "pp_size (put_byte b p) + length bs \<le> K64_USER_PIPE_BUFFER_SIZE" using Cons.prems by (simp add: put_byte_def)
  from Cons.IH [OF ok(1) this] show ?case by (simp only: step) (simp add: ok(2))
qed simp

lemma pipe_get_ok:
  assumes "pipe_get n p = (bs, q)" and "pipe_ok p" and "n \<le> pp_size p"
  shows "bs = take n (pipe_bytes p) \<and> q = p\<lparr>pp_read_pos := (pp_read_pos p + n) mod K64_USER_PIPE_BUFFER_SIZE\<rparr>"
proof -
  have "bs = map (\<lambda>k. pp_data p ! ((pp_read_pos p + k) mod K64_USER_PIPE_BUFFER_SIZE)) [0..<n] \<and>
    q = p\<lparr>pp_read_pos := (pp_read_pos p + n) mod K64_USER_PIPE_BUFFER_SIZE\<rparr>"
    if "pipe_get n p = (bs, q)" and "pp_read_pos p < K64_USER_PIPE_BUFFER_SIZE" for n bs q and p :: k64_user_pipe
    using that
  proof (induction n arbitrary: p bs q)
    case (Suc n)
    obtain cs q' where c: "pipe_get n (p\<lparr>pp_read_pos := (pp_read_pos p + 1) mod K64_USER_PIPE_BUFFER_SIZE\<rparr>) = (cs, q')" by fastforce
    have "bs = pp_data p ! pp_read_pos p # cs" "q = q'" using Suc.prems c by simp_all
    moreover have "[0..<Suc n] = 0 # map Suc [0..<n]" by (simp add: map_Suc_upt upt_conv_Cons)
    ultimately show ?case using Suc.IH [OF c] Suc.prems(2) by (simp add: mod_add_left_eq comp_def del: upt_Suc)
  qed simp
  from this [OF assms(1)] assms(2,3) show ?thesis by (simp add: pipe_ok_def pipe_bytes_def take_map)
qed

text \<open>The contract: a queue of at most 4096 bytes; a write takes what there is room for, a read takes what is there.\<close>

definition queue_write :: "bool \<Rightarrow> bytes \<Rightarrow> bytes \<Rightarrow> int \<times> bytes" where
  "queue_write readers bs q =
     (if \<not> readers then (K64_ERR_PIPE, q)
      else if length q = K64_USER_PIPE_BUFFER_SIZE then (K64_ERR_AGAIN, q)
      else let taken = take (K64_USER_PIPE_BUFFER_SIZE - length q) bs in (int (length taken), q @ taken))"

definition queue_read :: "bool \<Rightarrow> nat \<Rightarrow> bytes \<Rightarrow> (int \<times> bytes) \<times> bytes" where
  "queue_read writers n q =
     (if q = [] then (if writers then (K64_ERR_AGAIN, []) else (0, []), [])
      else ((int (length (take n q)), take n q), drop n q))"

lemma pipe_write_queue:
  assumes "pipe_ok p"
  shows "pipe_ok (snd (pipe_write bs p)) \<and> (fst (pipe_write bs p), pipe_bytes (snd (pipe_write bs p))) = queue_write (pp_read_refs p \<noteq> 0) bs (pipe_bytes p)"
proof -
  have "take (min (length bs) (K64_USER_PIPE_BUFFER_SIZE - pp_size p)) bs = take (K64_USER_PIPE_BUFFER_SIZE - pp_size p) bs"
    by (simp add: min_def)
  moreover have "pp_size p \<le> K64_USER_PIPE_BUFFER_SIZE" using assms by (simp add: pipe_ok_def)
  ultimately show ?thesis
    using assms pipe_put_ok [OF assms, of "take (K64_USER_PIPE_BUFFER_SIZE - pp_size p) bs"]
    by (auto simp: pipe_write_def queue_write_def Let_def min.commute)
qed

lemma pipe_read_queue:
  assumes "pipe_ok p"
  shows "pipe_ok (snd (pipe_read n p)) \<and> (fst (pipe_read n p), pipe_bytes (snd (pipe_read n p))) = queue_read (pp_write_refs p \<noteq> 0) n (pipe_bytes p)"
proof (cases "pp_size p = 0")
  case True
  then show ?thesis using assms by (simp add: pipe_read_def queue_read_def pipe_bytes_def)
next
  case False
  define c where "c = min n (pp_size p)"
  obtain bs q where g: "pipe_get c p = (bs, q)" by fastforce
  have q: "bs = take c (pipe_bytes p)" "q = p\<lparr>pp_read_pos := (pp_read_pos p + c) mod K64_USER_PIPE_BUFFER_SIZE\<rparr>"
    using pipe_get_ok [OF g assms] by (simp_all add: c_def)
  have r: "pipe_read n p = ((int c, bs), q\<lparr>pp_size := pp_size p - c\<rparr>)"
    using False g q by (simp add: pipe_read_def c_def Let_def)
  obtain d where d: "pp_size p = c + d" using le_iff_add [of c "pp_size p"] by (auto simp: c_def)
  have "pipe_ok (q\<lparr>pp_size := pp_size p - c\<rparr>)"
    using assms by (simp add: pipe_ok_def mod_add_left_eq d q(2) add.assoc)
  moreover have "pipe_bytes (q\<lparr>pp_size := pp_size p - c\<rparr>) = drop c (pipe_bytes p)"
    by (rule nth_equalityI) (simp_all add: d q(2) pipe_bytes_def mod_add_left_eq add.assoc)
  moreover have "take c (pipe_bytes p) = take n (pipe_bytes p)" "drop c (pipe_bytes p) = drop n (pipe_bytes p)" "length (take n (pipe_bytes p)) = c"
    by (simp_all add: c_def min_def)
  moreover have "pipe_bytes p \<noteq> []" using False by (metis length_0_conv length_pipe_bytes)
  ultimately show ?thesis using q(1) by (simp add: r queue_read_def)
qed

text \<open>Sequences of reads and writes, on the pipe and on the queue; the results are collected in order.\<close>

datatype pipe_op = Pipe_Write bytes | Pipe_Read nat

fun pipe_run :: "pipe_op list \<Rightarrow> k64_user_pipe \<Rightarrow> (int \<times> bytes) list \<times> k64_user_pipe" where
  "pipe_run [] p = ([], p)"
| "pipe_run (Pipe_Write bs # ops) p = (case pipe_write bs p of (r, q) \<Rightarrow> case pipe_run ops q of (rs, q) \<Rightarrow> ((r, []) # rs, q))"
| "pipe_run (Pipe_Read n # ops) p = (case pipe_read n p of (r, q) \<Rightarrow> case pipe_run ops q of (rs, q) \<Rightarrow> (r # rs, q))"

fun queue_run :: "bool \<Rightarrow> bool \<Rightarrow> pipe_op list \<Rightarrow> bytes \<Rightarrow> (int \<times> bytes) list \<times> bytes" where
  "queue_run readers writers [] q = ([], q)"
| "queue_run readers writers (Pipe_Write bs # ops) q =
     (case queue_write readers bs q of (r, q) \<Rightarrow> case queue_run readers writers ops q of (rs, q) \<Rightarrow> ((r, []) # rs, q))"
| "queue_run readers writers (Pipe_Read n # ops) q =
     (case queue_read writers n q of (r, q) \<Rightarrow> case queue_run readers writers ops q of (rs, q) \<Rightarrow> (r # rs, q))"

lemma pipe_get_keeps:
  "pp_size (snd (pipe_get n p)) = pp_size p \<and> pp_read_refs (snd (pipe_get n p)) = pp_read_refs p \<and>
   pp_write_refs (snd (pipe_get n p)) = pp_write_refs p"
  by (induction n arbitrary: p) (simp_all add: case_prod_beta)

lemma pipe_refs [simp]:
  "pp_read_refs (snd (pipe_write bs p)) = pp_read_refs p" "pp_write_refs (snd (pipe_write bs p)) = pp_write_refs p"
  "pp_read_refs (snd (pipe_read n p)) = pp_read_refs p" "pp_write_refs (snd (pipe_read n p)) = pp_write_refs p"
  using pipe_get_keeps [of "min n (pp_size p)" p] by (auto simp: pipe_write_def pipe_read_def Let_def split: prod.splits)

lemma pipe_run_queue:
  "pipe_ok p \<Longrightarrow> pipe_ok (snd (pipe_run ops p)) \<and>
   (fst (pipe_run ops p), pipe_bytes (snd (pipe_run ops p))) = queue_run (pp_read_refs p \<noteq> 0) (pp_write_refs p \<noteq> 0) ops (pipe_bytes p)"
proof (induction ops arbitrary: p)
  case (Cons a ops)
  show ?case
  proof (cases a)
    case (Pipe_Write bs)
    obtain r q where q: "pipe_write bs p = (r, q)" by fastforce
    then have "pipe_ok q" "queue_write (pp_read_refs p \<noteq> 0) bs (pipe_bytes p) = (r, pipe_bytes q)"
      "pp_read_refs q = pp_read_refs p" "pp_write_refs q = pp_write_refs p"
      using pipe_write_queue [OF Cons.prems, of bs] pipe_refs(1,2) [of bs p] by simp_all
    then show ?thesis using Cons.IH [of q] q Pipe_Write by (auto split: prod.splits)
  next
    case (Pipe_Read n)
    obtain r q where q: "pipe_read n p = (r, q)" by fastforce
    then have "pipe_ok q" "queue_read (pp_write_refs p \<noteq> 0) n (pipe_bytes p) = (r, pipe_bytes q)"
      "pp_read_refs q = pp_read_refs p" "pp_write_refs q = pp_write_refs p"
      using pipe_read_queue [OF Cons.prems, of n] pipe_refs(3,4) [of n p] by simp_all
    then show ?thesis using Cons.IH [of q] q Pipe_Read by (auto split: prod.splits)
  qed
qed simp

text \<open>C33: A pipe is a first-in first-out queue of at most 4096 bytes. Whatever sequence of reads and writes runs
  on the ring buffer of a well-formed pipe, each gives the result that it gives on the queue of the waiting bytes: a write takes the bytes
  there is room for, a read the bytes that are there in the order they were written, a full or empty pipe asks
  to try again, a pipe without readers breaks and one without writers ends; the positions stay inside
  the buffer.\<close>

theorem pipe_refines_queue:
  assumes "pipe_ok p"
  shows "pipe_ok (snd (pipe_run ops p)) \<and>
    (fst (pipe_run ops p), pipe_bytes (snd (pipe_run ops p))) = queue_run (pp_read_refs p \<noteq> 0) (pp_write_refs p \<noteq> 0) ops (pipe_bytes p)"
  using assms by (rule pipe_run_queue)

definition fresh_pipe :: k64_user_pipe where
  "fresh_pipe = \<lparr>pp_used = True, pp_data = replicate K64_USER_PIPE_BUFFER_SIZE 0, pp_read_pos = 0, pp_write_pos = 0, pp_size = 0, pp_read_refs = 1, pp_write_refs = 1\<rparr>"

theorem pipe_refines_queue_witness:
  "fst (pipe_run [Pipe_Write [1, 2, 3], Pipe_Read 2, Pipe_Read 2, Pipe_Read 1] fresh_pipe) = [(3, []), (2, [1, 2]), (1, [3]), (K64_ERR_AGAIN, [])]"
proof -
  have "pipe_ok fresh_pipe" by (simp add: pipe_ok_def fresh_pipe_def)
  from pipe_refines_queue [OF this, of "[Pipe_Write [1, 2, 3], Pipe_Read 2, Pipe_Read 2, Pipe_Read 1]"]
  show ?thesis by (simp add: fresh_pipe_def pipe_bytes_def queue_write_def queue_read_def K64_USER_PIPE_BUFFER_SIZE_def)
qed

section \<open>The tables of user mode\<close>

definition pids_ok :: "k64_user_process list \<Rightarrow> u64 \<Rightarrow> bool" where
  "pids_ok ps nxt \<longleftrightarrow> (\<forall>i < length ps. up_used (ps ! i) \<longrightarrow> up_pid (ps ! i) < nxt) \<and>
     (\<forall>i < length ps. \<forall>j < length ps. up_used (ps ! i) \<and> up_used (ps ! j) \<and> up_pid (ps ! i) = up_pid (ps ! j) \<longrightarrow> i = j)"

definition um_ok :: "'g usermode \<Rightarrow> bool" where
  "um_ok s \<longleftrightarrow> length (process_table s) = K64_USER_PROCESS_MAX \<and> list_all (\<lambda>p. length (up_fds p) = K64_USER_FD_MAX) (process_table s) \<and>
     length (cx_fallback_fds (active_ctx s)) = K64_USER_FD_MAX \<and> length (pipe_table s) = K64_USER_PIPE_MAX \<and> list_all pipe_ok (pipe_table s) \<and>
     pids_ok (process_table s) (um_next_pid s)"

lemma um_okD:
  assumes "um_ok s"
  shows "length (process_table s) = K64_USER_PROCESS_MAX" "i < K64_USER_PROCESS_MAX \<Longrightarrow> length (up_fds (process_table s ! i)) = K64_USER_FD_MAX"
    "length (cx_fallback_fds (active_ctx s)) = K64_USER_FD_MAX" "length (pipe_table s) = K64_USER_PIPE_MAX"
    "k < K64_USER_PIPE_MAX \<Longrightarrow> pipe_ok (pipe_table s ! k)" "pids_ok (process_table s) (um_next_pid s)"
  using assms by (simp_all add: um_ok_def list_all_length)

lemma list_all_upd: "list_all P xs \<Longrightarrow> P x \<Longrightarrow> list_all P (xs[i := x])"
  using set_update_subset_insert [of xs i x] by (auto simp: list_all_iff)

lemma pids_ok_update:
  assumes "pids_ok ps nxt" and "up_used q \<Longrightarrow> up_used (ps ! i) \<and> up_pid q = up_pid (ps ! i)"
  shows "pids_ok (ps[i := q]) nxt"
proof (cases "i < length ps")
  case True
  have *: "up_used (ps[i := q] ! k) \<Longrightarrow> up_used (ps ! k) \<and> up_pid (ps[i := q] ! k) = up_pid (ps ! k)" if "k < length ps" for k
    using assms(2) that True by (cases "k = i") simp_all
  show ?thesis unfolding pids_ok_def
  proof (intro conjI allI impI)
    fix k assume "k < length (ps[i := q])" "up_used (ps[i := q] ! k)"
    then show "up_pid (ps[i := q] ! k) < nxt" using * [of k] assms(1) by (simp add: pids_ok_def)
  next
    fix k j assume "k < length (ps[i := q])" "j < length (ps[i := q])"
      "up_used (ps[i := q] ! k) \<and> up_used (ps[i := q] ! j) \<and> up_pid (ps[i := q] ! k) = up_pid (ps[i := q] ! j)"
    then show "k = j" using * [of k] * [of j] assms(1) by (simp add: pids_ok_def)
  qed
qed (use assms(1) in \<open>simp add: list_update_beyond\<close>)

lemma pids_ok_new:
  assumes "pids_ok ps nxt" and "\<And>k. k < length ps \<Longrightarrow> k \<noteq> i \<Longrightarrow> up_used (ps ! k) \<Longrightarrow> up_pid (ps ! k) \<noteq> up_pid q"
    and "nxt \<le> nxt'" and "up_pid q < nxt'"
  shows "pids_ok (ps[i := q]) nxt'"
  unfolding pids_ok_def
proof (intro conjI allI impI)
  fix k assume k: "k < length (ps[i := q])" "up_used (ps[i := q] ! k)"
  show "up_pid (ps[i := q] ! k) < nxt'"
  proof (cases "k = i")
    case False
    then have "up_pid (ps ! k) < nxt" using k assms(1) by (simp add: pids_ok_def)
    then show ?thesis using assms(3) False by simp
  qed (use k assms(4) in simp)
next
  fix k j assume kj: "k < length (ps[i := q])" "j < length (ps[i := q])"
    "up_used (ps[i := q] ! k) \<and> up_used (ps[i := q] ! j) \<and> up_pid (ps[i := q] ! k) = up_pid (ps[i := q] ! j)"
  show "k = j"
  proof (cases "k = i \<or> j = i")
    case True
    then show ?thesis using kj assms(2) [of k] assms(2) [of j] by (cases "k = i"; cases "j = i") auto
  next
    case False
    then show ?thesis using kj assms(1) by (simp add: pids_ok_def)
  qed
qed

lemma set_process_ok:
  assumes "um_ok s" and "i < K64_USER_PROCESS_MAX"
    and "length (up_fds (f (process_table s ! i))) = K64_USER_FD_MAX"
    and "up_used (f (process_table s ! i)) \<Longrightarrow> up_used (process_table s ! i) \<and> up_pid (f (process_table s ! i)) = up_pid (process_table s ! i)"
  shows "um_ok (set_process i f s)"
  using assms pids_ok_update [of "process_table s" "um_next_pid s" "f (process_table s ! i)" i]
  by (simp add: um_ok_def set_process_def list_all_upd)

lemma set_pipe_ok: "um_ok s \<Longrightarrow> pipe_ok (f (pipe_table s ! i)) \<Longrightarrow> um_ok (set_pipe i f s)"
  by (simp add: um_ok_def set_pipe_def list_all_upd)

lemma live_slot_Some: "live_slot i s = Some k \<Longrightarrow> k < length (process_table s) \<and> up_used (process_table s ! k)"
  by (auto simp: live_slot_def split: option.splits if_splits)

lemma process_finish_ok: "um_ok s \<Longrightarrow> um_ok (process_finish i st c s)"
  using live_slot_Some [of i s] by (auto simp: process_finish_def um_okD intro!: set_process_ok split: option.splits)

lemma process_reap_ok: "um_ok s \<Longrightarrow> um_ok (process_reap i s)"
  using live_slot_Some [of i s] by (auto simp: process_reap_def um_okD intro!: set_process_ok split: option.splits)

lemma current_fds_length: "um_ok s \<Longrightarrow> length (current_fds s) = K64_USER_FD_MAX"
  using live_slot_Some [of "cx_process_index (active_ctx s)" s]
  by (auto simp: current_fds_def current_slot_def um_okD split: option.splits)

lemma set_fds_ok: "um_ok s \<Longrightarrow> length ds = K64_USER_FD_MAX \<Longrightarrow> um_ok (set_fds ds s)"
  using live_slot_Some [of "cx_process_index (active_ctx s)" s]
  by (auto simp: set_fds_def current_slot_def um_okD um_ok_def [of "_\<lparr>active_ctx := _\<rparr>"] intro!: set_process_ok split: option.splits)
     (simp_all add: um_ok_def)

lemma alloc_fd_ok: "um_ok s \<Longrightarrow> um_ok (snd (alloc_fd d s))"
  by (auto simp: alloc_fd_def current_fds_length intro!: set_fds_ok split: option.splits)

lemma ctx_ok: "um_ok s \<Longrightarrow> length (cx_fallback_fds c) = K64_USER_FD_MAX \<Longrightarrow> um_ok (s\<lparr>active_ctx := c\<rparr>)"
  by (simp add: um_ok_def)

lemma other_fields_ok:
  "um_ok (s\<lparr>fs_raw_buffer := b\<rparr>) = um_ok s" "um_ok (s\<lparr>um_user := u\<rparr>) = um_ok s" "um_ok (s\<lparr>next_process_personality := r\<rparr>) = um_ok s"
  "um_ok (s\<lparr>spawn_ctx := q\<rparr>) = um_ok s"
  by (simp_all add: um_ok_def)

lemma drop_ref_ok: "pipe_ok p \<Longrightarrow> pipe_ok (drop_ref k p)"
  by (auto simp: drop_ref_def pipe_ok_def Let_def)

lemma live_pipe_Some: "live_pipe i s = Some k \<Longrightarrow> k < K64_USER_PIPE_MAX \<and> pp_used (pipe_table s ! k)"
  by (auto simp: live_pipe_def split: if_splits)

lemma pipe_drop_ref_ok: "um_ok s \<Longrightarrow> um_ok (pipe_drop_ref i k s)"
  using live_pipe_Some [of i s] by (auto simp: pipe_drop_ref_def um_okD intro!: set_pipe_ok drop_ref_ok split: option.splits)

lemma fd_clear_ok: "um_ok s \<Longrightarrow> um_ok (fd_clear i s)"
  by (simp add: fd_clear_def set_fds_ok current_fds_length)

lemma pipe_alloc_ok: "um_ok s \<Longrightarrow> um_ok (snd (pipe_alloc s))"
  using um_okD(5) [of s] index_of_Some [of "\<lambda>p. \<not> pp_used p" "pipe_table s"]
  by (auto simp: pipe_alloc_def um_okD(4) pipe_ok_def intro!: set_pipe_ok split: option.splits)

lemma process_slot_Some:
  assumes "process_slot pid s = Some i"
  shows "i < length (process_table s) \<and> (up_used (process_table s ! i) \<longrightarrow> up_pid (process_table s ! i) = pid) \<and>
    (\<not> up_used (process_table s ! i) \<longrightarrow> pid = 0 \<or> (\<forall>k < length (process_table s). up_used (process_table s ! k) \<longrightarrow> up_pid (process_table s ! k) \<noteq> pid))"
proof (cases "pid \<noteq> 0 \<and> index_of (is_process pid) (process_table s) \<noteq> None")
  case True
  then have "index_of (is_process pid) (process_table s) = Some i" using assms by (auto simp: process_slot_def)
  then show ?thesis using index_of_Some [of "is_process pid" "process_table s" i] by (auto simp: is_process_def)
next
  case False
  then have "index_of (\<lambda>p. \<not> up_used p) (process_table s) = Some i" using assms by (auto simp: process_slot_def split: option.splits if_splits)
  moreover have "pid = 0 \<or> (\<forall>k < length (process_table s). up_used (process_table s ! k) \<longrightarrow> up_pid (process_table s ! k) \<noteq> pid)"
    using False by (auto simp: index_of_None is_process_def set_conv_nth)
  ultimately show ?thesis using index_of_Some [of "\<lambda>p. \<not> up_used p" "process_table s" i] by auto
qed

text \<open>The identifiers have not run out when a process is entered.\<close>

definition pid_left :: "u64 \<Rightarrow> 'g usermode \<Rightarrow> bool" where
  "pid_left pid s \<longleftrightarrow> um_next_pid s + 1 \<noteq> 0 \<and> pid + 1 \<noteq> 0"

lemma word_less_Suc: "(w :: u64) + 1 \<noteq> 0 \<Longrightarrow> w < w + 1"
  using unatSuc [of w] by (simp add: word_less_nat_alt add.commute)

lemma process_alloc_ok:
  assumes "um_ok s" and "process_alloc path e c parent pid s = (Some i, t)" and "pid_left pid s"
  shows "um_ok t"
proof -
  have slot: "process_slot pid s = Some i" using assms(2) by (auto simp: process_alloc_def Let_def split: option.splits prod.splits if_splits)
  note sl = process_slot_Some [OF slot]
  define pid' where "pid' = (if pid \<noteq> 0 then pid else um_next_pid s)"
  define n1 where "n1 = (if pid \<noteq> 0 then um_next_pid s else um_next_pid s + 1)"
  define nxt where "nxt = (if pid' \<ge> n1 then pid' + 1 else n1)"
  obtain q where q: "process_table t = (process_table s)[i := q]" "up_pid q = pid'" "length (up_fds q) = K64_USER_FD_MAX" "um_next_pid t = nxt"
    "pipe_table t = pipe_table s" "active_ctx t = active_ctx s"
    using assms(2) slot
    by (auto simp: process_alloc_def Let_def k64_usermode_next_pid_def set_process_def pid'_def n1_def nxt_def split: prod.splits if_splits)
  have less: "um_next_pid s < um_next_pid s + 1" "pid < pid + 1" using assms(3) by (simp_all add: pid_left_def word_less_Suc)
  have pids: "pids_ok (process_table s) (um_next_pid s)" using assms(1) by (rule um_okD)
  have "pids_ok ((process_table s)[i := q]) nxt"
  proof (rule pids_ok_new [OF pids])
    show "um_next_pid s \<le> nxt" "up_pid q < nxt"
      using less by (auto simp: q(2) nxt_def n1_def pid'_def)
    fix k assume k: "k < length (process_table s)" "k \<noteq> i" "up_used (process_table s ! k)"
    have lt: "up_pid (process_table s ! k) < um_next_pid s" using pids k by (simp add: pids_ok_def)
    show "up_pid (process_table s ! k) \<noteq> up_pid q"
    proof (cases "pid = 0")
      case True
      then show ?thesis using lt by (auto simp: q(2) pid'_def)
    next
      case False
      show ?thesis
      proof (cases "up_used (process_table s ! i)")
        case True
        then show ?thesis using sl pids k False by (auto simp: pids_ok_def q(2) pid'_def)
      next
        case unused: False
        then show ?thesis using sl k False by (auto simp: q(2) pid'_def)
      qed
    qed
  qed
  then show ?thesis using assms(1) q by (simp add: um_ok_def list_all_upd)
qed

section \<open>Operations keep the tables\<close>

definition um_keeps :: "('g, 'a) umop \<Rightarrow> bool" where
  "um_keeps m \<longleftrightarrow> (\<forall>s. um_ok s \<longrightarrow> um_ok (snd (m s)))"

lemma um_keepsD: "um_keeps m \<Longrightarrow> um_ok s \<Longrightarrow> m s = (r, t) \<Longrightarrow> um_ok t"
  by (auto simp: um_keeps_def)

lemma um_keeps_basic: "um_keeps (ret a)" "um_keeps (um_answer e)" "um_keeps (um_reply e bs)"
  by (simp_all add: um_keeps_def ret_def um_answer_def um_reply_def)

lemma um_keeps_bind: "um_keeps m \<Longrightarrow> (\<And>a. um_keeps (f a)) \<Longrightarrow> um_keeps (bind m f)"
  by (auto simp: um_keeps_def bind_def split: prod.splits res.splits)

lemma um_keeps_attempt: "um_keeps m \<Longrightarrow> um_keeps (attempt m)"
  by (auto simp: um_keeps_def attempt_def split: prod.splits res.splits)

lemma um_keeps_in_bounds: "um_keeps m \<Longrightarrow> um_keeps (in_bounds c m)"
  by (simp add: um_keeps_def in_bounds_def)

lemma um_keeps_on_umfs: "um_keeps (on_umfs m)"
  by (auto simp: um_keeps_def on_umfs_def on_ufs_def other_fields_ok split: prod.splits)

lemma reply_state [simp]: "snd (um_reply e bs s) = s" "snd (um_answer e s) = s"
  by (simp_all add: um_reply_def um_answer_def ret_def)

lemma alloc_fd_pipe_ok: "um_ok s \<Longrightarrow> um_ok (snd (alloc_fd_pipe i k s))" and alloc_fd_file_ok: "um_ok s \<Longrightarrow> um_ok (snd (alloc_fd_file n s))"
  by (simp_all add: alloc_fd_pipe_def alloc_fd_file_def alloc_fd_ok)

lemma proc_calls_keep: "um_keeps (proc_info_service_call req)" "um_keeps (proc_exit_service_call req)" "um_keeps (proc_getpid_service_call req)"
proof -
  show "um_keeps (proc_info_service_call req)"
    by (auto simp: um_keeps_def proc_info_service_call_def Let_def split: option.splits)
  show "um_keeps (proc_getpid_service_call req)"
    by (auto simp: um_keeps_def proc_getpid_service_call_def Let_def split: option.splits)
  show "um_keeps (proc_exit_service_call req)"
    by (auto simp: um_keeps_def proc_exit_service_call_def Let_def um_okD(3) intro!: process_finish_ok ctx_ok split: option.splits)
qed

lemma pipe_write_keeps: "um_ok s \<Longrightarrow> live_pipe k s = Some i \<Longrightarrow> um_ok (set_pipe i (\<lambda>_. snd (pipe_write bs (pipe_table s ! i))) s)"
  using live_pipe_Some [of k s i] pipe_write_queue [OF um_okD(5), of s i bs] by (intro set_pipe_ok) auto

lemma pipe_read_keeps: "um_ok s \<Longrightarrow> live_pipe k s = Some i \<Longrightarrow> um_ok (set_pipe i (\<lambda>_. snd (pipe_read n (pipe_table s ! i))) s)"
  using live_pipe_Some [of k s i] pipe_read_queue [OF um_okD(5), of s i n] by (intro set_pipe_ok) auto

lemma io_write_keeps: "um_keeps (io_write_service_call req)"
  using pipe_write_keeps by (auto simp: um_keeps_def io_write_service_call_def Let_def in_bounds_def case_prod_beta split: option.splits)

lemma io_read_keeps: "um_keeps (io_read_service_call env req)"
  unfolding um_keeps_def
  using pipe_read_keeps
  by (auto simp: io_read_service_call_def Let_def case_prod_beta current_fds_length intro!: set_fds_ok split: option.splits)

lemma io_close_keeps: "um_keeps (io_close_service_call req)"
  by (auto simp: um_keeps_def io_close_service_call_def Let_def intro!: fd_clear_ok pipe_drop_ref_ok split: option.splits)

lemma io_pipe_keeps: "um_keeps (io_pipe_service_call req)"
proof (unfold um_keeps_def, intro allI impI)
  fix s :: "'a usermode" assume ok: "um_ok s"
  obtain i s1 where a: "pipe_alloc s = (i, s1)" by fastforce
  have ok1: "um_ok s1" using pipe_alloc_ok [OF ok] a by simp
  have "um_ok (snd (io_pipe_service_call req s))" if "i = Some k" for k
  proof -
    obtain rfd s2 where r: "alloc_fd_pipe k K64_USER_FD_PIPE_READ s1 = (rfd, s2)" by fastforce
    obtain wfd s3 where w: "alloc_fd_pipe k K64_USER_FD_PIPE_WRITE s2 = (wfd, s3)" by fastforce
    have "um_ok s2" using alloc_fd_pipe_ok [OF ok1, of k K64_USER_FD_PIPE_READ] r by simp
    then have ok3: "um_ok s3" using alloc_fd_pipe_ok [of s2 k K64_USER_FD_PIPE_WRITE] w by simp
    have "index_of (\<lambda>p. \<not> pp_used p) (pipe_table s) = Some k"
      using a that by (auto simp: pipe_alloc_def split: option.splits)
    then have "k < K64_USER_PIPE_MAX" using index_of_Some [of _ "pipe_table s" k] um_okD(4) [OF ok] by auto
    then have "pipe_ok (pipe_table s3 ! k)" using um_okD(5) [OF ok3] by simp
    then have "um_ok (set_pipe k (\<lambda>p. p\<lparr>pp_used := False\<rparr>) s3)" by (intro set_pipe_ok [OF ok3]) (simp add: pipe_ok_def)
    then show ?thesis using a r w that ok ok3 by (auto simp: io_pipe_service_call_def split: option.splits)
  qed
  then show "um_ok (snd (io_pipe_service_call req s))"
    using a ok ok1 by (cases i) (auto simp: io_pipe_service_call_def split: option.splits)
qed

lemma io_open_keeps: "um_keeps (io_open_service_call env req)"
proof -
  have inner: "um_keeps (\<lambda>s. case d of None \<Rightarrow> um_reply e1 b1 (s\<lparr>fs_raw_buffer := um_failed_read env (fs_raw_buffer s)\<rparr>)
      | Some d \<Rightarrow> (case alloc_fd_file (length d) (s\<lparr>fs_raw_buffer := put_at 0 d (fs_raw_buffer s)\<rparr>) of (fd, s) \<Rightarrow> um_reply e2 (f fd) s))" for d e1 b1 e2 f
    by (auto simp: um_keeps_def other_fields_ok case_prod_beta intro!: alloc_fd_file_ok split: option.splits)
  have outer: "um_keeps (\<lambda>s. case st of None \<Rightarrow> m1 s | Some st \<Rightarrow> if c st s then m2 s else m3 s)"
    if "um_keeps m1" "um_keeps m2" "um_keeps m3" for st :: "k64_fs_stat option" and m1 m2 m3 :: "('a, call_answer) umop" and c
    using that by (auto simp: um_keeps_def split: option.splits)
  show ?thesis
    unfolding io_open_service_call_def Let_def
    by (auto intro!: um_keeps_bind um_keeps_attempt um_keeps_on_umfs outer inner um_keeps_basic split: option.splits)
qed

lemma process_alloc_None: "process_alloc path e c parent pid s = (None, t) \<Longrightarrow> t = s"
  by (auto simp: process_alloc_def Let_def split: option.splits prod.splits if_splits)

lemma process_alloc_slot: "process_alloc path e c parent pid s = (Some i, t) \<Longrightarrow> i < length (process_table s)"
  using process_slot_Some [of pid s i] by (auto simp: process_alloc_def Let_def split: option.splits prod.splits if_splits)

lemma process_reserve_ok:
  assumes "um_ok s" and "pid_left pid s"
  shows "um_ok (snd (process_reserve path parent pid task s))"
proof -
  obtain i t where a: "process_alloc path 0 0 parent pid s = (i, t)" by fastforce
  show ?thesis
  proof (cases i)
    case None
    then show ?thesis using a assms(1) process_alloc_None [of path 0 0 parent pid s t] by (simp add: process_reserve_def)
  next
    case (Some k)
    then have ok: "um_ok t" and k: "k < K64_USER_PROCESS_MAX"
      using a process_alloc_ok [OF assms(1) _ assms(2)] process_alloc_slot [of path 0 0 parent pid s k t] um_okD(1) [OF assms(1)] by auto
    then have "um_ok (set_process k (\<lambda>p. p\<lparr>up_task_id := task\<rparr>) t)" using um_okD(2) [OF ok] by (intro set_process_ok) auto
    then show ?thesis using a Some by (simp add: process_reserve_def)
  qed
qed

text \<open>Identifiers below a bound that no system reaches.\<close>

definition few_pids :: "'g usermode \<Rightarrow> bool" where
  "few_pids s \<longleftrightarrow> um_next_pid s < 0x8000000000000000"

lemma few_pids_left:
  "um_next_pid s < 0x8000000000000000 \<Longrightarrow> um_next_pid s + 1 \<noteq> 0 \<and> um_next_pid s + 1 + 1 \<noteq> 0 \<and> um_next_pid s < um_next_pid s + 1"
proof -
  assume a: "um_next_pid s < 0x8000000000000000"
  have one: "w + 1 \<noteq> 0" if "unat w < 2 ^ 63 + 1" for w :: u64
  proof
    assume "w + 1 = 0"
    then have "w = - 1" by (simp add: eq_neg_iff_add_eq_0)
    then have "unat w = 2 ^ 64 - 1" by (simp add: unsigned_minus_1_eq_mask mask_eq_exp_minus_1)
    then show False using that by simp
  qed
  have u: "unat (um_next_pid s) < 2 ^ 63" using a by (simp add: word_less_nat_alt)
  then have n: "um_next_pid s + 1 \<noteq> 0" by (intro one) simp
  then have "unat (um_next_pid s + 1) < 2 ^ 63 + 1" using u unatSuc [of "um_next_pid s"] by (simp add: add.commute)
  then show ?thesis using n one word_less_Suc by blast
qed

lemma next_pid_ok: "um_ok s \<Longrightarrow> um_next_pid s < n \<Longrightarrow> um_ok (s\<lparr>um_next_pid := n\<rparr>)"
  by (auto simp: um_ok_def pids_ok_def)

lemma queue_spawn_ok:
  assumes "um_ok s" and "few_pids s"
  shows "um_ok (snd (queue_spawn path args s))"
proof -
  note left = few_pids_left [OF assms(2) [unfolded few_pids_def]]
  have "um_ok (snd (process_reserve p parent (um_next_pid s) 0 (s\<lparr>um_next_pid := um_next_pid s + 1, spawn_ctx := q\<rparr>)))" for p parent q
    using next_pid_ok [OF assms(1)] left by (intro process_reserve_ok) (auto simp: other_fields_ok pid_left_def)
  then show ?thesis
    using assms(1) unfolding queue_spawn_def k64_usermode_next_pid_def Let_def
    by (auto simp: other_fields_ok split: option.splits prod.splits) (metis snd_conv)+
qed

lemma clear_spawn_ctx_ok: "um_ok s \<Longrightarrow> um_ok (clear_spawn_ctx pid s)"
  by (simp add: clear_spawn_ctx_def other_fields_ok split: option.splits)

lemma with_saved_ctx_ok: "um_ok s \<Longrightarrow> um_ok (snd (f s)) \<Longrightarrow> um_ok (snd (with_saved_ctx f s))"
  using um_okD(3) [of s] by (auto simp: with_saved_ctx_def case_prod_beta intro!: ctx_ok)

lemma run_child_ok:
  assumes "um_ok s" and "\<And>p a. um_ok (snd (um_run env p a parent pid s))"
  shows "um_ok (snd (run_reserved_child env pid parent s))"
proof -
  have "um_ok (snd (with_saved_ctx (um_run env p a parent pid) s))" for p a
    using assms by (intro with_saved_ctx_ok)
  then show ?thesis using assms(1)
    unfolding run_reserved_child_def Let_def case_prod_beta
    by (auto intro!: clear_spawn_ctx_ok process_finish_ok split: option.splits)
qed

lemma proc_wait_ok:
  assumes "um_ok s" and "\<And>p a parent pid. um_ok (snd (um_run env p a parent pid s))"
  shows "um_ok (snd (proc_wait_service_call env req s))"
  using assms(1) run_child_ok [OF assms]
  by (auto simp: proc_wait_service_call_def Let_def reap_child_def case_prod_beta process_reap_ok split: option.splits)

lemma ready_child_ok:
  assumes "um_ok s" and "\<And>p a parent pid. um_ok (snd (um_run env p a parent pid s))"
  shows "um_ok (snd (run_ready_child_for_parent env parent s))"
  using assms(1) run_child_ok [OF assms] by (auto simp: run_ready_child_for_parent_def split: option.splits)

lemma background_ok:
  assumes "um_ok s" and "\<And>p a parent pid. um_ok (snd (um_run env p a parent pid s))"
  shows "um_ok (k64_usermode_poll_background env s)"
  using assms(1) ready_child_ok [OF assms] by (simp add: k64_usermode_poll_background_def)

lemma nested_ok:
  assumes "um_ok s" and "\<And>p a parent pid. um_ok (snd (um_run env p a parent pid s))"
  shows "um_ok (snd (k64_usermode_execute_nested_path_args env path args s))"
  using assms by (simp add: k64_usermode_execute_nested_path_args_def with_saved_ctx_ok)

lemma proc_spawn_ok:
  assumes "um_ok s" and "few_pids s"
  shows "um_ok (snd (proc_spawn_service_call req s))"
proof -
  have spawn: "um_ok t" if "queue_spawn p a (s\<lparr>um_user := u\<rparr>) = (x, t)" for p a u x t
    using assms that queue_spawn_ok [of "s\<lparr>um_user := u\<rparr>" p a] by (simp add: other_fields_ok few_pids_def)
  let ?m = "k64_fs_stat_op (Some (array_str (the (rq_in req))))"
  obtain r0 u where "on_ufs ?m (um_user s) = (r0, u)" by fastforce
  then obtain r where fs: "attempt (on_umfs ?m) s = (r, s\<lparr>um_user := u\<rparr>)"
    by (cases r0) (simp_all add: on_umfs_def attempt_def)
  show ?thesis
    using assms(1) spawn fs
    by (auto simp: proc_spawn_service_call_def bind_def in_bounds_def other_fields_ok case_prod_beta split: option.splits prod.splits res.splits)
qed

lemma ctx_clear_ok: "um_ok s \<Longrightarrow> um_ok (ctx_clear s)"
  unfolding ctx_clear_def by (intro ctx_ok) simp_all

lemma activate_ok: "um_ok s \<Longrightarrow> um_ok (activate_process i s)"
  unfolding activate_process_def Let_def by (intro ctx_ok ctx_clear_ok) (simp_all add: ctx_clear_def)

lemma heap_ok: "um_ok s \<Longrightarrow> i < K64_USER_PROCESS_MAX \<Longrightarrow> um_ok (snd (prepare_linux_heap env i s))"
  using set_process_ok [of s i "\<lambda>p. p\<lparr>up_linux_brk := K64_LINUX_BRK_BASE\<rparr>"] um_okD(2) [of s i]
  by (auto simp: prepare_linux_heap_def Let_def)

lemma leave_ok: "um_ok s \<Longrightarrow> um_ok (leave_process i r path parent pid s)"
  using um_okD(3) [of s] by (auto simp: leave_process_def Let_def intro!: process_reap_ok process_finish_ok ctx_ok)

lemma execute_ok:
  assumes "um_ok s" and "pid_left pid s"
    and enter: "\<And>i t u. process_alloc path e c parent pid s = (Some i, t) \<Longrightarrow> prepare_linux_heap env i (activate_process i t) = (True, u) \<Longrightarrow>
      um_ok u \<Longrightarrow> um_ok (snd (um_enter env c st e u))"
  shows "um_ok (snd (k64_usermode_execute_named_ex env pr c e st path parent pid s))"
proof -
  obtain i t where a: "process_alloc path e c parent pid s = (i, t)" by fastforce
  show ?thesis
  proof (cases i)
    case None
    then show ?thesis using a assms(1) process_alloc_None [of path e c parent pid s t] by (simp add: k64_usermode_execute_named_ex_def)
  next
    case (Some k)
    then have ok: "um_ok t" and k: "k < K64_USER_PROCESS_MAX"
      using a process_alloc_ok [OF assms(1) _ assms(2)] process_alloc_slot [of path e c parent pid s k t] um_okD(1) [OF assms(1)] by auto
    obtain b u where h: "prepare_linux_heap env k (activate_process k t) = (b, u)" by fastforce
    have u: "um_ok u" using heap_ok [OF activate_ok [OF ok, of k] k, of env] h by simp
    obtain r v where v: "um_enter env c st e u = (r, v)" by fastforce
    have "um_ok v" if b using enter [of k t u] a Some h u v that by simp
    then show ?thesis
      using a Some h v u assms(1) by (cases b) (simp_all add: k64_usermode_execute_named_ex_def leave_ok process_finish_ok ctx_clear_ok)
  qed
qed

section \<open>Reachable states\<close>

definition no_process :: k64_user_process where
  "no_process = \<lparr>up_used = False, up_pid = 0, up_parent_pid = 0, up_task_id = 0, up_state = K64_USER_PROCESS_EMPTY, up_exit_code = 0, up_entry = 0, up_cr3 = 0,
     up_start_tick = 0, up_end_tick = 0, up_fault_vector = 0, up_fault_rip = 0, up_real_uid = 0, up_effective_uid = 0, up_real_gid = 0, up_effective_gid = 0,
     up_personality = K64_PERSONALITY_NATIVE, up_linux_brk = 0, up_linux_mmap_next = 0, up_linux_fs_base = 0, up_path = [], up_fds = replicate K64_USER_FD_MAX no_fd\<rparr>"

definition no_pipe :: k64_user_pipe where
  "no_pipe = fresh_pipe\<lparr>pp_used := False, pp_read_refs := 0, pp_write_refs := 0\<rparr>"

text \<open>The state when the kernel starts, for any accounts and any content of the shared buffer.\<close>

definition um_start :: "'g usermode \<Rightarrow> bool" where
  "um_start s \<longleftrightarrow> process_table s = replicate K64_USER_PROCESS_MAX no_process \<and> pipe_table s = replicate K64_USER_PIPE_MAX no_pipe \<and>
     um_next_pid s = 5000 \<and> length (cx_fallback_fds (active_ctx s)) = K64_USER_FD_MAX"

text \<open>
  \<open>um_runs s t\<close>: \<open>t\<close> is reached from \<open>s\<close> by operations in any order and for any requests. A program that is run by an
  operation, as a child or by the loader, is itself a sequence of such operations: it starts in the state in
  which the operation starts it, and the operation goes on from the state \<open>u\<close> it reaches. The other rules are the
  end of a process by a fault or an emergency exit, the calls of Linux programs that change their process, the change of the running
  process, and what the rest of the kernel does to the fields that are not tables.
\<close>

inductive um_runs :: "'g usermode \<Rightarrow> 'g usermode \<Rightarrow> bool" where
  stop: "um_runs s s"
| info: "um_runs s t \<Longrightarrow> um_runs s (snd (proc_info_service_call req t))"
| spawn: "um_runs s t \<Longrightarrow> few_pids t \<Longrightarrow> um_runs s (snd (proc_spawn_service_call req t))"
| wait: "um_runs s t \<Longrightarrow> um_runs t u \<Longrightarrow>
    um_runs s (snd (proc_wait_service_call (env\<lparr>um_run := \<lambda>_ _ _ _ _. (ok, u)\<rparr>) req t))"
| exit: "um_runs s t \<Longrightarrow> um_runs s (snd (proc_exit_service_call req t))"
| getpid: "um_runs s t \<Longrightarrow> um_runs s (snd (proc_getpid_service_call req t))"
| write_call: "um_runs s t \<Longrightarrow> um_runs s (snd (io_write_service_call req t))"
| open_file: "um_runs s t \<Longrightarrow> um_runs s (snd (io_open_service_call env req t))"
| read_call: "um_runs s t \<Longrightarrow> um_runs s (snd (io_read_service_call env req t))"
| close: "um_runs s t \<Longrightarrow> um_runs s (snd (io_close_service_call req t))"
| pipe: "um_runs s t \<Longrightarrow> um_runs s (snd (io_pipe_service_call req t))"
| execute: "um_runs s t \<Longrightarrow> pid_left pid t \<Longrightarrow>
    (\<And>i t1 t2. process_alloc path e c parent pid t = (Some i, t1) \<Longrightarrow>
       prepare_linux_heap env i (activate_process i t1) = (True, t2) \<Longrightarrow> um_runs t2 u) \<Longrightarrow>
    um_runs s (snd (k64_usermode_execute_named_ex (env\<lparr>um_enter := \<lambda>_ _ _ _. (result, u)\<rparr>) pr c e st path parent pid t))"
| nested: "um_runs s t \<Longrightarrow> um_runs t u \<Longrightarrow>
    um_runs s (snd (k64_usermode_execute_nested_path_args (env\<lparr>um_run := \<lambda>_ _ _ _ _. (ok, u)\<rparr>) path args t))"
| ready: "um_runs s t \<Longrightarrow> um_runs t u \<Longrightarrow>
    um_runs s (snd (run_ready_child_for_parent (env\<lparr>um_run := \<lambda>_ _ _ _ _. (ok, u)\<rparr>) parent t))"
| background: "um_runs s t \<Longrightarrow> um_runs t u \<Longrightarrow>
    um_runs s (k64_usermode_poll_background (env\<lparr>um_run := \<lambda>_ _ _ _ _. (ok, u)\<rparr>) t)"
| ended: "um_runs s t \<Longrightarrow> um_runs s (process_finish i st code t)"
| linux: "um_runs s t \<Longrightarrow> i < K64_USER_PROCESS_MAX \<Longrightarrow>
    um_runs s (set_process i (\<lambda>p. p\<lparr>up_linux_brk := a, up_linux_mmap_next := b, up_linux_fs_base := c, up_personality := r,
      up_fault_vector := v, up_fault_rip := w\<rparr>) t)"
| switch: "um_runs s t \<Longrightarrow> length (cx_fallback_fds ctx) = K64_USER_FD_MAX \<Longrightarrow> um_runs s (t\<lparr>active_ctx := ctx\<rparr>)"
| other: "um_runs s t \<Longrightarrow>
    um_runs s (t\<lparr>fs_raw_buffer := buf, um_user := acc, um_ticks := n, um_task := task, next_process_personality := r\<rparr>)"

lemma um_start_ok: "um_start s \<Longrightarrow> um_ok s"
  by (simp add: um_start_def um_ok_def no_process_def no_pipe_def pipe_ok_def fresh_pipe_def pids_ok_def list_all_length)

lemmas calls_keep = proc_calls_keep [unfolded um_keeps_def, rule_format] io_write_keeps [unfolded um_keeps_def, rule_format]
  io_open_keeps [unfolded um_keeps_def, rule_format] io_read_keeps [unfolded um_keeps_def, rule_format]
  io_close_keeps [unfolded um_keeps_def, rule_format] io_pipe_keeps [unfolded um_keeps_def, rule_format]

lemmas programs_keep = proc_wait_ok nested_ok ready_child_ok background_ok

lemma heap_enter [simp]: "prepare_linux_heap (env\<lparr>um_enter := f\<rparr>) = prepare_linux_heap env"
  by (simp add: prepare_linux_heap_def fun_eq_iff)

lemma um_runs_ok: "um_runs s t \<Longrightarrow> um_ok s \<Longrightarrow> um_ok t"
proof (induction rule: um_runs.induct)
  case (execute s t pid path e c parent env u result pr st)
  show ?case
    by (rule execute_ok) (use execute in \<open>auto simp: heap_enter\<close>)
next
  case (linux s t i a b c r v w)
  then show ?case using um_okD(2) [of t i] by (intro set_process_ok) auto
next
  case (other s t buf acc n task r)
  then show ?case by (simp add: um_ok_def)
qed (auto simp: calls_keep proc_spawn_ok programs_keep process_finish_ok ctx_ok)

text \<open>C34: In every state of user mode that is reached from the start by the calls of the process and io services,
  by programs that start, run, end or fault, to any depth, and by switches between processes, no two processes have the same identifier, every
  identifier is below the next one, every process has its sixteen handles, and the ring buffer of every pipe
  is well formed. A program that runs is a sequence of these operations; a process is entered or spawned only while the
  identifiers have not run out (\<open>pid_left\<close>, \<open>few_pids\<close>).\<close>

theorem usermode_tables_invariant:
  assumes "um_start s\<^sub>0" and "um_runs s\<^sub>0 s"
  shows "length (process_table s) = K64_USER_PROCESS_MAX \<and>
    (\<forall>i < K64_USER_PROCESS_MAX. \<forall>j < K64_USER_PROCESS_MAX. up_used (process_table s ! i) \<and> up_used (process_table s ! j) \<and>
       up_pid (process_table s ! i) = up_pid (process_table s ! j) \<longrightarrow> i = j) \<and>
    (\<forall>i < K64_USER_PROCESS_MAX. (up_used (process_table s ! i) \<longrightarrow> up_pid (process_table s ! i) < um_next_pid s) \<and>
       length (up_fds (process_table s ! i)) = K64_USER_FD_MAX) \<and>
    length (pipe_table s) = K64_USER_PIPE_MAX \<and> (\<forall>k < K64_USER_PIPE_MAX. pipe_ok (pipe_table s ! k))"
  using um_okD [OF um_runs_ok [OF assms(2) um_start_ok [OF assms(1)]]] by (auto simp: pids_ok_def)

section \<open>Waiting for a child\<close>

lemma find_process:
  assumes "um_ok s" and "i < K64_USER_PROCESS_MAX" and "up_used (process_table s ! i)" and "up_pid (process_table s ! i) = pid" and "pid \<noteq> 0"
  shows "process_find_pid pid s = Some i"
proof -
  have "index_of (is_process pid) (process_table s) \<noteq> None"
    using assms(2-4) um_okD(1) [OF assms(1)] nth_mem [of i "process_table s"] by (auto simp: index_of_None is_process_def)
  then obtain k where k: "index_of (is_process pid) (process_table s) = Some k" by blast
  then have "k < length (process_table s)" "up_used (process_table s ! k)" "up_pid (process_table s ! k) = pid"
    using index_of_Some [OF k] by (simp_all add: is_process_def)
  then have "k = i" using assms um_okD(1,6) [OF assms(1)] by (simp add: pids_ok_def)
  then show ?thesis using k assms(5) by (simp add: process_find_pid_def)
qed

lemma reaped_not_found:
  assumes "um_ok s" and "i < K64_USER_PROCESS_MAX" and "up_used (process_table s ! i)" and "up_pid (process_table s ! i) = pid" and "pid \<noteq> 0"
  shows "process_find_pid pid (process_reap (Some i) s) = None"
proof -
  let ?t = "process_reap (Some i) s"
  have len: "length (process_table s) = K64_USER_PROCESS_MAX" using assms(1) by (rule um_okD)
  have t: "process_table ?t = (process_table s)[i := process_table ?t ! i]" "\<not> up_used (process_table ?t ! i)"
    using assms(2,3) len by (simp_all add: process_reap_def live_slot_def set_process_def)
  have "\<not> is_process pid (process_table ?t ! k)" if "k < length (process_table s)" for k
  proof (cases "k = i")
    case False
    then have "process_table ?t ! k = process_table s ! k" by (subst t(1)) simp
    moreover have "\<not> (up_used (process_table s ! k) \<and> up_pid (process_table s ! k) = pid)"
      using False that assms(2-4) um_okD(6) [OF assms(1)] len by (auto simp: pids_ok_def)
    ultimately show ?thesis by (simp add: is_process_def)
  qed (use t(2) in \<open>simp add: is_process_def\<close>)
  moreover have "length (process_table ?t) = length (process_table s)" by (subst t(1)) simp
  ultimately have "index_of (is_process pid) (process_table ?t) = None" by (auto simp: index_of_None in_set_conv_nth)
  then show ?thesis using assms(5) by (simp add: process_find_pid_def)
qed

text \<open>C35: A parent gets the exit code of a finished child exactly once: waiting for it answers with the
  code and takes the child out of the table, so that the same call afterwards finds no such process; nobody
  else can take the code.\<close>

theorem wait_delivers_exit_code_once:
  assumes "um_ok s" and "i < K64_USER_PROCESS_MAX" and "up_used (process_table s ! i)" and "up_pid (process_table s ! i) = pid" and "pid \<noteq> 0"
    and "up_state (process_table s ! i) \<noteq> K64_USER_PROCESS_RUNNING"
    and "rq_in req = Some (le_enc 8 pid @ le_enc 8 flags)" and "flags = K64_WAIT_BLOCK \<or> flags = K64_WAIT_NOHANG" and "rq_out req = Some n" and "8 \<le> n"
  shows "if rq_caller_pid req = up_parent_pid (process_table s ! i)
    then \<exists>t. proc_wait_service_call env req s = um_reply K64_OK (le_enc 8 (word_of_int (up_exit_code (process_table s ! i)) :: u64)) t \<and>
      \<not> up_used (process_table t ! i) \<and> proc_wait_service_call env req t = um_answer K64_ERR_NOENT t
    else proc_wait_service_call env req s = um_answer K64_ERR_NOTCHILD s"
proof -
  have found: "process_find_pid pid s = Some i" using assms(1-5) by (rule find_process)
  have gone: "process_find_pid pid (process_reap (Some i) s) = None" using assms(1-5) by (rule reaped_not_found)
  have dec: "le_dec (bytes_at 0 8 (le_enc 8 pid @ le_enc 8 flags)) = pid" "le_dec (bytes_at 8 8 (le_enc 8 pid @ le_enc 8 flags)) = flags"
    by (simp_all add: bytes_at_head bytes_at_skip bytes_at_0 le_dec_le_enc)
  have fl: "\<not> (flags \<noteq> K64_WAIT_BLOCK \<and> flags \<noteq> K64_WAIT_NOHANG)" using assms(8) by blast
  have "\<not> up_used (process_table (process_reap (Some i) s) ! i)"
    using assms(2,3) um_okD(1) [OF assms(1)] by (simp add: process_reap_def live_slot_def set_process_def)
  moreover have "proc_wait_service_call env req (process_reap (Some i) s) = um_answer K64_ERR_NOENT (process_reap (Some i) s)"
    using assms(7,9,10) dec fl gone by (simp add: proc_wait_service_call_def Let_def del: de_Morgan_conj)
  ultimately show ?thesis
    using assms(6,7,9,10) dec fl found by (auto simp add: proc_wait_service_call_def Let_def reap_child_def simp del: de_Morgan_conj)
qed

section \<open>A handle without a pipe\<close>

lemma current_slot_set: "current_slot (set_fds ds s) = current_slot s"
  by (auto simp: current_slot_def set_fds_def set_process_def live_slot_def nth_list_update split: option.splits)

lemma current_fds_set:
  assumes "um_ok s"
  shows "current_fds (set_fds ds s) = ds"
proof (cases "current_slot s")
  case None
  then show ?thesis by (simp add: current_fds_def current_slot_set) (simp add: set_fds_def)
next
  case (Some k)
  then have "k < length (process_table s)" using live_slot_Some [of _ s k] by (auto simp: current_slot_def)
  then show ?thesis using Some by (simp add: current_fds_def current_slot_set) (simp add: set_fds_def set_process_def)
qed

lemma set_fds_pipes [simp]: "pipe_table (set_fds ds s) = pipe_table s"
  by (simp add: set_fds_def set_process_def split: option.splits)

lemma set_pipe_fds [simp]: "current_fds (set_pipe i f s) = current_fds s"
  by (simp add: current_fds_def current_slot_def live_slot_def set_pipe_def cong: option.case_cong)

lemma handle_word:
  assumes "d < K64_USER_FD_MAX"
  shows "sint (of_nat (d + 3) :: u64) \<noteq> 0" and "get_fd (of_nat (d + 3)) s = (if uf_used (current_fds s ! d) then Some d else None)"
proof -
  have u: "unat (of_nat (d + 3) :: u64) = d + 3" using assms by (simp add: unat_of_nat take_bit_nat_eq_self K64_USER_FD_MAX_def del: of_nat_add)
  then have "(of_nat (d + 3) :: u64) \<noteq> 0" by (metis add_eq_0_iff_both_eq_0 unat_0 zero_neq_numeral)
  then show "sint (of_nat (d + 3) :: u64) \<noteq> 0" by (simp only: signed_eq_0_iff not_False_eq_True)
  have "unat (of_nat (d + 3) - 3 :: u64) = d" using assms by (simp add: unat_of_nat take_bit_nat_eq_self K64_USER_FD_MAX_def)
  moreover have "\<not> (of_nat (d + 3) :: u64) < 3" using u by (simp add: word_less_nat_alt del: of_nat_add)
  ultimately show "get_fd (of_nat (d + 3)) s = (if uf_used (current_fds s ! d) then Some d else None)"
    using assms by (simp add: get_fd_def Let_def del: of_nat_add)
qed

lemma io_read_pipe:
  assumes "um_ok u" and d: "d < K64_USER_FD_MAX" and i: "i < K64_USER_PIPE_MAX"
    and h: "current_fds u ! d = \<lparr>uf_used = True, uf_kind = K64_USER_FD_PIPE_READ, uf_size = 0, uf_offset = 0, uf_pipe_index = int i\<rparr>"
    and p: "pp_used (pipe_table u ! i)" "pp_size (pipe_table u ! i) > 0" and m: "m \<le> n" "unat (of_nat m :: u64) = m"
    and req: "rq_in req = Some (le_enc 8 (of_nat (d + 3) :: u64) @ le_enc 8 (of_nat m :: u64))" "rq_out req = Some n" "0 < n"
  shows "\<exists>v. io_read_service_call env req u = um_reply (int (min m (pp_size (pipe_table u ! i)))) (take m (pipe_bytes (pipe_table u ! i))) v"
proof -
  let ?in = "le_enc 8 (of_nat (d + 3) :: u64) @ le_enc 8 (of_nat m :: u64)"
  have dec: "le_dec (bytes_at 0 8 ?in) = (of_nat (d + 3) :: u64)" "le_dec (bytes_at 8 8 ?in) = (of_nat m :: u64)"
    by (simp_all add: bytes_at_head bytes_at_skip bytes_at_0 le_dec_le_enc del: of_nat_add)
  have live: "live_pipe (int i) u = Some i" using i p(1) by (simp add: live_pipe_def)
  obtain r bs q where q: "pipe_read m (pipe_table u ! i) = ((r, bs), q)" by (metis surj_pair)
  have "pipe_bytes (pipe_table u ! i) \<noteq> []" using p(2) length_pipe_bytes [of "pipe_table u ! i"] by (auto simp del: length_pipe_bytes)
  then have "(int (min m (pp_size (pipe_table u ! i))), take m (pipe_bytes (pipe_table u ! i))) = (r, bs)"
    using pipe_read_queue [OF um_okD(5) [OF assms(1) i], of m] p(2) q length_pipe_bytes [of "pipe_table u ! i"]
    by (auto simp: queue_read_def min.commute split: if_splits)
  then show ?thesis
    using handle_word(1) [OF d] handle_word(2) [OF d, of u] h live q req m
    by (auto simp: io_read_service_call_def dec Let_def simp del: of_nat_add)
qed

lemma index_of_first:
  "index_of P xs = Some i \<Longrightarrow> P y \<Longrightarrow> index_of P (xs[i := y]) = Some i"
  by (induction xs arbitrary: i) (auto split: if_splits)

text \<open>C40: The limit of the separation of pipes: when a process has one handle left, creating a pipe fails, but the
  process keeps a handle for reading it while the pipe counts as free. The next pipe created by any process
  is the same one, and the handle reads what waits in it.\<close>

theorem failed_pipe_leaves_handle:
  assumes "um_ok s" and one: "index_of (\<lambda>d. \<not> uf_used d) (current_fds s) = Some d" "\<And>j. j < K64_USER_FD_MAX \<Longrightarrow> j \<noteq> d \<Longrightarrow> uf_used (current_fds s ! j)"
    and pipe_free: "index_of (\<lambda>p. \<not> pp_used p) (pipe_table s) = Some i" and "rq_out req = Some n" "8 \<le> n"
  shows "\<exists>t. io_pipe_service_call req s = um_answer K64_ERR_FULL t \<and>
    current_fds t ! d = \<lparr>uf_used = True, uf_kind = K64_USER_FD_PIPE_READ, uf_size = 0, uf_offset = 0, uf_pipe_index = int i\<rparr> \<and>
    fst (pipe_alloc t) = Some i \<and>
    (\<forall>u m input. um_ok u \<longrightarrow> current_fds u ! d = current_fds t ! d \<longrightarrow> pp_used (pipe_table u ! i) \<longrightarrow> pp_size (pipe_table u ! i) > 0 \<longrightarrow> m \<le> n \<longrightarrow>
       unat (of_nat m :: u64) = m \<longrightarrow> input = le_enc 8 (of_nat (d + 3) :: u64) @ le_enc 8 (of_nat m :: u64) \<longrightarrow>
       (\<exists>v. io_read_service_call env (req\<lparr>rq_in := Some input\<rparr>) u =
          um_reply (int (min m (pp_size (pipe_table u ! i)))) (take m (pipe_bytes (pipe_table u ! i))) v))"
proof -
  define h where "h = \<lparr>uf_used = True, uf_kind = K64_USER_FD_PIPE_READ, uf_size = 0, uf_offset = 0, uf_pipe_index = int i\<rparr>"
  define s1 where "s1 = set_pipe i (\<lambda>p. p\<lparr>pp_used := True, pp_read_pos := 0, pp_write_pos := 0, pp_size := 0, pp_read_refs := 1, pp_write_refs := 1\<rparr>) s"
  have alloc: "pipe_alloc s = (Some i, s1)" by (simp add: pipe_alloc_def pipe_free s1_def)
  have ok1: "um_ok s1" using pipe_alloc_ok [OF assms(1)] alloc by simp
  have fds: "current_fds s1 = current_fds s" by (simp add: s1_def)
  have d: "d < length (current_fds s)" "length (current_fds s) = K64_USER_FD_MAX" "i < length (pipe_table s)"
    using index_of_Some [OF one(1)] index_of_Some [OF pipe_free] current_fds_length [OF assms(1)] by simp_all
  define s2 where "s2 = set_fds ((current_fds s)[d := h]) s1"
  have rd: "alloc_fd_pipe i K64_USER_FD_PIPE_READ s1 = (int d + 3, s2)"
    by (simp add: alloc_fd_pipe_def alloc_fd_def fds one(1) s2_def h_def)
  have f2: "current_fds s2 = (current_fds s)[d := h]" by (simp add: s2_def current_fds_set [OF ok1])
  have "index_of (\<lambda>d. \<not> uf_used d) (current_fds s2) = None"
    using one(2) d by (auto simp: index_of_None f2 in_set_conv_nth nth_list_update h_def)
  then have wr: "alloc_fd_pipe i K64_USER_FD_PIPE_WRITE s2 = (- 1, s2)" by (simp add: alloc_fd_pipe_def alloc_fd_def)
  define t where "t = set_pipe i (\<lambda>p. p\<lparr>pp_used := False\<rparr>) s2"
  have call: "io_pipe_service_call req s = um_answer K64_ERR_FULL t"
    using assms(5,6) by (simp add: io_pipe_service_call_def alloc rd wr t_def)
  have th: "current_fds t ! d = h" using d by (simp add: t_def f2)
  have "pipe_table t = (pipe_table s)[i := (pipe_table s1 ! i)\<lparr>pp_used := False\<rparr>]"
    using d(3) by (simp add: t_def s2_def s1_def set_pipe_def)
  then have "fst (pipe_alloc t) = Some i" using index_of_first [OF pipe_free] by (simp add: pipe_alloc_def)
  moreover have "\<exists>v. io_read_service_call env (req\<lparr>rq_in := Some input\<rparr>) u =
      um_reply (int (min m (pp_size (pipe_table u ! i)))) (take m (pipe_bytes (pipe_table u ! i))) v"
    if u: "um_ok u" "current_fds u ! d = current_fds t ! d" "pp_used (pipe_table u ! i)" "pp_size (pipe_table u ! i) > 0" "m \<le> n"
      "unat (of_nat m :: u64) = m" "input = le_enc 8 (of_nat (d + 3) :: u64) @ le_enc 8 (of_nat m :: u64)" for u m input
    using io_read_pipe [OF u(1) _ _ _ u(3-6), of d "req\<lparr>rq_in := Some input\<rparr>" env] u(2,7) d th assms(5,6) um_okD(4) [OF assms(1)]
    by (simp add: h_def del: of_nat_add)
  ultimately show ?thesis using call th unfolding h_def by blast
qed

section \<open>Samples\<close>

definition idle_env :: "unit um_env" where
  "idle_env = \<lparr>um_run = (\<lambda>_ _ _ _ s. (False, s)), um_enter = (\<lambda>_ _ _ s. (0, s)), um_heap = (\<lambda>_. False), um_stdin = (\<lambda>_ _. []), um_failed_read = id\<rparr>"

definition sample_um :: "unit usermode" where
  "sample_um = \<lparr>process_table = replicate K64_USER_PROCESS_MAX no_process, pipe_table = replicate K64_USER_PIPE_MAX no_pipe, um_next_pid = 5000,
     next_process_personality = K64_PERSONALITY_NATIVE, spawn_ctx = [],
     active_ctx = \<lparr>cx_result = 0, cx_active = False, cx_scheduler_unlocked = False, cx_process_index = None, cx_fallback_fds = replicate K64_USER_FD_MAX no_fd\<rparr>,
     fs_raw_buffer = [], um_ticks = 0, um_task = None, um_user = undefined\<rparr>"

definition um_request :: "u64 \<Rightarrow> bytes \<Rightarrow> k64_service_call_request" where
  "um_request caller input = \<lparr>rq_caller_pid = caller, rq_caller_uid = 0, rq_caller_flags = 0, rq_service = [], rq_method = [], rq_in = Some input, rq_out = Some 8, rq_flags = 0\<rparr>"

lemma sample_um_start: "um_start sample_um"
  by (simp add: um_start_def sample_um_def)

text \<open>A program is entered as process 5000 in slot 0, makes a pipe and comes back.\<close>

definition sample_entered :: "unit usermode" where
  "sample_entered = snd (process_alloc (Some ''/ex/a.elf'') 4096 0 0 0 sample_um)"

definition sample_left :: "unit usermode" where
  "sample_left = snd (k64_usermode_execute_named_ex
     (idle_env\<lparr>um_enter := \<lambda>_ _ _ _. (7, snd (io_pipe_service_call (um_request 5000 []) (activate_process 0 sample_entered)))\<rparr>)
     True 0 4096 8192 (Some ''/ex/a.elf'') 0 0 sample_um)"

lemma sample_alloc:
  "process_alloc (Some ''/ex/a.elf'') 4096 0 0 0 sample_um = (Some 0, sample_entered)"
  "prepare_linux_heap env 0 (activate_process 0 sample_entered) = (True, activate_process 0 sample_entered)"
proof -
  have "process_slot 0 sample_um = Some 0"
    by (simp add: process_slot_def sample_um_def no_process_def K64_USER_PROCESS_MAX_def eval_nat_numeral)
  moreover have "process_table sample_um ! 0 = no_process" by (simp add: sample_um_def K64_USER_PROCESS_MAX_def)
  ultimately show "process_alloc (Some ''/ex/a.elf'') 4096 0 0 0 sample_um = (Some 0, sample_entered)"
    by (simp add: sample_entered_def process_alloc_def Let_def case_prod_beta)
  have "up_personality (process_table sample_entered ! 0) = K64_PERSONALITY_NATIVE"
    using \<open>process_slot 0 sample_um = Some 0\<close> \<open>process_table sample_um ! 0 = no_process\<close>
    by (simp add: sample_entered_def process_alloc_def Let_def case_prod_beta set_process_def k64_usermode_next_pid_def no_process_def)
      (simp add: sample_um_def K64_USER_PROCESS_MAX_def)
  then show "prepare_linux_heap env 0 (activate_process 0 sample_entered) = (True, activate_process 0 sample_entered)"
    by (simp add: prepare_linux_heap_def activate_process_def ctx_clear_def Let_def)
qed

theorem usermode_tables_invariant_witness:
  "um_runs sample_um sample_left \<and> length (process_table sample_left) = K64_USER_PROCESS_MAX \<and>
   length (pipe_table sample_left) = K64_USER_PIPE_MAX \<and> pipe_ok (pipe_table sample_left ! 0) \<and>
   length (up_fds (process_table sample_left ! 0)) = K64_USER_FD_MAX"
proof -
  have "pid_left 0 sample_um" by (simp add: pid_left_def sample_um_def)
  then have "um_runs sample_um sample_left"
    unfolding sample_left_def by (rule um_runs.execute [OF um_runs.stop]) (auto simp: sample_alloc intro!: um_runs.pipe um_runs.stop)
  moreover have "0 < K64_USER_PROCESS_MAX" "0 < K64_USER_PIPE_MAX" by (simp_all add: K64_USER_PROCESS_MAX_def K64_USER_PIPE_MAX_def)
  ultimately show ?thesis using usermode_tables_invariant [OF sample_um_start] by blast
qed

definition sample_child :: "unit usermode" where
  "sample_child = sample_um\<lparr>process_table := (replicate K64_USER_PROCESS_MAX no_process)[0 := no_process\<lparr>up_used := True, up_pid := 4001, up_parent_pid := 4000,
     up_state := K64_USER_PROCESS_ZOMBIE, up_exit_code := 7\<rparr>]\<rparr>"

lemma sample_child_ok: "um_ok sample_child"
proof -
  have "pids_ok ((replicate K64_USER_PROCESS_MAX no_process)[0 := no_process\<lparr>up_used := True, up_pid := 4001, up_parent_pid := 4000,
     up_state := K64_USER_PROCESS_ZOMBIE, up_exit_code := 7\<rparr>]) (5000 :: u64)"
    by (rule pids_ok_new [where nxt = 5000]) (auto simp: pids_ok_def no_process_def)
  moreover have "list_all (\<lambda>p. length (up_fds p) = K64_USER_FD_MAX) ((replicate K64_USER_PROCESS_MAX no_process)[0 := no_process\<lparr>up_used := True, up_pid := 4001, up_parent_pid := 4000,
     up_state := K64_USER_PROCESS_ZOMBIE, up_exit_code := 7\<rparr>])"
    by (rule list_all_upd) (simp_all add: no_process_def list_all_length)
  moreover have "um_ok sample_um" using sample_um_start by (rule um_start_ok)
  ultimately show ?thesis by (simp add: sample_child_def um_ok_def) (simp add: sample_um_def)
qed

theorem wait_delivers_exit_code_once_witness:
  "\<exists>t. proc_wait_service_call idle_env (um_request 4000 (le_enc 8 (4001 :: u64) @ le_enc 8 K64_WAIT_BLOCK)) sample_child = um_reply K64_OK (le_enc 8 (7 :: u64)) t"
proof -
  have p: "up_used (process_table sample_child ! 0)" "up_pid (process_table sample_child ! 0) = 4001" "up_parent_pid (process_table sample_child ! 0) = 4000"
    "up_state (process_table sample_child ! 0) \<noteq> K64_USER_PROCESS_RUNNING" "up_exit_code (process_table sample_child ! 0) = 7"
    by (simp_all add: sample_child_def K64_USER_PROCESS_MAX_def no_process_def)
  have "0 < K64_USER_PROCESS_MAX" "(4001 :: u64) \<noteq> 0" by (simp_all add: K64_USER_PROCESS_MAX_def)
  from wait_delivers_exit_code_once [OF sample_child_ok this(1) p(1,2) this(2) p(4), of "um_request 4000 (le_enc 8 (4001 :: u64) @ le_enc 8 K64_WAIT_BLOCK)" K64_WAIT_BLOCK 8 idle_env]
  show ?thesis using p by (auto simp: um_request_def)
qed

definition sample_last_handle :: "unit usermode" where
  "sample_last_handle = sample_um\<lparr>active_ctx := (active_ctx sample_um)\<lparr>cx_fallback_fds := replicate 15 (no_fd\<lparr>uf_used := True\<rparr>) @ [no_fd]\<rparr>\<rparr>"

lemma index_of_replicate: "\<not> P x \<Longrightarrow> P y \<Longrightarrow> index_of P (replicate n x @ [y]) = Some n"
  by (induction n) simp_all

theorem failed_pipe_leaves_handle_witness:
  "\<exists>t. io_pipe_service_call (um_request 0 []) sample_last_handle = um_answer K64_ERR_FULL t \<and> uf_used (current_fds t ! 15)"
proof -
  have fds: "current_fds sample_last_handle = replicate 15 (no_fd\<lparr>uf_used := True\<rparr>) @ [no_fd]"
    by (simp add: current_fds_def current_slot_def live_slot_def sample_last_handle_def sample_um_def)
  have ok: "um_ok sample_last_handle" unfolding sample_last_handle_def
    by (intro ctx_ok um_start_ok [OF sample_um_start]) (simp add: K64_USER_FD_MAX_def)
  have one: "index_of (\<lambda>d. \<not> uf_used d) (current_fds sample_last_handle) = Some 15"
    by (simp add: fds index_of_replicate no_fd_def)
  have rest: "uf_used (current_fds sample_last_handle ! j)" if "j < K64_USER_FD_MAX" "j \<noteq> 15" for j
    using that by (simp add: fds nth_append K64_USER_FD_MAX_def)
  have pipe: "index_of (\<lambda>p. \<not> pp_used p) (pipe_table sample_last_handle) = Some 0"
    by (simp add: sample_last_handle_def sample_um_def K64_USER_PIPE_MAX_def no_pipe_def eval_nat_numeral)
  have req: "rq_out (um_request 0 []) = Some 8" by (simp add: um_request_def)
  from failed_pipe_leaves_handle [OF ok one rest pipe req order_refl, of idle_env]
  obtain t where "io_pipe_service_call (um_request 0 []) sample_last_handle = um_answer K64_ERR_FULL t" and
    "current_fds t ! 15 = \<lparr>uf_used = True, uf_kind = K64_USER_FD_PIPE_READ, uf_size = 0, uf_offset = 0, uf_pipe_index = int 0\<rparr>" by blast
  then show ?thesis by auto
qed

end
