(* ===== verification/Spec2Isabelle.thy ===== *)
theory Spec2Isabelle
  imports K64_String Shell_Cmd Pmm Sched Vmm_User Vmm_Frames Klcs Xfs_Props Net_Stream Net_Sent Kpm_Props User_Inv Demosvc_Props Process_Props
begin

text \<open>
  Verification of K64, a 64-bit hobby kernel written in C.

  \<^bold>\<open>The program.\<close> A boot loader enters \<^verbatim>\<open>k64_kernel.c\<close>, which starts the physical memory manager, the
  virtual memory manager, the scheduler, the drivers, the block layer and the file-system service, and then a
  table of services: users, packages, network, shell, and the Linux compatibility service. Storage is a stack:
  a driver offers sectors, \<^verbatim>\<open>k64_block.c\<close> offers devices and partitions, \<^verbatim>\<open>k64_xfs_cache.c\<close> a write-back
  cache of 4096-byte blocks, \<^verbatim>\<open>k64_xfs_journal.c\<close> a redo log of metadata blocks, \<^verbatim>\<open>k64_xfs.c\<close> the file system
  K64XFS on top of them, and \<^verbatim>\<open>k64_fs.c\<close> path normalisation and the operations that other services call.

  \<^bold>\<open>The theories\<close>, in the order of their imports.

  \<^item> \<open>K64_Prelude\<close>: word types, the outcome of a C function (\<open>Ok\<close>, \<open>Fail\<close> for a false return, \<open>Fault\<close> for an
    access outside an object) and the state functions with early return over it, byte buffers, bit maps.
  \<^item> \<open>K64_String\<close>: \<^verbatim>\<open>k64_string.c\<close> over a store of bytes, and C strings.
  \<^item> \<open>Shell_Cmd\<close>: \<^verbatim>\<open>k64_shell_cmd.c\<close>, the first word of a command line.
  \<^item> \<open>Pmm\<close>: \<^verbatim>\<open>k64_pmm.c\<close>, frame allocation from the memory map the boot loader passes.
  \<^item> \<open>Vmm\<close>: \<^verbatim>\<open>k64_vmm.c\<close>, page tables in a memory of bytes, address spaces, access to user memory.
    \<open>Vmm_Tables\<close>: the tree of tables. \<open>Vmm_Props\<close>, \<open>Vmm_User\<close>, \<open>Vmm_Frames\<close>: mapping, user memory, frames.
  \<^item> \<open>Sched\<close>: \<^verbatim>\<open>k64_sched.c\<close>, the ring of tasks, the timer tick, dispatch, sleeping, blocking, stopping.
  \<^item> \<open>Block\<close>: \<^verbatim>\<open>k64_block.c\<close>, the device table, partitions, checked reads and writes. A driver is a pair of
    functions on a driver state, a parameter; the memory-backed device of the fallback root is an instance.
  \<^item> \<open>Xfs_Format\<close>: \<^verbatim>\<open>k64_xfs_format.h\<close> and \<^verbatim>\<open>.c\<close>, the packed structures as bytes, their checksums.
  \<^item> \<open>Xfs_Cache\<close>: \<^verbatim>\<open>k64_xfs_cache.c\<close>; the locale \<open>fs_disk\<close> says what a device has to do.
  \<^item> \<open>Xfs_Journal\<close>: \<^verbatim>\<open>k64_xfs_journal.c\<close>, and a device that loses power after a number of writes.
  \<^item> \<open>Xfs\<close>: \<^verbatim>\<open>k64_xfs.c\<close>, every operation. \<open>Xfs_View\<close>: what its parts do to the blocks seen through the
    cache. \<open>Xfs_Props\<close>: its properties.
  \<^item> \<open>Fs\<close>: \<^verbatim>\<open>k64_fs.c\<close>, path normalisation, the mount of the root and the wrappers of the operations.
  \<^item> \<open>Klcs\<close>: \<^verbatim>\<open>k64_klcs.c\<close>, ELF validation, path translation, descriptors, emulated files and system calls.

  \<^item> \<open>Net\<close>: \<^verbatim>\<open>k64_net.c\<close>, frames, checksums, caches, DNS, DHCP, ICMP and the HTTP client. \<open>Net_Props\<close>: address
    texts and checksums. \<open>Net_Inv\<close>: well-formed states, reads of a frame. \<open>Net_Stream\<close>: the TCP stream.
    \<open>Net_Sent\<close>: a receiver that checks sent frames by the rule of the protocols, without the code's functions.
  \<^item> \<open>Kpm\<close>: \<^verbatim>\<open>k64_kpm.c\<close>, sources, repository files, packages and the commands, over \<open>Net\<close> and \<open>Fs\<close>.
    \<open>Kpm_Props\<close>: its properties.
  \<^item> \<open>User\<close>: \<^verbatim>\<open>k64_user.c\<close>, accounts, groups, their files, login and sudo, the commands, access decisions.
    \<open>User_Props\<close>: callers without root rights, the accounts file. \<open>User_Inv\<close>: reachable states.
  \<^item> \<open>Service\<close>: \<^verbatim>\<open>k64_system.c\<close>, the registry of services, start and stop, commands, calls with their access
    policy, the mailbox of service processes, the calls of the kernel and the file system. What a registered
    function of another file does is a parameter, a record of functions on the state. \<open>Service_Gate\<close>: the system
    call of \<^verbatim>\<open>k64_usermode.c\<close> by which a process calls a service, with its copies from and to user memory and its
    staging slots, and \<open>service_gate\<close>, the same call on values. \<open>Demosvc\<close>: the service
    program \<^verbatim>\<open>userland/bin/demosvc.c\<close> over its part of the user library. \<open>Service_Props\<close>, \<open>Demosvc_Props\<close>:
    access policy, stopped services, the exchange of messages.
  \<^item> \<open>Process\<close>: \<^verbatim>\<open>k64_usermode.c\<close>, the process table, spawned children, handles and pipes, the calls of the
    services \<^verbatim>\<open>proc\<close> and \<^verbatim>\<open>io\<close>; what runs a program is a parameter. \<open>Process_Props\<close>: its properties.

  A C struct is a record with its fields in the source's order, a static variable a field of the component's
  state record, an integer a word of its width, an output parameter part of the result. A function that
  changes state takes the state and returns it. Fields of on-disk structures keep a prefix (\<open>sb_\<close>, \<open>i_\<close>,
  \<open>de_\<close>) because records share a name space.

  \<^bold>\<open>What is shown.\<close>

  \<^item> Memory: \<open>memmove\<close> for every overlap, string comparison; the frame allocator is first fit, its release
    undoes it, its counters are exact; after initialisation a free frame touches an available region, and lies in
    one when the regions are aligned to frames.
  \<^item> Address spaces: mapping a page changes the translation of that page only; user memory is read as the
    tables say, byte by byte, and what was written is read back; no frame or slot leaks.
  \<^item> Tasks: an invariant of every reachable state; dispatch picks the best task; sleeping tasks wake on time;
    a ready task is dispatched within a bound: ageing rules out starvation.
  \<^item> Storage: partition access stays in the extent of the partition; damage to an inode is
    detected; the cache refines the device; a transaction is atomic under power loss as long as the journal
    holds no commit header of its number; the inode table is a store; extents are allocated first fit and released exactly.
  \<^item> Paths and programs: normalised paths fit their buffers and are the join of their components; the ELF
    validator accepts only files that can be loaded from their bytes; the tables of the compatibility service
    keep their invariant.
  \<^item> Network: an independent receiver accepts the checksums of what is sent, addresses survive printing and
    parsing, received frames are read inside their bounds, reachable states are well formed when frames come with
    honest lengths, and the calls of clients stay inside their buffers there; the HTTP client holds a prefix of the
    peer's stream.
  \<^item> Packages: a finished download is complete, a damaged package is rejected before the file system changes,
    a valid one is installed in its directory and nowhere else, the list of sources round-trips.
  \<^item> Accounts: callers without root rights change nothing but their session and their own password, and become
    root only as sudoers or with a root password; reachable tables are in order; the accounts file round-trips.
  \<^item> Services: a caller outside the kernel reaches only calls that are open to him in running services, verified
    unless of the kernel class; a stopped service cannot be reached; a call of a service process is the procedure
    call of its program, when the execution of that program makes the program's system calls.
  \<^item> Processes: a pipe is a bounded queue; identifiers are unique and tables well formed in every reachable
    state, where a running program is any sequence of the operations, to any depth; a parent gets the exit code of a child once.
  \<^item> Theorems about faults found in the code stand beside the operations they concern: a commit header of an
    older mount can be replayed, \<^verbatim>\<open>..\<close> can be lost in normalisation, a translated path with enough \<^verbatim>\<open>..\<close> leaves the
    compatibility root, an echo request with an overlong length field overruns a buffer, the files of a
    deleted account pass to the account after it, a pipe that could not be created leaves a handle behind.

  \<^bold>\<open>Bounds.\<close> Loops over counters are recursions over lists of numbers, other loops have a measure. The
  listing of versions alone has fuel, the length of its text, and \<open>version_lines_fuel\<close> shows that it is enough. Bit maps of the file system are one block, 32768 bits; an access beyond is a \<open>Fault\<close>
  and \<open>layout_ok\<close> excludes it. The journal has 32 blocks, at most 16 records are kept; \<open>room\<close> says that the
  records of an operation fit.

  \<^bold>\<open>Not modelled.\<close> Drivers and hardware access (ports, interrupts, page-table registers, context
  switches in assembly): the functions of a driver are parameters. The ELF loader and the switch to user mode
  work on saved processor contexts and raw page tables: where processes and the service manager need them
  (executing a program, the identity of the running process) they are parameters. The numbered and the Linux
  system calls copy between user memory and the handles of \<open>Process\<close>.
  Of the service manager, the scan for services at boot and the boot and reload sequences. The
  shell's line editor, terminal output, the boot sequence, the GRUB module, user-land programs and tests
  carry no logic of the components above.
\<close>

end
